(* ===== verification/Prelude.thy ===== *)
theory Prelude
  imports Complex_Main "HOL-Library.List_Lexorder" "HOL-Library.Char_ord"
    "HOL-Library.Product_Lexorder" "HOL-Library.Multiset"
begin

text \<open>
  The parts of Python that every component of the program uses: exceptions as values and
  sequencing of code that may raise, text operations on ASCII strings, and the built-in list
  functions (\<open>sorted\<close>, \<open>max\<close> with a key, \<open>next\<close> over a generator, slices).
  The collections of rewrite rules shared by the component theories are declared here.
\<close>

named_theorems result_simps \<open>inversion of computations that may raise\<close>
named_theorems text_simps \<open>laws of strip, upper and lower\<close>
named_theorems value_simps \<open>values of arithmetic on Decimal and float\<close>

section \<open>Exceptions\<close>

text \<open>
  An exception is its class and its message. \<open>ParserError\<close> is the subclass of
  \<open>ValueError\<close> of \<^verbatim>\<open>app/adapters/parsers.py\<close> and \<open>RequestBudgetExceeded\<close> that of \<open>RuntimeError\<close> of
  \<^verbatim>\<open>app/adapters/source_cache.py\<close>; \<open>InvalidOperation\<close> and \<open>DivisionByZero\<close> are what \<open>decimal\<close> raises in
  its default context. \<open>OtherError\<close> is an exception of code outside the program (a driver, a network
  library), with the name of its class.
\<close>

datatype error =
    ValueError string
  | ParserError string
  | TypeError string
  | KeyError string
  | IndexError string
  | OverflowError string
  | InvalidOperation
  | DivisionByZero
  | ZeroDivisionError string
  | TimeoutError string
  | RequestBudgetExceeded string
  | OtherError string string

type_synonym 'a result = "error + 'a"

fun error_name :: "error \<Rightarrow> string" where
  "error_name (ValueError m) = ''ValueError''"
| "error_name (ParserError m) = ''ParserError''"
| "error_name (TypeError m) = ''TypeError''"
| "error_name (KeyError m) = ''KeyError''"
| "error_name (IndexError m) = ''IndexError''"
| "error_name (OverflowError m) = ''OverflowError''"
| "error_name InvalidOperation = ''InvalidOperation''"
| "error_name DivisionByZero = ''DivisionByZero''"
| "error_name (ZeroDivisionError m) = ''ZeroDivisionError''"
| "error_name (TimeoutError m) = ''TimeoutError''"
| "error_name (RequestBudgetExceeded m) = ''RequestBudgetExceeded''"
| "error_name (OtherError c m) = c"

fun error_text :: "error \<Rightarrow> string" where
  "error_text (ValueError m) = m"
| "error_text (ParserError m) = m"
| "error_text (TypeError m) = m"
| "error_text (KeyError m) = m"
| "error_text (IndexError m) = m"
| "error_text (OverflowError m) = m"
| "error_text InvalidOperation = ''[<class 'decimal.InvalidOperation'>]''"
| "error_text DivisionByZero = ''[<class 'decimal.DivisionByZero'>]''"
| "error_text (ZeroDivisionError m) = m"
| "error_text (TimeoutError m) = m"
| "error_text (RequestBudgetExceeded m) = m"
| "error_text (OtherError c m) = m"

text \<open>Sequencing: the first exception ends the computation.\<close>

fun and_then :: "'a result \<Rightarrow> ('a \<Rightarrow> 'b result) \<Rightarrow> 'b result" where
  "and_then (Inl e) f = Inl e"
| "and_then (Inr x) f = f x"

text \<open>A list comprehension whose element expression may raise.\<close>

fun traverse :: "('a \<Rightarrow> 'b result) \<Rightarrow> 'a list \<Rightarrow> 'b list result" where
  "traverse f [] = Inr []"
| "traverse f (x # xs) =
     and_then (f x) (\<lambda>y. and_then (traverse f xs) (\<lambda>ys. Inr (y # ys)))"

text \<open>A loop over a sequence that updates a state and may raise.\<close>

fun foldM :: "('s \<Rightarrow> 'a \<Rightarrow> 's result) \<Rightarrow> 's \<Rightarrow> 'a list \<Rightarrow> 's result" where
  "foldM f s [] = Inr s"
| "foldM f s (x # xs) = and_then (f s x) (\<lambda>t. foldM f t xs)"

definition succeeds :: "'a result \<Rightarrow> bool" where
  "succeeds m \<longleftrightarrow> (case m of Inl e \<Rightarrow> False | Inr x \<Rightarrow> True)"

section \<open>Text\<close>

text \<open>
  \<open>str.strip\<close>, \<open>str.upper\<close>, \<open>str.lower\<close> on ASCII text. White space is tab, line feed, vertical
  tab, form feed, carriage return, the four separators 28 to 31, and the blank.
\<close>

definition spaces :: string where
  "spaces = [CHR 0x09, CHR 0x0A, CHR 0x0B, CHR 0x0C, CHR 0x0D,
             CHR 0x1C, CHR 0x1D, CHR 0x1E, CHR 0x1F, CHR 0x20]"

definition is_space :: "char \<Rightarrow> bool" where
  "is_space c \<longleftrightarrow> c \<in> set spaces"

definition strip :: "string \<Rightarrow> string" where
  "strip s = rev (dropWhile is_space (rev (dropWhile is_space s)))"

definition lower_letters :: string where
  "lower_letters = ''abcdefghijklmnopqrstuvwxyz''"

definition upper_letters :: string where
  "upper_letters = ''ABCDEFGHIJKLMNOPQRSTUVWXYZ''"

definition translate :: "string \<Rightarrow> string \<Rightarrow> char \<Rightarrow> char" where
  "translate from to c = (case map_of (zip from to) c of Some d \<Rightarrow> d | None \<Rightarrow> c)"

definition upper_char :: "char \<Rightarrow> char" where
  "upper_char = translate lower_letters upper_letters"

definition lower_char :: "char \<Rightarrow> char" where
  "lower_char = translate upper_letters lower_letters"

definition upper :: "string \<Rightarrow> string" where
  "upper s = map upper_char s"

definition lower :: "string \<Rightarrow> string" where
  "lower s = map lower_char s"

fun join :: "string \<Rightarrow> string list \<Rightarrow> string" where
  "join sep [] = ''''"
| "join sep [s] = s"
| "join sep (s # ss) = s @ sep @ join sep ss"

text \<open>Decimal printing of integers.\<close>

definition digit_char :: "int \<Rightarrow> char" where
  "digit_char d = ''0123456789'' ! nat (d mod 10)"

function str_pos :: "int \<Rightarrow> string" where
  "str_pos n = (if n < 10 then [digit_char n] else str_pos (n div 10) @ [digit_char n])"
  by pat_completeness auto
termination
  by (relation "measure nat") auto

declare str_pos.simps [simp del]

definition str_int :: "int \<Rightarrow> string" where
  "str_int z = (if z < 0 then ''-'' @ str_pos (- z) else str_pos z)"

text \<open>Zero padding to a width, as in the format \<open>%02d\<close>.\<close>

definition pad0 :: "nat \<Rightarrow> string \<Rightarrow> string" where
  "pad0 w s = replicate (w - length s) CHR ''0'' @ s"

section \<open>Lists\<close>

text \<open>
  \<open>max(xs, key=f)\<close> returns the first element with the greatest key. On the empty sequence the
  built-in raises \<open>ValueError\<close>; the model's callers are non-empty, and \<open>max_by\<close> takes the first
  element apart to say so in its type.
\<close>

fun max_by :: "('a \<Rightarrow> 'k::linorder) \<Rightarrow> 'a \<Rightarrow> 'a list \<Rightarrow> 'a" where
  "max_by f b [] = b"
| "max_by f b (x # xs) = max_by f (if f b < f x then x else b) xs"

fun min_by :: "('a \<Rightarrow> 'k::linorder) \<Rightarrow> 'a \<Rightarrow> 'a list \<Rightarrow> 'a" where
  "min_by f b [] = b"
| "min_by f b (x # xs) = min_by f (if f x < f b then x else b) xs"

text \<open>\<open>next((i for i, x in enumerate(xs) if p(x)), None)\<close>.\<close>

fun find_index :: "('a \<Rightarrow> bool) \<Rightarrow> 'a list \<Rightarrow> nat option" where
  "find_index p [] = None"
| "find_index p (x # xs) = (if p x then Some 0 else map_option Suc (find_index p xs))"

text \<open>\<open>sorted(xs, key=f, reverse=True)\<close> keeps the order of elements with equal keys.\<close>

definition sort_desc :: "('a \<Rightarrow> 'k::linorder) \<Rightarrow> 'a list \<Rightarrow> 'a list" where
  "sort_desc f xs = rev (sort_key f (rev xs))"

text \<open>The elements of a comprehension that filters on \<open>is not None\<close>.\<close>

fun somes :: "'a option list \<Rightarrow> 'a list" where
  "somes [] = []"
| "somes (None # xs) = somes xs"
| "somes (Some x # xs) = x # somes xs"

definition count_where :: "('a \<Rightarrow> bool) \<Rightarrow> 'a list \<Rightarrow> nat" where
  "count_where p xs = length (filter p xs)"

section \<open>Laws\<close>

lemma and_then_Inr [result_simps]:
  "and_then m f = Inr y \<longleftrightarrow> (\<exists>x. m = Inr x \<and> f x = Inr y)"
  by (cases m) auto

lemma and_then_Inl [result_simps]:
  "and_then m f = Inl e \<longleftrightarrow> m = Inl e \<or> (\<exists>x. m = Inr x \<and> f x = Inl e)"
  by (cases m) auto

lemma and_then_assoc: "and_then (and_then m f) g = and_then m (\<lambda>x. and_then (f x) g)"
  by (cases m) auto

lemma succeeds_simps [simp]:
  "\<not> succeeds (Inl e)" "succeeds (Inr x)"
  by (simp_all add: succeeds_def)

lemma succeeds_iff: "succeeds m \<longleftrightarrow> (\<exists>x. m = Inr x)"
  by (cases m) auto

lemma succeeds_and_then [result_simps]:
  "succeeds (and_then m f) \<longleftrightarrow> (\<exists>x. m = Inr x \<and> succeeds (f x))"
  by (cases m) auto

lemma if_Inl_eq_Inr [result_simps]:
  "(if c then Inl e else m) = Inr x \<longleftrightarrow> \<not> c \<and> m = Inr x"
  "(if c then m else Inl e) = Inr x \<longleftrightarrow> c \<and> m = Inr x"
  by auto

lemma traverse_Inr_iff:
  "traverse f xs = Inr ys \<longleftrightarrow> list_all2 (\<lambda>x y. f x = Inr y) xs ys"
  by (induction xs arbitrary: ys) (auto simp: result_simps list_all2_Cons1)

lemma traverse_length: "traverse f xs = Inr ys \<Longrightarrow> length ys = length xs"
  by (simp add: traverse_Inr_iff list_all2_lengthD)

lemma traverse_succeeds_iff: "succeeds (traverse f xs) \<longleftrightarrow> (\<forall>x \<in> set xs. succeeds (f x))"
  by (induction xs) (auto simp: succeeds_iff result_simps)

lemma traverse_Inr_set:
  "traverse f xs = Inr ys \<Longrightarrow> y \<in> set ys \<Longrightarrow> \<exists>x \<in> set xs. f x = Inr y"
  by (induction xs arbitrary: ys) (auto simp: result_simps)

lemma foldM_append: "foldM f s (xs @ ys) = and_then (foldM f s xs) (\<lambda>t. foldM f t ys)"
  by (induction xs arbitrary: s) (auto simp: and_then_assoc)

text \<open>An invariant of a loop that speaks about the part of the sequence already visited.\<close>

lemma foldM_invariant:
  assumes "foldM f s xs = Inr t" "P [] s"
    and "\<And>ys x zs u v. xs = ys @ x # zs \<Longrightarrow> P ys u \<Longrightarrow> f u x = Inr v \<Longrightarrow> P (ys @ [x]) v"
  shows "P xs t"
  using assms
proof (induction xs arbitrary: t rule: rev_induct)
  case Nil
  then show ?case by simp
next
  case (snoc x xs)
  from snoc.prems(1) obtain u where u: "foldM f s xs = Inr u" "f u x = Inr t"
    by (auto simp: foldM_append result_simps)
  have "P xs u"
    by (rule snoc.IH [OF u(1) snoc.prems(2)]) (rule snoc.prems(3), auto)
  then show ?case using snoc.prems(3) [of xs x "[]"] u(2) by simp
qed

lemma foldM_succeeds:
  assumes "P [] s"
    and "\<And>ys x zs u. xs = ys @ x # zs \<Longrightarrow> P ys u \<Longrightarrow> \<exists>v. f u x = Inr v \<and> P (ys @ [x]) v"
  shows "\<exists>t. foldM f s xs = Inr t \<and> P xs t"
  using assms
proof (induction xs rule: rev_induct)
  case Nil
  then show ?case by simp
next
  case (snoc x xs)
  have "\<exists>t. foldM f s xs = Inr t \<and> P xs t"
    by (rule snoc.IH [OF snoc.prems(1)]) (rule snoc.prems(2), auto)
  then obtain t where "foldM f s xs = Inr t" "P xs t" by blast
  moreover from snoc.prems(2) [of xs x "[]", OF _ this(2)]
  obtain v where "f t x = Inr v" "P (xs @ [x]) v" by auto
  ultimately show ?case by (auto simp: foldM_append)
qed

lemma dropWhile_id: "xs = [] \<or> \<not> p (hd xs) \<Longrightarrow> dropWhile p xs = xs"
  by (cases xs) auto

lemma last_rev_dropWhile:
  "xs \<noteq> [] \<Longrightarrow> \<not> p (hd xs) \<Longrightarrow> dropWhile p (rev xs) \<noteq> [] \<and> last (dropWhile p (rev xs)) = hd xs"
proof -
  assume "xs \<noteq> []" and "\<not> p (hd xs)"
  then obtain x ys where xs: "xs = x # ys" and x: "\<not> p x" by (cases xs) auto
  have "dropWhile p (rev ys @ [x]) \<noteq> []"
    using x by (simp add: dropWhile_eq_Nil_conv)
  moreover have "last (dropWhile p (rev ys @ [x])) = x"
    using x by (induction "rev ys") (auto simp: dropWhile_append)
  ultimately show ?thesis using xs by simp
qed

lemma strip_strip [simp, text_simps]: "strip (strip s) = strip s"
proof -
  define t where "t = dropWhile is_space s"
  have t: "t = [] \<or> \<not> is_space (hd t)"
    unfolding t_def using hd_dropWhile by blast
  define u where "u = dropWhile is_space (rev t)"
  have u: "u = [] \<or> \<not> is_space (hd u)"
    unfolding u_def using hd_dropWhile by blast
  have "rev u = [] \<or> \<not> is_space (hd (rev u))"
  proof (cases "t = []")
    case True
    then show ?thesis by (simp add: u_def)
  next
    case False
    with t have "\<not> is_space (hd t)" by simp
    with False have "u \<noteq> [] \<and> last u = hd t"
      unfolding u_def by (rule last_rev_dropWhile)
    with t False show ?thesis by (simp add: hd_rev)
  qed
  then have "dropWhile is_space (rev u) = rev u" by (rule dropWhile_id)
  moreover have "dropWhile is_space u = u" using u by (rule dropWhile_id)
  ultimately have "rev (dropWhile is_space (rev (dropWhile is_space (rev u)))) = rev u"
    by simp
  then show ?thesis unfolding strip_def t_def [symmetric] u_def [symmetric] .
qed

lemma translate_cases: "translate from to c = c \<or> (c \<in> set from \<and> translate from to c \<in> set to)"
  by (auto simp: translate_def split: option.split dest!: map_of_SomeD)
    (auto dest: set_zip_leftD set_zip_rightD)

lemma translate_id: "c \<notin> set from \<Longrightarrow> translate from to c = c"
  by (auto simp: translate_def split: option.split dest!: map_of_SomeD set_zip_leftD)

lemma letters_disjoint:
  "set spaces \<inter> set lower_letters = {}" "set spaces \<inter> set upper_letters = {}"
  "set lower_letters \<inter> set upper_letters = {}"
  by (simp_all add: spaces_def lower_letters_def upper_letters_def)

lemma is_space_upper_char [simp]: "is_space (upper_char c) = is_space c"
  using translate_cases [of lower_letters upper_letters c] letters_disjoint
  by (auto simp: is_space_def upper_char_def)

lemma is_space_lower_char [simp]: "is_space (lower_char c) = is_space c"
  using translate_cases [of upper_letters lower_letters c] letters_disjoint
  by (auto simp: is_space_def lower_char_def)

lemma upper_char_idem [simp]: "upper_char (upper_char c) = upper_char c"
  using translate_cases [of lower_letters upper_letters c] letters_disjoint(3)
  unfolding upper_char_def by (metis IntI empty_iff translate_id)

lemma lower_char_idem [simp]: "lower_char (lower_char c) = lower_char c"
  using translate_cases [of upper_letters lower_letters c] letters_disjoint(3)
  unfolding lower_char_def by (metis IntI empty_iff translate_id)

lemma dropWhile_map_inv: "(\<And>x. p (f x) = p x) \<Longrightarrow> dropWhile p (map f xs) = map f (dropWhile p xs)"
  by (simp add: dropWhile_map comp_def)

lemma strip_upper [simp, text_simps]: "strip (upper s) = upper (strip s)"
  by (simp add: strip_def upper_def rev_map dropWhile_map_inv)

lemma strip_lower [simp, text_simps]: "strip (lower s) = lower (strip s)"
  by (simp add: strip_def lower_def rev_map dropWhile_map_inv)

lemma upper_idem [simp, text_simps]: "upper (upper s) = upper s"
  by (simp add: upper_def)

lemma lower_idem [simp, text_simps]: "lower (lower s) = lower s"
  by (simp add: lower_def)

lemma upper_eq_Nil [simp]: "upper s = [] \<longleftrightarrow> s = []"
  by (simp add: upper_def)

lemma lower_eq_Nil [simp]: "lower s = [] \<longleftrightarrow> s = []"
  by (simp add: lower_def)

lemma strip_eq_Nil: "strip s = [] \<longleftrightarrow> (\<forall>c \<in> set s. is_space c)"
proof -
  have "strip s = [] \<longleftrightarrow> (\<forall>c \<in> set (dropWhile is_space s). is_space c)"
    by (simp add: strip_def)
  also have "\<dots> \<longleftrightarrow> (\<forall>c \<in> set s. is_space c)"
    by (induction s) auto
  finally show ?thesis .
qed

lemma str_pos_not_Nil [simp]: "str_pos n \<noteq> []"
  by (subst str_pos.simps) simp

lemma max_by_in: "max_by f b xs \<in> insert b (set xs)"
  by (induction xs arbitrary: b) auto

lemma max_by_ge: "x \<in> insert b (set xs) \<Longrightarrow> f x \<le> f (max_by f b xs)"
proof (induction xs arbitrary: b x)
  case Nil
  then show ?case by simp
next
  case (Cons y ys)
  let ?c = "if f b < f y then y else b"
  have c: "f ?c \<le> f (max_by f ?c ys)" by (rule Cons.IH) simp
  show ?case
  proof (cases "x \<in> set ys")
    case True
    then show ?thesis using Cons.IH [of x ?c] by simp
  next
    case False
    with Cons.prems have "f x \<le> f ?c" by (auto split: if_splits)
    with c show ?thesis by simp
  qed
qed

lemma min_by_in: "min_by f b xs \<in> insert b (set xs)"
  by (induction xs arbitrary: b) auto

lemma find_index_Some:
  "find_index p xs = Some i \<longleftrightarrow> i < length xs \<and> p (xs ! i) \<and> (\<forall>j<i. \<not> p (xs ! j))"
proof (induction xs arbitrary: i)
  case Nil
  then show ?case by simp
next
  case (Cons x xs)
  then show ?case by (cases i) (auto simp: less_Suc_eq_0_disj nth_Cons')
qed

lemma find_index_None: "find_index p xs = None \<longleftrightarrow> (\<forall>x \<in> set xs. \<not> p x)"
  by (induction xs) auto

lemma mset_sort_desc [simp]: "mset (sort_desc f xs) = mset xs"
  by (simp add: sort_desc_def)

lemma set_sort_desc [simp]: "set (sort_desc f xs) = set xs"
  by (simp add: sort_desc_def)

lemma length_sort_desc [simp]: "length (sort_desc f xs) = length xs"
  by (simp add: sort_desc_def)

lemma sort_desc_sorted: "sorted_wrt (\<lambda>x y. f y \<le> f x) (sort_desc f xs)"
proof -
  have "sorted (map f (sort_key f (rev xs)))" by simp
  then have "sorted_wrt (\<lambda>x y. f x \<le> f y) (sort_key f (rev xs))"
    by (simp add: sorted_map)
  then show ?thesis by (simp add: sort_desc_def sorted_wrt_rev)
qed

lemma sorted_wrt_last:
  assumes "sorted_wrt R xs" "x \<in> set xs" "x \<noteq> last xs"
  shows "R x (last xs)"
proof -
  from assms(2) obtain ys y where "xs = ys @ [y]" by (metis empty_iff list.set(1) rev_exhaust)
  with assms show ?thesis by (auto simp: sorted_wrt_append)
qed

lemma set_somes: "x \<in> set (somes xs) \<longleftrightarrow> Some x \<in> set xs"
  by (induction xs rule: somes.induct) auto

lemma mset_concat_map:
  "mset (concat (map f xs)) = sum_mset (image_mset (\<lambda>x. mset (f x)) (mset xs))"
  by (induction xs) auto

lemma distinct_submset:
  assumes "mset xs \<subseteq># mset ys" "distinct ys"
  shows "distinct xs"
proof -
  have "count (mset xs) a \<le> 1" for a
  proof -
    have "count (mset ys) a \<le> 1" using assms(2) by (simp add: distinct_count_atmost_1)
    with mset_subset_eq_count [OF assms(1), of a] show ?thesis by simp
  qed
  then show ?thesis
    by (auto simp: distinct_count_atmost_1 order_antisym Suc_leI count_mset_0_iff)
qed

end
