(* ===== verification/Rounding.thy ===== *)
theory Rounding
  imports Prelude "HOL-Library.Log_Nat"
begin

text \<open>
  Rounding of an exact rational to a bounded significand: what CPython's \<open>decimal\<close> does with
  every result (base 10, 28 digits, half to even) and what the hardware does with every \<open>float\<close>
  (base 2, 53 digits, half to even). The laws that the program's arithmetic relies on are the
  interface \<open>rounding\<close>; \<open>ctx_round\<close> provides them for every base, precision and least exponent.
\<close>

definition round_half_even :: "rat \<Rightarrow> int" where
  "round_half_even q =
     (let f = \<lfloor>q\<rfloor>; d = q - of_int f
      in if d < 1/2 then f else if 1/2 < d then f + 1 else if even f then f else f + 1)"

text \<open>The number of digits of a positive integer in base \<open>b\<close>.\<close>

function ndigits :: "int \<Rightarrow> int \<Rightarrow> int" where
  "ndigits b n = (if 1 < b \<and> 0 < n then 1 + ndigits b (n div b) else 0)"
  by pat_completeness auto
termination
  by (relation "measure (\<lambda>(b, n). nat n)") (auto simp: int_div_less_self)

declare ndigits.simps [simp del]

text \<open>The exponent of the leading digit of a non-zero number in base \<open>b\<close>.\<close>

definition magnitude :: "nat \<Rightarrow> rat \<Rightarrow> int" where
  "magnitude b q =
     (if 1 \<le> \<bar>q\<bar> then ndigits (int b) \<lfloor>\<bar>q\<bar>\<rfloor> - 1
      else - ndigits (int b) (\<lceil>1 / \<bar>q\<bar>\<rceil> - 1))"

text \<open>The exponent of the last digit kept: \<open>p\<close> digits, but never below \<open>emin\<close>.\<close>

definition ulp_exp :: "nat \<Rightarrow> nat \<Rightarrow> int \<Rightarrow> rat \<Rightarrow> int" where
  "ulp_exp b p emin q = max (magnitude b q - int p + 1) emin"

definition ctx_round :: "nat \<Rightarrow> nat \<Rightarrow> int \<Rightarrow> rat \<Rightarrow> rat" where
  "ctx_round b p emin q =
     (if q = 0 then 0
      else let u = of_nat b powi ulp_exp b p emin q
           in of_int (round_half_even (q / u)) * u)"

section \<open>Rounding to an integer\<close>

lemma round_half_even_of_int [simp]: "round_half_even (of_int n) = n"
  by (simp add: round_half_even_def)

lemma round_half_even_0 [simp]: "round_half_even 0 = 0"
  using round_half_even_of_int [of 0] by simp

lemma round_half_even_error: "\<bar>of_int (round_half_even q) - q\<bar> \<le> 1 / 2"
  using of_int_floor_le [of q] floor_correct [of q]
  by (auto simp: round_half_even_def Let_def abs_le_iff)

lemma round_half_even_mono:
  assumes "x \<le> y"
  shows "round_half_even x \<le> round_half_even y"
proof (cases "\<lfloor>x\<rfloor> = \<lfloor>y\<rfloor>")
  case True
  with assms show ?thesis by (auto simp: round_half_even_def Let_def)
next
  case False
  with assms have "\<lfloor>x\<rfloor> + 1 \<le> \<lfloor>y\<rfloor>" using floor_mono [of x y] by linarith
  moreover have "round_half_even x \<le> \<lfloor>x\<rfloor> + 1" by (simp add: round_half_even_def Let_def)
  moreover have "\<lfloor>y\<rfloor> \<le> round_half_even y" by (simp add: round_half_even_def Let_def)
  ultimately show ?thesis by linarith
qed

lemma round_half_even_minus: "round_half_even (- q) = - round_half_even q"
proof (cases "q = of_int \<lfloor>q\<rfloor>")
  case True
  then have "round_half_even (- q) = round_half_even (of_int (- \<lfloor>q\<rfloor>))" by simp
  also have "\<dots> = - \<lfloor>q\<rfloor>" by (rule round_half_even_of_int)
  also have "\<lfloor>q\<rfloor> = round_half_even q" by (subst (2) True) simp
  finally show ?thesis .
next
  case False
  define d where "d = q - of_int \<lfloor>q\<rfloor>"
  have fl: "\<lfloor>- q\<rfloor> = - \<lfloor>q\<rfloor> - 1"
    using False by (simp add: floor_minus ceiling_altdef)
  have "- q - of_int \<lfloor>- q\<rfloor> = 1 - d" by (simp add: fl d_def)
  then show ?thesis
    unfolding round_half_even_def Let_def fl d_def [symmetric] by auto
qed

lemma round_half_even_le: "q \<le> of_int n \<Longrightarrow> round_half_even q \<le> n"
  using round_half_even_mono [of q "of_int n"] by simp

lemma round_half_even_ge: "of_int n \<le> q \<Longrightarrow> n \<le> round_half_even q"
  using round_half_even_mono [of "of_int n" q] by simp

section \<open>The leading digit\<close>

lemma ndigits_floorlog: "ndigits (int b) (int n) = int (floorlog b n)"
proof (induction n rule: less_induct)
  case (less n)
  show ?case
  proof (cases "1 < b \<and> 0 < n")
    case True
    then have "ndigits (int b) (int (n div b)) = int (floorlog b (n div b))"
      by (intro less.IH) simp
    with True show ?thesis
      by (subst ndigits.simps, subst compute_floorlog) (simp add: zdiv_int)
  next
    case False
    then show ?thesis by (subst ndigits.simps, subst compute_floorlog) auto
  qed
qed

lemma magnitude_floorlog:
  "magnitude b q =
     (if 1 \<le> \<bar>q\<bar> then int (floorlog b (nat \<lfloor>\<bar>q\<bar>\<rfloor>)) - 1
      else - int (floorlog b (nat (\<lceil>1 / \<bar>q\<bar>\<rceil> - 1))))"
  by (auto simp: magnitude_def ndigits.simps [of _ "-1"] ndigits.simps [of _ 0]
      simp flip: ndigits_floorlog)

lemma magnitude_bounds:
  assumes "q \<noteq> 0" and b: "1 < b"
  shows "of_nat b powi magnitude b q \<le> \<bar>q\<bar>" and "\<bar>q\<bar> < of_nat b powi (magnitude b q + 1)"
proof -
  have "of_nat b powi magnitude b q \<le> \<bar>q\<bar> \<and> \<bar>q\<bar> < of_nat b powi (magnitude b q + 1)"
  proof (cases "1 \<le> \<bar>q\<bar>")
    case True
    define n where "n = nat \<lfloor>\<bar>q\<bar>\<rfloor>"
    have n: "0 < n" using True by (simp add: n_def)
    have fl: "of_nat n \<le> \<bar>q\<bar>" "\<bar>q\<bar> < of_nat n + 1"
      using True floor_correct [of "\<bar>q\<bar>"] by (simp_all add: n_def)
    have k: "0 < floorlog b n" using n b by (simp add: floorlog_def)
    have m: "magnitude b q = int (floorlog b n - 1)"
      using True k by (simp add: magnitude_floorlog n_def)
    have "b ^ (floorlog b n - 1) \<le> n" "n < b ^ floorlog b n"
      using floorlog_bounds [OF n b] by auto
    then have "(of_nat (b ^ (floorlog b n - 1)) :: rat) \<le> of_nat n"
      and "(of_nat n + 1 :: rat) \<le> of_nat (b ^ floorlog b n)"
      using of_nat_le_iff [of "n + 1" "b ^ floorlog b n", where ?'a = rat] of_nat_le_iff by auto
    moreover have "(of_nat b :: rat) powi magnitude b q = of_nat (b ^ (floorlog b n - 1))"
      unfolding m power_int_of_nat by simp
    moreover have "(of_nat b :: rat) powi (magnitude b q + 1) = of_nat (b ^ floorlog b n)"
    proof -
      have "magnitude b q + 1 = int (floorlog b n)" using k by (simp add: m)
      then show ?thesis by (simp only: power_int_of_nat of_nat_power)
    qed
    ultimately show ?thesis using fl by linarith
  next
    case False
    define n where "n = nat (\<lceil>1 / \<bar>q\<bar>\<rceil> - 1)"
    have inv: "1 < 1 / \<bar>q\<bar>" using False assms(1) by simp
    have c: "2 \<le> \<lceil>1 / \<bar>q\<bar>\<rceil>" using inv by linarith
    have n: "0 < n" using c by (simp add: n_def)
    have fl: "of_nat n < 1 / \<bar>q\<bar>" "1 / \<bar>q\<bar> \<le> of_nat n + 1"
    proof -
      have "(of_nat n :: rat) = of_int (\<lceil>1 / \<bar>q\<bar>\<rceil> - 1)"
        unfolding n_def using c by (intro of_nat_nat) linarith
      then show "of_nat n < 1 / \<bar>q\<bar>" "1 / \<bar>q\<bar> \<le> of_nat n + 1"
        using ceiling_correct [of "1 / \<bar>q\<bar>"] by simp_all
    qed
    define k where "k = floorlog b n"
    have k: "0 < k" using n b by (simp add: k_def floorlog_def)
    have m: "magnitude b q = - int k" using False by (simp add: magnitude_floorlog n_def k_def)
    have "b ^ (k - 1) \<le> n" "n < b ^ k"
      using floorlog_bounds [OF n b] by (auto simp: k_def)
    then have "(of_nat (b ^ (k - 1)) :: rat) \<le> of_nat n"
      and "(of_nat n + 1 :: rat) \<le> of_nat (b ^ k)"
      using of_nat_le_iff [of "n + 1" "b ^ k", where ?'a = rat] of_nat_le_iff by auto
    with fl have "of_nat (b ^ (k - 1)) < 1 / \<bar>q\<bar>" and "1 / \<bar>q\<bar> \<le> of_nat (b ^ k)" by linarith+
    moreover have "0 < \<bar>q\<bar>" using assms(1) by simp
    moreover have "(0 :: rat) < of_nat (b ^ (k - 1))" "(0 :: rat) < of_nat (b ^ k)" using b by simp_all
    ultimately have "\<bar>q\<bar> < inverse (of_nat (b ^ (k - 1)))" and "inverse (of_nat (b ^ k)) \<le> \<bar>q\<bar>"
      by (simp_all only: inverse_eq_divide pos_less_divide_eq pos_divide_le_eq pos_le_divide_eq
          mult.commute)
    moreover have "of_nat b powi magnitude b q = inverse (of_nat (b ^ k) :: rat)"
      by (simp only: m power_int_minus power_int_of_nat of_nat_power)
    moreover have "of_nat b powi (magnitude b q + 1) = inverse (of_nat (b ^ (k - 1)) :: rat)"
    proof -
      have "magnitude b q + 1 = - int (k - 1)" using k by (simp add: m)
      then show ?thesis by (simp only: power_int_minus power_int_of_nat of_nat_power)
    qed
    ultimately show ?thesis by simp
  qed
  then show "of_nat b powi magnitude b q \<le> \<bar>q\<bar>" and "\<bar>q\<bar> < of_nat b powi (magnitude b q + 1)"
    by auto
qed

lemma powi_less_iff:
  assumes "1 < b"
  shows "((of_nat b :: rat) powi m < of_nat b powi n) = (m < n)"
proof
  assume "m < n"
  then show "(of_nat b :: rat) powi m < of_nat b powi n"
    using assms by (intro power_int_strict_increasing) auto
next
  assume less: "(of_nat b :: rat) powi m < of_nat b powi n"
  show "m < n"
  proof (rule ccontr)
    assume "\<not> m < n"
    then have "(of_nat b :: rat) powi n \<le> of_nat b powi m"
      using assms by (intro power_int_increasing) auto
    with less show False by simp
  qed
qed

lemma powi_le_iff: "1 < b \<Longrightarrow> ((of_nat b :: rat) powi m \<le> of_nat b powi n) = (m \<le> n)"
  using powi_less_iff [of b n m] by (simp add: not_less [symmetric])

lemma powi_pos: "1 < b \<Longrightarrow> 0 < (of_nat b :: rat) powi n"
  by (simp add: zero_less_power_int)

lemma powi_split:
  assumes "1 < b" "0 \<le> d"
  shows "(of_nat b :: rat) powi (d + k) = of_int (int b ^ nat d) * of_nat b powi k"
proof -
  have "(of_nat b :: rat) powi (d + k) = of_nat b powi d * of_nat b powi k"
    using assms by (intro power_int_add) simp
  also have "(of_nat b :: rat) powi d = of_int (int b ^ nat d)"
    using assms by (simp add: power_int_def)
  finally show ?thesis .
qed

lemma magnitude_less:
  assumes "q \<noteq> 0" "1 < b" "\<bar>q\<bar> < of_nat b powi n"
  shows "magnitude b q < n"
  using magnitude_bounds(1) [OF assms(1,2)] assms(2,3) powi_less_iff order_le_less_trans by metis

lemma magnitude_ge:
  assumes "q \<noteq> 0" "1 < b" "of_nat b powi n \<le> \<bar>q\<bar>"
  shows "n \<le> magnitude b q"
proof -
  have "(of_nat b :: rat) powi n < of_nat b powi (magnitude b q + 1)"
    using magnitude_bounds(2) [OF assms(1,2)] assms(3) by (rule order_le_less_trans [rotated])
  then show ?thesis using powi_less_iff [OF assms(2)] by simp
qed

lemma magnitude_mono:
  assumes "0 < x" "x \<le> y" "1 < b"
  shows "magnitude b x \<le> magnitude b y"
  using magnitude_ge [of y b "magnitude b x"] magnitude_bounds(1) [of x b] assms by auto

lemma magnitude_minus [simp]: "magnitude b (- q) = magnitude b q"
  by (simp add: magnitude_def)

lemma ulp_exp_minus [simp]: "ulp_exp b p emin (- q) = ulp_exp b p emin q"
  by (simp add: ulp_exp_def)

section \<open>Rounding to a bounded significand\<close>

lemma ctx_round_0 [simp]: "ctx_round b p emin 0 = 0"
  by (simp add: ctx_round_def)

lemma ctx_round_minus: "ctx_round b p emin (- q) = - ctx_round b p emin q"
  by (simp add: ctx_round_def Let_def round_half_even_minus)

text \<open>Numbers with at most \<open>p\<close> digits from \<open>emin\<close> up are not changed.\<close>

lemma ctx_round_representable:
  assumes b: "1 < b" and k: "emin \<le> k" and n: "\<bar>n\<bar> < int b ^ p"
  shows "ctx_round b p emin (of_int n * of_nat b powi k) = of_int n * of_nat b powi k"
proof (cases "n = 0")
  case True
  then show ?thesis by simp
next
  case False
  define q where "q = of_int n * (of_nat b :: rat) powi k"
  have q0: "q \<noteq> 0" using False b by (simp add: q_def)
  have "\<bar>q\<bar> = of_int \<bar>n\<bar> * of_nat b powi k" using powi_pos [OF b, of k] by (simp add: q_def abs_mult)
  also have "\<dots> < of_int (int b ^ p) * of_nat b powi k"
    using n powi_pos [OF b, of k] by (intro mult_strict_right_mono) (simp_all only: of_int_less_iff)
  also have "\<dots> = of_nat b powi (int p + k)"
    using b by (simp add: power_int_add)
  finally have "magnitude b q < int p + k" using magnitude_less q0 b by blast
  then have u: "ulp_exp b p emin q \<le> k" using k by (simp add: ulp_exp_def)
  have "q / of_nat b powi ulp_exp b p emin q = of_int n * of_nat b powi (k - ulp_exp b p emin q)"
    using b by (simp add: q_def power_int_diff)
  also have "\<dots> = of_int (n * int b ^ nat (k - ulp_exp b p emin q))"
    using u by (simp add: power_int_def)
  finally have "round_half_even (q / of_nat b powi ulp_exp b p emin q)
      = n * int b ^ nat (k - ulp_exp b p emin q)"
    by (simp only: round_half_even_of_int)
  then have "ctx_round b p emin q
      = of_int (n * int b ^ nat (k - ulp_exp b p emin q)) * of_nat b powi ulp_exp b p emin q"
    using q0 by (simp add: ctx_round_def Let_def)
  also have "\<dots> = of_int n * (of_nat b powi (k - ulp_exp b p emin q) * of_nat b powi ulp_exp b p emin q)"
    using u by (simp add: power_int_def)
  also have "\<dots> = q" using b by (simp add: q_def flip: power_int_add)
  finally show ?thesis by (simp add: q_def)
qed

lemma ctx_round_power:
  assumes "1 < b" "emin \<le> k" "0 < p"
  shows "ctx_round b p emin (of_nat b powi k) = of_nat b powi k"
  using ctx_round_representable [OF assms(1,2), of 1 p] assms by (simp add: one_less_power)

lemma ctx_round_form:
  assumes b: "1 < b" and p: "0 < p" and q: "q \<noteq> 0"
  shows "\<exists>n. ctx_round b p emin q = of_int n * of_nat b powi ulp_exp b p emin q \<and> \<bar>n\<bar> \<le> int b ^ p"
proof -
  let ?u = "ulp_exp b p emin q"
  define n where "n = round_half_even (q / of_nat b powi ?u)"
  have pos: "0 < (of_nat b :: rat) powi ?u" using b by (rule powi_pos)
  have "\<bar>q\<bar> < of_nat b powi (magnitude b q + 1)" using magnitude_bounds(2) [OF q b] .
  also have "\<dots> \<le> of_nat b powi (int p + ?u)"
    using b by (simp add: powi_le_iff ulp_exp_def)
  also have "\<dots> = of_int (int b ^ p) * of_nat b powi ?u" using b by (simp add: power_int_add)
  finally have "\<bar>q / of_nat b powi ?u\<bar> \<le> of_int (int b ^ p)"
    using pos by (simp add: abs_divide field_simps)
  then have "q / of_nat b powi ?u \<le> of_int (int b ^ p)"
    and "of_int (- (int b ^ p)) \<le> q / of_nat b powi ?u"
    by (simp_all only: abs_le_iff of_int_minus)
      (simp add: minus_le_iff)
  then have "n \<le> int b ^ p" and "- (int b ^ p) \<le> n"
    unfolding n_def by (blast intro: round_half_even_le round_half_even_ge)+
  then have "\<bar>n\<bar> \<le> int b ^ p" by linarith
  moreover have "ctx_round b p emin q = of_int n * of_nat b powi ?u"
    using q by (simp add: ctx_round_def Let_def n_def)
  ultimately show ?thesis by blast
qed

lemma ctx_round_idem:
  assumes b: "1 < b" and p: "0 < p"
  shows "ctx_round b p emin (ctx_round b p emin q) = ctx_round b p emin q"
proof (cases "q = 0")
  case False
  let ?u = "ulp_exp b p emin q"
  obtain n where eq: "ctx_round b p emin q = of_int n * of_nat b powi ?u" and n: "\<bar>n\<bar> \<le> int b ^ p"
    using ctx_round_form [OF b p False] by blast
  have u: "emin \<le> ?u" by (simp add: ulp_exp_def)
  show ?thesis
  proof (cases "\<bar>n\<bar> = int b ^ p")
    case True
    have full: "of_int (int b ^ p) * of_nat b powi ?u = (of_nat b :: rat) powi (int p + ?u)"
      using b by (simp add: power_int_add)
    have r: "ctx_round b p emin (of_nat b powi (int p + ?u)) = of_nat b powi (int p + ?u)"
      using u by (intro ctx_round_power [OF b _ p]) simp
    from True consider "n = int b ^ p" | "n = - (int b ^ p)" by linarith
    then show ?thesis
    proof cases
      case 1
      then show ?thesis using r by (simp only: eq full)
    next
      case 2
      then have "ctx_round b p emin q = - (of_nat b powi (int p + ?u))"
        by (simp only: eq full of_int_minus mult_minus_left)
      then show ?thesis using r by (simp only: ctx_round_minus)
    qed
  next
    case False
    with n have "\<bar>n\<bar> < int b ^ p" by linarith
    then show ?thesis using ctx_round_representable [OF b u] by (simp only: eq)
  qed
qed simp

lemma ctx_round_nonneg: "0 \<le> q \<Longrightarrow> 0 \<le> ctx_round b p emin q"
  by (simp add: ctx_round_def Let_def round_half_even_ge [of 0, simplified])

lemma ctx_round_mono_pos:
  assumes b: "1 < b" and p: "0 < p" and x: "0 < x" and xy: "x \<le> y"
  shows "ctx_round b p emin x \<le> ctx_round b p emin y"
proof -
  let ?u = "\<lambda>q. ulp_exp b p emin q" and ?B = "\<lambda>k. (of_nat b :: rat) powi k"
  have y: "0 < y" using x xy by simp
  have m: "magnitude b x \<le> magnitude b y" using x xy b by (rule magnitude_mono)
  then have u: "?u x \<le> ?u y" by (simp add: ulp_exp_def)
  have eq: "ctx_round b p emin q = of_int (round_half_even (q / ?B (?u q))) * ?B (?u q)"
    if "0 < q" for q using that by (simp add: ctx_round_def Let_def)
  show ?thesis
  proof (cases "?u x = ?u y")
    case True
    have "x / ?B (?u y) \<le> y / ?B (?u y)" using xy powi_pos [OF b] by (simp add: divide_right_mono)
    then show ?thesis
      using powi_pos [OF b, of "?u y"] by (simp add: eq x y True round_half_even_mono)
  next
    case False
    with u have less: "?u x < ?u y" by simp
    then have uy: "?u y = magnitude b y - int p + 1" by (auto simp: ulp_exp_def)
    have mx: "magnitude b x < magnitude b y" using less uy by (simp add: ulp_exp_def)
    define d where "d = magnitude b y - ?u x"
    have d: "0 \<le> d" using less uy p by (simp add: d_def)
    have split: "?B (magnitude b y) = of_int (int b ^ nat d) * ?B (?u x)"
      using powi_split [OF b d, of "?u x"] by (simp add: d_def)
    have "x \<le> ?B (magnitude b y)"
      using magnitude_bounds(2) [of x b] x b mx powi_le_iff [OF b, of "magnitude b x + 1" "magnitude b y"]
      by simp
    then have "x / ?B (?u x) \<le> of_int (int b ^ nat d)"
      using powi_pos [OF b, of "?u x"] by (simp add: split field_simps)
    then have "ctx_round b p emin x \<le> ?B (magnitude b y)"
      using powi_pos [OF b, of "?u x"]
      by (simp only: eq [OF x] split mult_le_cancel_right_pos of_int_le_iff round_half_even_le)
    also have "\<dots> \<le> ctx_round b p emin y"
    proof -
      have "?B (magnitude b y) = of_int (int b ^ (p - 1)) * ?B (?u y)"
        using powi_split [OF b, of "int p - 1" "?u y"] p by (simp add: uy nat_diff_distrib)
      moreover have "?B (magnitude b y) \<le> y" using magnitude_bounds(1) [of y b] y b by simp
      ultimately have "of_int (int b ^ (p - 1)) \<le> y / ?B (?u y)"
        using powi_pos [OF b, of "?u y"] by (simp add: field_simps)
      then have "int b ^ (p - 1) \<le> round_half_even (y / ?B (?u y))" by (rule round_half_even_ge)
      then show ?thesis
        using \<open>?B (magnitude b y) = of_int (int b ^ (p - 1)) * ?B (?u y)\<close> powi_pos [OF b, of "?u y"]
        by (simp only: eq [OF y] mult_le_cancel_right_pos of_int_le_iff)
    qed
    finally show ?thesis .
  qed
qed

lemma ctx_round_mono:
  assumes "1 < b" "0 < p" "x \<le> y"
  shows "ctx_round b p emin x \<le> ctx_round b p emin y"
proof -
  consider "0 < x" | "x \<le> 0" "0 \<le> y" | "y < 0" by linarith
  then show ?thesis
  proof cases
    case 1
    then show ?thesis using ctx_round_mono_pos assms by blast
  next
    case 2
    then have "0 \<le> ctx_round b p emin y" and "0 \<le> ctx_round b p emin (- x)"
      by (simp_all add: ctx_round_nonneg)
    then show ?thesis by (simp add: ctx_round_minus)
  next
    case 3
    then have "ctx_round b p emin (- y) \<le> ctx_round b p emin (- x)"
      using ctx_round_mono_pos [of b p "- y" "- x"] assms by simp
    then show ?thesis by (simp add: ctx_round_minus)
  qed
qed

text \<open>The relative error, for numbers large enough to have all their digits.\<close>

lemma ctx_round_error:
  assumes b: "1 < b" and q: "of_nat b powi (emin + int p - 1) \<le> \<bar>q\<bar>"
  shows "\<bar>ctx_round b p emin q - q\<bar> \<le> \<bar>q\<bar> * of_nat b powi (1 - int p) / 2"
proof (cases "q = 0")
  case True
  then show ?thesis by simp
next
  case False
  let ?u = "(of_nat b :: rat) powi ulp_exp b p emin q"
  have u: "0 < ?u" using b by (rule powi_pos)
  have "emin + int p - 1 \<le> magnitude b q" using magnitude_ge [OF False b q] .
  then have e: "ulp_exp b p emin q = magnitude b q + (1 - int p)" by (simp add: ulp_exp_def)
  have "ctx_round b p emin q - q = (of_int (round_half_even (q / ?u)) - q / ?u) * ?u"
    using False u b by (simp add: ctx_round_def Let_def left_diff_distrib)
  then have "\<bar>ctx_round b p emin q - q\<bar> = \<bar>of_int (round_half_even (q / ?u)) - q / ?u\<bar> * ?u"
    using u by (simp add: abs_mult)
  also have "\<dots> \<le> 1 / 2 * ?u" using round_half_even_error u by (intro mult_right_mono) auto
  also have "?u = of_nat b powi magnitude b q * of_nat b powi (1 - int p)"
    unfolding e using b by (intro power_int_add) simp
  also have "1 / 2 * \<dots> \<le> 1 / 2 * (\<bar>q\<bar> * of_nat b powi (1 - int p))"
    using magnitude_bounds(1) [OF False b] powi_pos [OF b, of "1 - int p"]
    by (intro mult_left_mono mult_right_mono) auto
  finally show ?thesis by simp
qed

section \<open>The interface of a rounding\<close>

locale rounding =
  fixes R :: "rat \<Rightarrow> rat"
  assumes R_zero: "R 0 = 0"
    and R_minus: "R (- x) = - R x"
    and R_mono: "x \<le> y \<Longrightarrow> R x \<le> R y"
    and R_idem: "R (R x) = R x"
begin

lemma R_nonneg: "0 \<le> x \<Longrightarrow> 0 \<le> R x"
  using R_mono [of 0 x] by (simp add: R_zero)

lemma R_nonpos: "x \<le> 0 \<Longrightarrow> R x \<le> 0"
  using R_mono [of x 0] by (simp add: R_zero)

lemma R_abs: "R \<bar>x\<bar> = \<bar>R x\<bar>"
proof (cases "0 \<le> x")
  case True
  then show ?thesis using R_nonneg [OF True] by simp
next
  case False
  then show ?thesis using R_nonpos [of x] by (simp add: R_minus)
qed

lemma R_le: "R y = y \<Longrightarrow> x \<le> y \<Longrightarrow> R x \<le> y"
  using R_mono [of x y] by simp

lemma R_ge: "R y = y \<Longrightarrow> y \<le> x \<Longrightarrow> y \<le> R x"
  using R_mono [of y x] by simp

lemma R_less_cancel: "R x < R y \<Longrightarrow> x < y"
  using R_mono [of y x] by linarith

lemma R_less_exact: "R y = y \<Longrightarrow> R x < y \<Longrightarrow> x < y"
  using R_less_cancel [of x y] by simp

lemma R_sub_nonneg: "y \<le> x \<Longrightarrow> 0 \<le> R (x - y)"
  by (simp add: R_nonneg)

lemma R_sub_le: "R x = x \<Longrightarrow> 0 \<le> y \<Longrightarrow> R (x - y) \<le> x"
  by (simp add: R_le)

lemma R_add_ge: "R x = x \<Longrightarrow> 0 \<le> y \<Longrightarrow> x \<le> R (x + y)"
  by (simp add: R_ge)

text \<open>A quotient of numbers that do not increase is at most one, also after rounding.\<close>

lemma R_div_le_one: "R 1 = 1 \<Longrightarrow> 0 \<le> x \<Longrightarrow> x \<le> y \<Longrightarrow> R (x / y) \<le> 1"
  by (rule R_le) (auto simp: divide_le_eq_1)

end

text \<open>Every base, precision and least exponent gives a rounding.\<close>

lemma rounding_ctx_round: "1 < b \<Longrightarrow> 0 < p \<Longrightarrow> rounding (ctx_round b p emin)"
  by unfold_locales (auto simp: ctx_round_minus ctx_round_idem intro: ctx_round_mono)

end
