(* ===== verification/PyDecimal.thy ===== *)
theory PyDecimal
  imports Rounding
begin

text \<open>
  \<open>decimal.Decimal\<close> in the default context: precision 28, \<open>ROUND_HALF_EVEN\<close>. A finite Decimal is
  its value and its exponent; the exponent decides only how the number prints. Arithmetic
  computes the exact result and rounds it once; comparison is exact. Non-finite Decimals exist
  only at the boundary of the program (text read from outside), as the other constructors of
  \<open>raw_decimal\<close>; \<open>check_finite\<close> is what stops them. The sign of zero and the context's exponent
  limit of plus or minus 999999 above are not represented.
\<close>

datatype decimal = Dec (dval: rat) (dexp: int)

datatype raw_decimal = Finite decimal | Infinite bool | NotANumber

definition dec_round :: "rat \<Rightarrow> rat" where
  "dec_round = ctx_round 10 28 (-1000026)"

text \<open>The literal \<open>Decimal("...")\<close> with digits \<open>n\<close> and exponent \<open>e\<close>.\<close>

definition dec :: "int \<Rightarrow> int \<Rightarrow> decimal" where
  "dec n e = Dec (of_int n * 10 powi e) e"

text \<open>
  An exact value \<open>v\<close> that the operation would represent at exponent \<open>e\<close>, made to fit 28 digits
  (\<open>Decimal._fix\<close>).
\<close>

definition dec_fix :: "rat \<Rightarrow> int \<Rightarrow> decimal" where
  "dec_fix v e =
     Dec (dec_round v)
       (if v = 0 \<or> magnitude 10 v - 27 \<le> e then e else magnitude 10 (dec_round v) - 27)"

definition dadd :: "decimal \<Rightarrow> decimal \<Rightarrow> decimal" where
  "dadd a b = dec_fix (dval a + dval b) (min (dexp a) (dexp b))"

definition dsub :: "decimal \<Rightarrow> decimal \<Rightarrow> decimal" where
  "dsub a b = dec_fix (dval a - dval b) (min (dexp a) (dexp b))"

definition dmul :: "decimal \<Rightarrow> decimal \<Rightarrow> decimal" where
  "dmul a b = dec_fix (dval a * dval b) (dexp a + dexp b)"

definition dabs :: "decimal \<Rightarrow> decimal" where
  "dabs a = dec_fix \<bar>dval a\<bar> (dexp a)"

text \<open>
  Division: an exact quotient loses trailing zeros down to the ideal exponent, an inexact one
  keeps 28 digits. Division by zero raises (\<open>0 / 0\<close> is an invalid operation).
\<close>

fun trim_zeros :: "nat \<Rightarrow> int \<Rightarrow> int \<Rightarrow> int \<Rightarrow> int" where
  "trim_zeros 0 c e ideal = e"
| "trim_zeros (Suc n) c e ideal =
     (if e < ideal \<and> 10 dvd c then trim_zeros n (c div 10) (e + 1) ideal else e)"

definition ddiv :: "decimal \<Rightarrow> decimal \<Rightarrow> decimal result" where
  "ddiv a b =
     (if dval b = 0 then Inl (if dval a = 0 then InvalidOperation else DivisionByZero)
      else let v = dval a / dval b; ideal = dexp a - dexp b; r = dec_round v
           in if v = 0 then Inr (Dec 0 ideal)
              else if r = v then
                let e = magnitude 10 v - 27
                in Inr (Dec r (trim_zeros 28 \<lfloor>v / 10 powi e\<rfloor> e ideal))
              else Inr (Dec r (magnitude 10 r - 27)))"

text \<open>\<open>d.quantize(Decimal("1e<e>"))\<close> raises when the result needs more than 28 digits.\<close>

definition quantized :: "rat \<Rightarrow> int \<Rightarrow> rat" where
  "quantized v e = of_int (round_half_even (v / 10 powi e)) * 10 powi e"

definition quantize :: "decimal \<Rightarrow> int \<Rightarrow> decimal result" where
  "quantize d e =
     (if 10 ^ 28 \<le> \<bar>round_half_even (dval d / 10 powi e)\<bar> then Inl InvalidOperation
      else Inr (Dec (quantized (dval d) e) e))"

definition dsum :: "decimal list \<Rightarrow> decimal" where
  "dsum ds = foldl dadd (dec 0 0) ds"

text \<open>The built-in \<open>min\<close> and \<open>max\<close> of two Decimals keep the first of two equal ones.\<close>

definition dmin :: "decimal \<Rightarrow> decimal \<Rightarrow> decimal" where
  "dmin a b = (if dval b < dval a then b else a)"

definition dmax :: "decimal \<Rightarrow> decimal \<Rightarrow> decimal" where
  "dmax a b = (if dval a < dval b then b else a)"

text \<open>\<open>str(Decimal)\<close>: scientific notation unless the exponent is at most zero and small.\<close>

definition dec_digits :: "decimal \<Rightarrow> string" where
  "dec_digits d = str_pos \<lfloor>\<bar>dval d\<bar> / 10 powi dexp d\<rfloor>"

definition dec_str :: "decimal \<Rightarrow> string" where
  "dec_str d =
     (let ds = dec_digits d; n = int (length ds); left = dexp d + n;
          dot = (if dexp d \<le> 0 \<and> -6 < left then left else 1);
          body = (if dot \<le> 0 then ''0.'' @ replicate (nat (- dot)) CHR ''0'' @ ds
                  else if n \<le> dot then ds @ replicate (nat (dot - n)) CHR ''0''
                  else take (nat dot) ds @ ''.'' @ drop (nat dot) ds);
          ex = (if left = dot then '''' else
                  ''E'' @ (if left < dot then '''' else ''+'') @ str_int (left - dot))
      in (if dval d < 0 then ''-'' else '''') @ body @ ex)"

text \<open>The finiteness check at the program's boundary.\<close>

definition check_finite :: "string \<Rightarrow> raw_decimal \<Rightarrow> decimal result" where
  "check_finite name v =
     (case v of Finite d \<Rightarrow> Inr d | _ \<Rightarrow> Inl (ValueError (name @ '' must be finite'')))"

section \<open>Values\<close>

interpretation dec: rounding dec_round
  unfolding dec_round_def by (rule rounding_ctx_round) simp_all

lemma dval_dec [simp, value_simps]: "dval (dec n e) = of_int n * 10 powi e"
  by (simp add: dec_def)

lemma dexp_dec [simp]: "dexp (dec n e) = e"
  by (simp add: dec_def)

lemma dval_dec_fix [value_simps]: "dval (dec_fix v e) = dec_round v"
  by (simp add: dec_fix_def)

lemma dval_dadd [value_simps]: "dval (dadd a b) = dec_round (dval a + dval b)"
  by (simp add: dadd_def dval_dec_fix)

lemma dval_dsub [value_simps]: "dval (dsub a b) = dec_round (dval a - dval b)"
  by (simp add: dsub_def dval_dec_fix)

lemma dval_dmul [value_simps]: "dval (dmul a b) = dec_round (dval a * dval b)"
  by (simp add: dmul_def dval_dec_fix)

lemma dval_dabs [value_simps]: "dval (dabs a) = dec_round \<bar>dval a\<bar>"
  by (simp add: dabs_def dval_dec_fix)

lemma ddiv_Inr: "ddiv a b = Inr c \<Longrightarrow> dval b \<noteq> 0 \<and> dval c = dec_round (dval a / dval b)"
  by (auto simp: ddiv_def Let_def dec.R_zero split: if_splits)

lemma ddiv_succeeds: "dval b \<noteq> 0 \<Longrightarrow> \<exists>c. ddiv a b = Inr c \<and> dval c = dec_round (dval a / dval b)"
  by (auto simp: ddiv_def Let_def dec.R_zero)

lemma quantize_Inr: "quantize d e = Inr c \<Longrightarrow> dval c = quantized (dval d) e \<and> dexp c = e"
  by (auto simp: quantize_def split: if_splits)

lemma dval_dmin [value_simps]: "dval (dmin a b) = min (dval a) (dval b)"
  by (simp add: dmin_def min_def)

lemma dval_dmax [value_simps]: "dval (dmax a b) = max (dval a) (dval b)"
  by (simp add: dmax_def max_def)

lemma quantized_mono: "x \<le> y \<Longrightarrow> quantized x e \<le> quantized y e"
  unfolding quantized_def
  by (intro mult_right_mono) (simp_all add: round_half_even_mono divide_right_mono)

lemma quantized_exact: "quantized (of_int n * 10 powi e) e = of_int n * 10 powi e"
  by (simp add: quantized_def)

lemma quantized_0 [simp]: "quantized 0 e = 0"
  by (simp add: quantized_def)

lemma quantized_nonneg: "0 \<le> x \<Longrightarrow> 0 \<le> quantized x e"
  using quantized_mono [of 0 x e] by simp

text \<open>Small whole numbers are exact, so bounds by them survive rounding.\<close>

lemma dec_round_exact:
  assumes "\<bar>n\<bar> < 10 ^ 28" "-1000026 \<le> k"
  shows "dec_round (of_int n * 10 powi k) = of_int n * 10 powi k"
  using ctx_round_representable [of 10 "-1000026" k n 28] assms by (simp add: dec_round_def)

lemma dec_round_int: "\<bar>n\<bar> < 10 ^ 28 \<Longrightarrow> dec_round (of_int n) = of_int n"
  using dec_round_exact [of n 0] by simp

lemma dec_round_numeral [simp]:
  "numeral k < (10 ^ 28 :: int) \<Longrightarrow> dec_round (numeral k) = numeral k"
  using dec_round_int [of "numeral k"] by simp

lemma dec_round_1 [simp]: "dec_round 1 = 1"
  using dec_round_int [of 1] by simp

lemma dec_round_0 [simp]: "dec_round 0 = 0"
  by (rule dec.R_zero)

lemma dval_dsum_nonneg: "\<forall>d \<in> set ds. 0 \<le> dval d \<Longrightarrow> 0 \<le> dval (dsum ds)"
proof -
  have "0 \<le> dval a \<Longrightarrow> \<forall>d \<in> set ds. 0 \<le> dval d \<Longrightarrow> 0 \<le> dval (foldl dadd a ds)" for a
    by (induction ds arbitrary: a) (simp_all add: dval_dadd dec.R_nonneg)
  then show "\<forall>d \<in> set ds. 0 \<le> dval d \<Longrightarrow> 0 \<le> dval (dsum ds)" by (simp add: dsum_def)
qed

lemma dec_round_error:
  assumes "1 / 10 ^ 60 \<le> q"
  shows "\<bar>dec_round q - q\<bar> \<le> q / 10 ^ 27"
proof -
  have le: "(of_nat 10 :: rat) powi (-1000026 + int 28 - 1) \<le> \<bar>q\<bar>"
  proof (rule order_trans)
    show "(of_nat 10 :: rat) powi (-1000026 + int 28 - 1) \<le> of_nat 10 powi (-60)"
      by (rule power_int_increasing) simp_all
    show "(of_nat 10 :: rat) powi (-60) \<le> \<bar>q\<bar>"
      using assms by (simp add: power_int_minus inverse_eq_divide)
  qed
  have "\<bar>dec_round q - q\<bar> \<le> \<bar>q\<bar> * of_nat 10 powi (1 - int 28) / 2"
    unfolding dec_round_def by (rule ctx_round_error [OF _ le]) simp
  also have "\<dots> = q / 10 ^ 27 / 2" using assms by (simp add: power_int_minus inverse_eq_divide)
  also have "\<dots> \<le> q / 10 ^ 27" using assms by simp
  finally show ?thesis .
qed

lemma quantize_succeeds:
  assumes "\<bar>dval d\<bar> \<le> of_int n * 10 powi e" "n < 10 ^ 28"
  shows "\<exists>c. quantize d e = Inr c \<and> dval c = quantized (dval d) e"
proof -
  have "dval d / 10 powi e \<le> of_int n" "of_int (- n) \<le> dval d / 10 powi e"
    using assms(1) by (simp_all add: field_simps abs_le_iff)
  then have "\<bar>round_half_even (dval d / 10 powi e)\<bar> \<le> n"
    using round_half_even_le round_half_even_ge by (simp only: abs_le_iff) (metis minus_le_iff)
  with assms(2) show ?thesis by (simp add: quantize_def)
qed

end
