(* ===== verification/PyFloat.thy ===== *)
theory PyFloat
  imports PyDecimal
begin

text \<open>
  \<open>float\<close>: IEEE binary64. A float is a finite value, an infinity (with its sign) or NaN; every
  operation rounds the exact result once to 53 bits, half to even, and overflows to an infinity.
  Comparisons with NaN are false. The sign of zero is not represented. \<open>is_float\<close> is the type
  invariant: a finite value is one that 53 bits hold.
\<close>

datatype pyfloat = Fl rat | FInf bool | FNaN

definition f64_round :: "rat \<Rightarrow> rat" where
  "f64_round = ctx_round 2 53 (-1074)"

definition f64_max :: rat where
  "f64_max = 2 ^ 1024"

definition to_float :: "rat \<Rightarrow> pyfloat" where
  "to_float q = (let r = f64_round q in if f64_max \<le> \<bar>r\<bar> then FInf (r < 0) else Fl r)"

fun is_float :: "pyfloat \<Rightarrow> bool" where
  "is_float (Fl r) \<longleftrightarrow> f64_round r = r \<and> \<bar>r\<bar> < f64_max"
| "is_float x \<longleftrightarrow> True"

fun isfinite :: "pyfloat \<Rightarrow> bool" where
  "isfinite (Fl r) = True"
| "isfinite x = False"

fun fval :: "pyfloat \<Rightarrow> rat" where
  "fval (Fl r) = r"
| "fval x = 0"

text \<open>\<open>FInf True\<close> is minus infinity.\<close>

fun fless :: "pyfloat \<Rightarrow> pyfloat \<Rightarrow> bool" where
  "fless FNaN y = False"
| "fless x FNaN = False"
| "fless (Fl a) (Fl b) = (a < b)"
| "fless (FInf s) (Fl b) = s"
| "fless (Fl a) (FInf t) = (\<not> t)"
| "fless (FInf s) (FInf t) = (s \<and> \<not> t)"

fun fle :: "pyfloat \<Rightarrow> pyfloat \<Rightarrow> bool" where
  "fle FNaN y = False"
| "fle x FNaN = False"
| "fle (Fl a) (Fl b) = (a \<le> b)"
| "fle (FInf s) (Fl b) = s"
| "fle (Fl a) (FInf t) = (\<not> t)"
| "fle (FInf s) (FInf t) = (s \<or> \<not> t)"

fun fneg :: "pyfloat \<Rightarrow> pyfloat" where
  "fneg (Fl a) = Fl (- a)"
| "fneg (FInf s) = FInf (\<not> s)"
| "fneg FNaN = FNaN"

fun fadd :: "pyfloat \<Rightarrow> pyfloat \<Rightarrow> pyfloat" where
  "fadd (Fl a) (Fl b) = to_float (a + b)"
| "fadd FNaN y = FNaN"
| "fadd x FNaN = FNaN"
| "fadd (FInf s) (FInf t) = (if s = t then FInf s else FNaN)"
| "fadd (FInf s) (Fl b) = FInf s"
| "fadd (Fl a) (FInf t) = FInf t"

definition fsub :: "pyfloat \<Rightarrow> pyfloat \<Rightarrow> pyfloat" where
  "fsub x y = fadd x (fneg y)"

fun fmul :: "pyfloat \<Rightarrow> pyfloat \<Rightarrow> pyfloat" where
  "fmul (Fl a) (Fl b) = to_float (a * b)"
| "fmul FNaN y = FNaN"
| "fmul x FNaN = FNaN"
| "fmul (FInf s) (FInf t) = FInf (s \<noteq> t)"
| "fmul (FInf s) (Fl b) = (if b = 0 then FNaN else FInf (s \<noteq> (b < 0)))"
| "fmul (Fl a) (FInf t) = (if a = 0 then FNaN else FInf (t \<noteq> (a < 0)))"

text \<open>\<open>x / y\<close> raises on a zero divisor whatever the dividend; \<open>abs\<close>, and \<open>min\<close> and \<open>max\<close> of two numbers.\<close>

fun fdiv :: "pyfloat \<Rightarrow> pyfloat \<Rightarrow> pyfloat result" where
  "fdiv (Fl a) (Fl b) =
     (if b = 0 then Inl (ZeroDivisionError ''float division by zero'') else Inr (to_float (a / b)))"
| "fdiv (FInf s) (Fl b) =
     (if b = 0 then Inl (ZeroDivisionError ''float division by zero'') else Inr (FInf (s \<noteq> (b < 0))))"
| "fdiv FNaN (Fl b) =
     (if b = 0 then Inl (ZeroDivisionError ''float division by zero'') else Inr FNaN)"
| "fdiv (Fl a) (FInf t) = Inr (Fl 0)"
| "fdiv x y = Inr FNaN"

fun fabs :: "pyfloat \<Rightarrow> pyfloat" where
  "fabs (Fl a) = Fl \<bar>a\<bar>"
| "fabs (FInf s) = FInf False"
| "fabs FNaN = FNaN"

definition fmin :: "pyfloat \<Rightarrow> pyfloat \<Rightarrow> pyfloat" where
  "fmin x y = (if fless y x then y else x)"

definition fmax :: "pyfloat \<Rightarrow> pyfloat \<Rightarrow> pyfloat" where
  "fmax x y = (if fless x y then y else x)"

text \<open>\<open>timedelta.total_seconds()\<close>: the number of microseconds over a million, correctly rounded.\<close>

definition total_seconds :: "int \<Rightarrow> pyfloat" where
  "total_seconds us = to_float (of_int us / 1000000)"

text \<open>\<open>app/core/numbers.py\<close>, on arguments that are floats already.\<close>

definition finite_float :: "string \<Rightarrow> pyfloat \<Rightarrow> pyfloat result" where
  "finite_float name v =
     (if isfinite v then Inr v else Inl (ValueError (name @ '' must be finite'')))"

definition positive_finite_float :: "string \<Rightarrow> pyfloat \<Rightarrow> pyfloat result" where
  "positive_finite_float name v =
     and_then (finite_float name v) (\<lambda>parsed.
       if fle parsed (Fl 0) then Inl (ValueError (name @ '' must be positive'')) else Inr parsed)"

section \<open>Printing\<close>

text \<open>\<open>f"{x:.2f}"\<close>: the exact binary value, rounded half to even at the given place.\<close>

definition fixed_str :: "nat \<Rightarrow> rat \<Rightarrow> string" where
  "fixed_str n v =
     (let c = \<bar>round_half_even (v * 10 ^ n)\<bar>; ds = pad0 (n + 1) (str_int c); k = length ds - n
      in (if v < 0 then ''-'' else '''') @ take k ds @ (if n = 0 then '''' else ''.'' @ drop k ds))"

fun format_fixed :: "nat \<Rightarrow> pyfloat \<Rightarrow> string" where
  "format_fixed n (Fl v) = fixed_str n v"
| "format_fixed n (FInf s) = (if s then ''-inf'' else ''inf'')"
| "format_fixed n FNaN = ''nan''"

text \<open>
  \<open>Decimal(str(x))\<close> for a float \<open>x\<close>: \<open>repr\<close> prints the shortest decimal that reads back as \<open>x\<close>, the
  nearest one if there are several; 17 digits are always enough. The exponent of the Decimal is
  that of the printed text, which ends in \<open>.0\<close> for whole numbers below \<open>10 ^ 16\<close>.
\<close>

definition repr_candidates :: "nat \<Rightarrow> rat \<Rightarrow> rat list" where
  "repr_candidates n a =
     (let u = 10 powi (magnitude 10 a - int n + 1); lo = of_int \<lfloor>a / u\<rfloor> * u
      in filter (\<lambda>c. f64_round c = a) (if a - lo \<le> lo + u - a then [lo, lo + u] else [lo + u, lo]))"

fun shortest_repr :: "nat \<Rightarrow> nat \<Rightarrow> rat \<Rightarrow> rat \<times> nat" where
  "shortest_repr 0 n a = (a, n)"
| "shortest_repr (Suc k) n a =
     (case repr_candidates n a of c # cs \<Rightarrow> (c, n) | [] \<Rightarrow> shortest_repr k (Suc n) a)"

definition decimal_of_repr :: "rat \<Rightarrow> decimal" where
  "decimal_of_repr v =
     (if v = 0 then dec 0 (-1)
      else case shortest_repr 17 1 \<bar>v\<bar> of (c, n) \<Rightarrow>
        let e = magnitude 10 c - int n + 1; m = magnitude 10 c
        in Dec (if v < 0 then - c else c) (if -4 \<le> m \<and> m < 16 then min e (-1) else e))"

fun decimal_of_float :: "pyfloat \<Rightarrow> raw_decimal" where
  "decimal_of_float (Fl v) = Finite (decimal_of_repr v)"
| "decimal_of_float (FInf s) = Infinite s"
| "decimal_of_float FNaN = NotANumber"

section \<open>Laws\<close>

interpretation f64: rounding f64_round
  unfolding f64_round_def by (rule rounding_ctx_round) simp_all

lemma f64_round_exact:
  "\<bar>n\<bar> < 2 ^ 53 \<Longrightarrow> -1074 \<le> k \<Longrightarrow> f64_round (of_int n * 2 powi k) = of_int n * 2 powi k"
  using ctx_round_representable [of 2 "-1074" k n 53] by (simp add: f64_round_def)

lemma f64_round_0 [simp]: "f64_round 0 = 0"
  by (rule f64.R_zero)

lemma is_float_0 [simp]: "is_float (Fl 0)"
  by (simp add: f64_max_def)

lemma is_float_to_float [simp]: "is_float (to_float q)"
  by (auto simp: to_float_def Let_def f64.R_idem)

lemma is_float_fadd [simp]: "is_float (fadd x y)"
  by (cases "(x, y)" rule: fadd.cases) auto

lemma is_float_fsub [simp]: "is_float (fsub x y)"
  by (simp add: fsub_def)

lemma is_float_fmul [simp]: "is_float (fmul x y)"
  by (cases "(x, y)" rule: fmul.cases) auto

lemma finite_float_Inr [result_simps]: "finite_float name v = Inr w \<longleftrightarrow> isfinite v \<and> w = v"
  by (auto simp: finite_float_def)

lemma positive_finite_float_Inr [result_simps]:
  "positive_finite_float name v = Inr w \<longleftrightarrow> w = v \<and> (\<exists>r. v = Fl r \<and> 0 < r)"
  by (cases v) (auto simp: positive_finite_float_def finite_float_def)

lemma isfinite_iff: "isfinite x \<longleftrightarrow> (\<exists>r. x = Fl r)"
  by (cases x) auto

lemma to_float_finite:
  "is_float (Fl b) \<Longrightarrow> 0 \<le> q \<Longrightarrow> q \<le> b \<Longrightarrow> to_float q = Fl (f64_round q)"
  using f64.R_le [of b q] f64.R_nonneg [of q] by (simp add: to_float_def Let_def)

text \<open>Subtracting a non-negative amount never gives more than what was there.\<close>

lemma fsub_le:
  assumes "is_float (Fl a)" "fsub (Fl a) y = Fl c" "fle (Fl 0) y"
  shows "c \<le> a"
  using assms f64.R_sub_le [of a] by (cases y) (auto simp: fsub_def to_float_def Let_def split: if_splits)

lemma fle_0_fmul:
  assumes "fle (Fl 0) x" "fless (Fl 0) y"
  shows "fle (Fl 0) (fmul x y) \<or> fmul x y = FNaN"
  using assms by (cases x; cases y) (auto simp: to_float_def Let_def f64.R_nonneg not_less)

lemma to_float_mono: "a \<le> b \<Longrightarrow> fle (to_float a) (to_float b)"
  using f64.R_mono [of a b] by (auto simp: to_float_def Let_def f64_max_def)

lemma fle_to_float [simp]: "fle (FInf True) (to_float q)" "fle (to_float q) (FInf False)"
  by (simp_all add: to_float_def Let_def)

lemma fle_trans: "fle x y \<Longrightarrow> fle y z \<Longrightarrow> fle x z"
  by (cases x; cases y; cases z) auto

lemma fsub_mono: "x \<le> y \<Longrightarrow> fle (fsub (Fl x) (Fl w)) (fsub (Fl y) (Fl w))"
  by (simp add: fsub_def to_float_mono)

end
