(* ===== verification/PyTime.thy ===== *)
theory PyTime
  imports Prelude
begin

text \<open>
  \<open>datetime.datetime\<close>: the local wall-clock time in microseconds since 0001-01-01T00:00:00 and the
  offset from UTC in microseconds, absent for a naive value. Zones are fixed offsets (the
  program uses \<open>timezone.utc\<close>). Aware values compare by their instant; comparing a naive with an
  aware value raises \<open>TypeError\<close>. Adding a duration outside the years 1 to 9999 raises
  \<open>OverflowError\<close>. A \<open>timedelta\<close> is its number of microseconds.
\<close>

datatype datetime = DateTime (local_us: int) (utc_offset: "int option")

type_synonym timedelta = int

definition day_us :: int where "day_us = 86400000000"
definition minute_us :: int where "minute_us = 60000000"
definition second_us :: int where "second_us = 1000000"

definition max_us :: int where
  "max_us = 3652059 * day_us"

definition aware :: "datetime \<Rightarrow> bool" where
  "aware t \<longleftrightarrow> utc_offset t \<noteq> None"

definition instant :: "datetime \<Rightarrow> int" where
  "instant t = local_us t - (case utc_offset t of None \<Rightarrow> 0 | Some z \<Rightarrow> z)"

text \<open>\<open>value.tzinfo is None or value.utcoffset() is None\<close> guards every time that enters the program.\<close>

definition require_aware :: "string \<Rightarrow> datetime \<Rightarrow> datetime result" where
  "require_aware name t =
     (if aware t then Inr t else Inl (ValueError (name @ '' must be timezone-aware'')))"

definition dt_less :: "datetime \<Rightarrow> datetime \<Rightarrow> bool result" where
  "dt_less a b =
     (if aware a = aware b then Inr (instant a < instant b)
      else Inl (TypeError ''can't compare offset-naive and offset-aware datetimes''))"

definition dt_add :: "datetime \<Rightarrow> timedelta \<Rightarrow> datetime result" where
  "dt_add t d =
     (let u = local_us t + d
      in if 0 \<le> u \<and> u < max_us then Inr (DateTime u (utc_offset t))
         else Inl (OverflowError ''date value out of range''))"

text \<open>\<open>value.astimezone(timezone.utc)\<close>, with naive values read as UTC.\<close>

definition aware_utc :: "datetime \<Rightarrow> datetime" where
  "aware_utc t = DateTime (instant t) (Some 0)"

section \<open>Calendar\<close>

text \<open>The proleptic Gregorian date of a day number (\<open>datetime._ord2ymd\<close>; day 0 is 0001-01-01).\<close>

definition days_before_month :: "nat \<Rightarrow> int" where
  "days_before_month m =
     [0, 0, 31, 59, 90, 120, 151, 181, 212, 243, 273, 304, 334] ! m"

definition days_in_month :: "bool \<Rightarrow> nat \<Rightarrow> int" where
  "days_in_month leap m =
     (if m = 2 \<and> leap then 29
      else [0, 31, 28, 31, 30, 31, 30, 31, 31, 30, 31, 30, 31] ! m)"

definition ord2ymd :: "int \<Rightarrow> int \<times> int \<times> int" where
  "ord2ymd day =
     (let n400 = day div 146097; d1 = day mod 146097;
          n100 = d1 div 36524; d2 = d1 mod 36524;
          n4 = d2 div 1461; d3 = d2 mod 1461;
          n1 = d3 div 365; n = d3 mod 365;
          year = n400 * 400 + 1 + n100 * 100 + n4 * 4 + n1
      in if n1 = 4 \<or> n100 = 4 then (year - 1, 12, 31)
         else let leap = (n1 = 3 \<and> (n4 \<noteq> 24 \<or> n100 = 3));
                  m = nat ((n + 50) div 32);
                  preceding = days_before_month m + (if 2 < m \<and> leap then 1 else 0)
              in if n < preceding
                 then (year, int m - 1, n - (preceding - days_in_month leap (m - 1)) + 1)
                 else (year, int m, n - preceding + 1))"

definition two :: "int \<Rightarrow> string" where
  "two n = pad0 2 (str_int n)"

definition iso_offset :: "int \<Rightarrow> string" where
  "iso_offset z =
     (let a = \<bar>z\<bar>; s = a div second_us; u = a mod second_us
      in (if z < 0 then ''-'' else ''+'') @ two (s div 3600) @ '':'' @ two (s mod 3600 div 60) @
         (if s mod 60 = 0 \<and> u = 0 then '''' else '':'' @ two (s mod 60)) @
         (if u = 0 then '''' else ''.'' @ pad0 6 (str_int u)))"

definition isoformat :: "datetime \<Rightarrow> string" where
  "isoformat t =
     (let day = local_us t div day_us; u = local_us t mod day_us;
          s = u div second_us; f = u mod second_us
      in (case ord2ymd day of (y, m, d) \<Rightarrow> pad0 4 (str_int y) @ ''-'' @ two m @ ''-'' @ two d) @
         ''T'' @ two (s div 3600) @ '':'' @ two (s mod 3600 div 60) @ '':'' @ two (s mod 60) @
         (if f = 0 then '''' else ''.'' @ pad0 6 (str_int f)) @
         (case utc_offset t of None \<Rightarrow> '''' | Some z \<Rightarrow> iso_offset z))"

section \<open>Laws\<close>

lemma require_aware_Inr [result_simps]: "require_aware name t = Inr u \<longleftrightarrow> aware t \<and> u = t"
  by (auto simp: require_aware_def)

lemma dt_add_Inr [result_simps]:
  "dt_add t d = Inr u \<longleftrightarrow> 0 \<le> local_us t + d \<and> local_us t + d < max_us
     \<and> u = DateTime (local_us t + d) (utc_offset t)"
  by (auto simp: dt_add_def Let_def)

lemma dt_add_instant: "dt_add t d = Inr u \<Longrightarrow> instant u = instant t + d"
  by (auto simp: dt_add_Inr instant_def split: option.split)

lemma dt_add_aware: "dt_add t d = Inr u \<Longrightarrow> aware u = aware t"
  by (auto simp: dt_add_Inr aware_def)

lemma aware_utc_laws [simp]:
  "aware (aware_utc t)" "instant (aware_utc t) = instant t" "aware_utc (aware_utc t) = aware_utc t"
  by (simp_all add: aware_utc_def aware_def instant_def)

lemma dt_less_aware: "aware a \<Longrightarrow> aware b \<Longrightarrow> dt_less a b = Inr (instant a < instant b)"
  by (simp add: dt_less_def)

lemma dt_less_value: "dt_less a b = Inr v \<longleftrightarrow> aware a = aware b \<and> v = (instant a < instant b)"
  by (auto simp: dt_less_def)

end
