(* ===== verification/Planning.thy ===== *)
theory Planning
  imports PyFloat PyTime
begin

text \<open>
  The chain from a structure reading to a plan: \<^verbatim>\<open>app/structure/models.py\<close>,
  \<^verbatim>\<open>app/structure/analyzer.py\<close> (\<open>analyze_structure\<close>), \<^verbatim>\<open>app/setups/models.py\<close>, \<^verbatim>\<open>app/setups/classifier.py\<close>,
  \<^verbatim>\<open>app/flow\<close> and \<^verbatim>\<open>app/planning\<close>. Prices here are floats.
\<close>

section \<open>Structure snapshots\<close>

datatype structure_state = ST_NEUTRAL | ST_WEAK | ST_ALERT

fun structure_state_value :: "structure_state \<Rightarrow> string" where
  "structure_state_value ST_NEUTRAL = ''NEUTRAL''"
| "structure_state_value ST_WEAK = ''WEAK''"
| "structure_state_value ST_ALERT = ''ALERT''"

record structure_input =
  si_symbol :: string
  si_current :: pyfloat
  si_low :: pyfloat
  si_high :: pyfloat

definition StructureInput :: "structure_input \<Rightarrow> structure_input result" where
  "StructureInput a =
     (let symbol = strip (si_symbol a) in
      if symbol = '''' then Inl (ValueError ''symbol is required'')
      else and_then (positive_finite_float ''current_value'' (si_current a)) (\<lambda>cur.
      and_then (positive_finite_float ''reference_low'' (si_low a)) (\<lambda>lo.
      and_then (positive_finite_float ''reference_high'' (si_high a)) (\<lambda>hi.
      if fle hi lo then Inl (ValueError ''reference_low must be below reference_high'')
      else Inr \<lparr>si_symbol = symbol, si_current = cur, si_low = lo, si_high = hi\<rparr>))))"

record structure_snapshot =
  ss_symbol :: string
  ss_state :: structure_state
  ss_current :: pyfloat
  ss_low :: pyfloat
  ss_high :: pyfloat
  ss_reasons :: "string list"

definition StructureSnapshot :: "structure_snapshot \<Rightarrow> structure_snapshot result" where
  "StructureSnapshot a =
     (let symbol = strip (ss_symbol a) in
      if symbol = '''' then Inl (ValueError ''symbol is required'')
      else and_then (positive_finite_float ''current_value'' (ss_current a)) (\<lambda>cur.
      and_then (positive_finite_float ''reference_low'' (ss_low a)) (\<lambda>lo.
      and_then (positive_finite_float ''reference_high'' (ss_high a)) (\<lambda>hi.
      if fle hi lo then Inl (ValueError ''reference_low must be below reference_high'')
      else Inr \<lparr>ss_symbol = symbol, ss_state = ss_state a, ss_current = cur, ss_low = lo,
        ss_high = hi, ss_reasons = ss_reasons a\<rparr>))))"

definition needs_review :: "structure_snapshot \<Rightarrow> bool" where
  "needs_review s \<longleftrightarrow> ss_state s \<in> {ST_WEAK, ST_ALERT}"

text \<open>Division of a float by a non-zero literal.\<close>

fun fover :: "pyfloat \<Rightarrow> int \<Rightarrow> pyfloat" where
  "fover (Fl a) n = to_float (a / of_int n)"
| "fover (FInf s) n = FInf (s \<noteq> (n < 0))"
| "fover FNaN n = FNaN"

definition analyze_structure :: "structure_input \<Rightarrow> structure_snapshot result" where
  "analyze_structure i =
     (if fle (si_high i) (si_low i) then Inl (ValueError ''invalid reference range'')
      else let mid = fover (fadd (si_low i) (si_high i)) 2;
        (state, reason) =
          (if fless (si_current i) (si_low i) then (ST_ALERT, ''outside reference range'')
           else if fless (si_current i) mid then (ST_WEAK, ''below midpoint'')
           else (ST_NEUTRAL, ''inside expected range'')) in
      StructureSnapshot \<lparr>ss_symbol = si_symbol i, ss_state = state, ss_current = si_current i,
        ss_low = si_low i, ss_high = si_high i, ss_reasons = [reason]\<rparr>)"

section \<open>Setup classification and flow\<close>

datatype setup_label = SL_IGNORE | SL_WATCH | SL_REVIEW

text \<open>The \<open>data\<close> dictionary is an association list.\<close>

record setup_candidate =
  sc_symbol :: string
  sc_label :: setup_label
  sc_source_state :: string
  sc_data :: "(string \<times> pyfloat) list"
  sc_reasons :: "string list"

definition is_actionable :: "setup_candidate \<Rightarrow> bool" where
  "is_actionable c \<longleftrightarrow> sc_label c = SL_REVIEW"

definition classify_snapshot :: "structure_snapshot \<Rightarrow> setup_candidate" where
  "classify_snapshot s =
     (let (label, reason) =
        (if ss_state s = ST_ALERT then (SL_REVIEW, ''alert snapshot'')
         else if ss_state s = ST_WEAK then (SL_WATCH, ''weak snapshot'')
         else (SL_IGNORE, ''neutral snapshot'')) in
      \<lparr>sc_symbol = ss_symbol s, sc_label = label, sc_source_state = structure_state_value (ss_state s),
       sc_data = [(''current_value'', ss_current s), (''reference_low'', ss_low s),
         (''reference_high'', ss_high s)],
       sc_reasons = ss_reasons s @ [reason]\<rparr>)"

datatype flow_status = FL_READY | FL_WAIT | FL_INCOMPLETE

fun flow_status_value :: "flow_status \<Rightarrow> string" where
  "flow_status_value FL_READY = ''READY''"
| "flow_status_value FL_WAIT = ''WAIT''"
| "flow_status_value FL_INCOMPLETE = ''INCOMPLETE''"

record flow_result =
  fr_symbol :: string
  fr_status :: flow_status
  fr_reasons :: "string list"

definition flow_ready :: "flow_result \<Rightarrow> bool" where
  "flow_ready f \<longleftrightarrow> fr_status f = FL_READY"

definition required_keys :: "string list" where
  "required_keys = [''current_value'', ''reference_low'', ''reference_high'']"

definition run_flow :: "setup_candidate \<Rightarrow> flow_result" where
  "run_flow c =
     (let missing = filter (\<lambda>k. k \<notin> fst ` set (sc_data c)) required_keys in
      if missing \<noteq> [] then \<lparr>fr_symbol = sc_symbol c, fr_status = FL_INCOMPLETE,
        fr_reasons = ''missing data'' # missing\<rparr>
      else if \<not> is_actionable c then \<lparr>fr_symbol = sc_symbol c, fr_status = FL_WAIT,
        fr_reasons = [''waiting'']\<rparr>
      else \<lparr>fr_symbol = sc_symbol c, fr_status = FL_READY, fr_reasons = [''ready'']\<rparr>)"

section \<open>Plans\<close>

datatype plan_status = PLAN_HOLD | PLAN_READY

record plan_draft =
  pd_symbol :: string
  pd_status :: plan_status
  pd_entry :: "pyfloat option"
  pd_boundary :: "pyfloat option"
  pd_objective :: "pyfloat option"
  pd_multiplier :: int
  pd_ratio :: pyfloat
  pd_notes :: "string list"

fun opt_finite :: "string \<Rightarrow> pyfloat option \<Rightarrow> pyfloat option result" where
  "opt_finite name None = Inr None"
| "opt_finite name (Some v) = and_then (finite_float name v) (\<lambda>w. Inr (Some w))"

definition PlanDraft :: "plan_draft \<Rightarrow> plan_draft result" where
  "PlanDraft a =
     (let symbol = strip (pd_symbol a) in
      if symbol = '''' then Inl (ValueError ''symbol is required'')
      else if pd_multiplier a < 1 \<or> 5 < pd_multiplier a
        then Inl (ValueError ''multiplier must be between 1 and 5'')
      else and_then (finite_float ''ratio'' (pd_ratio a)) (\<lambda>ratio.
      and_then (opt_finite ''entry_value'' (pd_entry a)) (\<lambda>entry.
      and_then (opt_finite ''boundary_value'' (pd_boundary a)) (\<lambda>boundary.
      and_then (opt_finite ''objective_value'' (pd_objective a)) (\<lambda>objective.
      Inr \<lparr>pd_symbol = symbol, pd_status = pd_status a, pd_entry = entry, pd_boundary = boundary,
        pd_objective = objective, pd_multiplier = pd_multiplier a, pd_ratio = ratio,
        pd_notes = pd_notes a\<rparr>)))))"

definition hold_draft :: "string \<Rightarrow> string list \<Rightarrow> plan_draft" where
  "hold_draft symbol notes = \<lparr>pd_symbol = symbol, pd_status = PLAN_HOLD, pd_entry = None,
     pd_boundary = None, pd_objective = None, pd_multiplier = 1, pd_ratio = Fl 2, pd_notes = notes\<rparr>"

record plan_request =
  pr_symbol :: string
  pr_entry :: pyfloat
  pr_boundary :: pyfloat
  pr_multiplier :: int
  pr_ratio :: pyfloat

definition PlanRequest :: "plan_request \<Rightarrow> plan_request result" where
  "PlanRequest a =
     (let symbol = strip (pr_symbol a) in
      if symbol = '''' then Inl (ValueError ''symbol is required'')
      else and_then (finite_float ''entry_value'' (pr_entry a)) (\<lambda>entry.
      and_then (finite_float ''boundary_value'' (pr_boundary a)) (\<lambda>boundary.
      and_then (finite_float ''ratio'' (pr_ratio a)) (\<lambda>ratio.
      Inr \<lparr>pr_symbol = symbol, pr_entry = entry, pr_boundary = boundary,
        pr_multiplier = pr_multiplier a, pr_ratio = ratio\<rparr>))))"

definition build_plan :: "flow_result \<Rightarrow> plan_request \<Rightarrow> plan_draft result" where
  "build_plan f r =
     (if \<not> flow_ready f then PlanDraft (hold_draft (pr_symbol r) [''flow is not ready''])
      else let symbol = strip (pr_symbol r) in
      if symbol = '''' then Inl (ValueError ''symbol is required'')
      else if fle (pr_entry r) (Fl 0) \<or> fle (pr_boundary r) (Fl 0)
        then Inl (ValueError ''plan values must be positive'')
      else if fle (pr_boundary r) (pr_entry r) then Inl (ValueError ''boundary must be above entry'')
      else if fle (pr_ratio r) (Fl 0) then Inl (ValueError ''ratio must be positive'')
      else if pr_multiplier r < 1 \<or> 5 < pr_multiplier r
        then Inl (ValueError ''multiplier must be between 1 and 5'')
      else let gap = fsub (pr_boundary r) (pr_entry r);
             objective = fsub (pr_entry r) (fmul gap (pr_ratio r)) in
      if fle objective (Fl 0) then Inl (ValueError ''objective must remain positive'')
      else PlanDraft \<lparr>pd_symbol = symbol, pd_status = PLAN_READY, pd_entry = Some (pr_entry r),
        pd_boundary = Some (pr_boundary r), pd_objective = Some objective,
        pd_multiplier = pr_multiplier r, pd_ratio = pr_ratio r, pd_notes = [''plan created'']\<rparr>)"

section \<open>Laws of the chain\<close>

lemma flow_ready_iff: "flow_ready (run_flow (classify_snapshot s)) \<longleftrightarrow> ss_state s = ST_ALERT"
  by (cases "ss_state s")
    (simp_all add: run_flow_def classify_snapshot_def flow_ready_def required_keys_def is_actionable_def)

lemma analyze_structure_Inr:
  assumes "analyze_structure i = Inr s"
  shows "ss_symbol s = strip (si_symbol i)" "ss_current s = si_current i" "ss_low s = si_low i"
    "ss_high s = si_high i" "ss_state s = ST_ALERT \<longleftrightarrow> fless (si_current i) (si_low i)"
  using assms unfolding analyze_structure_def StructureSnapshot_def Let_def
  by (auto simp: result_simps split: if_splits)

lemma opt_finite_Inr [result_simps]:
  "opt_finite name v = Inr w \<longleftrightarrow> w = v \<and> (\<forall>x. v = Some x \<longrightarrow> isfinite x)"
  by (cases v) (auto simp: result_simps)

lemma build_plan_Inr:
  assumes "build_plan f r = Inr p"
  shows "flow_ready f \<longleftrightarrow> pd_status p = PLAN_READY" "strip (pr_symbol r) = pd_symbol p"
  using assms unfolding build_plan_def PlanDraft_def Let_def hold_draft_def
  by (auto simp: result_simps strip_strip split: if_splits)

lemma plan_bounds:
  assumes "build_plan f r = Inr p" "pd_status p = PLAN_READY" "is_float (pr_entry r)"
  shows "\<exists>entry boundary objective.
    pd_entry p = Some (Fl entry) \<and> pd_boundary p = Some (Fl boundary) \<and> pd_objective p = Some (Fl objective) \<and>
    pr_entry r = Fl entry \<and> pr_boundary r = Fl boundary \<and>
    Fl objective = fsub (Fl entry) (fmul (fsub (Fl boundary) (Fl entry)) (pr_ratio r)) \<and>
    0 < objective \<and> objective \<le> entry \<and> entry < boundary \<and> 1 \<le> pd_multiplier p \<and> pd_multiplier p \<le> 5"
proof -
  have ready: "flow_ready f" using build_plan_Inr(1) [OF assms(1)] assms(2) by simp
  let ?o = "fsub (pr_entry r) (fmul (fsub (pr_boundary r) (pr_entry r)) (pr_ratio r))"
  from assms(1) ready have guards: "\<not> fle (pr_entry r) (Fl 0)" "\<not> fle (pr_boundary r) (Fl 0)"
      "\<not> fle (pr_boundary r) (pr_entry r)" "\<not> fle (pr_ratio r) (Fl 0)" "\<not> fle ?o (Fl 0)"
    and draft: "PlanDraft \<lparr>pd_symbol = strip (pr_symbol r), pd_status = PLAN_READY, pd_entry = Some (pr_entry r),
        pd_boundary = Some (pr_boundary r), pd_objective = Some ?o,
        pd_multiplier = pr_multiplier r, pd_ratio = pr_ratio r, pd_notes = [''plan created'']\<rparr> = Inr p"
    unfolding build_plan_def Let_def by (auto split: if_splits)
  from draft have fin: "isfinite (pr_entry r)" "isfinite (pr_boundary r)" "isfinite ?o" "isfinite (pr_ratio r)"
    and fields: "pd_entry p = Some (pr_entry r)" "pd_boundary p = Some (pr_boundary r)" "pd_objective p = Some ?o"
      "1 \<le> pd_multiplier p" "pd_multiplier p \<le> 5"
    unfolding PlanDraft_def Let_def by (auto simp: result_simps)
  then obtain a b c k where vals: "pr_entry r = Fl a" "pr_boundary r = Fl b" "?o = Fl c" "pr_ratio r = Fl k"
    by (auto simp: isfinite_iff)
  have "fle (Fl 0) (fsub (Fl b) (Fl a))"
    using guards(3) vals f64.R_sub_nonneg [of a b] by (auto simp: fsub_def to_float_def Let_def)
  then have "fle (Fl 0) (fmul (fsub (Fl b) (Fl a)) (Fl k)) \<or> fmul (fsub (Fl b) (Fl a)) (Fl k) = FNaN"
    using guards(4) vals by (intro fle_0_fmul) auto
  moreover have "fmul (fsub (Fl b) (Fl a)) (Fl k) \<noteq> FNaN"
    using vals(3) unfolding vals(1,2,4) by (auto simp: fsub_def)
  ultimately have "c \<le> a"
    using vals assms(3) by (intro fsub_le [of a "fmul (fsub (Fl b) (Fl a)) (Fl k)"]) auto
  with guards vals fields show ?thesis by auto
qed

text \<open>
  C8: a ready plan is sane: its values are those of the request, the objective is positive and not above the
  entry, the boundary (the stop of a short) is above the entry, and the multiplier is between 1
  and 5. The objective is the rounded \<open>entry - (boundary - entry) * ratio\<close>.
\<close>

theorem build_plan_bounds:
  assumes "build_plan f r = Inr p" "pd_status p = PLAN_READY" "is_float (pr_entry r)"
  shows "\<exists>entry boundary objective.
    pd_entry p = Some (Fl entry) \<and> pd_boundary p = Some (Fl boundary) \<and> pd_objective p = Some (Fl objective) \<and>
    pr_entry r = Fl entry \<and> pr_boundary r = Fl boundary \<and>
    Fl objective = fsub (Fl entry) (fmul (fsub (Fl boundary) (Fl entry)) (pr_ratio r)) \<and>
    0 < objective \<and> objective \<le> entry \<and> entry < boundary \<and> 1 \<le> pd_multiplier p \<and> pd_multiplier p \<le> 5"
  using assms by (rule plan_bounds)

definition sample_flow :: flow_result where
  "sample_flow = \<lparr>fr_symbol = ''ABC'', fr_status = FL_READY, fr_reasons = [''ready'']\<rparr>"

definition sample_request :: "rat \<Rightarrow> plan_request" where
  "sample_request ratio = \<lparr>pr_symbol = ''ABC'', pr_entry = Fl 100, pr_boundary = Fl 101, pr_multiplier = 2,
     pr_ratio = Fl ratio\<rparr>"

lemma f64_int: "\<bar>n\<bar> < 2 ^ 53 \<Longrightarrow> f64_round (of_int n) = of_int n"
  using f64_round_exact [of n 0] by simp

lemma f64_numeral [simp]: "numeral k < (2 ^ 53 :: int) \<Longrightarrow> f64_round (numeral k) = numeral k"
  using f64_int [of "numeral k"] by simp

lemma f64_one [simp]: "f64_round 1 = 1"
  using f64_int [of 1] by simp

lemma sample_plan: "build_plan sample_flow (sample_request 2) = Inr
    \<lparr>pd_symbol = ''ABC'', pd_status = PLAN_READY, pd_entry = Some (Fl 100), pd_boundary = Some (Fl 101),
     pd_objective = Some (Fl 98), pd_multiplier = 2, pd_ratio = Fl 2, pd_notes = [''plan created'']\<rparr>"
  by (simp add: build_plan_def sample_flow_def sample_request_def flow_ready_def fsub_def to_float_def
      f64_max_def Let_def PlanDraft_def finite_float_def strip_def is_space_def spaces_def)

theorem build_plan_bounds_witness:
  "\<exists>p objective. build_plan sample_flow (sample_request 2) = Inr p \<and>
     pd_objective p = Some (Fl objective) \<and> 0 < objective \<and> objective \<le> 100"
proof -
  obtain p where p: "build_plan sample_flow (sample_request 2) = Inr p" "pd_status p = PLAN_READY"
    using sample_plan by auto
  have "is_float (pr_entry (sample_request 2))" "pr_entry (sample_request 2) = Fl 100"
    by (simp_all add: sample_request_def f64_max_def)
  with build_plan_bounds [OF p] p(1) show ?thesis by (metis pyfloat.inject(1))
qed

text \<open>
  The bound on the objective is not strict: when the distance to the objective is below the
  resolution of the entry, the plan is ready although it aims at no move.
\<close>

lemma build_plan_without_objective:
  "\<exists>p. build_plan sample_flow (sample_request (1 / 2 ^ 60)) = Inr p \<and>
     pd_status p = PLAN_READY \<and> pd_objective p = pd_entry p"
proof -
  define x :: rat where "x = 1 / 2 ^ 60"
  have r: "f64_round x = x"
    using f64_round_exact [of 1 "-60"] by (simp add: x_def power_int_minus inverse_eq_divide)
  have x: "0 < x" "x < f64_max" by (simp_all add: x_def f64_max_def)
  have "f64_round (100 - x) = 100" unfolding x_def by code_simp
  then have "fsub (Fl 100) (Fl x) = Fl 100" by (simp add: fsub_def to_float_def f64_max_def)
  moreover have "fmul (fsub (Fl 101) (Fl 100)) (Fl x) = Fl x"
    using r x by (simp add: fsub_def to_float_def Let_def) (simp add: f64_max_def)
  ultimately show ?thesis using x unfolding x_def [symmetric]
    by (simp add: build_plan_def sample_flow_def sample_request_def flow_ready_def Let_def PlanDraft_def
        finite_float_def strip_def is_space_def spaces_def)
qed

end
