(* ===== verification/Backtest.thy ===== *)
theory Backtest
  imports Planning
begin

text \<open>
  \<^verbatim>\<open>app/backtest\<close>: a ready plan is replayed on historical bars. \<open>run_backtest\<close> leaves the position at
  the first bar that touches the stop (the boundary) or the target (the objective); when one bar
  touches both, the policy decides. \<open>build_metrics\<close> aggregates results. The theorems say that the
  loop finds the first touch and looks no further, when it raises, that the conservative policy
  never reports more than the optimistic one, and that the counts of the metrics add up.
\<close>

section \<open>Data\<close>

datatype backtest_outcome = BT_TARGET | BT_STOP | BT_EXPIRED

datatype intrabar_policy = CONSERVATIVE | OPTIMISTIC

record historical_bar =
  hb_timestamp :: datetime
  hb_open :: pyfloat
  hb_high :: pyfloat
  hb_low :: pyfloat
  hb_close :: pyfloat

record backtest_case =
  bc_plan :: plan_draft
  bc_bars :: "historical_bar list"
  bc_policy :: intrabar_policy

record backtest_result =
  br_symbol :: string
  br_outcome :: backtest_outcome
  br_exit_at :: datetime
  br_exit_value :: pyfloat
  br_bars_processed :: nat
  br_price_return_pct :: pyfloat
  br_leveraged_return_pct :: pyfloat
  br_same_bar_conflict :: bool

record backtest_metrics =
  bm_total_cases :: nat
  bm_resolved_cases :: nat
  bm_target_count :: nat
  bm_stop_count :: nat
  bm_expired_count :: nat
  bm_conflict_count :: nat
  bm_target_rate :: pyfloat
  bm_average_return_pct :: pyfloat
  bm_median_return_pct :: pyfloat
  bm_profit_factor :: "pyfloat option"
  bm_max_drawdown_pct :: pyfloat

section \<open>Replay\<close>

definition validate_plan :: "plan_draft \<Rightarrow> (pyfloat \<times> pyfloat \<times> pyfloat) result" where
  "validate_plan p =
     (if pd_status p \<noteq> PLAN_READY then Inl (ValueError ''backtest requires a ready plan'')
      else if strip (pd_symbol p) = '''' then Inl (ValueError ''plan symbol is required'')
      else case (pd_entry p, pd_boundary p, pd_objective p) of
        (Some entry, Some boundary, Some objective) \<Rightarrow>
          if \<not> (isfinite entry \<and> isfinite boundary \<and> isfinite objective)
            then Inl (ValueError ''short plan values must be finite'')
          else if \<not> (fless (Fl 0) objective \<and> fless objective entry \<and> fless entry boundary)
            then Inl (ValueError ''short plan values must satisfy objective < entry < boundary'')
          else if pd_multiplier p < 1 \<or> 5 < pd_multiplier p
            then Inl (ValueError ''plan multiplier must be between 1 and 5'')
          else Inr (entry, boundary, objective)
      | _ \<Rightarrow> Inl (ValueError ''ready plan is missing required values''))"

definition check_bar_values :: "historical_bar \<Rightarrow> unit result" where
  "check_bar_values b =
     (let vs = [hb_open b, hb_high b, hb_low b, hb_close b] in
      if \<not> list_all isfinite vs then Inl (ValueError ''bar values must be finite'')
      else if list_ex (\<lambda>v. fle v (Fl 0)) vs then Inl (ValueError ''bar values must be positive'')
      else if fless (fmin (hb_open b) (hb_close b)) (hb_low b) then Inl (ValueError ''bar low is inconsistent'')
      else if fless (hb_high b) (fmax (hb_open b) (hb_close b)) then Inl (ValueError ''bar high is inconsistent'')
      else if fless (hb_high b) (hb_low b) then Inl (ValueError ''bar range is inconsistent'')
      else Inr ())"

fun check_bars :: "datetime option \<Rightarrow> historical_bar list \<Rightarrow> unit result" where
  "check_bars previous [] = Inr ()"
| "check_bars previous (b # bs) =
     (if \<not> aware (hb_timestamp b) then Inl (ValueError ''bar timestamps must be timezone-aware'')
      else and_then (case previous of None \<Rightarrow> Inr True | Some t \<Rightarrow> dt_less t (hb_timestamp b)) (\<lambda>later.
      if \<not> later then Inl (ValueError ''historical bars must be strictly chronological'')
      else and_then (check_bar_values b) (\<lambda>_. check_bars (Some (hb_timestamp b)) bs)))"

definition validate_bars :: "historical_bar list \<Rightarrow> unit result" where
  "validate_bars bs =
     (if bs = [] then Inl (ValueError ''at least one historical bar is required'') else check_bars None bs)"

text \<open>The entry of a validated plan is present.\<close>

definition build_result ::
  "plan_draft \<Rightarrow> backtest_outcome \<Rightarrow> datetime \<Rightarrow> pyfloat \<Rightarrow> nat \<Rightarrow> bool \<Rightarrow> backtest_result result" where
  "build_result p outcome exit_at exit_value processed conflict =
     (case pd_entry p of
        None \<Rightarrow> Inl (TypeError (''float() argument must be a string or a real number, not 'NoneType'' @ [CHR 0x27]))
      | Some entry \<Rightarrow>
          and_then (fdiv (fsub entry exit_value) entry) (\<lambda>q.
          let price_return = fmul q (Fl 100) in
          Inr \<lparr>br_symbol = pd_symbol p, br_outcome = outcome, br_exit_at = exit_at, br_exit_value = exit_value,
            br_bars_processed = processed, br_price_return_pct = price_return,
            br_leveraged_return_pct = fmul price_return (Fl (of_int (pd_multiplier p))),
            br_same_bar_conflict = conflict\<rparr>))"

definition stop_touched :: "pyfloat \<Rightarrow> historical_bar \<Rightarrow> bool" where
  "stop_touched boundary b \<longleftrightarrow> fle boundary (hb_high b)"

definition target_touched :: "pyfloat \<Rightarrow> historical_bar \<Rightarrow> bool" where
  "target_touched objective b \<longleftrightarrow> fle (hb_low b) objective"

text \<open>The loop over the bars; \<open>index\<close> counts from one, \<open>None\<close> when no bar ends the replay.\<close>

fun replay :: "backtest_case \<Rightarrow> pyfloat \<Rightarrow> pyfloat \<Rightarrow> nat \<Rightarrow> historical_bar list \<Rightarrow> backtest_result result option" where
  "replay c boundary objective index [] = None"
| "replay c boundary objective index (b # bs) =
     (let stop = stop_touched boundary b; target = target_touched objective b in
      if stop \<and> target then
        (if bc_policy c = OPTIMISTIC
         then Some (build_result (bc_plan c) BT_TARGET (hb_timestamp b) objective index True)
         else Some (build_result (bc_plan c) BT_STOP (hb_timestamp b) boundary index True))
      else if stop then Some (build_result (bc_plan c) BT_STOP (hb_timestamp b) boundary index False)
      else if target then Some (build_result (bc_plan c) BT_TARGET (hb_timestamp b) objective index False)
      else replay c boundary objective (index + 1) bs)"

definition run_backtest :: "backtest_case \<Rightarrow> backtest_result result" where
  "run_backtest c =
     and_then (validate_plan (bc_plan c)) (\<lambda>(entry, boundary, objective).
     and_then (validate_bars (bc_bars c)) (\<lambda>_.
     case replay c boundary objective 1 (bc_bars c) of
       Some r \<Rightarrow> r
     | None \<Rightarrow> let b = last (bc_bars c) in
         build_result (bc_plan c) BT_EXPIRED (hb_timestamp b) (hb_close b) (length (bc_bars c)) False))"

section \<open>Metrics\<close>

text \<open>
  \<open>sum\<close> of floats, with the compensation of Python 3.12: \<open>lo\<close> collects what the additions lose.
\<close>

fun comp_sum :: "pyfloat \<Rightarrow> pyfloat \<Rightarrow> pyfloat list \<Rightarrow> pyfloat" where
  "comp_sum hi lo [] = (if lo \<noteq> Fl 0 \<and> isfinite lo then fadd hi lo else hi)"
| "comp_sum hi lo (x # xs) =
     (let t = fadd hi x;
          lost = (if fle (fabs x) (fabs hi) then fadd (fsub hi t) x else fadd (fsub x t) hi)
      in comp_sum t (fadd lo lost) xs)"

fun py_sum :: "pyfloat list \<Rightarrow> pyfloat" where
  "py_sum [] = Fl 0"
| "py_sum (x # xs) = comp_sum x (Fl 0) xs"

text \<open>
  \<open>math.fsum\<close>: the partial sums hold the exact sum of what was read so far; the result is that sum,
  rounded once. An overflow on the way raises; infinities and NaN are summed apart.
\<close>

fun fsum_add :: "pyfloat \<Rightarrow> pyfloat list \<Rightarrow> pyfloat list \<times> pyfloat" where
  "fsum_add x [] = ([], x)"
| "fsum_add x (p # ps) =
     (let (a, b) = (if fless (fabs x) (fabs p) then (p, x) else (x, p));
          hi = fadd a b; lo = fsub b (fsub hi a); (rest, y) = fsum_add hi ps
      in (if lo \<noteq> Fl 0 then lo # rest else rest, y))"

record fsum_state =
  fs_partials :: "pyfloat list"
  fs_special :: pyfloat
  fs_inf :: pyfloat

definition fsum_step :: "fsum_state \<Rightarrow> pyfloat \<Rightarrow> fsum_state result" where
  "fsum_step s x =
     (let (ps, y) = fsum_add x (fs_partials s) in
      if y = Fl 0 then Inr (s\<lparr>fs_partials := ps\<rparr>)
      else if isfinite y then Inr (s\<lparr>fs_partials := ps @ [y]\<rparr>)
      else if isfinite x then Inl (OverflowError ''intermediate overflow in fsum'')
      else Inr \<lparr>fs_partials = [], fs_special = fadd (fs_special s) x,
        fs_inf = (if x = FNaN then fs_inf s else fadd (fs_inf s) x)\<rparr>)"

definition fsum :: "pyfloat list \<Rightarrow> pyfloat result" where
  "fsum xs =
     and_then (foldM fsum_step \<lparr>fs_partials = [], fs_special = Fl 0, fs_inf = Fl 0\<rparr> xs) (\<lambda>s.
     if fs_special s \<noteq> Fl 0
     then if fs_inf s = FNaN then Inl (ValueError ''-inf + inf in fsum'') else Inr (fs_special s)
     else Inr (to_float (sum_list (map fval (fs_partials s)))))"

definition fmean :: "pyfloat list \<Rightarrow> pyfloat result" where
  "fmean xs = and_then (fsum xs) (\<lambda>total. fdiv total (Fl (of_nat (length xs))))"

text \<open>\<open>statistics.median\<close>, on a non-empty list of numbers (no NaN).\<close>

fun finsert :: "pyfloat \<Rightarrow> pyfloat list \<Rightarrow> pyfloat list" where
  "finsert x [] = [x]"
| "finsert x (y # ys) = (if fless y x then y # finsert x ys else x # y # ys)"

definition fmedian :: "pyfloat list \<Rightarrow> pyfloat result" where
  "fmedian xs =
     (let ys = foldr finsert xs []; n = length ys; i = n div 2 in
      if n = 0 then Inl (OtherError ''StatisticsError'' ''no median for empty data'')
      else if n mod 2 = 1 then Inr (ys ! i) else fdiv (fadd (ys ! (i - 1)) (ys ! i)) (Fl 2))"

text \<open>The state of the loop: the equity, its highest value so far and the greatest fall from it.\<close>

definition drawdown_step :: "pyfloat \<times> pyfloat \<times> pyfloat \<Rightarrow> pyfloat \<Rightarrow> (pyfloat \<times> pyfloat \<times> pyfloat) result" where
  "drawdown_step s v =
     (let (equity0, peak0, maximum) = s; equity = fadd equity0 v; peak = fmax peak0 equity in
      if fless (Fl 0) peak
      then and_then (fdiv (fsub peak equity) peak) (\<lambda>q. Inr (equity, peak, fmax maximum (fmul q (Fl 100))))
      else Inr (equity, peak, maximum))"

definition max_drawdown :: "pyfloat list \<Rightarrow> pyfloat result" where
  "max_drawdown returns =
     and_then (foldM drawdown_step (Fl 100, Fl 100, Fl 0) returns) (\<lambda>(equity, peak, maximum). Inr maximum)"

definition build_metrics :: "backtest_result list \<Rightarrow> backtest_metrics result" where
  "build_metrics results =
     (let target_count = count_where (\<lambda>r. br_outcome r = BT_TARGET) results;
          stop_count = count_where (\<lambda>r. br_outcome r = BT_STOP) results;
          expired_count = count_where (\<lambda>r. br_outcome r = BT_EXPIRED) results;
          conflict_count = count_where br_same_bar_conflict results;
          resolved = target_count + stop_count;
          returns = map br_leveraged_return_pct results;
          gross_profit = py_sum (filter (\<lambda>v. fless (Fl 0) v) returns);
          gross_loss = fabs (py_sum (filter (\<lambda>v. fless v (Fl 0)) returns)) in
      and_then (if fless (Fl 0) gross_loss then and_then (fdiv gross_profit gross_loss) (\<lambda>q. Inr (Some q))
                else Inr None) (\<lambda>profit_factor.
      and_then (if returns \<noteq> [] then fmean returns else Inr (Fl 0)) (\<lambda>average.
      and_then (if returns \<noteq> [] then fmedian returns else Inr (Fl 0)) (\<lambda>middle.
      and_then (max_drawdown returns) (\<lambda>drawdown.
      Inr \<lparr>bm_total_cases = length results, bm_resolved_cases = resolved, bm_target_count = target_count,
        bm_stop_count = stop_count, bm_expired_count = expired_count, bm_conflict_count = conflict_count,
        bm_target_rate = (if resolved \<noteq> 0
          then fmul (to_float (of_nat target_count / of_nat resolved)) (Fl 100) else Fl 0),
        bm_average_return_pct = average, bm_median_return_pct = middle,
        bm_profit_factor = profit_factor, bm_max_drawdown_pct = drawdown\<rparr>)))))"

section \<open>What a valid case is\<close>

definition plan_valid :: "plan_draft \<Rightarrow> bool" where
  "plan_valid p \<longleftrightarrow> pd_status p = PLAN_READY \<and> strip (pd_symbol p) \<noteq> '''' \<and> 1 \<le> pd_multiplier p \<and> pd_multiplier p \<le> 5 \<and>
     (\<exists>entry boundary objective. pd_entry p = Some (Fl entry) \<and> pd_boundary p = Some (Fl boundary) \<and>
        pd_objective p = Some (Fl objective) \<and> 0 < objective \<and> objective < entry \<and> entry < boundary)"

definition bar_valid :: "historical_bar \<Rightarrow> bool" where
  "bar_valid b \<longleftrightarrow> (\<exists>open_value high low close_value. hb_open b = Fl open_value \<and> hb_high b = Fl high \<and>
     hb_low b = Fl low \<and> hb_close b = Fl close_value \<and>
     0 < low \<and> low \<le> open_value \<and> low \<le> close_value \<and> open_value \<le> high \<and> close_value \<le> high)"

definition bars_valid :: "historical_bar list \<Rightarrow> bool" where
  "bars_valid bs \<longleftrightarrow> bs \<noteq> [] \<and> (\<forall>b \<in> set bs. aware (hb_timestamp b) \<and> bar_valid b) \<and>
     sorted_wrt (\<lambda>a b. instant (hb_timestamp a) < instant (hb_timestamp b)) bs"

lemma validate_plan_Inr [result_simps]:
  "validate_plan p = Inr (x, y, z) \<longleftrightarrow>
     plan_valid p \<and> pd_entry p = Some x \<and> pd_boundary p = Some y \<and> pd_objective p = Some z"
  by (cases "pd_entry p"; cases "pd_boundary p"; cases "pd_objective p")
    (auto simp: validate_plan_def plan_valid_def isfinite_iff)

lemma check_bar_values_Inr [result_simps]: "check_bar_values b = Inr u \<longleftrightarrow> bar_valid b"
  by (cases "hb_open b"; cases "hb_high b"; cases "hb_low b"; cases "hb_close b")
    (auto simp: check_bar_values_def bar_valid_def fmin_def fmax_def Let_def)

lemma check_bars_Inr:
  "(\<forall>t. previous = Some t \<longrightarrow> aware t) \<Longrightarrow> check_bars previous bs = Inr u \<longleftrightarrow>
     (\<forall>b \<in> set bs. aware (hb_timestamp b) \<and> bar_valid b \<and> (\<forall>t. previous = Some t \<longrightarrow> instant t < instant (hb_timestamp b))) \<and>
     sorted_wrt (\<lambda>a b. instant (hb_timestamp a) < instant (hb_timestamp b)) bs"
proof (induction previous bs rule: check_bars.induct)
  case (2 previous b bs)
  show ?case
  proof (cases "aware (hb_timestamp b)")
    case True
    have "check_bars previous (b # bs) = Inr u \<longleftrightarrow>
       (\<forall>t. previous = Some t \<longrightarrow> instant t < instant (hb_timestamp b)) \<and> bar_valid b \<and>
       check_bars (Some (hb_timestamp b)) bs = Inr u"
      using True 2(2) by (cases previous) (auto simp: result_simps dt_less_aware)
    moreover have "check_bars (Some (hb_timestamp b)) bs = Inr u \<longleftrightarrow>
       (\<forall>x \<in> set bs. aware (hb_timestamp x) \<and> bar_valid x \<and> instant (hb_timestamp b) < instant (hb_timestamp x)) \<and>
       sorted_wrt (\<lambda>a b. instant (hb_timestamp a) < instant (hb_timestamp b)) bs"
      using True by (subst "2.IH") (auto simp: check_bar_values_def)
    ultimately show ?thesis using True by (auto dest: less_trans)
  qed simp
qed simp

lemma validate_bars_Inr [result_simps]: "validate_bars bs = Inr u \<longleftrightarrow> bars_valid bs"
  by (auto simp: validate_bars_def bars_valid_def check_bars_Inr)


section \<open>The first touch\<close>

definition touched :: "pyfloat \<Rightarrow> pyfloat \<Rightarrow> historical_bar \<Rightarrow> bool" where
  "touched boundary objective b \<longleftrightarrow> stop_touched boundary b \<or> target_touched objective b"

text \<open>The exit the replay is meant to find: outcome, time, value, number of bars read, conflict.\<close>

definition reference_exit ::
  "intrabar_policy \<Rightarrow> pyfloat \<Rightarrow> pyfloat \<Rightarrow> historical_bar list \<Rightarrow>
     backtest_outcome \<times> datetime \<times> pyfloat \<times> nat \<times> bool" where
  "reference_exit policy boundary objective bs =
     (case find_index (touched boundary objective) bs of
        None \<Rightarrow> (BT_EXPIRED, hb_timestamp (last bs), hb_close (last bs), length bs, False)
      | Some i \<Rightarrow>
          let b = bs ! i; stop = stop_touched boundary b; target = target_touched objective b;
              stopped = (stop \<and> (target \<longrightarrow> policy = CONSERVATIVE)) in
          (if stopped then BT_STOP else BT_TARGET, hb_timestamp b, if stopped then boundary else objective,
           Suc i, stop \<and> target))"

fun finish_exit :: "plan_draft \<Rightarrow> backtest_outcome \<times> datetime \<times> pyfloat \<times> nat \<times> bool \<Rightarrow> backtest_result result" where
  "finish_exit p (out, at_time, v, n, conflict) = build_result p out at_time v n conflict"

lemma replay_first:
  "replay c boundary objective k bs =
     (case find_index (touched boundary objective) bs of
        None \<Rightarrow> None
      | Some i \<Rightarrow>
          let b = bs ! i; stop = stop_touched boundary b; target = target_touched objective b;
              stopped = (stop \<and> (target \<longrightarrow> bc_policy c = CONSERVATIVE)) in
          Some (finish_exit (bc_plan c) (if stopped then BT_STOP else BT_TARGET, hb_timestamp b,
            if stopped then boundary else objective, k + i, stop \<and> target)))"
proof (induction bs arbitrary: k)
  case (Cons b bs)
  show ?case
  proof (cases "touched boundary objective b")
    case True
    then show ?thesis by (cases "bc_policy c") (auto simp: touched_def Let_def)
  next
    case False
    then have "replay c boundary objective k (b # bs) = replay c boundary objective (k + 1) bs"
      by (auto simp: touched_def Let_def)
    then show ?thesis using False unfolding Cons.IH
      by (cases "find_index (touched boundary objective) bs") (simp_all add: Let_def)
  qed
qed simp

lemma run_backtest_eq:
  "run_backtest c =
     and_then (validate_plan (bc_plan c)) (\<lambda>(entry, boundary, objective).
     and_then (validate_bars (bc_bars c)) (\<lambda>_.
     finish_exit (bc_plan c) (reference_exit (bc_policy c) boundary objective (bc_bars c))))"
proof -
  have "(case replay c boundary objective 1 (bc_bars c) of Some r \<Rightarrow> r
     | None \<Rightarrow> let b = last (bc_bars c) in
         build_result (bc_plan c) BT_EXPIRED (hb_timestamp b) (hb_close b) (length (bc_bars c)) False) =
     finish_exit (bc_plan c) (reference_exit (bc_policy c) boundary objective (bc_bars c))" for boundary objective
    unfolding replay_first reference_exit_def Let_def
    by (cases "find_index (touched boundary objective) (bc_bars c)") simp_all
  then show ?thesis unfolding run_backtest_def by simp
qed

lemma fdiv_total: "b \<noteq> 0 \<Longrightarrow> \<exists>q. fdiv x (Fl b) = Inr q"
  by (cases x) simp_all

lemma finish_exit_valid:
  assumes "plan_valid p"
  shows "\<exists>r. finish_exit p x = Inr r \<and>
    (br_outcome r, br_exit_at r, br_exit_value r, br_bars_processed r, br_same_bar_conflict r) = x \<and>
    br_symbol r = pd_symbol p"
proof -
  obtain out at_time v n conflict where x: "x = (out, at_time, v, n, conflict)" by (cases x) auto
  obtain e where e: "pd_entry p = Some (Fl e)" "e \<noteq> 0" using assms by (auto simp: plan_valid_def)
  obtain q where "fdiv (fsub (Fl e) v) (Fl e) = Inr q" using fdiv_total [OF e(2)] by blast
  then show ?thesis using e(1) by (simp add: x build_result_def Let_def)
qed

lemma run_backtest_Inr:
  "run_backtest c = Inr r \<longleftrightarrow>
     plan_valid (bc_plan c) \<and> bars_valid (bc_bars c) \<and>
     (\<exists>boundary objective. pd_boundary (bc_plan c) = Some boundary \<and> pd_objective (bc_plan c) = Some objective \<and>
        finish_exit (bc_plan c) (reference_exit (bc_policy c) boundary objective (bc_bars c)) = Inr r)"
  unfolding run_backtest_eq by (auto simp: result_simps plan_valid_def)

lemma run_backtest_accepts:
  "succeeds (run_backtest c) \<longleftrightarrow> plan_valid (bc_plan c) \<and> bars_valid (bc_bars c)"
proof -
  have fin: "\<exists>r. finish_exit (bc_plan c) x = Inr r" if "plan_valid (bc_plan c)" for x
    using finish_exit_valid [OF that] by blast
  have vals: "\<exists>bd ob. pd_boundary (bc_plan c) = Some bd \<and> pd_objective (bc_plan c) = Some ob"
    if "plan_valid (bc_plan c)" using that by (auto simp: plan_valid_def)
  show ?thesis unfolding succeeds_iff run_backtest_Inr using fin vals by blast
qed

text \<open>
  C15: the replay leaves the position at the first bar that touches the stop or the target. If that bar
  touches both, the conservative policy books the stop and the optimistic one the target, and the
  result is marked as a conflict; if no bar touches either, the position expires at the close of
  the last bar.
\<close>

theorem backtest_first_touch:
  assumes "run_backtest c = Inr r"
    "pd_boundary (bc_plan c) = Some boundary" "pd_objective (bc_plan c) = Some objective"
  shows "(br_outcome r, br_exit_at r, br_exit_value r, br_bars_processed r, br_same_bar_conflict r) =
    reference_exit (bc_policy c) boundary objective (bc_bars c)"
  using assms finish_exit_valid [of "bc_plan c" "reference_exit (bc_policy c) boundary objective (bc_bars c)"]
  by (auto simp: run_backtest_Inr)

text \<open>
  the replay does not look ahead: a position that was stopped or reached its target gives the same
  result on every valid series of bars that starts with the bars read so far.
\<close>

theorem backtest_no_lookahead:
  assumes "run_backtest c = Inr r" "br_outcome r \<noteq> BT_EXPIRED"
    "take (br_bars_processed r) bs = take (br_bars_processed r) (bc_bars c)" "bars_valid bs"
  shows "run_backtest (c\<lparr>bc_bars := bs\<rparr>) = Inr r"
proof -
  from assms(1) obtain bd ob where v: "plan_valid (bc_plan c)" "pd_boundary (bc_plan c) = Some bd"
      "pd_objective (bc_plan c) = Some ob" and
    f: "finish_exit (bc_plan c) (reference_exit (bc_policy c) bd ob (bc_bars c)) = Inr r"
    by (auto simp: run_backtest_Inr)
  have ref: "(br_outcome r, br_exit_at r, br_exit_value r, br_bars_processed r, br_same_bar_conflict r) =
      reference_exit (bc_policy c) bd ob (bc_bars c)"
    using finish_exit_valid [OF v(1), of "reference_exit (bc_policy c) bd ob (bc_bars c)"] f by auto
  obtain i where i: "find_index (touched bd ob) (bc_bars c) = Some i" and n: "br_bars_processed r = Suc i"
    using ref assms(2) by (cases "find_index (touched bd ob) (bc_bars c)") (auto simp: reference_exit_def Let_def)
  have len: "i < length (bc_bars c)" using i by (simp add: find_index_Some)
  with assms(3) n have len': "i < length bs"
    by (metis Suc_le_eq length_take min.absorb2 min_def nle_le)
  have same: "bs ! j = bc_bars c ! j" if "j \<le> i" for j
    using assms(3) that n by (metis less_Suc_eq_le nth_take)
  have "find_index (touched bd ob) bs = Some i" using i len' same by (simp add: find_index_Some)
  then have "reference_exit (bc_policy c) bd ob bs = reference_exit (bc_policy c) bd ob (bc_bars c)"
    using i same by (simp add: reference_exit_def)
  then show ?thesis using v f assms(4) by (simp add: run_backtest_Inr)
qed


section \<open>Which plans can be replayed\<close>

text \<open>
  a plan made ready by \<open>build_plan\<close> can be replayed on every valid series of bars, and on no
  other, unless its objective was rounded up to its entry; such a plan is refused.
\<close>

theorem backtest_accepts_plan:
  assumes "build_plan f q = Inr p" "pd_status p = PLAN_READY" "is_float (pr_entry q)"
  shows "succeeds (run_backtest \<lparr>bc_plan = p, bc_bars = bs, bc_policy = policy\<rparr>) \<longleftrightarrow>
    bars_valid bs \<and> pd_objective p \<noteq> pd_entry p"
proof -
  have symbol: "strip (pd_symbol p) \<noteq> ''''"
  proof -
    have "strip (pr_symbol q) \<noteq> ''''" using assms(1,2) build_plan_Inr(1) [OF assms(1)]
      by (auto simp: build_plan_def Let_def split: if_splits)
    then show ?thesis using build_plan_Inr(2) [OF assms(1)] strip_strip by metis
  qed
  obtain e b t where "pd_entry p = Some (Fl e)" "pd_boundary p = Some (Fl b)" "pd_objective p = Some (Fl t)"
      "0 < t" "t \<le> e" "e < b" "1 \<le> pd_multiplier p" "pd_multiplier p \<le> 5"
    using plan_bounds [OF assms] by blast
  then have "plan_valid p \<longleftrightarrow> pd_objective p \<noteq> pd_entry p"
    using assms(2) symbol by (auto simp: plan_valid_def)
  then show ?thesis by (auto simp: run_backtest_accepts)
qed

section \<open>Returns\<close>

lemma fmul_mono: "fle x y \<Longrightarrow> 0 < k \<Longrightarrow> fle (fmul x (Fl k)) (fmul y (Fl k))"
  by (cases x; cases y) (auto simp: to_float_mono mult_right_mono)

lemma fdiv_mono:
  "fle x y \<Longrightarrow> 0 < k \<Longrightarrow> fdiv x (Fl k) = Inr a \<Longrightarrow> fdiv y (Fl k) = Inr b \<Longrightarrow> fle a b"
  by (cases x; cases y) (auto simp: to_float_mono divide_right_mono)

text \<open>A lower exit is never worse for a short, whatever the rounding.\<close>

lemma result_mono:
  assumes "plan_valid p" "build_result p o1 t1 (Fl v1) n1 c1 = Inr r1" "build_result p o2 t2 (Fl v2) n2 c2 = Inr r2"
    "v2 \<le> v1"
  shows "fle (br_price_return_pct r1) (br_price_return_pct r2)"
    "fle (br_leveraged_return_pct r1) (br_leveraged_return_pct r2)"
proof -
  obtain e where e: "pd_entry p = Some (Fl e)" "0 < e" and m: "1 \<le> pd_multiplier p"
    using assms(1) by (auto simp: plan_valid_def)
  obtain q1 q2 where q: "fdiv (fsub (Fl e) (Fl v1)) (Fl e) = Inr q1" "fdiv (fsub (Fl e) (Fl v2)) (Fl e) = Inr q2"
    using fdiv_total e(2) by (metis less_irrefl)
  have "fle (fsub (Fl e) (Fl v1)) (fsub (Fl e) (Fl v2))" using assms(4) by (simp add: fsub_def to_float_mono)
  then have "fle q1 q2" by (rule fdiv_mono [OF _ e(2) q])
  then have pct: "fle (fmul q1 (Fl 100)) (fmul q2 (Fl 100))" by (rule fmul_mono) simp
  with assms(2,3) q e(1) show "fle (br_price_return_pct r1) (br_price_return_pct r2)"
    by (auto simp: build_result_def Let_def)
  from fmul_mono [OF pct, of "of_int (pd_multiplier p)"] m assms(2,3) q e(1)
  show "fle (br_leveraged_return_pct r1) (br_leveraged_return_pct r2)"
    by (auto simp: build_result_def Let_def)
qed


lemma exit_value_finite:
  assumes "plan_valid p" "pd_boundary p = Some bd" "pd_objective p = Some ob" "bars_valid bs"
  shows "\<exists>v. fst (snd (snd (reference_exit policy bd ob bs))) = Fl v"
proof -
  have "last bs \<in> set bs" using assms(4) by (simp add: bars_valid_def)
  then have "\<exists>v. hb_close (last bs) = Fl v" using assms(4) by (auto simp: bars_valid_def bar_valid_def)
  then show ?thesis using assms(1-3)
    by (cases "find_index (touched bd ob) bs") (auto simp: reference_exit_def plan_valid_def Let_def)
qed

lemma policy_exits:
  "reference_exit CONSERVATIVE bd ob bs = reference_exit OPTIMISTIC bd ob bs \<or>
   (\<exists>t n. reference_exit CONSERVATIVE bd ob bs = (BT_STOP, t, bd, n, True) \<and>
      reference_exit OPTIMISTIC bd ob bs = (BT_TARGET, t, ob, n, True))"
  by (cases "find_index (touched bd ob) bs") (auto simp: reference_exit_def Let_def)

text \<open>
  the conservative policy is a lower bound: on the same plan and bars its return is never above
  that of the optimistic policy, and the two results agree unless one bar touches both the stop
  and the target, which is then the exit of both.
\<close>

theorem conservative_is_lower:
  assumes "run_backtest (c\<lparr>bc_policy := CONSERVATIVE\<rparr>) = Inr r1"
    "run_backtest (c\<lparr>bc_policy := OPTIMISTIC\<rparr>) = Inr r2"
  shows "fle (br_leveraged_return_pct r1) (br_leveraged_return_pct r2) \<and>
    (r1 = r2 \<or> br_outcome r1 = BT_STOP \<and> br_outcome r2 = BT_TARGET \<and> br_same_bar_conflict r1 \<and>
      br_same_bar_conflict r2 \<and> br_exit_at r1 = br_exit_at r2)"
proof -
  let ?p = "bc_plan c" and ?bs = "bc_bars c"
  from assms obtain bd ob where v: "plan_valid ?p" "bars_valid ?bs" "pd_boundary ?p = Some bd" "pd_objective ?p = Some ob"
    and f1: "finish_exit ?p (reference_exit CONSERVATIVE bd ob ?bs) = Inr r1"
    and f2: "finish_exit ?p (reference_exit OPTIMISTIC bd ob ?bs) = Inr r2"
    by (auto simp: run_backtest_Inr)
  from policy_exits [of bd ob ?bs] show ?thesis
  proof
    assume same: "reference_exit CONSERVATIVE bd ob ?bs = reference_exit OPTIMISTIC bd ob ?bs"
    obtain out t v n k where x: "reference_exit OPTIMISTIC bd ob ?bs = (out, t, Fl v, n, k)"
      using exit_value_finite [OF v(1,3,4,2)] by (metis prod.exhaust_sel)
    have b: "build_result ?p out t (Fl v) n k = Inr r2" using f2 by (simp add: x)
    have "r1 = r2" using f1 f2 same by simp
    then show ?thesis using result_mono(2) [OF v(1) b b] by simp
  next
    assume "\<exists>t n. reference_exit CONSERVATIVE bd ob ?bs = (BT_STOP, t, bd, n, True) \<and>
      reference_exit OPTIMISTIC bd ob ?bs = (BT_TARGET, t, ob, n, True)"
    then obtain t n where b: "build_result ?p BT_STOP t bd n True = Inr r1" "build_result ?p BT_TARGET t ob n True = Inr r2"
      using f1 f2 by auto
    moreover obtain x y where xy: "bd = Fl x" "ob = Fl y" "y \<le> x" using v by (auto simp: plan_valid_def)
    ultimately have "fle (br_leveraged_return_pct r1) (br_leveraged_return_pct r2)"
      using result_mono(2) [OF v(1)] by blast
    moreover have "br_outcome r1 = BT_STOP" "br_outcome r2 = BT_TARGET" "br_same_bar_conflict r1"
        "br_same_bar_conflict r2" "br_exit_at r1 = t" "br_exit_at r2 = t"
      using finish_exit_valid [OF v(1), of "(BT_STOP, t, bd, n, True)"] finish_exit_valid [OF v(1), of "(BT_TARGET, t, ob, n, True)"] b
      by auto
    ultimately show ?thesis by simp
  qed
qed

text \<open>
  The outcome and the return agree in sign: a target never shows a loss and a stop never shows a
  gain, before and after the multiplier.
\<close>

theorem backtest_return_sign:
  assumes "run_backtest c = Inr r"
  shows "(br_outcome r = BT_TARGET \<longrightarrow> fle (Fl 0) (br_price_return_pct r) \<and> fle (Fl 0) (br_leveraged_return_pct r)) \<and>
    (br_outcome r = BT_STOP \<longrightarrow> fle (br_price_return_pct r) (Fl 0) \<and> fle (br_leveraged_return_pct r) (Fl 0))"
proof -
  let ?p = "bc_plan c" and ?bs = "bc_bars c"
  from assms obtain bd ob where v: "plan_valid ?p" "bars_valid ?bs" "pd_boundary ?p = Some bd" "pd_objective ?p = Some ob"
    and f: "finish_exit ?p (reference_exit (bc_policy c) bd ob ?bs) = Inr r" by (auto simp: run_backtest_Inr)
  obtain e x y where e: "pd_entry ?p = Some (Fl e)" "0 < e" "bd = Fl x" "ob = Fl y" "e \<le> x" "y \<le> e"
    using v by (auto simp: plan_valid_def)
  obtain out t z n k where ref: "reference_exit (bc_policy c) bd ob ?bs = (out, t, z, n, k)"
    by (metis prod.exhaust_sel)
  have z: "(out = BT_TARGET \<longrightarrow> z = Fl y) \<and> (out = BT_STOP \<longrightarrow> z = Fl x)"
    using ref e(3,4) by (cases "find_index (touched bd ob) ?bs") (auto simp: reference_exit_def Let_def split: if_splits)
  have b: "build_result ?p out t z n k = Inr r" and out: "br_outcome r = out"
    using f finish_exit_valid [OF v(1), of "(out, t, z, n, k)"] by (auto simp: ref)
  obtain r0 where flat: "build_result ?p BT_EXPIRED t (Fl e) n False = Inr r0"
    and zero: "br_price_return_pct r0 = Fl 0" "br_leveraged_return_pct r0 = Fl 0"
    using e(1,2) by (simp add: build_result_def Let_def fsub_def to_float_def f64_max_def)
  show ?thesis
    using result_mono [OF v(1) flat] result_mono [OF v(1) _ flat] b z e(5,6) out zero by auto
qed


section \<open>Accounting\<close>

lemma fdiv_pos_total: "fless (Fl 0) y \<Longrightarrow> \<exists>q. fdiv x y = Inr q"
  by (cases x; cases y) auto

lemma finsert_length [simp]: "length (foldr finsert xs ys) = length xs + length ys"
proof -
  have "length (finsert x zs) = Suc (length zs)" for x zs by (induction zs) auto
  then show ?thesis by (induction xs) auto
qed

lemma fmedian_total: "xs \<noteq> [] \<Longrightarrow> \<exists>q. fmedian xs = Inr q"
  using fdiv_total [of 2] finsert_length [of xs "[]"] by (cases "foldr finsert xs []") (auto simp: fmedian_def Let_def)

lemma fmean_total: "xs \<noteq> [] \<Longrightarrow> succeeds (fsum xs) \<Longrightarrow> \<exists>q. fmean xs = Inr q"
  using fdiv_total [of "of_nat (length xs)"] by (auto simp: fmean_def succeeds_iff)

lemma fle_fmax: "fle (Fl 0) x \<Longrightarrow> fle (Fl 0) (fmax x y)"
  by (cases x; cases y) (auto simp: fmax_def)

lemma drawdown_step_total:
  "\<exists>v. drawdown_step (e, p, m) x = Inr v \<and> (fle (Fl 0) m \<longrightarrow> fle (Fl 0) (snd (snd v)))"
proof -
  let ?e = "fadd e x"
  obtain q where "fless (Fl 0) (fmax p ?e) \<longrightarrow> fdiv (fsub (fmax p ?e) ?e) (fmax p ?e) = Inr q"
    using fdiv_pos_total by blast
  then show ?thesis by (simp add: drawdown_step_def Let_def fle_fmax)
qed

lemma max_drawdown_total: "\<exists>d. max_drawdown xs = Inr d \<and> fle (Fl 0) d"
proof -
  have step: "\<exists>v. drawdown_step u x = Inr v \<and> fle (Fl 0) (snd (snd v))" if "fle (Fl 0) (snd (snd u))" for u x
    using drawdown_step_total [of "fst u" "fst (snd u)" "snd (snd u)" x] that by auto
  have "\<exists>s. foldM drawdown_step (Fl 100, Fl 100, Fl 0) xs = Inr s \<and> fle (Fl 0) (snd (snd s))"
    by (rule foldM_succeeds [where P = "\<lambda>_ s. fle (Fl 0) (snd (snd s))"]) (simp, rule step)
  then show ?thesis by (auto simp: max_drawdown_def split: prod.splits)
qed

lemma outcome_counts:
  "length rs = count_where (\<lambda>r. br_outcome r = BT_TARGET) rs + count_where (\<lambda>r. br_outcome r = BT_STOP) rs
     + count_where (\<lambda>r. br_outcome r = BT_EXPIRED) rs"
proof (induction rs)
  case (Cons r rs)
  then show ?case by (cases "br_outcome r") (simp_all add: count_where_def)
qed (simp add: count_where_def)

lemma rate_bounds:
  assumes "k \<le> n" "n \<noteq> 0"
  shows "\<exists>q. fmul (to_float (of_nat k / of_nat n)) (Fl 100) = Fl q \<and> 0 \<le> q \<and> q \<le> 100"
proof -
  let ?x = "of_nat k / of_nat n :: rat"
  have "0 \<le> ?x" "?x \<le> 1" using assms by (simp_all add: divide_le_eq_1)
  then have x: "to_float ?x = Fl (f64_round ?x)" "0 \<le> f64_round ?x" "f64_round ?x \<le> 1"
    using to_float_finite [of 1 ?x] f64.R_nonneg [of ?x] f64.R_le [of 1 ?x] by (simp_all add: f64_max_def)
  then have y: "0 \<le> f64_round ?x * 100" "f64_round ?x * 100 \<le> 100" by simp_all
  then have "to_float (f64_round ?x * 100) = Fl (f64_round (f64_round ?x * 100))"
    by (intro to_float_finite [of 100]) (simp_all add: f64_max_def)
  then show ?thesis using x y f64.R_nonneg [OF y(1)] f64.R_le [OF _ y(2)] by simp
qed

lemma conflict_resolved:
  assumes "run_backtest c = Inr r" "br_same_bar_conflict r"
  shows "br_outcome r \<noteq> BT_EXPIRED"
proof -
  from assms(1) obtain bd ob where "plan_valid (bc_plan c)"
      "finish_exit (bc_plan c) (reference_exit (bc_policy c) bd ob (bc_bars c)) = Inr r" by (auto simp: run_backtest_Inr)
  then have "(br_outcome r, br_exit_at r, br_exit_value r, br_bars_processed r, br_same_bar_conflict r)
      = reference_exit (bc_policy c) bd ob (bc_bars c)" using finish_exit_valid by (metis Inr_inject)
  then show ?thesis using assms(2)
    by (cases "find_index (touched bd ob) (bc_bars c)") (auto simp: reference_exit_def Let_def)
qed

text \<open>
  The metrics of a list of replays exist unless the exact sum of the returns overflows, and they
  add up: every case is a target, a stop or an expiry, the resolved ones are the first two, only
  resolved cases are conflicts, the target rate is a percentage and the drawdown is not negative.
\<close>

theorem metrics_account:
  assumes "list_all2 (\<lambda>c r. run_backtest c = Inr r) cs rs"
    "rs = [] \<or> succeeds (fsum (map br_leveraged_return_pct rs))"
  shows "\<exists>m. build_metrics rs = Inr m \<and> bm_total_cases m = length cs \<and>
    bm_total_cases m = bm_target_count m + bm_stop_count m + bm_expired_count m \<and>
    bm_resolved_cases m + bm_expired_count m = bm_total_cases m \<and> bm_conflict_count m \<le> bm_resolved_cases m \<and>
    (\<exists>q. bm_target_rate m = Fl q \<and> 0 \<le> q \<and> q \<le> 100) \<and> fle (Fl 0) (bm_max_drawdown_pct m)"
proof -
  let ?xs = "map br_leveraged_return_pct rs" and ?n = "\<lambda>out. count_where (\<lambda>r. br_outcome r = out) rs"
  let ?p = "py_sum (filter (\<lambda>v. fless (Fl 0) v) ?xs)" and ?l = "fabs (py_sum (filter (\<lambda>v. fless v (Fl 0)) ?xs))"
  have conflict: "br_outcome r \<noteq> BT_EXPIRED" if "r \<in> set rs" "br_same_bar_conflict r" for r
    using assms(1) that conflict_resolved by (fastforce simp: list_all2_conv_all_nth in_set_conv_nth)
  have "count_where br_same_bar_conflict rs \<le> count_where (\<lambda>r. br_outcome r \<noteq> BT_EXPIRED) rs"
    using conflict by (induction rs) (auto simp: count_where_def)
  also have "\<dots> = ?n BT_TARGET + ?n BT_STOP"
    using sum_length_filter_compl [of "\<lambda>r. br_outcome r = BT_EXPIRED" rs] outcome_counts [of rs] by (simp add: count_where_def)
  finally have le: "count_where br_same_bar_conflict rs \<le> ?n BT_TARGET + ?n BT_STOP" .
  obtain pf where pf: "(if fless (Fl 0) ?l then and_then (fdiv ?p ?l) (\<lambda>q. Inr (Some q)) else Inr None) = Inr pf"
    using fdiv_pos_total [of ?l ?p] by (cases "fless (Fl 0) ?l") auto
  obtain avg where avg: "(if ?xs \<noteq> [] then fmean ?xs else Inr (Fl 0)) = Inr avg"
    using assms(2) fmean_total [of ?xs] by (cases "rs = []") auto
  obtain mid where mid: "(if ?xs \<noteq> [] then fmedian ?xs else Inr (Fl 0)) = Inr mid"
    using fmedian_total [of ?xs] by (cases "rs = []") auto
  obtain d where d: "max_drawdown ?xs = Inr d" "fle (Fl 0) d" using max_drawdown_total by blast
  have rate: "\<exists>q. (if ?n BT_TARGET + ?n BT_STOP \<noteq> 0 then
      fmul (to_float (of_nat (?n BT_TARGET) / of_nat (?n BT_TARGET + ?n BT_STOP))) (Fl 100) else Fl 0) = Fl q \<and> 0 \<le> q \<and> q \<le> 100"
    using rate_bounds [of "?n BT_TARGET" "?n BT_TARGET + ?n BT_STOP"] by auto
  have len: "length rs = length cs" using assms(1) by (simp add: list_all2_lengthD)
  show ?thesis unfolding build_metrics_def Let_def pf avg mid d(1)
    using rate le d(2) len outcome_counts [of rs] by simp
qed


section \<open>A replay that can happen\<close>

text \<open>A short from 64 with its stop at 96 and its target at 32; the second bar touches both.\<close>

definition sample_bar :: "int \<Rightarrow> rat \<Rightarrow> rat \<Rightarrow> historical_bar" where
  "sample_bar t high low = \<lparr>hb_timestamp = DateTime t (Some 0), hb_open = Fl 64, hb_high = Fl high, hb_low = Fl low,
     hb_close = Fl 64\<rparr>"

definition sample_bars :: "historical_bar list" where
  "sample_bars = [sample_bar 0 70 60, sample_bar 1 100 30]"

definition sample_case :: "intrabar_policy \<Rightarrow> backtest_case" where
  "sample_case policy = \<lparr>bc_plan = \<lparr>pd_symbol = ''ABC'', pd_status = PLAN_READY, pd_entry = Some (Fl 64),
     pd_boundary = Some (Fl 96), pd_objective = Some (Fl 32), pd_multiplier = 2, pd_ratio = Fl 1, pd_notes = []\<rparr>,
     bc_bars = sample_bars, bc_policy = policy\<rparr>"

definition sample_exit :: "intrabar_policy \<Rightarrow> backtest_result" where
  "sample_exit policy = \<lparr>br_symbol = ''ABC'', br_outcome = (if policy = CONSERVATIVE then BT_STOP else BT_TARGET),
     br_exit_at = DateTime 1 (Some 0), br_exit_value = Fl (if policy = CONSERVATIVE then 96 else 32),
     br_bars_processed = 2, br_price_return_pct = Fl (if policy = CONSERVATIVE then - 50 else 50),
     br_leveraged_return_pct = Fl (if policy = CONSERVATIVE then - 100 else 100), br_same_bar_conflict = True\<rparr>"

lemma sample_bars_valid: "bars_valid sample_bars"
  by (simp add: bars_valid_def sample_bars_def sample_bar_def bar_valid_def aware_def instant_def)

lemma sample_plan_valid: "plan_valid (bc_plan (sample_case policy))"
  by (simp add: sample_case_def plan_valid_def strip_def is_space_def spaces_def)

lemma f64_half: "f64_round (1 / 2) = 1 / 2"
  using f64_round_exact [of 1 "- 1"] by (simp add: power_int_minus)

lemma sample_run: "run_backtest (sample_case policy) = Inr (sample_exit policy)"
  unfolding run_backtest_Inr using sample_plan_valid [of policy] sample_bars_valid
  by (cases policy) (simp_all add: sample_case_def sample_bars_def sample_bar_def reference_exit_def touched_def
      stop_touched_def target_touched_def build_result_def fsub_def to_float_def f64_max_def f64_half f64.R_minus
      sample_exit_def Let_def)

theorem backtest_first_touch_witness:
  "run_backtest (sample_case CONSERVATIVE) = Inr (sample_exit CONSERVATIVE) \<and>
   br_outcome (sample_exit CONSERVATIVE) = fst (reference_exit CONSERVATIVE (Fl 96) (Fl 32) sample_bars)"
  using backtest_first_touch [OF sample_run, of CONSERVATIVE "Fl 96" "Fl 32"] sample_run
  by (simp add: sample_case_def prod_eq_iff)

theorem backtest_no_lookahead_witness:
  "run_backtest (sample_case OPTIMISTIC\<lparr>bc_bars := sample_bars @ [sample_bar 2 90 40]\<rparr>) = Inr (sample_exit OPTIMISTIC)"
  by (rule backtest_no_lookahead [OF sample_run])
    (simp_all add: sample_exit_def sample_case_def sample_bars_def bars_valid_def sample_bar_def bar_valid_def aware_def
      instant_def)

theorem backtest_accepts_plan_witness:
  "\<exists>p. build_plan sample_flow (sample_request 2) = Inr p \<and>
     succeeds (run_backtest \<lparr>bc_plan = p, bc_bars = sample_bars, bc_policy = CONSERVATIVE\<rparr>)"
proof -
  obtain p where p: "build_plan sample_flow (sample_request 2) = Inr p" "pd_status p = PLAN_READY"
      "pd_objective p \<noteq> pd_entry p"
    using sample_plan by auto
  have "is_float (pr_entry (sample_request 2))" by (simp add: sample_request_def f64_max_def)
  then show ?thesis using backtest_accepts_plan [OF p(1,2)] p(1,3) sample_bars_valid by blast
qed

theorem conservative_is_lower_witness:
  "fle (br_leveraged_return_pct (sample_exit CONSERVATIVE)) (br_leveraged_return_pct (sample_exit OPTIMISTIC))"
  using conservative_is_lower [of "sample_case CONSERVATIVE"] sample_run by (auto simp: sample_case_def)

theorem backtest_return_sign_witness:
  "br_outcome (sample_exit CONSERVATIVE) = BT_STOP \<and> fle (br_leveraged_return_pct (sample_exit CONSERVATIVE)) (Fl 0)"
  using backtest_return_sign [OF sample_run, of CONSERVATIVE] by (simp add: sample_exit_def)

theorem metrics_account_witness:
  "\<exists>m. build_metrics [sample_exit CONSERVATIVE] = Inr m \<and> bm_total_cases m = 1 \<and>
     bm_conflict_count m \<le> bm_resolved_cases m"
  using metrics_account [of "[sample_case CONSERVATIVE]" "[sample_exit CONSERVATIVE]"] sample_run
  by (auto simp: fsum_def fsum_step_def sample_exit_def)

end
