(* ===== verification/Text_Formats.thy ===== *)
theory Text_Formats
  imports PyDecimal PyTime
begin

text \<open>
  Reading back what the program prints: \<open>Decimal(text)\<close> and \<open>datetime.fromisoformat\<close>, in the steps of
  the standard library. Both printers are in \<open>PyDecimal\<close> and \<open>PyTime\<close>. The theorems are the two round
  trips, \<open>parse_dec_str\<close> and \<open>fromisoformat_isoformat\<close>.
\<close>

section \<open>Digits\<close>

definition digits :: string where
  "digits = ''0123456789''"

definition digit_value :: "char \<Rightarrow> int option" where
  "digit_value c = map_of (zip digits [0, 1, 2, 3, 4, 5, 6, 7, 8, 9]) c"

fun read_digits :: "int \<Rightarrow> string \<Rightarrow> int option" where
  "read_digits acc [] = Some acc"
| "read_digits acc (c # cs) = (case digit_value c of None \<Rightarrow> None | Some d \<Rightarrow> read_digits (10 * acc + d) cs)"

definition parse_digits :: "string \<Rightarrow> int option" where
  "parse_digits s = (if s = '''' then None else read_digits 0 s)"

lemma last_digit: "(n :: int) mod 10 \<in> {0, 1, 2, 3, 4, 5, 6, 7, 8, 9}"
proof -
  have "n mod 10 = 0 \<or> n mod 10 = 1 \<or> n mod 10 = 2 \<or> n mod 10 = 3 \<or> n mod 10 = 4 \<or> n mod 10 = 5 \<or> n mod 10 = 6 \<or>
      n mod 10 = 7 \<or> n mod 10 = 8 \<or> n mod 10 = 9" by presburger
  then show ?thesis by simp
qed

lemma digit_value_digit_char [simp]: "digit_value (digit_char n) = Some (n mod 10)"
proof -
  show ?thesis using last_digit [of n] by (elim insertE emptyE; simp add: digit_value_def digit_char_def digits_def)
qed

lemma digit_char_digit: "digit_char n \<in> set digits"
proof -
  show ?thesis using last_digit [of n] by (elim insertE emptyE; simp add: digit_char_def digits_def)
qed

lemma read_digits_append:
  "read_digits acc (xs @ ys) = (case read_digits acc xs of None \<Rightarrow> None | Some n \<Rightarrow> read_digits n ys)"
  by (induction xs arbitrary: acc) (auto split: option.split)

lemma read_digits_str_pos: "0 \<le> n \<Longrightarrow> read_digits acc (str_pos n) = Some (acc * 10 ^ length (str_pos n) + n)"
proof (induction n arbitrary: acc rule: str_pos.induct)
  case (1 n)
  show ?case
  proof (cases "n < 10")
    case True
    then show ?thesis using 1(2) by (subst (1 2) str_pos.simps) simp
  next
    case False
    then have ih: "read_digits acc (str_pos (n div 10)) = Some (acc * 10 ^ length (str_pos (n div 10)) + n div 10)"
      using 1 by simp
    have s: "str_pos n = str_pos (n div 10) @ [digit_char n]" using False by (subst str_pos.simps) simp
    show ?thesis unfolding s by (simp add: read_digits_append ih algebra_simps)
  qed
qed

lemma parse_str_pos: "0 \<le> n \<Longrightarrow> parse_digits (str_pos n) = Some n"
  using read_digits_str_pos [of n 0] by (simp add: parse_digits_def)

lemma str_pos_digits: "set (str_pos n) \<subseteq> set digits"
proof (induction n rule: str_pos.induct)
  case (1 n)
  show ?case using 1 digit_char_digit by (subst str_pos.simps) auto
qed

lemma read_digits_zeros: "read_digits 0 (replicate k CHR ''0'' @ s) = read_digits 0 s"
  by (induction k) (simp_all add: digit_value_def digits_def)

lemma length_str_pos: "0 \<le> n \<Longrightarrow> n < 10 ^ k \<Longrightarrow> 0 < k \<Longrightarrow> length (str_pos n) \<le> k"
proof (induction n arbitrary: k rule: str_pos.induct)
  case (1 n)
  show ?case
  proof (cases "n < 10")
    case True
    then show ?thesis using 1(4) by (subst str_pos.simps) simp
  next
    case False
    then obtain j where k: "k = Suc j" "0 < j" using 1(3) by (cases k; cases "k - 1") auto
    have "length (str_pos (n div 10)) \<le> j" using 1(1) [OF False _ _ k(2)] 1(2,3) k by simp
    then show ?thesis using False k by (subst str_pos.simps) simp
  qed
qed

text \<open>A number printed with leading zeros to a width that holds it.\<close>

lemma pad0_number:
  assumes "0 \<le> n" "n < 10 ^ w" "0 < w"
  shows "length (pad0 w (str_int n)) = w" "parse_digits (pad0 w (str_int n)) = Some n"
    "set (pad0 w (str_int n)) \<subseteq> set digits"
proof -
  have s: "str_int n = str_pos n" using assms(1) by (simp add: str_int_def)
  have "length (str_pos n) \<le> w" using length_str_pos assms by simp
  then show "length (pad0 w (str_int n)) = w" by (simp add: pad0_def s)
  show "parse_digits (pad0 w (str_int n)) = Some n"
    using parse_str_pos [OF assms(1)] by (simp add: pad0_def s parse_digits_def read_digits_zeros)
  show "set (pad0 w (str_int n)) \<subseteq> set digits"
    using str_pos_digits [of n] by (auto simp: pad0_def s digits_def)
qed

section \<open>Decimals\<close>

definition parse_signed :: "string \<Rightarrow> int option" where
  "parse_signed s =
     (case s of
        c # cs \<Rightarrow> if c = CHR ''-'' then map_option uminus (parse_digits cs)
                 else if c = CHR ''+'' then parse_digits cs else parse_digits s
      | [] \<Rightarrow> None)"

text \<open>
  \<open>Decimal(text)\<close>: surrounding white space and underscores are ignored; a sign, digits with at most
  one point, an exponent; or an infinity or a NaN in any case.
\<close>

definition parse_number :: "bool \<Rightarrow> string \<Rightarrow> raw_decimal result" where
  "parse_number neg r =
     (let mantissa = takeWhile (\<lambda>c. c \<noteq> CHR ''e'' \<and> c \<noteq> CHR ''E'') r;
          power = dropWhile (\<lambda>c. c \<noteq> CHR ''e'' \<and> c \<noteq> CHR ''E'') r;
          whole = takeWhile (\<lambda>c. c \<noteq> CHR ''.'') mantissa;
          fraction = drop 1 (dropWhile (\<lambda>c. c \<noteq> CHR ''.'') mantissa) in
      case (parse_digits (whole @ fraction), if power = '''' then Some 0 else parse_signed (tl power)) of
        (Some n, Some e) \<Rightarrow> Inr (Finite (dec (if neg then - n else n) (e - int (length fraction))))
      | _ \<Rightarrow> Inl InvalidOperation)"

definition read_decimal :: "string \<Rightarrow> raw_decimal result" where
  "read_decimal text_value =
     (let s = filter (\<lambda>c. c \<noteq> CHR ''_'') (strip text_value);
          (neg, r) = (case s of c # cs \<Rightarrow> if c = CHR ''-'' then (True, cs) else if c = CHR ''+'' then (False, cs) else (False, s)
                      | [] \<Rightarrow> (False, s));
          l = lower r in
      if l = ''inf'' \<or> l = ''infinity'' then Inr (Infinite neg)
      else if take 3 l = ''nan'' \<and> set (drop 3 l) \<subseteq> set digits then Inr NotANumber
      else if take 4 l = ''snan'' \<and> set (drop 4 l) \<subseteq> set digits then Inr NotANumber
      else parse_number neg r)"

text \<open>A finite Decimal has an integer coefficient at its exponent.\<close>

definition decimal_wf :: "decimal \<Rightarrow> bool" where
  "decimal_wf d \<longleftrightarrow> (\<exists>c. d = dec c (dexp d))"


lemma no_digits [simp]:
  "CHR ''e'' \<notin> set digits" "CHR ''E'' \<notin> set digits" "CHR ''.'' \<notin> set digits" "CHR ''-'' \<notin> set digits"
  "CHR ''+'' \<notin> set digits" "CHR ''_'' \<notin> set digits" "CHR ''i'' \<notin> set digits" "CHR ''n'' \<notin> set digits"
  "CHR ''s'' \<notin> set digits" "CHR '':'' \<notin> set digits" "CHR ''T'' \<notin> set digits"
  by (simp_all add: digits_def)

lemma digits_plain: "list_all (\<lambda>c. \<not> is_space c \<and> lower_char c = c) digits"
  by code_simp

lemma digit_plain: "c \<in> set digits \<Longrightarrow> \<not> is_space c" "c \<in> set digits \<Longrightarrow> lower_char c = c"
  using digits_plain by (auto simp: list_all_iff)

lemma strip_no_space: "\<forall>c \<in> set s. \<not> is_space c \<Longrightarrow> strip s = s"
proof -
  assume no: "\<forall>c \<in> set s. \<not> is_space c"
  have "dropWhile is_space s = s" using no by (cases s) auto
  moreover have "dropWhile is_space (rev s) = rev s" using no by (cases "rev s") (auto simp: rev_eq_Cons_iff)
  ultimately show ?thesis by (simp add: strip_def)
qed

lemma parse_number_form:
  assumes "set whole \<subseteq> set digits" "set fraction \<subseteq> set digits" "parse_digits (whole @ fraction) = Some n"
    "body = (if fraction = '''' then whole else whole @ CHR ''.'' # fraction)"
    "pw = '''' \<and> e = 0 \<or> (\<exists>x t. pw = x # t \<and> x \<in> {CHR ''E'', CHR ''e''} \<and> parse_signed t = Some e)"
  shows "parse_number neg (body @ pw) = Inr (Finite (dec (if neg then - n else n) (e - int (length fraction))))"
proof -
  let ?p = "\<lambda>c. c \<noteq> CHR ''e'' \<and> c \<noteq> CHR ''E''" and ?q = "\<lambda>c. c \<noteq> CHR ''.''"
  have plain: "\<And>c. c \<in> set body \<Longrightarrow> ?p c"
    using assms(1,2,4) no_digits(1,2) by (auto split: if_splits dest: subsetD)
  have pw: "takeWhile ?p pw = ''''" "dropWhile ?p pw = pw" using assms(5) by auto
  have body: "takeWhile ?p (body @ pw) = body" "dropWhile ?p (body @ pw) = pw"
    using takeWhile_append2 [of body ?p pw] dropWhile_append2 [of body ?p pw] plain pw by simp_all
  have point: "\<And>c. c \<in> set whole \<Longrightarrow> ?q c" using assms(1) no_digits(3) by blast
  have "takeWhile ?q whole = whole" "dropWhile ?q whole = ''''" using point by (auto simp: takeWhile_eq_all_conv)
  then have parts: "takeWhile ?q body = whole" "drop 1 (dropWhile ?q body) = fraction"
    unfolding assms(4) using takeWhile_append2 [of whole ?q "CHR ''.'' # fraction"]
      dropWhile_append2 [of whole ?q "CHR ''.'' # fraction"] point by (simp_all del: dropWhile_eq_Nil_conv)
  have "(if pw = '''' then Some 0 else parse_signed (tl pw)) = Some e" using assms(5) by auto
  then show ?thesis unfolding parse_number_def Let_def body parts assms(3) by simp
qed

text \<open>Text of a sign, whole digits, a fraction and a power of ten is read as that number.\<close>

lemma read_decimal_form:
  assumes w: "set whole \<subseteq> set digits" "whole \<noteq> ''''" "set fraction \<subseteq> set digits" "parse_digits (whole @ fraction) = Some n"
    and pw: "pw = '''' \<and> e = 0 \<or> (\<exists>x t. pw = x # t \<and> x \<in> {CHR ''E'', CHR ''e''} \<and> parse_signed t = Some e \<and>
       (\<forall>ch \<in> set t. ch \<in> set digits \<or> ch = CHR ''-'' \<or> ch = CHR ''+''))"
  shows "read_decimal ((if neg then ''-'' else '''') @ (if fraction = '''' then whole else whole @ CHR ''.'' # fraction) @ pw) =
      Inr (Finite (dec (if neg then - n else n) (e - int (length fraction))))"
proof -
  let ?body = "if fraction = '''' then whole else whole @ CHR ''.'' # fraction"
  let ?r = "?body @ pw" and ?s = "(if neg then ''-'' else '''') @ (if fraction = '''' then whole else whole @ CHR ''.'' # fraction) @ pw"
  let ?marks = "{CHR ''-'', CHR ''+'', CHR ''.'', CHR ''E'', CHR ''e''}"
  have chars: "ch \<in> set digits \<or> ch \<in> ?marks" if "ch \<in> set ?s" for ch
    using that w pw by (auto split: if_splits dest: subsetD)
  have other: "\<not> is_space ch \<and> ch \<noteq> CHR ''_''" if "ch \<in> ?marks" for ch
    using that by (auto simp: is_space_def spaces_def)
  have "\<not> is_space ch \<and> ch \<noteq> CHR ''_''" if "ch \<in> set ?s" for ch
    using chars [OF that] other digit_plain(1) no_digits(6) by blast
  then have "strip ?s = ?s" "filter (\<lambda>c. c \<noteq> CHR ''_'') ?s = ?s"
    by - (rule strip_no_space, blast, rule filter_True, blast)
  then have s: "filter (\<lambda>c. c \<noteq> CHR ''_'') (strip ?s) = ?s" by (simp only:)
  have "\<exists>x xs. ?r = x # xs \<and> x \<in> set digits" using w(1,2) by (cases whole; cases "fraction = ''''") auto
  then obtain x xs where x: "?r = x # xs" "x \<in> set digits" by blast
  have l: "lower ?r = x # lower xs" unfolding x(1) using digit_plain(2) [OF x(2)] by (simp add: lower_def)
  have x': "x \<noteq> CHR ''i''" "x \<noteq> CHR ''n''" "x \<noteq> CHR ''s''" "x \<noteq> CHR ''-''" "x \<noteq> CHR ''+''" using x(2) no_digits by auto
  have num: "parse_number neg ?r = Inr (Finite (dec (if neg then - n else n) (e - int (length fraction))))"
    by (rule parse_number_form [OF w(1,3,4) refl]) (use pw in blast)
  have "?s = (if neg then CHR ''-'' # ?r else ?r)" by simp
  then show ?thesis unfolding read_decimal_def Let_def s using x(1) x' l num by (cases neg) simp_all
qed

lemma parse_signed_power: "parse_signed ((if x < 0 then '''' else ''+'') @ str_int x) = Some x"
  using parse_str_pos [of x] parse_str_pos [of "- x"] by (simp add: parse_signed_def str_int_def)

text \<open>The printed form: a sign, whole digits, a fraction and a pw of ten.\<close>

lemma dec_str_form:
  "\<exists>whole fraction pw e'. dec_str (dec c e) =
      (if c < 0 then ''-'' else '''') @ (if fraction = '''' then whole else whole @ CHR ''.'' # fraction) @ pw \<and>
    set whole \<subseteq> set digits \<and> whole \<noteq> '''' \<and> set fraction \<subseteq> set digits \<and> parse_digits (whole @ fraction) = Some \<bar>c\<bar> \<and>
    (pw = '''' \<and> e' = 0 \<or> (\<exists>t. pw = CHR ''E'' # t \<and> parse_signed t = Some e' \<and>
       (\<forall>ch \<in> set t. ch \<in> set digits \<or> ch = CHR ''-'' \<or> ch = CHR ''+''))) \<and>
    e' - int (length fraction) = e"
proof -
  let ?ds = "str_pos \<bar>c\<bar>"
  have ds: "dec_digits (dec c e) = ?ds"
  proof -
    have "\<bar>of_int c * 10 powi e\<bar> / 10 powi e = (of_int \<bar>c\<bar> :: rat)" by (simp add: abs_mult)
    then have "\<lfloor>\<bar>dval (dec c e)\<bar> / 10 powi dexp (dec c e)\<rfloor> = \<bar>c\<bar>" unfolding dval_dec dexp_dec by (simp only: floor_of_int)
    then show ?thesis by (simp only: dec_digits_def)
  qed
  have "\<not> (10 :: rat) powi e < 0" by (simp add: not_less)
  then have neg: "dval (dec c e) < 0 \<longleftrightarrow> c < 0" by (simp add: mult_less_0_iff)
  have digs: "set ?ds \<subseteq> set digits" by (rule str_pos_digits)
  have val: "parse_digits ?ds = Some \<bar>c\<bar>" by (simp add: parse_str_pos)
  have len: "0 < length ?ds" by simp
  define n where "n = int (length ?ds)"
  define x where "x = e + n - 1"
  have zero: "CHR ''0'' \<in> set digits" by (simp add: digits_def)
  let ?pow = "CHR ''E'' # (if x < 0 then '''' else ''+'') @ str_int x"
  have pow: "\<exists>t. ?pow = CHR ''E'' # t \<and> parse_signed t = Some x \<and>
      (\<forall>ch \<in> set t. ch \<in> set digits \<or> ch = CHR ''-'' \<or> ch = CHR ''+'')"
    using parse_signed_power [of x] str_pos_digits [of x] str_pos_digits [of "- x"] by (auto simp: str_int_def)
  consider (small) "e \<le> 0" "-6 < e + n" "e + n \<le> 0" | (whole) "e = 0" | (point) "e < 0" "0 < e + n"
    | (pw) "\<not> (e \<le> 0 \<and> -6 < e + n)" by linarith
  then show ?thesis
  proof cases
    case small
    let ?f = "replicate (nat (- (e + n))) CHR ''0'' @ ?ds"
    have "dec_str (dec c e) = (if c < 0 then ''-'' else '''') @ ''0'' @ CHR ''.'' # ?f"
      using small neg by (simp add: dec_str_def ds n_def Let_def)
    moreover have "parse_digits (''0'' @ ?f) = Some \<bar>c\<bar>"
      using val read_digits_zeros [of "Suc (nat (- (e + n)))" ?ds] by (simp add: parse_digits_def)
    moreover have "0 - int (length ?f) = e" using small by (simp add: n_def)
    ultimately show ?thesis using digs zero
      by (intro exI [of _ "''0''"] exI [of _ ?f] exI [of _ "''''"] exI [of _ 0]) auto
  next
    case whole
    have "dec_str (dec c e) = (if c < 0 then ''-'' else '''') @ ?ds"
      using ds whole neg len by (simp add: dec_str_def n_def Let_def)
    then show ?thesis using whole digs val
      by (intro exI [of _ ?ds] exI [of _ "''''"] exI [of _ "''''"] exI [of _ 0]) auto
  next
    case point
    let ?k = "nat (e + n)"
    have "dec_str (dec c e) = (if c < 0 then ''-'' else '''') @ take ?k ?ds @ CHR ''.'' # drop ?k ?ds"
      using point neg by (simp add: dec_str_def ds n_def Let_def)
    moreover have k: "0 < ?k" "?k < length ?ds" "int (length (drop ?k ?ds)) = - e" using point by (auto simp: n_def)
    ultimately show ?thesis using digs val set_take_subset [of ?k ?ds] set_drop_subset [of ?k ?ds]
      by (intro exI [of _ "take ?k ?ds"] exI [of _ "drop ?k ?ds"] exI [of _ "''''"] exI [of _ 0]) auto
  next
    case pw
    have one: "length (str_pos m) \<le> Suc 0 \<longleftrightarrow> length (str_pos m) = Suc 0" for m
      using str_pos_not_Nil [of m] by (cases "str_pos m") auto
    have "1 \<le> n" using len unfolding n_def by linarith
    then have left: "e + n \<noteq> 1" using pw by linarith
    then have "dec_str (dec c e) = (if c < 0 then ''-'' else '''') @
        (if drop 1 ?ds = '''' then take 1 ?ds else take 1 ?ds @ CHR ''.'' # drop 1 ?ds) @ ?pow"
      using pw neg one by (auto simp: dec_str_def ds n_def x_def Let_def)
    moreover have "x - int (length (drop 1 ?ds)) = e" using len unfolding x_def n_def length_drop by linarith
    moreover have "take 1 ?ds \<noteq> ''''" using len by (cases ?ds) auto
    moreover have "set (take 1 ?ds) \<subseteq> set digits" "set (drop 1 ?ds) \<subseteq> set digits"
      using digs set_take_subset [of 1 ?ds] set_drop_subset [of 1 ?ds] by blast+
    moreover have "parse_digits (take 1 ?ds @ drop 1 ?ds) = Some \<bar>c\<bar>" using val by (simp only: append_take_drop_id)
    ultimately show ?thesis using pow
      by (intro exI [of _ "take 1 ?ds"] exI [of _ "drop 1 ?ds"] exI [of _ ?pow] exI [of _ x]) (intro conjI disjI2; assumption)
  qed
qed

text \<open>
  The decimal round trip: what \<open>str\<close> prints of a Decimal, \<open>Decimal\<close> reads back with the same value
  and the same exponent.
\<close>

lemma parse_dec_str:
  assumes "decimal_wf d"
  shows "read_decimal (dec_str d) = Inr (Finite d)"
proof -
  obtain c where d: "d = dec c (dexp d)" using assms by (auto simp: decimal_wf_def)
  obtain whole fraction pw e where
    str: "dec_str d = (if c < 0 then ''-'' else '''') @ (if fraction = '''' then whole else whole @ CHR ''.'' # fraction) @ pw"
    and w: "set whole \<subseteq> set digits" "whole \<noteq> ''''" "set fraction \<subseteq> set digits" "parse_digits (whole @ fraction) = Some \<bar>c\<bar>"
    and pw: "pw = '''' \<and> e = 0 \<or> (\<exists>t. pw = CHR ''E'' # t \<and> parse_signed t = Some e \<and>
       (\<forall>ch \<in> set t. ch \<in> set digits \<or> ch = CHR ''-'' \<or> ch = CHR ''+''))"
    and e: "e - int (length fraction) = dexp d"
    using dec_str_form [of c "dexp d"] unfolding d [symmetric] by blast
  have "read_decimal (dec_str d) = Inr (Finite (dec (if c < 0 then - \<bar>c\<bar> else \<bar>c\<bar>) (e - int (length fraction))))"
    unfolding str by (rule read_decimal_form [OF w]) (use pw in blast)
  then show ?thesis by (subst (2) d) (simp add: e split: if_splits)
qed

section \<open>Dates\<close>

text \<open>\<open>datetime._ymd2ord\<close>, with day 0 for 0001-01-01.\<close>

definition is_leap :: "int \<Rightarrow> bool" where
  "is_leap y \<longleftrightarrow> y mod 4 = 0 \<and> (y mod 100 \<noteq> 0 \<or> y mod 400 = 0)"

definition days_before_year :: "int \<Rightarrow> int" where
  "days_before_year y = (let p = y - 1 in p * 365 + p div 4 - p div 100 + p div 400)"

definition day_of_year :: "bool \<Rightarrow> int \<Rightarrow> int \<Rightarrow> int" where
  "day_of_year leap m d = days_before_month (nat m) + (if 2 < m \<and> leap then 1 else 0) + d - 1"

definition ymd2ord :: "int \<Rightarrow> int \<Rightarrow> int \<Rightarrow> int" where
  "ymd2ord y m d = days_before_year y + day_of_year (is_leap y) m d"

definition valid_date :: "int \<Rightarrow> int \<Rightarrow> int \<Rightarrow> bool" where
  "valid_date y m d \<longleftrightarrow> 1 \<le> y \<and> y \<le> 9999 \<and> 1 \<le> m \<and> m \<le> 12 \<and> 1 \<le> d \<and> d \<le> days_in_month (is_leap y) (nat m)"

definition month_day :: "bool \<Rightarrow> int \<Rightarrow> int \<times> int" where
  "month_day leap n =
     (let m = nat ((n + 50) div 32);
          preceding = days_before_month m + (if 2 < m \<and> leap then 1 else 0)
      in if n < preceding then (int m - 1, n - (preceding - days_in_month leap (m - 1)) + 1)
         else (int m, n - preceding + 1))"

definition month_day_ok :: "bool \<Rightarrow> int \<Rightarrow> bool" where
  "month_day_ok leap n =
     (case month_day leap n of (m, d) \<Rightarrow> day_of_year leap m d = n \<and> 1 \<le> m \<and> m \<le> 12 \<and> 1 \<le> d \<and> d \<le> days_in_month leap (nat m))"

lemma month_day_ok_all:
  assumes "0 \<le> n" "n < 365"
  shows "month_day_ok leap n"
proof -
  define k where "k = (n + 50) div 32"
  have k: "32 * k \<le> n + 50" "n + 50 < 32 * k + 32" unfolding k_def by (simp_all add: algebra_simps)
  have "k = 1 \<or> k = 2 \<or> k = 3 \<or> k = 4 \<or> k = 5 \<or> k = 6 \<or> k = 7 \<or> k = 8 \<or> k = 9 \<or> k = 10 \<or> k = 11 \<or> k = 12"
  proof -
    have "1 \<le> k" "k \<le> 12" using k assms by linarith+
    then show ?thesis by presburger
  qed
  then show ?thesis
    by (elim disjE; cases leap; use k assms in \<open>auto simp: month_day_ok_def month_day_def k_def [symmetric] day_of_year_def
      days_before_month_def days_in_month_def Let_def\<close>)
qed

lemma month_day_correct:
  assumes "month_day leap n = (m, d)" "0 \<le> n" "n < 365"
  shows "day_of_year leap m d = n" "1 \<le> m" "m \<le> 12" "1 \<le> d" "d \<le> days_in_month leap (nat m)"
  using month_day_ok_all [OF assms(2,3), of leap] assms(1) by (auto simp: month_day_ok_def)

text \<open>The years before a year of the 400-year cycle.\<close>

lemma year_cycle:
  fixes a b c d :: int
  assumes "0 \<le> b" "b \<le> 3" "0 \<le> c" "c \<le> 24" "0 \<le> d" "d \<le> 3"
  shows "days_before_year (400 * a + 1 + 100 * b + 4 * c + d) = 146097 * a + 36524 * b + 1461 * c + 365 * d"
    "is_leap (400 * a + 1 + 100 * b + 4 * c + d) \<longleftrightarrow> d = 3 \<and> (c \<noteq> 24 \<or> b = 3)"
proof -
  let ?p = "400 * a + 100 * b + 4 * c + d"
  have "?p div 4 = 100 * a + 25 * b + c" by (rule int_div_pos_eq [of _ _ _ d]) (use assms in auto)
  moreover have "?p div 100 = 4 * a + b" by (rule int_div_pos_eq [of _ _ _ "4 * c + d"]) (use assms in auto)
  moreover have "?p div 400 = a" by (rule int_div_pos_eq [of _ _ _ "100 * b + 4 * c + d"]) (use assms in auto)
  moreover have "400 * a + 1 + 100 * b + 4 * c + d - 1 = ?p" by simp
  ultimately show "days_before_year (400 * a + 1 + 100 * b + 4 * c + d) = 146097 * a + 36524 * b + 1461 * c + 365 * d"
    by (simp only: days_before_year_def Let_def) simp
  have "(?p + 1) mod 4 = (if d = 3 then 0 else d + 1)"
    by (rule int_mod_pos_eq [of _ _ "100 * a + 25 * b + c + (if d = 3 then 1 else 0)"]) (use assms in auto)
  moreover have "(?p + 1) mod 100 = (if c = 24 \<and> d = 3 then 0 else 4 * c + d + 1)"
    by (rule int_mod_pos_eq [of _ _ "4 * a + b + (if c = 24 \<and> d = 3 then 1 else 0)"]) (use assms in auto)
  moreover have "(?p + 1) mod 400 = (if b = 3 \<and> c = 24 \<and> d = 3 then 0 else 100 * b + 4 * c + d + 1)"
    by (rule int_mod_pos_eq [of _ _ "a + (if b = 3 \<and> c = 24 \<and> d = 3 then 1 else 0)"]) (use assms in auto)
  ultimately have "is_leap (?p + 1) \<longleftrightarrow> d = 3 \<and> (c \<noteq> 24 \<or> b = 3)"
    using assms by (auto simp: is_leap_def split: if_splits)
  then show "is_leap (400 * a + 1 + 100 * b + 4 * c + d) \<longleftrightarrow> d = 3 \<and> (c \<noteq> 24 \<or> b = 3)" by (simp add: algebra_simps)
qed

lemma ord2ymd_correct:
  assumes "0 \<le> day" "day < 3652059" "ord2ymd day = (y, m, d)"
  shows "ymd2ord y m d = day" "valid_date y m d"
proof -
  define a d1 where "a = day div 146097" and "d1 = day mod 146097"
  define b d2 where "b = d1 div 36524" and "d2 = d1 mod 36524"
  define c d3 where "c = d2 div 1461" and "d3 = d2 mod 1461"
  define e n where "e = d3 div 365" and "n = d3 mod 365"
  have split: "day = 146097 * a + d1" "d1 = 36524 * b + d2" "d2 = 1461 * c + d3" "d3 = 365 * e + n"
    unfolding a_def d1_def b_def d2_def c_def d3_def e_def n_def by simp_all
  have r1: "0 \<le> d1" "d1 < 146097" "0 \<le> d2" "d2 < 36524" "0 \<le> d3" "d3 < 1461" "0 \<le> n" "n < 365"
    unfolding d1_def d2_def d3_def n_def by simp_all
  have r2: "0 \<le> a" "a \<le> 24" "0 \<le> b" "b \<le> 4" "0 \<le> c" "c \<le> 24" "0 \<le> e" "e \<le> 4" using split r1 assms(1,2) by linarith+
  define year where "year = a * 400 + 1 + b * 100 + c * 4 + e"
  have ord: "ord2ymd day = (if e = 4 \<or> b = 4 then (year - 1, 12, 31)
      else case month_day (e = 3 \<and> (c \<noteq> 24 \<or> b = 3)) n of (m, d) \<Rightarrow> (year, m, d))"
    unfolding ord2ymd_def month_day_def Let_def a_def [symmetric] d1_def [symmetric] b_def [symmetric] d2_def [symmetric]
      c_def [symmetric] d3_def [symmetric] e_def [symmetric] n_def [symmetric] year_def [symmetric] by auto
  have "ymd2ord y m d = day \<and> valid_date y m d"
  proof (cases "e = 4 \<or> b = 4")
    case False
    then have be: "b \<le> 3" "e \<le> 3" using r2 by linarith+
    note cycle = year_cycle [OF r2(3) be(1) r2(5,6,7) be(2), of a]
    have y: "400 * a + 1 + 100 * b + 4 * c + e = year" by (simp add: year_def)
    obtain m' d' where md: "month_day (is_leap year) n = (m', d')" by fastforce
    have ymd: "y = year" "m = m'" "d = d'" using assms(3) ord md False cycle(2) unfolding y by auto
    have "year \<le> 9999"
    proof (rule ccontr)
      assume "\<not> year \<le> 9999"
      then have big: "10000 \<le> a * 400 + 1 + b * 100 + c * 4 + e" by (simp add: year_def)
      then have "a = 24" using r2 be by linarith
      moreover from this have "b = 3" using big r2 be by linarith
      moreover from calculation have "c = 24" using big r2 be by linarith
      moreover from calculation have "e = 3" using big r2 be by linarith
      ultimately show False using split r1 assms(2) by linarith
    qed
    moreover have "1 \<le> year" using r2 by (simp add: year_def)
    ultimately show ?thesis using month_day_correct [OF md r1(7,8)] cycle(1) split
      unfolding ymd y by (simp add: ymd2ord_def valid_date_def)
  next
    case True
    have ymd: "y = year - 1" "m = 12" "d = 31" using assms(3) ord True by auto
    consider (century) "b = 4" "c = 0" "e = 0" "n = 0" | (leap) "e = 4" "b \<le> 3" "c \<le> 23" "n = 0"
    proof (cases "b = 4")
      case True
      then have "c = 0" "e = 0" "n = 0" using split r1 r2 by linarith+
      then show ?thesis using that(1) True by blast
    next
      case False
      then have "e = 4" using \<open>e = 4 \<or> b = 4\<close> by blast
      moreover have "b \<le> 3" "c \<le> 23" "n = 0" using calculation False split r1 r2 by linarith+
      ultimately show ?thesis using that(2) by blast
    qed
    then show ?thesis
    proof cases
      case century
      have y: "400 * a + 1 + 100 * 3 + 4 * 24 + 3 = year - 1" using century by (simp add: year_def)
      have "a < 24" using split century assms(2) by linarith
      then show ?thesis using year_cycle [of 3 24 3 a] century split r2 unfolding ymd y [symmetric]
        by (simp add: ymd2ord_def valid_date_def day_of_year_def days_before_month_def days_in_month_def)
    next
      case leap
      have y: "400 * a + 1 + 100 * b + 4 * c + 3 = year - 1" using leap by (simp add: year_def)
      have "400 * a + 1 + 100 * b + 4 * c + 3 \<le> 9999" using leap r2 by linarith
      then show ?thesis using year_cycle [OF r2(3) leap(2) r2(5,6), of 3 a] leap split r2 unfolding ymd y [symmetric]
        by (simp add: ymd2ord_def valid_date_def day_of_year_def days_before_month_def days_in_month_def)
    qed
  qed
  then show "ymd2ord y m d = day" "valid_date y m d" by auto
qed


text \<open>
  \<open>datetime.fromisoformat\<close>, in the steps of \<open>Lib/_pydatetime.py\<close>: the place of the separator, the date
  (a calendar or a week date, with or without separators), the time to the microsecond, the zone.
\<close>

definition bad_isoformat :: "string \<Rightarrow> error" where
  "bad_isoformat s = ValueError (''Invalid isoformat string: '' @ s)"

definition fixed_digits :: "nat \<Rightarrow> string \<Rightarrow> int result" where
  "fixed_digits w s = (case parse_digits s of Some n \<Rightarrow> if length s = w then Inr n else Inl (bad_isoformat s)
                       | None \<Rightarrow> Inl (bad_isoformat s))"

definition isoweek1monday :: "int \<Rightarrow> int" where
  "isoweek1monday year =
     (let firstday = ymd2ord year 1 1 + 1;
          firstweekday = (firstday + 6) mod 7;
          week1monday = firstday - firstweekday
      in if 3 < firstweekday then week1monday + 7 else week1monday)"

definition isoweek_to_gregorian :: "int \<Rightarrow> int \<Rightarrow> int \<Rightarrow> (int \<times> int \<times> int) result" where
  "isoweek_to_gregorian year week day =
     (let first_weekday = (ymd2ord year 1 1 + 1) mod 7 in
      if \<not> (1 \<le> year \<and> year \<le> 9999) then Inl (ValueError ''Year is out of range'')
      else if \<not> (0 < week \<and> week < 53) \<and>
        \<not> (week = 53 \<and> (first_weekday = 4 \<or> first_weekday = 3 \<and> is_leap year))
      then Inl (ValueError ''Invalid week'')
      else if \<not> (0 < day \<and> day < 8) then Inl (ValueError ''Invalid weekday'')
      else Inr (ord2ymd (isoweek1monday year + (week - 1) * 7 + (day - 1) - 1)))"

definition find_separator :: "string \<Rightarrow> nat" where
  "find_separator s =
     (let n = length s in
      if n = 7 then 7
      else if take 1 (drop 4 s) = ''-''
      then (if take 1 (drop 5 s) = ''W''
            then (if 8 < n \<and> take 1 (drop 8 s) = ''-''
                  then (if 10 < n \<and> hd (drop 10 s) \<in> set digits then 8 else 10) else 8)
            else 10)
      else if take 1 (drop 4 s) = ''W''
      then (let idx = 7 + length (takeWhile (\<lambda>c. c \<in> set digits) (drop 7 s))
            in if idx < 9 then idx else if idx mod 2 = 0 then 7 else 8)
      else 8)"

definition iso_date :: "string \<Rightarrow> (int \<times> int \<times> int) result" where
  "iso_date s =
     and_then (fixed_digits 4 (take 4 s)) (\<lambda>year.
     let has_sep = (take 1 (drop 4 s) = ''-'');
         r = (if has_sep then drop 5 s else drop 4 s) in
     if take 1 r = ''W''
     then and_then (fixed_digits 2 (take 2 (drop 1 r))) (\<lambda>week.
          let r2 = drop 3 r in
          if r2 = '''' then isoweek_to_gregorian year week 1
          else if (take 1 r2 = ''-'') \<noteq> has_sep then Inl (bad_isoformat s)
          else and_then (fixed_digits 1 (if has_sep then drop 1 r2 else r2)) (\<lambda>day.
               isoweek_to_gregorian year week day))
     else and_then (fixed_digits 2 (take 2 r)) (\<lambda>month.
          let r2 = drop 2 r in
          if (take 1 r2 = ''-'') \<noteq> has_sep then Inl (bad_isoformat s)
          else and_then (fixed_digits 2 (if has_sep then drop 1 r2 else r2)) (\<lambda>day.
               Inr (year, month, day))))"

text \<open>Up to three components of two digits, with the separator the first two are joined by.\<close>

primrec time_fields :: "nat \<Rightarrow> bool option \<Rightarrow> string \<Rightarrow> (int list \<times> string) result" where
  "time_fields 0 sep s = and_then (fixed_digits 2 (take 2 s)) (\<lambda>v. Inr ([v], drop 2 s))"
| "time_fields (Suc k) sep s =
     and_then (fixed_digits 2 (take 2 s)) (\<lambda>v.
     let r = drop 2 s; has_sep = (case sep of Some b \<Rightarrow> b | None \<Rightarrow> take 1 r = '':'') in
     if r = '''' then Inr ([v], r)
     else if has_sep \<and> take 1 r \<noteq> '':'' then Inl (bad_isoformat s)
     else and_then (time_fields k (Some has_sep) (if has_sep then drop 1 r else r)) (\<lambda>(vs, rest).
          Inr (v # vs, rest)))"

definition iso_fraction :: "string \<Rightarrow> int result" where
  "iso_fraction r =
     (case r of
        [] \<Rightarrow> Inr 0
      | c # f \<Rightarrow> if c \<noteq> CHR ''.'' \<and> c \<noteq> CHR '','' \<or> \<not> set f \<subseteq> set digits then Inl (bad_isoformat r)
          else (case parse_digits (take 6 f) of
              None \<Rightarrow> Inl (bad_isoformat r)
            | Some n \<Rightarrow> Inr (n * 10 ^ (6 - length (take 6 f)))))"

definition clock_us :: "int list \<Rightarrow> int \<Rightarrow> int" where
  "clock_us vs f = (case vs @ [0, 0] of h # m # s # _ \<Rightarrow> ((h * 60 + m) * 60 + s) * second_us + f | _ \<Rightarrow> f)"

definition in_day :: "int list \<Rightarrow> bool" where
  "in_day vs \<longleftrightarrow> (case vs @ [0, 0] of h # m # s # _ \<Rightarrow> h < 24 \<and> m < 60 \<and> s < 60 | _ \<Rightarrow> True)"

definition iso_clock :: "string \<Rightarrow> (int list \<times> int) result" where
  "iso_clock s =
     and_then (time_fields 2 None s) (\<lambda>(vs, r). and_then (iso_fraction r) (\<lambda>f. Inr (vs, f)))"

definition iso_zone :: "string \<Rightarrow> int option result" where
  "iso_zone z =
     (if z = '''' then Inr None
      else if z = ''Z'' then Inr (Some 0)
      else if hd z = CHR ''Z'' \<or> length z \<in> {1, 2, 4} then Inl (bad_isoformat z)
      else and_then (iso_clock (tl z)) (\<lambda>(vs, f).
        let td = clock_us vs f in
        if day_us \<le> td then Inl (ValueError ''offset must be strictly between -24h and 24h'')
        else Inr (Some (if hd z = CHR ''-'' then - td else td))))"

definition zone_mark :: "string \<Rightarrow> char" where
  "zone_mark t = (if CHR ''-'' \<in> set t then CHR ''-'' else if CHR ''+'' \<in> set t then CHR ''+'' else CHR ''Z'')"

definition fromisoformat :: "string \<Rightarrow> datetime result" where
  "fromisoformat s =
     (let p = find_separator s; t = drop (Suc p) s;
          mark = zone_mark t in
      if length s < 7 then Inl (bad_isoformat s)
      else and_then (iso_date (take p s)) (\<lambda>(y, m, d).
      and_then (if t = '''' then Inr ([0, 0, 0], 0) else iso_clock (takeWhile (\<lambda>c. c \<noteq> mark) t)) (\<lambda>(vs, f).
      and_then (iso_zone (dropWhile (\<lambda>c. c \<noteq> mark) t)) (\<lambda>zone.
      if \<not> valid_date y m d then Inl (ValueError ''day is out of range for month'')
      else if \<not> in_day vs then Inl (ValueError ''hour must be in 0..23'')
      else Inr (DateTime (ymd2ord y m d * day_us + clock_us vs f) zone)))))"

text \<open>What a \<open>datetime\<close> can be: a day of the years 1 to 9999 and an offset of less than a day.\<close>

definition time_wf :: "datetime \<Rightarrow> bool" where
  "time_wf t \<longleftrightarrow> 0 \<le> local_us t \<and> local_us t < max_us \<and> (\<forall>z. utc_offset t = Some z \<longrightarrow> \<bar>z\<bar> < day_us)"

definition sample_instant :: datetime where
  "sample_instant = DateTime (63871286400000000 + 123456) (Some 0)"

lemma sample_instant_printed: "isoformat sample_instant = ''2025-01-01T00:00:00.123456+00:00''"
  by code_simp

lemma week_date_read: "fromisoformat ''2025-W01-3T00Z'' = Inr (DateTime 63871286400000000 (Some 0))"
  by code_simp

lemma two_number:
  assumes "0 \<le> n" "n < 100"
  shows "length (two n) = 2" "fixed_digits 2 (two n) = Inr n" "set (two n) \<subseteq> set digits"
  using pad0_number [of n 2] assms by (simp_all add: two_def fixed_digits_def)

definition clock_text :: "bool \<Rightarrow> int \<Rightarrow> int \<Rightarrow> int \<Rightarrow> int \<Rightarrow> string" where
  "clock_text short h m s f = two h @ '':'' @ two m @ (if short \<and> s = 0 \<and> f = 0 then '''' else '':'' @ two s) @
     (if f = 0 then '''' else ''.'' @ pad0 6 (str_int f))"

lemma iso_fraction_form:
  assumes "0 \<le> f" "f < 1000000"
  shows "iso_fraction (if f = 0 then '''' else ''.'' @ pad0 6 (str_int f)) = Inr f"
  using pad0_number [of f 6] assms by (simp add: iso_fraction_def)

lemma iso_clock_form:
  assumes "0 \<le> h" "h < 100" "0 \<le> m" "m < 100" "0 \<le> s" "s < 100" "0 \<le> f" "f < 1000000"
  shows "iso_clock (clock_text short h m s f) = Inr (if short \<and> s = 0 \<and> f = 0 then [h, m] else [h, m, s], f)"
proof -
  have fields: "time_fields 2 = time_fields (Suc (Suc 0))" by (simp only: numeral_2_eq_2)
  note two = two_number [OF assms(1,2)] two_number [OF assms(3,4)] two_number [OF assms(5,6)]
  show ?thesis
  proof (cases "short \<and> s = 0 \<and> f = 0")
    case True
    then show ?thesis by (simp add: iso_clock_def clock_text_def fields two iso_fraction_def)
  next
    case False
    then show ?thesis using iso_fraction_form [OF assms(7,8)]
      by (cases "f = 0") (auto simp: iso_clock_def clock_text_def fields two)
  qed
qed

lemma clock_us_form: "clock_us (if short \<and> s = 0 \<and> f = 0 then [h, m] else [h, m, s]) f = ((h * 60 + m) * 60 + s) * second_us + f"
  by (simp add: clock_us_def)

lemma clock_sum: "m * 60 + s = r \<Longrightarrow> h * 3600 + r = x \<Longrightarrow> (h * 60 + m) * 60 + s = (x :: int)"
  by simp

lemma clock_split:
  "((u div second_us div 3600 * 60 + u div second_us mod 3600 div 60) * 60 + u div second_us mod 60) * second_us
    + u mod second_us = u"
proof -
  let ?s = "u div second_us"
  have "?s mod 3600 mod 60 = ?s mod 60" by (rule mod_mod_cancel) simp
  then have "?s mod 3600 div 60 * 60 + ?s mod 60 = ?s mod 3600" using div_mult_mod_eq [of "?s mod 3600" 60] by (simp only:)
  then have s: "(?s div 3600 * 60 + ?s mod 3600 div 60) * 60 + ?s mod 60 = ?s" by (rule clock_sum) (rule div_mult_mod_eq)
  show ?thesis unfolding s by (rule div_mult_mod_eq)
qed

lemma clock_bounds:
  assumes "0 \<le> u" "u < day_us"
  shows "0 \<le> u div second_us div 3600" "u div second_us div 3600 < 24" "0 \<le> u div second_us mod 3600 div 60"
    "u div second_us mod 3600 div 60 < 60" "0 \<le> u div second_us mod 60" "u div second_us mod 60 < 60"
    "0 \<le> u mod second_us" "u mod second_us < 1000000"
proof -
  have "u div second_us < 86400" using assms by (simp add: second_us_def day_us_def div_less_iff_less_mult)
  then show "u div second_us div 3600 < 24" by (simp add: div_less_iff_less_mult)
  show "u div second_us mod 3600 div 60 < 60" by (simp add: div_less_iff_less_mult)
qed (use assms in \<open>simp_all add: second_us_def pos_imp_zdiv_nonneg_iff\<close>)

lemma iso_offset_form:
  "iso_offset z = (if z < 0 then CHR ''-'' else CHR ''+'') #
     clock_text True (\<bar>z\<bar> div second_us div 3600) (\<bar>z\<bar> div second_us mod 3600 div 60) (\<bar>z\<bar> div second_us mod 60) (\<bar>z\<bar> mod second_us)"
  by (simp add: iso_offset_def clock_text_def Let_def)

lemma clock_text_chars:
  assumes "0 \<le> h" "h < 100" "0 \<le> m" "m < 100" "0 \<le> s" "s < 100" "0 \<le> f" "f < 1000000"
  shows "set (clock_text short h m s f) \<subseteq> set digits \<union> {CHR '':'', CHR ''.''}" "5 \<le> length (clock_text short h m s f)"
  using two_number [OF assms(1,2)] two_number [OF assms(3,4)] two_number [OF assms(5,6)] pad0_number [of f 6] assms(7,8)
  by (auto simp: clock_text_def)

lemma iso_zone_offset:
  assumes "\<bar>z\<bar> < day_us"
  shows "iso_zone (iso_offset z) = Inr (Some z)"
proof -
  define h m s f where "h = \<bar>z\<bar> div second_us div 3600" "m = \<bar>z\<bar> div second_us mod 3600 div 60"
    "s = \<bar>z\<bar> div second_us mod 60" "f = \<bar>z\<bar> mod second_us"
  note b = clock_bounds [OF abs_ge_zero assms, folded h_m_s_f_def]
  have wide: "h < 100" "m < 100" "s < 100" using b by linarith+
  note range = b(1) wide(1) b(3) wide(2) b(5) wide(3) b(7,8)
  let ?c = "clock_text True h m s f"
  have form: "iso_offset z = (if z < 0 then CHR ''-'' else CHR ''+'') # ?c" by (simp only: iso_offset_form h_m_s_f_def)
  have td: "clock_us (if True \<and> s = 0 \<and> f = 0 then [h, m] else [h, m, s]) f = \<bar>z\<bar>"
    unfolding clock_us_form h_m_s_f_def by (rule clock_split)
  have len: "5 \<le> length ?c" by (rule clock_text_chars(2) [OF range])
  show ?thesis using assms len td iso_clock_form [OF range, of True]
    unfolding form iso_zone_def by (cases "z < 0"; cases "s = 0 \<and> f = 0") (auto simp: Let_def)
qed

text \<open>The round trip of time stamps.\<close>

lemma iso_date_form:
  assumes "0 \<le> y" "y < 10000" "0 \<le> m" "m < 100" "0 \<le> d" "d < 100"
  defines "text \<equiv> pad0 4 (str_int y) @ ''-'' @ two m @ ''-'' @ two d"
  shows "iso_date text = Inr (y, m, d)" "length text = 10" "find_separator (text @ CHR ''T'' # r) = 10"
proof -
  note y = pad0_number [of y 4, simplified, OF assms(1,2)]
  note two = two_number [OF assms(3,4)] two_number [OF assms(5,6)]
  obtain c cs where c: "two m = c # cs" "c \<in> set digits" "length cs = 1" using two(1,3) by (cases "two m") auto
  have w: "c \<noteq> CHR ''W''" using c(2) by (auto simp: digits_def)
  show len: "length text = 10" using y two by (simp add: text_def)
  show "iso_date text = Inr (y, m, d)" using y two c w by (simp add: text_def iso_date_def fixed_digits_def Let_def)
  have "drop 4 (text @ CHR ''T'' # r) = CHR ''-'' # two m @ ''-'' @ two d @ CHR ''T'' # r"
    "drop 5 (text @ CHR ''T'' # r) = two m @ ''-'' @ two d @ CHR ''T'' # r"
    using y(1) by (simp_all add: text_def)
  then show "find_separator (text @ CHR ''T'' # r) = 10" using c w len by (simp add: find_separator_def Let_def)
qed

definition plain_clock :: "string \<Rightarrow> bool" where
  "plain_clock s \<longleftrightarrow> set s \<subseteq> set digits \<union> {CHR '':'', CHR ''.''}"

lemma plain_clock_marks: "plain_clock s \<Longrightarrow> CHR ''-'' \<notin> set s" "plain_clock s \<Longrightarrow> CHR ''+'' \<notin> set s"
  "plain_clock s \<Longrightarrow> CHR ''Z'' \<notin> set s"
  by (auto simp: plain_clock_def digits_def)

lemma iso_offset_plain:
  assumes "\<bar>z\<bar> < day_us"
  shows "\<exists>r. (iso_offset z = CHR ''-'' # r \<or> iso_offset z = CHR ''+'' # r) \<and> plain_clock r"
proof -
  note b = clock_bounds [OF abs_ge_zero assms]
  have wide: "x < 60 \<Longrightarrow> x < 100" "x < 24 \<Longrightarrow> x < (100 :: int)" for x by simp_all
  show ?thesis unfolding iso_offset_form plain_clock_def
    using clock_text_chars(1) [OF b(1) wide(2) [OF b(2)] b(3) wide(1) [OF b(4)] b(5) wide(1) [OF b(6)] b(7,8), of True] by auto
qed

lemma zone_split:
  assumes "plain_clock c" "zone = '''' \<or> (\<exists>r. (zone = CHR ''-'' # r \<or> zone = CHR ''+'' # r) \<and> plain_clock r)"
  shows "takeWhile (\<lambda>x. x \<noteq> zone_mark (c @ zone)) (c @ zone) = c" "dropWhile (\<lambda>x. x \<noteq> zone_mark (c @ zone)) (c @ zone) = zone"
proof -
  note no = plain_clock_marks [OF assms(1)]
  have head: "zone = '''' \<or> (\<exists>r. zone = zone_mark (c @ zone) # r)"
    using assms(2) no plain_clock_marks by (auto simp: zone_mark_def)
  have "zone_mark (c @ zone) \<notin> set c" using no by (simp add: zone_mark_def)
  then have neq: "\<And>x. x \<in> set c \<Longrightarrow> x \<noteq> zone_mark (c @ zone)" by auto
  have "takeWhile (\<lambda>x. x \<noteq> zone_mark (c @ zone)) zone = ''''" "dropWhile (\<lambda>x. x \<noteq> zone_mark (c @ zone)) zone = zone"
    using head by (metis (mono_tags, lifting) takeWhile.simps dropWhile.simps)+
  then show "takeWhile (\<lambda>x. x \<noteq> zone_mark (c @ zone)) (c @ zone) = c" "dropWhile (\<lambda>x. x \<noteq> zone_mark (c @ zone)) (c @ zone) = zone"
    using takeWhile_append2 [of c "\<lambda>x. x \<noteq> zone_mark (c @ zone)" zone]
      dropWhile_append2 [of c "\<lambda>x. x \<noteq> zone_mark (c @ zone)" zone] neq by simp_all
qed

lemma fromisoformat_parts:
  assumes "0 \<le> y" "y < 10000" "0 \<le> m" "m < 100" "0 \<le> d" "d < 100" "valid_date y m d"
    and "plain_clock c" "c \<noteq> ''''" "iso_clock c = Inr (vs, f)" "in_day vs"
    and "zone = '''' \<or> (\<exists>r. (zone = CHR ''-'' # r \<or> zone = CHR ''+'' # r) \<and> plain_clock r)"
    and "iso_zone zone = Inr z"
  shows "fromisoformat ((pad0 4 (str_int y) @ ''-'' @ two m @ ''-'' @ two d) @ ''T'' @ c @ zone) =
    Inr (DateTime (ymd2ord y m d * day_us + clock_us vs f) z)"
proof -
  define date where "date = pad0 4 (str_int y) @ ''-'' @ two m @ ''-'' @ two d"
  note d = iso_date_form [OF assms(1-6), folded date_def]
  have s: "date @ ''T'' @ c @ zone = date @ CHR ''T'' # c @ zone" by simp
  have parts: "drop (Suc 10) (date @ CHR ''T'' # c @ zone) = c @ zone" "take 10 (date @ CHR ''T'' # c @ zone) = date"
    "\<not> length (date @ CHR ''T'' # c @ zone) < 7"
    using d(2) by simp_all
  have ne: "c @ zone \<noteq> ''''" using assms(9) by simp
  show ?thesis unfolding date_def [symmetric] s fromisoformat_def Let_def d(3) parts
      zone_split [OF assms(8,12)] d(1) assms(10,13) and_then.simps prod.case
    using ne assms(7,11) parts(3) by (simp only: if_False if_True and_then.simps prod.case assms(10,13) not_True_eq_False)
qed

lemma fromisoformat_isoformat:
  assumes "time_wf t"
  shows "fromisoformat (isoformat t) = Inr t"
proof -
  define day u where "day = local_us t div day_us" and "u = local_us t mod day_us"
  have day: "0 \<le> day" "day < 3652059"
    using assms by (auto simp: time_wf_def day_def day_us_def max_us_def pos_imp_zdiv_nonneg_iff div_less_iff_less_mult)
  have u: "0 \<le> u" "u < day_us" by (simp_all add: u_def day_us_def)
  obtain y m d where ymd: "ord2ymd day = (y, m, d)" by (cases "ord2ymd day") auto
  note date = ord2ymd_correct [OF day ymd]
  have dm: "d \<le> 31" using date(2) by (auto simp: valid_date_def days_in_month_def nth_Cons' split: if_splits)
  have range: "0 \<le> y" "y < 10000" "0 \<le> m" "m < 100" "0 \<le> d" "d < 100" using date(2) dm by (auto simp: valid_date_def)
  define h mi s f where "h = u div second_us div 3600" "mi = u div second_us mod 3600 div 60"
    "s = u div second_us mod 60" "f = u mod second_us"
  note b = clock_bounds [OF u, folded h_mi_s_f_def]
  have wide: "h < 100" "mi < 100" "s < 100" using b by linarith+
  note crange = b(1) wide(1) b(3) wide(2) b(5) wide(3) b(7,8)
  let ?c = "clock_text False h mi s f"
  let ?zone = "case utc_offset t of None \<Rightarrow> '''' | Some z \<Rightarrow> iso_offset z"
  have printed: "isoformat t = (pad0 4 (str_int y) @ ''-'' @ two m @ ''-'' @ two d) @ ''T'' @ ?c @ ?zone"
    by (simp add: isoformat_def Let_def day_def [symmetric] u_def [symmetric] ymd clock_text_def h_mi_s_f_def)
  have clock: "iso_clock ?c = Inr ([h, mi, s], f)" "in_day [h, mi, s]" "plain_clock ?c" "?c \<noteq> ''''"
    using iso_clock_form [OF crange, of False] clock_text_chars [OF crange, of False] b
    by (auto simp: in_day_def plain_clock_def)
  have us: "clock_us [h, mi, s] f = u" using clock_us_form [of False s f h mi] clock_split [of u] by (simp add: h_mi_s_f_def)
  have zone: "iso_zone ?zone = Inr (utc_offset t)"
    using assms iso_zone_offset by (cases "utc_offset t") (auto simp: time_wf_def iso_zone_def)
  have "?zone = '''' \<or> (\<exists>r. (?zone = CHR ''-'' # r \<or> ?zone = CHR ''+'' # r) \<and> plain_clock r)"
    using assms iso_offset_plain by (cases "utc_offset t") (auto simp: time_wf_def)
  then have "fromisoformat (isoformat t) = Inr (DateTime (ymd2ord y m d * day_us + clock_us [h, mi, s] f) (utc_offset t))"
    unfolding printed by (rule fromisoformat_parts [OF range date(2) clock(3,4,1,2) _ zone])
  also have "ymd2ord y m d * day_us + clock_us [h, mi, s] f = local_us t" unfolding date(1) us day_def u_def by simp
  finally show ?thesis by simp
qed

end
