(* ===== verification/Json_Values.thy ===== *)
theory Json_Values
  imports Text_Formats PyFloat
begin

text \<open>
  Decoded JSON as the program receives it from \<open>response.json()\<close> and from JSON columns, and what
  Python does with such a value: \<open>str\<close>, \<open>repr\<close>, \<open>int\<close>, \<open>Decimal(str(value))\<close>, \<open>dict.get\<close>, comparison with a
  literal, and \<open>datetime.fromtimestamp\<close> in UTC. An object is its association list, in the order of
  its keys, each key once.
\<close>

datatype json =
    JNull
  | JBool bool
  | JInt int
  | JFloat pyfloat
  | JStr string
  | JList "json list"
  | JObj "(string \<times> json) list"

type_synonym json_object = "(string \<times> json) list"

section \<open>Printing\<close>

text \<open>\<open>repr(x)\<close> of a float, from the shortest digits that read back as \<open>x\<close>.\<close>

fun float_repr :: "pyfloat \<Rightarrow> string" where
  "float_repr (Fl v) =
     (let d = decimal_of_repr v; ds = dec_digits d; m = dexp d + int (length ds) - 1 in
      (if v < 0 then ''-'' else '''') @
      (if dexp d \<le> -1 \<and> -4 \<le> magnitude 10 \<bar>dval d\<bar> \<and> magnitude 10 \<bar>dval d\<bar> < 16 \<or> v = 0
       then let k = nat (- dexp d); p = pad0 (k + 1) ds
            in take (length p - k) p @ ''.'' @ drop (length p - k) p
       else take 1 ds @ (if drop 1 ds = '''' then '''' else ''.'' @ drop 1 ds) @ ''e'' @
         (if m < 0 then ''-'' else ''+'') @ pad0 2 (str_int \<bar>m\<bar>)))"
| "float_repr (FInf s) = (if s then ''-inf'' else ''inf'')"
| "float_repr FNaN = ''nan''"

text \<open>\<open>repr\<close> of ASCII text: single quotes unless the text holds one and no double quote.\<close>

definition hex2 :: "nat \<Rightarrow> string" where
  "hex2 n = [''0123456789abcdef'' ! (n div 16 mod 16), ''0123456789abcdef'' ! (n mod 16)]"

definition escape_char :: "char \<Rightarrow> char \<Rightarrow> string" where
  "escape_char quote c =
     (if c = quote \<or> c = CHR 0x5C then [CHR 0x5C, c]
      else if c = CHR 0x09 then [CHR 0x5C, CHR ''t'']
      else if c = CHR 0x0A then [CHR 0x5C, CHR ''n'']
      else if c = CHR 0x0D then [CHR 0x5C, CHR ''r'']
      else if of_char c < (32 :: nat) \<or> of_char c = (127 :: nat) then [CHR 0x5C, CHR ''x''] @ hex2 (of_char c)
      else [c])"

definition str_repr :: "string \<Rightarrow> string" where
  "str_repr s =
     (let quote = (if CHR 0x27 \<in> set s \<and> CHR 0x22 \<notin> set s then CHR 0x22 else CHR 0x27)
      in quote # concat (map (escape_char quote) s) @ [quote])"

fun py_repr :: "json \<Rightarrow> string" where
  "py_repr JNull = ''None''"
| "py_repr (JBool b) = (if b then ''True'' else ''False'')"
| "py_repr (JInt n) = str_int n"
| "py_repr (JFloat x) = float_repr x"
| "py_repr (JStr s) = str_repr s"
| "py_repr (JList xs) = ''['' @ join '', '' (map py_repr xs) @ '']''"
| "py_repr (JObj kvs) = ''{'' @ join '', '' (map (\<lambda>(k, v). str_repr k @ '': '' @ py_repr v) kvs) @ ''}''"

fun py_str :: "json \<Rightarrow> string" where
  "py_str (JStr s) = s"
| "py_str v = py_repr v"

section \<open>Objects\<close>

definition get :: "json_object \<Rightarrow> string \<Rightarrow> json" where
  "get d k = (case map_of d k of None \<Rightarrow> JNull | Some v \<Rightarrow> v)"

definition get_default :: "json_object \<Rightarrow> string \<Rightarrow> json \<Rightarrow> json" where
  "get_default d k v = (case map_of d k of None \<Rightarrow> v | Some w \<Rightarrow> w)"

text \<open>\<open>value in (None, "")\<close>, \<open>value == n\<close> with Python's \<open>False == 0 == 0.0\<close>, and truth.\<close>

definition absent :: "json \<Rightarrow> bool" where
  "absent v \<longleftrightarrow> v = JNull \<or> v = JStr ''''"

fun equals_int :: "json \<Rightarrow> int \<Rightarrow> bool" where
  "equals_int (JInt m) n \<longleftrightarrow> m = n"
| "equals_int (JBool b) n \<longleftrightarrow> (if b then 1 else 0) = n"
| "equals_int (JFloat (Fl v)) n \<longleftrightarrow> v = of_int n"
| "equals_int v n \<longleftrightarrow> False"

fun json_truthy :: "json \<Rightarrow> bool" where
  "json_truthy JNull = False"
| "json_truthy (JBool b) = b"
| "json_truthy (JInt n) = (n \<noteq> 0)"
| "json_truthy (JFloat x) = (x \<noteq> Fl 0)"
| "json_truthy (JStr s) = (s \<noteq> '''')"
| "json_truthy (JList xs) = (xs \<noteq> [])"
| "json_truthy (JObj kvs) = (kvs \<noteq> [])"

section \<open>Numbers\<close>

text \<open>\<open>Decimal(str(value))\<close>.\<close>

definition decimal_of_json :: "json \<Rightarrow> raw_decimal result" where
  "decimal_of_json v = read_decimal (py_str v)"

text \<open>\<open>int(value)\<close>; text may carry white space, a sign and single underscores between digits.\<close>

fun split_on :: "char \<Rightarrow> string \<Rightarrow> string list" where
  "split_on c [] = [[]]"
| "split_on c (x # xs) =
     (case split_on c xs of p # ps \<Rightarrow> if x = c then [] # p # ps else (x # p) # ps | [] \<Rightarrow> [[x]])"

definition int_text :: "string \<Rightarrow> int option" where
  "int_text s =
     (let t = strip s;
          neg = (take 1 t = ''-'');
          r = (if neg \<or> take 1 t = ''+'' then drop 1 t else t);
          parts = split_on CHR ''_'' r
      in if list_all (\<lambda>p. p \<noteq> '''' \<and> list_all (\<lambda>c. c \<in> set digits) p) parts
         then map_option (\<lambda>n. if neg then - n else n) (parse_digits (concat parts)) else None)"

definition trunc_int :: "rat \<Rightarrow> int" where
  "trunc_int v = (if v < 0 then \<lceil>v\<rceil> else \<lfloor>v\<rfloor>)"

fun int_of_json :: "json \<Rightarrow> int result" where
  "int_of_json (JInt n) = Inr n"
| "int_of_json (JBool b) = Inr (if b then 1 else 0)"
| "int_of_json (JFloat (Fl v)) = Inr (trunc_int v)"
| "int_of_json (JFloat (FInf s)) = Inl (OverflowError ''cannot convert float infinity to integer'')"
| "int_of_json (JFloat FNaN) = Inl (ValueError ''cannot convert float NaN to integer'')"
| "int_of_json (JStr s) =
     (case int_text s of Some n \<Rightarrow> Inr n
      | None \<Rightarrow> Inl (ValueError (''invalid literal for int() with base 10: '' @ str_repr s)))"
| "int_of_json v = Inl (TypeError ''int() argument must be a string, a bytes-like object or a real number'')"

text \<open>\<open>a / b\<close> of integers is correctly rounded, and raises where the quotient exceeds every float.\<close>

definition int_truediv :: "int \<Rightarrow> int \<Rightarrow> pyfloat result" where
  "int_truediv a b =
     (if b = 0 then Inl (ZeroDivisionError ''division by zero'')
      else case to_float (of_int a / of_int b) of
          FInf s \<Rightarrow> Inl (OverflowError ''integer division result too large for a float'')
        | x \<Rightarrow> Inr x)"

section \<open>Time stamps\<close>

definition epoch_us :: int where
  "epoch_us = 719162 * day_us"

text \<open>
  \<open>datetime.fromtimestamp(x, tz=timezone.utc)\<close>: whole seconds and the fraction, rounded half to even
  to the microsecond. \<open>gmtime\<close> of the 64-bit C library fails beyond the years of an \<open>int\<close>.
\<close>

fun fromtimestamp :: "pyfloat \<Rightarrow> datetime result" where
  "fromtimestamp (Fl v) =
     (let whole = trunc_int v;
          fraction = fmul (Fl (v - of_int whole)) (Fl 1000000);
          total = whole * second_us + round_half_even (fval fraction)
      in if 2 ^ 63 \<le> \<bar>v\<bar> then Inl (OverflowError ''timestamp out of range for platform time_t'')
         else if 67768036191676800 * second_us \<le> \<bar>total\<bar>
           then Inl (OtherError ''OSError'' ''[Errno 75] Value too large for defined data type'')
         else if 0 \<le> epoch_us + total \<and> epoch_us + total < max_us
           then Inr (DateTime (epoch_us + total) (Some 0))
         else Inl (ValueError ''year is out of range''))"
| "fromtimestamp (FInf s) = Inl (OverflowError ''cannot convert float infinity to integer'')"
| "fromtimestamp FNaN = Inl (ValueError ''cannot convert float NaN to integer'')"

lemma fromtimestamp_laws:
  "fromtimestamp x = Inr t \<Longrightarrow> aware t" "fromtimestamp x = Inr t \<Longrightarrow> time_wf t"
  by (cases x; auto simp: Let_def aware_def time_wf_def day_us_def split: if_splits)+

text \<open>\<open>isinstance(error, ValueError)\<close>.\<close>

fun is_ValueError :: "error \<Rightarrow> bool" where
  "is_ValueError (ValueError m) = True"
| "is_ValueError (ParserError m) = True"
| "is_ValueError (OtherError c m) = (c \<in> {''JSONDecodeError'', ''UnicodeDecodeError''})"
| "is_ValueError e = False"

section \<open>Laws\<close>

lemma get_Cons [simp]: "get ((k', v) # d) k = (if k = k' then v else get d k)"
  by (simp add: get_def)

lemma get_Nil [simp]: "get [] k = JNull"
  by (simp add: get_def)

lemma get_default_Cons [simp]: "get_default ((k', v) # d) k w = (if k = k' then v else get_default d k w)"
  by (simp add: get_default_def)

lemma decimal_of_json_str: "decimal_wf d \<Longrightarrow> decimal_of_json (JStr (dec_str d)) = Inr (Finite d)"
  by (simp add: decimal_of_json_def parse_dec_str)

lemma read_digits_wf:
  "(case (a, b) of (Some n, Some e) \<Rightarrow> Inr (Finite (dec (if neg then - n else n) (e - k))) | _ \<Rightarrow> Inl InvalidOperation)
    = Inr (Finite d) \<Longrightarrow> decimal_wf d"
  by (auto simp: decimal_wf_def split: option.splits)

lemma parse_number_wf: "parse_number neg r = Inr (Finite d) \<Longrightarrow> decimal_wf d"
  unfolding parse_number_def Let_def by (rule read_digits_wf)

lemma special_number_cases:
  "(if a then Inr (Infinite n) else if b then Inr NotANumber else if c then Inr NotANumber else x) = Inr (Finite d)
    \<Longrightarrow> x = Inr (Finite d)"
  by (simp split: if_split_asm)

lemma read_decimal_wf: "read_decimal s = Inr (Finite d) \<Longrightarrow> decimal_wf d"
  unfolding read_decimal_def Let_def case_prod_beta by (drule special_number_cases) (rule parse_number_wf)

lemma decimal_of_json_wf: "decimal_of_json v = Inr (Finite d) \<Longrightarrow> decimal_wf d"
  unfolding decimal_of_json_def by (rule read_decimal_wf)

end
