(* ===== verification/Candles.thy ===== *)
theory Candles
  imports PyFloat PyTime
begin

text \<open>
  \<^verbatim>\<open>app/candles/models.py\<close> and \<^verbatim>\<open>app/candles/health.py\<close>: closed OHLCV candles, chronological batches
  of them, and the freshness of a batch. A dataclass is a record and its \<open>__post_init__\<close> the
  function of the class's name, which checks the arguments in the source's order and returns the
  normalised instance or the first exception. The record of a candle is polymorphic in its
  number type: arguments may hold non-finite Decimals, an instance never does.
\<close>

datatype candle_source = CS_BYBIT
datatype candle_role = STRUCTURE_DATA
datatype candle_interval = M5 | M15 | H4 | D1

fun source_value :: "candle_source \<Rightarrow> string" where
  "source_value CS_BYBIT = ''BYBIT''"

fun role_value :: "candle_role \<Rightarrow> string" where
  "role_value STRUCTURE_DATA = ''STRUCTURE_DATA''"

fun interval_value :: "candle_interval \<Rightarrow> string" where
  "interval_value M5 = ''5''"
| "interval_value M15 = ''15''"
| "interval_value H4 = ''240''"
| "interval_value D1 = ''D''"

fun duration :: "candle_interval \<Rightarrow> timedelta" where
  "duration M5 = 5 * minute_us"
| "duration M15 = 15 * minute_us"
| "duration H4 = 4 * 60 * minute_us"
| "duration D1 = day_us"

fun interval_label :: "candle_interval \<Rightarrow> string" where
  "interval_label M5 = ''5m''"
| "interval_label M15 = ''15m''"
| "interval_label H4 = ''4h''"
| "interval_label D1 = ''1d''"

record 'd ohlcv_candle =
  cd_source :: candle_source
  cd_role :: candle_role
  cd_category :: string
  cd_symbol :: string
  cd_interval :: candle_interval
  open_time :: datetime
  close_time :: datetime
  open_price :: 'd
  high_price :: 'd
  low_price :: 'd
  close_price :: 'd
  volume :: 'd
  turnover :: 'd

type_synonym raw_candle = "raw_decimal ohlcv_candle"
type_synonym candle = "decimal ohlcv_candle"

record candle_batch =
  cb_source :: candle_source
  cb_role :: candle_role
  cb_category :: string
  cb_symbol :: string
  cb_interval :: candle_interval
  fetched_at :: datetime
  candles :: "candle list"

definition categories :: "string list" where
  "categories = [''spot'', ''linear'', ''inverse'']"

definition candle_decimal :: "string \<Rightarrow> bool \<Rightarrow> raw_decimal \<Rightarrow> decimal result" where
  "candle_decimal name positive v =
     and_then (check_finite name v) (\<lambda>d.
       if positive \<and> dval d \<le> 0 then Inl (ValueError (name @ '' must be positive''))
       else if \<not> positive \<and> dval d < 0 then Inl (ValueError (name @ '' must be non-negative''))
       else Inr d)"

definition OhlcvCandle :: "raw_candle \<Rightarrow> candle result" where
  "OhlcvCandle c =
     (if cd_role c \<noteq> STRUCTURE_DATA
        then Inl (ValueError ''candle role must remain STRUCTURE_DATA'')
      else let category = lower (strip (cd_category c)) in
      if category \<notin> set categories then Inl (ValueError ''unsupported candle category'')
      else let symbol = upper (strip (cd_symbol c)) in
      if symbol = '''' then Inl (ValueError ''symbol is required'')
      else and_then (require_aware ''open_time'' (open_time c)) (\<lambda>opened.
      and_then (require_aware ''close_time'' (close_time c)) (\<lambda>closed.
      if instant closed - instant opened \<noteq> duration (cd_interval c)
        then Inl (ValueError ''close_time must match interval duration'')
      else
      and_then (candle_decimal ''open_price'' True (open_price c)) (\<lambda>op.
      and_then (candle_decimal ''high_price'' True (high_price c)) (\<lambda>hi.
      and_then (candle_decimal ''low_price'' True (low_price c)) (\<lambda>lo.
      and_then (candle_decimal ''close_price'' True (close_price c)) (\<lambda>cl.
      and_then (candle_decimal ''volume'' False (volume c)) (\<lambda>vol.
      and_then (candle_decimal ''turnover'' False (turnover c)) (\<lambda>turn.
      if min (dval op) (dval cl) < dval lo
        then Inl (ValueError ''low_price is inconsistent with open and close'')
      else if dval hi < max (dval op) (dval cl)
        then Inl (ValueError ''high_price is inconsistent with open and close'')
      else if dval hi < dval lo then Inl (ValueError ''candle range is inconsistent'')
      else Inr \<lparr>cd_source = cd_source c, cd_role = cd_role c, cd_category = category,
        cd_symbol = symbol, cd_interval = cd_interval c, open_time = opened, close_time = closed,
        open_price = op, high_price = hi, low_price = lo, close_price = cl, volume = vol,
        turnover = turn\<rparr>)))))))))"

text \<open>
  The loop of \<open>CandleBatch.__post_init__\<close>: \<open>seen\<close> holds the instants of the opening times so far,
  \<open>prev\<close> the last of them. Equality and hashing of aware times go by the instant.
\<close>

fun check_batch ::
  "candle_batch \<Rightarrow> string \<Rightarrow> string \<Rightarrow> datetime \<Rightarrow> int list \<Rightarrow> int option \<Rightarrow> candle list \<Rightarrow> unit result"
where
  "check_batch b category symbol fetched seen prev [] = Inr ()"
| "check_batch b category symbol fetched seen prev (c # cs) =
     (if cd_source c \<noteq> cb_source b then Inl (ValueError ''candle source mismatch'')
      else if cd_role c \<noteq> cb_role b then Inl (ValueError ''candle role mismatch'')
      else if cd_category c \<noteq> category then Inl (ValueError ''candle category mismatch'')
      else if cd_symbol c \<noteq> symbol then Inl (ValueError ''candle symbol mismatch'')
      else if cd_interval c \<noteq> cb_interval b then Inl (ValueError ''candle interval mismatch'')
      else if instant fetched < instant (close_time c)
        then Inl (ValueError ''batch must contain only closed candles'')
      else if instant (open_time c) \<in> set seen then Inl (ValueError ''duplicate candle open_time'')
      else if (case prev of None \<Rightarrow> False | Some p \<Rightarrow> instant (open_time c) \<le> p)
        then Inl (ValueError ''candles must be strictly chronological'')
      else check_batch b category symbol fetched (instant (open_time c) # seen)
        (Some (instant (open_time c))) cs)"

definition CandleBatch :: "candle_batch \<Rightarrow> candle_batch result" where
  "CandleBatch b =
     (if cb_role b \<noteq> STRUCTURE_DATA
        then Inl (ValueError ''candle batch role must remain STRUCTURE_DATA'')
      else and_then (require_aware ''fetched_at'' (fetched_at b)) (\<lambda>fetched.
      let category = lower (strip (cb_category b)); symbol = upper (strip (cb_symbol b)) in
      if category \<notin> set categories then Inl (ValueError ''unsupported candle category'')
      else if symbol = '''' then Inl (ValueError ''symbol is required'')
      else and_then (check_batch b category symbol fetched [] None (candles b)) (\<lambda>_.
        Inr (b\<lparr>cb_category := category, cb_symbol := symbol, fetched_at := fetched\<rparr>))))"

definition latest :: "candle_batch \<Rightarrow> candle option" where
  "latest b = (if candles b = [] then None else Some (last (candles b)))"

section \<open>Freshness\<close>

datatype candle_freshness_state = CF_OK | CF_EMPTY | CF_STALE | CF_FUTURE

record candle_freshness_rules =
  max_age_intervals :: pyfloat
  future_tolerance_seconds :: pyfloat

definition CandleFreshnessRules :: "candle_freshness_rules \<Rightarrow> candle_freshness_rules result" where
  "CandleFreshnessRules r =
     (if fle (max_age_intervals r) (Fl 0)
        then Inl (ValueError ''max_age_intervals must be positive'')
      else if fless (future_tolerance_seconds r) (Fl 0)
        then Inl (ValueError ''future_tolerance_seconds must be non-negative'')
      else Inr r)"

definition default_freshness_rules :: candle_freshness_rules where
  "default_freshness_rules = \<lparr>max_age_intervals = Fl 2, future_tolerance_seconds = Fl 1\<rparr>"

record candle_freshness_report =
  cf_state :: candle_freshness_state
  cf_age_seconds :: "pyfloat option"
  cf_reasons :: "string list"

definition candle_report_usable :: "candle_freshness_report \<Rightarrow> bool" where
  "candle_report_usable r \<longleftrightarrow> cf_state r = CF_OK"

definition evaluate_candle_freshness ::
  "candle_batch \<Rightarrow> datetime \<Rightarrow> candle_freshness_rules \<Rightarrow> candle_freshness_report result" where
  "evaluate_candle_freshness b now rules =
     (if \<not> aware now then Inl (ValueError ''now must be timezone-aware'')
      else case latest b of
        None \<Rightarrow> Inr \<lparr>cf_state = CF_EMPTY, cf_age_seconds = None,
                     cf_reasons = [''NO_CLOSED_CANDLES'']\<rparr>
      | Some c \<Rightarrow>
          let age = total_seconds (instant now - instant (close_time c)) in
          if fless age (fneg (future_tolerance_seconds rules))
          then Inr \<lparr>cf_state = CF_FUTURE, cf_age_seconds = Some age,
                    cf_reasons = [''LATEST_CANDLE_FROM_FUTURE'']\<rparr>
          else if fless (fmul (total_seconds (duration (cb_interval b))) (max_age_intervals rules)) age
          then Inr \<lparr>cf_state = CF_STALE, cf_age_seconds = Some age,
                    cf_reasons = [''LATEST_CANDLE_STALE'']\<rparr>
          else Inr \<lparr>cf_state = CF_OK, cf_age_seconds = Some age, cf_reasons = []\<rparr>)"

section \<open>Well-formed candles and batches\<close>

definition normal_symbol :: "string \<Rightarrow> bool" where
  "normal_symbol s \<longleftrightarrow> s \<noteq> '''' \<and> upper (strip s) = s"

definition candle_wf :: "candle \<Rightarrow> bool" where
  "candle_wf c \<longleftrightarrow>
     cd_category c \<in> set categories \<and> normal_symbol (cd_symbol c) \<and>
     aware (open_time c) \<and> aware (close_time c) \<and>
     instant (close_time c) = instant (open_time c) + duration (cd_interval c) \<and>
     0 < dval (low_price c) \<and>
     dval (low_price c) \<le> dval (open_price c) \<and> dval (low_price c) \<le> dval (close_price c) \<and>
     dval (open_price c) \<le> dval (high_price c) \<and> dval (close_price c) \<le> dval (high_price c) \<and>
     0 \<le> dval (volume c) \<and> 0 \<le> dval (turnover c)"

text \<open>The arguments that rebuild an instance.\<close>

definition candle_args :: "candle \<Rightarrow> raw_candle" where
  "candle_args c = \<lparr>cd_source = cd_source c, cd_role = cd_role c, cd_category = cd_category c,
     cd_symbol = cd_symbol c, cd_interval = cd_interval c, open_time = open_time c,
     close_time = close_time c, open_price = Finite (open_price c),
     high_price = Finite (high_price c), low_price = Finite (low_price c),
     close_price = Finite (close_price c), volume = Finite (volume c),
     turnover = Finite (turnover c)\<rparr>"

definition chronological :: "candle list \<Rightarrow> bool" where
  "chronological cs \<longleftrightarrow> sorted_wrt (\<lambda>a b. instant (open_time a) < instant (open_time b)) cs"

definition batch_wf :: "candle_batch \<Rightarrow> bool" where
  "batch_wf b \<longleftrightarrow>
     cb_category b \<in> set categories \<and> normal_symbol (cb_symbol b) \<and> aware (fetched_at b) \<and>
     chronological (candles b) \<and>
     (\<forall>c \<in> set (candles b). cd_source c = cb_source b \<and> cd_role c = cb_role b \<and>
        cd_category c = cb_category b \<and> cd_symbol c = cb_symbol b \<and>
        cd_interval c = cb_interval b \<and> instant (close_time c) \<le> instant (fetched_at b))"

lemma categories_lower: "k \<in> set categories \<Longrightarrow> lower (strip k) = k"
  by (auto simp: categories_def lower_def lower_char_def translate_def upper_letters_def
      lower_letters_def strip_def is_space_def spaces_def)

lemma normal_symbol_upper: "strip s \<noteq> '''' \<Longrightarrow> normal_symbol (upper (strip s))"
  by (simp add: normal_symbol_def)

lemma candle_decimal_Inr [result_simps]:
  "candle_decimal name pos v = Inr d \<longleftrightarrow>
     v = Finite d \<and> (if pos then 0 < dval d else 0 \<le> dval d)"
  by (cases v) (auto simp: candle_decimal_def check_finite_def)

lemma duration_pos [simp]: "0 < duration i"
  by (cases i) (simp_all add: minute_us_def day_us_def)

lemma candle_role_eq [simp]: "r = STRUCTURE_DATA"
  by (cases r)

section \<open>Construction establishes and characterises well-formedness\<close>

lemma OhlcvCandle_Inr:
  "OhlcvCandle a = Inr c \<longleftrightarrow>
     candle_wf c \<and> candle_args c = a\<lparr>cd_category := cd_category c, cd_symbol := cd_symbol c\<rparr> \<and>
     cd_category c = lower (strip (cd_category a)) \<and> cd_symbol c = upper (strip (cd_symbol a))"
proof (cases a; cases c)
  fix s r k y i ot ct op hi lo cl v t s' r' k' y' i' ot' ct' op' hi' lo' cl' v' t'
  assume "a = \<lparr>cd_source = s, cd_role = r, cd_category = k, cd_symbol = y, cd_interval = i,
    open_time = ot, close_time = ct, open_price = op, high_price = hi, low_price = lo,
    close_price = cl, volume = v, turnover = t\<rparr>"
    and "c = \<lparr>cd_source = s', cd_role = r', cd_category = k', cd_symbol = y', cd_interval = i',
    open_time = ot', close_time = ct', open_price = op', high_price = hi', low_price = lo',
    close_price = cl', volume = v', turnover = t'\<rparr>"
  then show ?thesis
    by (auto simp: OhlcvCandle_def Let_def result_simps candle_wf_def candle_args_def
        normal_symbol_def not_less)
qed

lemma OhlcvCandle_wf: "OhlcvCandle a = Inr c \<Longrightarrow> candle_wf c"
  by (simp add: OhlcvCandle_Inr)

text \<open>
  Building a candle from its own fields gives the same candle exactly when the candle is
  well formed: symbol and category normalised, the close one interval after the open, positive
  prices with the low below and the high above open and close, volume and turnover non-negative.
\<close>

theorem OhlcvCandle_fixpoint: "OhlcvCandle (candle_args c) = Inr c \<longleftrightarrow> candle_wf c"
proof -
  have "candle_wf c \<Longrightarrow> cd_category c = lower (strip (cd_category c))"
    by (simp add: candle_wf_def categories_lower)
  moreover have "candle_wf c \<Longrightarrow> cd_symbol c = upper (strip (cd_symbol c))"
    by (simp add: candle_wf_def normal_symbol_def)
  ultimately show ?thesis
    unfolding OhlcvCandle_Inr by (auto simp: candle_args_def)
qed

lemma check_batch_Inr:
  "(\<forall>x \<in> set seen. \<exists>p. prev = Some p \<and> x \<le> p) \<Longrightarrow>
   check_batch b k y f seen prev cs = Inr u \<longleftrightarrow>
     chronological cs \<and> (\<forall>c \<in> set cs. (case prev of None \<Rightarrow> True | Some p \<Rightarrow> p < instant (open_time c)) \<and>
       cd_source c = cb_source b \<and> cd_role c = cb_role b \<and> cd_category c = k \<and> cd_symbol c = y \<and>
       cd_interval c = cb_interval b \<and> instant (close_time c) \<le> instant f)"
proof (induction cs arbitrary: seen prev)
  case Nil
  then show ?case by (simp add: chronological_def)
next
  case (Cons c cs)
  have "\<forall>x \<in> set (instant (open_time c) # seen). \<exists>p. Some (instant (open_time c)) = Some p \<and> x \<le> p"
    if "case prev of None \<Rightarrow> True | Some p \<Rightarrow> p < instant (open_time c)"
    using that Cons.prems by fastforce
  note IH = Cons.IH [OF this]
  have seen: "instant (open_time c) \<notin> set seen"
    if "case prev of None \<Rightarrow> True | Some p \<Rightarrow> p < instant (open_time c)"
    using that Cons.prems by fastforce
  show ?case
  proof (cases "case prev of None \<Rightarrow> True | Some p \<Rightarrow> p < instant (open_time c)")
    case True
    with IH [OF True] seen [OF True] show ?thesis
      by (cases prev) (auto simp: result_simps chronological_def not_less intro: less_trans)
  next
    case False
    then show ?thesis by (auto simp: result_simps split: option.splits)
  qed
qed

lemma CandleBatch_Inr:
  "CandleBatch a = Inr b \<longleftrightarrow>
     batch_wf b \<and> b = a\<lparr>cb_category := cb_category b, cb_symbol := cb_symbol b\<rparr> \<and>
     cb_category b = lower (strip (cb_category a)) \<and> cb_symbol b = upper (strip (cb_symbol a))"
  by (cases a; cases b)
    (auto simp: CandleBatch_def Let_def result_simps check_batch_Inr batch_wf_def normal_symbol_def
      split: if_splits)

lemma CandleBatch_wf: "CandleBatch a = Inr b \<Longrightarrow> batch_wf b"
  by (simp add: CandleBatch_Inr)

text \<open>
  A candle batch is accepted as it stands exactly when its candles are strictly
  chronological, all of the batch's source, role, category, symbol and interval, and all closed
  when the batch was fetched.
\<close>

theorem CandleBatch_fixpoint: "CandleBatch b = Inr b \<longleftrightarrow> batch_wf b"
proof -
  have "batch_wf b \<Longrightarrow> cb_category b = lower (strip (cb_category b))"
    by (simp add: batch_wf_def categories_lower)
  moreover have "batch_wf b \<Longrightarrow> cb_symbol b = upper (strip (cb_symbol b))"
    by (simp add: batch_wf_def normal_symbol_def)
  ultimately show ?thesis unfolding CandleBatch_Inr by auto
qed

lemma batch_wf_chronological: "batch_wf b \<Longrightarrow> chronological (candles b)"
  by (simp add: batch_wf_def)

lemma chronological_nth:
  "chronological cs \<Longrightarrow> i < j \<Longrightarrow> j < length cs \<Longrightarrow>
     instant (open_time (cs ! i)) < instant (open_time (cs ! j))"
  by (simp add: chronological_def sorted_wrt_iff_nth_less)

lemma chronological_filter: "chronological cs \<Longrightarrow> chronological (filter p cs)"
  by (simp add: chronological_def sorted_wrt_filter)

end
