(* ===== verification/Samples.thy ===== *)
theory Samples
  imports Candles
begin

text \<open>
  Sample market data on which the witnesses of the properties are evaluated: a 4H series in which
  two pivot lows form a support zone, the zone breaks down, and the price keeps falling. Prices
  are given in hundredths; the series starts on 5 January 2026, 00:00 UTC.
\<close>

definition sample_start :: int where
  "sample_start = 63903168000000000"

definition sample_candle :: "candle_interval \<Rightarrow> int \<Rightarrow> int \<times> int \<times> int \<times> int \<Rightarrow> candle" where
  "sample_candle i k p = (case p of (op, hi, lo, cl) \<Rightarrow>
     \<lparr>cd_source = CS_BYBIT, cd_role = STRUCTURE_DATA, cd_category = ''linear'',
      cd_symbol = ''ABCUSDT'', cd_interval = i,
      open_time = DateTime (sample_start + k * duration i) (Some 0),
      close_time = DateTime (sample_start + (k + 1) * duration i) (Some 0),
      open_price = dec op (-2), high_price = dec hi (-2), low_price = dec lo (-2),
      close_price = dec cl (-2), volume = dec 1000 0, turnover = dec 100000 0\<rparr>)"

fun sample_series :: "candle_interval \<Rightarrow> int \<Rightarrow> (int \<times> int \<times> int \<times> int) list \<Rightarrow> candle list" where
  "sample_series i k [] = []"
| "sample_series i k (p # ps) = sample_candle i k p # sample_series i (k + 1) ps"

definition sample_prices :: "(int \<times> int \<times> int \<times> int) list" where
  "sample_prices =
     [(10500, 10600, 10400, 10450), (10450, 10500, 10300, 10350), (10350, 10400, 10000, 10300),
      (10300, 10500, 10200, 10400), (10400, 10600, 10300, 10500), (10500, 10550, 10200, 10250),
      (10250, 10300, 10010, 10280), (10280, 10400, 10150, 10350), (10350, 10500, 10200, 10300),
      (10300, 10350, 9900, 9920), (9920, 9960, 9800, 9850), (9850, 9900, 9700, 9750)]"

definition sample_candles :: "candle_interval \<Rightarrow> candle list" where
  "sample_candles i = sample_series i 0 sample_prices"

definition sample_batch :: "candle_interval \<Rightarrow> candle_batch" where
  "sample_batch i = \<lparr>cb_source = CS_BYBIT, cb_role = STRUCTURE_DATA, cb_category = ''linear'',
     cb_symbol = ''ABCUSDT'', cb_interval = i,
     fetched_at = DateTime (sample_start + 12 * duration i) (Some 0),
     candles = sample_candles i\<rparr>"

lemma length_sample: "length (sample_candles v) = 12"
  by (simp add: sample_candles_def sample_prices_def)

lemma sample_batch_wf: "batch_wf (sample_batch H4)" "batch_wf (sample_batch D1)"
  by (code_simp)+

end
