(* ===== verification/Serialization.thy ===== *)
theory Serialization
  imports Json_Values Samples
begin

text \<open>
  \<^verbatim>\<open>app/candles/serialization.py\<close>: candle batches as the JSON payload of the kline adapter, which the
  runtime store reads back. \<open>payload_round_trip\<close> is the contract between the two.
\<close>

section \<open>Enumerations by value\<close>

definition CandleSource_of :: "string \<Rightarrow> candle_source result" where
  "CandleSource_of s = (if s = source_value CS_BYBIT then Inr CS_BYBIT
     else Inl (ValueError (str_repr s @ '' is not a valid CandleSource'')))"

definition CandleRole_of :: "string \<Rightarrow> candle_role result" where
  "CandleRole_of s = (if s = role_value STRUCTURE_DATA then Inr STRUCTURE_DATA
     else Inl (ValueError (str_repr s @ '' is not a valid CandleRole'')))"

definition CandleInterval_of :: "string \<Rightarrow> candle_interval result" where
  "CandleInterval_of s =
     (case find (\<lambda>i. interval_value i = s) [M5, M15, H4, D1] of Some i \<Rightarrow> Inr i
      | None \<Rightarrow> Inl (ValueError (str_repr s @ '' is not a valid CandleInterval'')))"

lemma CandleSource_of_value [simp]: "CandleSource_of (source_value s) = Inr s"
  by (cases s) (simp add: CandleSource_of_def)

lemma CandleRole_of_value [simp]: "CandleRole_of (role_value r) = Inr r"
  by (induction r) (simp add: CandleRole_of_def)

lemma CandleInterval_of_value [simp]: "CandleInterval_of (interval_value i) = Inr i"
  by (cases i) (simp_all add: CandleInterval_of_def)

section \<open>Writing\<close>

definition candle_to_dict :: "candle \<Rightarrow> json_object" where
  "candle_to_dict c =
     [(''source'', JStr (source_value (cd_source c))),
      (''role'', JStr (role_value (cd_role c))),
      (''category'', JStr (cd_category c)),
      (''symbol'', JStr (cd_symbol c)),
      (''interval'', JStr (interval_value (cd_interval c))),
      (''open_time'', JStr (isoformat (open_time c))),
      (''close_time'', JStr (isoformat (close_time c))),
      (''open_price'', JStr (dec_str (open_price c))),
      (''high_price'', JStr (dec_str (high_price c))),
      (''low_price'', JStr (dec_str (low_price c))),
      (''close_price'', JStr (dec_str (close_price c))),
      (''volume'', JStr (dec_str (volume c))),
      (''turnover'', JStr (dec_str (turnover c)))]"

definition batch_to_payload_data :: "candle_batch \<Rightarrow> json_object" where
  "batch_to_payload_data b =
     [(''source'', JStr (source_value (cb_source b))),
      (''role'', JStr (role_value (cb_role b))),
      (''category'', JStr (cb_category b)),
      (''symbol'', JStr (cb_symbol b)),
      (''interval'', JStr (interval_value (cb_interval b))),
      (''fetched_at'', JStr (isoformat (fetched_at b))),
      (''candles'', JList (map (\<lambda>c. JObj (candle_to_dict c)) (candles b)))]"

section \<open>Reading\<close>

text \<open>One turn of the loop over \<open>raw_candles\<close>: the arguments in their order, then the constructor.\<close>

definition candle_from_object :: "json_object \<Rightarrow> candle result" where
  "candle_from_object raw =
     and_then (CandleSource_of (py_str (get raw ''source''))) (\<lambda>source.
     and_then (CandleRole_of (py_str (get raw ''role''))) (\<lambda>role.
     and_then (CandleInterval_of (py_str (get raw ''interval''))) (\<lambda>interval.
     and_then (fromisoformat (py_str (get raw ''open_time''))) (\<lambda>opened.
     and_then (fromisoformat (py_str (get raw ''close_time''))) (\<lambda>closed.
     and_then (decimal_of_json (get raw ''open_price'')) (\<lambda>op.
     and_then (decimal_of_json (get raw ''high_price'')) (\<lambda>hi.
     and_then (decimal_of_json (get raw ''low_price'')) (\<lambda>lo.
     and_then (decimal_of_json (get raw ''close_price'')) (\<lambda>cl.
     and_then (decimal_of_json (get raw ''volume'')) (\<lambda>vol.
     and_then (decimal_of_json (get raw ''turnover'')) (\<lambda>turn.
     OhlcvCandle \<lparr>cd_source = source, cd_role = role,
       cd_category = py_str (get_default raw ''category'' (JStr '''')),
       cd_symbol = py_str (get_default raw ''symbol'' (JStr '''')),
       cd_interval = interval, open_time = opened, close_time = closed,
       open_price = op, high_price = hi, low_price = lo, close_price = cl, volume = vol, turnover = turn\<rparr>)))))))))))"

fun candle_item :: "json \<Rightarrow> candle result" where
  "candle_item (JObj raw) = candle_from_object raw"
| "candle_item v = Inl (ValueError ''candle item must be an object'')"

definition batch_from_payload_data :: "json_object \<Rightarrow> candle_batch result" where
  "batch_from_payload_data data =
     (case get data ''candles'' of
        JList raw_candles \<Rightarrow>
          and_then (CandleSource_of (py_str (get data ''source''))) (\<lambda>source.
          and_then (CandleRole_of (py_str (get data ''role''))) (\<lambda>role.
          let category = py_str (get_default data ''category'' (JStr ''''));
              symbol = py_str (get_default data ''symbol'' (JStr '''')) in
          and_then (CandleInterval_of (py_str (get data ''interval''))) (\<lambda>interval.
          and_then (fromisoformat (py_str (get data ''fetched_at''))) (\<lambda>fetched.
          and_then (traverse candle_item raw_candles) (\<lambda>cs.
          CandleBatch \<lparr>cb_source = source, cb_role = role, cb_category = category, cb_symbol = symbol,
            cb_interval = interval, fetched_at = fetched, candles = cs\<rparr>)))))
      | _ \<Rightarrow> Inl (ValueError ''candles must be a list''))"

section \<open>The round trip\<close>

text \<open>What every candle and batch of the running program is, seen as Python values.\<close>

definition candle_ok :: "candle \<Rightarrow> bool" where
  "candle_ok c \<longleftrightarrow> candle_wf c \<and> time_wf (open_time c) \<and> time_wf (close_time c) \<and>
     decimal_wf (open_price c) \<and> decimal_wf (high_price c) \<and> decimal_wf (low_price c) \<and>
     decimal_wf (close_price c) \<and> decimal_wf (volume c) \<and> decimal_wf (turnover c)"

definition batch_ok :: "candle_batch \<Rightarrow> bool" where
  "batch_ok b \<longleftrightarrow> batch_wf b \<and> time_wf (fetched_at b) \<and> (\<forall>c \<in> set (candles b). candle_ok c)"

lemma candle_round_trip: "candle_ok c \<Longrightarrow> candle_from_object (candle_to_dict c) = Inr c"
proof -
  assume ok: "candle_ok c"
  have "candle_from_object (candle_to_dict c) = OhlcvCandle (candle_args c)"
    using ok by (simp add: candle_ok_def candle_from_object_def candle_to_dict_def fromisoformat_isoformat
        decimal_of_json_str candle_args_def)
  moreover have "OhlcvCandle (candle_args c) = Inr c"
    using ok by (auto simp: candle_ok_def OhlcvCandle_Inr candle_wf_def normal_symbol_def categories_lower candle_args_def)
  ultimately show ?thesis by simp
qed

lemma candles_round_trip:
  "\<forall>c \<in> set cs. candle_ok c \<Longrightarrow> traverse candle_item (map (\<lambda>c. JObj (candle_to_dict c)) cs) = Inr cs"
  by (induction cs) (simp_all add: candle_round_trip)

lemma batch_round_trip:
  assumes "batch_ok b"
  shows "batch_from_payload_data (batch_to_payload_data b @ extra) = Inr b"
proof -
  have "batch_from_payload_data (batch_to_payload_data b @ extra) = CandleBatch b"
    using assms candles_round_trip [of "candles b"]
    by (cases b) (simp add: batch_ok_def batch_from_payload_data_def batch_to_payload_data_def fromisoformat_isoformat Let_def)
  also have "\<dots> = Inr b"
    using assms by (simp add: batch_ok_def CandleBatch_Inr batch_wf_def normal_symbol_def categories_lower)
  finally show ?thesis .
qed

text \<open>
  A candle batch that is written as a payload and read back is the same batch: every price
  with its value and its number of decimals, every time stamp with its offset, every enumeration
  value and the order of the candles.
\<close>

theorem payload_round_trip:
  assumes "batch_wf b" "time_wf (fetched_at b)" "\<forall>c \<in> set (candles b). candle_ok c"
  shows "batch_from_payload_data (batch_to_payload_data b) = Inr b"
  using batch_round_trip [of b "[]"] assms by (simp add: batch_ok_def)

lemma decimal_wf_dec [simp]: "decimal_wf (dec c e)"
  by (auto simp: decimal_wf_def)

lemma sample_candle_ok:
  "candle_wf (sample_candle H4 k p) \<Longrightarrow> 0 \<le> k \<Longrightarrow> k < 100 \<Longrightarrow> candle_ok (sample_candle H4 k p)"
  by (cases p) (simp add: sample_candle_def candle_ok_def time_wf_def sample_start_def minute_us_def max_us_def day_us_def)

lemma sample_series_candle_ok:
  "\<forall>c \<in> set (sample_series H4 k ps). candle_wf c \<Longrightarrow> 0 \<le> k \<Longrightarrow> k + int (length ps) \<le> 100 \<Longrightarrow>
    \<forall>c \<in> set (sample_series H4 k ps). candle_ok c"
  by (induction H4 k ps rule: sample_series.induct) (auto intro: sample_candle_ok)

lemma sample_candles_ok: "\<forall>c \<in> set (candles (sample_batch H4)). candle_ok c"
proof -
  have "list_all candle_wf (sample_series H4 0 sample_prices)" by code_simp
  then show ?thesis using sample_series_candle_ok [of 0 sample_prices]
    by (simp add: sample_batch_def sample_candles_def list_all_iff sample_prices_def del: sample_series.simps)
qed

theorem payload_round_trip_witness:
  "batch_from_payload_data (batch_to_payload_data (sample_batch H4)) = Inr (sample_batch H4)"
proof -
  have "time_wf (fetched_at (sample_batch H4))"
    by (simp add: sample_batch_def time_wf_def sample_start_def minute_us_def max_us_def day_us_def)
  then show ?thesis by (rule payload_round_trip [OF sample_batch_wf(1) _ sample_candles_ok])
qed

text \<open>
  Reading accepts only well-formed batches of well-formed candles, whatever the payload is; so a
  payload that was tampered with or truncated raises rather than entering the analysis.
\<close>

lemma candle_item_wf: "candle_item v = Inr c \<Longrightarrow> candle_wf c"
  by (cases v) (auto simp: candle_from_object_def and_then_Inr OhlcvCandle_wf)

lemma batch_from_payload_wf:
  assumes "batch_from_payload_data data = Inr b"
  shows "batch_wf b" "\<forall>c \<in> set (candles b). candle_wf c"
proof -
  obtain raw source role interval fetched cs category symbol where
    cs: "traverse candle_item raw = Inr cs" and
    b: "CandleBatch \<lparr>cb_source = source, cb_role = role, cb_category = category, cb_symbol = symbol,
            cb_interval = interval, fetched_at = fetched, candles = cs\<rparr> = Inr b"
    using assms by (auto simp: batch_from_payload_data_def and_then_Inr Let_def split: json.splits)
  show "batch_wf b" using b by (simp add: CandleBatch_Inr)
  have "candles b = cs" using b by (auto simp: CandleBatch_Inr)
  moreover have "candle_wf c" if "c \<in> set cs" for c
    using traverse_Inr_set [OF cs that] candle_item_wf by blast
  ultimately show "\<forall>c \<in> set (candles b). candle_wf c" by simp
qed

end
