(* ===== verification/Row_Store.thy ===== *)
theory Row_Store
  imports PyDecimal PyTime
begin

text \<open>
  The repositories store their records in the same way: a record whose key has no row is inserted, one
  whose row shows other values is written over it, any other is left alone; three counters say
  what happened. The session of the database is outside the program: \<open>fetch_row\<close> gives the row of a key,
  \<open>save_row\<close> keeps a row that was added or changed. What a session promises is \<open>sql_table\<close>: a row
  that was saved is found under its key, as its columns keep it (\<open>columns\<close>), until that key is saved again.
  The locale \<open>upsert_table\<close> says what the conversions between records and rows owe to this scheme.
\<close>

record upsert_result =
  ur_inserted :: nat
  ur_updated :: nat
  ur_unchanged :: nat

definition no_rows :: upsert_result where
  "no_rows = \<lparr>ur_inserted = 0, ur_updated = 0, ur_unchanged = 0\<rparr>"

definition ur_total :: "upsert_result \<Rightarrow> nat" where
  "ur_total r = ur_inserted r + ur_updated r + ur_unchanged r"

definition upsert_row ::
  "('x \<Rightarrow> 'k) \<Rightarrow> ('x \<Rightarrow> 'r) \<Rightarrow> ('r \<Rightarrow> 'x \<Rightarrow> bool) \<Rightarrow> ('x \<Rightarrow> 'r \<Rightarrow> 'r) \<Rightarrow>
     ('db \<Rightarrow> 'k \<Rightarrow> 'r option) \<Rightarrow> ('db \<Rightarrow> 'k \<Rightarrow> 'r \<Rightarrow> 'db) \<Rightarrow> 'x \<Rightarrow> 'db \<times> upsert_result \<Rightarrow> 'db \<times> upsert_result" where
  "upsert_row key_of record_of same put fetch_row save_row x s =
     (case s of (db, n) \<Rightarrow>
        case fetch_row db (key_of x) of
          None \<Rightarrow> (save_row db (key_of x) (record_of x), n\<lparr>ur_inserted := ur_inserted n + 1\<rparr>)
        | Some row \<Rightarrow>
            if same row x then (db, n\<lparr>ur_unchanged := ur_unchanged n + 1\<rparr>)
            else (save_row db (key_of x) (put x row), n\<lparr>ur_updated := ur_updated n + 1\<rparr>))"

section \<open>The session\<close>

definition sql_table :: "('r \<Rightarrow> 'r) \<Rightarrow> ('db \<Rightarrow> 'k \<Rightarrow> 'r option) \<Rightarrow> ('db \<Rightarrow> 'k \<Rightarrow> 'r \<Rightarrow> 'db) \<Rightarrow> bool" where
  "sql_table columns fetch_row save_row \<longleftrightarrow>
     (\<forall>db k r k'. fetch_row (save_row db k r) k' = (if k' = k then Some (columns r) else fetch_row db k'))"

definition keyed :: "('db \<Rightarrow> 'k \<Rightarrow> 'r option) \<Rightarrow> ('r \<Rightarrow> 'k) \<Rightarrow> 'db \<Rightarrow> bool" where
  "keyed fetch_row key db \<longleftrightarrow> (\<forall>k r. fetch_row db k = Some r \<longrightarrow> key r = k)"

lemma sql_tableD:
  "sql_table columns fetch_row save_row \<Longrightarrow>
     fetch_row (save_row db k r) k' = (if k' = k then Some (columns r) else fetch_row db k')"
  unfolding sql_table_def by blast

lemma keyedD: "keyed fetch_row key db \<Longrightarrow> fetch_row db k = Some r \<Longrightarrow> key r = k"
  unfolding keyed_def by blast

lemma keyed_save:
  assumes "sql_table columns fetch_row save_row" "keyed fetch_row key db" "key (columns r) = k"
  shows "keyed fetch_row key (save_row db k r)"
  unfolding keyed_def
proof (intro allI impI)
  fix k' r'
  assume "fetch_row (save_row db k r) k' = Some r'"
  then show "key r' = k'" using sql_tableD [OF assms(1)] keyedD [OF assms(2)] assms(3) by (cases "k' = k") auto
qed

text \<open>A map from keys to rows is such a session.\<close>

lemma sql_table_map: "sql_table columns (\<lambda>db k. db k) (\<lambda>db k r. db(k \<mapsto> columns r))"
  by (simp add: sql_table_def)

lemma keyed_empty: "keyed (\<lambda>db k. db k) key Map.empty"
  by (simp add: keyed_def)

section \<open>Columns\<close>

text \<open>
  A column \<open>Numeric(p, s)\<close> keeps the nearest number of \<open>s\<close> decimals; a number that has no more
  decimals comes back as it was.
\<close>

definition numeric_column :: "int \<Rightarrow> decimal \<Rightarrow> decimal \<Rightarrow> bool" where
  "numeric_column s d d' \<longleftrightarrow> quantized (dval d') (- s) = dval d' \<and> 2 * \<bar>dval d' - dval d\<bar> \<le> 10 powi (- s)"

definition fits :: "int \<Rightarrow> decimal \<Rightarrow> bool" where
  "fits s d \<longleftrightarrow> quantized (dval d) (- s) = dval d"

lemma fits_quantize: "quantize d e = Inr c \<Longrightarrow> fits (- e) c"
  using quantize_Inr by (fastforce simp: fits_def quantized_def)

lemma fits_mono:
  assumes "fits s d" "s \<le> t"
  shows "fits t d"
proof -
  let ?n = "round_half_even (dval d / 10 powi (- s))"
  have "of_int (10 ^ nat (t - s)) = (10 :: rat) powi (t - s)" using assms(2) by (simp add: power_int_def)
  moreover have "dval d = of_int ?n * 10 powi (- s)" using assms(1) by (simp add: fits_def quantized_def)
  ultimately have "dval d = of_int (?n * 10 ^ nat (t - s)) * 10 powi (- t)"
    by (simp add: power_int_diff power_int_minus field_simps)
  then show ?thesis unfolding fits_def by (metis quantized_exact)
qed

lemma numeric_column_exact:
  assumes "numeric_column s d d'" "fits s d"
  shows "dval d' = dval d"
proof -
  let ?u = "(10 :: rat) powi (- s)"
  obtain m n where v: "dval d' = of_int m * ?u" "dval d = of_int n * ?u"
    using assms unfolding numeric_column_def fits_def quantized_def by metis
  have u: "0 < ?u" by simp
  have "2 * (\<bar>of_int (m - n)\<bar> * ?u) \<le> ?u"
    using assms(1) u unfolding numeric_column_def v by (simp add: left_diff_distrib [symmetric] abs_mult)
  then have "2 * \<bar>of_int (m - n) :: rat\<bar> \<le> 1" using u by (simp add: field_simps)
  then have "rat_of_int (2 * \<bar>m - n\<bar>) \<le> of_int 1" by simp
  then have "m = n" unfolding of_int_le_iff by presburger
  then show ?thesis using v by simp
qed

lemma numeric_column_self: "fits s d \<Longrightarrow> numeric_column s d d"
  by (simp add: numeric_column_def fits_def)

text \<open>Rounding half to even is such a column.\<close>

definition rounded :: "int \<Rightarrow> decimal \<Rightarrow> decimal" where
  "rounded s d = Dec (quantized (dval d) (- s)) (- s)"

lemma numeric_column_rounded: "numeric_column s d (rounded s d)"
proof -
  let ?u = "(10 :: rat) powi (- s)"
  have "\<bar>of_int (round_half_even (dval d / ?u)) - dval d / ?u\<bar> * ?u \<le> 1 / 2 * ?u"
    by (rule mult_right_mono [OF round_half_even_error]) simp
  moreover have "\<bar>x - dval d / ?u\<bar> * ?u = \<bar>x * ?u - dval d\<bar>" for x
  proof -
    have "\<bar>x - dval d / ?u\<bar> * ?u = \<bar>(x - dval d / ?u) * ?u\<bar>" by (simp add: abs_mult)
    then show ?thesis by (simp add: left_diff_distrib)
  qed
  ultimately show ?thesis using quantized_exact by (simp add: numeric_column_def rounded_def quantized_def)
qed

definition numeric_option :: "int \<Rightarrow> decimal option \<Rightarrow> decimal option \<Rightarrow> bool" where
  "numeric_option s v w \<longleftrightarrow> (case v of None \<Rightarrow> w = None | Some d \<Rightarrow> (case w of None \<Rightarrow> False | Some d' \<Rightarrow> numeric_column s d d'))"

section \<open>Storing records\<close>

text \<open>
  \<open>exact r x\<close>: row \<open>r\<close> has the key and the values of record \<open>x\<close>. A record is new in a row made for it and
  in a row of its key that it was written over.
\<close>

locale upsert_table =
  fixes key_of :: "'x \<Rightarrow> 'k"
    and row_key :: "'r \<Rightarrow> 'k"
    and record_of :: "'x \<Rightarrow> 'r"
    and same :: "'r \<Rightarrow> 'x \<Rightarrow> bool"
    and put :: "'x \<Rightarrow> 'r \<Rightarrow> 'r"
    and exact :: "'r \<Rightarrow> 'x \<Rightarrow> bool"
  assumes record_exact: "exact (record_of x) x"
    and put_exact: "row_key r = key_of x \<Longrightarrow> exact (put x r) x"
begin

definition stored :: "('db \<Rightarrow> 'k \<Rightarrow> 'r option) \<Rightarrow> 'db \<Rightarrow> 'x \<Rightarrow> bool" where
  "stored fetch_row db x \<longleftrightarrow> (\<exists>row. fetch_row db (key_of x) = Some row \<and> row_key row = key_of x \<and> same row x)"

text \<open>Columns that keep a record: what comes back has its key and passes for the same.\<close>

definition kept :: "('r \<Rightarrow> 'r) \<Rightarrow> 'x \<Rightarrow> bool" where
  "kept columns x \<longleftrightarrow> (\<forall>r. exact r x \<longrightarrow> row_key (columns r) = key_of x \<and> same (columns r) x)"

lemma step:
  assumes "sql_table columns fetch_row save_row" "keyed fetch_row row_key db" "kept columns x"
    "upsert_row key_of record_of same put fetch_row save_row x (db, n) = (db', n')"
  shows "keyed fetch_row row_key db' \<and> stored fetch_row db' x \<and>
    (\<forall>k. k \<noteq> key_of x \<longrightarrow> fetch_row db' k = fetch_row db k) \<and> ur_total n' = Suc (ur_total n)"
proof -
  have saved: "keyed fetch_row row_key (save_row db (key_of x) r) \<and> stored fetch_row (save_row db (key_of x) r) x \<and>
      (\<forall>k. k \<noteq> key_of x \<longrightarrow> fetch_row (save_row db (key_of x) r) k = fetch_row db k)" if "exact r x" for r
  proof -
    have c: "row_key (columns r) = key_of x" "same (columns r) x" using assms(3) that by (auto simp: kept_def)
    then show ?thesis using keyed_save [OF assms(1,2) c(1)] sql_tableD [OF assms(1)] by (auto simp: stored_def)
  qed
  show ?thesis
  proof (cases "fetch_row db (key_of x)")
    case None
    then have "db' = save_row db (key_of x) (record_of x)" "ur_total n' = Suc (ur_total n)"
      using assms(4) by (auto simp: upsert_row_def ur_total_def)
    then show ?thesis using saved [OF record_exact] by simp
  next
    case (Some row)
    note key = keyedD [OF assms(2) Some]
    show ?thesis
    proof (cases "same row x")
      case True
      then show ?thesis using assms(2,4) Some key by (auto simp: upsert_row_def ur_total_def stored_def)
    next
      case False
      then have "db' = save_row db (key_of x) (put x row)" "ur_total n' = Suc (ur_total n)"
        using assms(4) Some by (auto simp: upsert_row_def ur_total_def)
      then show ?thesis using saved [OF put_exact [OF key]] by simp
    qed
  qed
qed

lemma all:
  assumes "sql_table columns fetch_row save_row" "keyed fetch_row row_key db" "\<forall>x \<in> set xs. kept columns x"
    "distinct (map key_of xs)" "fold (upsert_row key_of record_of same put fetch_row save_row) xs (db, n) = (db', n')"
  shows "keyed fetch_row row_key db' \<and> (\<forall>x \<in> set xs. stored fetch_row db' x) \<and>
    (\<forall>k. k \<notin> key_of ` set xs \<longrightarrow> fetch_row db' k = fetch_row db k) \<and> ur_total n' = ur_total n + length xs"
  using assms(2-)
proof (induction xs arbitrary: db n)
  case (Cons x xs)
  obtain db1 n1 where s: "upsert_row key_of record_of same put fetch_row save_row x (db, n) = (db1, n1)" by fastforce
  note one = step [OF assms(1) Cons.prems(1) _ s]
  have "fold (upsert_row key_of record_of same put fetch_row save_row) xs (db1, n1) = (db', n')" using Cons.prems(4) s by simp
  then have ih: "keyed fetch_row row_key db' \<and> (\<forall>x \<in> set xs. stored fetch_row db' x) \<and>
    (\<forall>k. k \<notin> key_of ` set xs \<longrightarrow> fetch_row db' k = fetch_row db1 k) \<and> ur_total n' = ur_total n1 + length xs"
    using Cons.IH [of db1 n1] one Cons.prems(2,3) by simp
  moreover have "key_of x \<notin> key_of ` set xs" using Cons.prems(3) by simp
  then have "fetch_row db' (key_of x) = fetch_row db1 (key_of x)" using ih by blast
  then have "stored fetch_row db' x" using one Cons.prems(2) by (simp add: stored_def)
  ultimately show ?case using one Cons.prems(2) by auto
qed simp

lemma again:
  assumes "\<forall>x \<in> set xs. stored fetch_row db x"
  shows "fold (upsert_row key_of record_of same put fetch_row save_row) xs (db, n) = (db, n\<lparr>ur_unchanged := ur_unchanged n + length xs\<rparr>)"
  using assms
proof (induction xs arbitrary: n)
  case (Cons x xs)
  then have "upsert_row key_of record_of same put fetch_row save_row x (db, n) = (db, n\<lparr>ur_unchanged := ur_unchanged n + 1\<rparr>)"
    by (auto simp: stored_def upsert_row_def)
  then show ?case using Cons by simp
qed simp

end

end
