(* ===== verification/Candle_Repository.thy ===== *)
theory Candle_Repository
  imports Serialization Row_Store
begin

text \<open>
  \<^verbatim>\<open>app/candles/repository.py\<close> with the row of \<^verbatim>\<open>app/db/models.py\<close>: storing a batch of candles and reading candles
  back. A session answers for the row of a unique key and for the newest rows (\<open>newest\<close>). The columns
  a row gets from the database itself (\<open>id\<close>, \<open>created_at\<close>, \<open>updated_at\<close>) play no part in the code and are left out.
\<close>

record candle_row =
  cr_source :: string
  cr_role :: string
  cr_category :: string
  cr_symbol :: string
  cr_interval :: string
  cr_open_time :: datetime
  cr_close_time :: datetime
  cr_open_price :: decimal
  cr_high_price :: decimal
  cr_low_price :: decimal
  cr_close_price :: decimal
  cr_volume :: decimal
  cr_turnover :: decimal

text \<open>The unique key of a row; the database compares time stamps by their instant.\<close>

type_synonym candle_key = "string \<times> string \<times> string \<times> int"

definition row_key :: "candle_row \<Rightarrow> candle_key" where
  "row_key r = (cr_source r, cr_symbol r, cr_interval r, instant (cr_open_time r))"

definition key_of_candle :: "candle \<Rightarrow> candle_key" where
  "key_of_candle c = (source_value (cd_source c), cd_symbol c, interval_value (cd_interval c), instant (open_time c))"

text \<open>\<open>_equal_persisted_value\<close>: times by \<open>_aware_utc\<close>, Decimals by value.\<close>

definition same_time :: "datetime \<Rightarrow> datetime \<Rightarrow> bool" where
  "same_time a b \<longleftrightarrow> instant (aware_utc a) = instant (aware_utc b)"

definition record_from_candle :: "candle \<Rightarrow> candle_row" where
  "record_from_candle c =
     \<lparr>cr_source = source_value (cd_source c), cr_role = role_value (cd_role c), cr_category = cd_category c,
      cr_symbol = cd_symbol c, cr_interval = interval_value (cd_interval c), cr_open_time = open_time c,
      cr_close_time = close_time c, cr_open_price = open_price c, cr_high_price = high_price c,
      cr_low_price = low_price c, cr_close_price = close_price c, cr_volume = volume c, cr_turnover = turnover c\<rparr>"

definition same_values :: "candle_row \<Rightarrow> candle \<Rightarrow> bool" where
  "same_values r c \<longleftrightarrow>
     cr_role r = role_value (cd_role c) \<and> cr_category r = cd_category c \<and> same_time (cr_close_time r) (close_time c) \<and>
     dval (cr_open_price r) = dval (open_price c) \<and> dval (cr_high_price r) = dval (high_price c) \<and>
     dval (cr_low_price r) = dval (low_price c) \<and> dval (cr_close_price r) = dval (close_price c) \<and>
     dval (cr_volume r) = dval (volume c) \<and> dval (cr_turnover r) = dval (turnover c)"

definition set_values :: "candle \<Rightarrow> candle_row \<Rightarrow> candle_row" where
  "set_values c r = r\<lparr>cr_role := role_value (cd_role c), cr_category := cd_category c, cr_close_time := close_time c,
     cr_open_price := open_price c, cr_high_price := high_price c, cr_low_price := low_price c,
     cr_close_price := close_price c, cr_volume := volume c, cr_turnover := turnover c\<rparr>"

section \<open>Storing\<close>

definition upsert_candle ::
  "('db \<Rightarrow> candle_key \<Rightarrow> candle_row option) \<Rightarrow> ('db \<Rightarrow> candle_key \<Rightarrow> candle_row \<Rightarrow> 'db) \<Rightarrow>
     candle \<Rightarrow> 'db \<times> upsert_result \<Rightarrow> 'db \<times> upsert_result" where
  "upsert_candle = upsert_row key_of_candle record_from_candle same_values set_values"

definition upsert_batch ::
  "('db \<Rightarrow> candle_key \<Rightarrow> candle_row option) \<Rightarrow> ('db \<Rightarrow> candle_key \<Rightarrow> candle_row \<Rightarrow> 'db) \<Rightarrow>
     candle_batch \<Rightarrow> 'db \<Rightarrow> 'db \<times> upsert_result" where
  "upsert_batch fetch_row save_row b db = fold (upsert_candle fetch_row save_row) (candles b) (db, no_rows)"

section \<open>Reading\<close>

definition candle_from_record :: "candle_row \<Rightarrow> candle result" where
  "candle_from_record r =
     and_then (CandleSource_of (cr_source r)) (\<lambda>source.
     and_then (CandleRole_of (cr_role r)) (\<lambda>role.
     and_then (CandleInterval_of (cr_interval r)) (\<lambda>interval.
     OhlcvCandle \<lparr>cd_source = source, cd_role = role, cd_category = cr_category r, cd_symbol = cr_symbol r,
       cd_interval = interval, open_time = aware_utc (cr_open_time r), close_time = aware_utc (cr_close_time r),
       open_price = Finite (cr_open_price r), high_price = Finite (cr_high_price r), low_price = Finite (cr_low_price r),
       close_price = Finite (cr_close_price r), volume = Finite (cr_volume r), turnover = Finite (cr_turnover r)\<rparr>)))"

definition list_recent ::
  "('db \<Rightarrow> string \<Rightarrow> string \<Rightarrow> string \<Rightarrow> nat \<Rightarrow> candle_row list) \<Rightarrow> candle_source \<Rightarrow> string \<Rightarrow> candle_interval \<Rightarrow> int \<Rightarrow>
     'db \<Rightarrow> candle list result" where
  "list_recent newest source symbol interval limit db =
     (let normalized_symbol = upper (strip symbol) in
      if normalized_symbol = '''' then Inl (ValueError ''symbol is required'')
      else if limit < 1 \<or> 5000 < limit then Inl (ValueError ''limit must be between 1 and 5000'')
      else traverse candle_from_record
        (rev (newest db (source_value source) normalized_symbol (interval_value interval) (nat limit))))"

section \<open>A stored batch\<close>

text \<open>Equality of candles, as the generated \<open>__eq__\<close> compares them.\<close>

definition candle_eq :: "candle \<Rightarrow> candle \<Rightarrow> bool" where
  "candle_eq a b \<longleftrightarrow>
     cd_source a = cd_source b \<and> cd_role a = cd_role b \<and> cd_category a = cd_category b \<and> cd_symbol a = cd_symbol b \<and>
     cd_interval a = cd_interval b \<and> instant (open_time a) = instant (open_time b) \<and>
     instant (close_time a) = instant (close_time b) \<and> dval (open_price a) = dval (open_price b) \<and>
     dval (high_price a) = dval (high_price b) \<and> dval (low_price a) = dval (low_price b) \<and>
     dval (close_price a) = dval (close_price b) \<and> dval (volume a) = dval (volume b) \<and> dval (turnover a) = dval (turnover b)"

text \<open>A row holds a candle if its key and its values are those of the candle.\<close>

definition holds_candle :: "candle_row \<Rightarrow> candle \<Rightarrow> bool" where
  "holds_candle r c \<longleftrightarrow> row_key r = key_of_candle c \<and> same_values r c"

lemma holds_candle_read:
  assumes "holds_candle r c" "candle_wf c"
  shows "\<exists>d. candle_from_record r = Inr d \<and> candle_eq d c"
proof -
  have k: "cr_source r = source_value (cd_source c)" "cr_symbol r = cd_symbol c" "cr_interval r = interval_value (cd_interval c)"
    "instant (cr_open_time r) = instant (open_time c)"
    using assms(1) by (simp_all add: holds_candle_def row_key_def key_of_candle_def)
  have v: "cr_role r = role_value (cd_role c)" "cr_category r = cd_category c" "instant (cr_close_time r) = instant (close_time c)"
    "dval (cr_open_price r) = dval (open_price c)" "dval (cr_high_price r) = dval (high_price c)"
    "dval (cr_low_price r) = dval (low_price c)" "dval (cr_close_price r) = dval (close_price c)"
    "dval (cr_volume r) = dval (volume c)" "dval (cr_turnover r) = dval (turnover c)"
    using assms(1) by (simp_all add: holds_candle_def same_values_def same_time_def)
  let ?d = "c\<lparr>open_time := aware_utc (cr_open_time r), close_time := aware_utc (cr_close_time r), open_price := cr_open_price r,
    high_price := cr_high_price r, low_price := cr_low_price r, close_price := cr_close_price r, volume := cr_volume r,
    turnover := cr_turnover r\<rparr>"
  have "candle_wf ?d" using assms(2) k(4) v by (simp add: candle_wf_def)
  then have "OhlcvCandle (candle_args ?d) = Inr ?d"
    using assms(2) by (auto simp: OhlcvCandle_Inr candle_wf_def normal_symbol_def categories_lower candle_args_def)
  then have "candle_from_record r = Inr ?d" using k(1-3) v(1,2) by (simp add: candle_from_record_def candle_args_def)
  moreover have "candle_eq ?d c" using k(4) v by (simp add: candle_eq_def)
  ultimately show ?thesis by blast
qed

lemma record_holds: "holds_candle (record_from_candle c) c"
  by (simp add: holds_candle_def row_key_def key_of_candle_def record_from_candle_def same_values_def same_time_def)

lemma set_values_holds: "row_key r = key_of_candle c \<Longrightarrow> holds_candle (set_values c r) c"
  by (simp add: holds_candle_def row_key_def set_values_def same_values_def same_time_def)

interpretation candle_table: upsert_table key_of_candle row_key record_from_candle same_values set_values holds_candle
  by unfold_locales (simp_all add: record_holds set_values_holds)

text \<open>
  The columns of a candle: texts as they are, time stamps by their instant, numbers with 18
  decimals. A candle whose numbers have no more decimals than that is kept.
\<close>

definition candle_columns :: "(candle_row \<Rightarrow> candle_row) \<Rightarrow> bool" where
  "candle_columns columns \<longleftrightarrow> (\<forall>r. let q = columns r in
     cr_source q = cr_source r \<and> cr_role q = cr_role r \<and> cr_category q = cr_category r \<and> cr_symbol q = cr_symbol r \<and>
     cr_interval q = cr_interval r \<and> instant (cr_open_time q) = instant (cr_open_time r) \<and>
     instant (cr_close_time q) = instant (cr_close_time r) \<and> numeric_column 18 (cr_open_price r) (cr_open_price q) \<and>
     numeric_column 18 (cr_high_price r) (cr_high_price q) \<and> numeric_column 18 (cr_low_price r) (cr_low_price q) \<and>
     numeric_column 18 (cr_close_price r) (cr_close_price q) \<and> numeric_column 18 (cr_volume r) (cr_volume q) \<and>
     numeric_column 18 (cr_turnover r) (cr_turnover q))"

definition candle_fits :: "candle \<Rightarrow> bool" where
  "candle_fits c \<longleftrightarrow> list_all (fits 18) [open_price c, high_price c, low_price c, close_price c, volume c, turnover c]"

lemma numeric_column_same: "numeric_column s a b \<Longrightarrow> dval a = dval d \<Longrightarrow> fits s d \<Longrightarrow> dval b = dval d"
  using numeric_column_exact [of s a b] by (simp add: fits_def)

lemma columns_keep_candle:
  assumes "candle_columns columns" "candle_fits c"
  shows "candle_table.kept columns c"
  unfolding candle_table.kept_def
proof (intro allI impI)
  fix r
  assume r: "holds_candle r c"
  let ?q = "columns r"
  have t: "row_key ?q = row_key r" "cr_role ?q = cr_role r" "cr_category ?q = cr_category r"
    "instant (cr_close_time ?q) = instant (cr_close_time r)"
    using assms(1) unfolding candle_columns_def Let_def row_key_def by simp_all
  have "numeric_column 18 (cr_open_price r) (cr_open_price ?q)" "numeric_column 18 (cr_high_price r) (cr_high_price ?q)"
    "numeric_column 18 (cr_low_price r) (cr_low_price ?q)" "numeric_column 18 (cr_close_price r) (cr_close_price ?q)"
    "numeric_column 18 (cr_volume r) (cr_volume ?q)" "numeric_column 18 (cr_turnover r) (cr_turnover ?q)"
    using assms(1) unfolding candle_columns_def Let_def by blast+
  note n = this [THEN numeric_column_same]
  show "row_key ?q = key_of_candle c \<and> same_values ?q c"
    using r assms(2) t n unfolding holds_candle_def same_values_def same_time_def candle_fits_def by simp
qed

lemma batch_keys_distinct:
  assumes "batch_wf b"
  shows "distinct (map key_of_candle (candles b))"
proof -
  have "sorted_wrt (<) (map (\<lambda>c. instant (open_time c)) (candles b))"
    using assms by (simp add: batch_wf_def chronological_def sorted_wrt_map)
  then have "distinct (map (\<lambda>c. instant (open_time c)) (candles b))" by (simp add: strict_sorted_iff)
  moreover have "map (\<lambda>c. instant (open_time c)) (candles b) = map (\<lambda>(s, y, i, t). t) (map key_of_candle (candles b))"
    by (simp add: key_of_candle_def)
  ultimately show ?thesis using distinct_map by metis
qed

lemma upsert_batch_facts:
  assumes "sql_table columns fetch_row save_row" "candle_columns columns" "keyed fetch_row row_key db" "batch_wf b"
    "\<forall>c \<in> set (candles b). candle_fits c" "upsert_batch fetch_row save_row b db = (db', n)"
  shows "\<forall>c \<in> set (candles b). candle_table.stored fetch_row db' c" "ur_total n = length (candles b)"
    "\<forall>k. k \<notin> key_of_candle ` set (candles b) \<longrightarrow> fetch_row db' k = fetch_row db k"
    "upsert_batch fetch_row save_row b db' = (db', no_rows\<lparr>ur_unchanged := length (candles b)\<rparr>)"
proof -
  have "\<forall>c \<in> set (candles b). candle_table.kept columns c" using columns_keep_candle [OF assms(2)] assms(5) by blast
  note up = candle_table.all [OF assms(1,3) this batch_keys_distinct [OF assms(4)]
    assms(6) [unfolded upsert_batch_def upsert_candle_def]]
  then show "\<forall>c \<in> set (candles b). candle_table.stored fetch_row db' c" "ur_total n = length (candles b)"
    "\<forall>k. k \<notin> key_of_candle ` set (candles b) \<longrightarrow> fetch_row db' k = fetch_row db k"
    by (simp_all add: ur_total_def no_rows_def)
  show "upsert_batch fetch_row save_row b db' = (db', no_rows\<lparr>ur_unchanged := length (candles b)\<rparr>)"
    unfolding upsert_batch_def upsert_candle_def
    using candle_table.again [of "candles b" fetch_row db'] up by (simp add: no_rows_def)
qed

text \<open>
  C19: storing a batch of candles whose numbers have at most 18 decimals is idempotent and loses nothing: afterwards
  every candle of the batch can be read back equal to itself, no other row has changed, the counters add up to the
  number of candles; and storing the same batch again changes nothing and reports every candle as unchanged.
\<close>

theorem candle_upsert_idempotent:
  assumes "sql_table columns fetch_row save_row" "candle_columns columns" "keyed fetch_row row_key db" "batch_wf b"
    "\<forall>c \<in> set (candles b). candle_wf c \<and> candle_fits c" "upsert_batch fetch_row save_row b db = (db', n)"
  shows "ur_total n = length (candles b) \<and>
    (\<forall>c \<in> set (candles b). \<exists>row d. fetch_row db' (key_of_candle c) = Some row \<and> candle_from_record row = Inr d \<and> candle_eq d c) \<and>
    (\<forall>k. k \<notin> key_of_candle ` set (candles b) \<longrightarrow> fetch_row db' k = fetch_row db k) \<and>
    upsert_batch fetch_row save_row b db' = (db', \<lparr>ur_inserted = 0, ur_updated = 0, ur_unchanged = length (candles b)\<rparr>)"
proof -
  have "\<forall>c \<in> set (candles b). candle_fits c" using assms(5) by blast
  note up = upsert_batch_facts [OF assms(1-4) this assms(6)]
  have "\<exists>row d. fetch_row db' (key_of_candle c) = Some row \<and> candle_from_record row = Inr d \<and> candle_eq d c" if "c \<in> set (candles b)" for c
    using up(1) that assms(5) holds_candle_read unfolding candle_table.stored_def holds_candle_def by blast
  then show ?thesis using up(2-4) by (simp add: no_rows_def)
qed

text \<open>A session as a map from keys to rows, with columns that round half to even.\<close>

definition sample_columns :: "candle_row \<Rightarrow> candle_row" where
  "sample_columns r = r\<lparr>cr_open_price := rounded 18 (cr_open_price r), cr_high_price := rounded 18 (cr_high_price r),
     cr_low_price := rounded 18 (cr_low_price r), cr_close_price := rounded 18 (cr_close_price r),
     cr_volume := rounded 18 (cr_volume r), cr_turnover := rounded 18 (cr_turnover r)\<rparr>"

lemma sample_columns: "candle_columns sample_columns"
  by (simp add: candle_columns_def sample_columns_def numeric_column_rounded)

lemma fits_dec: "- e \<le> s \<Longrightarrow> fits s (dec n e)"
  by (rule fits_mono [of "- e"]) (simp_all add: fits_def quantized_exact)

lemma sample_fits: "c \<in> set (sample_series H4 k ps) \<Longrightarrow> candle_fits c"
proof (induction H4 k ps rule: sample_series.induct)
  case (2 k p ps)
  then show ?case by (cases p) (auto simp: candle_fits_def sample_candle_def fits_dec)
qed simp

theorem candle_upsert_idempotent_witness:
  "\<exists>db' n. upsert_batch (\<lambda>db k. db k) (\<lambda>db k r. db(k \<mapsto> sample_columns r)) (sample_batch H4) Map.empty = (db', n) \<and>
    ur_total n = length (candles (sample_batch H4)) \<and>
    upsert_batch (\<lambda>db k. db k) (\<lambda>db k r. db(k \<mapsto> sample_columns r)) (sample_batch H4) db' =
      (db', \<lparr>ur_inserted = 0, ur_updated = 0, ur_unchanged = length (candles (sample_batch H4))\<rparr>)"
proof -
  obtain db' n where up: "upsert_batch (\<lambda>db k. db k) (\<lambda>db k r. db(k \<mapsto> sample_columns r)) (sample_batch H4) Map.empty = (db', n)"
    by fastforce
  have "\<forall>c \<in> set (candles (sample_batch H4)). candle_wf c \<and> candle_fits c"
    using sample_candles_ok sample_fits by (auto simp: candle_ok_def sample_batch_def sample_candles_def)
  then show ?thesis
    using candle_upsert_idempotent [OF sql_table_map sample_columns keyed_empty sample_batch_wf(1) _ up] up by auto
qed

end
