(* ===== verification/Htf_Models.thy ===== *)
theory Htf_Models
  imports Candles
begin

text \<open>
  \<^verbatim>\<open>app/structure/htf_models.py\<close>: support zones, structure events, the evidence of one timeframe,
  and the result of a higher-timeframe analysis. As for candles, the function of a class's name
  is its \<open>__post_init__\<close>; the records are polymorphic in the number type because arguments may
  hold non-finite Decimals and instances may not.
\<close>

datatype support_zone_state = SZ_ACTIVE | SZ_BROKEN | SZ_RECLAIMED | SZ_EXPIRED

datatype structure_event_state =
  PENDING_BREAK | CONFIRMED_BREAK | FAKE_BREAK | SE_RECLAIMED | SE_INVALIDATED

datatype timeframe_structure_status =
  TS_INTACT | TS_WATCH | TS_DAMAGED | TS_RECLAIMED | TS_INVALIDATED | TS_INSUFFICIENT

fun event_state_value :: "structure_event_state \<Rightarrow> string" where
  "event_state_value PENDING_BREAK = ''PENDING_BREAK''"
| "event_state_value CONFIRMED_BREAK = ''CONFIRMED_BREAK''"
| "event_state_value FAKE_BREAK = ''FAKE_BREAK''"
| "event_state_value SE_RECLAIMED = ''RECLAIMED''"
| "event_state_value SE_INVALIDATED = ''INVALIDATED''"

definition htf_decimal ::
  "string \<Rightarrow> decimal option \<Rightarrow> decimal option \<Rightarrow> raw_decimal \<Rightarrow> decimal result" where
  "htf_decimal name minimum maximum v =
     and_then (check_finite name v) (\<lambda>d.
       case minimum of
         Some m \<Rightarrow> if dval d < dval m then Inl (ValueError (name @ '' must be at least '' @ dec_str m))
           else (case maximum of
               Some x \<Rightarrow> if dval x < dval d
                 then Inl (ValueError (name @ '' must be at most '' @ dec_str x)) else Inr d
             | None \<Rightarrow> Inr d)
       | None \<Rightarrow> (case maximum of
               Some x \<Rightarrow> if dval x < dval d
                 then Inl (ValueError (name @ '' must be at most '' @ dec_str x)) else Inr d
             | None \<Rightarrow> Inr d))"

definition htf_interval :: "candle_interval \<Rightarrow> candle_interval result" where
  "htf_interval i =
     (if i \<notin> {D1, H4} then Inl (ValueError ''higher-timeframe evidence requires Daily or 4H'')
      else Inr i)"

definition price_floor :: decimal where
  "price_floor = dec 1 (-18)"

record 'd support_zone =
  sz_id :: string
  sz_source :: candle_source
  sz_symbol :: string
  sz_interval :: candle_interval
  sz_low :: 'd
  sz_high :: 'd
  created_at :: datetime
  confirmed_at :: datetime
  last_test_at :: datetime
  touch_count :: int
  rejection_count :: int
  strength_score :: 'd
  evidence_open_times :: "datetime list"
  sz_state :: support_zone_state
  sz_reasons :: "string list"

type_synonym raw_zone = "raw_decimal support_zone"
type_synonym zone = "decimal support_zone"

definition SupportZone :: "raw_zone \<Rightarrow> zone result" where
  "SupportZone z =
     (let ident = strip (sz_id z); symbol = upper (strip (sz_symbol z)) in
      if ident = '''' then Inl (ValueError ''zone_id is required'')
      else if symbol = '''' then Inl (ValueError ''symbol is required'')
      else and_then (htf_interval (sz_interval z)) (\<lambda>interval.
      and_then (htf_decimal ''low'' (Some price_floor) None (sz_low z)) (\<lambda>lo.
      and_then (htf_decimal ''high'' (Some price_floor) None (sz_high z)) (\<lambda>hi.
      if dval hi \<le> dval lo then Inl (ValueError ''support-zone low must be below high'')
      else and_then (require_aware ''created_at'' (created_at z)) (\<lambda>created.
      and_then (require_aware ''confirmed_at'' (confirmed_at z)) (\<lambda>confirmed.
      and_then (require_aware ''last_test_at'' (last_test_at z)) (\<lambda>tested.
      if instant confirmed < instant created
        then Inl (ValueError ''confirmed_at must not precede created_at'')
      else if instant tested < instant created
        then Inl (ValueError ''last_test_at must not precede created_at'')
      else if touch_count z < 2
        then Inl (ValueError ''support zone requires at least two touches'')
      else if rejection_count z < 0 \<or> touch_count z < rejection_count z
        then Inl (ValueError ''rejection_count must be between zero and touch_count'')
      else and_then (htf_decimal ''strength_score'' (Some (dec 0 0)) (Some (dec 100 0))
                       (strength_score z)) (\<lambda>strength.
      and_then (traverse (require_aware ''evidence_open_time'') (evidence_open_times z)) (\<lambda>evidence.
      if int (length evidence) \<noteq> touch_count z
        then Inl (ValueError ''touch_count must match evidence_open_times'')
      else if sort (remdups (map instant evidence)) \<noteq> map instant evidence
        then Inl (ValueError ''evidence_open_times must be unique and chronological'')
      else Inr \<lparr>sz_id = ident, sz_source = sz_source z, sz_symbol = symbol, sz_interval = interval,
        sz_low = lo, sz_high = hi, created_at = created, confirmed_at = confirmed,
        last_test_at = tested, touch_count = touch_count z, rejection_count = rejection_count z,
        strength_score = strength, evidence_open_times = evidence, sz_state = sz_state z,
        sz_reasons = sz_reasons z\<rparr>)))))))))"

definition midpoint :: "zone \<Rightarrow> decimal result" where
  "midpoint z = ddiv (dadd (sz_low z) (sz_high z)) (dec 2 0)"

record 'd structure_event =
  se_id :: string
  se_zone_id :: string
  se_source :: candle_source
  se_symbol :: string
  se_interval :: candle_interval
  se_state :: structure_event_state
  se_observed_at :: datetime
  se_open_time :: datetime
  se_close_price :: 'd
  se_zone_low :: 'd
  se_zone_high :: 'd
  distance_bps :: 'd
  se_body_fraction :: 'd
  se_volume_ratio :: "'d option"
  invalidates_event_id :: "string option"
  se_reasons :: "string list"

type_synonym raw_event = "raw_decimal structure_event"
type_synonym event = "decimal structure_event"

definition StructureEvent :: "raw_event \<Rightarrow> event result" where
  "StructureEvent e =
     (let ident = strip (se_id e); zident = strip (se_zone_id e); symbol = upper (strip (se_symbol e)) in
      if ident = '''' \<or> zident = '''' \<or> symbol = ''''
        then Inl (ValueError ''event_id, zone_id, and symbol are required'')
      else and_then (htf_interval (se_interval e)) (\<lambda>interval.
      and_then (require_aware ''observed_at'' (se_observed_at e)) (\<lambda>observed.
      and_then (require_aware ''candle_open_time'' (se_open_time e)) (\<lambda>opened.
      if instant observed \<le> instant opened
        then Inl (ValueError ''observed_at must follow candle_open_time'')
      else and_then (htf_decimal ''close_price'' (Some price_floor) None (se_close_price e)) (\<lambda>cl.
      and_then (htf_decimal ''zone_low'' (Some price_floor) None (se_zone_low e)) (\<lambda>lo.
      and_then (htf_decimal ''zone_high'' (Some price_floor) None (se_zone_high e)) (\<lambda>hi.
      if dval hi \<le> dval lo then Inl (ValueError ''zone_low must be below zone_high'')
      else and_then (htf_decimal ''distance_bps'' (Some (dec 0 0)) None (distance_bps e)) (\<lambda>dist.
      and_then (htf_decimal ''body_fraction'' (Some (dec 0 0)) (Some (dec 1 0)) (se_body_fraction e)) (\<lambda>body.
      and_then (case se_volume_ratio e of None \<Rightarrow> Inr None
                | Some v \<Rightarrow> and_then (htf_decimal ''volume_ratio'' (Some (dec 0 0)) None v)
                              (\<lambda>d. Inr (Some d))) (\<lambda>ratio.
      Inr \<lparr>se_id = ident, se_zone_id = zident, se_source = se_source e, se_symbol = symbol,
        se_interval = interval, se_state = se_state e, se_observed_at = observed,
        se_open_time = opened, se_close_price = cl, se_zone_low = lo, se_zone_high = hi,
        distance_bps = dist, se_body_fraction = body, se_volume_ratio = ratio,
        invalidates_event_id = invalidates_event_id e, se_reasons = se_reasons e\<rparr>))))))))))"

record timeframe_evidence =
  te_source :: candle_source
  te_symbol :: string
  te_interval :: candle_interval
  te_status :: timeframe_structure_status
  te_observed_at :: datetime
  te_zone_id :: "string option"
  te_event_id :: "string option"
  te_reasons :: "string list"

definition truthy :: "string option \<Rightarrow> bool" where
  "truthy s \<longleftrightarrow> s \<noteq> None \<and> s \<noteq> Some ''''"

definition TimeframeStructureEvidence :: "timeframe_evidence \<Rightarrow> timeframe_evidence result" where
  "TimeframeStructureEvidence e =
     (let symbol = upper (strip (te_symbol e)) in
      if symbol = '''' then Inl (ValueError ''symbol is required'')
      else and_then (htf_interval (te_interval e)) (\<lambda>interval.
      and_then (require_aware ''observed_at'' (te_observed_at e)) (\<lambda>observed.
      if te_status e = TS_DAMAGED \<and> \<not> truthy (te_event_id e)
        then Inl (ValueError ''damaged evidence requires event_id'')
      else Inr (e\<lparr>te_symbol := symbol, te_interval := interval, te_observed_at := observed\<rparr>))))"

definition damaged :: "timeframe_evidence \<Rightarrow> bool" where
  "damaged e \<longleftrightarrow> te_status e = TS_DAMAGED"

record htf_analysis =
  ha_source :: candle_source
  ha_symbol :: string
  ha_interval :: candle_interval
  ha_observed_at :: datetime
  ha_zones :: "zone list"
  ha_primary_zone :: "zone option"
  ha_events :: "event list"
  ha_evidence :: timeframe_evidence

text \<open>
  Equality of two zones, as the generated \<open>__eq__\<close> compares them: Decimals by value, aware times
  by instant.
\<close>

definition zone_eq :: "zone \<Rightarrow> zone \<Rightarrow> bool" where
  "zone_eq a b \<longleftrightarrow>
     sz_id a = sz_id b \<and> sz_source a = sz_source b \<and> sz_symbol a = sz_symbol b \<and>
     sz_interval a = sz_interval b \<and> dval (sz_low a) = dval (sz_low b) \<and>
     dval (sz_high a) = dval (sz_high b) \<and> instant (created_at a) = instant (created_at b) \<and>
     instant (confirmed_at a) = instant (confirmed_at b) \<and>
     instant (last_test_at a) = instant (last_test_at b) \<and> touch_count a = touch_count b \<and>
     rejection_count a = rejection_count b \<and>
     dval (strength_score a) = dval (strength_score b) \<and>
     map instant (evidence_open_times a) = map instant (evidence_open_times b) \<and>
     sz_state a = sz_state b \<and> sz_reasons a = sz_reasons b"

definition HtfStructureAnalysis :: "htf_analysis \<Rightarrow> htf_analysis result" where
  "HtfStructureAnalysis a =
     (let symbol = upper (strip (ha_symbol a)) in
      and_then (htf_interval (ha_interval a)) (\<lambda>interval.
      and_then (require_aware ''observed_at'' (ha_observed_at a)) (\<lambda>observed.
      if symbol = '''' then Inl (ValueError ''symbol is required'')
      else if te_symbol (ha_evidence a) \<noteq> symbol \<or> te_interval (ha_evidence a) \<noteq> interval
        then Inl (ValueError ''evidence must match analysis symbol and interval'')
      else if (case ha_primary_zone a of None \<Rightarrow> False
               | Some z \<Rightarrow> \<not> list_ex (zone_eq z) (ha_zones a))
        then Inl (ValueError ''primary_zone must be included in zones'')
      else if list_ex (\<lambda>z. sz_symbol z \<noteq> symbol \<or> sz_interval z \<noteq> interval \<or>
                            sz_source z \<noteq> ha_source a) (ha_zones a)
        then Inl (ValueError ''zone does not match analysis'')
      else if list_ex (\<lambda>e. se_symbol e \<noteq> symbol \<or> se_interval e \<noteq> interval \<or>
                            se_source e \<noteq> ha_source a) (ha_events a)
        then Inl (ValueError ''event does not match analysis'')
      else Inr (a\<lparr>ha_symbol := symbol, ha_interval := interval, ha_observed_at := observed\<rparr>))))"

section \<open>Well-formed zones, events and evidence\<close>

definition normal_id :: "string \<Rightarrow> bool" where
  "normal_id s \<longleftrightarrow> s \<noteq> '''' \<and> strip s = s"

definition htf :: "candle_interval \<Rightarrow> bool" where
  "htf i \<longleftrightarrow> i = D1 \<or> i = H4"

definition zone_wf :: "zone \<Rightarrow> bool" where
  "zone_wf z \<longleftrightarrow>
     normal_id (sz_id z) \<and> normal_symbol (sz_symbol z) \<and> htf (sz_interval z) \<and>
     dval price_floor \<le> dval (sz_low z) \<and> dval (sz_low z) < dval (sz_high z) \<and>
     aware (created_at z) \<and> aware (confirmed_at z) \<and> aware (last_test_at z) \<and>
     instant (created_at z) \<le> instant (confirmed_at z) \<and>
     instant (created_at z) \<le> instant (last_test_at z) \<and>
     2 \<le> touch_count z \<and> 0 \<le> rejection_count z \<and> rejection_count z \<le> touch_count z \<and>
     0 \<le> dval (strength_score z) \<and> dval (strength_score z) \<le> 100 \<and>
     int (length (evidence_open_times z)) = touch_count z \<and>
     (\<forall>t \<in> set (evidence_open_times z). aware t) \<and>
     sorted_wrt (<) (map instant (evidence_open_times z))"

definition zone_args :: "zone \<Rightarrow> raw_zone" where
  "zone_args z = \<lparr>sz_id = sz_id z, sz_source = sz_source z, sz_symbol = sz_symbol z,
     sz_interval = sz_interval z, sz_low = Finite (sz_low z), sz_high = Finite (sz_high z),
     created_at = created_at z, confirmed_at = confirmed_at z, last_test_at = last_test_at z,
     touch_count = touch_count z, rejection_count = rejection_count z,
     strength_score = Finite (strength_score z), evidence_open_times = evidence_open_times z,
     sz_state = sz_state z, sz_reasons = sz_reasons z\<rparr>"

definition event_wf :: "event \<Rightarrow> bool" where
  "event_wf e \<longleftrightarrow>
     normal_id (se_id e) \<and> normal_id (se_zone_id e) \<and> normal_symbol (se_symbol e) \<and>
     htf (se_interval e) \<and> aware (se_observed_at e) \<and> aware (se_open_time e) \<and>
     instant (se_open_time e) < instant (se_observed_at e) \<and>
     dval price_floor \<le> dval (se_close_price e) \<and> dval price_floor \<le> dval (se_zone_low e) \<and>
     dval (se_zone_low e) < dval (se_zone_high e) \<and> 0 \<le> dval (distance_bps e) \<and>
     0 \<le> dval (se_body_fraction e) \<and> dval (se_body_fraction e) \<le> 1 \<and>
     (case se_volume_ratio e of None \<Rightarrow> True | Some v \<Rightarrow> 0 \<le> dval v)"

definition event_args :: "event \<Rightarrow> raw_event" where
  "event_args e = \<lparr>se_id = se_id e, se_zone_id = se_zone_id e, se_source = se_source e,
     se_symbol = se_symbol e, se_interval = se_interval e, se_state = se_state e,
     se_observed_at = se_observed_at e, se_open_time = se_open_time e,
     se_close_price = Finite (se_close_price e), se_zone_low = Finite (se_zone_low e),
     se_zone_high = Finite (se_zone_high e), distance_bps = Finite (distance_bps e),
     se_body_fraction = Finite (se_body_fraction e),
     se_volume_ratio = map_option Finite (se_volume_ratio e),
     invalidates_event_id = invalidates_event_id e, se_reasons = se_reasons e\<rparr>"

definition evidence_wf :: "timeframe_evidence \<Rightarrow> bool" where
  "evidence_wf e \<longleftrightarrow>
     normal_symbol (te_symbol e) \<and> htf (te_interval e) \<and> aware (te_observed_at e) \<and>
     (te_status e = TS_DAMAGED \<longrightarrow> truthy (te_event_id e))"

lemma check_finite_Inr [result_simps]: "check_finite name v = Inr d \<longleftrightarrow> v = Finite d"
  by (cases v) (auto simp: check_finite_def)

lemma htf_decimal_Inr [result_simps]:
  "htf_decimal name mn mx v = Inr d \<longleftrightarrow>
     v = Finite d \<and> (case mn of None \<Rightarrow> True | Some m \<Rightarrow> dval m \<le> dval d) \<and>
     (case mx of None \<Rightarrow> True | Some x \<Rightarrow> dval d \<le> dval x)"
  by (auto simp: htf_decimal_def result_simps not_less split: option.splits)

lemma htf_interval_Inr [result_simps]: "htf_interval i = Inr j \<longleftrightarrow> htf i \<and> j = i"
  by (auto simp: htf_interval_def htf_def)

lemma traverse_require_aware [result_simps]:
  "traverse (require_aware name) ts = Inr us \<longleftrightarrow> (\<forall>t \<in> set ts. aware t) \<and> us = ts"
  by (induction ts arbitrary: us) (auto simp: result_simps)

lemma sort_remdups_eq: "sort (remdups xs) = xs \<longleftrightarrow> sorted_wrt (<) (xs :: 'a::linorder list)"
proof
  assume "sort (remdups xs) = xs"
  then have "sorted xs \<and> distinct xs" by (metis distinct_remdups distinct_sort sorted_sort)
  then show "sorted_wrt (<) xs" by (simp add: strict_sorted_iff)
next
  assume "sorted_wrt (<) xs"
  then show "sort (remdups xs) = xs"
    by (simp add: strict_sorted_iff distinct_remdups_id sorted_sort_id)
qed

lemma price_floor_pos: "0 < dval price_floor"
  by (simp add: price_floor_def)

lemma SupportZone_Inr:
  "SupportZone a = Inr z \<longleftrightarrow>
     zone_wf z \<and> zone_args z = a\<lparr>sz_id := sz_id z, sz_symbol := sz_symbol z\<rparr> \<and>
     sz_id z = strip (sz_id a) \<and> sz_symbol z = upper (strip (sz_symbol a))"
  by (cases a; cases z)
    (auto simp: SupportZone_def Let_def result_simps zone_wf_def zone_args_def normal_symbol_def
      normal_id_def sort_remdups_eq not_less not_le)

lemma SupportZone_wf: "SupportZone a = Inr z \<Longrightarrow> zone_wf z"
  by (simp add: SupportZone_Inr)

lemma StructureEvent_Inr:
  "StructureEvent a = Inr e \<longleftrightarrow>
     event_wf e \<and> event_args e = a\<lparr>se_id := se_id e, se_zone_id := se_zone_id e, se_symbol := se_symbol e\<rparr> \<and>
     se_id e = strip (se_id a) \<and> se_zone_id e = strip (se_zone_id a) \<and>
     se_symbol e = upper (strip (se_symbol a))"
  by (cases a; cases e)
    (auto simp: StructureEvent_def Let_def result_simps event_wf_def event_args_def normal_symbol_def
      normal_id_def not_less not_le split: option.splits)

lemma StructureEvent_wf: "StructureEvent a = Inr e \<Longrightarrow> event_wf e"
  by (simp add: StructureEvent_Inr)

lemma TimeframeStructureEvidence_Inr:
  "TimeframeStructureEvidence a = Inr e \<longleftrightarrow>
     evidence_wf e \<and> e = a\<lparr>te_symbol := upper (strip (te_symbol a))\<rparr>"
  by (cases a; cases e)
    (auto simp: TimeframeStructureEvidence_def Let_def result_simps evidence_wf_def
      normal_symbol_def)

end
