(* ===== verification/Reclaim_Models.thy ===== *)
theory Reclaim_Models
  imports Htf_Models
begin

text \<open>
  \<^verbatim>\<open>app/setups/reclaim_models.py\<close>: the rules of the reclaim analysis and the record of one reclaim
  attempt, with the checks that keep impossible combinations of outcome, setup type, readiness
  and evidence from being constructed.
\<close>

datatype reclaim_outcome =
    NO_ATTEMPT | ATTEMPTING | SUCCESSFUL_RECLAIM | FAILED_RECLAIM | FAILED_PULLBACK
  | CONTINUATION | RO_EXPIRED | RO_INVALIDATED

datatype derived_setup_type =
  DS_NONE | BREAKDOWN_SHORT | FAILED_PULLBACK_SHORT | CONTINUATION_SHORT

datatype setup_readiness = SR_WATCH | QUALIFIED | CANCELLED | SR_EXPIRED | SR_INVALIDATED

text \<open>The module's \<open>_decimal\<close> is the same code as that of \<^verbatim>\<open>htf_models.py\<close>.\<close>

definition reclaim_decimal ::
  "string \<Rightarrow> decimal option \<Rightarrow> decimal option \<Rightarrow> raw_decimal \<Rightarrow> decimal result" where
  "reclaim_decimal = htf_decimal"

record 'd reclaim_rules =
  successful_h4_closes :: int
  successful_m15_closes :: int
  minimum_attempt_penetration_bps :: 'd
  maximum_failed_reclaim_penetration_bps :: 'd
  maximum_bounce_volume_ratio :: 'd
  minimum_rejection_body_fraction :: 'd
  minimum_rejection_distance_bps :: 'd
  maximum_pullback_bars :: int
  maximum_setup_age_bars :: int
  continuation_minimum_bars :: int

definition ReclaimRules :: "raw_decimal reclaim_rules \<Rightarrow> decimal reclaim_rules result" where
  "ReclaimRules r =
     (if successful_h4_closes r < 1 then Inl (ValueError ''successful_h4_closes must be positive'')
      else if successful_m15_closes r < 1
        then Inl (ValueError ''successful_m15_closes must be positive'')
      else and_then (reclaim_decimal ''minimum_attempt_penetration_bps'' (Some (dec 0 0)) None
        (minimum_attempt_penetration_bps r)) (\<lambda>attempt.
      and_then (reclaim_decimal ''maximum_failed_reclaim_penetration_bps'' (Some (dec 0 0)) None
        (maximum_failed_reclaim_penetration_bps r)) (\<lambda>failed.
      and_then (reclaim_decimal ''maximum_bounce_volume_ratio'' (Some (dec 0 0)) None
        (maximum_bounce_volume_ratio r)) (\<lambda>ratio.
      and_then (reclaim_decimal ''minimum_rejection_body_fraction'' (Some (dec 0 0)) None
        (minimum_rejection_body_fraction r)) (\<lambda>body.
      and_then (reclaim_decimal ''minimum_rejection_distance_bps'' (Some (dec 0 0)) None
        (minimum_rejection_distance_bps r)) (\<lambda>gap.
      if dval (dec 10 0) < dval ratio
        then Inl (ValueError ''maximum_bounce_volume_ratio is unreasonably large'')
      else if dval (dec 1 0) < dval body
        then Inl (ValueError ''minimum_rejection_body_fraction must not exceed one'')
      else if maximum_pullback_bars r < 1
        then Inl (ValueError ''maximum_pullback_bars must be positive'')
      else if maximum_setup_age_bars r < maximum_pullback_bars r
        then Inl (ValueError ''maximum_setup_age_bars must cover the pullback window'')
      else if continuation_minimum_bars r < 2
        then Inl (ValueError ''continuation_minimum_bars must be at least two'')
      else Inr \<lparr>successful_h4_closes = successful_h4_closes r,
        successful_m15_closes = successful_m15_closes r, minimum_attempt_penetration_bps = attempt,
        maximum_failed_reclaim_penetration_bps = failed, maximum_bounce_volume_ratio = ratio,
        minimum_rejection_body_fraction = body, minimum_rejection_distance_bps = gap,
        maximum_pullback_bars = maximum_pullback_bars r,
        maximum_setup_age_bars = maximum_setup_age_bars r,
        continuation_minimum_bars = continuation_minimum_bars r\<rparr>))))))"

definition default_reclaim_rules :: "decimal reclaim_rules" where
  "default_reclaim_rules = \<lparr>successful_h4_closes = 1, successful_m15_closes = 2,
     minimum_attempt_penetration_bps = dec 5 0, maximum_failed_reclaim_penetration_bps = dec 100 0,
     maximum_bounce_volume_ratio = dec 85 (-2), minimum_rejection_body_fraction = dec 25 (-2),
     minimum_rejection_distance_bps = dec 5 0, maximum_pullback_bars = 12,
     maximum_setup_age_bars = 30, continuation_minimum_bars = 3\<rparr>"

record 'd reclaim_attempt =
  ra_id :: string
  ra_break_event_id :: string
  ra_zone_id :: string
  ra_source :: candle_source
  ra_symbol :: string
  ra_structure_interval :: candle_interval
  ra_started_at :: datetime
  ra_observed_at :: datetime
  ra_outcome :: reclaim_outcome
  ra_setup_type :: derived_setup_type
  ra_readiness :: setup_readiness
  ra_zone_low :: 'd
  ra_zone_high :: 'd
  ra_maximum_price :: 'd
  ra_maximum_penetration_bps :: 'd
  ra_duration_bars :: int
  ra_closes_above_zone :: int
  ra_bars_above_zone :: int
  ra_bounce_volume_ratio :: "'d option"
  ra_rejection_open :: "datetime option"
  ra_rejection_low :: "'d option"
  ra_trigger_open :: "datetime option"
  ra_quality_score :: 'd
  ra_reasons :: "string list"
  ra_warnings :: "string list"

type_synonym raw_attempt = "raw_decimal reclaim_attempt"
type_synonym attempt = "decimal reclaim_attempt"

definition opt_check :: "('a \<Rightarrow> 'b result) \<Rightarrow> 'a option \<Rightarrow> 'b option result" where
  "opt_check f x = (case x of None \<Rightarrow> Inr None | Some v \<Rightarrow> and_then (f v) (\<lambda>w. Inr (Some w)))"

text \<open>The checks of \<open>ReclaimAttempt.__post_init__\<close> on counters and evidence times (lines 211 to 222).\<close>

definition check_evidence ::
  "raw_attempt \<Rightarrow> datetime option \<Rightarrow> decimal option \<Rightarrow> datetime option \<Rightarrow> unit result" where
  "check_evidence a rejection low trigger =
     (if ra_duration_bars a < 0 then Inl (ValueError ''duration_bars must be non-negative'')
      else if ra_closes_above_zone a < 0 \<or> ra_bars_above_zone a < 0
        then Inl (ValueError ''zone counters must be non-negative'')
      else if ra_bars_above_zone a < ra_closes_above_zone a
        then Inl (ValueError ''closes_above_zone cannot exceed bars_above_zone'')
      else if (rejection = None) \<noteq> (low = None)
        then Inl (ValueError ''rejection time and low must be provided together'')
      else if trigger \<noteq> None \<and> rejection = None
        then Inl (ValueError ''trigger evidence requires rejection evidence'')
      else if trigger \<noteq> None \<and> instant (the trigger) \<le> instant (the rejection)
        then Inl (ValueError ''trigger candle must follow the rejection candle'')
      else Inr ())"

text \<open>The checks on outcome, setup type and readiness (lines 224 to 243).\<close>

definition check_combination ::
  "raw_attempt \<Rightarrow> datetime option \<Rightarrow> datetime option \<Rightarrow> unit result" where
  "check_combination a rejection trigger =
     (if ra_outcome a = SUCCESSFUL_RECLAIM \<and> ra_readiness a \<noteq> CANCELLED
        then Inl (ValueError ''successful reclaim must cancel the short setup'')
      else if ra_outcome a = SUCCESSFUL_RECLAIM \<and> ra_setup_type a \<noteq> DS_NONE
        then Inl (ValueError ''successful reclaim cannot retain a short setup type'')
      else if ra_outcome a = FAILED_PULLBACK \<and> ra_setup_type a \<noteq> FAILED_PULLBACK_SHORT
        then Inl (ValueError ''failed pullback must map to FAILED_PULLBACK_SHORT'')
      else if ra_outcome a = FAILED_PULLBACK \<and> ra_readiness a \<noteq> QUALIFIED
        then Inl (ValueError ''failed pullback must be qualified'')
      else if ra_outcome a = FAILED_PULLBACK \<and> (rejection = None \<or> trigger = None)
        then Inl (ValueError ''failed pullback requires rejection and trigger evidence'')
      else if ra_readiness a = QUALIFIED \<and> ra_setup_type a = DS_NONE
        then Inl (ValueError ''qualified evidence requires a setup type'')
      else if ra_readiness a \<in> {CANCELLED, SR_EXPIRED, SR_INVALIDATED} \<and> ra_setup_type a \<noteq> DS_NONE
        then Inl (ValueError ''inactive setup evidence cannot retain a setup type'')
      else Inr ())"

definition ReclaimAttempt :: "raw_attempt \<Rightarrow> attempt result" where
  "ReclaimAttempt a =
     (let ident = strip (ra_id a); break_id = strip (ra_break_event_id a);
          zident = strip (ra_zone_id a); symbol = upper (strip (ra_symbol a)) in
      if ident = '''' \<or> break_id = '''' \<or> zident = '''' \<or> symbol = ''''
        then Inl (ValueError ''attempt, break-event, zone, and symbol identifiers are required'')
      else if ra_structure_interval a \<notin> {D1, H4}
        then Inl (ValueError ''reclaim attempt requires Daily or 4H structure evidence'')
      else and_then (require_aware ''started_at'' (ra_started_at a)) (\<lambda>started.
      and_then (require_aware ''observed_at'' (ra_observed_at a)) (\<lambda>observed.
      if instant observed < instant started
        then Inl (ValueError ''observed_at must not precede started_at'')
      else and_then (reclaim_decimal ''zone_low'' (Some price_floor) None (ra_zone_low a)) (\<lambda>lo.
      and_then (reclaim_decimal ''zone_high'' (Some price_floor) None (ra_zone_high a)) (\<lambda>hi.
      and_then (reclaim_decimal ''maximum_price'' (Some price_floor) None (ra_maximum_price a)) (\<lambda>top.
      if dval hi \<le> dval lo then Inl (ValueError ''zone_low must be below zone_high'')
      else and_then (reclaim_decimal ''maximum_penetration_bps'' (Some (dec 0 0)) None
        (ra_maximum_penetration_bps a)) (\<lambda>penetration.
      and_then (reclaim_decimal ''quality_score'' (Some (dec 0 0)) (Some (dec 100 0))
        (ra_quality_score a)) (\<lambda>quality.
      and_then (opt_check (reclaim_decimal ''bounce_volume_ratio'' (Some (dec 0 0)) None)
        (ra_bounce_volume_ratio a)) (\<lambda>ratio.
      and_then (opt_check (reclaim_decimal ''rejection_low'' (Some price_floor) None)
        (ra_rejection_low a)) (\<lambda>rlow.
      and_then (opt_check (require_aware ''rejection_candle_open_time'') (ra_rejection_open a)) (\<lambda>rejection.
      and_then (opt_check (require_aware ''trigger_candle_open_time'') (ra_trigger_open a)) (\<lambda>trigger.
      and_then (check_evidence a rejection rlow trigger) (\<lambda>_.
      and_then (check_combination a rejection trigger) (\<lambda>_.
      Inr \<lparr>ra_id = ident, ra_break_event_id = break_id, ra_zone_id = zident,
        ra_source = ra_source a, ra_symbol = symbol,
        ra_structure_interval = ra_structure_interval a, ra_started_at = started,
        ra_observed_at = observed, ra_outcome = ra_outcome a, ra_setup_type = ra_setup_type a,
        ra_readiness = ra_readiness a, ra_zone_low = lo, ra_zone_high = hi,
        ra_maximum_price = top, ra_maximum_penetration_bps = penetration,
        ra_duration_bars = ra_duration_bars a, ra_closes_above_zone = ra_closes_above_zone a,
        ra_bars_above_zone = ra_bars_above_zone a, ra_bounce_volume_ratio = ratio,
        ra_rejection_open = rejection, ra_rejection_low = rlow, ra_trigger_open = trigger,
        ra_quality_score = quality, ra_reasons = ra_reasons a, ra_warnings = ra_warnings a\<rparr>))))))))))))))"

section \<open>Well-formed attempts\<close>

definition triggered_after :: "datetime option \<Rightarrow> datetime option \<Rightarrow> bool" where
  "triggered_after rejection trigger \<longleftrightarrow>
     (case trigger of None \<Rightarrow> True | Some t \<Rightarrow>
        (case rejection of None \<Rightarrow> False | Some s \<Rightarrow> instant s < instant t))"

definition attempt_wf :: "attempt \<Rightarrow> bool" where
  "attempt_wf a \<longleftrightarrow>
     normal_id (ra_id a) \<and> normal_id (ra_break_event_id a) \<and> normal_id (ra_zone_id a) \<and>
     normal_symbol (ra_symbol a) \<and> htf (ra_structure_interval a) \<and>
     aware (ra_started_at a) \<and> aware (ra_observed_at a) \<and>
     instant (ra_started_at a) \<le> instant (ra_observed_at a) \<and>
     dval price_floor \<le> dval (ra_zone_low a) \<and> dval (ra_zone_low a) < dval (ra_zone_high a) \<and>
     dval price_floor \<le> dval (ra_maximum_price a) \<and> 0 \<le> dval (ra_maximum_penetration_bps a) \<and>
     0 \<le> dval (ra_quality_score a) \<and> dval (ra_quality_score a) \<le> 100 \<and>
     (case ra_bounce_volume_ratio a of None \<Rightarrow> True | Some d \<Rightarrow> dval (dec 0 0) \<le> dval d) \<and>
     (case ra_rejection_low a of None \<Rightarrow> True | Some d \<Rightarrow> dval price_floor \<le> dval d) \<and>
     (case ra_rejection_open a of None \<Rightarrow> True | Some t \<Rightarrow> aware t) \<and>
     (case ra_trigger_open a of None \<Rightarrow> True | Some t \<Rightarrow> aware t) \<and>
     0 \<le> ra_duration_bars a \<and> 0 \<le> ra_closes_above_zone a \<and>
     ra_closes_above_zone a \<le> ra_bars_above_zone a \<and>
     (ra_rejection_open a = None \<longleftrightarrow> ra_rejection_low a = None) \<and>
     triggered_after (ra_rejection_open a) (ra_trigger_open a) \<and>
     (ra_outcome a = SUCCESSFUL_RECLAIM \<longrightarrow> ra_readiness a = CANCELLED \<and> ra_setup_type a = DS_NONE) \<and>
     (ra_outcome a = FAILED_PULLBACK \<longrightarrow> ra_setup_type a = FAILED_PULLBACK_SHORT \<and>
        ra_readiness a = QUALIFIED \<and> ra_rejection_open a \<noteq> None \<and> ra_trigger_open a \<noteq> None) \<and>
     (ra_readiness a = QUALIFIED \<longrightarrow> ra_setup_type a \<noteq> DS_NONE) \<and>
     (ra_readiness a \<in> {CANCELLED, SR_EXPIRED, SR_INVALIDATED} \<longrightarrow> ra_setup_type a = DS_NONE)"

lemma reclaim_decimal_Inr [result_simps]:
  "reclaim_decimal name mn mx v = Inr d \<longleftrightarrow>
     v = Finite d \<and> (case mn of None \<Rightarrow> True | Some m \<Rightarrow> dval m \<le> dval d) \<and>
     (case mx of None \<Rightarrow> True | Some x \<Rightarrow> dval d \<le> dval x)"
  by (simp add: reclaim_decimal_def htf_decimal_Inr)

lemma opt_check_decimal [result_simps]:
  "opt_check (reclaim_decimal name (Some m) None) v = Inr w \<longleftrightarrow>
     v = map_option Finite w \<and> (case w of None \<Rightarrow> True | Some d \<Rightarrow> dval m \<le> dval d)"
  by (cases v; cases w) (auto simp: opt_check_def result_simps)

lemma opt_check_aware [result_simps]:
  "opt_check (require_aware name) v = Inr w \<longleftrightarrow>
     w = v \<and> (case v of None \<Rightarrow> True | Some t \<Rightarrow> aware t)"
  by (cases v) (auto simp: opt_check_def result_simps)

lemma check_evidence_Inr:
  "check_evidence a rejection low trigger = Inr u \<longleftrightarrow>
     0 \<le> ra_duration_bars a \<and> 0 \<le> ra_closes_above_zone a \<and>
     ra_closes_above_zone a \<le> ra_bars_above_zone a \<and> (rejection = None \<longleftrightarrow> low = None) \<and>
     triggered_after rejection trigger"
  by (cases trigger; cases rejection; cases low) (auto simp: check_evidence_def triggered_after_def)

lemma check_combination_Inr:
  "check_combination a rejection trigger = Inr u \<longleftrightarrow>
     (ra_outcome a = SUCCESSFUL_RECLAIM \<longrightarrow> ra_readiness a = CANCELLED \<and> ra_setup_type a = DS_NONE) \<and>
     (ra_outcome a = FAILED_PULLBACK \<longrightarrow> ra_setup_type a = FAILED_PULLBACK_SHORT \<and>
        ra_readiness a = QUALIFIED \<and> rejection \<noteq> None \<and> trigger \<noteq> None) \<and>
     (ra_readiness a = QUALIFIED \<longrightarrow> ra_setup_type a \<noteq> DS_NONE) \<and>
     (ra_readiness a \<in> {CANCELLED, SR_EXPIRED, SR_INVALIDATED} \<longrightarrow> ra_setup_type a = DS_NONE)"
  unfolding check_combination_def by auto

lemma ReclaimAttempt_wf: "ReclaimAttempt a = Inr b \<Longrightarrow> attempt_wf b"
  unfolding ReclaimAttempt_def Let_def reclaim_decimal_def [symmetric]
  by (clarsimp simp: result_simps check_evidence_Inr check_combination_Inr attempt_wf_def
      normal_symbol_def normal_id_def htf_def not_less not_le)

lemma ReclaimAttempt_fields:
  "ReclaimAttempt a = Inr b \<Longrightarrow>
     ra_outcome b = ra_outcome a \<and> ra_setup_type b = ra_setup_type a \<and> ra_readiness b = ra_readiness a \<and>
     ra_started_at b = ra_started_at a \<and> ra_observed_at b = ra_observed_at a \<and>
     ra_rejection_open b = ra_rejection_open a \<and> ra_trigger_open b = ra_trigger_open a \<and>
     ra_break_event_id b = strip (ra_break_event_id a) \<and> ra_zone_id b = strip (ra_zone_id a)"
  unfolding ReclaimAttempt_def Let_def by (clarsimp simp: result_simps)

lemma ReclaimAttempt_succeeds:
  assumes "strip (ra_id a) \<noteq> ''''" "strip (ra_break_event_id a) \<noteq> ''''" "strip (ra_zone_id a) \<noteq> ''''"
    "strip (ra_symbol a) \<noteq> ''''" "htf (ra_structure_interval a)" "aware (ra_started_at a)"
    "aware (ra_observed_at a)" "instant (ra_started_at a) \<le> instant (ra_observed_at a)"
    "ra_zone_low a = Finite lo" "ra_zone_high a = Finite hi" "ra_maximum_price a = Finite peak"
    "dval price_floor \<le> dval lo" "dval lo < dval hi" "dval price_floor \<le> dval peak"
    "ra_maximum_penetration_bps a = Finite pen" "0 \<le> dval pen"
    "ra_quality_score a = Finite q" "0 \<le> dval q" "dval q \<le> 100"
    "ra_bounce_volume_ratio a = map_option Finite w" "case w of None \<Rightarrow> True | Some d \<Rightarrow> dval (dec 0 0) \<le> dval d"
    "ra_rejection_low a = map_option Finite rl"
    "case rl of None \<Rightarrow> True | Some d \<Rightarrow> dval price_floor \<le> dval d"
    "case ra_rejection_open a of None \<Rightarrow> True | Some t \<Rightarrow> aware t"
    "case ra_trigger_open a of None \<Rightarrow> True | Some t \<Rightarrow> aware t"
    "check_evidence a (ra_rejection_open a) rl (ra_trigger_open a) = Inr ()"
    "check_combination a (ra_rejection_open a) (ra_trigger_open a) = Inr ()"
  shows "\<exists>b. ReclaimAttempt a = Inr b"
proof -
  have "opt_check (reclaim_decimal ''rejection_low'' (Some price_floor) None) (map_option Finite rl) = Inr rl"
    using assms(23) by (simp add: opt_check_decimal)
  moreover have "opt_check (require_aware ''rejection_candle_open_time'') (ra_rejection_open a)
      = Inr (ra_rejection_open a)"
    "opt_check (require_aware ''trigger_candle_open_time'') (ra_trigger_open a) = Inr (ra_trigger_open a)"
    using assms(24,25) by (simp_all add: opt_check_aware)
  moreover from assms(12,13) have hi: "dval price_floor \<le> dval hi" by linarith
  moreover have "opt_check (reclaim_decimal ''bounce_volume_ratio'' (Some (dec 0 0)) None)
      (map_option Finite w) = Inr w" using assms(21) by (simp add: opt_check_decimal)
  moreover have "reclaim_decimal n (Some price_floor) None (Finite lo) = Inr lo"
    "reclaim_decimal n (Some price_floor) None (Finite hi) = Inr hi"
    "reclaim_decimal n (Some price_floor) None (Finite peak) = Inr peak"
    "reclaim_decimal n (Some (dec 0 0)) None (Finite pen) = Inr pen"
    "reclaim_decimal n (Some (dec 0 0)) (Some (dec 100 0)) (Finite q) = Inr q" for n
    using assms(12,14,16,18,19) hi by (simp_all add: reclaim_decimal_Inr)
  moreover have "require_aware n (ra_started_at a) = Inr (ra_started_at a)"
    "require_aware n (ra_observed_at a) = Inr (ra_observed_at a)" for n
    using assms(6,7) by (simp_all add: require_aware_Inr)
  ultimately show ?thesis
    using assms unfolding ReclaimAttempt_def Let_def htf_def by auto
qed

end
