(* ===== verification/Sha256.thy ===== *)
theory Sha256
  imports Prelude "HOL-Library.Word"
begin

text \<open>
  \<open>hashlib.sha256(...).hexdigest()\<close>, the identifier of zones, events and attempts: SHA-256 over
  the bytes of the text, on 32-bit words. The lemmas fix the form of an identifier: 64
  hexadecimal digits, none of them white space.
\<close>

unbundle bit_operations_syntax

type_synonym u32 = "32 word"

definition rotr :: "nat \<Rightarrow> u32 \<Rightarrow> u32" where
  "rotr n x = drop_bit n x OR push_bit (32 - n) x"

definition ch :: "u32 \<Rightarrow> u32 \<Rightarrow> u32 \<Rightarrow> u32" where
  "ch x y z = (x AND y) XOR (NOT x AND z)"

definition maj :: "u32 \<Rightarrow> u32 \<Rightarrow> u32 \<Rightarrow> u32" where
  "maj x y z = (x AND y) XOR (x AND z) XOR (y AND z)"

definition big_sigma0 :: "u32 \<Rightarrow> u32" where
  "big_sigma0 x = rotr 2 x XOR rotr 13 x XOR rotr 22 x"

definition big_sigma1 :: "u32 \<Rightarrow> u32" where
  "big_sigma1 x = rotr 6 x XOR rotr 11 x XOR rotr 25 x"

definition small_sigma0 :: "u32 \<Rightarrow> u32" where
  "small_sigma0 x = rotr 7 x XOR rotr 18 x XOR drop_bit 3 x"

definition small_sigma1 :: "u32 \<Rightarrow> u32" where
  "small_sigma1 x = rotr 17 x XOR rotr 19 x XOR drop_bit 10 x"

text \<open>
  The constants of the standard, eight 32-bit words to a number: the fractional parts of the cube
  roots of the first 64 primes, and of the square roots of the first eight.
\<close>

fun words_of :: "nat \<Rightarrow> int \<Rightarrow> u32 list" where
  "words_of 0 n = []"
| "words_of (Suc k) n = words_of k (n div 4294967296) @ [word_of_int n]"

definition round_constants :: "u32 list" where
  "round_constants = concat (map (words_of 8)
    [0x428a2f9871374491b5c0fbcfe9b5dba53956c25b59f111f1923f82a4ab1c5ed5,
     0xd807aa9812835b01243185be550c7dc372be5d7480deb1fe9bdc06a7c19bf174,
     0xe49b69c1efbe47860fc19dc6240ca1cc2de92c6f4a7484aa5cb0a9dc76f988da,
     0x983e5152a831c66db00327c8bf597fc7c6e00bf3d5a7914706ca635114292967,
     0x27b70a852e1b21384d2c6dfc53380d13650a7354766a0abb81c2c92e92722c85,
     0xa2bfe8a1a81a664bc24b8b70c76c51a3d192e819d6990624f40e3585106aa070,
     0x19a4c1161e376c082748774c34b0bcb5391c0cb34ed8aa4a5b9cca4f682e6ff3,
     0x748f82ee78a5636f84c878148cc7020890befffaa4506cebbef9a3f7c67178f2])"

definition initial_hash :: "u32 list" where
  "initial_hash = words_of 8
    0x6a09e667bb67ae853c6ef372a54ff53a510e527f9b05688c1f83d9ab5be0cd19"

text \<open>The message schedule keeps the words in reverse, newest first.\<close>

fun extend :: "nat \<Rightarrow> u32 list \<Rightarrow> u32 list" where
  "extend 0 ws = ws"
| "extend (Suc n) ws =
     extend n ((small_sigma1 (ws ! 1) + ws ! 6 + small_sigma0 (ws ! 14) + ws ! 15) # ws)"

fun sha_round :: "u32 list \<Rightarrow> u32 \<times> u32 \<Rightarrow> u32 list" where
  "sha_round [a, b, c, d, e, f, g, h] (k, w) =
     (let t1 = h + big_sigma1 e + ch e f g + k + w; t2 = big_sigma0 a + maj a b c
      in [t1 + t2, a, b, c, d + t1, e, f, g])"
| "sha_round s kw = s"

definition compress :: "u32 list \<Rightarrow> u32 list \<Rightarrow> u32 list" where
  "compress hs block =
     map2 (+) hs (foldl sha_round hs (zip round_constants (rev (extend 48 (rev block)))))"

definition word_of_bytes :: "int list \<Rightarrow> u32" where
  "word_of_bytes bs = word_of_int (foldl (\<lambda>n b. n * 256 + b) 0 bs)"

fun chunks :: "nat \<Rightarrow> 'a list \<Rightarrow> 'a list list" where
  "chunks n [] = []"
| "chunks n (x # xs) = take (Suc n) (x # xs) # chunks n (drop n xs)"

fun be_bytes :: "nat \<Rightarrow> int \<Rightarrow> int list" where
  "be_bytes 0 n = []"
| "be_bytes (Suc k) n = be_bytes k (n div 256) @ [n mod 256]"

definition sha_pad :: "int list \<Rightarrow> int list" where
  "sha_pad bs =
     (let l = length bs
      in bs @ [128] @ replicate ((119 - l mod 64) mod 64) 0 @ be_bytes 8 (8 * int l))"

definition byte_of_char :: "char \<Rightarrow> int" where
  "byte_of_char c = of_char c"

definition sha256 :: "string \<Rightarrow> u32 list" where
  "sha256 s =
     foldl compress initial_hash
       (chunks 15 (map word_of_bytes (chunks 3 (sha_pad (map byte_of_char s)))))"

definition hex_word :: "u32 \<Rightarrow> string" where
  "hex_word w = map (\<lambda>i. ''0123456789abcdef'' ! nat (uint w div 16 ^ i mod 16)) (rev [0..<8])"

definition sha256_hexdigest :: "string \<Rightarrow> string" where
  "sha256_hexdigest s = concat (map hex_word (sha256 s))"

lemma length_words_of [simp]: "length (words_of k n) = k"
  by (induction k arbitrary: n) simp_all

lemma length_sha_round [simp]: "length (sha_round s kw) = length s"
  by (cases "(s, kw)" rule: sha_round.cases) (simp_all add: Let_def)

lemma length_foldl_sha_round [simp]: "length (foldl sha_round s kws) = length s"
  by (induction kws arbitrary: s) simp_all

lemma length_compress [simp]: "length (compress hs block) = length hs"
  by (simp add: compress_def)

lemma length_sha256 [simp]: "length (sha256 s) = 8"
proof -
  have "length (foldl compress hs bs) = length hs" for hs bs
    by (induction bs arbitrary: hs) simp_all
  then show ?thesis by (simp add: sha256_def initial_hash_def)
qed

lemma length_hex_word [simp]: "length (hex_word w) = 8"
  by (simp add: hex_word_def)

lemma length_hexdigest [simp]: "length (sha256_hexdigest s) = 64"
proof -
  have "length (concat (map hex_word ws)) = 8 * length ws" for ws
    by (induction ws) simp_all
  then show ?thesis by (simp add: sha256_hexdigest_def)
qed

lemma hex_word_digit: "c \<in> set (hex_word w) \<Longrightarrow> c \<in> set ''0123456789abcdef''"
proof -
  assume "c \<in> set (hex_word w)"
  then obtain i where c: "c = ''0123456789abcdef'' ! nat (uint w div 16 ^ i mod 16)"
    by (auto simp: hex_word_def)
  have "nat (uint w div 16 ^ i mod 16) < length ''0123456789abcdef''"
    by (simp add: nat_less_iff)
  then show ?thesis unfolding c by (rule nth_mem)
qed

lemma hexdigest_digit: "c \<in> set (sha256_hexdigest s) \<Longrightarrow> c \<in> set ''0123456789abcdef''"
  by (auto simp: sha256_hexdigest_def simp del: list.set dest: hex_word_digit)

lemma hexdigest_no_space: "c \<in> set (sha256_hexdigest s) \<Longrightarrow> \<not> is_space c"
  by (drule hexdigest_digit) (auto simp: is_space_def spaces_def)

end
