(* ===== verification/Support_Zones.thy ===== *)
theory Support_Zones
  imports Htf_Models Sha256 Samples
begin

text \<open>
  \<^verbatim>\<open>app/structure/support_zones.py\<close>: support zones derived from the lows of Daily or 4H candles.
  Pivot lows are found in a sliding window, thinned to a minimum separation, clustered by price,
  and each large enough cluster becomes a padded, scored and identified zone.
\<close>

definition BPS :: decimal where
  "BPS = dec 10000 0"

record 'd zone_rules =
  pivot_left :: int
  pivot_right :: int
  minimum_touches :: int
  minimum_touch_separation :: int
  cluster_tolerance_bps :: 'd
  zone_padding_bps :: 'd
  maximum_zone_width_bps :: 'd
  minimum_rejection_bps :: 'd
  maximum_zones :: int

definition bps_rule :: "string \<Rightarrow> raw_decimal \<Rightarrow> decimal result" where
  "bps_rule name v = (case v of
       Finite d \<Rightarrow> if dval d < 0 then Inl (ValueError (name @ '' must be finite and non-negative''))
                   else Inr d
     | _ \<Rightarrow> Inl (ValueError (name @ '' must be finite and non-negative'')))"

definition SupportZoneRules :: "raw_decimal zone_rules \<Rightarrow> decimal zone_rules result" where
  "SupportZoneRules r =
     (if pivot_left r < 1 \<or> pivot_right r < 1 then Inl (ValueError ''pivot windows must be positive'')
      else if minimum_touches r < 2 then Inl (ValueError ''minimum_touches must be at least two'')
      else if minimum_touch_separation r < 1
        then Inl (ValueError ''minimum_touch_separation must be positive'')
      else and_then (bps_rule ''cluster_tolerance_bps'' (cluster_tolerance_bps r)) (\<lambda>tol.
      and_then (bps_rule ''zone_padding_bps'' (zone_padding_bps r)) (\<lambda>pad.
      and_then (bps_rule ''maximum_zone_width_bps'' (maximum_zone_width_bps r)) (\<lambda>width.
      and_then (bps_rule ''minimum_rejection_bps'' (minimum_rejection_bps r)) (\<lambda>rej.
      if maximum_zones r < 1 \<or> 50 < maximum_zones r
        then Inl (ValueError ''maximum_zones must be between 1 and 50'')
      else Inr \<lparr>pivot_left = pivot_left r, pivot_right = pivot_right r,
        minimum_touches = minimum_touches r,
        minimum_touch_separation = minimum_touch_separation r,
        cluster_tolerance_bps = tol, zone_padding_bps = pad, maximum_zone_width_bps = width,
        minimum_rejection_bps = rej, maximum_zones = maximum_zones r\<rparr>)))))"

definition default_zone_rules :: "decimal zone_rules" where
  "default_zone_rules = \<lparr>pivot_left = 2, pivot_right = 2, minimum_touches = 2,
     minimum_touch_separation = 2, cluster_tolerance_bps = dec 75 0, zone_padding_bps = dec 20 0,
     maximum_zone_width_bps = dec 180 0, minimum_rejection_bps = dec 25 0, maximum_zones = 5\<rparr>"

record pivot_low =
  pv_index :: nat
  pv_candle :: candle

definition pv_price :: "pivot_low \<Rightarrow> decimal" where
  "pv_price p = low_price (pv_candle p)"

fun check_candles :: "candle \<Rightarrow> int option \<Rightarrow> candle list \<Rightarrow> unit result" where
  "check_candles first prev [] = Inr ()"
| "check_candles first prev (c # cs) =
     (if cd_source c \<noteq> cd_source first \<or> cd_symbol c \<noteq> cd_symbol first \<or>
         cd_interval c \<noteq> cd_interval first
        then Inl (ValueError ''candles must share source, symbol, and interval'')
      else if (case prev of None \<Rightarrow> False | Some p \<Rightarrow> instant (open_time c) \<le> p)
        then Inl (ValueError ''candles must be strictly chronological'')
      else check_candles first (Some (instant (open_time c))) cs)"

definition validate_candles :: "candle list \<Rightarrow> unit result" where
  "validate_candles cs = (case cs of
       [] \<Rightarrow> Inr ()
     | first # _ \<Rightarrow>
         if cd_interval first \<notin> {D1, H4}
           then Inl (ValueError ''support zones require Daily or 4H candles'')
         else check_candles first None cs)"

section \<open>Pivot lows\<close>

definition window :: "nat \<Rightarrow> nat \<Rightarrow> 'a list \<Rightarrow> 'a list" where
  "window i j xs = drop i (take j xs)"

text \<open>\<open>min(item.low_price for item in window)\<close>, which raises on an empty window.\<close>

fun window_min :: "candle list \<Rightarrow> decimal result" where
  "window_min [] = Inl (ValueError ''min() iterable argument is empty'')"
| "window_min (c # cs) = Inr (min_by dval (low_price c) (map low_price cs))"

definition pivot_step ::
  "decimal zone_rules \<Rightarrow> candle list \<Rightarrow> pivot_low list \<Rightarrow> nat \<Rightarrow> pivot_low list result" where
  "pivot_step r cs pivots index =
     (let current = cs ! index; price = dval (low_price current);
          left = window (index - nat (pivot_left r)) index cs;
          right = window (index + 1) (index + 1 + nat (pivot_right r)) cs in
      and_then (window_min left) (\<lambda>left_min.
      and_then (window_min right) (\<lambda>right_min.
      let is_lowest = (price \<le> dval left_min \<and> price \<le> dval right_min);
          has_strict_side = (price < dval left_min \<or> price < dval right_min) in
      if \<not> (is_lowest \<and> has_strict_side) then Inr pivots
      else if pivots \<noteq> [] \<and>
          int index - int (pv_index (last pivots)) < minimum_touch_separation r
        then Inr (if price < dval (pv_price (last pivots))
                  then butlast pivots @ [\<lparr>pv_index = index, pv_candle = current\<rparr>]
                  else pivots)
      else Inr (pivots @ [\<lparr>pv_index = index, pv_candle = current\<rparr>]))))"

definition find_pivots :: "decimal zone_rules \<Rightarrow> candle list \<Rightarrow> pivot_low list result" where
  "find_pivots r cs =
     (if int (length cs) < pivot_left r + pivot_right r + 1 then Inr []
      else foldM (pivot_step r cs) []
             [nat (pivot_left r) ..< length cs - nat (pivot_right r)])"

section \<open>Clusters\<close>

definition median_price :: "pivot_low list \<Rightarrow> decimal result" where
  "median_price cluster =
     (let prices = sort_key dval (map pv_price cluster); middle = length prices div 2 in
      if odd (length prices) then Inr (prices ! middle)
      else ddiv (dadd (prices ! (middle - 1)) (prices ! middle)) (dec 2 0))"

definition cluster_step ::
  "decimal zone_rules \<Rightarrow> pivot_low list list \<Rightarrow> pivot_low \<Rightarrow> pivot_low list list result" where
  "cluster_step r clusters pivot =
     (if clusters = [] then Inr [[pivot]]
      else and_then (median_price (last clusters)) (\<lambda>reference.
      and_then (ddiv (dabs (dsub (pv_price pivot) reference)) reference) (\<lambda>q.
      let distance = dmul q BPS in
      if dval distance \<le> dval (cluster_tolerance_bps r)
      then Inr (butlast clusters @ [last clusters @ [pivot]])
      else Inr (clusters @ [[pivot]]))))"

definition pivot_order :: "pivot_low \<Rightarrow> rat \<times> int" where
  "pivot_order p = (dval (pv_price p), instant (open_time (pv_candle p)))"

definition cluster_pivots ::
  "decimal zone_rules \<Rightarrow> pivot_low list \<Rightarrow> pivot_low list list result" where
  "cluster_pivots r pivots =
     (if pivots = [] then Inr [] else foldM (cluster_step r) [] (sort_key pivot_order pivots))"

section \<open>Zones\<close>

definition zone_ident ::
  "string \<Rightarrow> string \<Rightarrow> string \<Rightarrow> datetime list \<Rightarrow> decimal \<Rightarrow> decimal \<Rightarrow> datetime \<Rightarrow> string" where
  "zone_ident source symbol interval evidence lo hi confirmed =
     ''zone_'' @ take 24 (sha256_hexdigest (join ''|''
       ([source, symbol, interval, dec_str lo, dec_str hi, isoformat confirmed]
        @ map isoformat evidence)))"

text \<open>\<open>(item.candle.close_price - item.price) / item.price * BPS >= minimum\<close>.\<close>

definition rejects :: "decimal zone_rules \<Rightarrow> pivot_low \<Rightarrow> bool result" where
  "rejects r p =
     and_then (ddiv (dsub (close_price (pv_candle p)) (pv_price p)) (pv_price p)) (\<lambda>q.
       Inr (dval (minimum_rejection_bps r) \<le> dval (dmul q BPS)))"

definition pivot_time :: "pivot_low \<Rightarrow> int" where
  "pivot_time p = instant (open_time (pv_candle p))"

definition zone_strength :: "nat \<Rightarrow> nat \<Rightarrow> nat \<Rightarrow> nat \<Rightarrow> decimal result" where
  "zone_strength touches rejections last_index bars =
     and_then (ddiv (dec (int last_index + 1) 0) (dec (int bars) 0)) (\<lambda>recency.
       quantize (dmin (dec 100 0)
         (dadd (dadd (dadd (dec 25 0) (dec (int touches * 12) 0)) (dec (int rejections * 6) 0))
            (dmul recency (dec 15 0)))) (-2))"

text \<open>The keyword arguments of the constructor call at the end of \<open>_zone_from_cluster\<close>.\<close>

definition zone_fields ::
  "decimal zone_rules \<Rightarrow> pivot_low \<Rightarrow> pivot_low \<Rightarrow> datetime list \<Rightarrow> decimal \<Rightarrow> decimal \<Rightarrow> datetime \<Rightarrow>
     nat \<Rightarrow> decimal \<Rightarrow> decimal \<Rightarrow> raw_zone" where
  "zone_fields r first final evidence zlow zhigh confirmed rejections strength width =
     (let c = pv_candle first in
      \<lparr>sz_id = zone_ident (source_value (cd_source c)) (cd_symbol c)
         (interval_value (cd_interval c)) evidence zlow zhigh confirmed,
       sz_source = cd_source c, sz_symbol = cd_symbol c, sz_interval = cd_interval c,
       sz_low = Finite zlow, sz_high = Finite zhigh, created_at = close_time c,
       confirmed_at = confirmed, last_test_at = close_time (pv_candle final),
       touch_count = int (length evidence), rejection_count = int rejections,
       strength_score = Finite strength, evidence_open_times = evidence, sz_state = SZ_ACTIVE,
       sz_reasons = [''TOUCHES_'' @ str_int (int (length evidence)),
         ''REJECTIONS_'' @ str_int (int rejections), ''WIDTH_BPS_'' @ dec_str width,
         ''PIVOT_RIGHT_'' @ str_int (pivot_right r)]\<rparr>)"

definition zone_from_cluster ::
  "decimal zone_rules \<Rightarrow> candle list \<Rightarrow> pivot_low list \<Rightarrow> zone option result" where
  "zone_from_cluster r cs cluster =
     (if int (length cluster) < minimum_touches r then Inr None
      else case sort_key pivot_time cluster of
        [] \<Rightarrow> Inl (ValueError ''min() iterable argument is empty'')
      | first # rest \<Rightarrow>
        let ordered = first # rest;
            core_low = min_by dval (pv_price first) (map pv_price rest);
            core_high = max_by dval (pv_price first) (map pv_price rest) in
        and_then (ddiv (zone_padding_bps r) BPS) (\<lambda>padding.
        let zlow = dmul core_low (dsub (dec 1 0) padding);
            zhigh = dmul core_high (dadd (dec 1 0) padding) in
        and_then (ddiv (dadd zlow zhigh) (dec 2 0)) (\<lambda>middle.
        and_then (ddiv (dsub zhigh zlow) middle) (\<lambda>relative.
        let width = dmul relative BPS in
        if dval (maximum_zone_width_bps r) < dval width then Inr None
        else and_then (traverse (rejects r) ordered) (\<lambda>flags.
        let rejections = count_where id flags in
        and_then (zone_strength (length ordered) rejections (pv_index (last ordered)) (length cs))
          (\<lambda>strength.
        let evidence = map (\<lambda>p. open_time (pv_candle p)) ordered;
            final = pv_index (last ordered) + nat (pivot_right r) in
        if length cs \<le> final then Inl (IndexError ''tuple index out of range'')
        else and_then (quantize width (-2)) (\<lambda>width_text.
        and_then (SupportZone (zone_fields r first (last ordered) evidence zlow zhigh
          (close_time (cs ! final)) rejections strength width_text)) (\<lambda>z. Inr (Some z)))))))))"

definition zone_rank :: "zone \<Rightarrow> rat \<times> int \<times> rat \<times> string" where
  "zone_rank z = (dval (strength_score z), instant (last_test_at z), dval (sz_high z), sz_id z)"

definition derive_support_zones :: "decimal zone_rules \<Rightarrow> candle list \<Rightarrow> zone list result" where
  "derive_support_zones r cs =
     and_then (validate_candles cs) (\<lambda>_.
     and_then (find_pivots r cs) (\<lambda>pivots.
     and_then (cluster_pivots r pivots) (\<lambda>clusters.
     and_then (traverse (zone_from_cluster r cs) clusters) (\<lambda>found.
     Inr (take (nat (maximum_zones r)) (sort_desc zone_rank (somes found)))))))"

section \<open>Laws of the rules\<close>

definition zone_rules_wf :: "decimal zone_rules \<Rightarrow> bool" where
  "zone_rules_wf r \<longleftrightarrow>
     1 \<le> pivot_left r \<and> 1 \<le> pivot_right r \<and> 2 \<le> minimum_touches r \<and>
     1 \<le> minimum_touch_separation r \<and> 0 \<le> dval (cluster_tolerance_bps r) \<and>
     0 \<le> dval (zone_padding_bps r) \<and> 0 \<le> dval (maximum_zone_width_bps r) \<and>
     0 \<le> dval (minimum_rejection_bps r) \<and> 1 \<le> maximum_zones r \<and> maximum_zones r \<le> 50"

lemma bps_rule_Inr [result_simps]: "bps_rule name v = Inr d \<longleftrightarrow> v = Finite d \<and> 0 \<le> dval d"
  by (cases v) (auto simp: bps_rule_def)

lemma SupportZoneRules_wf: "SupportZoneRules a = Inr r \<Longrightarrow> zone_rules_wf r"
  by (auto simp: SupportZoneRules_def result_simps zone_rules_wf_def)

lemma default_zone_rules_wf: "zone_rules_wf default_zone_rules"
  by (simp add: zone_rules_wf_def default_zone_rules_def)

section \<open>Pivot lows are local minima\<close>

definition low_at :: "candle list \<Rightarrow> nat \<Rightarrow> rat" where
  "low_at cs i = dval (low_price (cs ! i))"

definition is_pivot :: "decimal zone_rules \<Rightarrow> candle list \<Rightarrow> nat \<Rightarrow> bool" where
  "is_pivot r cs i \<longleftrightarrow>
     (let left = {i - nat (pivot_left r) ..< i}; right = {i <.. i + nat (pivot_right r)} in
      nat (pivot_left r) \<le> i \<and> i + nat (pivot_right r) < length cs \<and>
      (\<forall>j \<in> left \<union> right. low_at cs i \<le> low_at cs j) \<and>
      ((\<forall>j \<in> left. low_at cs i < low_at cs j) \<or> (\<forall>j \<in> right. low_at cs i < low_at cs j)))"

lemma low_at_sample:
  "i < 12 \<Longrightarrow> low_at (sample_candles v) i =
     [104, 103, 100, 102, 103, 102, 1001 / 10, 203 / 2, 102, 99, 98, 97] ! i"
proof -
  assume i: "i < 12"
  have "map (\<lambda>c. dval (low_price c)) (sample_candles v) =
     [104, 103, 100, 102, 103, 102, 1001 / 10, 203 / 2, 102, 99, 98, 97]"
    by (simp add: sample_candles_def sample_prices_def sample_candle_def)
  then show ?thesis
    using nth_map [of i "sample_candles v" "\<lambda>c. dval (low_price c)"] i
    by (simp add: low_at_def length_sample)
qed

lemma min_by_le: "x \<in> insert b (set xs) \<Longrightarrow> f (min_by f b xs) \<le> f x"
proof (induction xs arbitrary: b x)
  case Nil
  then show ?case by simp
next
  case (Cons y ys)
  let ?c = "if f y < f b then y else b"
  have c: "f (min_by f ?c ys) \<le> f ?c" by (rule Cons.IH) simp
  show ?case
  proof (cases "x \<in> set ys")
    case True
    then show ?thesis using Cons.IH [of x ?c] by simp
  next
    case False
    with Cons.prems have "f ?c \<le> f x" by (auto split: if_splits)
    with c show ?thesis by simp
  qed
qed

lemma window_min_bound:
  assumes "window_min cs = Inr m"
  shows "(p \<le> dval m \<longleftrightarrow> (\<forall>c \<in> set cs. p \<le> dval (low_price c))) \<and>
         (p < dval m \<longleftrightarrow> (\<forall>c \<in> set cs. p < dval (low_price c)))"
proof -
  from assms obtain c ds where cs: "cs = c # ds" and m: "m = min_by dval (low_price c) (map low_price ds)"
    by (cases cs) auto
  have "m \<in> low_price ` set cs"
    using min_by_in [of dval "low_price c" "map low_price ds"] by (auto simp: cs m)
  moreover have "\<forall>d \<in> set cs. dval m \<le> dval (low_price d)"
    using min_by_le [of _ "low_price c" "map low_price ds" dval] by (auto simp: cs m)
  ultimately show ?thesis by (auto intro: order_trans less_le_trans)
qed

lemma window_min_succeeds: "cs \<noteq> [] \<Longrightarrow> \<exists>m. window_min cs = Inr m"
  by (cases cs) auto

lemma set_window: "j \<le> length xs \<Longrightarrow> set (window i j xs) = (!) xs ` {i ..< j}"
proof -
  assume "j \<le> length xs"
  then have "window i j xs = map ((!) xs) [i..<j]"
    unfolding window_def by (intro nth_equalityI) (simp_all add: min_absorb2)
  then show ?thesis by simp
qed

lemma pivot_step_eq:
  assumes "zone_rules_wf r" "nat (pivot_left r) \<le> i" "i + nat (pivot_right r) < length cs"
  shows "pivot_step r cs ps i = Inr (
     if \<not> is_pivot r cs i then ps
     else let p = \<lparr>pv_index = i, pv_candle = cs ! i\<rparr> in
       if ps \<noteq> [] \<and> int i - int (pv_index (last ps)) < minimum_touch_separation r
       then if dval (pv_price p) < dval (pv_price (last ps)) then butlast ps @ [p] else ps
       else ps @ [p])"
proof -
  let ?l = "window (i - nat (pivot_left r)) i cs" and ?r = "window (i + 1) (i + 1 + nat (pivot_right r)) cs"
  from assms have ne: "?l \<noteq> []" "?r \<noteq> []"
    by (auto simp: window_def zone_rules_wf_def)
  then obtain l m where lm: "window_min ?l = Inr l" "window_min ?r = Inr m"
    using window_min_succeeds by blast
  have sets: "set ?l = (!) cs ` {i - nat (pivot_left r) ..< i}"
    "set ?r = (!) cs ` {i <.. i + nat (pivot_right r)}"
    using assms(2,3) by (auto simp: set_window)
  have "is_pivot r cs i \<longleftrightarrow>
     (low_at cs i \<le> dval l \<and> low_at cs i \<le> dval m) \<and> (low_at cs i < dval l \<or> low_at cs i < dval m)"
    using window_min_bound [OF lm(1)] window_min_bound [OF lm(2)] assms(2,3) sets
    by (simp add: is_pivot_def Let_def low_at_def ball_Un)
  then show ?thesis
    using lm(2) by (auto simp: pivot_step_def Let_def lm(1) low_at_def pv_price_def)
qed

text \<open>The invariant of the loop of \<open>_find_pivots\<close> before index \<open>n\<close>.\<close>

definition pivots_ok :: "decimal zone_rules \<Rightarrow> candle list \<Rightarrow> nat \<Rightarrow> pivot_low list \<Rightarrow> bool" where
  "pivots_ok r cs n ps \<longleftrightarrow>
     (\<forall>p \<in> set ps. pv_index p < n \<and> is_pivot r cs (pv_index p) \<and> pv_candle p = cs ! pv_index p) \<and>
     sorted_wrt (\<lambda>p q. int (pv_index p) + minimum_touch_separation r \<le> int (pv_index q)) ps \<and>
     (\<forall>i < n. is_pivot r cs i \<longrightarrow> (\<exists>p \<in> set ps. low_at cs (pv_index p) \<le> low_at cs i))"

lemma pivots_ok_skip: "pivots_ok r cs n ps \<Longrightarrow> \<not> is_pivot r cs n \<Longrightarrow> pivots_ok r cs (Suc n) ps"
  by (auto simp: pivots_ok_def less_Suc_eq)

lemma pivots_ok_keep:
  "pivots_ok r cs n ps \<Longrightarrow> ps \<noteq> [] \<Longrightarrow> low_at cs (pv_index (last ps)) \<le> low_at cs n \<Longrightarrow>
     pivots_ok r cs (Suc n) ps"
  by (auto simp: pivots_ok_def less_Suc_eq intro: bexI [of _ "last ps"])

lemma pivots_ok_append:
  assumes ok: "pivots_ok r cs n ps" and piv: "is_pivot r cs n"
    and sep: "ps = [] \<or> minimum_touch_separation r \<le> int n - int (pv_index (last ps))"
    and wf: "zone_rules_wf r"
  shows "pivots_ok r cs (Suc n) (ps @ [\<lparr>pv_index = n, pv_candle = cs ! n\<rparr>])"
proof -
  have "int (pv_index p) + minimum_touch_separation r \<le> int n" if "p \<in> set ps" for p
  proof (cases "p = last ps")
    case True
    with sep that show ?thesis by auto
  next
    case False
    have "sorted_wrt (\<lambda>p q. int (pv_index p) + minimum_touch_separation r \<le> int (pv_index q)) ps"
      using ok by (simp add: pivots_ok_def)
    from sorted_wrt_last [OF this that False]
    have "int (pv_index p) + minimum_touch_separation r \<le> int (pv_index (last ps))" .
    with sep that wf show ?thesis by (auto simp: zone_rules_wf_def)
  qed
  with ok piv show ?thesis
    by (auto simp: pivots_ok_def sorted_wrt_append less_Suc_eq)
qed

lemma pivots_ok_replace:
  assumes ok: "pivots_ok r cs n ps" and piv: "is_pivot r cs n" and ne: "ps \<noteq> []"
    and low: "low_at cs n < low_at cs (pv_index (last ps))"
  shows "pivots_ok r cs (Suc n) (butlast ps @ [\<lparr>pv_index = n, pv_candle = cs ! n\<rparr>])"
proof -
  from ne obtain qs q where ps: "ps = qs @ [q]" by (metis rev_exhaust)
  have lt: "pv_index q < n" using ok ps by (simp add: pivots_ok_def)
  have "\<exists>p \<in> set (qs @ [\<lparr>pv_index = n, pv_candle = cs ! n\<rparr>]). low_at cs (pv_index p) \<le> low_at cs i"
    if "i < n" "is_pivot r cs i" for i
  proof -
    from ok that obtain p where "p \<in> set ps" "low_at cs (pv_index p) \<le> low_at cs i"
      unfolding pivots_ok_def by blast
    then show ?thesis using low ps by (cases "p = q") auto
  qed
  then show ?thesis
    using ok piv ps lt by (auto simp: pivots_ok_def sorted_wrt_append less_Suc_eq)
qed

lemma pivot_step_ok:
  assumes "zone_rules_wf r" "nat (pivot_left r) \<le> n" "n + nat (pivot_right r) < length cs"
    "pivots_ok r cs n ps"
  shows "\<exists>qs. pivot_step r cs ps n = Inr qs \<and> pivots_ok r cs (Suc n) qs"
proof -
  have "low_at cs (pv_index (last ps)) = dval (pv_price (last ps))" if "ps \<noteq> []"
    using assms(4) last_in_set [OF that] by (simp add: pivots_ok_def low_at_def pv_price_def)
  then show ?thesis
    unfolding pivot_step_eq [OF assms(1-3)]
    using pivots_ok_skip [OF assms(4)] pivots_ok_keep [OF assms(4)]
      pivots_ok_append [OF assms(4) _ _ assms(1)] pivots_ok_replace [OF assms(4)]
    by (auto simp: Let_def pv_price_def low_at_def not_less)
qed

lemma is_pivot_bounds:
  "is_pivot r cs i \<Longrightarrow> nat (pivot_left r) \<le> i \<and> i + nat (pivot_right r) < length cs"
  by (simp add: is_pivot_def Let_def)

lemma find_pivots_ok:
  assumes "zone_rules_wf r"
  shows "\<exists>ps. find_pivots r cs = Inr ps \<and>
    (\<forall>p \<in> set ps. is_pivot r cs (pv_index p) \<and> pv_candle p = cs ! pv_index p) \<and>
    sorted_wrt (\<lambda>p q. int (pv_index p) + minimum_touch_separation r \<le> int (pv_index q)) ps \<and>
    (\<forall>i. is_pivot r cs i \<longrightarrow> (\<exists>p \<in> set ps. low_at cs (pv_index p) \<le> low_at cs i))"
proof (cases "int (length cs) < pivot_left r + pivot_right r + 1")
  case True
  have "\<not> is_pivot r cs i" for i
  proof
    assume "is_pivot r cs i"
    from is_pivot_bounds [OF this] True assms show False by (auto simp: zone_rules_wf_def)
  qed
  with True show ?thesis by (simp add: find_pivots_def)
next
  case False
  let ?l = "nat (pivot_left r)" and ?n = "length cs - nat (pivot_right r)"
  have bound: "?l < ?n" using False assms by (auto simp: zone_rules_wf_def)
  have "\<exists>ps. foldM (pivot_step r cs) [] [?l..<?n] = Inr ps \<and> pivots_ok r cs (?l + length [?l..<?n]) ps"
  proof (rule foldM_succeeds [where P = "\<lambda>ys. pivots_ok r cs (?l + length ys)"])
    show "pivots_ok r cs (?l + length []) []"
      by (auto simp: pivots_ok_def dest: is_pivot_bounds)
    fix ys x zs u
    assume split: "[?l..<?n] = ys @ x # zs" and "pivots_ok r cs (?l + length ys) u"
    moreover from split have "x = ?l + length ys" "x < ?n"
      by (metis nth_append_length length_append length_upt less_add_same_cancel1 list.size(4) nth_upt zero_less_Suc add_Suc_right less_diff_conv add.commute)
        (metis atLeastLessThan_iff in_set_conv_decomp set_upt split)
    ultimately show "\<exists>v. pivot_step r cs u x = Inr v \<and> pivots_ok r cs (?l + length (ys @ [x])) v"
      using pivot_step_ok [OF assms, of x cs u] by auto
  qed
  with bound obtain ps where run: "foldM (pivot_step r cs) [] [?l..<?n] = Inr ps"
    and ok: "pivots_ok r cs ?n ps" by auto
  have "i < ?n" if "is_pivot r cs i" for i
    using is_pivot_bounds [OF that] by linarith
  with ok have "\<forall>i. is_pivot r cs i \<longrightarrow> (\<exists>p \<in> set ps. low_at cs (pv_index p) \<le> low_at cs i)"
    by (simp add: pivots_ok_def)
  moreover have "find_pivots r cs = Inr ps" using run False by (simp add: find_pivots_def)
  ultimately show ?thesis using ok by (auto simp: pivots_ok_def)
qed

text \<open>
  \<open>_find_pivots\<close> never raises; every pivot it returns is a local minimum of its window, strict
  on one side, with the candle at its index; indices grow by at least the minimum touch
  separation; and no local minimum is lost without a pivot at least as low.
\<close>

theorem find_pivots_correct:
  assumes "zone_rules_wf r"
  shows "\<exists>ps. find_pivots r cs = Inr ps \<and>
    (\<forall>p \<in> set ps. is_pivot r cs (pv_index p) \<and> pv_candle p = cs ! pv_index p) \<and>
    sorted_wrt (\<lambda>p q. int (pv_index p) + minimum_touch_separation r \<le> int (pv_index q)) ps \<and>
    (\<forall>i. is_pivot r cs i \<longrightarrow> (\<exists>p \<in> set ps. low_at cs (pv_index p) \<le> low_at cs i))"
  by (rule find_pivots_ok [OF assms])

lemma sample_pivot: "is_pivot default_zone_rules (sample_candles H4) 2"
proof -
  have "{2 - nat (pivot_left default_zone_rules) ..< 2} = {0, 1}"
    "{2 <.. 2 + nat (pivot_right default_zone_rules)} = {3, 4}"
    by (auto simp: default_zone_rules_def)
  then show ?thesis
    by (simp add: is_pivot_def Let_def low_at_sample default_zone_rules_def length_sample)
qed

theorem find_pivots_correct_witness:
  "zone_rules_wf default_zone_rules \<and>
   (\<exists>ps. find_pivots default_zone_rules (sample_candles H4) = Inr ps \<and>
      (\<exists>p \<in> set ps. low_at (sample_candles H4) (pv_index p) \<le> 100))"
proof -
  obtain ps where ps: "find_pivots default_zone_rules (sample_candles H4) = Inr ps"
    "\<exists>p \<in> set ps. low_at (sample_candles H4) (pv_index p) \<le> low_at (sample_candles H4) 2"
    using find_pivots_correct [OF default_zone_rules_wf, of "sample_candles H4"] sample_pivot by blast
  then show ?thesis using default_zone_rules_wf by (auto simp: low_at_sample)
qed

section \<open>Clusters partition the pivots\<close>

lemma cluster_step_concat:
  "cluster_step r cl p = Inr cl' \<Longrightarrow> [] \<notin> set cl \<Longrightarrow> concat cl' = concat cl @ [p] \<and> [] \<notin> set cl'"
proof -
  assume step: "cluster_step r cl p = Inr cl'" and ne: "[] \<notin> set cl"
  show ?thesis
  proof (cases "cl = []")
    case True
    with step show ?thesis by (auto simp: cluster_step_def)
  next
    case False
    then obtain ds d where "cl = ds @ [d]" by (metis rev_exhaust)
    with step ne show ?thesis
      by (auto simp: cluster_step_def result_simps Let_def split: if_splits)
  qed
qed

lemma cluster_pivots_concat:
  assumes "cluster_pivots r ps = Inr cl"
  shows "concat cl = sort_key pivot_order ps \<and> [] \<notin> set cl"
proof (cases "ps = []")
  case True
  with assms show ?thesis by (simp add: cluster_pivots_def)
next
  case False
  with assms have "foldM (cluster_step r) [] (sort_key pivot_order ps) = Inr cl"
    by (simp add: cluster_pivots_def)
  then show ?thesis
    by (rule foldM_invariant [where P = "\<lambda>xs cl. concat cl = xs \<and> [] \<notin> set cl"])
      (auto dest: cluster_step_concat)
qed

lemma dec_round_floor: "dec_round (dval price_floor) = dval price_floor"
  "dec_round (dval price_floor / 2) = dval price_floor / 2"
proof -
  show "dec_round (dval price_floor) = dval price_floor"
    using dec_round_exact [of 1 "-18"] by (simp add: price_floor_def)
  have "dval price_floor / 2 = of_int 5 * 10 powi (-19)"
    by code_simp
  moreover have "dec_round (of_int 5 * 10 powi (-19)) = of_int 5 * 10 powi (-19)"
    by (rule dec_round_exact) simp_all
  ultimately show "dec_round (dval price_floor / 2) = dval price_floor / 2"
    by metis
qed

lemma median_price_pos:
  assumes "cluster \<noteq> []" "\<forall>p \<in> set cluster. dval price_floor \<le> dval (pv_price p)"
  shows "\<exists>m. median_price cluster = Inr m \<and> 0 < dval m"
proof -
  define prices where "prices = sort_key dval (map pv_price cluster)"
  have all: "dval price_floor \<le> dval (prices ! i)" if "i < length prices" for i
    using nth_mem [OF that] assms(2) by (auto simp: prices_def)
  have mid: "length prices div 2 < length prices" using assms(1) by (simp add: prices_def)
  show ?thesis
  proof (cases "odd (length prices)")
    case True
    then show ?thesis
      using all [OF mid] price_floor_pos
      by (auto simp: median_price_def Let_def simp flip: prices_def)
  next
    case False
    let ?a = "prices ! (length prices div 2 - 1)" and ?b = "prices ! (length prices div 2)"
    have "dval price_floor \<le> dval ?a + dval ?b"
      using all [OF mid] all [OF less_imp_diff_less [OF mid, of 1]] price_floor_pos by linarith
    then have "dval price_floor / 2 \<le> dval (dadd ?a ?b) / 2"
      using dec.R_ge [OF dec_round_floor(1)] by (simp add: dval_dadd)
    then have "dval price_floor / 2 \<le> dec_round (dval (dadd ?a ?b) / 2)"
      by (rule dec.R_ge [OF dec_round_floor(2)])
    moreover obtain m where "ddiv (dadd ?a ?b) (dec 2 0) = Inr m"
      "dval m = dec_round (dval (dadd ?a ?b) / 2)"
      using ddiv_succeeds [of "dec 2 0" "dadd ?a ?b"] by auto
    ultimately show ?thesis
      using False price_floor_pos by (auto simp: median_price_def Let_def simp flip: prices_def)
  qed
qed

lemma cluster_pivots_succeeds:
  assumes "\<forall>p \<in> set ps. dval price_floor \<le> dval (pv_price p)"
  shows "\<exists>cl. cluster_pivots r ps = Inr cl"
proof (cases "ps = []")
  case True
  then show ?thesis by (simp add: cluster_pivots_def)
next
  case False
  have "\<exists>cl. foldM (cluster_step r) [] (sort_key pivot_order ps) = Inr cl \<and>
      (concat cl = sort_key pivot_order ps \<and> [] \<notin> set cl)"
  proof (rule foldM_succeeds [where P = "\<lambda>xs cl. concat cl = xs \<and> [] \<notin> set cl"])
    show "concat [] = [] \<and> [] \<notin> set []" by simp
    fix ys x zs u
    assume split: "sort_key pivot_order ps = ys @ x # zs" and u: "concat u = ys \<and> [] \<notin> set u"
    have "set ys \<subseteq> set ps" using split by (metis Un_iff set_append set_sort subsetI)
    have "\<exists>v. cluster_step r u x = Inr v"
    proof (cases "u = []")
      case True
      then show ?thesis by (simp add: cluster_step_def)
    next
      case False
      then have "last u \<in> set u" by simp
      then have "last u \<noteq> []" "set (last u) \<subseteq> set ys" using u by (metis, fastforce)
      with assms \<open>set ys \<subseteq> set ps\<close> obtain m where m: "median_price (last u) = Inr m" "0 < dval m"
        using median_price_pos [of "last u"] by blast
      then obtain q where "ddiv (dabs (dsub (pv_price x) m)) m = Inr q"
        using ddiv_succeeds [of m] by force
      with m False show ?thesis by (simp add: cluster_step_def Let_def)
    qed
    then show "\<exists>v. cluster_step r u x = Inr v \<and> concat v = ys @ [x] \<and> [] \<notin> set v"
      using cluster_step_concat u by blast
  qed
  with False show ?thesis by (auto simp: cluster_pivots_def)
qed

text \<open>
  On pivots with prices of at least the price floor, \<open>_cluster_pivots\<close> never raises, and its clusters are
  non-empty and partition the pivots in the order of price and time.
\<close>

theorem cluster_pivots_partition:
  assumes "\<forall>p \<in> set ps. dval price_floor \<le> dval (pv_price p)"
  shows "\<exists>cl. cluster_pivots r ps = Inr cl \<and> concat cl = sort_key pivot_order ps \<and> [] \<notin> set cl"
  using cluster_pivots_succeeds [OF assms] cluster_pivots_concat by blast

theorem cluster_pivots_partition_witness:
  "\<exists>cl. cluster_pivots default_zone_rules
      [\<lparr>pv_index = 6, pv_candle = sample_candle H4 6 (10250, 10300, 10010, 10280)\<rparr>,
       \<lparr>pv_index = 2, pv_candle = sample_candle H4 2 (10350, 10400, 10000, 10300)\<rparr>] = Inr cl \<and>
      map pv_index (concat cl) = [2, 6]"
proof -
  let ?ps = "[\<lparr>pv_index = 6, pv_candle = sample_candle H4 6 (10250, 10300, 10010, 10280)\<rparr>,
       \<lparr>pv_index = 2, pv_candle = sample_candle H4 2 (10350, 10400, 10000, 10300)\<rparr>]"
  have "map pv_index (sort_key pivot_order ?ps) = [2, 6]" by code_simp
  moreover have "\<forall>p \<in> set ?ps. dval price_floor \<le> dval (pv_price p)" by code_simp
  ultimately show ?thesis using cluster_pivots_partition by metis
qed

section \<open>Zones\<close>

text \<open>What a zone built from the pivots \<open>ps\<close>, in order of time, promises.\<close>

definition zone_spec :: "decimal zone_rules \<Rightarrow> candle list \<Rightarrow> pivot_low list \<Rightarrow> zone \<Rightarrow> bool" where
  "zone_spec r cs ps z \<longleftrightarrow>
     zone_wf z \<and> ps \<noteq> [] \<and> minimum_touches r \<le> int (length ps) \<and>
     evidence_open_times z = map (\<lambda>p. open_time (pv_candle p)) ps \<and>
     created_at z = close_time (pv_candle (hd ps)) \<and>
     last_test_at z = close_time (pv_candle (last ps)) \<and>
     pv_index (last ps) + nat (pivot_right r) < length cs \<and>
     confirmed_at z = close_time (cs ! (pv_index (last ps) + nat (pivot_right r))) \<and>
     sz_state z = SZ_ACTIVE \<and> sz_source z = cd_source (pv_candle (hd ps)) \<and>
     sz_symbol z = cd_symbol (pv_candle (hd ps)) \<and>
     sz_interval z = cd_interval (pv_candle (hd ps)) \<and>
     (\<forall>p \<in> set ps. dval (sz_low z) \<le> dec_round (dval (pv_price p)) \<and>
        dec_round (dval (pv_price p)) \<le> dval (sz_high z))"

lemma padding_nonneg: "ddiv d BPS = Inr q \<Longrightarrow> 0 \<le> dval d \<Longrightarrow> 0 \<le> dval q"
  by (auto dest!: ddiv_Inr simp: BPS_def intro!: dec.R_nonneg)

lemma zone_low_le:
  assumes "0 \<le> dval pad" "0 \<le> dval p"
  shows "dval (dmul p (dsub (dec 1 0) pad)) \<le> dec_round (dval p)"
proof -
  have "dval (dsub (dec 1 0) pad) \<le> 1"
    using dec.R_sub_le [of 1 "dval pad"] assms by (simp add: dval_dsub)
  then have "dval p * dval (dsub (dec 1 0) pad) \<le> dval p"
    using assms(2) by (simp add: mult_left_le)
  then show ?thesis by (simp add: dval_dmul dec.R_mono)
qed

lemma zone_high_ge:
  assumes "0 \<le> dval pad" "0 \<le> dval p"
  shows "dec_round (dval p) \<le> dval (dmul p (dadd (dec 1 0) pad))"
proof -
  have "1 \<le> dval (dadd (dec 1 0) pad)"
    using dec.R_add_ge [of 1 "dval pad"] assms by (simp add: dval_dadd)
  then have "dval p \<le> dval p * dval (dadd (dec 1 0) pad)"
    using assms(2) by (simp add: mult_le_cancel_left1)
  then show ?thesis by (simp add: dval_dmul dec.R_mono)
qed

lemma core_bounds:
  assumes "0 \<le> dval pad" "\<forall>q \<in> insert p (set ps). 0 \<le> dval q" "q \<in> insert p (set ps)"
  shows "dval (dmul (min_by dval p ps) (dsub (dec 1 0) pad)) \<le> dec_round (dval q)"
    "dec_round (dval q) \<le> dval (dmul (max_by dval p ps) (dadd (dec 1 0) pad))"
proof -
  have "0 \<le> dval (min_by dval p ps)" "0 \<le> dval (max_by dval p ps)"
    using min_by_in [of dval p ps] max_by_in [of dval p ps] assms(2) by auto
  note low = zone_low_le [OF assms(1) this(1)] and high = zone_high_ge [OF assms(1) this(2)]
  show "dval (dmul (min_by dval p ps) (dsub (dec 1 0) pad)) \<le> dec_round (dval q)"
    using low dec.R_mono [OF min_by_le [OF assms(3), of dval]] by (rule order_trans)
  show "dec_round (dval q) \<le> dval (dmul (max_by dval p ps) (dadd (dec 1 0) pad))"
    using dec.R_mono [OF max_by_ge [OF assms(3), of dval]] high by (rule order_trans)
qed

lemma zone_from_cluster_spec:
  assumes res: "zone_from_cluster r cs cluster = Inr (Some z)" and wf: "zone_rules_wf r"
    and sym: "\<forall>p \<in> set cluster. normal_symbol (cd_symbol (pv_candle p)) \<and> 0 \<le> dval (pv_price p)"
  shows "zone_spec r cs (sort_key pivot_time cluster) z"
proof -
  obtain first rest where ord: "sort_key pivot_time cluster = first # rest"
    using res by (auto simp: zone_from_cluster_def split: list.splits if_splits)
  let ?ps = "first # rest"
  let ?lo = "min_by dval (pv_price first) (map pv_price rest)"
  let ?hi = "max_by dval (pv_price first) (map pv_price rest)"
  from res ord obtain pad rej strength wt where pad: "ddiv (zone_padding_bps r) BPS = Inr pad"
    and len: "minimum_touches r \<le> int (length cluster)"
    and fin: "pv_index (last ?ps) + nat (pivot_right r) < length cs"
    and z: "SupportZone (zone_fields r first (last ?ps) (map (\<lambda>p. open_time (pv_candle p)) ?ps)
      (dmul ?lo (dsub (dec 1 0) pad)) (dmul ?hi (dadd (dec 1 0) pad))
      (close_time (cs ! (pv_index (last ?ps) + nat (pivot_right r)))) rej strength wt) = Inr z"
    by (simp only: zone_from_cluster_def list.case Let_def)
      (auto simp: result_simps not_less not_le split: if_splits)
  have len': "length ?ps = length cluster" and set': "set ?ps = set cluster"
    by (simp_all flip: ord)
  have pad0: "0 \<le> dval pad" using padding_nonneg [OF pad] wf by (simp add: zone_rules_wf_def)
  have "\<forall>q \<in> insert (pv_price first) (set (map pv_price rest)). 0 \<le> dval q"
    using sym set' by auto
  note core = core_bounds [OF pad0 this]
  have "upper (strip (cd_symbol (pv_candle first))) = cd_symbol (pv_candle first)"
    using sym set' by (auto simp: normal_symbol_def)
  then show ?thesis
    using z len fin len' core unfolding ord SupportZone_Inr zone_spec_def zone_fields_def Let_def
    by (cases z) (auto simp: zone_args_def)
qed

section \<open>The derivation as a whole\<close>

definition same_series :: "candle list \<Rightarrow> bool" where
  "same_series cs \<longleftrightarrow> (\<forall>c \<in> set cs. htf (cd_interval c) \<and> cd_source c = cd_source (hd cs) \<and>
     cd_symbol c = cd_symbol (hd cs) \<and> cd_interval c = cd_interval (hd cs))"

lemma check_candles_Inr:
  "check_candles first prev cs = Inr u \<longleftrightarrow>
     chronological cs \<and>
     (\<forall>c \<in> set cs. (case prev of None \<Rightarrow> True | Some p \<Rightarrow> p < instant (open_time c)) \<and>
        cd_source c = cd_source first \<and> cd_symbol c = cd_symbol first \<and>
        cd_interval c = cd_interval first)"
proof (induction cs arbitrary: prev)
  case Nil
  then show ?case by (simp add: chronological_def)
next
  case (Cons c cs)
  have "check_candles first prev (c # cs) = Inr u \<longleftrightarrow>
      cd_source c = cd_source first \<and> cd_symbol c = cd_symbol first \<and>
      cd_interval c = cd_interval first \<and>
      (case prev of None \<Rightarrow> True | Some p \<Rightarrow> p < instant (open_time c)) \<and>
      check_candles first (Some (instant (open_time c))) cs = Inr u"
    by (cases prev) auto
  also have "\<dots> \<longleftrightarrow> chronological (c # cs) \<and>
     (\<forall>d \<in> set (c # cs). (case prev of None \<Rightarrow> True | Some p \<Rightarrow> p < instant (open_time d)) \<and>
        cd_source d = cd_source first \<and> cd_symbol d = cd_symbol first \<and>
        cd_interval d = cd_interval first)"
    unfolding Cons.IH chronological_def
    by (cases prev) (simp_all, blast, meson less_trans)
  finally show ?case .
qed

lemma validate_candles_Inr:
  "validate_candles cs = Inr u \<longleftrightarrow>
     chronological cs \<and> same_series cs"
  by (cases cs)
    (auto simp: validate_candles_def check_candles_Inr htf_def chronological_def same_series_def)

lemma sort_key_index:
  assumes "chronological cs" "\<forall>p \<in> set ps. pv_index p < length cs \<and> pv_candle p = cs ! pv_index p"
    "distinct (map pv_index ps)"
  shows "sorted_wrt (\<lambda>p q. pv_index p < pv_index q) (sort_key pivot_time ps)"
proof -
  let ?qs = "sort_key pivot_time ps"
  have mono: "pv_index p \<le> pv_index q"
    if "p \<in> set ps" "q \<in> set ps" "pivot_time p \<le> pivot_time q" for p q
    using that assms(2) chronological_nth [OF assms(1), of "pv_index q" "pv_index p"]
    by (auto simp: pivot_time_def not_less [symmetric])
  have "sorted_wrt (\<lambda>p q. pivot_time p \<le> pivot_time q) ?qs"
    using sorted_sort_key [of pivot_time ps] by (simp add: sorted_map)
  then have "sorted_wrt (\<lambda>p q. pv_index p \<le> pv_index q) ?qs"
    by (rule sorted_wrt_mono_rel [rotated]) (auto intro: mono)
  moreover have "distinct (map pv_index ?qs)"
    using assms(3) by (metis mset_map mset_sort mset_eq_imp_distinct_iff)
  ultimately have "sorted_wrt (<) (map pv_index ?qs)"
    by (simp add: strict_sorted_iff sorted_map)
  then show ?thesis by (simp add: sorted_wrt_map)
qed

definition touches_of :: "decimal zone_rules \<Rightarrow> candle list \<Rightarrow> zone \<Rightarrow> pivot_low list \<Rightarrow> bool" where
  "touches_of r cs z ps \<longleftrightarrow>
     zone_spec r cs ps z \<and> sorted_wrt (\<lambda>p q. pv_index p < pv_index q) ps \<and>
     (\<forall>p \<in> set ps. is_pivot r cs (pv_index p) \<and> pv_candle p = cs ! pv_index p \<and>
        instant (close_time (cs ! (pv_index p + nat (pivot_right r)))) \<le> instant (confirmed_at z))"

lemma close_time_mono:
  assumes "chronological cs" "\<forall>c \<in> set cs. candle_wf c \<and> cd_interval c = cd_interval (hd cs)"
    "i \<le> j" "j < length cs"
  shows "instant (close_time (cs ! i)) \<le> instant (close_time (cs ! j))"
proof -
  have "candle_wf (cs ! i)" "candle_wf (cs ! j)" "cd_interval (cs ! i) = cd_interval (cs ! j)"
    using assms(2-4) by (auto dest!: nth_mem)
  moreover have "instant (open_time (cs ! i)) \<le> instant (open_time (cs ! j))"
    using chronological_nth [OF assms(1), of i j] assms(3,4) by (cases "i = j") auto
  ultimately show ?thesis by (simp add: candle_wf_def)
qed

lemma index_le_last:
  "sorted_wrt (\<lambda>p q. pv_index p < pv_index q) ps \<Longrightarrow> p \<in> set ps \<Longrightarrow> pv_index p \<le> pv_index (last ps)"
  using sorted_wrt_last [of "\<lambda>p q. pv_index p < pv_index q" ps p] by (cases "p = last ps") auto

lemma touches_of_cluster:
  assumes res: "zone_from_cluster r cs cluster = Inr (Some z)" and wf: "zone_rules_wf r"
    and cs: "chronological cs" "\<forall>c \<in> set cs. candle_wf c \<and> cd_interval c = cd_interval (hd cs)"
    and piv: "\<forall>p \<in> set cluster. is_pivot r cs (pv_index p) \<and> pv_candle p = cs ! pv_index p"
    and dist: "distinct (map pv_index cluster)"
  shows "touches_of r cs z (sort_key pivot_time cluster)"
proof -
  let ?ps = "sort_key pivot_time cluster" and ?k = "nat (pivot_right r)"
  have bound: "pv_index p + ?k < length cs" if "p \<in> set cluster" for p
    using piv that is_pivot_bounds by blast
  have "candle_wf (pv_candle p)" if "p \<in> set cluster" for p
    using piv cs(2) that bound [OF that] by simp
  then have spec: "zone_spec r cs ?ps z"
    by (intro zone_from_cluster_spec [OF res wf]) (simp add: candle_wf_def pv_price_def less_imp_le)
  have sorted: "sorted_wrt (\<lambda>p q. pv_index p < pv_index q) ?ps"
    using bound piv by (intro sort_key_index [OF cs(1) _ dist]) force
  have "pv_index p \<le> pv_index (last ?ps)" if "p \<in> set ?ps" for p
    using index_le_last [OF sorted that] .
  then have "instant (close_time (cs ! (pv_index p + ?k))) \<le> instant (confirmed_at z)"
    if "p \<in> set ?ps" for p
    using spec that close_time_mono [OF cs, of "pv_index p + ?k"] by (simp add: zone_spec_def)
  with spec sorted piv show ?thesis by (simp add: touches_of_def)
qed

lemma derive_Inr:
  assumes "derive_support_zones r cs = Inr zones"
  obtains pivots clusters found where
    "chronological cs" "same_series cs"
    "find_pivots r cs = Inr pivots" "concat clusters = sort_key pivot_order pivots"
    "traverse (zone_from_cluster r cs) clusters = Inr found"
    "zones = take (nat (maximum_zones r)) (sort_desc zone_rank (somes found))"
proof -
  from assms obtain u pivots clusters found where "validate_candles cs = Inr u"
    "find_pivots r cs = Inr pivots" "cluster_pivots r pivots = Inr clusters"
    "traverse (zone_from_cluster r cs) clusters = Inr found"
    "zones = take (nat (maximum_zones r)) (sort_desc zone_rank (somes found))"
    by (auto simp: derive_support_zones_def result_simps)
  then show thesis
    using cluster_pivots_concat by (intro that [of pivots clusters found]) (auto simp: validate_candles_Inr)
qed

lemma found_zone:
  assumes "zones = take n (sort_desc zone_rank (somes found))"
    "traverse (zone_from_cluster r cs) clusters = Inr found" "z \<in> set zones"
  obtains cluster where "cluster \<in> set clusters" "zone_from_cluster r cs cluster = Inr (Some z)"
proof -
  from assms(1,3) have "Some z \<in> set found"
    by (auto dest!: in_set_takeD simp: set_somes)
  from traverse_Inr_set [OF assms(2) this] that show thesis by blast
qed

lemma evidence_submset:
  assumes "\<And>cl z. cl \<in> set clusters \<Longrightarrow> zone_from_cluster r cs cl = Inr (Some z) \<Longrightarrow>
      map instant (evidence_open_times z) = map pivot_time (sort_key pivot_time cl)"
    and "list_all2 (\<lambda>cl f. zone_from_cluster r cs cl = Inr f) clusters found"
  shows "mset (concat (map (\<lambda>z. map instant (evidence_open_times z)) (somes found)))
    \<subseteq># mset (map pivot_time (concat clusters))"
  using assms(2,1)
proof (induction rule: list_all2_induct)
  case Nil
  then show ?case by simp
next
  case (Cons cl cls f fs)
  have tail: "mset (concat (map (\<lambda>z. map instant (evidence_open_times z)) (somes fs)))
    \<subseteq># mset (map pivot_time (concat cls))"
    using Cons.IH Cons.prems by (meson list.set_intros(2))
  show ?case
  proof (cases f)
    case None
    with tail show ?thesis
      by (simp add: subset_mset.add_increasing)
  next
    case (Some z)
    with Cons.prems [of cl z] Cons.hyps(1) have "mset (map instant (evidence_open_times z)) = mset (map pivot_time cl)"
      by simp
    with Some tail show ?thesis by simp
  qed
qed

lemma find_pivots_facts:
  assumes "zone_rules_wf r" "find_pivots r cs = Inr pivots"
  shows "\<forall>p \<in> set pivots. is_pivot r cs (pv_index p) \<and> pv_candle p = cs ! pv_index p"
    "sorted_wrt (\<lambda>p q. pv_index p < pv_index q) pivots"
proof -
  obtain ps where ps: "find_pivots r cs = Inr ps"
    "\<forall>p \<in> set ps. is_pivot r cs (pv_index p) \<and> pv_candle p = cs ! pv_index p"
    "sorted_wrt (\<lambda>p q. int (pv_index p) + minimum_touch_separation r \<le> int (pv_index q)) ps"
    using find_pivots_ok [OF assms(1), of cs] by blast
  show "\<forall>p \<in> set pivots. is_pivot r cs (pv_index p) \<and> pv_candle p = cs ! pv_index p"
    using ps assms(2) by simp
  have "sorted_wrt (\<lambda>p q. pv_index p < pv_index q) ps"
    using ps(3) by (rule sorted_wrt_mono_rel [rotated]) (use assms(1) in \<open>auto simp: zone_rules_wf_def\<close>)
  then show "sorted_wrt (\<lambda>p q. pv_index p < pv_index q) pivots"
    using ps(1) assms(2) by simp
qed

lemma pivot_index_distinct:
  assumes "zone_rules_wf r" "find_pivots r cs = Inr pivots"
  shows "distinct (map pv_index pivots)"
  using find_pivots_facts(2) [OF assms] by (simp add: strict_sorted_iff flip: sorted_wrt_map)

lemma pivot_times_distinct:
  assumes "zone_rules_wf r" "chronological cs" "find_pivots r cs = Inr pivots"
  shows "distinct (map pivot_time pivots)"
proof -
  have "pivot_time p < pivot_time q"
    if "p \<in> set pivots" "q \<in> set pivots" "pv_index p < pv_index q" for p q
    using find_pivots_facts(1) [OF assms(1,3)] that is_pivot_bounds [of r cs "pv_index q"]
      chronological_nth [OF assms(2) that(3)] by (auto simp: pivot_time_def)
  then have "sorted_wrt (\<lambda>p q. pivot_time p < pivot_time q) pivots"
    by (intro sorted_wrt_mono_rel [OF _ find_pivots_facts(2) [OF assms(1,3)]]) auto
  then show ?thesis by (simp add: strict_sorted_iff flip: sorted_wrt_map)
qed

lemma cluster_subset:
  assumes "zone_rules_wf r" "find_pivots r cs = Inr pivots"
    "concat clusters = sort_key pivot_order pivots" "cl \<in> set clusters"
  shows "set cl \<subseteq> set pivots \<and> distinct (map pv_index cl)"
proof
  have "set cl \<subseteq> set (concat clusters)" using assms(4) by auto
  then show "set cl \<subseteq> set pivots" by (simp add: assms(3))
  obtain xs ys where "clusters = xs @ cl # ys" using assms(4) by (metis split_list)
  then have "mset (map pv_index cl) \<subseteq># mset (map pv_index (concat clusters))" by simp
  also have "\<dots> = mset (map pv_index pivots)" by (simp add: assms(3))
  finally show "distinct (map pv_index cl)"
    using distinct_submset pivot_index_distinct [OF assms(1,2)] by blast
qed

lemma cluster_zone_evidence:
  assumes "zone_rules_wf r" "\<forall>c \<in> set cs. candle_wf c" "find_pivots r cs = Inr pivots"
    "concat clusters = sort_key pivot_order pivots" "cl \<in> set clusters"
    "zone_from_cluster r cs cl = Inr (Some z)"
  shows "map instant (evidence_open_times z) = map pivot_time (sort_key pivot_time cl)"
proof -
  have "candle_wf (pv_candle p)" if "p \<in> set cl" for p
    using cluster_subset [OF assms(1,3,4,5)] find_pivots_facts(1) [OF assms(1,3)] that
      is_pivot_bounds [of r cs "pv_index p"] assms(2) by (auto intro: nth_mem)
  then have "zone_spec r cs (sort_key pivot_time cl) z"
    by (intro zone_from_cluster_spec [OF assms(6,1)]) (simp add: candle_wf_def pv_price_def less_imp_le)
  then show ?thesis by (simp add: zone_spec_def pivot_time_def)
qed

lemma derive_touches:
  assumes "derive_support_zones r cs = Inr zones" "zone_rules_wf r" "\<forall>c \<in> set cs. candle_wf c"
  shows "\<forall>z \<in> set zones. \<exists>ps. touches_of r cs z ps"
proof
  fix z assume z: "z \<in> set zones"
  obtain pivots clusters found where d: "chronological cs"
    "same_series cs"
    "find_pivots r cs = Inr pivots" "concat clusters = sort_key pivot_order pivots"
    "traverse (zone_from_cluster r cs) clusters = Inr found"
    "zones = take (nat (maximum_zones r)) (sort_desc zone_rank (somes found))"
    by (rule derive_Inr [OF assms(1)])
  obtain cl where cl: "cl \<in> set clusters" "zone_from_cluster r cs cl = Inr (Some z)"
    by (rule found_zone [OF d(6) d(5) z])
  have "set cl \<subseteq> set pivots" "distinct (map pv_index cl)"
    using cluster_subset [OF assms(2) d(3,4) cl(1)] by auto
  moreover have "\<forall>p \<in> set pivots. is_pivot r cs (pv_index p) \<and> pv_candle p = cs ! pv_index p"
    using find_pivots_facts [OF assms(2) d(3)] by blast
  ultimately have "touches_of r cs z (sort_key pivot_time cl)"
    using d(2) assms(3)
    by (intro touches_of_cluster [OF cl(2) assms(2) d(1)]) (auto simp: same_series_def)
  then show "\<exists>ps. touches_of r cs z ps" ..
qed

text \<open>
  C37: every derived zone is well formed and rests on at least \<open>minimum_touches\<close> pivot lows, in order
  of time, that its price band covers; it is confirmed by the close of the last candle
  of the last pivot's right-hand window, so that no touch is used before its own window closed.
\<close>

theorem derive_support_zones_touches:
  assumes "derive_support_zones r cs = Inr zones" "zone_rules_wf r" "\<forall>c \<in> set cs. candle_wf c"
  shows "\<forall>z \<in> set zones. \<exists>ps. touches_of r cs z ps"
  by (rule derive_touches [OF assms])

lemma derive_ranked:
  assumes "derive_support_zones r cs = Inr zones" "zone_rules_wf r" "\<forall>c \<in> set cs. candle_wf c"
  shows "int (length zones) \<le> maximum_zones r \<and>
    sorted_wrt (\<lambda>a b. zone_rank b \<le> zone_rank a) zones \<and>
    distinct (concat (map (\<lambda>z. map instant (evidence_open_times z)) zones))"
proof -
  obtain pivots clusters found where d: "chronological cs"
    "same_series cs"
    "find_pivots r cs = Inr pivots" "concat clusters = sort_key pivot_order pivots"
    "traverse (zone_from_cluster r cs) clusters = Inr found"
    "zones = take (nat (maximum_zones r)) (sort_desc zone_rank (somes found))"
    by (rule derive_Inr [OF assms(1)])
  let ?ev = "\<lambda>z. map instant (evidence_open_times z)" and ?all = "somes found"
  have "map instant (evidence_open_times z) = map pivot_time (sort_key pivot_time cl)"
    if "cl \<in> set clusters" "zone_from_cluster r cs cl = Inr (Some z)" for cl z
    using cluster_zone_evidence [OF assms(2,3) d(3,4) that] .
  then have "mset (concat (map ?ev ?all)) \<subseteq># mset (map pivot_time (concat clusters))"
    using d(5) by (intro evidence_submset) (simp_all add: traverse_Inr_iff)
  also have "\<dots> = mset (map pivot_time pivots)" by (simp add: d(4))
  finally have "mset (concat (map ?ev (sort_desc zone_rank ?all))) \<subseteq># mset (map pivot_time pivots)"
    by (simp add: mset_concat_map)
  moreover have "mset (concat (map ?ev zones)) \<subseteq># mset (concat (map ?ev (sort_desc zone_rank ?all)))"
    unfolding d(6) by (metis append_take_drop_id concat_append map_append mset_append mset_subset_eq_add_left)
  ultimately have "distinct (concat (map ?ev zones))"
    using distinct_submset pivot_times_distinct [OF assms(2) d(1,3)] subset_mset.order_trans by metis
  moreover have "sorted_wrt (\<lambda>a b. zone_rank b \<le> zone_rank a) zones"
    unfolding d(6) by (intro sorted_wrt_take sort_desc_sorted)
  moreover have "int (length zones) \<le> maximum_zones r"
    using assms(2) by (auto simp: d(6) zone_rules_wf_def)
  ultimately show ?thesis by blast
qed

text \<open>
  Derived zones are at most \<open>maximum_zones\<close>, ordered by falling rank (strength, last test, high,
  identifier), and no pivot low supports two of them.
\<close>

theorem derive_support_zones_ranked:
  assumes "derive_support_zones r cs = Inr zones" "zone_rules_wf r" "\<forall>c \<in> set cs. candle_wf c"
  shows "int (length zones) \<le> maximum_zones r \<and>
    sorted_wrt (\<lambda>a b. zone_rank b \<le> zone_rank a) zones \<and>
    distinct (concat (map (\<lambda>z. map instant (evidence_open_times z)) zones))"
  by (rule derive_ranked [OF assms])

section \<open>The derivation never raises on market data\<close>

text \<open>
  Candles in the range of real markets: prices from one in ten thousand million to ten thousand
  million, volumes up to a million million, and no positive volume below a hundred-millionth.
  Rules are usable when the padding is positive but less than the price itself, and the width
  limit fits the context. Outside these ranges the code may raise: with no padding, two equal
  lows give a zone whose low is not below its high.
\<close>

definition market_candle :: "candle \<Rightarrow> bool" where
  "market_candle c \<longleftrightarrow>
     candle_wf c \<and> 1 / 10 ^ 10 \<le> dval (low_price c) \<and> dval (high_price c) \<le> 10 ^ 10 \<and>
     (dval (volume c) = 0 \<or> 1 / 10 ^ 8 \<le> dval (volume c)) \<and> dval (volume c) \<le> 10 ^ 12"

definition usable_zone_rules :: "decimal zone_rules \<Rightarrow> bool" where
  "usable_zone_rules r \<longleftrightarrow>
     zone_rules_wf r \<and> 1 / 1000 \<le> dval (zone_padding_bps r) \<and> dval (zone_padding_bps r) \<le> 5000 \<and>
     dval (maximum_zone_width_bps r) \<le> 10 ^ 20"

lemma default_zone_rules_usable: "usable_zone_rules default_zone_rules"
  by (simp add: usable_zone_rules_def default_zone_rules_wf) (simp add: default_zone_rules_def)

lemma padding_bounds:
  assumes "usable_zone_rules r" "ddiv (zone_padding_bps r) BPS = Inr pad"
  shows "1 / 10 ^ 7 \<le> dval pad" "dval pad \<le> 1 / 2"
proof -
  have pad: "dval pad = dec_round (dval (zone_padding_bps r) / 10000)"
    using ddiv_Inr [OF assms(2)] by (simp add: BPS_def)
  have "dec_round (1 / 10 ^ 7) = 1 / 10 ^ 7" using dec_round_exact [of 1 "-7"]
    by (simp add: power_int_minus inverse_eq_divide)
  then show "1 / 10 ^ 7 \<le> dval pad" unfolding pad
    by (rule dec.R_ge) (use assms(1) in \<open>simp add: usable_zone_rules_def\<close>)
  have "dec_round (1 / 2) = 1 / 2" using dec_round_exact [of 5 "-1"] by simp
  then show "dval pad \<le> 1 / 2" unfolding pad
    by (rule dec.R_le) (use assms(1) in \<open>simp add: usable_zone_rules_def\<close>)
qed

lemma factor_bounds:
  assumes "1 / 10 ^ 7 \<le> dval pad" "dval pad \<le> 1 / 2"
  shows "1 / 2 \<le> dval (dsub (dec 1 0) pad)" "dval (dsub (dec 1 0) pad) \<le> 1 - 1 / 10 ^ 7"
    "1 + 1 / 10 ^ 7 \<le> dval (dadd (dec 1 0) pad)" "dval (dadd (dec 1 0) pad) \<le> 3 / 2"
proof -
  have exact: "dec_round (1 / 2) = 1 / 2" "dec_round (3 / 2) = 3 / 2"
    "dec_round (1 - 1 / 10 ^ 7) = 1 - 1 / 10 ^ 7" "dec_round (1 + 1 / 10 ^ 7) = 1 + 1 / 10 ^ 7"
    using dec_round_exact [of 5 "-1"] dec_round_exact [of 15 "-1"]
      dec_round_exact [of 9999999 "-7"] dec_round_exact [of 10000001 "-7"]
    by (simp_all add: power_int_minus inverse_eq_divide)
  show "1 / 2 \<le> dval (dsub (dec 1 0) pad)" "dval (dsub (dec 1 0) pad) \<le> 1 - 1 / 10 ^ 7"
    using assms dec.R_ge [OF exact(1)] dec.R_le [OF exact(3)] by (simp_all add: dval_dsub)
  show "1 + 1 / 10 ^ 7 \<le> dval (dadd (dec 1 0) pad)" "dval (dadd (dec 1 0) pad) \<le> 3 / 2"
    using assms dec.R_ge [OF exact(4)] dec.R_le [OF exact(2)] by (simp_all add: dval_dadd)
qed

lemma padded_bounds:
  assumes pad: "1 / 10 ^ 7 \<le> dval pad" "dval pad \<le> 1 / 2"
    and lo: "1 / 10 ^ 12 \<le> dval lo" "dval lo \<le> dval hi"
  shows "1 / 10 ^ 13 \<le> dval (dmul lo (dsub (dec 1 0) pad))"
    "dval (dmul lo (dsub (dec 1 0) pad)) < dval (dmul hi (dadd (dec 1 0) pad))"
proof -
  let ?a = "dval (dsub (dec 1 0) pad)" and ?b = "dval (dadd (dec 1 0) pad)"
  note f = factor_bounds [OF pad]
  have pos: "0 < dval lo" using lo(1) by (rule less_le_trans [rotated]) simp
  have "1 / 10 ^ 12 * (1 / 2) \<le> dval lo * ?a" using lo(1) f(1) by (intro mult_mono) auto
  then have xa: "1 / 10 ^ 13 \<le> dval lo * ?a" by simp
  have "dec_round (1 / 10 ^ 13) = 1 / 10 ^ 13" using dec_round_exact [of 1 "-13"]
    by (simp add: power_int_minus inverse_eq_divide)
  from dec.R_ge [OF this xa] show "1 / 10 ^ 13 \<le> dval (dmul lo (dsub (dec 1 0) pad))"
    by (simp add: dval_dmul)
  have "\<bar>dec_round (dval lo * ?a) - dval lo * ?a\<bar> \<le> dval lo * ?a / 10 ^ 27"
    by (rule dec_round_error) (use xa in simp)
  then have "dec_round (dval lo * ?a) \<le> dval lo * ?a + dval lo * ?a / 10 ^ 27" by linarith
  also have "\<dots> = dval lo * (?a * (1 + 1 / 10 ^ 27))" by (simp add: algebra_simps)
  also have "\<dots> < dval lo"
    using pos f(2) by (simp add: field_simps)
  finally have low: "dval (dmul lo (dsub (dec 1 0) pad)) < dval lo" by (simp add: dval_dmul)
  have "dval lo * 1 \<le> dval hi * ?b" using lo(2) pos f(3) by (intro mult_mono) auto
  then have xb: "1 / 10 ^ 60 \<le> dval hi * ?b" using lo(1) by simp
  have "dval lo \<le> dval hi" by fact
  also have "\<dots> \<le> dval hi * (?b * (1 - 1 / 10 ^ 27))"
    using pos lo(2) f(3) by (simp add: field_simps)
  also have "\<dots> = dval hi * ?b - dval hi * ?b / 10 ^ 27" by (simp add: algebra_simps)
  also have "\<dots> \<le> dec_round (dval hi * ?b)" using dec_round_error [OF xb] by linarith
  finally have "dval lo \<le> dval (dmul hi (dadd (dec 1 0) pad))" by (simp add: dval_dmul)
  with low show "dval (dmul lo (dsub (dec 1 0) pad)) < dval (dmul hi (dadd (dec 1 0) pad))"
    by (rule less_le_trans)
qed

lemma zone_strength_succeeds:
  assumes "0 < bars" "i < bars"
  shows "\<exists>s. zone_strength t k i bars = Inr s \<and> 0 \<le> dval s \<and> dval s \<le> 100"
proof -
  obtain q where q: "ddiv (dec (int i + 1) 0) (dec (int bars) 0) = Inr q"
    "dval q = dec_round (dval (dec (int i + 1) 0) / dval (dec (int bars) 0))"
    using ddiv_succeeds [of "dec (int bars) 0" "dec (int i + 1) 0"] assms by auto
  have q0: "0 \<le> dval q" using assms unfolding q(2) by (intro dec.R_nonneg) simp
  define raw where "raw = dmin (dec 100 0) (dadd (dadd (dadd (dec 25 0) (dec (int t * 12) 0))
    (dec (int k * 6) 0)) (dmul q (dec 15 0)))"
  have raw: "0 \<le> dval raw" "dval raw \<le> 100"
    using q0 by (auto simp: raw_def value_simps intro!: dec.R_nonneg add_nonneg_nonneg)
  obtain s where s: "quantize raw (-2) = Inr s" "dval s = quantized (dval raw) (-2)"
    using quantize_succeeds [of raw 10000 "-2"] raw by auto
  have "quantized (dval raw) (-2) \<le> quantized 100 (-2)" using raw(2) by (rule quantized_mono)
  then have "dval s \<le> 100" using quantized_exact [of 10000 "-2"] s(2) by simp
  moreover have "0 \<le> dval s" unfolding s(2) using raw(1) by (rule quantized_nonneg)
  ultimately show ?thesis using q(1) s(1) by (simp add: zone_strength_def raw_def)
qed

lemma SupportZone_fields_succeeds:
  assumes "dval price_floor \<le> dval zlow" "dval zlow < dval zhigh" "0 \<le> dval s" "dval s \<le> 100"
    "htf (cd_interval (pv_candle first))" "normal_symbol (cd_symbol (pv_candle first))"
    "aware (close_time (pv_candle first))" "aware (close_time (pv_candle final))" "aware confirmed"
    "instant (close_time (pv_candle first)) \<le> instant confirmed"
    "instant (close_time (pv_candle first)) \<le> instant (close_time (pv_candle final))"
    "2 \<le> length ev" "k \<le> length ev" "\<forall>t \<in> set ev. aware t" "sorted_wrt (<) (map instant ev)"
  shows "\<exists>z. SupportZone (zone_fields r first final ev zlow zhigh confirmed k s w) = Inr z"
proof -
  have "strip (zone_ident a b c d e f g) \<noteq> []" for a b c d e f g
    by (auto simp: strip_eq_Nil zone_ident_def is_space_def spaces_def)
  moreover have "upper (strip (cd_symbol (pv_candle first))) \<noteq> []"
    using assms(6) by (simp add: normal_symbol_def)
  moreover from assms have "dval price_floor \<le> dval zhigh" by linarith
  ultimately have "succeeds (SupportZone (zone_fields r first final ev zlow zhigh confirmed k s w))"
    using assms
    by (auto simp: SupportZone_def zone_fields_def Let_def result_simps sort_remdups_eq)
  then show ?thesis by (simp add: succeeds_iff)
qed

lemma rejects_succeeds: "dval (pv_price p) \<noteq> 0 \<Longrightarrow> succeeds (rejects r p)"
  using ddiv_succeeds [of "pv_price p"] by (fastforce simp: rejects_def result_simps)

lemma width_succeeds:
  assumes "1 / 10 ^ 13 \<le> dval zlow" "dval zlow < dval zhigh"
  shows "\<exists>m q. ddiv (dadd zlow zhigh) (dec 2 0) = Inr m \<and> ddiv (dsub zhigh zlow) m = Inr q \<and>
    0 \<le> dval (dmul q BPS)"
proof -
  have exact: "dec_round (1 / 10 ^ 13) = 1 / 10 ^ 13" "dec_round (1 / 10 ^ 14) = 1 / 10 ^ 14"
    using dec_round_exact [of 1 "-13"] dec_round_exact [of 1 "-14"]
    by (simp_all add: power_int_minus inverse_eq_divide)
  obtain m where m: "ddiv (dadd zlow zhigh) (dec 2 0) = Inr m"
    "dval m = dec_round (dval (dadd zlow zhigh) / 2)"
    using ddiv_succeeds [of "dec 2 0" "dadd zlow zhigh"] by auto
  have pos: "0 \<le> dval zlow" using assms(1) by (rule order_trans [rotated]) simp
  then have "1 / 10 ^ 13 \<le> dval (dadd zlow zhigh)"
    unfolding dval_dadd using assms by (intro dec.R_ge [OF exact(1)]) linarith
  then have "1 / 10 ^ 14 \<le> dval (dadd zlow zhigh) / 2" by simp
  from dec.R_ge [OF exact(2) this] have m0: "0 < dval m"
    unfolding m(2) by (rule less_le_trans [rotated]) simp
  then obtain q where q: "ddiv (dsub zhigh zlow) m = Inr q"
    "dval q = dec_round (dval (dsub zhigh zlow) / dval m)"
    using ddiv_succeeds [of m "dsub zhigh zlow"] by auto
  have "0 \<le> dval (dsub zhigh zlow)" using assms(2) by (simp add: dval_dsub dec.R_sub_nonneg)
  then have "0 \<le> dval q" using m0 unfolding q(2) by (intro dec.R_nonneg) simp
  then have "0 \<le> dval (dmul q BPS)" by (simp add: dval_dmul BPS_def dec.R_nonneg)
  with m(1) q(1) show ?thesis by blast
qed

definition pivots_of :: "decimal zone_rules \<Rightarrow> candle list \<Rightarrow> pivot_low list \<Rightarrow> bool" where
  "pivots_of r cs ps \<longleftrightarrow> (\<forall>p \<in> set ps. is_pivot r cs (pv_index p) \<and> pv_candle p = cs ! pv_index p)"

lemma pivots_of_bound:
  "pivots_of r cs ps \<Longrightarrow> p \<in> set ps \<Longrightarrow>
     pv_index p + nat (pivot_right r) < length cs \<and> pv_candle p = cs ! pv_index p \<and> pv_candle p \<in> set cs"
  using is_pivot_bounds by (fastforce simp: pivots_of_def)

lemma zone_fields_succeed:
  assumes cs: "chronological cs" "same_series cs" "\<forall>c \<in> set cs. market_candle c"
    and ps: "pivots_of r cs ps" "sorted_wrt (\<lambda>p q. pv_index p < pv_index q) ps" "2 \<le> length ps"
    and z: "dval price_floor \<le> dval zlow" "dval zlow < dval zhigh"
    and s: "0 \<le> dval s" "dval s \<le> 100" "k \<le> length ps"
  shows "\<exists>z. SupportZone (zone_fields r (hd ps) (last ps) (map (\<lambda>p. open_time (pv_candle p)) ps)
    zlow zhigh (close_time (cs ! (pv_index (last ps) + nat (pivot_right r)))) k s w) = Inr z"
proof -
  have hl: "hd ps \<in> set ps" "last ps \<in> set ps" using ps(3) by (cases ps; auto)+
  note piv = pivots_of_bound [OF ps(1)]
  let ?f = "pv_index (last ps) + nat (pivot_right r)"
  have wf: "candle_wf c \<and> cd_interval c = cd_interval (hd cs)" if "c \<in> set cs" for c
    using that cs(2,3) by (auto simp: same_series_def market_candle_def)
  have le: "pv_index (hd ps) \<le> pv_index (last ps)" using index_le_last [OF ps(2) hl(1)] .
  have mono: "instant (close_time (cs ! i)) \<le> instant (close_time (cs ! j))"
    if "i \<le> j" "j < length cs" for i j
    using close_time_mono [OF cs(1) _ that] wf by blast
  have "instant (open_time (pv_candle p)) < instant (open_time (pv_candle q))"
    if "p \<in> set ps" "q \<in> set ps" "pv_index p < pv_index q" for p q
    using piv [OF that(1)] piv [OF that(2)] chronological_nth [OF cs(1) that(3)] by simp
  then have "sorted_wrt (\<lambda>p q. instant (open_time (pv_candle p)) < instant (open_time (pv_candle q))) ps"
    by (rule sorted_wrt_mono_rel [OF _ ps(2)])
  then have sorted: "sorted_wrt (<) (map instant (map (\<lambda>p. open_time (pv_candle p)) ps))"
    by (simp add: sorted_wrt_map)
  have aware: "\<forall>t \<in> set (map (\<lambda>p. open_time (pv_candle p)) ps). aware t"
  proof -
    have "aware (open_time (pv_candle p))" if "p \<in> set ps" for p
      using wf [of "pv_candle p"] piv [OF that] by (simp add: candle_wf_def)
    then show ?thesis by simp
  qed
  have f: "?f < length cs" "pv_index (hd ps) \<le> ?f" "pv_index (last ps) < length cs"
    using piv [OF hl(2)] le by auto
  have times: "instant (close_time (pv_candle (hd ps))) \<le> instant (close_time (cs ! ?f))"
    "instant (close_time (pv_candle (hd ps))) \<le> instant (close_time (pv_candle (last ps)))"
    using mono [OF f(2,1)] mono [OF le f(3)] piv [OF hl(1)] piv [OF hl(2)] by simp_all
  have wfs: "candle_wf (pv_candle (hd ps))" "candle_wf (pv_candle (last ps))" "candle_wf (cs ! ?f)"
    using wf piv [OF hl(1)] piv [OF hl(2)] f(1) by auto
  have "htf (cd_interval (pv_candle (hd ps)))"
    using cs(2) piv [OF hl(1)] unfolding same_series_def by blast
  with wfs have head: "htf (cd_interval (pv_candle (hd ps)))" "normal_symbol (cd_symbol (pv_candle (hd ps)))"
    "aware (close_time (pv_candle (hd ps)))" "aware (close_time (pv_candle (last ps)))"
    "aware (close_time (cs ! ?f))"
    by (simp_all add: candle_wf_def)
  show ?thesis
    by (rule SupportZone_fields_succeeds [OF z s(1,2) head times _ _ aware sorted])
      (use ps(3) s(3) in simp_all)
qed

lemma core_succeed:
  assumes rules: "usable_zone_rules r" and mk: "\<forall>p \<in> set (first # rest). market_candle (pv_candle p)"
  defines "lo \<equiv> min_by dval (pv_price first) (map pv_price rest)"
    and "hi \<equiv> max_by dval (pv_price first) (map pv_price rest)"
  shows "\<exists>pad. ddiv (zone_padding_bps r) BPS = Inr pad \<and>
    1 / 10 ^ 13 \<le> dval (dmul lo (dsub (dec 1 0) pad)) \<and>
    dval (dmul lo (dsub (dec 1 0) pad)) < dval (dmul hi (dadd (dec 1 0) pad))"
proof -
  have "lo \<in> pv_price ` set (first # rest)"
    using min_by_in [of dval "pv_price first" "map pv_price rest"] by (auto simp: lo_def)
  then have "1 / 10 ^ 10 \<le> dval lo" using mk by (auto simp: market_candle_def pv_price_def)
  then have lo: "1 / 10 ^ 12 \<le> dval lo" by (rule order_trans [rotated]) simp
  have lohi: "dval lo \<le> dval hi"
    using min_by_le [of "pv_price first" "pv_price first" "map pv_price rest" dval]
      max_by_ge [of "pv_price first" "pv_price first" "map pv_price rest" dval]
    by (simp add: lo_def hi_def)
  obtain pad where pad: "ddiv (zone_padding_bps r) BPS = Inr pad"
    using ddiv_succeeds [of BPS] by (force simp: BPS_def)
  with padded_bounds [OF padding_bounds [OF rules pad] lo lohi] show ?thesis by blast
qed

lemma zone_from_cluster_succeeds:
  assumes rules: "usable_zone_rules r" and cs: "chronological cs" "same_series cs"
      "\<forall>c \<in> set cs. market_candle c"
    and piv: "pivots_of r cs cluster" and dist: "distinct (map pv_index cluster)"
  shows "\<exists>z. zone_from_cluster r cs cluster = Inr z"
proof (cases "int (length cluster) < minimum_touches r")
  case True
  then show ?thesis by (simp add: zone_from_cluster_def)
next
  case False
  define ps where "ps = sort_key pivot_time cluster"
  have len: "2 \<le> length ps"
    using False rules by (auto simp: ps_def usable_zone_rules_def zone_rules_wf_def)
  then obtain first rest where ord: "ps = first # rest" by (cases ps) auto
  have pv: "pivots_of r cs ps" using piv by (simp add: ps_def pivots_of_def)
  note bound = pivots_of_bound [OF pv]
  have mk: "\<forall>p \<in> set (first # rest). market_candle (pv_candle p)" using bound cs(3) ord by blast
  have sorted: "sorted_wrt (\<lambda>p q. pv_index p < pv_index q) ps"
    unfolding ps_def using pivots_of_bound [OF piv] by (intro sort_key_index [OF cs(1) _ dist]) fastforce
  let ?lo = "min_by dval (pv_price first) (map pv_price rest)"
  let ?hi = "max_by dval (pv_price first) (map pv_price rest)"
  obtain pad where pad: "ddiv (zone_padding_bps r) BPS = Inr pad"
    and z: "1 / 10 ^ 13 \<le> dval (dmul ?lo (dsub (dec 1 0) pad))"
    "dval (dmul ?lo (dsub (dec 1 0) pad)) < dval (dmul ?hi (dadd (dec 1 0) pad))"
    using core_succeed [OF rules mk] by blast
  let ?zl = "dmul ?lo (dsub (dec 1 0) pad)" and ?zh = "dmul ?hi (dadd (dec 1 0) pad)"
  obtain m q where mq: "ddiv (dadd ?zl ?zh) (dec 2 0) = Inr m" "ddiv (dsub ?zh ?zl) m = Inr q"
    "0 \<le> dval (dmul q BPS)" using width_succeeds [OF z] by blast
  have "succeeds (traverse (rejects r) ps)"
    using mk unfolding traverse_succeeds_iff ord
    by (force simp: market_candle_def candle_wf_def pv_price_def intro: rejects_succeeds)
  then obtain flags where flags: "traverse (rejects r) ps = Inr flags" by (auto simp: succeeds_iff)
  have last: "last ps \<in> set ps" using ord by simp
  obtain s where s: "zone_strength (length ps) (count_where id flags) (pv_index (last ps)) (length cs) = Inr s"
    "0 \<le> dval s" "dval s \<le> 100"
    using zone_strength_succeeds [of "length cs" "pv_index (last ps)"] bound [OF last] by fastforce
  have k: "count_where id flags \<le> length ps"
    using traverse_length [OF flags] length_filter_le [of id flags] by (simp add: count_where_def)
  have fl: "dval price_floor \<le> dval ?zl"
    using z(1) by (rule order_trans [rotated]) (simp add: price_floor_def power_int_minus inverse_eq_divide)
  have w: "\<exists>w. quantize (dmul q BPS) (-2) = Inr w" if "\<not> dval (maximum_zone_width_bps r) < dval (dmul q BPS)"
    using that rules mq(3) quantize_succeeds [of "dmul q BPS" "10 ^ 22" "-2"]
    by (auto simp: usable_zone_rules_def)
  have "\<exists>v. SupportZone (zone_fields r first (last ps) (map (\<lambda>p. open_time (pv_candle p)) ps) ?zl ?zh
      (close_time (cs ! (pv_index (last ps) + nat (pivot_right r)))) (count_where id flags) s w) = Inr v" for w
    using zone_fields_succeed [OF cs pv sorted len fl z(2) s(2,3) k] by (simp add: ord)
  then have rest: "\<exists>z. and_then (quantize (dmul q BPS) (-2)) (\<lambda>w. and_then (SupportZone
      (zone_fields r first (last ps) (map (\<lambda>p. open_time (pv_candle p)) ps) ?zl ?zh
      (close_time (cs ! (pv_index (last ps) + nat (pivot_right r)))) (count_where id flags) s w))
      (\<lambda>z. Inr (Some z))) = Inr z" if "\<not> dval (maximum_zone_width_bps r) < dval (dmul q BPS)"
    using w [OF that] by (auto simp: result_simps)
  have run: "zone_from_cluster r cs cluster =
     (if dval (maximum_zone_width_bps r) < dval (dmul q BPS) then Inr None
      else and_then (quantize (dmul q BPS) (-2)) (\<lambda>w. and_then (SupportZone
      (zone_fields r first (last ps) (map (\<lambda>p. open_time (pv_candle p)) ps) ?zl ?zh
      (close_time (cs ! (pv_index (last ps) + nat (pivot_right r)))) (count_where id flags) s w))
      (\<lambda>z. Inr (Some z))))"
    using bound [OF last] False pad mq flags s(1)
    unfolding zone_from_cluster_def ps_def [symmetric] ord list.case Let_def
    by (simp add: not_le)
  show ?thesis unfolding run using rest by simp
qed

lemma derive_succeeds:
  assumes rules: "usable_zone_rules r" and cs: "chronological cs" "same_series cs"
    "\<forall>c \<in> set cs. market_candle c"
  shows "\<exists>zones. derive_support_zones r cs = Inr zones"
proof -
  have wf: "zone_rules_wf r" using rules by (simp add: usable_zone_rules_def)
  obtain pivots where pv: "find_pivots r cs = Inr pivots" using find_pivots_ok [OF wf] by blast
  have piv: "pivots_of r cs pivots" using find_pivots_facts(1) [OF wf pv] by (simp add: pivots_of_def)
  have "dval price_floor \<le> dval (pv_price p)" if "p \<in> set pivots" for p
  proof -
    have "1 / 10 ^ 10 \<le> dval (pv_price p)"
      using cs(3) pivots_of_bound [OF piv that] by (auto simp: market_candle_def pv_price_def)
    then show ?thesis
      by (rule order_trans [rotated]) (simp add: price_floor_def power_int_minus inverse_eq_divide)
  qed
  then obtain cl where cl: "cluster_pivots r pivots = Inr cl" using cluster_pivots_succeeds by blast
  have "\<exists>z. zone_from_cluster r cs c = Inr z" if "c \<in> set cl" for c
    using cluster_subset [OF wf pv conjunct1 [OF cluster_pivots_concat [OF cl]] that] piv
    by (intro zone_from_cluster_succeeds [OF rules cs]) (auto simp: pivots_of_def)
  then obtain found where "traverse (zone_from_cluster r cs) cl = Inr found"
    using traverse_succeeds_iff [of "zone_from_cluster r cs" cl] by (auto simp: succeeds_iff)
  moreover have "validate_candles cs = Inr ()" using cs(1,2) by (simp add: validate_candles_Inr)
  ultimately show ?thesis using pv cl by (simp add: derive_support_zones_def)
qed

lemma sample_market:
  "\<forall>c \<in> set (sample_candles H4). market_candle c" "\<forall>c \<in> set (sample_candles D1). market_candle c"
  by code_simp+

lemma sample_series_ok:
  "chronological (sample_candles H4)" "same_series (sample_candles H4)"
  "chronological (sample_candles D1)" "same_series (sample_candles D1)"
  by code_simp+

lemma sample_candles_wf: "\<forall>c \<in> set (sample_candles H4). candle_wf c"
  using sample_market by (simp add: market_candle_def)

text \<open>
  On chronological Daily or 4H candles of one series with prices in the market range, and
  rules with a positive padding, \<open>derive_support_zones\<close> never raises.
\<close>

theorem derive_support_zones_total:
  assumes "usable_zone_rules r" "chronological cs" "same_series cs" "\<forall>c \<in> set cs. market_candle c"
  shows "\<exists>zones. derive_support_zones r cs = Inr zones"
  using derive_succeeds [OF assms] .

theorem derive_support_zones_total_witness:
  "\<exists>zones. derive_support_zones default_zone_rules (sample_candles H4) = Inr zones"
  using derive_support_zones_total [OF default_zone_rules_usable sample_series_ok(1,2) sample_market(1)] .

theorem derive_support_zones_touches_witness:
  "\<exists>zones. derive_support_zones default_zone_rules (sample_candles H4) = Inr zones \<and>
     list_all zone_wf zones"
proof -
  obtain zones where z: "derive_support_zones default_zone_rules (sample_candles H4) = Inr zones"
    using derive_succeeds [OF default_zone_rules_usable sample_series_ok(1,2) sample_market(1)] by blast
  have "\<forall>z \<in> set zones. \<exists>ps. touches_of default_zone_rules (sample_candles H4) z ps"
    by (rule derive_support_zones_touches [OF z default_zone_rules_wf sample_candles_wf])
  with z show ?thesis by (auto simp: touches_of_def zone_spec_def list_all_iff)
qed

theorem derive_support_zones_ranked_witness:
  "\<exists>zones. derive_support_zones default_zone_rules (sample_candles H4) = Inr zones \<and> length zones \<le> 5"
proof -
  obtain zones where z: "derive_support_zones default_zone_rules (sample_candles H4) = Inr zones"
    using derive_succeeds [OF default_zone_rules_usable sample_series_ok(1,2) sample_market(1)] by blast
  have "int (length zones) \<le> maximum_zones default_zone_rules"
    using derive_support_zones_ranked [OF z default_zone_rules_wf sample_candles_wf] by blast
  with z show ?thesis by (simp add: default_zone_rules_def)
qed

end
