(* ===== verification/Structure_Events.thy ===== *)
theory Structure_Events
  imports Support_Zones "HOL-Library.Sublist"
begin

text \<open>
  \<^verbatim>\<open>app/structure/structure_events.py\<close>: the events of one support zone. The candles that open
  after the zone is confirmed are scanned once; the scan waits for a confirmed break (noting the
  first incomplete one), then for a close back above the zone, or gives the zone up when it is
  too old. The latest event decides the evidence of the timeframe.
\<close>

record 'd event_rules =
  minimum_break_distance_bps :: 'd
  minimum_break_body_fraction :: 'd
  fake_break_max_bars :: int
  maximum_zone_age_bars :: int
  volume_lookback :: int

definition StructureEventRules :: "raw_decimal event_rules \<Rightarrow> decimal event_rules result" where
  "StructureEventRules r =
     (case minimum_break_distance_bps r of
       Finite gap \<Rightarrow>
         if dval gap < 0 then Inl (ValueError ''minimum_break_distance_bps must be non-negative'')
         else (case minimum_break_body_fraction r of
           Finite body \<Rightarrow>
             if dval body < 0 \<or> 1 < dval body
               then Inl (ValueError ''minimum_break_body_fraction must be between zero and one'')
             else if fake_break_max_bars r < 1
               then Inl (ValueError ''fake_break_max_bars must be positive'')
             else if maximum_zone_age_bars r < 1
               then Inl (ValueError ''maximum_zone_age_bars must be positive'')
             else if volume_lookback r < 1 then Inl (ValueError ''volume_lookback must be positive'')
             else Inr \<lparr>minimum_break_distance_bps = gap, minimum_break_body_fraction = body,
               fake_break_max_bars = fake_break_max_bars r,
               maximum_zone_age_bars = maximum_zone_age_bars r, volume_lookback = volume_lookback r\<rparr>
         | _ \<Rightarrow> Inl (ValueError ''minimum_break_body_fraction must be between zero and one''))
     | _ \<Rightarrow> Inl (ValueError ''minimum_break_distance_bps must be non-negative''))"

definition default_event_rules :: "decimal event_rules" where
  "default_event_rules = \<lparr>minimum_break_distance_bps = dec 10 0,
     minimum_break_body_fraction = dec 45 (-2), fake_break_max_bars = 3,
     maximum_zone_age_bars = 100, volume_lookback = 5\<rparr>"

fun validate_inputs :: "zone \<Rightarrow> int option \<Rightarrow> candle list \<Rightarrow> unit result" where
  "validate_inputs z prev [] = Inr ()"
| "validate_inputs z prev (c # cs) =
     (if cd_source c \<noteq> sz_source z \<or> cd_symbol c \<noteq> sz_symbol z \<or> cd_interval c \<noteq> sz_interval z
        then Inl (ValueError ''candle does not match support zone'')
      else if (case prev of None \<Rightarrow> False | Some p \<Rightarrow> instant (open_time c) \<le> p)
        then Inl (ValueError ''candles must be strictly chronological'')
      else validate_inputs z (Some (instant (open_time c))) cs)"

definition body_fraction :: "candle \<Rightarrow> decimal result" where
  "body_fraction c =
     (let candle_range = dsub (high_price c) (low_price c) in
      if dval candle_range = 0 then Inr (dec 0 0)
      else and_then (ddiv (dabs (dsub (close_price c) (open_price c))) candle_range)
             (\<lambda>q. quantize q (-4)))"

definition volume_ratio :: "candle list \<Rightarrow> nat \<Rightarrow> int \<Rightarrow> decimal option result" where
  "volume_ratio cs index lookback =
     (let history = window (index - nat lookback) index cs in
      if history = [] then Inr None
      else and_then (ddiv (dsum (map volume history)) (dec (int (length history)) 0)) (\<lambda>average.
      if dval average = 0 then Inr None
      else and_then (ddiv (volume (cs ! index)) average) (\<lambda>q.
      and_then (quantize q (-4)) (\<lambda>r. Inr (Some r)))))"

definition event_ident :: "string \<Rightarrow> candle \<Rightarrow> structure_event_state \<Rightarrow> string" where
  "event_ident zid c state =
     ''event_'' @ take 24 (sha256_hexdigest (join ''|''
       [zid, isoformat (open_time c), isoformat (close_time c), event_state_value state]))"

definition make_event ::
  "zone \<Rightarrow> candle \<Rightarrow> structure_event_state \<Rightarrow> decimal \<Rightarrow> decimal \<Rightarrow> decimal option \<Rightarrow> string list \<Rightarrow>
     string option \<Rightarrow> event result" where
  "make_event z c state gap body ratio reasons invalidates =
     and_then (quantize gap (-2)) (\<lambda>d.
     StructureEvent \<lparr>se_id = event_ident (sz_id z) c state, se_zone_id = sz_id z,
       se_source = sz_source z, se_symbol = sz_symbol z, se_interval = sz_interval z,
       se_state = state, se_observed_at = close_time c, se_open_time = open_time c,
       se_close_price = Finite (close_price c), se_zone_low = Finite (sz_low z),
       se_zone_high = Finite (sz_high z), distance_bps = Finite d,
       se_body_fraction = Finite body, se_volume_ratio = map_option Finite ratio,
       invalidates_event_id = invalidates, se_reasons = reasons\<rparr>)"

text \<open>
  The loop of \<open>build_structure_events\<close> over the relevant candles. \<open>confirmed\<close> holds the index and
  the identifier of the confirmed break, which the code sets together; \<open>break\<close> ends the recursion.
\<close>

fun scan ::
  "decimal event_rules \<Rightarrow> zone \<Rightarrow> candle list \<Rightarrow> nat \<Rightarrow> (nat \<times> string) option \<Rightarrow> bool \<Rightarrow> candle list \<Rightarrow>
     event list result"
where
  "scan r z relevant index confirmed pending [] = Inr []"
| "scan r z relevant index confirmed pending (c # cs) =
     and_then (body_fraction c) (\<lambda>body.
     and_then (volume_ratio relevant index (volume_lookback r)) (\<lambda>ratio.
     case confirmed of
       None \<Rightarrow>
         if dval (close_price c) < dval (sz_low z) then
           and_then (ddiv (dsub (sz_low z) (close_price c)) (sz_low z)) (\<lambda>q.
           let gap = dmul q BPS in
           if dval (minimum_break_distance_bps r) \<le> dval gap \<and>
              dval (minimum_break_body_fraction r) \<le> dval body then
             and_then (make_event z c CONFIRMED_BREAK gap body ratio
               [''CLOSE_BELOW_SUPPORT_ZONE'', ''BREAK_DISTANCE_CONFIRMED'', ''BREAK_BODY_CONFIRMED'']
               None) (\<lambda>e.
             and_then (scan r z relevant (index + 1) (Some (index, se_id e)) pending cs) (\<lambda>es.
             Inr (e # es)))
           else if \<not> pending then
             and_then (make_event z c PENDING_BREAK gap body ratio
               [''CLOSE_BELOW_SUPPORT_ZONE'', ''BREAK_CONFIRMATION_INCOMPLETE''] None) (\<lambda>e.
             and_then (scan r z relevant (index + 1) None True cs) (\<lambda>es. Inr (e # es)))
           else scan r z relevant (index + 1) None pending cs)
         else if maximum_zone_age_bars r < int index + 1 then
           and_then (make_event z c SE_INVALIDATED (dec 0 0) body ratio
             [''SUPPORT_ZONE_EXPIRED_WITHOUT_BREAK''] None) (\<lambda>e. Inr [e])
         else scan r z relevant (index + 1) None pending cs
     | Some (broken, ident) \<Rightarrow>
         if dval (sz_high z) < dval (close_price c) then
           let bars = int index - int broken;
               state = (if bars \<le> fake_break_max_bars r then FAKE_BREAK else SE_RECLAIMED) in
           and_then (ddiv (dsub (close_price c) (sz_high z)) (sz_high z)) (\<lambda>q.
           and_then (make_event z c state (dmul q BPS) body ratio
             [''CLOSE_ABOVE_SUPPORT_ZONE'', ''BARS_AFTER_BREAK_'' @ str_int bars] (Some ident)) (\<lambda>e.
           Inr [e]))
         else scan r z relevant (index + 1) confirmed pending cs))"

definition relevant_candles :: "zone \<Rightarrow> candle list \<Rightarrow> candle list" where
  "relevant_candles z cs = filter (\<lambda>c. instant (confirmed_at z) \<le> instant (open_time c)) cs"

definition build_structure_events ::
  "decimal event_rules \<Rightarrow> zone \<Rightarrow> candle list \<Rightarrow> event list result" where
  "build_structure_events r z cs =
     and_then (validate_inputs z None cs) (\<lambda>_.
       let relevant = relevant_candles z cs in
       if relevant = [] then Inr [] else scan r z relevant 0 None False relevant)"

fun status_map :: "structure_event_state \<Rightarrow> timeframe_structure_status" where
  "status_map PENDING_BREAK = TS_WATCH"
| "status_map CONFIRMED_BREAK = TS_DAMAGED"
| "status_map FAKE_BREAK = TS_RECLAIMED"
| "status_map SE_RECLAIMED = TS_RECLAIMED"
| "status_map SE_INVALIDATED = TS_INVALIDATED"

definition evidence_from_events ::
  "zone option \<Rightarrow> event list \<Rightarrow> candle_source \<Rightarrow> string \<Rightarrow> candle_interval \<Rightarrow> datetime \<Rightarrow>
     timeframe_evidence result" where
  "evidence_from_events zone events source symbol interval observed =
     (case zone of
       None \<Rightarrow> TimeframeStructureEvidence \<lparr>te_source = source, te_symbol = symbol,
         te_interval = interval, te_status = TS_INSUFFICIENT, te_observed_at = observed,
         te_zone_id = None, te_event_id = None, te_reasons = [''NO_VALID_SUPPORT_ZONE'']\<rparr>
     | Some z \<Rightarrow>
         if events = [] then
           TimeframeStructureEvidence \<lparr>te_source = source, te_symbol = symbol,
             te_interval = interval, te_status = TS_INTACT, te_observed_at = observed,
             te_zone_id = Some (sz_id z), te_event_id = None,
             te_reasons = [''SUPPORT_ZONE_INTACT'']\<rparr>
         else let recent = last events in
           TimeframeStructureEvidence \<lparr>te_source = source, te_symbol = symbol,
             te_interval = interval, te_status = status_map (se_state recent),
             te_observed_at = se_observed_at recent, te_zone_id = Some (sz_id z),
             te_event_id = Some (se_id recent),
             te_reasons = se_reasons recent @ [''EVENT_STATE_'' @ event_state_value (se_state recent)]\<rparr>)"

section \<open>The life of a zone as a state machine\<close>

text \<open>
  The contract of the scan: a zone is watched, then broken, then closed for good. A step consumes
  one candle and may emit the state of an event. The phases carry what the code keeps: whether an
  incomplete break was noted, and the index of the confirmed one.
\<close>

datatype phase = Watching bool | Broken nat | Closed

definition breaks_below :: "zone \<Rightarrow> candle \<Rightarrow> bool" where
  "breaks_below z c \<longleftrightarrow> dval (close_price c) < dval (sz_low z)"

definition closes_above :: "zone \<Rightarrow> candle \<Rightarrow> bool" where
  "closes_above z c \<longleftrightarrow> dval (sz_high z) < dval (close_price c)"

definition confirms :: "decimal event_rules \<Rightarrow> zone \<Rightarrow> candle \<Rightarrow> bool" where
  "confirms r z c \<longleftrightarrow> breaks_below z c \<and>
     (case body_fraction c of Inl e \<Rightarrow> False | Inr body \<Rightarrow>
       dval (minimum_break_body_fraction r) \<le> dval body) \<and>
     (case ddiv (dsub (sz_low z) (close_price c)) (sz_low z) of Inl e \<Rightarrow> False | Inr q \<Rightarrow>
       dval (minimum_break_distance_bps r) \<le> dval (dmul q BPS))"

inductive zone_step ::
  "decimal event_rules \<Rightarrow> zone \<Rightarrow> nat \<Rightarrow> phase \<Rightarrow> candle \<Rightarrow> structure_event_state option \<Rightarrow> phase \<Rightarrow> bool"
  for r z
where
  step_confirm: "confirms r z c \<Longrightarrow> zone_step r z i (Watching p) c (Some CONFIRMED_BREAK) (Broken i)"
| step_pending: "breaks_below z c \<Longrightarrow> \<not> confirms r z c \<Longrightarrow>
    zone_step r z i (Watching False) c (Some PENDING_BREAK) (Watching True)"
| step_below: "breaks_below z c \<Longrightarrow> \<not> confirms r z c \<Longrightarrow>
    zone_step r z i (Watching True) c None (Watching True)"
| step_expire: "\<not> breaks_below z c \<Longrightarrow> maximum_zone_age_bars r < int i + 1 \<Longrightarrow>
    zone_step r z i (Watching p) c (Some SE_INVALIDATED) Closed"
| step_hold: "\<not> breaks_below z c \<Longrightarrow> int i + 1 \<le> maximum_zone_age_bars r \<Longrightarrow>
    zone_step r z i (Watching p) c None (Watching p)"
| step_fake: "closes_above z c \<Longrightarrow> int i - int k \<le> fake_break_max_bars r \<Longrightarrow>
    zone_step r z i (Broken k) c (Some FAKE_BREAK) Closed"
| step_reclaim: "closes_above z c \<Longrightarrow> fake_break_max_bars r < int i - int k \<Longrightarrow>
    zone_step r z i (Broken k) c (Some SE_RECLAIMED) Closed"
| step_stay: "\<not> closes_above z c \<Longrightarrow> zone_step r z i (Broken k) c None (Broken k)"
| step_closed: "zone_step r z i Closed c None Closed"

inductive_cases step_Watching: "zone_step r z i (Watching p) c out ph"
inductive_cases step_Broken: "zone_step r z i (Broken k) c out ph"
inductive_cases step_Closed: "zone_step r z i Closed c out ph"

type_synonym zone_output = "structure_event_state \<times> nat \<times> candle"

inductive zone_run ::
  "decimal event_rules \<Rightarrow> zone \<Rightarrow> nat \<Rightarrow> phase \<Rightarrow> candle list \<Rightarrow> zone_output list \<Rightarrow> phase \<Rightarrow> bool"
  for r z
where
  run_end: "zone_run r z i ph [] [] ph"
| run_emit: "zone_step r z i ph c (Some s) ph' \<Longrightarrow> zone_run r z (i + 1) ph' cs outs fin \<Longrightarrow>
    zone_run r z i ph (c # cs) ((s, i, c) # outs) fin"
| run_silent: "zone_step r z i ph c None ph' \<Longrightarrow> zone_run r z (i + 1) ph' cs outs fin \<Longrightarrow>
    zone_run r z i ph (c # cs) outs fin"

inductive_cases run_Nil: "zone_run r z i ph [] outs fin"
inductive_cases run_Cons: "zone_run r z i ph (c # cs) outs fin"

lemma zone_step_deterministic:
  "zone_step r z i ph c out ph' \<Longrightarrow> zone_step r z i ph c out' ph'' \<Longrightarrow> out = out' \<and> ph' = ph''"
  by (induction rule: zone_step.induct)
    (auto elim!: step_Watching step_Broken step_Closed simp: confirms_def)

lemma zone_step_total: "\<exists>out ph'. zone_step r z i ph c out ph'"
proof (cases ph)
  case (Watching p)
  show ?thesis
  proof (cases "breaks_below z c")
    case True
    then show ?thesis unfolding Watching
      by (cases p) (metis step_confirm step_below, metis step_confirm step_pending)
  next
    case False
    then show ?thesis unfolding Watching by (metis not_le step_expire step_hold)
  qed
next
  case (Broken k)
  then show ?thesis by (metis not_le step_fake step_reclaim step_stay)
next
  case Closed
  then show ?thesis by (metis step_closed)
qed

lemma zone_run_Closed: "zone_run r z i Closed cs [] Closed"
  by (induction cs arbitrary: i) (auto intro: zone_run.intros step_closed)

lemma run_Closed_only: "zone_run r z i Closed cs outs fin \<Longrightarrow> outs = [] \<and> fin = Closed"
  by (induction cs arbitrary: i outs) (auto elim!: run_Nil run_Cons step_Closed)

text \<open>From a broken zone: nothing, or one event at the first close above the zone.\<close>

lemma run_Broken:
  "zone_run r z i (Broken k) cs outs fin \<Longrightarrow>
     (\<forall>c \<in> set cs. \<not> closes_above z c) \<and> outs = [] \<and> fin = Broken k \<or>
     (\<exists>n < length cs. closes_above z (cs ! n) \<and> (\<forall>m < n. \<not> closes_above z (cs ! m)) \<and> fin = Closed \<and>
        outs = [(if int (i + n) - int k \<le> fake_break_max_bars r then FAKE_BREAK else SE_RECLAIMED,
                 i + n, cs ! n)])"
proof (induction cs arbitrary: i outs)
  case Nil
  then show ?case by (auto elim: run_Nil)
next
  case (Cons c cs)
  show ?case
  proof (cases "closes_above z c")
    case True
    with Cons.prems have "fin = Closed \<and>
        outs = [(if int i - int k \<le> fake_break_max_bars r then FAKE_BREAK else SE_RECLAIMED, i, c)]"
      by (auto elim!: run_Cons step_Broken dest!: run_Closed_only)
    then show ?thesis using True by (intro disjI2 exI [of _ 0]) simp
  next
    case False
    with Cons.prems have run: "zone_run r z (i + 1) (Broken k) cs outs fin"
      by (auto elim!: run_Cons step_Broken)
    from Cons.IH [OF run] show ?thesis
    proof
      assume "(\<forall>c \<in> set cs. \<not> closes_above z c) \<and> outs = [] \<and> fin = Broken k"
      with False show ?thesis by simp
    next
      assume "\<exists>n < length cs. closes_above z (cs ! n) \<and> (\<forall>m < n. \<not> closes_above z (cs ! m)) \<and>
        fin = Closed \<and> outs = [(if int (i + 1 + n) - int k \<le> fake_break_max_bars r then FAKE_BREAK
          else SE_RECLAIMED, i + 1 + n, cs ! n)]"
      then obtain n where "n < length cs" "closes_above z (cs ! n)" "\<forall>m < n. \<not> closes_above z (cs ! m)"
        "fin = Closed" "outs = [(if int (i + 1 + n) - int k \<le> fake_break_max_bars r then FAKE_BREAK
          else SE_RECLAIMED, i + 1 + n, cs ! n)]" by blast
      with False show ?thesis
        by (intro disjI2 exI [of _ "Suc n"]) (auto simp: less_Suc_eq_0_disj)
    qed
  qed
qed

text \<open>
  The first confirmed break that the zone lives to see: no earlier candle confirms, and every
  earlier candle either closes below the zone or comes before the zone is too old.
\<close>

definition first_break :: "decimal event_rules \<Rightarrow> zone \<Rightarrow> nat \<Rightarrow> candle list \<Rightarrow> nat \<Rightarrow> bool" where
  "first_break r z i cs n \<longleftrightarrow>
     n < length cs \<and> confirms r z (cs ! n) \<and>
     (\<forall>m < n. \<not> confirms r z (cs ! m) \<and>
        (breaks_below z (cs ! m) \<or> int (i + m) + 1 \<le> maximum_zone_age_bars r))"

lemma first_break_Cons_0 [simp]: "first_break r z i (c # cs) 0 \<longleftrightarrow> confirms r z c"
  by (simp add: first_break_def)

lemma first_break_Cons_Suc:
  "first_break r z i (c # cs) (Suc n) \<longleftrightarrow>
     \<not> confirms r z c \<and> (breaks_below z c \<or> int i + 1 \<le> maximum_zone_age_bars r) \<and>
     first_break r z (i + 1) cs n"
  by (auto simp: first_break_def less_Suc_eq_0_disj)

lemma first_break_unique: "first_break r z i cs n \<Longrightarrow> first_break r z i cs m \<Longrightarrow> n = m"
  by (metis first_break_def linorder_neqE_nat)

definition pending_only :: "bool \<Rightarrow> zone_output list \<Rightarrow> bool" where
  "pending_only p pre \<longleftrightarrow> pre = [] \<or> (\<not> p \<and> (\<exists>j c. pre = [(PENDING_BREAK, j, c)]))"

definition watched ::
  "decimal event_rules \<Rightarrow> zone \<Rightarrow> nat \<Rightarrow> bool \<Rightarrow> candle list \<Rightarrow> zone_output list \<Rightarrow> phase \<Rightarrow> bool" where
  "watched r z i p cs outs fin \<longleftrightarrow>
     (\<exists>pre. pending_only p pre \<and>
       ((\<exists>n post. first_break r z i cs n \<and> outs = pre @ (CONFIRMED_BREAK, i + n, cs ! n) # post \<and>
           zone_run r z (i + n + 1) (Broken (i + n)) (drop (n + 1) cs) post fin) \<or>
        ((\<nexists>n. first_break r z i cs n) \<and>
           ((\<exists>q. fin = Watching q) \<and> outs = pre \<or>
            fin = Closed \<and> (\<exists>j c. outs = pre @ [(SE_INVALIDATED, j, c)])))))"

lemma watched_skip:
  assumes "watched r z (i + 1) q cs outs fin" "\<not> confirms r z c"
    "breaks_below z c \<or> int i + 1 \<le> maximum_zone_age_bars r"
    "pre = [] \<and> q = p \<or> \<not> p \<and> q \<and> pre = [(PENDING_BREAK, i, c)]"
  shows "watched r z i p (c # cs) (pre @ outs) fin"
proof -
  have shift: "first_break r z i (c # cs) n \<longleftrightarrow> (\<exists>m. n = Suc m \<and> first_break r z (i + 1) cs m)" for n
    using assms(2,3) by (cases n) (auto simp: first_break_Cons_Suc)
  from assms(1) obtain pre' where pre': "pending_only q pre'" and
    "(\<exists>n post. first_break r z (i + 1) cs n \<and> outs = pre' @ (CONFIRMED_BREAK, i + 1 + n, cs ! n) # post \<and>
        zone_run r z (i + 1 + n + 1) (Broken (i + 1 + n)) (drop (n + 1) cs) post fin) \<or>
     ((\<nexists>n. first_break r z (i + 1) cs n) \<and>
        ((\<exists>q. fin = Watching q) \<and> outs = pre' \<or>
         fin = Closed \<and> (\<exists>j c. outs = pre' @ [(SE_INVALIDATED, j, c)])))"
    unfolding watched_def by blast
  moreover have "pending_only p (pre @ pre')" using assms(4) pre' by (auto simp: pending_only_def)
  ultimately show ?thesis
    unfolding watched_def by (intro exI [of _ "pre @ pre'"]) (auto simp: shift)
qed

lemma run_Watching: "zone_run r z i (Watching p) cs outs fin \<Longrightarrow> watched r z i p cs outs fin"
proof (induction cs arbitrary: i p outs)
  case Nil
  then show ?case by (auto elim!: run_Nil simp: watched_def pending_only_def first_break_def)
next
  case (Cons c cs)
  from Cons.prems obtain out ph outs' where step: "zone_step r z i (Watching p) c out ph"
    and run: "zone_run r z (i + 1) ph cs outs' fin"
    and outs: "outs = (case out of None \<Rightarrow> outs' | Some s \<Rightarrow> (s, i, c) # outs')"
    by (cases rule: run_Cons) (auto split: option.splits)
  from step consider
    (confirm) "out = Some CONFIRMED_BREAK" "ph = Broken i" "confirms r z c"
    | (pending) "\<not> p" "out = Some PENDING_BREAK" "ph = Watching True" "breaks_below z c" "\<not> confirms r z c"
    | (below) "p" "out = None" "ph = Watching True" "breaks_below z c" "\<not> confirms r z c"
    | (expire) "out = Some SE_INVALIDATED" "ph = Closed" "\<not> breaks_below z c"
        "maximum_zone_age_bars r \<le> int i"
    | (hold) "out = None" "ph = Watching p" "\<not> breaks_below z c" "int i + 1 \<le> maximum_zone_age_bars r"
    by (elim step_Watching)
  then show ?case
  proof cases
    case confirm
    then have "first_break r z i (c # cs) 0 \<and>
        outs = [] @ (CONFIRMED_BREAK, i + 0, (c # cs) ! 0) # outs' \<and>
        zone_run r z (i + 0 + 1) (Broken (i + 0)) (drop (0 + 1) (c # cs)) outs' fin"
      using run outs by simp
    then show ?thesis unfolding watched_def pending_only_def by blast
  next
    case pending
    then show ?thesis using watched_skip [OF Cons.IH, of i True outs' c "[(PENDING_BREAK, i, c)]" p] run outs
      by simp
  next
    case below
    then show ?thesis using watched_skip [OF Cons.IH, of i True outs' c "[]" p] run outs by simp
  next
    case expire
    then have "first_break r z i (c # cs) n \<longleftrightarrow> False" for n
      by (cases n) (auto simp: first_break_Cons_Suc confirms_def)
    then show ?thesis using expire run outs run_Closed_only
      by (fastforce simp: watched_def pending_only_def)
  next
    case hold
    then show ?thesis using watched_skip [OF Cons.IH, of i p outs' c "[]" p] run outs
      by (simp add: confirms_def)
  qed
qed

section \<open>The scan implements the state machine\<close>

definition event_of :: "zone \<Rightarrow> structure_event_state \<Rightarrow> candle \<Rightarrow> event \<Rightarrow> bool" where
  "event_of z s c e \<longleftrightarrow>
     event_wf e \<and> se_state e = s \<and> se_open_time e = open_time c \<and> se_observed_at e = close_time c \<and>
     se_close_price e = close_price c \<and> se_zone_id e = sz_id z \<and> se_source e = sz_source z \<and>
     se_symbol e = sz_symbol z \<and> se_interval e = sz_interval z \<and>
     se_zone_low e = sz_low z \<and> se_zone_high e = sz_high z"

lemma make_event_Inr:
  assumes "make_event z c s gap body ratio reasons iv = Inr e" "zone_wf z"
  shows "event_of z s c e" "invalidates_event_id e = iv" "se_reasons e = reasons"
proof -
  have "upper (strip (sz_symbol z)) = sz_symbol z" "strip (sz_id z) = sz_id z"
    using assms(2) by (simp_all add: zone_wf_def normal_symbol_def normal_id_def)
  then show "event_of z s c e" "invalidates_event_id e = iv" "se_reasons e = reasons"
    using assms(1) unfolding make_event_def StructureEvent_Inr and_then_Inr event_of_def
    by (cases e; auto simp: event_args_def)+
qed

fun phase_of :: "(nat \<times> string) option \<Rightarrow> bool \<Rightarrow> phase" where
  "phase_of None pending = Watching pending"
| "phase_of (Some (broken, ident)) pending = Broken broken"

text \<open>One iteration of the loop: it continues silently, emits and continues, or emits and stops.\<close>

definition scan_silent where
  "scan_silent r z rel i confirmed pending c cs es \<longleftrightarrow>
     (\<exists>pending'. zone_step r z i (phase_of confirmed pending) c None (phase_of confirmed pending') \<and>
        scan r z rel (i + 1) confirmed pending' cs = Inr es)"

definition scan_emit where
  "scan_emit r z rel i confirmed pending c cs es \<longleftrightarrow>
     (\<exists>s e es' gap body ratio reasons confirmed' pending'. es = e # es' \<and> confirmed = None \<and>
        zone_step r z i (phase_of confirmed pending) c (Some s) (phase_of confirmed' pending') \<and>
        make_event z c s gap body ratio reasons None = Inr e \<and>
        scan r z rel (i + 1) confirmed' pending' cs = Inr es' \<and> s \<noteq> FAKE_BREAK \<and> s \<noteq> SE_RECLAIMED \<and>
        (confirmed' = None \<or> confirmed' = Some (i, se_id e) \<and> s = CONFIRMED_BREAK))"

definition scan_close where
  "scan_close r z rel i confirmed pending c cs es \<longleftrightarrow>
     (\<exists>s e gap body ratio reasons. es = [e] \<and>
        zone_step r z i (phase_of confirmed pending) c (Some s) Closed \<and>
        make_event z c s gap body ratio reasons (map_option snd confirmed) = Inr e \<and>
        (s = FAKE_BREAK \<or> s = SE_RECLAIMED \<longleftrightarrow> confirmed \<noteq> None))"

lemma scan_step_below:
  assumes "scan r z rel i None pending (c # cs) = Inr es" "breaks_below z c"
  shows "scan_silent r z rel i None pending c cs es \<or> scan_emit r z rel i None pending c cs es"
proof -
  from assms obtain body ratio q where br: "body_fraction c = Inr body"
    "volume_ratio rel i (volume_lookback r) = Inr ratio"
    "ddiv (dsub (sz_low z) (close_price c)) (sz_low z) = Inr q"
    by (auto simp: result_simps breaks_below_def)
  then have conf: "confirms r z c \<longleftrightarrow> dval (minimum_break_distance_bps r) \<le> dval (dmul q BPS) \<and>
      dval (minimum_break_body_fraction r) \<le> dval body"
    using assms(2) by (auto simp: confirms_def)
  show ?thesis
  proof (cases "confirms r z c")
    case True
    with assms br conf obtain e es' reasons where "es = e # es'"
      "make_event z c CONFIRMED_BREAK (dmul q BPS) body ratio reasons None = Inr e"
      "scan r z rel (i + 1) (Some (i, se_id e)) pending cs = Inr es'"
      by (auto simp: result_simps Let_def breaks_below_def)
    moreover have "zone_step r z i (phase_of None pending) c (Some CONFIRMED_BREAK)
        (phase_of (Some (i, se_id e)) pending)" using step_confirm [OF True] by simp
    ultimately show ?thesis unfolding scan_emit_def by blast
  next
    case False
    show ?thesis
    proof (cases pending)
      case p: True
      with assms br conf False have "scan r z rel (i + 1) None True cs = Inr es"
        by (auto simp: Let_def breaks_below_def)
      moreover have "zone_step r z i (phase_of None pending) c None (phase_of None True)"
        using p step_below [OF assms(2) False] by simp
      ultimately show ?thesis unfolding scan_silent_def by blast
    next
      case p: False
      with assms br conf False obtain e es' reasons where "es = e # es'"
        "make_event z c PENDING_BREAK (dmul q BPS) body ratio reasons None = Inr e"
        "scan r z rel (i + 1) None True cs = Inr es'"
        by (auto simp: result_simps Let_def breaks_below_def)
      moreover have "zone_step r z i (phase_of None pending) c (Some PENDING_BREAK) (phase_of None True)"
        using p step_pending [OF assms(2) False] by simp
      ultimately show ?thesis unfolding scan_emit_def by blast
    qed
  qed
qed

lemma scan_step_watching:
  assumes "scan r z rel i None pending (c # cs) = Inr es" "\<not> breaks_below z c"
  shows "scan_silent r z rel i None pending c cs es \<or> scan_close r z rel i None pending c cs es"
proof (cases "maximum_zone_age_bars r < int i + 1")
  case True
  with assms obtain e body ratio reasons where "es = [e]"
    "make_event z c SE_INVALIDATED (dec 0 0) body ratio reasons
       (map_option snd (None :: (nat \<times> string) option)) = Inr e"
    by (auto simp: result_simps breaks_below_def)
  moreover have "zone_step r z i (phase_of None pending) c (Some SE_INVALIDATED) Closed"
    using True step_expire [OF assms(2)] by simp
  moreover have "SE_INVALIDATED = FAKE_BREAK \<or> SE_INVALIDATED = SE_RECLAIMED \<longleftrightarrow>
      (None :: (nat \<times> string) option) \<noteq> None" by simp
  ultimately show ?thesis unfolding scan_close_def by blast
next
  case False
  with assms have "scan r z rel (i + 1) None pending cs = Inr es"
    by (auto simp: result_simps breaks_below_def)
  moreover have "zone_step r z i (phase_of None pending) c None (phase_of None pending)"
    using False step_hold [OF assms(2)] by simp
  ultimately show ?thesis unfolding scan_silent_def by blast
qed

lemma scan_step_broken:
  assumes "scan r z rel i (Some (k, ident)) pending (c # cs) = Inr es"
  shows "scan_silent r z rel i (Some (k, ident)) pending c cs es \<or>
    scan_close r z rel i (Some (k, ident)) pending c cs es"
proof (cases "closes_above z c")
  case True
  define s where "s = (if int i - int k \<le> fake_break_max_bars r then FAKE_BREAK else SE_RECLAIMED)"
  from assms True obtain e q body ratio reasons where "es = [e]"
    "make_event z c s (dmul q BPS) body ratio reasons (map_option snd (Some (k, ident))) = Inr e"
    by (auto simp: result_simps closes_above_def Let_def s_def split: if_splits)
  moreover have "zone_step r z i (phase_of (Some (k, ident)) pending) c (Some s) Closed"
    using step_fake [OF True] step_reclaim [OF True] by (simp add: s_def)
  moreover have "s = FAKE_BREAK \<or> s = SE_RECLAIMED" by (simp add: s_def)
  ultimately show ?thesis unfolding scan_close_def by blast
next
  case False
  with assms have "scan r z rel (i + 1) (Some (k, ident)) pending cs = Inr es"
    by (auto simp: result_simps closes_above_def)
  moreover have "zone_step r z i (phase_of (Some (k, ident)) pending) c None (phase_of (Some (k, ident)) pending)"
    using step_stay [OF False] by simp
  ultimately show ?thesis unfolding scan_silent_def by blast
qed

lemma scan_step:
  assumes "scan r z rel i confirmed pending (c # cs) = Inr es"
  shows "scan_silent r z rel i confirmed pending c cs es \<or> scan_emit r z rel i confirmed pending c cs es \<or>
    scan_close r z rel i confirmed pending c cs es"
proof (cases confirmed)
  case None
  then show ?thesis using assms scan_step_below scan_step_watching by blast
next
  case (Some b)
  then show ?thesis using assms scan_step_broken by (cases b) blast
qed

lemma scan_refines:
  assumes "scan r z rel i confirmed pending cs = Inr es" "zone_wf z"
  shows "\<exists>outs fin. zone_run r z i (phase_of confirmed pending) cs outs fin \<and>
    list_all2 (\<lambda>(s, n, c) e. event_of z s c e) outs es"
  using assms(1)
proof (induction cs arbitrary: i confirmed pending es)
  case Nil
  then show ?case by (auto intro: run_end)
next
  case (Cons c cs)
  from scan_step [OF Cons.prems] show ?case
  proof (elim disjE)
    assume "scan_silent r z rel i confirmed pending c cs es"
    then show ?thesis unfolding scan_silent_def using Cons.IH by (blast intro: run_silent)
  next
    assume "scan_emit r z rel i confirmed pending c cs es"
    then obtain s e es' gap body ratio reasons confirmed' pending' where es: "es = e # es'"
      and step: "zone_step r z i (phase_of confirmed pending) c (Some s) (phase_of confirmed' pending')"
      and ev: "make_event z c s gap body ratio reasons None = Inr e"
      and tail: "scan r z rel (i + 1) confirmed' pending' cs = Inr es'" unfolding scan_emit_def by blast
    from Cons.IH [OF tail] obtain outs fin where
      "zone_run r z (i + 1) (phase_of confirmed' pending') cs outs fin"
      "list_all2 (\<lambda>(s, n, c) e. event_of z s c e) outs es'" by blast
    then have "zone_run r z i (phase_of confirmed pending) (c # cs) ((s, i, c) # outs) fin"
      "list_all2 (\<lambda>(s, n, c) e. event_of z s c e) ((s, i, c) # outs) es"
      using es step make_event_Inr(1) [OF ev assms(2)] by (auto intro: run_emit)
    then show ?thesis by blast
  next
    assume "scan_close r z rel i confirmed pending c cs es"
    then obtain s e gap body ratio reasons iv where es: "es = [e]"
      and step: "zone_step r z i (phase_of confirmed pending) c (Some s) Closed"
      and ev: "make_event z c s gap body ratio reasons iv = Inr e" unfolding scan_close_def by blast
    have "zone_run r z i (phase_of confirmed pending) (c # cs) [(s, i, c)] Closed"
      using step zone_run_Closed by (rule run_emit)
    moreover have "list_all2 (\<lambda>(s, n, c) e. event_of z s c e) [(s, i, c)] es"
      using es make_event_Inr(1) [OF ev assms(2)] by simp
    ultimately show ?thesis by blast
  qed
qed

definition linked :: "string option \<Rightarrow> event list \<Rightarrow> bool" where
  "linked ident es \<longleftrightarrow> (\<forall>e \<in> set es.
     if se_state e = FAKE_BREAK \<or> se_state e = SE_RECLAIMED
     then (\<exists>b. invalidates_event_id e = Some b \<and>
            (ident = Some b \<or> (\<exists>d \<in> set es. se_state d = CONFIRMED_BREAK \<and> se_id d = b)))
     else invalidates_event_id e = None)"

lemma linked_Cons:
  assumes "linked (if s = CONFIRMED_BREAK then Some (se_id e) else None) es" "se_state e = s"
    "s \<noteq> FAKE_BREAK" "s \<noteq> SE_RECLAIMED" "invalidates_event_id e = None"
  shows "linked None (e # es)"
  using assms unfolding linked_def by (auto split: if_splits)

lemma scan_linked:
  "scan r z rel i confirmed pending cs = Inr es \<Longrightarrow> zone_wf z \<Longrightarrow> linked (map_option snd confirmed) es"
proof (induction cs arbitrary: i confirmed pending es)
  case Nil
  then show ?case by (simp add: linked_def)
next
  case (Cons c cs)
  from scan_step [OF Cons.prems(1)] show ?case
  proof (elim disjE)
    assume "scan_silent r z rel i confirmed pending c cs es"
    then show ?thesis unfolding scan_silent_def using Cons.IH Cons.prems(2) by blast
  next
    assume "scan_emit r z rel i confirmed pending c cs es"
    then obtain s e es' gap body ratio reasons confirmed' pending' where es: "es = e # es'" "confirmed = None"
      and ev: "make_event z c s gap body ratio reasons None = Inr e"
      and tail: "scan r z rel (i + 1) confirmed' pending' cs = Inr es'"
      and s: "s \<noteq> FAKE_BREAK" "s \<noteq> SE_RECLAIMED"
      "confirmed' = None \<or> confirmed' = Some (i, se_id e) \<and> s = CONFIRMED_BREAK"
      unfolding scan_emit_def by blast
    have "linked (map_option snd confirmed') es'" using Cons.IH [OF tail Cons.prems(2)] .
    then have "linked (if s = CONFIRMED_BREAK then Some (se_id e) else None) es'"
      using s(3) by (auto simp: linked_def split: if_splits)
    then show ?thesis
      using linked_Cons [of s e es'] s make_event_Inr [OF ev Cons.prems(2)] es by (simp add: event_of_def)
  next
    assume "scan_close r z rel i confirmed pending c cs es"
    then obtain s e gap body ratio reasons where es: "es = [e]"
      and ev: "make_event z c s gap body ratio reasons (map_option snd confirmed) = Inr e"
      and s: "s = FAKE_BREAK \<or> s = SE_RECLAIMED \<longleftrightarrow> confirmed \<noteq> None"
      unfolding scan_close_def by blast
    then show ?thesis
      using make_event_Inr [OF ev Cons.prems(2)] by (cases confirmed) (auto simp: linked_def event_of_def)
  qed
qed

section \<open>The events of a zone\<close>

lemma validate_inputs_Inr:
  "validate_inputs z prev cs = Inr u \<longleftrightarrow>
     chronological cs \<and>
     (\<forall>c \<in> set cs. (case prev of None \<Rightarrow> True | Some p \<Rightarrow> p < instant (open_time c)) \<and>
        cd_source c = sz_source z \<and> cd_symbol c = sz_symbol z \<and> cd_interval c = sz_interval z)"
proof (induction cs arbitrary: prev)
  case Nil
  then show ?case by (simp add: chronological_def)
next
  case (Cons c cs)
  have "validate_inputs z prev (c # cs) = Inr u \<longleftrightarrow>
      cd_source c = sz_source z \<and> cd_symbol c = sz_symbol z \<and> cd_interval c = sz_interval z \<and>
      (case prev of None \<Rightarrow> True | Some p \<Rightarrow> p < instant (open_time c)) \<and>
      validate_inputs z (Some (instant (open_time c))) cs = Inr u"
    by (cases prev) auto
  also have "\<dots> \<longleftrightarrow> chronological (c # cs) \<and>
     (\<forall>d \<in> set (c # cs). (case prev of None \<Rightarrow> True | Some p \<Rightarrow> p < instant (open_time d)) \<and>
        cd_source d = sz_source z \<and> cd_symbol d = sz_symbol z \<and> cd_interval d = sz_interval z)"
    unfolding Cons.IH chronological_def
    by (cases prev) (simp_all, blast, meson less_trans)
  finally show ?case .
qed

lemma build_refines:
  assumes "build_structure_events r z cs = Inr es" "zone_wf z"
  obtains outs fin where "zone_run r z 0 (Watching False) (relevant_candles z cs) outs fin"
    "list_all2 (\<lambda>(s, n, c) e. event_of z s c e) outs es" "linked None es" "chronological cs"
proof (cases "relevant_candles z cs = []")
  case True
  have chron: "chronological cs"
    using assms(1) by (auto simp: build_structure_events_def result_simps validate_inputs_Inr)
  moreover have "es = []"
    using assms(1) True by (auto simp: build_structure_events_def result_simps)
  ultimately show ?thesis using that [of "[]" "Watching False"] True
    by (auto simp: linked_def intro: run_end)
next
  case False
  from assms False have chron: "chronological cs"
    and run: "scan r z (relevant_candles z cs) 0 None False (relevant_candles z cs) = Inr es"
    by (auto simp: build_structure_events_def result_simps validate_inputs_Inr Let_def)
  from scan_refines [OF run assms(2)] scan_linked [OF run assms(2)] chron that show ?thesis by auto
qed

lemma list_all2_states:
  "list_all2 (\<lambda>(s, n, c) e. event_of z s c e) outs es \<Longrightarrow> map fst outs = map se_state es"
  by (induction rule: list_all2_induct) (auto simp: event_of_def)

lemma watched_states:
  "watched r z i False cs outs fin \<Longrightarrow>
     \<exists>pre post. map fst outs = pre @ post \<and> pre \<in> {[], [PENDING_BREAK]} \<and>
       post \<in> {[], [CONFIRMED_BREAK], [CONFIRMED_BREAK, FAKE_BREAK], [CONFIRMED_BREAK, SE_RECLAIMED],
               [SE_INVALIDATED]}"
  unfolding watched_def
proof (elim exE conjE disjE)
  fix pre n post
  assume pre: "pending_only False pre" and outs: "outs = pre @ (CONFIRMED_BREAK, i + n, cs ! n) # post"
    and run: "zone_run r z (i + n + 1) (Broken (i + n)) (drop (n + 1) cs) post fin"
  have "map fst post \<in> {[], [FAKE_BREAK], [SE_RECLAIMED]}"
    using run_Broken [OF run] by (auto split: if_splits)
  with pre outs show ?thesis
    by (intro exI [of _ "map fst pre"] exI [of _ "CONFIRMED_BREAK # map fst post"])
      (auto simp: pending_only_def)
next
  fix pre q
  assume "pending_only False pre" "outs = pre"
  then show ?thesis by (intro exI [of _ "map fst pre"] exI [of _ "[]"]) (auto simp: pending_only_def)
next
  fix pre j c
  assume "pending_only False pre" "outs = pre @ [(SE_INVALIDATED, j, c)]"
  then show ?thesis
    by (intro exI [of _ "map fst pre"] exI [of _ "[SE_INVALIDATED]"]) (auto simp: pending_only_def)
qed

lemma build_grammar:
  assumes "build_structure_events r z cs = Inr es" "zone_wf z"
  shows "(\<exists>pre post. map se_state es = pre @ post \<and> pre \<in> {[], [PENDING_BREAK]} \<and>
      post \<in> {[], [CONFIRMED_BREAK], [CONFIRMED_BREAK, FAKE_BREAK], [CONFIRMED_BREAK, SE_RECLAIMED],
              [SE_INVALIDATED]}) \<and> linked None es"
proof -
  obtain outs fin where "zone_run r z 0 (Watching False) (relevant_candles z cs) outs fin"
    "list_all2 (\<lambda>(s, n, c) e. event_of z s c e) outs es" "linked None es"
    by (rule build_refines [OF assms])
  then show ?thesis using watched_states run_Watching list_all2_states by metis
qed

text \<open>
  the events of a zone follow a fixed grammar: at most one incomplete break, then nothing, a
  confirmed break, a confirmed break and its reversal, or the expiry of the zone. A reversal names the
  confirmed break it invalidates, and no other event names one.
\<close>

theorem build_structure_events_grammar:
  assumes "build_structure_events r z cs = Inr es" "zone_wf z"
  shows "(\<exists>pre post. map se_state es = pre @ post \<and> pre \<in> {[], [PENDING_BREAK]} \<and>
      post \<in> {[], [CONFIRMED_BREAK], [CONFIRMED_BREAK, FAKE_BREAK], [CONFIRMED_BREAK, SE_RECLAIMED],
              [SE_INVALIDATED]}) \<and> linked None es"
  by (rule build_grammar [OF assms])

lemma subseq_subset: "subseq xs ys \<Longrightarrow> set xs \<subseteq> set ys"
  by (auto simp: subseq_conv_nths dest: in_set_nthsD)

lemma subseq_sorted_wrt: "subseq xs ys \<Longrightarrow> sorted_wrt R ys \<Longrightarrow> sorted_wrt R xs"
  by (induction rule: list_emb.induct) (auto dest: subseq_subset)

lemma run_subseq: "zone_run r z i ph cs outs fin \<Longrightarrow> subseq (map (\<lambda>(s, n, c). c) outs) cs"
  by (induction rule: zone_run.induct) auto

lemma build_no_lookahead:
  assumes "build_structure_events r z cs = Inr es" "zone_wf z"
  shows "sorted_wrt (\<lambda>a b. instant (se_open_time a) < instant (se_open_time b)) es \<and>
    (\<forall>e \<in> set es. \<exists>c \<in> set cs. event_of z (se_state e) c e \<and>
       instant (confirmed_at z) \<le> instant (open_time c))"
proof -
  obtain outs fin where run: "zone_run r z 0 (Watching False) (relevant_candles z cs) outs fin"
    and evs: "list_all2 (\<lambda>(s, n, c) e. event_of z s c e) outs es" and chron: "chronological cs"
    by (rule build_refines [OF assms])
  let ?cs = "map (\<lambda>(s, n, c). c) outs"
  note sub = run_subseq [OF run]
  have "sorted_wrt (\<lambda>a b. instant (open_time a) < instant (open_time b)) (relevant_candles z cs)"
    using chron by (simp add: relevant_candles_def chronological_def sorted_wrt_filter)
  then have "sorted_wrt (\<lambda>a b. instant (open_time a) < instant (open_time b)) ?cs"
    using subseq_sorted_wrt [OF sub] by blast
  moreover have times: "map se_open_time es = map open_time ?cs"
    using evs by (induction rule: list_all2_induct) (auto simp: event_of_def)
  ultimately have "sorted_wrt (\<lambda>a b. instant (se_open_time a) < instant (se_open_time b)) es"
    using sorted_wrt_map [of "\<lambda>a b. instant a < instant b" se_open_time es]
      sorted_wrt_map [of "\<lambda>a b. instant a < instant b" open_time ?cs] by simp
  moreover have "\<exists>c \<in> set cs. event_of z (se_state e) c e \<and> instant (confirmed_at z) \<le> instant (open_time c)"
    if e: "e \<in> set es" for e
  proof -
    from evs e obtain s n c where o: "(s, n, c) \<in> set outs" and ev: "event_of z s c e"
      by (metis (no_types, lifting) in_set_conv_nth list_all2_conv_all_nth prod_cases3 case_prod_conv)
    from o have "c \<in> set (relevant_candles z cs)"
      using set_mp [OF subseq_subset [OF sub]] by force
    with ev show ?thesis by (auto simp: relevant_candles_def event_of_def)
  qed
  ultimately show ?thesis by blast
qed

text \<open>
  C36: events use no information from before the zone was confirmed: each is the event of one candle
  of the series that opened at or after the confirmation, observed at that candle's close; and
  events are strictly in order of time.
\<close>

theorem build_structure_events_no_lookahead:
  assumes "build_structure_events r z cs = Inr es" "zone_wf z"
  shows "sorted_wrt (\<lambda>a b. instant (se_open_time a) < instant (se_open_time b)) es \<and>
    (\<forall>e \<in> set es. \<exists>c \<in> set cs. event_of z (se_state e) c e \<and>
       instant (confirmed_at z) \<le> instant (open_time c))"
  by (rule build_no_lookahead [OF assms])

definition first_above :: "zone \<Rightarrow> candle list \<Rightarrow> nat \<Rightarrow> nat \<Rightarrow> bool" where
  "first_above z cs n k \<longleftrightarrow>
     n < k \<and> k < length cs \<and> closes_above z (cs ! k) \<and> (\<forall>m. n < m \<and> m < k \<longrightarrow> \<not> closes_above z (cs ! m))"

lemma first_above_unique: "first_above z cs n k \<Longrightarrow> first_above z cs n k' \<Longrightarrow> k = k'"
  by (metis first_above_def linorder_neqE_nat)

lemma first_above_drop:
  assumes "k < length (drop (n + 1) cs)" "closes_above z (drop (n + 1) cs ! k)"
    "\<forall>m < k. \<not> closes_above z (drop (n + 1) cs ! m)"
  shows "first_above z cs n (n + 1 + k)"
proof -
  have "\<not> closes_above z (cs ! m)" if "n < m" "m < n + 1 + k" for m
    using assms(3) [rule_format, of "m - (n + 1)"] that assms(1) by simp
  with assms show ?thesis by (auto simp: first_above_def)
qed

lemma none_above_drop:
  assumes "\<forall>c \<in> set (drop (n + 1) cs). \<not> closes_above z c" "n < m" "m < length cs"
  shows "\<not> closes_above z (cs ! m)"
proof -
  have "drop (n + 1) cs ! (m - (n + 1)) \<in> set (drop (n + 1) cs)"
    using assms(2,3) by (intro nth_mem) simp
  with assms show ?thesis by simp
qed

lemma watched_verdict:
  assumes "watched r z 0 False cs outs fin"
  shows "(\<exists>n. first_break r z 0 cs n \<and> outs \<noteq> [] \<and>
      ((\<forall>m. n < m \<and> m < length cs \<longrightarrow> \<not> closes_above z (cs ! m)) \<and> fst (last outs) = CONFIRMED_BREAK \<or>
       (\<exists>k. first_above z cs n k \<and> fst (last outs) =
          (if int k - int n \<le> fake_break_max_bars r then FAKE_BREAK else SE_RECLAIMED)))) \<or>
    (\<nexists>n. first_break r z 0 cs n) \<and> (outs = [] \<or> fst (last outs) \<in> {PENDING_BREAK, SE_INVALIDATED})"
  using assms unfolding watched_def
proof (elim exE conjE disjE)
  fix pre n post
  assume n: "first_break r z 0 cs n" and outs: "outs = pre @ (CONFIRMED_BREAK, 0 + n, cs ! n) # post"
    and run: "zone_run r z (0 + n + 1) (Broken (0 + n)) (drop (n + 1) cs) post fin"
  from run_Broken [OF run] show ?thesis
  proof (elim disjE exE conjE)
    assume "\<forall>c \<in> set (drop (n + 1) cs). \<not> closes_above z c" "post = []"
    then show ?thesis using n outs none_above_drop by (intro disjI1 exI [of _ n]) auto
  next
    fix k assume k: "k < length (drop (n + 1) cs)" "closes_above z (drop (n + 1) cs ! k)"
      "\<forall>m < k. \<not> closes_above z (drop (n + 1) cs ! m)"
      and post: "post = [(if int (0 + n + 1 + k) - int (0 + n) \<le> fake_break_max_bars r then FAKE_BREAK
        else SE_RECLAIMED, 0 + n + 1 + k, drop (n + 1) cs ! k)]"
    have "fst (last outs) = (if int (n + 1 + k) - int n \<le> fake_break_max_bars r then FAKE_BREAK
        else SE_RECLAIMED)" using outs post by simp
    with first_above_drop [OF k] n outs show ?thesis by blast
  qed
qed (auto simp: pending_only_def)

definition ends_with :: "event list \<Rightarrow> structure_event_state \<Rightarrow> bool" where
  "ends_with es s \<longleftrightarrow> es \<noteq> [] \<and> se_state (last es) = s"

lemma build_verdict:
  assumes "build_structure_events r z cs = Inr es" "zone_wf z"
  shows "(ends_with es CONFIRMED_BREAK \<longleftrightarrow> (\<exists>n. first_break r z 0 (relevant_candles z cs) n \<and>
      (\<nexists>k. first_above z (relevant_candles z cs) n k))) \<and>
    (ends_with es FAKE_BREAK \<longleftrightarrow> (\<exists>n k. first_break r z 0 (relevant_candles z cs) n \<and>
      first_above z (relevant_candles z cs) n k \<and> int k - int n \<le> fake_break_max_bars r)) \<and>
    (ends_with es SE_RECLAIMED \<longleftrightarrow> (\<exists>n k. first_break r z 0 (relevant_candles z cs) n \<and>
      first_above z (relevant_candles z cs) n k \<and> fake_break_max_bars r < int k - int n))"
proof -
  let ?rel = "relevant_candles z cs"
  obtain outs fin where "zone_run r z 0 (Watching False) ?rel outs fin"
    and evs: "list_all2 (\<lambda>(s, n, c) e. event_of z s c e) outs es"
    by (rule build_refines [OF assms])
  note v = watched_verdict [OF run_Watching [OF this(1)]]
  have ends: "ends_with es s \<longleftrightarrow> outs \<noteq> [] \<and> fst (last outs) = s" for s
    using list_all2_states [OF evs] list_all2_lengthD [OF evs]
    by (metis ends_with_def last_map length_0_conv)
  from v show ?thesis
  proof (elim disjE exE conjE)
    fix n assume n: "first_break r z 0 ?rel n" and outs: "outs \<noteq> []" "fst (last outs) = CONFIRMED_BREAK"
      and none: "\<forall>m. n < m \<and> m < length ?rel \<longrightarrow> \<not> closes_above z (?rel ! m)"
    have "\<not> first_above z ?rel n k" for k using none by (auto simp: first_above_def)
    with n outs ends show ?thesis by (metis first_break_unique structure_event_state.distinct)
  next
    fix n k assume nk: "first_break r z 0 ?rel n" "first_above z ?rel n k"
      and outs: "outs \<noteq> []" "fst (last outs) =
        (if int k - int n \<le> fake_break_max_bars r then FAKE_BREAK else SE_RECLAIMED)"
    have "(\<exists>n' k'. first_break r z 0 ?rel n' \<and> first_above z ?rel n' k' \<and> Q n' k') \<longleftrightarrow> Q n k" for Q
      using nk first_break_unique first_above_unique by metis
    moreover have "(\<exists>n'. first_break r z 0 ?rel n' \<and> (\<nexists>k. first_above z ?rel n' k)) \<longleftrightarrow> False"
      using nk first_break_unique by metis
    ultimately show ?thesis unfolding ends outs(2) using outs(1) by simp
  qed (use ends in auto)
qed

text \<open>
  what the latest event of a zone means. It is a confirmed break exactly when a candle after the
  confirmation of the zone broke it while it was alive and no later candle closed above it; it is a fake break or a
  reclaim exactly when a later candle did close above it, told apart by the number of bars.
\<close>

theorem build_structure_events_verdict:
  assumes "build_structure_events r z cs = Inr es" "zone_wf z"
  shows "(ends_with es CONFIRMED_BREAK \<longleftrightarrow> (\<exists>n. first_break r z 0 (relevant_candles z cs) n \<and>
      (\<nexists>k. first_above z (relevant_candles z cs) n k))) \<and>
    (ends_with es FAKE_BREAK \<longleftrightarrow> (\<exists>n k. first_break r z 0 (relevant_candles z cs) n \<and>
      first_above z (relevant_candles z cs) n k \<and> int k - int n \<le> fake_break_max_bars r)) \<and>
    (ends_with es SE_RECLAIMED \<longleftrightarrow> (\<exists>n k. first_break r z 0 (relevant_candles z cs) n \<and>
      first_above z (relevant_candles z cs) n k \<and> fake_break_max_bars r < int k - int n))"
  by (rule build_verdict [OF assms])

section \<open>The scan never raises on market data\<close>

definition event_rules_wf :: "decimal event_rules \<Rightarrow> bool" where
  "event_rules_wf r \<longleftrightarrow>
     0 \<le> dval (minimum_break_distance_bps r) \<and> 0 \<le> dval (minimum_break_body_fraction r) \<and>
     dval (minimum_break_body_fraction r) \<le> 1 \<and> 1 \<le> fake_break_max_bars r \<and>
     1 \<le> maximum_zone_age_bars r \<and> 1 \<le> volume_lookback r"

lemma StructureEventRules_wf: "StructureEventRules a = Inr r \<Longrightarrow> event_rules_wf r"
  by (auto simp: StructureEventRules_def event_rules_wf_def split: raw_decimal.splits if_splits)

definition usable_event_rules :: "decimal event_rules \<Rightarrow> bool" where
  "usable_event_rules r \<longleftrightarrow> event_rules_wf r \<and> volume_lookback r \<le> 1000"

lemma default_event_rules_usable: "usable_event_rules default_event_rules"
  by (simp add: usable_event_rules_def event_rules_wf_def default_event_rules_def)

lemma body_fraction_ok:
  assumes "candle_wf c"
  shows "\<exists>b. body_fraction c = Inr b \<and> 0 \<le> dval b \<and> dval b \<le> 1"
proof (cases "dval (dsub (high_price c) (low_price c)) = 0")
  case True
  then show ?thesis by (simp add: body_fraction_def Let_def)
next
  case False
  let ?range = "dsub (high_price c) (low_price c)" and ?body = "dabs (dsub (close_price c) (open_price c))"
  have body: "dval ?body = dec_round \<bar>dval (close_price c) - dval (open_price c)\<bar>"
    by (simp add: dval_dabs dval_dsub dec.R_abs dec.R_idem)
  have "\<bar>dval (close_price c) - dval (open_price c)\<bar> \<le> dval (high_price c) - dval (low_price c)"
    using assms by (auto simp: candle_wf_def abs_le_iff)
  then have le: "dval ?body \<le> dval ?range" unfolding body dval_dsub by (rule dec.R_mono)
  have nonneg: "0 \<le> dval ?body" unfolding body by (rule dec.R_nonneg) simp
  obtain q where q: "ddiv ?body ?range = Inr q" "dval q = dec_round (dval ?body / dval ?range)"
    using ddiv_succeeds [OF False, of ?body] by auto
  have q01: "0 \<le> dval q" "dval q \<le> 1"
    unfolding q(2) using le nonneg by (auto intro: dec.R_nonneg dec.R_div_le_one)
  obtain b where b: "quantize q (-4) = Inr b" "dval b = quantized (dval q) (-4)"
    using quantize_succeeds [of q 10000 "-4"] q01 by auto
  have "dval b \<le> 1" unfolding b(2)
    using quantized_mono [OF q01(2), of "-4"] quantized_exact [of 10000 "-4"] by simp
  moreover have "0 \<le> dval b" unfolding b(2) using q01(1) by (rule quantized_nonneg)
  ultimately show ?thesis using False q(1) b(1) by (simp add: body_fraction_def Let_def)
qed

lemma foldl_dadd_ge:
  assumes "dec_round v = v" "v \<le> dval d" "\<forall>x \<in> set ds. 0 \<le> dval x"
  shows "v \<le> dval (foldl dadd d ds)"
  using assms(2,3)
proof (induction ds arbitrary: d)
  case Nil
  then show ?case by simp
next
  case (Cons x ds)
  have "v \<le> dval d + dval x" using Cons.prems by simp
  then have "v \<le> dval (dadd d x)" unfolding dval_dadd by (rule dec.R_ge [OF assms(1)])
  then show ?case using Cons by simp
qed

lemma dsum_zero: "\<forall>x \<in> set ds. dval x = 0 \<Longrightarrow> dval d = 0 \<Longrightarrow> dval (foldl dadd d ds) = 0"
  by (induction ds arbitrary: d) (auto simp: dval_dadd)

lemma foldl_dadd_member:
  assumes "dec_round v = v" "x \<in> set ds" "v \<le> dval x" "\<forall>x \<in> set ds. 0 \<le> dval x" "0 \<le> dval d"
  shows "v \<le> dval (foldl dadd d ds)"
  using assms(2,4,5)
proof (induction ds arbitrary: d)
  case Nil
  then show ?case by simp
next
  case (Cons y ds)
  show ?case
  proof (cases "x \<in> set ds")
    case True
    have "0 \<le> dval (dadd d y)" using Cons.prems by (simp add: dval_dadd dec.R_nonneg)
    with Cons True show ?thesis by simp
  next
    case False
    with Cons.prems(1) have "y = x" by simp
    have "v \<le> dval d + dval x" using assms(3) Cons.prems(3) by simp
    then have "v \<le> dval (dadd d y)" unfolding dval_dadd \<open>y = x\<close> by (rule dec.R_ge [OF assms(1)])
    then show ?thesis using foldl_dadd_ge [OF assms(1)] Cons.prems(2) by simp
  qed
qed

lemma volume_ratio_ok:
  assumes cs: "\<forall>c \<in> set cs. market_candle c" "i < length cs" and lb: "1 \<le> lb" "lb \<le> 1000"
  shows "\<exists>v. volume_ratio cs i lb = Inr v \<and> (case v of None \<Rightarrow> True | Some d \<Rightarrow> 0 \<le> dval d)"
proof -
  define hist where "hist = window (i - nat lb) i cs"
  have sub: "set hist \<subseteq> set cs"
    using set_drop_subset set_take_subset by (fastforce simp: hist_def window_def)
  have vol: "0 \<le> dval (volume c)" "dval (volume c) = 0 \<or> 1 / 10 ^ 8 \<le> dval (volume c)"
    "dval (volume c) \<le> 10 ^ 12" if "c \<in> set cs" for c
    using cs(1) that by (auto simp: market_candle_def candle_wf_def)
  have len: "length hist \<le> 1000" using lb cs(2) by (simp add: hist_def window_def)
  show ?thesis
  proof (cases "hist = []")
    case True
    then show ?thesis by (simp add: volume_ratio_def Let_def flip: hist_def)
  next
    case False
    let ?sum = "dsum (map volume hist)" and ?n = "dec (int (length hist)) 0"
    obtain avg where avg: "ddiv ?sum ?n = Inr avg" "dval avg = dec_round (dval ?sum / dval ?n)"
      using ddiv_succeeds [of ?n ?sum] False by auto
    show ?thesis
    proof (cases "dval avg = 0")
      case True
      then show ?thesis using avg False by (simp add: volume_ratio_def Let_def flip: hist_def)
    next
      case nz: False
      then have "dval ?sum \<noteq> 0" using avg(2) by auto
      then obtain c where c: "c \<in> set hist" "dval (volume c) \<noteq> 0"
        using dsum_zero [of "map volume hist" "dec 0 0"] by (auto simp: dsum_def)
      have exact: "dec_round (1 / 10 ^ 8) = 1 / 10 ^ 8" "dec_round (1 / 10 ^ 11) = 1 / 10 ^ 11"
        using dec_round_exact [of 1 "-8"] dec_round_exact [of 1 "-11"]
        by (simp_all add: power_int_minus inverse_eq_divide)
      have "1 / 10 ^ 8 \<le> dval ?sum" unfolding dsum_def
        using c sub vol by (intro foldl_dadd_member [OF exact(1), of "volume c"]) auto
      then have "1 / 10 ^ 8 / 1000 \<le> dval ?sum / dval ?n"
        using len False by (intro frac_le) auto
      then have a: "1 / 10 ^ 11 \<le> dval avg" unfolding avg(2) by (intro dec.R_ge [OF exact(2)]) simp
      obtain q where q: "ddiv (volume (cs ! i)) avg = Inr q"
        "dval q = dec_round (dval (volume (cs ! i)) / dval avg)"
        using ddiv_succeeds [OF nz] by blast
      have "dval (volume (cs ! i)) / dval avg \<le> 10 ^ 12 / (1 / 10 ^ 11)"
        using a vol [of "cs ! i"] cs(2) by (intro frac_le) auto
      then have "dval q \<le> 10 ^ 23" unfolding q(2) by (intro dec.R_le) simp_all
      moreover have q0: "0 \<le> dval q" unfolding q(2)
        using vol [of "cs ! i"] cs(2) a by (intro dec.R_nonneg divide_nonneg_nonneg) auto
      ultimately obtain v where "quantize q (-4) = Inr v" "dval v = quantized (dval q) (-4)"
        using quantize_succeeds [of q "10 ^ 27" "-4"] by auto
      then show ?thesis using avg(1) nz q(1) False quantized_nonneg [OF q0, of "-4"]
        by (simp add: volume_ratio_def Let_def flip: hist_def)
    qed
  qed
qed

lemma market_close:
  assumes "market_candle c"
  shows "candle_wf c" "1 / 10 ^ 10 \<le> dval (close_price c)" "dval (close_price c) \<le> 10 ^ 10"
    "dval price_floor \<le> dval (close_price c)"
proof -
  show wf: "candle_wf c" using assms by (simp add: market_candle_def)
  show low: "1 / 10 ^ 10 \<le> dval (close_price c)" "dval (close_price c) \<le> 10 ^ 10"
    using assms wf unfolding market_candle_def candle_wf_def by linarith+
  show "dval price_floor \<le> dval (close_price c)"
    by (rule order_trans [OF _ low(1)]) (simp add: price_floor_def power_int_minus inverse_eq_divide)
qed

lemma make_event_ok:
  assumes "zone_wf z" "market_candle c" "0 \<le> dval gap" "dval gap \<le> 10 ^ 25"
    "0 \<le> dval body" "dval body \<le> 1" "case ratio of None \<Rightarrow> True | Some d \<Rightarrow> 0 \<le> dval d"
  shows "\<exists>e. make_event z c s gap body ratio reasons iv = Inr e"
proof -
  obtain d where d: "quantize gap (-2) = Inr d" "dval d = quantized (dval gap) (-2)"
    using quantize_succeeds [of gap "10 ^ 27" "-2"] assms(3,4) by auto
  have d0: "0 \<le> dval d" unfolding d(2) using assms(3) by (rule quantized_nonneg)
  have id: "strip (event_ident (sz_id z) c s) \<noteq> []"
    by (auto simp: strip_eq_Nil event_ident_def is_space_def spaces_def)
  have time: "instant (open_time c) < instant (close_time c)" "aware (open_time c)" "aware (close_time c)"
    using market_close(1) [OF assms(2)] by (simp_all add: candle_wf_def)
  have "dval price_floor \<le> dval (sz_high z)" using assms(1) by (simp add: zone_wf_def)
  then have "succeeds (make_event z c s gap body ratio reasons iv)"
    using d(1) d0 id time market_close(4) [OF assms(2)] assms(1,5-7)
    by (cases ratio) (auto simp: make_event_def StructureEvent_def Let_def result_simps
      zone_wf_def normal_id_def normal_symbol_def)
  then show ?thesis by (simp add: succeeds_iff)
qed

lemma break_gap_ok:
  assumes "zone_wf z" "breaks_below z c" "market_candle c"
  shows "\<exists>q. ddiv (dsub (sz_low z) (close_price c)) (sz_low z) = Inr q \<and>
    0 \<le> dval (dmul q BPS) \<and> dval (dmul q BPS) \<le> 10 ^ 25"
proof -
  have pos: "0 < dval (sz_low z)" using assms(1) price_floor_pos by (simp add: zone_wf_def)
  obtain q where q: "ddiv (dsub (sz_low z) (close_price c)) (sz_low z) = Inr q"
    "dval q = dec_round (dval (dsub (sz_low z) (close_price c)) / dval (sz_low z))"
    using ddiv_succeeds [of "sz_low z"] pos by auto
  have diff: "0 \<le> dval (dsub (sz_low z) (close_price c))"
    using assms(2) by (simp add: dval_dsub dec.R_sub_nonneg breaks_below_def)
  have "dval (dsub (sz_low z) (close_price c)) \<le> dec_round (dval (sz_low z))"
    unfolding dval_dsub using market_close(2) [OF assms(3)] by (intro dec.R_mono) simp
  also have "\<dots> \<le> 2 * dval (sz_low z)"
  proof -
    have "1 / 10 ^ 60 \<le> dval price_floor"
      by (simp add: price_floor_def power_int_minus inverse_eq_divide)
    also have "\<dots> \<le> dval (sz_low z)" using assms(1) by (simp add: zone_wf_def)
    finally have "\<bar>dec_round (dval (sz_low z)) - dval (sz_low z)\<bar> \<le> dval (sz_low z) / 10 ^ 27"
      by (rule dec_round_error)
    moreover have "dval (sz_low z) / 10 ^ 27 \<le> dval (sz_low z)" using pos by simp
    ultimately show ?thesis by linarith
  qed
  finally have "dval (dsub (sz_low z) (close_price c)) / dval (sz_low z) \<le> 2"
    using pos by (simp add: field_simps)
  then have "dval q \<le> 2" unfolding q(2) by (intro dec.R_le) simp_all
  then have "dval (dmul q BPS) \<le> 20000" unfolding dval_dmul by (intro dec.R_le) (simp_all add: BPS_def)
  moreover have "0 \<le> dval q" unfolding q(2) using diff pos by (intro dec.R_nonneg) simp
  then have "0 \<le> dval (dmul q BPS)" by (simp add: dval_dmul BPS_def dec.R_nonneg)
  ultimately show ?thesis using q(1) by (intro exI [of _ q]) simp
qed

lemma above_gap_ok:
  assumes "1 / 10 ^ 11 \<le> dval (sz_high z)" "closes_above z c" "market_candle c"
  shows "\<exists>q. ddiv (dsub (close_price c) (sz_high z)) (sz_high z) = Inr q \<and>
    0 \<le> dval (dmul q BPS) \<and> dval (dmul q BPS) \<le> 10 ^ 25"
proof -
  have pos: "0 < dval (sz_high z)" using assms(1) by (rule less_le_trans [rotated]) simp
  obtain q where q: "ddiv (dsub (close_price c) (sz_high z)) (sz_high z) = Inr q"
    "dval q = dec_round (dval (dsub (close_price c) (sz_high z)) / dval (sz_high z))"
    using ddiv_succeeds [of "sz_high z"] pos by auto
  have diff: "0 \<le> dval (dsub (close_price c) (sz_high z))"
    using assms(2) by (simp add: dval_dsub dec.R_sub_nonneg closes_above_def)
  have "dval (dsub (close_price c) (sz_high z)) \<le> 10 ^ 10"
    unfolding dval_dsub using market_close(3) [OF assms(3)] pos by (intro dec.R_le) simp_all
  then have "dval (dsub (close_price c) (sz_high z)) / dval (sz_high z) \<le> 10 ^ 10 / (1 / 10 ^ 11)"
    using assms(1) by (intro frac_le) auto
  then have "dval q \<le> 10 ^ 21" unfolding q(2) by (intro dec.R_le) simp_all
  then have "dval (dmul q BPS) \<le> 10 ^ 25" unfolding dval_dmul by (intro dec.R_le) (simp_all add: BPS_def)
  moreover have "0 \<le> dval q" unfolding q(2) using diff pos by (intro dec.R_nonneg) simp
  then have "0 \<le> dval (dmul q BPS)" by (simp add: dval_dmul BPS_def dec.R_nonneg)
  ultimately show ?thesis using q(1) by blast
qed

lemma scan_ok:
  assumes "usable_event_rules r" "zone_wf z" "1 / 10 ^ 11 \<le> dval (sz_high z)"
    "\<forall>c \<in> set rel. market_candle c" "cs = drop i rel"
  shows "\<exists>es. scan r z rel i confirmed pending cs = Inr es"
  using assms(5)
proof (induction cs arbitrary: i confirmed pending)
  case Nil
  then show ?case by simp
next
  case (Cons c cs)
  have i: "i < length rel" using Cons.prems by (metis drop_all linorder_not_le list.discI)
  then have c: "c = rel ! i" "cs = drop (i + 1) rel"
    using Cons.prems by (metis Cons_nth_drop_Suc Suc_eq_plus1 list.inject)+
  have mk: "market_candle c" using assms(4) c(1) i by simp
  obtain body where body: "body_fraction c = Inr body" "0 \<le> dval body" "dval body \<le> 1"
    using body_fraction_ok [OF market_close(1) [OF mk]] by blast
  obtain ratio where ratio: "volume_ratio rel i (volume_lookback r) = Inr ratio"
    "case ratio of None \<Rightarrow> True | Some d \<Rightarrow> 0 \<le> dval d"
    using volume_ratio_ok [OF assms(4) i] assms(1)
    by (auto simp: usable_event_rules_def event_rules_wf_def)
  note ev = make_event_ok [OF assms(2) mk _ _ body(2,3) ratio(2)]
  have IH: "\<exists>es. scan r z rel (i + 1) confirmed' pending' cs = Inr es" for confirmed' pending'
    by (rule Cons.IH [OF c(2)])
  have "succeeds (scan r z rel i confirmed pending (c # cs))"
  proof (cases confirmed)
    case None
    show ?thesis
    proof (cases "breaks_below z c")
      case True
      from break_gap_ok [OF assms(2) True mk] obtain q where
        q: "ddiv (dsub (sz_low z) (close_price c)) (sz_low z) = Inr q"
        "0 \<le> dval (dmul q BPS)" "dval (dmul q BPS) \<le> 10 ^ 25" by blast
      show ?thesis using None True body ratio q ev [OF q(2,3)] IH
        by (auto simp: breaks_below_def Let_def succeeds_iff and_then_Inr) blast+
    next
      case False
      then show ?thesis using None body ratio ev [of "dec 0 0"] IH
        by (auto simp: breaks_below_def succeeds_iff and_then_Inr)
    qed
  next
    case (Some b)
    show ?thesis
    proof (cases "closes_above z c")
      case True
      from above_gap_ok [OF assms(3) True mk] obtain q where
        q: "ddiv (dsub (close_price c) (sz_high z)) (sz_high z) = Inr q"
        "0 \<le> dval (dmul q BPS)" "dval (dmul q BPS) \<le> 10 ^ 25" by blast
      show ?thesis using Some True body ratio q ev [OF q(2,3)]
        by (cases b) (auto simp: closes_above_def Let_def succeeds_iff and_then_Inr)
    next
      case False
      then show ?thesis using Some body ratio IH
        by (cases b) (auto simp: closes_above_def succeeds_iff and_then_Inr)
    qed
  qed
  then show ?case by (simp add: succeeds_iff)
qed

lemma build_structure_events_ok:
  assumes "usable_event_rules r" "zone_wf z" "1 / 10 ^ 11 \<le> dval (sz_high z)"
    "\<forall>c \<in> set cs. market_candle c" "chronological cs"
    "\<forall>c \<in> set cs. cd_source c = sz_source z \<and> cd_symbol c = sz_symbol z \<and> cd_interval c = sz_interval z"
  shows "\<exists>es. build_structure_events r z cs = Inr es"
proof -
  have "validate_inputs z None cs = Inr ()" using assms(5,6) by (simp add: validate_inputs_Inr)
  moreover have "\<forall>c \<in> set (relevant_candles z cs). market_candle c"
    using assms(4) by (simp add: relevant_candles_def)
  then have "\<exists>es. scan r z (relevant_candles z cs) 0 None False (relevant_candles z cs) = Inr es"
    by (intro scan_ok [OF assms(1-3)]) simp_all
  ultimately show ?thesis by (auto simp: build_structure_events_def Let_def)
qed

section \<open>The sample series\<close>

definition sample_zone :: zone where
  "sample_zone = \<lparr>sz_id = ''zone_sample'', sz_source = CS_BYBIT, sz_symbol = ''ABCUSDT'',
     sz_interval = H4, sz_low = dec 9980000 (-5), sz_high = dec 10030020 (-5),
     created_at = DateTime (sample_start + 3 * duration H4) (Some 0),
     confirmed_at = DateTime (sample_start + 9 * duration H4) (Some 0),
     last_test_at = DateTime (sample_start + 7 * duration H4) (Some 0),
     touch_count = 2, rejection_count = 2, strength_score = dec 6975 (-2),
     evidence_open_times = [DateTime (sample_start + 2 * duration H4) (Some 0),
       DateTime (sample_start + 6 * duration H4) (Some 0)],
     sz_state = SZ_ACTIVE, sz_reasons = [''TOUCHES_2'', ''REJECTIONS_2'']\<rparr>"

lemma sample_zone_wf: "zone_wf sample_zone" "1 / 10 ^ 11 \<le> dval (sz_high sample_zone)"
  by code_simp+

lemma sample_zone_series:
  "\<forall>c \<in> set (sample_candles H4). cd_source c = sz_source sample_zone \<and>
     cd_symbol c = sz_symbol sample_zone \<and> cd_interval c = sz_interval sample_zone"
  by code_simp

lemma sample_build: "\<exists>es. build_structure_events default_event_rules sample_zone (sample_candles H4) = Inr es"
  by (rule build_structure_events_ok [OF default_event_rules_usable sample_zone_wf sample_market(1)
        sample_series_ok(1) sample_zone_series])

lemma sample_relevant:
  "relevant_candles sample_zone (sample_candles H4) =
     [sample_candle H4 9 (10300, 10350, 9900, 9920), sample_candle H4 10 (9920, 9960, 9800, 9850),
      sample_candle H4 11 (9850, 9900, 9700, 9750)]"
  by (simp add: relevant_candles_def sample_candles_def sample_prices_def sample_candle_def
      sample_zone_def instant_def sample_start_def minute_us_def)

lemma sample_first_break: "first_break default_event_rules sample_zone 0 (relevant_candles sample_zone (sample_candles H4)) 0"
proof -
  let ?c = "sample_candle H4 9 (10300, 10350, 9900, 9920)"
  have r: "dec_round (9 / 2) = 9 / 2" "dec_round (19 / 5) = 19 / 5" "dec_round (3 / 5) = 3 / 5"
    "dec_round (45 / 100) = 45 / 100" "dec_round (1 / 1000) = 1 / 1000"
    using dec_round_exact [of 45 "-1"] dec_round_exact [of 38 "-1"] dec_round_exact [of 6 "-1"]
      dec_round_exact [of 45 "-2"] dec_round_exact [of 1 "-3"]
    by (simp_all add: power_int_minus inverse_eq_divide)
  have "candle_wf ?c" by code_simp
  then obtain b where b: "body_fraction ?c = Inr b" using body_fraction_ok by blast
  have body: "dval (dabs (dsub (close_price ?c) (open_price ?c))) = 19 / 5"
    "dval (dsub (high_price ?c) (low_price ?c)) = 9 / 2"
    using r dec.R_minus [of "19 / 5"] by (simp_all add: sample_candle_def dval_dabs dval_dsub dec.R_idem)
  then have "dval (dsub (high_price ?c) (low_price ?c)) \<noteq> 0" by simp
  then obtain q where dq: "ddiv (dabs (dsub (close_price ?c) (open_price ?c)))
      (dsub (high_price ?c) (low_price ?c)) = Inr q" and q1: "quantize q (-4) = Inr b"
    using b unfolding body_fraction_def Let_def by (auto simp: result_simps)
  have q: "quantize q (-4) = Inr b" "dval q = dec_round (19 / 5 / (9 / 2))"
    using q1 ddiv_Inr [OF dq] unfolding body by blast+
  have "45 / 100 \<le> dval q" unfolding q(2) by (rule dec.R_ge [OF r(4)]) simp
  then have "quantized (45 / 100) (-4) \<le> dval b"
    using quantize_Inr [OF q(1)] quantized_mono by auto
  then have 1: "dval (minimum_break_body_fraction default_event_rules) \<le> dval b"
    using quantized_exact [of 4500 "-4"] by (simp add: default_event_rules_def power_int_minus)
  have gap: "dval (dsub (sz_low sample_zone) (close_price ?c)) = 3 / 5" "dval (sz_low sample_zone) = 499 / 5"
    using r(3) by (simp_all add: sample_candle_def sample_zone_def dval_dsub power_int_minus)
  then obtain g where g: "ddiv (dsub (sz_low sample_zone) (close_price ?c)) (sz_low sample_zone) = Inr g"
    "dval g = dec_round (3 / 5 / (499 / 5))"
    using ddiv_succeeds [of "sz_low sample_zone" "dsub (sz_low sample_zone) (close_price ?c)"]
    unfolding gap by force
  have "1 / 1000 \<le> dval g" unfolding g(2) by (rule dec.R_ge [OF r(5)]) simp
  then have "10 \<le> dval (dmul g BPS)" unfolding dval_dmul by (intro dec.R_ge) (simp_all add: BPS_def)
  then have "confirms default_event_rules sample_zone ?c"
    using 1 b g(1) by (simp add: confirms_def breaks_below_def default_event_rules_def
        sample_zone_def sample_candle_def power_int_minus)
  then show ?thesis by (simp add: first_break_def sample_relevant)
qed

lemma sample_not_above:
  "\<not> first_above sample_zone (relevant_candles sample_zone (sample_candles H4)) 0 k"
proof -
  have "list_all (\<lambda>c. \<not> closes_above sample_zone c)
      [sample_candle H4 9 (10300, 10350, 9900, 9920), sample_candle H4 10 (9920, 9960, 9800, 9850),
       sample_candle H4 11 (9850, 9900, 9700, 9750)]" by code_simp
  then have "\<forall>c \<in> set (relevant_candles sample_zone (sample_candles H4)). \<not> closes_above sample_zone c"
    unfolding sample_relevant list_all_iff .
  then show ?thesis by (auto simp: first_above_def)
qed

theorem build_structure_events_grammar_witness:
  "\<exists>es. build_structure_events default_event_rules sample_zone (sample_candles H4) = Inr es \<and> linked None es"
  using sample_build build_structure_events_grammar [OF _ sample_zone_wf(1)] by blast

theorem build_structure_events_no_lookahead_witness:
  "\<exists>es. build_structure_events default_event_rules sample_zone (sample_candles H4) = Inr es \<and>
     sorted_wrt (\<lambda>a b. instant (se_open_time a) < instant (se_open_time b)) es"
  using sample_build build_structure_events_no_lookahead [OF _ sample_zone_wf(1)] by blast

theorem build_structure_events_verdict_witness:
  "\<exists>es. build_structure_events default_event_rules sample_zone (sample_candles H4) = Inr es \<and>
     ends_with es CONFIRMED_BREAK"
  using sample_build build_structure_events_verdict [OF _ sample_zone_wf(1)] sample_first_break
    sample_not_above by blast

end
