(* ===== verification/Htf_Engine.thy ===== *)
theory Htf_Engine
  imports Structure_Events
begin

text \<open>
  \<^verbatim>\<open>app/structure/htf_engine.py\<close>: the higher-timeframe analysis of a batch. It derives the zones,
  builds the events of each, takes as primary zone the one with the latest event (or the
  strongest zone when none has events), and reduces it to the evidence of the timeframe.
\<close>

definition zone_events ::
  "decimal event_rules \<Rightarrow> candle list \<Rightarrow> zone \<Rightarrow> (zone \<times> event list) result" where
  "zone_events r cs z = and_then (build_structure_events r z cs) (\<lambda>es. Inr (z, es))"

definition bearing_rank :: "zone \<times> event list \<Rightarrow> int \<times> rat \<times> string" where
  "bearing_rank item = (instant (se_observed_at (last (snd item))),
     dval (strength_score (fst item)), sz_id (fst item))"

definition select_primary ::
  "zone list \<Rightarrow> (zone \<times> event list) list \<Rightarrow> zone option \<times> event list" where
  "select_primary zones by_zone =
     (case filter (\<lambda>item. snd item \<noteq> []) by_zone of
       item # items \<Rightarrow> (let best = max_by bearing_rank item items in (Some (fst best), snd best))
     | [] \<Rightarrow> (case zones of z # _ \<Rightarrow> (Some z, []) | [] \<Rightarrow> (None, [])))"

definition event_order :: "event \<Rightarrow> int \<times> string" where
  "event_order e = (instant (se_observed_at e), se_id e)"

definition analyze_higher_timeframe ::
  "decimal zone_rules \<Rightarrow> decimal event_rules \<Rightarrow> candle_batch \<Rightarrow> htf_analysis result" where
  "analyze_higher_timeframe zr er b =
     (if cb_interval b \<notin> {D1, H4}
        then Inl (ValueError ''higher-timeframe analysis requires Daily or 4H candles'')
      else and_then (derive_support_zones zr (candles b)) (\<lambda>zones.
      and_then (traverse (zone_events er (candles b)) zones) (\<lambda>by_zone.
      let (primary, primary_events) = select_primary zones by_zone;
          events = sort_key event_order (concat (map snd by_zone)) in
      and_then (evidence_from_events primary primary_events (cb_source b) (cb_symbol b)
                  (cb_interval b) (fetched_at b)) (\<lambda>evidence.
      HtfStructureAnalysis \<lparr>ha_source = cb_source b, ha_symbol = cb_symbol b,
        ha_interval = cb_interval b, ha_observed_at = fetched_at b, ha_zones = zones,
        ha_primary_zone = primary, ha_events = events, ha_evidence = evidence\<rparr>))))"

section \<open>Construction of evidence and analysis\<close>

lemma HtfStructureAnalysis_Inr:
  "HtfStructureAnalysis a = Inr h \<longleftrightarrow>
     h = a\<lparr>ha_symbol := upper (strip (ha_symbol a))\<rparr> \<and> htf (ha_interval a) \<and> aware (ha_observed_at a) \<and>
     normal_symbol (ha_symbol h) \<and> te_symbol (ha_evidence a) = ha_symbol h \<and>
     te_interval (ha_evidence a) = ha_interval a \<and>
     (case ha_primary_zone a of None \<Rightarrow> True | Some z \<Rightarrow> list_ex (zone_eq z) (ha_zones a)) \<and>
     (\<forall>z \<in> set (ha_zones a). sz_symbol z = ha_symbol h \<and> sz_interval z = ha_interval a \<and>
        sz_source z = ha_source a) \<and>
     (\<forall>e \<in> set (ha_events a). se_symbol e = ha_symbol h \<and> se_interval e = ha_interval a \<and>
        se_source e = ha_source a)"
  by (cases a; cases h)
    (auto simp: HtfStructureAnalysis_def Let_def result_simps normal_symbol_def list_ex_iff
      split: option.splits)

lemma zone_eq_refl: "zone_eq z z"
  by (simp add: zone_eq_def)

lemma zone_events_Inr:
  "zone_events r cs z = Inr item \<longleftrightarrow> (\<exists>es. build_structure_events r z cs = Inr es \<and> item = (z, es))"
  by (auto simp: zone_events_def result_simps)

lemma traverse_zone_events:
  "traverse (zone_events r cs) zones = Inr by_zone \<Longrightarrow>
     map fst by_zone = zones \<and>
     (\<forall>item \<in> set by_zone. build_structure_events r (fst item) cs = Inr (snd item))"
  by (induction zones arbitrary: by_zone) (fastforce simp: result_simps zone_events_Inr)+

lemma select_primary_cases:
  assumes "map fst by_zone = zones"
  obtains (bearing) item where "select_primary zones by_zone = (Some (fst item), snd item)"
      "item \<in> set by_zone" "snd item \<noteq> []"
      "\<forall>other \<in> set by_zone. snd other \<noteq> [] \<longrightarrow> bearing_rank other \<le> bearing_rank item"
  | (strongest) "zones \<noteq> []" "select_primary zones by_zone = (Some (hd zones), [])"
      "\<forall>item \<in> set by_zone. snd item = []"
  | (none) "zones = []" "by_zone = []" "select_primary zones by_zone = (None, [])"
proof (cases "filter (\<lambda>item. snd item \<noteq> []) by_zone")
  case Nil
  then have "\<forall>item \<in> set by_zone. snd item = []" by (auto simp: filter_empty_conv)
  with Nil assms strongest none show ?thesis
    by (cases zones) (auto simp: select_primary_def)
next
  case (Cons first rest)
  define best where "best = max_by bearing_rank first rest"
  have set: "set (first # rest) = {x \<in> set by_zone. snd x \<noteq> []}"
    by (simp flip: Cons)
  have "best \<in> set (first # rest)" using max_by_in [of bearing_rank first rest] by (simp add: best_def)
  moreover have "bearing_rank x \<le> bearing_rank best" if "x \<in> set (first # rest)" for x
    using max_by_ge [of x first rest bearing_rank] that by (simp add: best_def)
  moreover have "select_primary zones by_zone = (Some (fst best), snd best)"
    using Cons by (simp add: select_primary_def best_def Let_def)
  ultimately show ?thesis using bearing [of best] unfolding set by blast
qed

lemma sorted_last_time:
  assumes "sorted_wrt (\<lambda>a b. instant (se_open_time a) < instant (se_open_time b)) es" "e \<in> set es"
    "\<forall>e \<in> set es. instant (se_observed_at e) = instant (se_open_time e) + duration i"
  shows "instant (se_observed_at e) \<le> instant (se_observed_at (last es))"
proof (cases "e = last es")
  case False
  from sorted_wrt_last [OF assms(1,2) False] assms(2,3) show ?thesis
    by (metis add_le_cancel_right empty_iff last_in_set less_imp_le list.set(1))
qed simp

section \<open>The analysis as a whole\<close>

text \<open>A zone is broken now: it broke while it was alive and nothing closed above it since.\<close>

definition broken_now :: "decimal event_rules \<Rightarrow> candle list \<Rightarrow> zone \<Rightarrow> bool" where
  "broken_now r cs z \<longleftrightarrow> (\<exists>n. first_break r z 0 (relevant_candles z cs) n \<and>
     (\<nexists>k. first_above z (relevant_candles z cs) n k))"

lemma analyze_Inr:
  assumes "analyze_higher_timeframe zr er b = Inr a" "batch_wf b" "zone_rules_wf zr"
    "\<forall>c \<in> set (candles b). candle_wf c"
  obtains by_zone primary evs where "select_primary (ha_zones a) by_zone = (primary, evs)"
    "map fst by_zone = ha_zones a"
    "\<forall>item \<in> set by_zone. build_structure_events er (fst item) (candles b) = Inr (snd item)"
    "ha_events a = sort_key event_order (concat (map snd by_zone))" "ha_primary_zone a = primary"
    "evidence_from_events primary evs (cb_source b) (cb_symbol b) (cb_interval b) (fetched_at b)
       = Inr (ha_evidence a)"
    "\<forall>z \<in> set (ha_zones a). zone_wf z" "derive_support_zones zr (candles b) = Inr (ha_zones a)"
proof -
  from assms(1) obtain zones by_zone where
    d: "derive_support_zones zr (candles b) = Inr zones"
    and t: "traverse (zone_events er (candles b)) zones = Inr by_zone"
    by (auto simp: analyze_higher_timeframe_def result_simps Let_def split: if_splits)
  obtain primary evs where s: "select_primary zones by_zone = (primary, evs)" by fastforce
  from assms(1) d t s obtain ev where
    e: "evidence_from_events primary evs (cb_source b) (cb_symbol b) (cb_interval b) (fetched_at b) = Inr ev"
    and h: "HtfStructureAnalysis \<lparr>ha_source = cb_source b, ha_symbol = cb_symbol b,
        ha_interval = cb_interval b, ha_observed_at = fetched_at b, ha_zones = zones,
        ha_primary_zone = primary, ha_events = sort_key event_order (concat (map snd by_zone)),
        ha_evidence = ev\<rparr> = Inr a"
    by (auto simp: analyze_higher_timeframe_def result_simps Let_def split: if_splits)
  have "\<forall>z \<in> set zones. zone_wf z"
    using derive_touches [OF d assms(3,4)] by (auto simp: touches_of_def zone_spec_def)
  moreover have "ha_zones a = zones" "ha_primary_zone a = primary" "ha_evidence a = ev"
    "ha_events a = sort_key event_order (concat (map snd by_zone))"
    using h by (auto simp: HtfStructureAnalysis_Inr)
  ultimately show ?thesis using that s e traverse_zone_events [OF t] d by metis
qed

lemma evidence_Inr:
  assumes "evidence_from_events primary evs src symbol i t = Inr ev"
  shows "te_status ev = (case primary of None \<Rightarrow> TS_INSUFFICIENT
      | Some z \<Rightarrow> if evs = [] then TS_INTACT else status_map (se_state (last evs)))"
    "te_zone_id ev = map_option sz_id primary"
    "primary \<noteq> None \<Longrightarrow> evs \<noteq> [] \<Longrightarrow> te_observed_at ev = se_observed_at (last evs) \<and>
       te_event_id ev = Some (se_id (last evs))"
    "primary = None \<or> evs = [] \<Longrightarrow> te_observed_at ev = t \<and> te_event_id ev = None"
  using assms
  by (auto simp: evidence_from_events_def TimeframeStructureEvidence_Inr Let_def split: option.splits if_splits)

lemma status_damaged: "status_map s = TS_DAMAGED \<longleftrightarrow> s = CONFIRMED_BREAK"
  by (cases s) auto

text \<open>
  C5: a timeframe is reported as damaged exactly when its primary zone is broken now; the report
  then carries the identifier of the break.
\<close>

theorem htf_damaged_iff:
  assumes "analyze_higher_timeframe zr er b = Inr a" "batch_wf b" "zone_rules_wf zr"
    "\<forall>c \<in> set (candles b). candle_wf c"
  shows "damaged (ha_evidence a) \<longleftrightarrow>
    (\<exists>z. ha_primary_zone a = Some z \<and> z \<in> set (ha_zones a) \<and> broken_now er (candles b) z)"
proof -
  obtain by_zone primary evs where s: "select_primary (ha_zones a) by_zone = (primary, evs)"
    and m: "map fst by_zone = ha_zones a"
    and bld: "\<forall>item \<in> set by_zone. build_structure_events er (fst item) (candles b) = Inr (snd item)"
    and p: "ha_primary_zone a = primary"
    and e: "evidence_from_events primary evs (cb_source b) (cb_symbol b) (cb_interval b) (fetched_at b)
       = Inr (ha_evidence a)" and wf: "\<forall>z \<in> set (ha_zones a). zone_wf z"
    by (rule analyze_Inr [OF assms])
  have zb: "broken_now er (candles b) (fst item) \<longleftrightarrow> ends_with (snd item) CONFIRMED_BREAK"
    "fst item \<in> set (ha_zones a)" if "item \<in> set by_zone" for item
  proof -
    show "fst item \<in> set (ha_zones a)" using that by (simp flip: m)
    then show "broken_now er (candles b) (fst item) \<longleftrightarrow> ends_with (snd item) CONFIRMED_BREAK"
      using conjunct1 [OF build_verdict [of er "fst item" "candles b" "snd item"]] bld wf that
      unfolding broken_now_def by blast
  qed
  from m show ?thesis
  proof (cases rule: select_primary_cases)
    case (bearing item)
    then have pr: "primary = Some (fst item)" "evs = snd item" using s by simp_all
    have "damaged (ha_evidence a) \<longleftrightarrow> ends_with (snd item) CONFIRMED_BREAK"
      using evidence_Inr(1) [OF e] pr bearing(3) by (simp add: damaged_def status_damaged ends_with_def)
    also have "\<dots> \<longleftrightarrow> broken_now er (candles b) (fst item)" using zb(1) [OF bearing(2)] by simp
    finally show ?thesis using p pr(1) zb(2) [OF bearing(2)] by simp
  next
    case strongest
    define item where "item = hd by_zone"
    have "by_zone \<noteq> []" using strongest(1) m by auto
    then have it: "item \<in> set by_zone" "fst item = hd (ha_zones a)" "snd item = []"
      using strongest(3) m [symmetric] by (simp_all add: item_def hd_map)
    have pr: "primary = Some (fst item)" "evs = []" using s strongest(2) it(2) by simp_all
    have "\<not> damaged (ha_evidence a)" using evidence_Inr(1) [OF e] pr by (simp add: damaged_def)
    moreover have "\<not> broken_now er (candles b) (fst item)"
      using zb(1) [OF it(1)] it(3) by (simp add: ends_with_def)
    ultimately show ?thesis using p pr(1) by simp
  next
    case none
    then have "primary = None" using s by simp
    then show ?thesis using p evidence_Inr(1) [OF e] by (simp add: damaged_def)
  qed
qed

lemma built_event:
  assumes "build_structure_events r z (candles b) = Inr es" "zone_wf z" "batch_wf b"
    "\<forall>c \<in> set (candles b). candle_wf c" "e \<in> set es"
  shows "instant (se_observed_at e) = instant (se_open_time e) + duration (cb_interval b)"
    "instant (se_observed_at e) \<le> instant (fetched_at b)" "se_zone_id e = sz_id z"
    "event_wf e" "se_symbol e = sz_symbol z" "se_interval e = sz_interval z" "se_source e = sz_source z"
proof -
  obtain c where c: "c \<in> set (candles b)" "event_of z (se_state e) c e"
    using build_no_lookahead [OF assms(1,2)] assms(5) by blast
  have "cd_interval c = cb_interval b" "instant (close_time c) \<le> instant (fetched_at b)" "candle_wf c"
    using assms(3,4) c(1) by (auto simp: batch_wf_def)
  with c(2) show "instant (se_observed_at e) = instant (se_open_time e) + duration (cb_interval b)"
    "instant (se_observed_at e) \<le> instant (fetched_at b)" "se_zone_id e = sz_id z"
    "event_wf e" "se_symbol e = sz_symbol z" "se_interval e = sz_interval z" "se_source e = sz_source z"
    by (simp_all add: event_of_def candle_wf_def)
qed

lemma event_le_last:
  assumes "build_structure_events r z (candles b) = Inr es" "zone_wf z" "batch_wf b"
    "\<forall>c \<in> set (candles b). candle_wf c" "e \<in> set es"
  shows "instant (se_observed_at e) \<le> instant (se_observed_at (last es))"
  by (rule sorted_last_time [OF _ assms(5)])
    (use build_no_lookahead [OF assms(1,2)] built_event(1) [OF assms(1-4)] in auto)

text \<open>The last event of the zone with the greatest rank is the latest event of all zones.\<close>

lemma bearing_latest:
  assumes "item \<in> set by_zone" "snd item \<noteq> []"
    "\<forall>other \<in> set by_zone. snd other \<noteq> [] \<longrightarrow> bearing_rank other \<le> bearing_rank item"
    "\<forall>item \<in> set by_zone. build_structure_events er (fst item) (candles b) = Inr (snd item) \<and> zone_wf (fst item)"
    "batch_wf b" "\<forall>c \<in> set (candles b). candle_wf c" "y \<in> set (concat (map snd by_zone))"
  shows "instant (se_observed_at y) \<le> instant (se_observed_at (last (snd item)))"
proof -
  from assms(7) obtain other where o: "other \<in> set by_zone" "y \<in> set (snd other)" by auto
  then have "bearing_rank other \<le> bearing_rank item" using assms(3) by fastforce
  then have "instant (se_observed_at (last (snd other))) \<le> instant (se_observed_at (last (snd item)))"
    by (auto simp: bearing_rank_def less_eq_prod_def)
  moreover have "instant (se_observed_at y) \<le> instant (se_observed_at (last (snd other)))"
    using assms(4) o by (intro event_le_last [OF _ _ assms(5,6)]) auto
  ultimately show ?thesis by simp
qed

text \<open>
  the events of an analysis are in order of observation; when there are any, the evidence is the
  last event of the primary zone, no event of any zone was observed later, and it was observed
  no later than the batch was fetched.
\<close>

theorem htf_latest_event:
  assumes "analyze_higher_timeframe zr er b = Inr a" "batch_wf b" "zone_rules_wf zr"
    "\<forall>c \<in> set (candles b). candle_wf c"
  shows "sorted (map event_order (ha_events a)) \<and>
    (ha_events a = [] \<or> (\<exists>z e. ha_primary_zone a = Some z \<and> z \<in> set (ha_zones a) \<and>
      e \<in> set (ha_events a) \<and> se_zone_id e = sz_id z \<and>
      te_event_id (ha_evidence a) = Some (se_id e) \<and> te_observed_at (ha_evidence a) = se_observed_at e \<and>
      instant (se_observed_at e) \<le> instant (fetched_at b) \<and>
      (\<forall>e' \<in> set (ha_events a). instant (se_observed_at e') \<le> instant (se_observed_at e))))"
proof -
  obtain by_zone primary evs where s: "select_primary (ha_zones a) by_zone = (primary, evs)"
    and m: "map fst by_zone = ha_zones a"
    and bld: "\<forall>item \<in> set by_zone. build_structure_events er (fst item) (candles b) = Inr (snd item)"
    and evts: "ha_events a = sort_key event_order (concat (map snd by_zone))"
    and p: "ha_primary_zone a = primary"
    and e: "evidence_from_events primary evs (cb_source b) (cb_symbol b) (cb_interval b) (fetched_at b)
       = Inr (ha_evidence a)" and wf: "\<forall>z \<in> set (ha_zones a). zone_wf z"
    by (rule analyze_Inr [OF assms])
  have bz: "\<forall>item \<in> set by_zone. build_structure_events er (fst item) (candles b) = Inr (snd item) \<and>
      zone_wf (fst item)" and zs: "\<forall>item \<in> set by_zone. fst item \<in> set (ha_zones a)"
    using bld wf by (auto simp flip: m)
  from m have "ha_events a = [] \<or> (\<exists>z x. ha_primary_zone a = Some z \<and> z \<in> set (ha_zones a) \<and>
      x \<in> set (ha_events a) \<and> se_zone_id x = sz_id z \<and>
      te_event_id (ha_evidence a) = Some (se_id x) \<and> te_observed_at (ha_evidence a) = se_observed_at x \<and>
      instant (se_observed_at x) \<le> instant (fetched_at b) \<and>
      (\<forall>y \<in> set (ha_events a). instant (se_observed_at y) \<le> instant (se_observed_at x)))"
  proof (cases rule: select_primary_cases)
    case (bearing item)
    have pr: "primary = Some (fst item)" "evs = snd item" using s bearing(1) by simp_all
    have last: "last (snd item) \<in> set (snd item)" using bearing(3) by simp
    have b: "build_structure_events er (fst item) (candles b) = Inr (snd item)" "zone_wf (fst item)"
      using bz bearing(2) by auto
    have "\<forall>y \<in> set (ha_events a). instant (se_observed_at y) \<le> instant (se_observed_at (last (snd item)))"
      using bearing_latest [OF bearing(2-4) bz assms(2,4)] by (simp add: evts)
    moreover have "last (snd item) \<in> set (ha_events a)" using last bearing(2) by (auto simp: evts)
    ultimately show ?thesis
      using p pr zs bearing(2,3) evidence_Inr(3) [OF e] built_event(2,3) [OF b assms(2,4) last]
      by (intro disjI2 exI [of _ "fst item"] exI [of _ "last (snd item)"]) simp
  next
    case strongest
    then have none: "concat (map snd by_zone) = []" by simp
    show ?thesis unfolding evts none by simp
  next
    case none
    then show ?thesis unfolding evts by simp
  qed
  moreover have "sorted (map event_order (ha_events a))" by (simp add: evts)
  ultimately show ?thesis by blast
qed

section \<open>The analysis never raises on market data\<close>

lemma batch_series:
  assumes "batch_wf b" "htf (cb_interval b)"
  shows "same_series (candles b)"
proof -
  have all: "cd_source c = cb_source b \<and> cd_symbol c = cb_symbol b \<and> cd_interval c = cb_interval b"
    if "c \<in> set (candles b)" for c using assms(1) that by (simp add: batch_wf_def)
  show ?thesis
  proof (cases "candles b")
    case Nil
    then show ?thesis by (simp add: same_series_def)
  next
    case (Cons c cs)
    with all assms(2) show ?thesis unfolding same_series_def by simp
  qed
qed

lemma derived_zone:
  assumes "derive_support_zones r (candles b) = Inr zones" "zone_rules_wf r" "batch_wf b"
    "\<forall>c \<in> set (candles b). market_candle c" "z \<in> set zones"
  shows "zone_wf z" "1 / 10 ^ 11 \<le> dval (sz_high z)" "sz_source z = cb_source b"
    "sz_symbol z = cb_symbol b" "sz_interval z = cb_interval b"
proof -
  have wf: "\<forall>c \<in> set (candles b). candle_wf c" using assms(4) by (simp add: market_candle_def)
  obtain ps where ps: "touches_of r (candles b) z ps"
    using derive_touches [OF assms(1,2) wf] assms(5) by blast
  then have spec: "zone_spec r (candles b) ps z" by (simp add: touches_of_def)
  then show "zone_wf z" by (simp add: zone_spec_def)
  have hd: "hd ps \<in> set ps" using spec by (simp add: zone_spec_def)
  have "is_pivot r (candles b) (pv_index (hd ps))" "pv_candle (hd ps) = candles b ! pv_index (hd ps)"
    using ps hd by (auto simp: touches_of_def)
  then have c: "pv_candle (hd ps) \<in> set (candles b)" using is_pivot_bounds by fastforce
  then show "sz_source z = cb_source b" "sz_symbol z = cb_symbol b" "sz_interval z = cb_interval b"
    using spec assms(3) by (simp_all add: zone_spec_def batch_wf_def)
  have "1 / 10 ^ 10 \<le> dval (pv_price (hd ps))"
    using assms(4) c by (simp add: market_candle_def pv_price_def)
  then have "1 / 10 ^ 11 \<le> dval (pv_price (hd ps))" by (rule order_trans [rotated]) simp
  moreover have "dec_round (1 / 10 ^ 11) = 1 / 10 ^ 11"
    using dec_round_exact [of 1 "-11"] by (simp add: power_int_minus inverse_eq_divide)
  ultimately have "1 / 10 ^ 11 \<le> dec_round (dval (pv_price (hd ps)))" by (metis dec.R_ge)
  also have "\<dots> \<le> dval (sz_high z)" using spec hd by (simp add: zone_spec_def)
  finally show "1 / 10 ^ 11 \<le> dval (sz_high z)" .
qed

lemma evidence_ok:
  assumes "normal_symbol symbol" "htf i" "aware t" "\<forall>e \<in> set evs. event_wf e"
  shows "\<exists>ev. evidence_from_events primary evs src symbol i t = Inr ev \<and> te_symbol ev = symbol \<and>
    te_interval ev = i"
proof -
  have sym: "upper (strip symbol) = symbol" using assms(1) by (simp add: normal_symbol_def)
  have "truthy (Some (se_id (last evs)))" "aware (se_observed_at (last evs))" if "evs \<noteq> []"
    using assms(4) last_in_set [OF that] by (auto simp: event_wf_def normal_id_def truthy_def)
  then show ?thesis
    using assms(1-3) sym
    by (cases primary; cases "evs = []")
      (auto simp: evidence_from_events_def TimeframeStructureEvidence_Inr evidence_wf_def Let_def)
qed

lemma select_primary_member:
  assumes "map fst by_zone = zones" "select_primary zones by_zone = (primary, evs)"
  shows "(case primary of None \<Rightarrow> True | Some z \<Rightarrow> z \<in> set zones) \<and> set evs \<subseteq> set (concat (map snd by_zone))"
  using assms(1)
proof (cases rule: select_primary_cases)
  case (bearing item)
  have "fst item \<in> set zones" using bearing(2) by (simp flip: assms(1))
  with bearing assms(2) show ?thesis by auto
next
  case strongest
  with assms(2) show ?thesis by auto
next
  case none
  with assms(2) show ?thesis by auto
qed

lemma htf_total:
  assumes "usable_zone_rules zr" "usable_event_rules er" "batch_wf b" "htf (cb_interval b)"
    "\<forall>c \<in> set (candles b). market_candle c"
  shows "\<exists>a. analyze_higher_timeframe zr er b = Inr a"
proof -
  have zr: "zone_rules_wf zr" using assms(1) by (simp add: usable_zone_rules_def)
  have wf: "\<forall>c \<in> set (candles b). candle_wf c" using assms(5) by (simp add: market_candle_def)
  have chron: "chronological (candles b)" using assms(3) by (rule batch_wf_chronological)
  obtain zones where z: "derive_support_zones zr (candles b) = Inr zones"
    using derive_succeeds [OF assms(1) chron batch_series [OF assms(3,4)] assms(5)] by blast
  note dz = derived_zone [OF z zr assms(3,5)]
  have "succeeds (zone_events er (candles b) z)" if "z \<in> set zones" for z
    using build_structure_events_ok [OF assms(2) dz(1,2) [OF that] assms(5) chron] dz(3-5) [OF that] assms(3)
    by (auto simp: succeeds_iff zone_events_Inr batch_wf_def)
  then obtain by_zone where tr: "traverse (zone_events er (candles b)) zones = Inr by_zone"
    using traverse_succeeds_iff by (metis succeeds_iff)
  note tz = traverse_zone_events [OF tr]
  have in_z: "fst item \<in> set zones" if "item \<in> set by_zone" for item
    using that tz by force
  have ev: "event_wf e \<and> se_symbol e = cb_symbol b \<and> se_interval e = cb_interval b \<and> se_source e = cb_source b"
    if e: "e \<in> set (concat (map snd by_zone))" for e
  proof -
    from e obtain item where it: "item \<in> set by_zone" "e \<in> set (snd item)" by auto
    note iz = in_z [OF it(1)]
    have "build_structure_events er (fst item) (candles b) = Inr (snd item)" using tz it(1) by blast
    from built_event(4-7) [OF this dz(1) [OF iz] assms(3) wf it(2)] dz(3-5) [OF iz]
    show ?thesis by simp
  qed
  obtain primary evs where s: "select_primary zones by_zone = (primary, evs)" by fastforce
  note mem = select_primary_member [OF conjunct1 [OF tz] s]
  have bw: "normal_symbol (cb_symbol b)" "aware (fetched_at b)" using assms(3) by (simp_all add: batch_wf_def)
  obtain evid where evid: "evidence_from_events primary evs (cb_source b) (cb_symbol b) (cb_interval b)
      (fetched_at b) = Inr evid" "te_symbol evid = cb_symbol b" "te_interval evid = cb_interval b"
    using evidence_ok [OF bw(1) assms(4) bw(2), of evs primary "cb_source b"] mem ev by blast
  have "\<exists>a. HtfStructureAnalysis \<lparr>ha_source = cb_source b, ha_symbol = cb_symbol b,
      ha_interval = cb_interval b, ha_observed_at = fetched_at b, ha_zones = zones,
      ha_primary_zone = primary, ha_events = sort_key event_order (concat (map snd by_zone)),
      ha_evidence = evid\<rparr> = Inr a"
    using bw assms(4) evid(2,3) dz ev mem
    unfolding HtfStructureAnalysis_Inr
    by (cases primary) (auto simp: normal_symbol_def list_ex_iff intro: zone_eq_refl)
  then show ?thesis
    using z tr s evid(1) assms(4) by (auto simp: analyze_higher_timeframe_def Let_def htf_def)
qed

text \<open>
  C34: on every well-formed Daily or 4H batch with candles in the market range, the
  higher-timeframe analysis returns a result: no division by zero, failed quantisation, index
  error or rejected constructor call ends it.
\<close>

theorem htf_analysis_total:
  assumes "usable_zone_rules zr" "usable_event_rules er" "batch_wf b" "htf (cb_interval b)"
    "\<forall>c \<in> set (candles b). market_candle c"
  shows "\<exists>a. analyze_higher_timeframe zr er b = Inr a"
  by (rule htf_total [OF assms])

section \<open>The sample batch\<close>

lemma sample_analysis:
  "\<exists>a. analyze_higher_timeframe default_zone_rules default_event_rules (sample_batch H4) = Inr a"
  by (rule htf_total [OF default_zone_rules_usable default_event_rules_usable sample_batch_wf(1)])
    (use sample_market in \<open>simp_all add: sample_batch_def htf_def\<close>)

lemma sample_batch_candles: "\<forall>c \<in> set (candles (sample_batch H4)). candle_wf c"
  using sample_candles_wf by (simp add: sample_batch_def)

theorem htf_analysis_total_witness:
  "\<exists>a. analyze_higher_timeframe default_zone_rules default_event_rules (sample_batch D1) = Inr a"
  by (rule htf_analysis_total [OF default_zone_rules_usable default_event_rules_usable sample_batch_wf(2)])
    (use sample_market in \<open>simp_all add: sample_batch_def htf_def\<close>)

theorem htf_damaged_iff_witness:
  "\<exists>a. analyze_higher_timeframe default_zone_rules default_event_rules (sample_batch H4) = Inr a \<and>
    (damaged (ha_evidence a) = (\<exists>z. ha_primary_zone a = Some z \<and> z \<in> set (ha_zones a) \<and>
       broken_now default_event_rules (candles (sample_batch H4)) z))"
  using sample_analysis
    htf_damaged_iff [OF _ sample_batch_wf(1) default_zone_rules_wf sample_batch_candles] by blast

theorem htf_latest_event_witness:
  "\<exists>a. analyze_higher_timeframe default_zone_rules default_event_rules (sample_batch H4) = Inr a \<and>
    sorted (map event_order (ha_events a))"
  using sample_analysis
    htf_latest_event [OF _ sample_batch_wf(1) default_zone_rules_wf sample_batch_candles] by blast

end
