(* ===== verification/Reclaim_Engine.thy ===== *)
theory Reclaim_Engine
  imports Reclaim_Models Htf_Engine
begin

text \<open>
  \<^verbatim>\<open>app/setups/reclaim_engine.py\<close>: what happened after a confirmed break. The candles after the break
  are searched for a successful reclaim (which cancels the short), else for a retest of the zone,
  its rejection and the break of the rejection's low. The long function of the source is cut at
  its returns: each \<open>reclaim_\<dots>\<close> definition below is one of its branches, and
  \<open>analyze_reclaim_attempt\<close> composes them. Also \<open>derive_reclaim_from_structure\<close> of
  \<^verbatim>\<open>app/setups/runtime_analysis.py\<close>, which picks the break to analyse.
\<close>

section \<open>Helpers\<close>

fun highest :: "candle list \<Rightarrow> decimal result" where
  "highest [] = Inl (ValueError ''max() iterable argument is empty'')"
| "highest (c # cs) = Inr (max_by dval (high_price c) (map high_price cs))"

definition penetration_bps :: "decimal \<Rightarrow> decimal \<Rightarrow> decimal result" where
  "penetration_bps price low =
     (if dval price \<le> dval low then Inr (dec 0 0)
      else and_then (ddiv (dsub price low) low) (\<lambda>q. Inr (dmul q BPS)))"

definition reclaim_body_fraction :: "candle \<Rightarrow> decimal result" where
  "reclaim_body_fraction c =
     (let candle_range = dsub (high_price c) (low_price c) in
      if dval candle_range = 0 then Inr (dec 0 0)
      else ddiv (dabs (dsub (close_price c) (open_price c))) candle_range)"

definition reclaim_volume_ratio :: "candle list \<Rightarrow> decimal \<Rightarrow> decimal option result" where
  "reclaim_volume_ratio cs breakdown =
     (if cs = [] \<or> dval breakdown \<le> 0 then Inr None
      else and_then (ddiv (dsum (map volume cs)) (dec (int (length cs)) 0)) (\<lambda>average.
      and_then (ddiv average breakdown) (\<lambda>q. Inr (Some q))))"

definition closes_over :: "zone \<Rightarrow> candle list \<Rightarrow> int" where
  "closes_over z cs = int (count_where (\<lambda>c. dval (sz_high z) < dval (close_price c)) cs)"

definition bars_over :: "zone \<Rightarrow> candle list \<Rightarrow> int" where
  "bars_over z cs = int (count_where (\<lambda>c. dval (sz_high z) < dval (high_price c)) cs)"

definition attempt_ident :: "string \<Rightarrow> string \<Rightarrow> candle_interval \<Rightarrow> datetime \<Rightarrow> string" where
  "attempt_ident break_id zid interval started =
     ''attempt_'' @ take 24 (sha256_hexdigest (join ''|''
       [break_id, zid, interval_value interval, isoformat started]))"

text \<open>The keyword arguments of \<open>_result\<close> that vary between its calls, with their defaults.\<close>

record reclaim_facts =
  rf_interval :: candle_interval
  rf_started :: datetime
  rf_observed :: datetime
  rf_outcome :: reclaim_outcome
  rf_setup :: derived_setup_type
  rf_readiness :: setup_readiness
  rf_maximum_price :: decimal
  rf_penetration :: decimal
  rf_duration :: int
  rf_closes_above :: int
  rf_bars_above :: int
  rf_volume_ratio :: "decimal option"
  rf_quality :: decimal
  rf_reasons :: "string list"
  rf_warnings :: "string list"
  rf_rejection_open :: "datetime option"
  rf_rejection_low :: "decimal option"
  rf_trigger_open :: "datetime option"

definition result_fields :: "zone \<Rightarrow> event \<Rightarrow> reclaim_facts \<Rightarrow> decimal \<Rightarrow> decimal option \<Rightarrow> raw_attempt" where
  "result_fields z e f penetration ratio =
     \<lparr>ra_id = attempt_ident (se_id e) (sz_id z) (rf_interval f) (rf_started f),
      ra_break_event_id = se_id e, ra_zone_id = sz_id z, ra_source = sz_source z,
      ra_symbol = sz_symbol z, ra_structure_interval = sz_interval z,
      ra_started_at = rf_started f, ra_observed_at = rf_observed f, ra_outcome = rf_outcome f,
      ra_setup_type = rf_setup f, ra_readiness = rf_readiness f,
      ra_zone_low = Finite (sz_low z), ra_zone_high = Finite (sz_high z),
      ra_maximum_price = Finite (rf_maximum_price f),
      ra_maximum_penetration_bps = Finite penetration, ra_duration_bars = rf_duration f,
      ra_closes_above_zone = rf_closes_above f, ra_bars_above_zone = rf_bars_above f,
      ra_bounce_volume_ratio = map_option Finite ratio,
      ra_rejection_open = rf_rejection_open f,
      ra_rejection_low = map_option Finite (rf_rejection_low f),
      ra_trigger_open = rf_trigger_open f, ra_quality_score = Finite (rf_quality f),
      ra_reasons = rf_reasons f, ra_warnings = rf_warnings f\<rparr>"

definition reclaim_result :: "zone \<Rightarrow> event \<Rightarrow> reclaim_facts \<Rightarrow> attempt result" where
  "reclaim_result z e f =
     and_then (quantize (rf_penetration f) (-2)) (\<lambda>penetration.
     and_then (case rf_volume_ratio f of None \<Rightarrow> Inr None
               | Some r \<Rightarrow> and_then (quantize r (-4)) (\<lambda>q. Inr (Some q))) (\<lambda>ratio.
     ReclaimAttempt (result_fields z e f penetration ratio)))"

section \<open>Input checks\<close>

fun check_confirmation ::
  "zone \<Rightarrow> candle_interval option \<Rightarrow> int option \<Rightarrow> candle list \<Rightarrow> unit result" where
  "check_confirmation z interval prev [] = Inr ()"
| "check_confirmation z interval prev (c # cs) =
     (if cd_source c \<noteq> sz_source z \<or> cd_symbol c \<noteq> sz_symbol z
        then Inl (ValueError ''confirmation candle does not match zone source and symbol'')
      else if cd_interval c \<notin> {H4, M15}
        then Inl (ValueError ''reclaim confirmation requires 4H or 15m candles'')
      else if interval \<noteq> None \<and> interval \<noteq> Some (cd_interval c)
        then Inl (ValueError ''confirmation candles must share one interval'')
      else if (case prev of None \<Rightarrow> False | Some p \<Rightarrow> instant (open_time c) \<le> p)
        then Inl (ValueError ''confirmation candles must be strictly chronological'')
      else check_confirmation z (Some (cd_interval c)) (Some (instant (open_time c))) cs)"

definition validate_break :: "zone \<Rightarrow> event \<Rightarrow> candle \<Rightarrow> candle list \<Rightarrow> unit result" where
  "validate_break z e bc cs =
     (if se_state e \<noteq> CONFIRMED_BREAK
        then Inl (ValueError ''reclaim analysis requires a confirmed structure break'')
      else if se_zone_id e \<noteq> sz_id z
        then Inl (ValueError ''break event does not belong to support zone'')
      else if se_source e \<noteq> sz_source z \<or> se_symbol e \<noteq> sz_symbol z \<or> se_interval e \<noteq> sz_interval z
        then Inl (ValueError ''break event does not match support zone'')
      else if cd_source bc \<noteq> sz_source z \<or> cd_symbol bc \<noteq> sz_symbol z \<or>
          cd_interval bc \<noteq> sz_interval z \<or> instant (open_time bc) \<noteq> instant (se_open_time e)
        then Inl (ValueError ''break candle does not match confirmed break event'')
      else if instant (close_time bc) \<noteq> instant (se_observed_at e)
        then Inl (ValueError ''break candle close must match break observation time'')
      else check_confirmation z None None cs)"

section \<open>Searches\<close>

fun count_closes :: "zone \<Rightarrow> int \<Rightarrow> nat \<Rightarrow> int \<Rightarrow> candle list \<Rightarrow> nat option" where
  "count_closes z required index consecutive [] = None"
| "count_closes z required index consecutive (c # cs) =
     (if dval (sz_high z) < dval (close_price c)
      then if required \<le> consecutive + 1 then Some index
           else count_closes z required (index + 1) (consecutive + 1) cs
      else count_closes z required (index + 1) 0 cs)"

definition required_closes :: "decimal reclaim_rules \<Rightarrow> candle_interval \<Rightarrow> int" where
  "required_closes r i = (if i = H4 then successful_h4_closes r else successful_m15_closes r)"

definition successful_reclaim_index ::
  "decimal reclaim_rules \<Rightarrow> zone \<Rightarrow> candle list \<Rightarrow> nat option result" where
  "successful_reclaim_index r z cs =
     (case cs of [] \<Rightarrow> Inl (IndexError ''tuple index out of range'')
      | c # _ \<Rightarrow> Inr (count_closes z (required_closes r (cd_interval c)) 0 0 cs))"

definition first_attempt_index ::
  "decimal reclaim_rules \<Rightarrow> zone \<Rightarrow> candle list \<Rightarrow> nat option result" where
  "first_attempt_index r z cs =
     and_then (ddiv (minimum_attempt_penetration_bps r) BPS) (\<lambda>q.
     let threshold = dmul (sz_low z) (dadd (dec 1 0) q) in
     Inr (find_index (\<lambda>c. dval threshold \<le> dval (high_price c)) cs))"

fun rejection_index ::
  "decimal reclaim_rules \<Rightarrow> zone \<Rightarrow> nat \<Rightarrow> candle list \<Rightarrow> nat option result" where
  "rejection_index r z index [] = Inr None"
| "rejection_index r z index (c # cs) =
     (if dval (high_price c) < dval (sz_low z) then rejection_index r z (index + 1) cs
      else if dval (sz_low z) \<le> dval (close_price c) \<or> dval (open_price c) \<le> dval (close_price c)
        then rejection_index r z (index + 1) cs
      else and_then (reclaim_body_fraction c) (\<lambda>body.
      and_then (ddiv (dsub (sz_low z) (close_price c)) (sz_low z)) (\<lambda>q.
      and_then (penetration_bps (high_price c) (sz_low z)) (\<lambda>penetration.
      if dval (minimum_rejection_body_fraction r) \<le> dval body \<and>
         dval (minimum_rejection_distance_bps r) \<le> dval (dmul q BPS) \<and>
         dval penetration \<le> dval (maximum_failed_reclaim_penetration_bps r)
      then Inr (Some index)
      else rejection_index r z (index + 1) cs))))"

section \<open>Quality\<close>

definition volume_component ::
  "decimal reclaim_rules \<Rightarrow> decimal option \<Rightarrow> (decimal \<times> string list) result" where
  "volume_component r ratio = (case ratio of
       None \<Rightarrow> Inr (dec 8 0, [''BOUNCE_VOLUME_RATIO_UNAVAILABLE''])
     | Some v \<Rightarrow>
         if dval v \<le> dval (maximum_bounce_volume_ratio r) then
           and_then (ddiv v (dmax (maximum_bounce_volume_ratio r) (dec 1 (-4)))) (\<lambda>q.
           and_then (quantize (dadd (dec 15 0) (dmul (dec 10 0) (dsub (dec 1 0) q))) (-2)) (\<lambda>c.
           Inr (c, [])))
         else Inr (dec 0 0, [''BOUNCE_VOLUME_NOT_WEAK'']))"

definition reclaim_quality ::
  "decimal reclaim_rules \<Rightarrow> decimal \<Rightarrow> decimal \<Rightarrow> decimal option \<Rightarrow> int \<Rightarrow> bool \<Rightarrow>
     (decimal \<times> string list \<times> string list) result" where
  "reclaim_quality r penetration body ratio bars triggered =
     and_then (ddiv penetration (dmax (maximum_failed_reclaim_penetration_bps r) (dec 1 0))) (\<lambda>p.
     and_then (quantize (dmul (dec 25 0) (dsub (dec 1 0) (dmin (dec 1 0) p))) (-2)) (\<lambda>penetration_component.
     and_then (quantize (dmul (dec 30 0) (dmin (dec 1 0) body)) (-2)) (\<lambda>rejection_component.
     and_then (ddiv (dec bars 0) (dec (maximum_pullback_bars r) 0)) (\<lambda>d.
     and_then (quantize (dmul (dec 20 0) (dsub (dec 1 0) (dmin (dec 1 0) d))) (-2)) (\<lambda>duration_component.
     and_then (volume_component r ratio) (\<lambda>(volume_part, warnings).
     let trigger_component = (if triggered then dec 20 0 else dec 0 0) in
     and_then (quantize (dmin (dec 100 0) (dadd (dadd (dadd (dadd penetration_component
         rejection_component) duration_component) volume_part) trigger_component)) (-2)) (\<lambda>total_score.
     Inr (total_score,
       [''QUALITY_PENETRATION_'' @ dec_str penetration_component,
        ''QUALITY_REJECTION_'' @ dec_str rejection_component,
        ''QUALITY_DURATION_'' @ dec_str duration_component,
        ''QUALITY_VOLUME_'' @ dec_str volume_part,
        ''QUALITY_TRIGGER_'' @ dec_str trigger_component], warnings))))))))"

section \<open>The branches of the analysis\<close>

definition plain_facts :: "candle_interval \<Rightarrow> datetime \<Rightarrow> datetime \<Rightarrow> decimal \<Rightarrow> reclaim_facts" where
  "plain_facts interval started observed price =
     \<lparr>rf_interval = interval, rf_started = started, rf_observed = observed,
      rf_outcome = NO_ATTEMPT, rf_setup = BREAKDOWN_SHORT, rf_readiness = SR_WATCH,
      rf_maximum_price = price, rf_penetration = dec 0 0, rf_duration = 0, rf_closes_above = 0,
      rf_bars_above = 0, rf_volume_ratio = None, rf_quality = dec 0 0, rf_reasons = [],
      rf_warnings = [], rf_rejection_open = None, rf_rejection_low = None,
      rf_trigger_open = None\<rparr>"

text \<open>No candle closed after the break (lines 39 to 57).\<close>

definition reclaim_no_candles :: "zone \<Rightarrow> event \<Rightarrow> attempt result" where
  "reclaim_no_candles z e =
     reclaim_result z e ((plain_facts H4 (se_observed_at e) (se_observed_at e) (se_close_price e))
       \<lparr>rf_reasons := [''NO_POST_BREAK_CONFIRMATION_CANDLES'']\<rparr>)"

text \<open>A successful reclaim at index \<open>i\<close> (lines 61 to 88).\<close>

definition reclaim_success ::
  "zone \<Rightarrow> event \<Rightarrow> candle \<Rightarrow> candle_interval \<Rightarrow> candle list \<Rightarrow> nat \<Rightarrow> attempt result" where
  "reclaim_success z e bc interval relevant i =
     (let considered = take (i + 1) relevant in
      and_then (highest considered) (\<lambda>price.
      and_then (penetration_bps price (sz_low z)) (\<lambda>penetration.
      and_then (reclaim_volume_ratio considered (volume bc)) (\<lambda>ratio.
      reclaim_result z e ((plain_facts interval (open_time (hd considered))
          (close_time (last considered)) price)
        \<lparr>rf_outcome := SUCCESSFUL_RECLAIM, rf_setup := DS_NONE, rf_readiness := CANCELLED,
         rf_penetration := penetration, rf_duration := int (length considered),
         rf_closes_above := closes_over z considered, rf_bars_above := bars_over z considered,
         rf_volume_ratio := ratio,
         rf_reasons := [''SUCCESSFUL_RECLAIM_CONFIRMED'',
           ''CONFIRMATION_INTERVAL_'' @ upper (interval_label interval),
           ''SHORT_SETUP_CANCELLED'']\<rparr>)))))"

text \<open>\<open>_continuation_result\<close> (lines 362 to 425).\<close>

definition bounce_position :: "candle list \<Rightarrow> nat" where
  "bounce_position search = max_by (\<lambda>i. dval (high_price (search ! i))) 0 [1 ..< length search]"

definition continuation_trigger :: "candle \<Rightarrow> candle list \<Rightarrow> nat \<Rightarrow> candle option" where
  "continuation_trigger bc search b =
     find (\<lambda>c. dval (close_price c) < dval (low_price bc) \<and>
               dval (high_price c) < dval (high_price (search ! b))) (drop (b + 1) search)"

definition continuation_quality :: "decimal reclaim_rules \<Rightarrow> decimal option \<Rightarrow> nat \<Rightarrow> decimal result" where
  "continuation_quality r ratio bars =
     (let weak = (case ratio of None \<Rightarrow> False
                  | Some v \<Rightarrow> dval v \<le> dval (maximum_bounce_volume_ratio r));
          base = (if weak then dadd (dec 65 0) (dec 10 0) else dec 65 0) in
      quantize (dmax (dec 0 0) (dsub base (dmin (dec (int bars) 0) (dec 10 0)))) (-2))"

definition continuation_result ::
  "decimal reclaim_rules \<Rightarrow> zone \<Rightarrow> event \<Rightarrow> candle \<Rightarrow> candle list \<Rightarrow> attempt option result" where
  "continuation_result r z e bc cs =
     (if int (length cs) < continuation_minimum_bars r then Inr None
      else let search = take (nat (maximum_pullback_bars r)) cs; b = bounce_position search;
             bounce = search ! b in
      if b = 0 \<or> length search - 1 \<le> b then Inr None
      else if dval (sz_low z) \<le> dval (high_price bounce) \<or>
          dval (high_price bounce) \<le> dval (se_close_price e) then Inr None
      else case continuation_trigger bc search b of
        None \<Rightarrow> Inr None
      | Some trigger \<Rightarrow>
          let considered = (case find_index (\<lambda>c. c = trigger) search of
                 None \<Rightarrow> search | Some i \<Rightarrow> take (i + 1) search) in
          and_then (reclaim_volume_ratio considered (volume bc)) (\<lambda>ratio.
          and_then (continuation_quality r ratio (length considered)) (\<lambda>quality.
          and_then (highest considered) (\<lambda>price.
          and_then (reclaim_result z e ((plain_facts (cd_interval (hd search))
              (open_time (hd search)) (close_time trigger) price)
            \<lparr>rf_outcome := CONTINUATION, rf_setup := CONTINUATION_SHORT, rf_readiness := QUALIFIED,
             rf_duration := int (length considered), rf_volume_ratio := ratio,
             rf_rejection_open := Some (open_time bounce),
             rf_rejection_low := Some (low_price bc), rf_trigger_open := Some (open_time trigger),
             rf_quality := quality,
             rf_reasons := [''LOWER_HIGH_BELOW_BROKEN_ZONE'', ''POST_BOUNCE_LOWER_LOW_CONFIRMED'',
               ''CONTINUATION_SETUP_SECONDARY''],
             rf_warnings := (case ratio of None \<Rightarrow> [] | Some v \<Rightarrow>
               if dval (maximum_bounce_volume_ratio r) < dval v
               then [''CONTINUATION_BOUNCE_VOLUME_NOT_WEAK''] else [])\<rparr>))
            (\<lambda>a. Inr (Some a))))))"

text \<open>The zone was not retested (lines 91 to 137).\<close>

definition reclaim_unattempted ::
  "decimal reclaim_rules \<Rightarrow> zone \<Rightarrow> event \<Rightarrow> candle \<Rightarrow> candle_interval \<Rightarrow> candle list \<Rightarrow> attempt result" where
  "reclaim_unattempted r z e bc interval relevant =
     and_then (continuation_result r z e bc relevant) (\<lambda>continuation.
     case continuation of Some a \<Rightarrow> Inr a
     | None \<Rightarrow>
       and_then (highest relevant) (\<lambda>price.
       and_then (reclaim_volume_ratio relevant (volume bc)) (\<lambda>ratio.
       let facts = (plain_facts interval (open_time (hd relevant)) (close_time (last relevant)) price)
             \<lparr>rf_duration := int (length relevant), rf_volume_ratio := ratio\<rparr> in
       if maximum_setup_age_bars r \<le> int (length relevant) then
         reclaim_result z e (facts\<lparr>rf_outcome := RO_EXPIRED, rf_setup := DS_NONE,
           rf_readiness := SR_EXPIRED, rf_reasons := [''SETUP_EXPIRED_WITHOUT_RECLAIM_ATTEMPT'']\<rparr>)
       else reclaim_result z e (facts\<lparr>rf_reasons := [''BROKEN_ZONE_NOT_RETESTED'']\<rparr>))))"

text \<open>The zone is retested and not rejected so far (lines 149 to 189).\<close>

definition reclaim_open ::
  "decimal reclaim_rules \<Rightarrow> zone \<Rightarrow> event \<Rightarrow> candle \<Rightarrow> candle_interval \<Rightarrow> candle list \<Rightarrow> reclaim_facts \<Rightarrow>
     attempt result" where
  "reclaim_open r z e bc interval stream facts =
     (if maximum_pullback_bars r < int (length stream) then
        reclaim_result z e (facts\<lparr>rf_outcome := RO_INVALIDATED, rf_setup := DS_NONE,
          rf_readiness := SR_INVALIDATED,
          rf_reasons := [''PULLBACK_WINDOW_EXCEEDED_WITHOUT_REJECTION'']\<rparr>)
      else
        and_then (highest stream) (\<lambda>price.
        and_then (penetration_bps price (sz_low z)) (\<lambda>penetration.
        and_then (reclaim_volume_ratio stream (volume bc)) (\<lambda>ratio.
        reclaim_result z e ((plain_facts interval (open_time (hd stream)) (close_time (last stream)) price)
          \<lparr>rf_outcome := ATTEMPTING, rf_penetration := penetration,
           rf_duration := int (length stream), rf_closes_above := closes_over z stream,
           rf_bars_above := bars_over z stream, rf_volume_ratio := ratio,
           rf_reasons := [''RECLAIM_ATTEMPT_IN_PROGRESS'']\<rparr>)))))"

text \<open>The retest was rejected at index \<open>i\<close> of the attempt (lines 191 to 259).\<close>

definition rejection_trigger :: "candle list \<Rightarrow> nat \<Rightarrow> candle option" where
  "rejection_trigger stream i =
     find (\<lambda>c. dval (close_price c) < dval (low_price (stream ! i))) (drop (i + 1) stream)"

definition reclaim_rejected ::
  "decimal reclaim_rules \<Rightarrow> zone \<Rightarrow> event \<Rightarrow> candle list \<Rightarrow> nat \<Rightarrow> reclaim_facts \<Rightarrow> attempt result" where
  "reclaim_rejected r z e stream i facts =
     (let rejection = stream ! i; trigger = rejection_trigger stream i in
      and_then (reclaim_body_fraction rejection) (\<lambda>body.
      and_then (reclaim_quality r (rf_penetration facts) body (rf_volume_ratio facts) (int i + 1)
        (trigger \<noteq> None)) (\<lambda>(quality, quality_reasons, warnings).
      let found = facts\<lparr>rf_duration := int i + 1, rf_quality := quality,
            rf_rejection_open := Some (open_time rejection),
            rf_rejection_low := Some (low_price rejection), rf_warnings := warnings\<rparr> in
      case trigger of
        None \<Rightarrow> reclaim_result z e (found\<lparr>rf_observed := close_time rejection,
          rf_outcome := FAILED_RECLAIM, rf_setup := BREAKDOWN_SHORT, rf_readiness := SR_WATCH,
          rf_reasons := [''RECLAIM_REJECTED'', ''WAITING_FOR_REJECTION_LOW_BREAK'']
            @ quality_reasons\<rparr>)
      | Some t \<Rightarrow> reclaim_result z e (found\<lparr>rf_observed := close_time t,
          rf_outcome := FAILED_PULLBACK, rf_setup := FAILED_PULLBACK_SHORT,
          rf_readiness := QUALIFIED, rf_trigger_open := Some (open_time t),
          rf_reasons := [''RECLAIM_REJECTED'', ''REJECTION_LOW_BROKEN_ON_CLOSED_CANDLE'',
            ''FAILED_PULLBACK_PRIMARY_SETUP''] @ quality_reasons\<rparr>))))"

text \<open>The zone was retested from index \<open>k\<close> on (lines 139 to 259).\<close>

definition reclaim_attempted ::
  "decimal reclaim_rules \<Rightarrow> zone \<Rightarrow> event \<Rightarrow> candle \<Rightarrow> candle_interval \<Rightarrow> candle list \<Rightarrow> attempt result" where
  "reclaim_attempted r z e bc interval stream =
     (let limited = take (nat (maximum_pullback_bars r)) stream in
      and_then (rejection_index r z 0 limited) (\<lambda>rejection.
      let considered = (case rejection of None \<Rightarrow> limited | Some i \<Rightarrow> take (i + 1) limited) in
      and_then (highest considered) (\<lambda>price.
      and_then (penetration_bps price (sz_low z)) (\<lambda>penetration.
      and_then (reclaim_volume_ratio considered (volume bc)) (\<lambda>ratio.
      let facts = (plain_facts interval (open_time (hd stream)) (close_time (last limited)) price)
            \<lparr>rf_penetration := penetration, rf_duration := int (length limited),
             rf_closes_above := closes_over z considered,
             rf_bars_above := bars_over z considered, rf_volume_ratio := ratio\<rparr> in
      case rejection of
        None \<Rightarrow> reclaim_open r z e bc interval stream facts
      | Some i \<Rightarrow> reclaim_rejected r z e stream i facts)))))"

definition post_break :: "event \<Rightarrow> candle list \<Rightarrow> candle list" where
  "post_break e cs = filter (\<lambda>c. instant (se_observed_at e) < instant (close_time c)) cs"

definition analyze_reclaim_attempt ::
  "decimal reclaim_rules \<Rightarrow> zone \<Rightarrow> event \<Rightarrow> candle \<Rightarrow> candle list \<Rightarrow> attempt result" where
  "analyze_reclaim_attempt r z e bc cs =
     and_then (validate_break z e bc cs) (\<lambda>_.
     let relevant = post_break e cs in
     if relevant = [] then reclaim_no_candles z e
     else let interval = cd_interval (hd relevant) in
     and_then (successful_reclaim_index r z relevant) (\<lambda>success.
     case success of Some i \<Rightarrow> reclaim_success z e bc interval relevant i
     | None \<Rightarrow>
       and_then (first_attempt_index r z relevant) (\<lambda>attempt.
       case attempt of None \<Rightarrow> reclaim_unattempted r z e bc interval relevant
       | Some k \<Rightarrow> reclaim_attempted r z e bc interval (drop k relevant))))"

section \<open>The break to analyse\<close>

definition derive_reclaim_from_structure ::
  "candle_batch \<Rightarrow> htf_analysis \<Rightarrow> attempt option result" where
  "derive_reclaim_from_structure b a =
     (if cb_interval b \<noteq> H4 then Inr None
      else if ha_source a \<noteq> cb_source b \<or> ha_symbol a \<noteq> cb_symbol b \<or> ha_interval a \<noteq> cb_interval b
        then Inl (ValueError ''structure analysis does not match candle batch'')
      else case filter (\<lambda>e. se_state e = CONFIRMED_BREAK) (ha_events a) of
        [] \<Rightarrow> Inr None
      | first # rest \<Rightarrow>
          let e = max_by event_order first rest in
          (case find (\<lambda>z. sz_id z = se_zone_id e) (ha_zones a) of
            None \<Rightarrow> Inl (ValueError ''confirmed break is missing its support zone'')
          | Some z \<Rightarrow>
              (case find (\<lambda>c. instant (open_time c) = instant (se_open_time e)) (candles b) of
                None \<Rightarrow> Inl (ValueError ''confirmed break is missing its source candle'')
              | Some bc \<Rightarrow> and_then (analyze_reclaim_attempt default_reclaim_rules z e bc (candles b))
                  (\<lambda>a. Inr (Some a)))))"

section \<open>A successful reclaim is the first run of closes above the zone\<close>

definition holds_above :: "zone \<Rightarrow> nat \<Rightarrow> candle list \<Rightarrow> nat \<Rightarrow> bool" where
  "holds_above z n cs j \<longleftrightarrow>
     j < length cs \<and> n \<le> j + 1 \<and> (\<forall>i. j + 1 \<le> i + n \<and> i \<le> j \<longrightarrow> closes_above z (cs ! i))"

definition trailing :: "zone \<Rightarrow> candle list \<Rightarrow> nat" where
  "trailing z cs = length (takeWhile (closes_above z) (rev cs))"

lemma trailing_snoc:
  "trailing z (cs @ [c]) = (if closes_above z c then trailing z cs + 1 else 0)"
  by (simp add: trailing_def)

lemma le_length_takeWhile:
  "n \<le> length (takeWhile P xs) \<longleftrightarrow> n \<le> length xs \<and> (\<forall>i < n. P (xs ! i))"
proof (induction xs arbitrary: n)
  case Nil
  then show ?case by auto
next
  case (Cons x xs)
  then show ?case by (cases n) (auto simp: less_Suc_eq_0_disj)
qed

lemma trailing_iff:
  assumes "j < length cs"
  shows "n \<le> trailing z (take (j + 1) cs) \<longleftrightarrow> holds_above z n cs j"
proof -
  have nth: "rev (take (j + 1) cs) ! i = cs ! (j - i)" if "i \<le> j" for i
    using assms that by (simp add: rev_nth)
  have "(\<forall>i < n. closes_above z (rev (take (j + 1) cs) ! i)) \<longleftrightarrow>
      (\<forall>i. j + 1 \<le> i + n \<and> i \<le> j \<longrightarrow> closes_above z (cs ! i))" if n: "n \<le> j + 1"
  proof (intro iffI allI impI)
    fix i assume "\<forall>i < n. closes_above z (rev (take (j + 1) cs) ! i)" "j + 1 \<le> i + n \<and> i \<le> j"
    then show "closes_above z (cs ! i)" using nth [of "j - i"] by (auto dest!: spec [of _ "j - i"])
  next
    fix i assume "\<forall>i. j + 1 \<le> i + n \<and> i \<le> j \<longrightarrow> closes_above z (cs ! i)" "i < n"
    then show "closes_above z (rev (take (j + 1) cs) ! i)"
      using nth [of i] n by (auto dest!: spec [of _ "j - i"])
  qed
  then show ?thesis
    using assms by (auto simp: trailing_def le_length_takeWhile holds_above_def)
qed

lemma count_closes_Some:
  assumes "1 \<le> req" "int (trailing z pre) < req"
  shows "count_closes z req (length pre) (int (trailing z pre)) cs = Some k \<longleftrightarrow>
    length pre \<le> k \<and> holds_above z (nat req) (pre @ cs) k \<and>
    (\<forall>j. length pre \<le> j \<and> j < k \<longrightarrow> \<not> holds_above z (nat req) (pre @ cs) j)"
  using assms(2)
proof (induction cs arbitrary: pre)
  case Nil
  then show ?case by (auto simp: holds_above_def)
next
  case (Cons c cs)
  have at: "holds_above z (nat req) (pre @ c # cs) (length pre) \<longleftrightarrow> req \<le> int (trailing z (pre @ [c]))"
    using trailing_iff [of "length pre" "pre @ c # cs" "nat req" z] assms(1) by simp linarith
  show ?case
  proof (cases "req \<le> int (trailing z (pre @ [c]))")
    case True
    then have "closes_above z c" "req \<le> int (trailing z pre) + 1"
      using assms(1) by (auto simp: trailing_snoc split: if_splits)
    then have "count_closes z req (length pre) (int (trailing z pre)) (c # cs) = Some (length pre)"
      by (simp add: closes_above_def)
    then show ?thesis using at True by (auto simp: le_less not_less)
  next
    case False
    then have step: "count_closes z req (length pre) (int (trailing z pre)) (c # cs) =
        count_closes z req (length (pre @ [c])) (int (trailing z (pre @ [c]))) cs"
      by (auto simp: trailing_snoc closes_above_def add.commute split: if_splits)
    have "length pre \<le> j \<longleftrightarrow> j = length pre \<or> length (pre @ [c]) \<le> j" for j by auto
    then show ?thesis
      unfolding step using Cons.IH [of "pre @ [c]"] False at by (auto simp: not_le)
  qed
qed

definition reclaimed_at :: "decimal reclaim_rules \<Rightarrow> zone \<Rightarrow> candle list \<Rightarrow> nat \<Rightarrow> bool" where
  "reclaimed_at r z cs j \<longleftrightarrow> holds_above z (nat (required_closes r (cd_interval (hd cs)))) cs j"

definition reclaim_rules_wf :: "decimal reclaim_rules \<Rightarrow> bool" where
  "reclaim_rules_wf r \<longleftrightarrow>
     1 \<le> successful_h4_closes r \<and> 1 \<le> successful_m15_closes r \<and>
     0 \<le> dval (minimum_attempt_penetration_bps r) \<and>
     0 \<le> dval (maximum_failed_reclaim_penetration_bps r) \<and>
     0 \<le> dval (maximum_bounce_volume_ratio r) \<and> dval (maximum_bounce_volume_ratio r) \<le> 10 \<and>
     0 \<le> dval (minimum_rejection_body_fraction r) \<and> dval (minimum_rejection_body_fraction r) \<le> 1 \<and>
     0 \<le> dval (minimum_rejection_distance_bps r) \<and> 1 \<le> maximum_pullback_bars r \<and>
     maximum_pullback_bars r \<le> maximum_setup_age_bars r \<and> 2 \<le> continuation_minimum_bars r"

lemma ReclaimRules_wf: "ReclaimRules a = Inr r \<Longrightarrow> reclaim_rules_wf r"
  unfolding ReclaimRules_def by (clarsimp simp: result_simps reclaim_rules_wf_def not_less)

lemma default_reclaim_rules_wf: "reclaim_rules_wf default_reclaim_rules"
  by (simp add: reclaim_rules_wf_def default_reclaim_rules_def)

lemma successful_index:
  assumes "reclaim_rules_wf r" "cs \<noteq> []"
  shows "\<exists>s. successful_reclaim_index r z cs = Inr s \<and>
    (\<forall>k. s = Some k \<longleftrightarrow> reclaimed_at r z cs k \<and> (\<forall>j < k. \<not> reclaimed_at r z cs j))"
proof -
  let ?req = "required_closes r (cd_interval (hd cs))"
  have req: "1 \<le> ?req" using assms(1) by (simp add: required_closes_def reclaim_rules_wf_def)
  have "count_closes z ?req 0 0 cs = Some k \<longleftrightarrow>
      reclaimed_at r z cs k \<and> (\<forall>j < k. \<not> reclaimed_at r z cs j)" for k
    using count_closes_Some [OF req, of z "[]" cs k] req by (simp add: reclaimed_at_def trailing_def)
  moreover have "successful_reclaim_index r z cs = Inr (count_closes z ?req 0 0 cs)"
    using assms(2) by (cases cs) (simp_all add: successful_reclaim_index_def)
  ultimately show ?thesis by blast
qed

lemma successful_index_None:
  assumes "reclaim_rules_wf r" "cs \<noteq> []" "successful_reclaim_index r z cs = Inr s"
  shows "s = None \<longleftrightarrow> (\<nexists>j. reclaimed_at r z cs j)"
proof -
  obtain s' where s': "successful_reclaim_index r z cs = Inr s'"
    and ks: "\<forall>k. s' = Some k \<longleftrightarrow> reclaimed_at r z cs k \<and> (\<forall>j < k. \<not> reclaimed_at r z cs j)"
    using successful_index [OF assms(1,2)] by blast
  have "s' = s" using s' assms(3) by simp
  then have iff: "s = Some k \<longleftrightarrow> reclaimed_at r z cs k \<and> (\<forall>j < k. \<not> reclaimed_at r z cs j)" for k
    using ks by simp
  show ?thesis
  proof
    assume "s = None"
    show "\<nexists>j. reclaimed_at r z cs j"
    proof
      assume "\<exists>j. reclaimed_at r z cs j"
      then obtain k where "reclaimed_at r z cs k" "\<forall>j < k. \<not> reclaimed_at r z cs j"
        using exists_least_iff [of "reclaimed_at r z cs"] by blast
      with iff \<open>s = None\<close> show False by blast
    qed
  next
    assume "\<nexists>j. reclaimed_at r z cs j"
    with iff show "s = None" by (cases s) auto
  qed
qed

section \<open>What an analysis reports\<close>

lemma reclaim_result_fields:
  assumes "reclaim_result z e f = Inr a"
  shows "ra_outcome a = rf_outcome f" "ra_setup_type a = rf_setup f" "ra_readiness a = rf_readiness f"
    "ra_rejection_open a = rf_rejection_open f" "ra_trigger_open a = rf_trigger_open f"
    "ra_started_at a = rf_started f" "ra_observed_at a = rf_observed f" "attempt_wf a"
proof -
  from assms obtain pen ratio where "ReclaimAttempt (result_fields z e f pen ratio) = Inr a"
    unfolding reclaim_result_def by (auto simp: result_simps)
  from ReclaimAttempt_fields [OF this] ReclaimAttempt_wf [OF this]
  show "ra_outcome a = rf_outcome f" "ra_setup_type a = rf_setup f" "ra_readiness a = rf_readiness f"
    "ra_rejection_open a = rf_rejection_open f" "ra_trigger_open a = rf_trigger_open f"
    "ra_started_at a = rf_started f" "ra_observed_at a = rf_observed f" "attempt_wf a"
    by (simp_all add: result_fields_def)
qed

text \<open>The three verdicts that can stand together.\<close>

definition verdict_of :: "reclaim_outcome \<Rightarrow> derived_setup_type \<times> setup_readiness" where
  "verdict_of out = (case out of
     NO_ATTEMPT \<Rightarrow> (BREAKDOWN_SHORT, SR_WATCH) | ATTEMPTING \<Rightarrow> (BREAKDOWN_SHORT, SR_WATCH)
   | FAILED_RECLAIM \<Rightarrow> (BREAKDOWN_SHORT, SR_WATCH)
   | FAILED_PULLBACK \<Rightarrow> (FAILED_PULLBACK_SHORT, QUALIFIED)
   | CONTINUATION \<Rightarrow> (CONTINUATION_SHORT, QUALIFIED)
   | SUCCESSFUL_RECLAIM \<Rightarrow> (DS_NONE, CANCELLED) | RO_EXPIRED \<Rightarrow> (DS_NONE, SR_EXPIRED)
   | RO_INVALIDATED \<Rightarrow> (DS_NONE, SR_INVALIDATED))"

definition coherent :: "attempt \<Rightarrow> bool" where
  "coherent a \<longleftrightarrow> (ra_setup_type a, ra_readiness a) = verdict_of (ra_outcome a) \<and> attempt_wf a"

lemma reclaim_result_coherent:
  assumes "reclaim_result z e f = Inr a" "(rf_setup f, rf_readiness f) = verdict_of (rf_outcome f)"
  shows "coherent a"
  using reclaim_result_fields [OF assms(1)] assms(2) by (simp add: coherent_def)

lemma no_candles_verdict:
  "reclaim_no_candles z e = Inr a \<Longrightarrow> coherent a \<and> ra_outcome a = NO_ATTEMPT"
  unfolding reclaim_no_candles_def
  by (auto dest: reclaim_result_fields(1) intro!: reclaim_result_coherent
      simp: verdict_of_def plain_facts_def)

lemma success_verdict:
  "reclaim_success z e bc i cs k = Inr a \<Longrightarrow> coherent a \<and> ra_outcome a = SUCCESSFUL_RECLAIM"
  unfolding reclaim_success_def Let_def
  by (auto dest: reclaim_result_fields(1) elim!: reclaim_result_coherent
      simp: verdict_of_def plain_facts_def result_simps)

lemma open_verdict:
  "reclaim_open r z e bc i cs f = Inr a \<Longrightarrow>
     coherent a \<and> ra_outcome a \<in> {RO_INVALIDATED, ATTEMPTING}"
  unfolding reclaim_open_def
  by (auto dest: reclaim_result_fields(1) elim!: reclaim_result_coherent
      simp: verdict_of_def plain_facts_def result_simps split: if_splits)

section \<open>Evidence behind a qualified setup\<close>

text \<open>
  What the engine must have seen for a qualified verdict: a rejection candle and a later trigger
  candle, both after the break.
\<close>

definition pullback_evidence :: "zone \<Rightarrow> candle \<Rightarrow> candle \<Rightarrow> bool" where
  "pullback_evidence z c t \<longleftrightarrow>
     dval (sz_low z) \<le> dval (high_price c) \<and> dval (close_price c) < dval (sz_low z) \<and>
     dval (close_price c) < dval (open_price c) \<and> dval (close_price t) < dval (low_price c)"

definition continuation_evidence :: "zone \<Rightarrow> event \<Rightarrow> candle \<Rightarrow> candle \<Rightarrow> candle \<Rightarrow> bool" where
  "continuation_evidence z e bc c t \<longleftrightarrow>
     dval (high_price c) < dval (sz_low z) \<and> dval (se_close_price e) < dval (high_price c) \<and>
     dval (close_price t) < dval (low_price bc) \<and> dval (high_price t) < dval (high_price c)"

definition supported ::
  "zone \<Rightarrow> event \<Rightarrow> candle \<Rightarrow> candle list \<Rightarrow> attempt \<Rightarrow> bool" where
  "supported z e bc cs a \<longleftrightarrow> (\<exists>i j. i < j \<and> j < length cs \<and>
     ra_rejection_open a = Some (open_time (cs ! i)) \<and> ra_trigger_open a = Some (open_time (cs ! j)) \<and>
     (if ra_outcome a = FAILED_PULLBACK then pullback_evidence z (cs ! i) (cs ! j)
      else continuation_evidence z e bc (cs ! i) (cs ! j)))"

lemma supported_drop:
  assumes "supported z e bc (drop k cs) a"
  shows "supported z e bc cs a"
proof -
  from assms obtain i j where "i < j" "j < length (drop k cs)"
    "ra_rejection_open a = Some (open_time (drop k cs ! i))"
    "ra_trigger_open a = Some (open_time (drop k cs ! j))"
    "if ra_outcome a = FAILED_PULLBACK then pullback_evidence z (drop k cs ! i) (drop k cs ! j)
      else continuation_evidence z e bc (drop k cs ! i) (drop k cs ! j)"
    unfolding supported_def by blast
  then have "k + i < k + j \<and> k + j < length cs \<and>
     ra_rejection_open a = Some (open_time (cs ! (k + i))) \<and>
     ra_trigger_open a = Some (open_time (cs ! (k + j))) \<and>
     (if ra_outcome a = FAILED_PULLBACK then pullback_evidence z (cs ! (k + i)) (cs ! (k + j))
      else continuation_evidence z e bc (cs ! (k + i)) (cs ! (k + j)))"
    by (auto simp: less_diff_conv add.commute split: if_splits)
  then show ?thesis unfolding supported_def by blast
qed

lemma find_drop:
  assumes "find P (drop k xs) = Some x"
  obtains j where "k \<le> j" "j < length xs" "x = xs ! j" "P x"
proof -
  from assms obtain i where "i < length (drop k xs)" "P (drop k xs ! i)" "x = drop k xs ! i"
    by (auto simp: find_Some_iff)
  then show thesis by (intro that [of "k + i"]) simp_all
qed

lemma rejection_index_Some:
  "rejection_index r z n cs = Inr (Some i) \<Longrightarrow>
     \<exists>k. i = n + k \<and> k < length cs \<and> dval (sz_low z) \<le> dval (high_price (cs ! k)) \<and>
       dval (close_price (cs ! k)) < dval (sz_low z) \<and>
       dval (close_price (cs ! k)) < dval (open_price (cs ! k))"
proof (induction cs arbitrary: n)
  case Nil
  then show ?case by simp
next
  case (Cons c cs)
  show ?case
  proof (cases "rejection_index r z (n + 1) cs = Inr (Some i)")
    case True
    from Cons.IH [OF this] obtain k where "i = n + 1 + k" "k < length cs"
      "dval (sz_low z) \<le> dval (high_price (cs ! k))" "dval (close_price (cs ! k)) < dval (sz_low z)"
      "dval (close_price (cs ! k)) < dval (open_price (cs ! k))" by blast
    then show ?thesis by (intro exI [of _ "k + 1"]) simp
  next
    case False
    with Cons.prems show ?thesis
      by (intro exI [of _ 0]) (auto simp: result_simps not_less not_le split: if_splits)
  qed
qed

lemma rejected_verdict:
  assumes "reclaim_rejected r z e stream i f = Inr a"
    and "dval (sz_low z) \<le> dval (high_price (stream ! i))"
    "dval (close_price (stream ! i)) < dval (sz_low z)"
    "dval (close_price (stream ! i)) < dval (open_price (stream ! i))"
  shows "coherent a \<and> ra_outcome a \<in> {FAILED_RECLAIM, FAILED_PULLBACK} \<and>
    (ra_outcome a = FAILED_PULLBACK \<longrightarrow> supported z e bc stream a)"
proof (cases "rejection_trigger stream i")
  case None
  then show ?thesis
    using assms(1) unfolding reclaim_rejected_def Let_def
    by (auto dest: reclaim_result_fields(1) elim!: reclaim_result_coherent
        simp: verdict_of_def result_simps)
next
  case (Some t)
  then obtain j where j: "i + 1 \<le> j" "j < length stream" "t = stream ! j"
    "dval (close_price t) < dval (low_price (stream ! i))"
    unfolding rejection_trigger_def by (rule find_drop)
  obtain f' where f': "reclaim_result z e f' = Inr a" "rf_outcome f' = FAILED_PULLBACK"
    "rf_setup f' = FAILED_PULLBACK_SHORT" "rf_readiness f' = QUALIFIED"
    "rf_rejection_open f' = Some (open_time (stream ! i))" "rf_trigger_open f' = Some (open_time t)"
    using assms(1) Some unfolding reclaim_rejected_def Let_def by (force simp: result_simps)
  note fields = reclaim_result_fields [OF f'(1)]
  have "coherent a" using f' by (intro reclaim_result_coherent [OF f'(1)]) (simp add: verdict_of_def)
  moreover have "supported z e bc stream a"
    unfolding supported_def using j fields f'(2,5,6) assms(2-4)
    by (intro exI [of _ i] exI [of _ j]) (simp add: pullback_evidence_def)
  ultimately show ?thesis using fields(1) f'(2) by simp
qed

lemma attempted_verdict:
  assumes "reclaim_attempted r z e bc i stream = Inr a"
  shows "coherent a \<and> ra_outcome a \<in> {FAILED_RECLAIM, FAILED_PULLBACK, RO_INVALIDATED, ATTEMPTING} \<and>
    (ra_outcome a = FAILED_PULLBACK \<longrightarrow> supported z e bc stream a)"
proof -
  let ?limited = "take (nat (maximum_pullback_bars r)) stream"
  obtain rej where rej: "rejection_index r z 0 ?limited = Inr rej"
    using assms unfolding reclaim_attempted_def Let_def by (auto simp: result_simps)
  show ?thesis
  proof (cases rej)
    case None
    then obtain f where "reclaim_open r z e bc i stream f = Inr a"
      using assms rej unfolding reclaim_attempted_def Let_def by (auto simp: result_simps)
    from open_verdict [OF this] show ?thesis by auto
  next
    case (Some k)
    then obtain f where f: "reclaim_rejected r z e stream k f = Inr a"
      using assms rej unfolding reclaim_attempted_def Let_def by (auto simp: result_simps)
    from rejection_index_Some [of r z 0 ?limited k] rej Some
    have "dval (sz_low z) \<le> dval (high_price (stream ! k))"
      "dval (close_price (stream ! k)) < dval (sz_low z)"
      "dval (close_price (stream ! k)) < dval (open_price (stream ! k))" by auto
    from rejected_verdict [OF f this] show ?thesis by auto
  qed
qed

lemma continuation_verdict:
  assumes "continuation_result r z e bc cs = Inr (Some a)"
  shows "coherent a \<and> ra_outcome a = CONTINUATION \<and> supported z e bc cs a"
proof -
  let ?search = "take (nat (maximum_pullback_bars r)) cs"
  let ?b = "bounce_position ?search"
  from assms obtain t where t: "continuation_trigger bc ?search ?b = Some t"
    and bounce: "dval (high_price (?search ! ?b)) < dval (sz_low z)"
      "dval (se_close_price e) < dval (high_price (?search ! ?b))"
    unfolding continuation_result_def Let_def by (auto split: if_splits option.splits)
  from t obtain j where j: "?b + 1 \<le> j" "j < length ?search" "t = ?search ! j"
    "dval (close_price t) < dval (low_price bc)" "dval (high_price t) < dval (high_price (?search ! ?b))"
    unfolding continuation_trigger_def by (elim find_drop) simp
  obtain f where f: "reclaim_result z e f = Inr a" "rf_outcome f = CONTINUATION"
    "rf_setup f = CONTINUATION_SHORT" "rf_readiness f = QUALIFIED"
    "rf_rejection_open f = Some (open_time (?search ! ?b))" "rf_trigger_open f = Some (open_time t)"
    using assms t unfolding continuation_result_def Let_def
    by (force simp: result_simps split: if_splits)
  note fields = reclaim_result_fields [OF f(1)]
  have "coherent a" using f by (intro reclaim_result_coherent [OF f(1)]) (simp add: verdict_of_def)
  moreover have "supported z e bc cs a"
    unfolding supported_def using j fields f(2,5,6) bounce
    by (intro exI [of _ ?b] exI [of _ j]) (simp add: continuation_evidence_def)
  ultimately show ?thesis using fields(1) f(2) by simp
qed

lemma unattempted_verdict:
  assumes "reclaim_unattempted r z e bc i cs = Inr a"
  shows "coherent a \<and> ra_outcome a \<in> {CONTINUATION, RO_EXPIRED, NO_ATTEMPT} \<and>
    (ra_outcome a = CONTINUATION \<longrightarrow> supported z e bc cs a)"
proof -
  obtain c where c: "continuation_result r z e bc cs = Inr c"
    using assms unfolding reclaim_unattempted_def by (auto simp: result_simps)
  show ?thesis
  proof (cases c)
    case None
    then obtain f where "reclaim_result z e f = Inr a" "rf_outcome f \<in> {RO_EXPIRED, NO_ATTEMPT}"
      "(rf_setup f, rf_readiness f) = verdict_of (rf_outcome f)"
      using assms c unfolding reclaim_unattempted_def Let_def
      by (fastforce simp: result_simps verdict_of_def plain_facts_def split: if_splits)
    with reclaim_result_fields(1) reclaim_result_coherent show ?thesis by force
  next
    case (Some a')
    then have "a' = a" using assms c unfolding reclaim_unattempted_def by simp
    with continuation_verdict c Some show ?thesis by blast
  qed
qed

end
