(* ===== verification/Reclaim_Total.thy ===== *)
theory Reclaim_Total
  imports Reclaim_Engine
begin

text \<open>
  On market data the reclaim analysis returns: no division by zero, no quantization out of range
  and no rejected combination of fields is reachable in any of its branches.
\<close>

section \<open>Results whose fields pass the checks\<close>

definition ratio_ok :: "decimal option \<Rightarrow> bool" where
  "ratio_ok w \<longleftrightarrow> (case w of None \<Rightarrow> True | Some v \<Rightarrow> 0 \<le> dval v \<and> dval v \<le> 10 ^ 20)"

definition facts_ok :: "reclaim_facts \<Rightarrow> bool" where
  "facts_ok f \<longleftrightarrow>
     aware (rf_started f) \<and> aware (rf_observed f) \<and> instant (rf_started f) \<le> instant (rf_observed f) \<and>
     dval price_floor \<le> dval (rf_maximum_price f) \<and>
     0 \<le> dval (rf_penetration f) \<and> dval (rf_penetration f) \<le> 10 ^ 25 \<and>
     0 \<le> rf_duration f \<and> 0 \<le> rf_closes_above f \<and> rf_closes_above f \<le> rf_bars_above f \<and>
     ratio_ok (rf_volume_ratio f) \<and> 0 \<le> dval (rf_quality f) \<and> dval (rf_quality f) \<le> 100"

definition evidence_ok :: "reclaim_facts \<Rightarrow> bool" where
  "evidence_ok f \<longleftrightarrow>
     (rf_rejection_open f = None \<longleftrightarrow> rf_rejection_low f = None) \<and>
     triggered_after (rf_rejection_open f) (rf_trigger_open f) \<and>
     (case rf_rejection_open f of None \<Rightarrow> True | Some t \<Rightarrow> aware t) \<and>
     (case rf_rejection_low f of None \<Rightarrow> True | Some d \<Rightarrow> dval price_floor \<le> dval d) \<and>
     (case rf_trigger_open f of None \<Rightarrow> True | Some t \<Rightarrow> aware t) \<and>
     (rf_setup f, rf_readiness f) = verdict_of (rf_outcome f) \<and>
     (rf_outcome f = FAILED_PULLBACK \<longrightarrow> rf_rejection_open f \<noteq> None \<and> rf_trigger_open f \<noteq> None)"

lemma quantize_nonneg:
  assumes "0 \<le> dval d" "dval d \<le> of_int n * 10 powi e" "n < 10 ^ 28"
  shows "\<exists>c. quantize d e = Inr c \<and> 0 \<le> dval c"
  using quantize_succeeds [of d n e] quantized_nonneg [OF assms(1), of e] assms by fastforce

lemma quantize_ratio:
  assumes "ratio_ok w"
  shows "\<exists>q. (case w of None \<Rightarrow> Inr None | Some r \<Rightarrow> and_then (quantize r (-4)) (\<lambda>q. Inr (Some q))) = Inr q \<and>
    (case q of None \<Rightarrow> True | Some d \<Rightarrow> dval (dec 0 0) \<le> dval d)"
proof (cases w)
  case None
  then show ?thesis by simp
next
  case (Some v)
  then have "\<exists>c. quantize v (-4) = Inr c \<and> 0 \<le> dval c"
    using assms by (intro quantize_nonneg [of v "10 ^ 24"]) (simp_all add: ratio_ok_def)
  then show ?thesis using Some by auto
qed

lemma attempt_ident_nonempty: "strip (attempt_ident b z i t) \<noteq> []"
  by (auto simp: strip_eq_Nil attempt_ident_def is_space_def spaces_def)

lemma verdict_of_cases:
  "(s, q) = verdict_of out \<Longrightarrow>
     (out = SUCCESSFUL_RECLAIM \<longrightarrow> q = CANCELLED \<and> s = DS_NONE) \<and>
     (out = FAILED_PULLBACK \<longrightarrow> s = FAILED_PULLBACK_SHORT \<and> q = QUALIFIED) \<and>
     (q = QUALIFIED \<longrightarrow> s \<noteq> DS_NONE) \<and>
     (q \<in> {CANCELLED, SR_EXPIRED, SR_INVALIDATED} \<longrightarrow> s = DS_NONE)"
  by (cases out) (auto simp: verdict_of_def)

lemma reclaim_result_ok:
  assumes z: "zone_wf z" and e: "event_wf e" and f: "facts_ok f" and ev: "evidence_ok f"
  shows "\<exists>a. reclaim_result z e f = Inr a"
proof -
  obtain pen where pen: "quantize (rf_penetration f) (-2) = Inr pen" "0 \<le> dval pen"
    using f quantize_nonneg [of "rf_penetration f" "10 ^ 27" "-2"] by (auto simp: facts_ok_def)
  obtain w where w: "(case rf_volume_ratio f of None \<Rightarrow> Inr None
      | Some r \<Rightarrow> and_then (quantize r (-4)) (\<lambda>q. Inr (Some q))) = Inr w"
    "case w of None \<Rightarrow> True | Some d \<Rightarrow> dval (dec 0 0) \<le> dval d"
    using f quantize_ratio [of "rf_volume_ratio f"] by (auto simp: facts_ok_def)
  have "strip (sz_symbol z) \<noteq> ''''"
    using z by (auto simp: zone_wf_def normal_symbol_def upper_def)
  moreover have "check_combination (result_fields z e f pen w) (rf_rejection_open f) (rf_trigger_open f) = Inr ()"
    using ev verdict_of_cases [of "rf_setup f" "rf_readiness f" "rf_outcome f"]
    unfolding check_combination_Inr by (auto simp: result_fields_def evidence_ok_def)
  ultimately have "\<exists>a. ReclaimAttempt (result_fields z e f pen w) = Inr a"
    using z e f ev pen(2) w(2) attempt_ident_nonempty
    by (intro ReclaimAttempt_succeeds [where rl = "rf_rejection_low f" and lo = "sz_low z"
          and hi = "sz_high z" and peak = "rf_maximum_price f" and pen = pen and q = "rf_quality f"
          and w = w])
      (simp_all add: result_fields_def zone_wf_def event_wf_def normal_id_def facts_ok_def evidence_ok_def
        check_evidence_Inr)
  with pen(1) w(1) show ?thesis by (simp add: reclaim_result_def)
qed

section \<open>Measurements on market candles\<close>

text \<open>The candles after the break: of one series, in order, in the market range.\<close>

definition stream_ok :: "candle list \<Rightarrow> bool" where
  "stream_ok cs \<longleftrightarrow> cs \<noteq> [] \<and> chronological cs \<and> (\<forall>c \<in> set cs. market_candle c) \<and> int (length cs) \<le> 10 ^ 9"

lemma stream_ok_take: "stream_ok cs \<Longrightarrow> 0 < n \<Longrightarrow> stream_ok (take n cs)"
  by (auto simp: stream_ok_def chronological_def sorted_wrt_take dest: in_set_takeD)

lemma stream_ok_drop: "stream_ok cs \<Longrightarrow> n < length cs \<Longrightarrow> stream_ok (drop n cs)"
  by (auto simp: stream_ok_def chronological_def sorted_wrt_drop dest: in_set_dropD)

lemma stream_started:
  assumes "stream_ok cs" "c \<in> set cs"
  shows "instant (open_time (hd cs)) \<le> instant (close_time c)" "aware (open_time (hd cs))"
    "aware (close_time c)" "aware (open_time c)"
proof -
  have wf: "candle_wf x" if "x \<in> set cs" for x using assms(1) that by (simp add: stream_ok_def market_candle_def)
  have hd: "hd cs \<in> set cs" using assms(1) by (simp add: stream_ok_def)
  have "instant (open_time (hd cs)) \<le> instant (open_time c)"
    using assms by (cases cs) (auto simp: stream_ok_def chronological_def)
  moreover have "instant (open_time c) < instant (close_time c)"
    using wf [OF assms(2)] by (simp add: candle_wf_def)
  ultimately show "instant (open_time (hd cs)) \<le> instant (close_time c)" by simp
  show "aware (open_time (hd cs))" "aware (close_time c)" "aware (open_time c)"
    using wf [OF hd] wf [OF assms(2)] by (simp_all add: candle_wf_def)
qed

lemma market_high:
  assumes "market_candle c"
  shows "1 / 10 ^ 10 \<le> dval (high_price c)" "dval (high_price c) \<le> 10 ^ 10" "dval price_floor \<le> dval (high_price c)"
    "dval price_floor \<le> dval (low_price c)"
proof -
  have floor: "dval price_floor \<le> 1 / 10 ^ 10" by (simp add: price_floor_def power_int_minus inverse_eq_divide)
  have *: "1 / 10 ^ 10 \<le> dval (low_price c)" "dval (high_price c) \<le> 10 ^ 10" "dval (low_price c) \<le> dval (high_price c)"
    using assms by (auto simp: market_candle_def candle_wf_def)
  show "1 / 10 ^ 10 \<le> dval (high_price c)" "dval (high_price c) \<le> 10 ^ 10"
    "dval price_floor \<le> dval (high_price c)" "dval price_floor \<le> dval (low_price c)"
    using * floor by linarith+
qed

lemma highest_ok:
  assumes "stream_ok cs"
  shows "\<exists>price. highest cs = Inr price \<and> dval price_floor \<le> dval price \<and> dval price \<le> 10 ^ 10"
proof (cases cs)
  case Nil
  with assms show ?thesis by (simp add: stream_ok_def)
next
  case (Cons c rest)
  have "max_by dval (high_price c) (map high_price rest) \<in> high_price ` set cs"
    using max_by_in [of dval "high_price c" "map high_price rest"] Cons by auto
  with Cons assms market_high show ?thesis by (fastforce simp: stream_ok_def)
qed

lemma penetration_ok:
  assumes "1 / 10 ^ 11 \<le> dval low" "dval price \<le> 10 ^ 10"
  shows "\<exists>p. penetration_bps price low = Inr p \<and> 0 \<le> dval p \<and> dval p \<le> 10 ^ 25"
proof (cases "dval price \<le> dval low")
  case True
  then show ?thesis by (simp add: penetration_bps_def)
next
  case False
  have low: "0 < dval low" using assms(1) by (rule less_le_trans [rotated]) simp
  then obtain q where q: "ddiv (dsub price low) low = Inr q" "dval q = dec_round (dval (dsub price low) / dval low)"
    using ddiv_succeeds by (metis less_irrefl)
  have d: "0 \<le> dval (dsub price low)" "dval (dsub price low) \<le> 10 ^ 10"
    using False assms(2) low unfolding dval_dsub by (auto intro: dec.R_nonneg dec.R_le)
  have "dval (dsub price low) / dval low \<le> 10 ^ 10 / (1 / 10 ^ 11)"
    using d assms(1) by (intro frac_le) auto
  then have "dval q \<le> 10 ^ 21" unfolding q(2) by (intro dec.R_le) simp_all
  moreover have "0 \<le> dval q" unfolding q(2) using d low by (intro dec.R_nonneg) simp
  ultimately have "0 \<le> dval (dmul q BPS)" "dval (dmul q BPS) \<le> 10 ^ 25"
    unfolding dval_dmul BPS_def by (auto intro!: dec.R_nonneg dec.R_le)
  with False q(1) show ?thesis by (simp add: penetration_bps_def)
qed

lemma foldl_dadd_le:
  assumes "\<forall>x \<in> set ds. dval x \<le> 10 ^ 12" "dval d \<le> of_int k * 10 ^ 12" "0 \<le> k" "k + int (length ds) \<le> 10 ^ 10"
  shows "dval (foldl dadd d ds) \<le> of_int (k + int (length ds)) * 10 ^ 12"
  using assms
proof (induction ds arbitrary: d k)
  case Nil
  then show ?case by simp
next
  case (Cons x ds)
  have "dval d + dval x \<le> of_int ((k + 1) * 10 ^ 12)" using Cons.prems by (simp add: algebra_simps)
  then have "dval (dadd d x) \<le> of_int ((k + 1) * 10 ^ 12)"
    unfolding dval_dadd using Cons.prems by (intro dec.R_le dec_round_int) simp_all
  then have "dval (foldl dadd (dadd d x) ds) \<le> of_int (k + 1 + int (length ds)) * 10 ^ 12"
    using Cons.prems by (intro Cons.IH) simp_all
  then show ?case by (simp add: algebra_simps)
qed

lemma reclaim_volume_ratio_ok:
  assumes "stream_ok cs" "market_candle bc"
  shows "\<exists>w. reclaim_volume_ratio cs (volume bc) = Inr w \<and> ratio_ok w"
proof (cases "dval (volume bc) \<le> 0")
  case True
  then show ?thesis by (simp add: reclaim_volume_ratio_def ratio_ok_def)
next
  case False
  let ?sum = "dsum (map volume cs)" and ?n = "dec (int (length cs)) 0"
  have cs: "cs \<noteq> []" "int (length cs) \<le> 10 ^ 9" "\<And>c. c \<in> set cs \<Longrightarrow> 0 \<le> dval (volume c) \<and> dval (volume c) \<le> 10 ^ 12"
    using assms(1) by (auto simp: stream_ok_def market_candle_def candle_wf_def)
  have "int (length cs) \<le> 10 ^ 10" using cs(2) by simp
  then have "dval ?sum \<le> of_int (int (length cs)) * 10 ^ 12" unfolding dsum_def
    using foldl_dadd_le [of "map volume cs" "dec 0 0" 0] cs(3) by simp
  then have "dval ?sum / dval ?n \<le> 10 ^ 12" using cs(1) by (simp add: field_simps)
  moreover have "0 \<le> dval ?sum" using cs(3) by (intro dval_dsum_nonneg) simp
  moreover obtain avg where avg: "ddiv ?sum ?n = Inr avg" "dval avg = dec_round (dval ?sum / dval ?n)"
    using ddiv_succeeds [of ?n ?sum] cs(1) by auto
  ultimately have a: "0 \<le> dval avg" "dval avg \<le> 10 ^ 12"
    unfolding avg(2) by (auto intro!: dec.R_nonneg dec.R_le)
  have v: "1 / 10 ^ 8 \<le> dval (volume bc)" using assms(2) False by (auto simp: market_candle_def)
  obtain q where q: "ddiv avg (volume bc) = Inr q" "dval q = dec_round (dval avg / dval (volume bc))"
    using ddiv_succeeds [of "volume bc" avg] False by auto
  have "dval avg / dval (volume bc) \<le> 10 ^ 12 / (1 / 10 ^ 8)" using a v by (intro frac_le) auto
  then have "dval q \<le> 10 ^ 20" unfolding q(2) by (intro dec.R_le) simp_all
  moreover have "0 \<le> dval q" unfolding q(2) using a False by (intro dec.R_nonneg) simp
  ultimately show ?thesis using False cs(1) avg(1) q(1) by (simp add: reclaim_volume_ratio_def ratio_ok_def)
qed

lemma counters_ok:
  assumes "\<forall>c \<in> set cs. market_candle c"
  shows "0 \<le> closes_over z cs" "closes_over z cs \<le> bars_over z cs"
  using assms unfolding closes_over_def bars_over_def count_where_def
  by (induction cs) (force simp: market_candle_def candle_wf_def)+

lemma reclaim_body_fraction_ok:
  assumes "candle_wf c"
  shows "\<exists>b. reclaim_body_fraction c = Inr b \<and> 0 \<le> dval b"
proof (cases "dval (dsub (high_price c) (low_price c)) = 0")
  case True
  then show ?thesis by (simp add: reclaim_body_fraction_def Let_def)
next
  case False
  have "0 \<le> dval (dsub (high_price c) (low_price c))"
    using assms unfolding dval_dsub by (auto simp: candle_wf_def intro: dec.R_nonneg)
  then have "0 \<le> dec_round (dval (dabs (dsub (close_price c) (open_price c))) /
      dval (dsub (high_price c) (low_price c)))"
    by (intro dec.R_nonneg divide_nonneg_nonneg) (simp_all add: dval_dabs dec.R_nonneg)
  with ddiv_succeeds [OF False, of "dabs (dsub (close_price c) (open_price c))"] False show ?thesis
    by (fastforce simp: reclaim_body_fraction_def Let_def)
qed

lemma rejection_index_ok:
  assumes "1 / 10 ^ 11 \<le> dval (sz_low z)" "\<forall>c \<in> set cs. market_candle c"
  shows "\<exists>s. rejection_index r z n cs = Inr s"
  using assms(2)
proof (induction cs arbitrary: n)
  case Nil
  then show ?case by simp
next
  case (Cons c cs)
  have c: "market_candle c" using Cons.prems by simp
  obtain body where body: "reclaim_body_fraction c = Inr body"
    using reclaim_body_fraction_ok c by (auto simp: market_candle_def)
  have "dval (sz_low z) \<noteq> 0" using assms(1) by auto
  then obtain q where q: "ddiv (dsub (sz_low z) (close_price c)) (sz_low z) = Inr q"
    using ddiv_succeeds by blast
  obtain p where p: "penetration_bps (high_price c) (sz_low z) = Inr p"
    using penetration_ok [OF assms(1) market_high(2) [OF c]] by blast
  from Cons show ?case by (simp add: body q p)
qed

section \<open>Quality scores\<close>

lemma score_part:
  assumes "0 \<le> dval b" "0 \<le> k" "k \<le> 1000"
  shows "\<exists>c. quantize (dmul (dec k 0) (dsub (dec 1 0) (dmin (dec 1 0) b))) (-2) = Inr c \<and>
    0 \<le> dval c"
proof -
  have m: "0 \<le> dval (dsub (dec 1 0) (dmin (dec 1 0) b))" "dval (dsub (dec 1 0) (dmin (dec 1 0) b)) \<le> 1"
    using assms(1) unfolding dval_dsub dval_dmin by (auto intro!: dec.R_nonneg dec.R_le)
  then have "of_int k * dval (dsub (dec 1 0) (dmin (dec 1 0) b)) \<le> of_int k"
    using assms(2) by (simp add: mult_left_le)
  then have "dval (dmul (dec k 0) (dsub (dec 1 0) (dmin (dec 1 0) b))) \<le> of_int k"
    unfolding dval_dmul using assms(2,3) by (intro dec.R_le dec_round_int) simp_all
  moreover have "0 \<le> dval (dmul (dec k 0) (dsub (dec 1 0) (dmin (dec 1 0) b)))"
    unfolding dval_dmul using assms(2) m by (intro dec.R_nonneg) simp
  ultimately show ?thesis using assms(2,3)
    by (intro quantize_nonneg [where n = "100 * k"]) (simp_all add: power_int_minus)
qed

lemma body_part:
  assumes "0 \<le> dval b"
  shows "\<exists>c. quantize (dmul (dec 30 0) (dmin (dec 1 0) b)) (-2) = Inr c \<and> 0 \<le> dval c"
proof (rule quantize_nonneg [where n = 3000])
  show "0 \<le> dval (dmul (dec 30 0) (dmin (dec 1 0) b))"
    using assms unfolding dval_dmul dval_dmin by (auto intro!: dec.R_nonneg)
  show "dval (dmul (dec 30 0) (dmin (dec 1 0) b)) \<le> of_int 3000 * 10 powi -2"
    unfolding dval_dmul dval_dmin by (auto intro!: dec.R_le simp: power_int_minus)
qed simp

lemma volume_component_ok:
  assumes "reclaim_rules_wf r" "ratio_ok w"
  shows "\<exists>c ws. volume_component r w = Inr (c, ws) \<and> 0 \<le> dval c"
proof (cases "\<exists>v. w = Some v \<and> dval v \<le> dval (maximum_bounce_volume_ratio r)")
  case False
  then show ?thesis by (auto simp: volume_component_def split: option.split)
next
  case True
  then obtain v where v: "w = Some v" "dval v \<le> dval (maximum_bounce_volume_ratio r)" "0 \<le> dval v"
    using assms(2) by (auto simp: ratio_ok_def)
  let ?m = "dmax (maximum_bounce_volume_ratio r) (dec 1 (-4))"
  have m: "0 < dval ?m" "dval v \<le> dval ?m" using v by (simp_all add: dval_dmax less_max_iff_disj le_max_iff_disj)
  then obtain q where q: "ddiv v ?m = Inr q" "dval q = dec_round (dval v / dval ?m)"
    using ddiv_succeeds by (metis less_irrefl)
  have q01: "0 \<le> dval q" "dval q \<le> 1"
    unfolding q(2) using v(3) m by (auto intro: dec.R_nonneg dec.R_div_le_one)
  have s: "0 \<le> dval (dsub (dec 1 0) q)" "dval (dsub (dec 1 0) q) \<le> 1"
    unfolding dval_dsub using q01 by (auto intro!: dec.R_nonneg dec.R_le)
  then have t: "0 \<le> dval (dmul (dec 10 0) (dsub (dec 1 0) q))" "dval (dmul (dec 10 0) (dsub (dec 1 0) q)) \<le> 10"
    unfolding dval_dmul by (auto intro!: dec.R_nonneg dec.R_le)
  have "\<exists>c. quantize (dadd (dec 15 0) (dmul (dec 10 0) (dsub (dec 1 0) q))) (-2) = Inr c \<and> 0 \<le> dval c"
  proof (rule quantize_nonneg [where n = 2500])
    show "0 \<le> dval (dadd (dec 15 0) (dmul (dec 10 0) (dsub (dec 1 0) q)))"
      unfolding dval_dadd using t by (intro dec.R_nonneg) simp
    show "dval (dadd (dec 15 0) (dmul (dec 10 0) (dsub (dec 1 0) q))) \<le> of_int 2500 * 10 powi -2"
      unfolding dval_dadd using t by (auto intro!: dec.R_le simp: power_int_minus)
  qed simp
  with v q(1) show ?thesis by (auto simp: volume_component_def)
qed

lemma reclaim_quality_ok:
  assumes r: "reclaim_rules_wf r" and x: "0 \<le> dval pen" "0 \<le> dval body" "ratio_ok w" "0 \<le> bars"
  shows "\<exists>q rs ws. reclaim_quality r pen body w bars trig = Inr (q, rs, ws) \<and> 0 \<le> dval q \<and> dval q \<le> 100"
proof -
  let ?m = "dmax (maximum_failed_reclaim_penetration_bps r) (dec 1 0)"
  have m: "0 < dval ?m" by (simp add: dval_dmax less_max_iff_disj)
  then obtain p where p: "ddiv pen ?m = Inr p" "dval p = dec_round (dval pen / dval ?m)"
    using ddiv_succeeds by (metis less_irrefl)
  have p0: "0 \<le> dval p" unfolding p(2) using x(1) m by (intro dec.R_nonneg) simp
  let ?n = "dec (maximum_pullback_bars r) 0"
  have n: "0 < dval ?n" using r by (simp add: reclaim_rules_wf_def)
  then obtain d where d: "ddiv (dec bars 0) ?n = Inr d" "dval d = dec_round (dval (dec bars 0) / dval ?n)"
    using ddiv_succeeds by (metis less_irrefl)
  have d0: "0 \<le> dval d" unfolding d(2) using x(4) n by (intro dec.R_nonneg divide_nonneg_pos) simp_all
  obtain c1 where c1: "quantize (dmul (dec 25 0) (dsub (dec 1 0) (dmin (dec 1 0) p))) (-2) = Inr c1" "0 \<le> dval c1"
    using score_part [of p 25] p0 by auto
  obtain c2 where c2: "quantize (dmul (dec 30 0) (dmin (dec 1 0) body)) (-2) = Inr c2" "0 \<le> dval c2"
    using body_part [OF x(2)] by blast
  obtain c3 where c3: "quantize (dmul (dec 20 0) (dsub (dec 1 0) (dmin (dec 1 0) d))) (-2) = Inr c3" "0 \<le> dval c3"
    using score_part [of d 20] d0 by auto
  obtain c4 ws where c4: "volume_component r w = Inr (c4, ws)" "0 \<le> dval c4"
    using volume_component_ok [OF r x(3)] by blast
  let ?t = "if trig then dec 20 0 else dec 0 0"
  let ?s = "dmin (dec 100 0) (dadd (dadd (dadd (dadd c1 c2) c3) c4) ?t)"
  have s: "0 \<le> dval ?s" "dval ?s \<le> 100"
    using c1(2) c2(2) c3(2) c4(2) unfolding dval_dmin dval_dadd by (auto intro!: dec.R_nonneg add_nonneg_nonneg)
  then obtain q where q: "quantize ?s (-2) = Inr q" "dval q = quantized (dval ?s) (-2)"
    using quantize_succeeds [of ?s 10000 "-2"] by (auto simp: power_int_minus)
  have "0 \<le> dval q" unfolding q(2) using s(1) by (rule quantized_nonneg)
  moreover have "dval q \<le> 100" unfolding q(2)
    using quantized_mono [OF s(2), of "-2"] quantized_exact [of 10000 "-2"] by (simp add: power_int_minus)
  ultimately show ?thesis
    using p(1) c1(1) c2(1) d(1) c3(1) c4(1) q(1) by (simp add: reclaim_quality_def Let_def)
qed

lemma continuation_quality_ok: "\<exists>q. continuation_quality r w n = Inr q \<and> 0 \<le> dval q \<and> dval q \<le> 100"
proof -
  define base where "base = (if (case w of None \<Rightarrow> False | Some v \<Rightarrow> dval v \<le> dval (maximum_bounce_volume_ratio r))
    then dadd (dec 65 0) (dec 10 0) else dec 65 0)"
  have base: "0 \<le> dval base" "dval base \<le> 75" by (simp_all add: base_def dval_dadd)
  let ?s = "dmax (dec 0 0) (dsub base (dmin (dec (int n) 0) (dec 10 0)))"
  have s: "0 \<le> dval ?s" "dval ?s \<le> 75"
    using base unfolding dval_dmax dval_dsub dval_dmin by (auto intro!: dec.R_le)
  then obtain q where q: "quantize ?s (-2) = Inr q" "dval q = quantized (dval ?s) (-2)"
    using quantize_succeeds [of ?s 7500 "-2"] by (auto simp: power_int_minus)
  have "dval q \<le> 75" unfolding q(2)
    using quantized_mono [OF s(2), of "-2"] quantized_exact [of 7500 "-2"] by (simp add: power_int_minus)
  moreover have "0 \<le> dval q" unfolding q(2) using s(1) by (rule quantized_nonneg)
  ultimately show ?thesis using q(1) by (force simp: continuation_quality_def Let_def base_def)
qed

section \<open>The branches\<close>

lemma stream_measures:
  assumes "stream_ok cs" "market_candle bc" "1 / 10 ^ 11 \<le> dval (sz_low z)"
  obtains price pen w where "highest cs = Inr price" "dval price_floor \<le> dval price"
    "penetration_bps price (sz_low z) = Inr pen" "0 \<le> dval pen" "dval pen \<le> 10 ^ 25"
    "reclaim_volume_ratio cs (volume bc) = Inr w" "ratio_ok w"
    "0 \<le> closes_over z cs" "closes_over z cs \<le> bars_over z cs"
proof -
  obtain price where price: "highest cs = Inr price" "dval price_floor \<le> dval price" "dval price \<le> 10 ^ 10"
    using highest_ok [OF assms(1)] by blast
  obtain pen where "penetration_bps price (sz_low z) = Inr pen" "0 \<le> dval pen" "dval pen \<le> 10 ^ 25"
    using penetration_ok [OF assms(3) price(3)] by blast
  moreover obtain w where "reclaim_volume_ratio cs (volume bc) = Inr w" "ratio_ok w"
    using reclaim_volume_ratio_ok [OF assms(1,2)] by blast
  ultimately show thesis using that price counters_ok [of cs z] assms(1) by (auto simp: stream_ok_def)
qed

lemma reclaim_no_candles_ok:
  assumes "zone_wf z" "event_wf e"
  shows "\<exists>a. reclaim_no_candles z e = Inr a"
  unfolding reclaim_no_candles_def using assms(2)
  by (intro reclaim_result_ok assms)
    (simp_all add: facts_ok_def evidence_ok_def plain_facts_def ratio_ok_def event_wf_def
      triggered_after_def verdict_of_def)

lemma plain_evidence:
  assumes "rf_rejection_open f = None" "rf_rejection_low f = None" "rf_trigger_open f = None"
    "(rf_setup f, rf_readiness f) = verdict_of (rf_outcome f)" "rf_outcome f \<noteq> FAILED_PULLBACK"
  shows "evidence_ok f"
  using assms by (simp add: evidence_ok_def triggered_after_def)

lemma reclaim_success_ok:
  assumes "zone_wf z" "event_wf e" "stream_ok cs" "market_candle bc" "1 / 10 ^ 11 \<le> dval (sz_low z)"
  shows "\<exists>a. reclaim_success z e bc i cs k = Inr a"
proof -
  have s: "stream_ok (take (k + 1) cs)" using assms(3) by (rule stream_ok_take) simp
  then have last: "last (take (k + 1) cs) \<in> set (take (k + 1) cs)" by (simp add: stream_ok_def)
  obtain price pen w where m: "highest (take (k + 1) cs) = Inr price" "dval price_floor \<le> dval price"
    "penetration_bps price (sz_low z) = Inr pen" "0 \<le> dval pen" "dval pen \<le> 10 ^ 25"
    "reclaim_volume_ratio (take (k + 1) cs) (volume bc) = Inr w" "ratio_ok w"
    "0 \<le> closes_over z (take (k + 1) cs)" "closes_over z (take (k + 1) cs) \<le> bars_over z (take (k + 1) cs)"
    using stream_measures [OF s assms(4,5)] .
  show ?thesis
    unfolding reclaim_success_def Let_def m(1,3,6) and_then.simps
    using stream_started [OF s last] m
    by (intro reclaim_result_ok assms plain_evidence)
      (simp_all add: facts_ok_def plain_facts_def verdict_of_def)
qed

lemma bounce_position_bound: "cs \<noteq> [] \<Longrightarrow> bounce_position cs < length cs"
  using max_by_in [of "\<lambda>i. dval (high_price (cs ! i))" 0 "[1 ..< length cs]"]
  by (auto simp: bounce_position_def)

lemma chronological_less:
  assumes "chronological cs" "i < j" "j < length cs"
  shows "instant (open_time (cs ! i)) < instant (open_time (cs ! j))"
  using assms by (simp add: chronological_def sorted_wrt_iff_nth_less)

lemma find_index_take_ok:
  assumes "stream_ok cs" "t \<in> set cs"
  defines "ps \<equiv> (case find_index (\<lambda>c. c = t) cs of None \<Rightarrow> cs | Some i \<Rightarrow> take (i + 1) cs)"
  shows "stream_ok ps"
  using assms stream_ok_take [OF assms(1)] by (simp add: ps_def split: option.split)

lemma continuation_result_ok:
  assumes "zone_wf z" "event_wf e" "stream_ok cs" "market_candle bc" "1 / 10 ^ 11 \<le> dval (sz_low z)"
    "reclaim_rules_wf r"
  shows "\<exists>a. continuation_result r z e bc cs = Inr a"
proof -
  let ?search = "take (nat (maximum_pullback_bars r)) cs"
  let ?b = "bounce_position ?search"
  have s: "stream_ok ?search"
    using assms(3,6) by (intro stream_ok_take) (simp_all add: reclaim_rules_wf_def)
  show ?thesis
  proof (cases "continuation_trigger bc ?search ?b")
    case None
    then show ?thesis by (simp add: continuation_result_def Let_def)
  next
    case (Some t)
    then obtain j where j: "?b + 1 \<le> j" "j < length ?search" "t = ?search ! j"
      unfolding continuation_trigger_def by (elim find_drop) blast
    have t: "t \<in> set ?search" unfolding j(3) using j(2) by (rule nth_mem)
    have b: "?search ! ?b \<in> set ?search" using j by (intro nth_mem) simp
    let ?ps = "case find_index (\<lambda>c. c = t) ?search of None \<Rightarrow> ?search | Some i \<Rightarrow> take (i + 1) ?search"
    obtain price w where m: "highest ?ps = Inr price" "dval price_floor \<le> dval price"
      "reclaim_volume_ratio ?ps (volume bc) = Inr w" "ratio_ok w"
      using stream_measures [OF find_index_take_ok [OF s t] assms(4,5)] by metis
    obtain q where q: "continuation_quality r w (length ?ps) = Inr q" "0 \<le> dval q" "dval q \<le> 100"
      using continuation_quality_ok by blast
    have "instant (open_time (?search ! ?b)) < instant (open_time t)"
      using j s chronological_less [of ?search ?b j] by (simp add: stream_ok_def)
    then have "\<exists>a. reclaim_result z e ((plain_facts (cd_interval (hd ?search))
              (open_time (hd ?search)) (close_time t) price)
            \<lparr>rf_outcome := CONTINUATION, rf_setup := CONTINUATION_SHORT, rf_readiness := QUALIFIED,
             rf_duration := int (length ?ps), rf_volume_ratio := w,
             rf_rejection_open := Some (open_time (?search ! ?b)),
             rf_rejection_low := Some (low_price bc), rf_trigger_open := Some (open_time t),
             rf_quality := q, rf_reasons := rs, rf_warnings := ws\<rparr>) = Inr a" for rs ws
      using stream_started [OF s t] stream_started [OF s b] m q market_high [OF assms(4)]
      by (intro reclaim_result_ok assms)
        (simp_all add: facts_ok_def evidence_ok_def plain_facts_def verdict_of_def triggered_after_def)
    then show ?thesis using Some m(1,3) q(1) by (simp add: continuation_result_def Let_def result_simps)
  qed
qed

lemma reclaim_unattempted_ok:
  assumes "zone_wf z" "event_wf e" "stream_ok cs" "market_candle bc" "1 / 10 ^ 11 \<le> dval (sz_low z)"
    "reclaim_rules_wf r"
  shows "\<exists>a. reclaim_unattempted r z e bc i cs = Inr a"
proof -
  obtain c where c: "continuation_result r z e bc cs = Inr c"
    using continuation_result_ok [OF assms] by blast
  have last: "last cs \<in> set cs" using assms(3) by (simp add: stream_ok_def)
  obtain price w where m: "highest cs = Inr price" "dval price_floor \<le> dval price"
    "reclaim_volume_ratio cs (volume bc) = Inr w" "ratio_ok w"
    using stream_measures [OF assms(3-5)] by metis
  define f where "f = (plain_facts i (open_time (hd cs)) (close_time (last cs)) price)
    \<lparr>rf_duration := int (length cs), rf_volume_ratio := w\<rparr>"
  have "facts_ok f" using stream_started [OF assms(3) last] m
    by (simp add: f_def facts_ok_def plain_facts_def)
  then have "\<exists>a. reclaim_result z e (f\<lparr>rf_reasons := rs\<rparr>) = Inr a"
    "\<exists>a. reclaim_result z e (f\<lparr>rf_outcome := RO_EXPIRED, rf_setup := DS_NONE,
      rf_readiness := SR_EXPIRED, rf_reasons := rs\<rparr>) = Inr a" for rs
    using assms(1,2) by (auto intro!: reclaim_result_ok plain_evidence
        simp: f_def plain_facts_def verdict_of_def facts_ok_def)
  then show ?thesis
    using c m(1,3) by (cases c) (simp_all add: reclaim_unattempted_def Let_def flip: f_def)
qed

lemma reclaim_rejected_ok:
  assumes "zone_wf z" "event_wf e" "stream_ok cs" "reclaim_rules_wf r" "k < length cs" "facts_ok f"
    "rf_started f = open_time (hd cs)" "rf_trigger_open f = None"
  shows "\<exists>a. reclaim_rejected r z e cs k f = Inr a"
proof -
  have c: "cs ! k \<in> set cs" using assms(5) by simp
  then have mk: "market_candle (cs ! k)" using assms(3) by (simp add: stream_ok_def)
  then obtain body where body: "reclaim_body_fraction (cs ! k) = Inr body" "0 \<le> dval body"
    using reclaim_body_fraction_ok by (auto simp: market_candle_def)
  let ?trig = "rejection_trigger cs k"
  obtain q rs ws where q: "reclaim_quality r (rf_penetration f) body (rf_volume_ratio f) (int k + 1)
      (?trig \<noteq> None) = Inr (q, rs, ws)" "0 \<le> dval q" "dval q \<le> 100"
    using reclaim_quality_ok [OF assms(4), of "rf_penetration f" body "rf_volume_ratio f" "int k + 1"
        "?trig \<noteq> None"] body(2) assms(6) unfolding facts_ok_def by auto
  note low = market_high(4) [OF mk] and start = stream_started [OF assms(3) c]
  show ?thesis
  proof (cases ?trig)
    case None
    then have "\<exists>a. reclaim_result z e (f\<lparr>rf_duration := int k + 1, rf_quality := q,
        rf_rejection_open := Some (open_time (cs ! k)), rf_rejection_low := Some (low_price (cs ! k)),
        rf_warnings := ws, rf_observed := close_time (cs ! k), rf_outcome := FAILED_RECLAIM,
        rf_setup := BREAKDOWN_SHORT, rf_readiness := SR_WATCH, rf_reasons := rs'\<rparr>) = Inr a" for rs'
      using assms(6-8) q low start by (intro reclaim_result_ok assms)
        (simp_all add: facts_ok_def evidence_ok_def verdict_of_def triggered_after_def)
    with None body(1) q(1) show ?thesis by (simp add: reclaim_rejected_def Let_def)
  next
    case (Some t)
    then obtain j where j: "k + 1 \<le> j" "j < length cs" "t = cs ! j"
      unfolding rejection_trigger_def by (rule find_drop)
    then have t: "t \<in> set cs" by simp
    have "instant (open_time (cs ! k)) < instant (open_time t)"
      using j assms(3) chronological_less [of cs k j] by (simp add: stream_ok_def)
    then have "\<exists>a. reclaim_result z e (f\<lparr>rf_duration := int k + 1, rf_quality := q,
        rf_rejection_open := Some (open_time (cs ! k)), rf_rejection_low := Some (low_price (cs ! k)),
        rf_warnings := ws, rf_observed := close_time t, rf_outcome := FAILED_PULLBACK,
        rf_setup := FAILED_PULLBACK_SHORT, rf_readiness := QUALIFIED,
        rf_trigger_open := Some (open_time t), rf_reasons := rs'\<rparr>) = Inr a" for rs'
      using assms(6-8) q low start stream_started [OF assms(3) t] by (intro reclaim_result_ok assms)
        (simp_all add: facts_ok_def evidence_ok_def verdict_of_def triggered_after_def)
    with Some body(1) q(1) show ?thesis by (simp add: reclaim_rejected_def Let_def)
  qed
qed

lemma reclaim_open_ok:
  assumes "zone_wf z" "event_wf e" "stream_ok cs" "market_candle bc" "1 / 10 ^ 11 \<le> dval (sz_low z)"
    "facts_ok f" "rf_rejection_open f = None" "rf_rejection_low f = None" "rf_trigger_open f = None"
  shows "\<exists>a. reclaim_open r z e bc i cs f = Inr a"
proof -
  have last: "last cs \<in> set cs" using assms(3) by (simp add: stream_ok_def)
  obtain price pen w where m: "highest cs = Inr price" "dval price_floor \<le> dval price"
    "penetration_bps price (sz_low z) = Inr pen" "0 \<le> dval pen" "dval pen \<le> 10 ^ 25"
    "reclaim_volume_ratio cs (volume bc) = Inr w" "ratio_ok w"
    "0 \<le> closes_over z cs" "closes_over z cs \<le> bars_over z cs"
    using stream_measures [OF assms(3-5)] .
  have "\<exists>a. reclaim_result z e (f\<lparr>rf_outcome := RO_INVALIDATED, rf_setup := DS_NONE,
      rf_readiness := SR_INVALIDATED, rf_reasons := rs\<rparr>) = Inr a" for rs
    using assms(6-9) by (intro reclaim_result_ok assms plain_evidence)
      (simp_all add: facts_ok_def verdict_of_def)
  moreover have "\<exists>a. reclaim_result z e ((plain_facts i (open_time (hd cs)) (close_time (last cs)) price)
      \<lparr>rf_outcome := ATTEMPTING, rf_penetration := pen, rf_duration := int (length cs),
       rf_closes_above := closes_over z cs, rf_bars_above := bars_over z cs, rf_volume_ratio := w,
       rf_reasons := rs\<rparr>) = Inr a" for rs
    using stream_started [OF assms(3) last] m by (intro reclaim_result_ok assms plain_evidence)
      (simp_all add: facts_ok_def plain_facts_def verdict_of_def)
  ultimately show ?thesis by (simp add: reclaim_open_def m(1,3,6))
qed

lemma reclaim_attempted_ok:
  assumes "zone_wf z" "event_wf e" "stream_ok cs" "market_candle bc" "1 / 10 ^ 11 \<le> dval (sz_low z)"
    "reclaim_rules_wf r"
  shows "\<exists>a. reclaim_attempted r z e bc i cs = Inr a"
proof -
  let ?limited = "take (nat (maximum_pullback_bars r)) cs"
  have s: "stream_ok ?limited"
    using assms(3,6) by (intro stream_ok_take) (simp_all add: reclaim_rules_wf_def)
  then obtain rej where rej: "rejection_index r z 0 ?limited = Inr rej"
    using rejection_index_ok [OF assms(5), of ?limited] unfolding stream_ok_def by blast
  define ps where "ps = (case rej of None \<Rightarrow> ?limited | Some i \<Rightarrow> take (i + 1) ?limited)"
  have ps: "stream_ok ps" using s stream_ok_take [OF s] by (simp add: ps_def split: option.split)
  obtain price pen w where m: "highest ps = Inr price" "dval price_floor \<le> dval price"
    "penetration_bps price (sz_low z) = Inr pen" "0 \<le> dval pen" "dval pen \<le> 10 ^ 25"
    "reclaim_volume_ratio ps (volume bc) = Inr w" "ratio_ok w"
    "0 \<le> closes_over z ps" "closes_over z ps \<le> bars_over z ps"
    using stream_measures [OF ps assms(4,5)] .
  define f where "f = (plain_facts i (open_time (hd cs)) (close_time (last ?limited)) price)
    \<lparr>rf_penetration := pen, rf_duration := int (length ?limited), rf_closes_above := closes_over z ps,
     rf_bars_above := bars_over z ps, rf_volume_ratio := w\<rparr>"
  have last: "last ?limited \<in> set ?limited" using s unfolding stream_ok_def by (intro last_in_set) blast
  have hd: "hd ?limited = hd cs" using assms(6) by (simp add: reclaim_rules_wf_def)
  have f: "facts_ok f" using stream_started [OF s last] m unfolding hd
    by (simp add: f_def facts_ok_def plain_facts_def)
  have eq: "reclaim_attempted r z e bc i cs = (case rej of None \<Rightarrow> reclaim_open r z e bc i cs f
      | Some k \<Rightarrow> reclaim_rejected r z e cs k f)"
    using rej m(1,3,6) by (cases rej) (simp_all add: reclaim_attempted_def Let_def f_def ps_def)
  show ?thesis
  proof (cases rej)
    case None
    have "\<exists>a. reclaim_open r z e bc i cs f = Inr a"
      by (rule reclaim_open_ok [OF assms(1-5) f]) (simp_all add: f_def plain_facts_def)
    with None eq show ?thesis by simp
  next
    case (Some k)
    with rej rejection_index_Some [of r z 0 ?limited k] have "k < length cs" by auto
    then have "\<exists>a. reclaim_rejected r z e cs k f = Inr a"
      by (rule reclaim_rejected_ok [OF assms(1-3,6) _ f]) (simp_all add: f_def plain_facts_def)
    with Some eq show ?thesis by simp
  qed
qed

section \<open>The analysis\<close>

lemma check_confirmation_ok:
  assumes "\<forall>c \<in> set cs. cd_source c = sz_source z \<and> cd_symbol c = sz_symbol z \<and> cd_interval c = i"
    "i \<in> {H4, M15}" "chronological cs" "interval = None \<or> interval = Some i"
    "\<forall>p. prev = Some p \<longrightarrow> (\<forall>c \<in> set cs. p < instant (open_time c))"
  shows "check_confirmation z interval prev cs = Inr ()"
  using assms
proof (induction cs arbitrary: interval prev)
  case Nil
  then show ?case by simp
next
  case (Cons c cs)
  then have "check_confirmation z (Some (cd_interval c)) (Some (instant (open_time c))) cs = Inr ()"
    by (intro Cons.IH) (auto simp: chronological_def)
  with Cons.prems show ?case by (auto split: option.split)
qed

text \<open>
  The candles, the break and its candle as the pipeline produces them: one series in order, the
  break event of that zone, and prices in the market range.
\<close>

definition break_context :: "zone \<Rightarrow> event \<Rightarrow> candle \<Rightarrow> candle list \<Rightarrow> bool" where
  "break_context z e bc cs \<longleftrightarrow>
     zone_wf z \<and> event_wf e \<and> 1 / 10 ^ 11 \<le> dval (sz_low z) \<and> sz_interval z = H4 \<and>
     se_state e = CONFIRMED_BREAK \<and> se_zone_id e = sz_id z \<and> se_source e = sz_source z \<and>
     se_symbol e = sz_symbol z \<and> se_interval e = sz_interval z \<and>
     instant (open_time bc) = instant (se_open_time e) \<and> instant (close_time bc) = instant (se_observed_at e) \<and>
     bc \<in> set cs \<and> chronological cs \<and> int (length cs) \<le> 10 ^ 9 \<and>
     (\<forall>c \<in> set cs. market_candle c \<and> cd_source c = sz_source z \<and> cd_symbol c = sz_symbol z \<and> cd_interval c = H4)"

lemma break_context_validates:
  assumes "break_context z e bc cs"
  shows "validate_break z e bc cs = Inr ()"
proof -
  have "check_confirmation z None None cs = Inr ()"
    using assms by (intro check_confirmation_ok [where i = H4]) (simp_all add: break_context_def)
  moreover have "cd_source bc = sz_source z" "cd_symbol bc = sz_symbol z" "cd_interval bc = sz_interval z"
    using assms by (simp_all add: break_context_def)
  ultimately show ?thesis using assms by (simp add: validate_break_def break_context_def)
qed

lemma first_attempt_bound:
  assumes "first_attempt_index r z cs = Inr (Some k)"
  shows "k < length cs"
  using assms unfolding first_attempt_index_def Let_def
  by (auto simp: result_simps find_index_Some)

lemma reclaim_total:
  assumes "break_context z e bc cs" "reclaim_rules_wf r"
  shows "\<exists>a. analyze_reclaim_attempt r z e bc cs = Inr a"
proof -
  note v = break_context_validates [OF assms(1)]
  have ctx: "zone_wf z" "event_wf e" "1 / 10 ^ 11 \<le> dval (sz_low z)" "market_candle bc"
    using assms(1) by (auto simp: break_context_def)
  let ?rel = "post_break e cs"
  show ?thesis
  proof (cases "?rel = []")
    case True
    then show ?thesis using v reclaim_no_candles_ok [OF ctx(1,2)]
      by (simp add: analyze_reclaim_attempt_def)
  next
    case False
    have "chronological cs" "\<forall>c \<in> set cs. market_candle c" "int (length cs) \<le> 10 ^ 9"
      using assms(1) by (simp_all only: break_context_def) blast
    then have s: "stream_ok ?rel" using False chronological_filter unfolding stream_ok_def post_break_def
      by (auto intro: order_trans [OF length_filter_le])
    obtain suc where suc: "successful_reclaim_index r z ?rel = Inr suc"
      using successful_index [OF assms(2) False] by blast
    obtain q where "ddiv (minimum_attempt_penetration_bps r) BPS = Inr q"
      using ddiv_succeeds [of BPS "minimum_attempt_penetration_bps r"] by (auto simp: BPS_def)
    then obtain att where att: "first_attempt_index r z ?rel = Inr att"
      by (simp add: first_attempt_index_def Let_def)
    note branches = reclaim_success_ok [OF ctx(1,2) s ctx(4,3)] reclaim_unattempted_ok [OF ctx(1,2) s ctx(4,3) assms(2)]
    have "\<exists>a. reclaim_attempted r z e bc i (drop k ?rel) = Inr a" if "att = Some k" for i k
      using first_attempt_bound [of r z ?rel k] att that
      by (intro reclaim_attempted_ok [OF ctx(1,2) stream_ok_drop [OF s] ctx(4,3) assms(2)]) simp
    then show ?thesis using v False suc att branches
      by (cases suc; cases att) (simp_all add: analyze_reclaim_attempt_def Let_def)
  qed
qed

section \<open>The verdict of the analysis\<close>

lemma analyze_verdict:
  assumes "analyze_reclaim_attempt r z e bc cs = Inr a" "reclaim_rules_wf r"
  shows "coherent a \<and>
    (ra_outcome a = SUCCESSFUL_RECLAIM \<longleftrightarrow> (\<exists>j. reclaimed_at r z (post_break e cs) j)) \<and>
    (ra_readiness a = QUALIFIED \<longrightarrow> supported z e bc (post_break e cs) a)"
proof (cases "post_break e cs = []")
  case True
  then have "reclaim_no_candles z e = Inr a"
    using assms(1) by (auto simp: analyze_reclaim_attempt_def result_simps)
  from no_candles_verdict [OF this] True show ?thesis
    by (auto simp: coherent_def verdict_of_def reclaimed_at_def holds_above_def)
next
  case False
  let ?rel = "post_break e cs"
  obtain suc where suc: "successful_reclaim_index r z ?rel = Inr suc"
    using successful_index [OF assms(2) False] by blast
  note none = successful_index_None [OF assms(2) False suc]
  show ?thesis
  proof (cases suc)
    case (Some i)
    then have "reclaim_success z e bc (cd_interval (hd ?rel)) ?rel i = Inr a"
      using assms(1) False suc by (auto simp: analyze_reclaim_attempt_def Let_def result_simps)
    from success_verdict [OF this] Some none show ?thesis by (auto simp: coherent_def verdict_of_def)
  next
    case None
    then obtain att where att: "first_attempt_index r z ?rel = Inr att"
      "(case att of None \<Rightarrow> reclaim_unattempted r z e bc (cd_interval (hd ?rel)) ?rel
        | Some k \<Rightarrow> reclaim_attempted r z e bc (cd_interval (hd ?rel)) (drop k ?rel)) = Inr a"
      using assms(1) False suc by (auto simp: analyze_reclaim_attempt_def Let_def result_simps)
    have "coherent a \<and> ra_outcome a \<noteq> SUCCESSFUL_RECLAIM \<and>
        (ra_readiness a = QUALIFIED \<longrightarrow> supported z e bc ?rel a)"
    proof (cases att)
      case None
      with att unattempted_verdict show ?thesis by (fastforce simp: coherent_def verdict_of_def)
    next
      case (Some k)
      with att attempted_verdict supported_drop show ?thesis
        by (fastforce simp: coherent_def verdict_of_def)
    qed
    with None none show ?thesis by simp
  qed
qed

section \<open>Sample breaks\<close>

definition sample_break :: event where
  "sample_break = \<lparr>se_id = ''event_sample'', se_zone_id = ''zone_sample'', se_source = CS_BYBIT,
     se_symbol = ''ABCUSDT'', se_interval = H4, se_state = CONFIRMED_BREAK,
     se_observed_at = DateTime (sample_start + 10 * duration H4) (Some 0),
     se_open_time = DateTime (sample_start + 9 * duration H4) (Some 0),
     se_close_price = dec 9920 (-2), se_zone_low = dec 9980000 (-5), se_zone_high = dec 10030020 (-5),
     distance_bps = dec 6012 (-2), se_body_fraction = dec 8444 (-4), se_volume_ratio = Some (dec 10000 (-4)),
     invalidates_event_id = None, se_reasons = []\<rparr>"

definition sample_break_candle :: candle where
  "sample_break_candle = sample_candle H4 9 (10300, 10350, 9900, 9920)"

text \<open>After the break the price closes above the zone, or retests it and is rejected.\<close>

definition reclaimed_candles :: "candle list" where
  "reclaimed_candles = [sample_break_candle, sample_candle H4 10 (9920, 10200, 9900, 10100)]"

definition rejected_candles :: "candle list" where
  "rejected_candles = [sample_break_candle, sample_candle H4 10 (9950, 10000, 9850, 9870),
     sample_candle H4 11 (9870, 9880, 9700, 9750)]"

lemma reclaimed_context: "break_context sample_zone sample_break sample_break_candle reclaimed_candles"
  by code_simp

lemma rejected_context: "break_context sample_zone sample_break sample_break_candle rejected_candles"
  by code_simp

lemma rejected_post_break:
  "post_break sample_break rejected_candles = tl rejected_candles"
  "post_break sample_break reclaimed_candles = tl reclaimed_candles"
  by code_simp+

lemma rejected_no_reclaim: "successful_reclaim_index default_reclaim_rules sample_zone (tl rejected_candles) = Inr None"
  by code_simp

lemma ddiv_between:
  assumes "ddiv a b = Inr q" "lo \<le> dval a / dval b" "dval a / dval b \<le> hi" "dec_round lo = lo" "dec_round hi = hi"
  shows "lo \<le> dval q" "dval q \<le> hi"
  using ddiv_Inr [OF assms(1)] assms by (auto intro: dec.R_ge dec.R_le)

lemma sample_first_attempt:
  "first_attempt_index default_reclaim_rules sample_zone (tl rejected_candles) = Inr (Some 0)"
proof -
  have r: "dec_round (1 / 2000) = 1 / 2000" "dec_round (2001 / 2000) = 2001 / 2000"
    using dec_round_exact [of 5 "-4"] dec_round_exact [of 10005 "-4"]
    by (simp_all add: power_int_minus inverse_eq_divide)
  obtain q where q: "ddiv (dec 5 0) BPS = Inr q" "dval q = dec_round (5 / 10000)"
    using ddiv_succeeds [of BPS "dec 5 0"] by (auto simp: BPS_def)
  have "dval q = 1 / 2000" using q(2) r(1) by (simp only: div_mult_mult1) simp
  then have "dval (dadd (dec 1 0) q) = dec_round (1 + 1 / 2000)" by (simp only: dval_dadd) simp
  then have f: "dval (dadd (dec 1 0) q) = 2001 / 2000" using r(2) by simp
  have "dval (dmul (sz_low sample_zone) (dadd (dec 1 0) q)) \<le> 100"
    unfolding dval_dmul f by (rule dec.R_le) (simp_all add: sample_zone_def power_int_minus)
  with q(1) show ?thesis
    by (simp add: first_attempt_index_def Let_def default_reclaim_rules_def rejected_candles_def
        sample_candle_def power_int_minus)
qed

lemma sample_rejection:
  "rejection_index default_reclaim_rules sample_zone 0 (tl rejected_candles) = Inr (Some 0)"
proof -
  let ?c = "sample_candle H4 10 (9950, 10000, 9850, 9870)" and ?z = sample_zone
  have r: "dec_round (3 / 2) = 3 / 2" "dec_round (4 / 5) = 4 / 5" "dec_round (1 / 4) = 1 / 4"
    "dec_round (11 / 10) = 11 / 10" "dec_round (1 / 100) = 1 / 100" "dec_round (1 / 1000) = 1 / 1000"
    "dec_round (1 / 5) = 1 / 5"
    using dec_round_exact [of 15 "-1"] dec_round_exact [of 8 "-1"] dec_round_exact [of 25 "-2"]
      dec_round_exact [of 11 "-1"] dec_round_exact [of 1 "-2"] dec_round_exact [of 1 "-3"]
      dec_round_exact [of 2 "-1"]
    by (simp_all add: power_int_minus inverse_eq_divide)
  have mk: "market_candle ?c" by code_simp
  have v: "dval (dabs (dsub (close_price ?c) (open_price ?c))) = 4 / 5"
    "dval (dsub (high_price ?c) (low_price ?c)) = 3 / 2" "dval (dsub (sz_low ?z) (close_price ?c)) = 11 / 10"
    "dval (sz_low ?z) = 499 / 5" "dval (dsub (high_price ?c) (sz_low ?z)) = 1 / 5"
    using r dec.R_minus [of "4 / 5"]
    by (simp_all add: sample_candle_def sample_zone_def dval_dabs dval_dsub dec.R_idem power_int_minus)
  have "dval (dsub (high_price ?c) (low_price ?c)) \<noteq> 0" "dval (sz_low ?z) \<noteq> 0"
    unfolding v by simp_all
  then obtain body gap pen where
    body: "ddiv (dabs (dsub (close_price ?c) (open_price ?c))) (dsub (high_price ?c) (low_price ?c)) = Inr body"
    and gap: "ddiv (dsub (sz_low ?z) (close_price ?c)) (sz_low ?z) = Inr gap"
    and pen: "ddiv (dsub (high_price ?c) (sz_low ?z)) (sz_low ?z) = Inr pen"
    using ddiv_succeeds by metis
  have "1 / 4 \<le> dval body" by (rule ddiv_between [OF body, of _ 1]) (simp_all add: v r)
  moreover have "1 / 1000 \<le> dval gap" by (rule ddiv_between [OF gap, of _ 1]) (simp_all add: v r)
  then have "5 \<le> dval (dmul gap BPS)" unfolding dval_dmul by (intro dec.R_ge) (simp_all add: BPS_def)
  moreover have "dval pen \<le> 1 / 100" by (rule ddiv_between [OF pen, of 0]) (simp_all add: v r)
  then have "dval (dmul pen BPS) \<le> 100" unfolding dval_dmul by (intro dec.R_le) (simp_all add: BPS_def)
  moreover have "reclaim_body_fraction ?c = Inr body" using body v(2) by (simp add: reclaim_body_fraction_def Let_def)
  moreover have "\<not> dval (high_price ?c) \<le> dval (sz_low ?z)" unfolding v(4) by (simp add: sample_candle_def)
  then have "penetration_bps (high_price ?c) (sz_low ?z) = Inr (dmul pen BPS)"
    using pen by (simp add: penetration_bps_def)
  ultimately show ?thesis using gap
    by (simp add: rejected_candles_def default_reclaim_rules_def v(4) power_int_minus)
      (simp add: sample_candle_def)
qed

lemma rejected_qualified:
  assumes "analyze_reclaim_attempt default_reclaim_rules sample_zone sample_break sample_break_candle rejected_candles = Inr a"
  shows "ra_readiness a = QUALIFIED"
proof -
  let ?i = "cd_interval (hd (tl rejected_candles))"
  have "reclaim_attempted default_reclaim_rules sample_zone sample_break sample_break_candle ?i
      (drop 0 (tl rejected_candles)) = Inr a"
    using assms rejected_no_reclaim sample_first_attempt
    unfolding analyze_reclaim_attempt_def rejected_post_break Let_def
    by (auto simp: result_simps) (simp_all add: rejected_candles_def)
  moreover have "take (nat (maximum_pullback_bars default_reclaim_rules)) (tl rejected_candles) = tl rejected_candles"
    by (simp add: default_reclaim_rules_def rejected_candles_def)
  ultimately obtain f where f: "reclaim_rejected default_reclaim_rules sample_zone sample_break
      (tl rejected_candles) 0 f = Inr a"
    using sample_rejection unfolding reclaim_attempted_def Let_def by (auto simp: result_simps)
  have "rejection_trigger (tl rejected_candles) 0 \<noteq> None" by code_simp
  then obtain f' where "reclaim_result sample_zone sample_break f' = Inr a" "rf_readiness f' = QUALIFIED"
    using f unfolding reclaim_rejected_def Let_def by (force simp: result_simps)
  from reclaim_result_fields(3) [OF this(1)] this(2) show ?thesis by simp
qed

section \<open>Properties\<close>

text \<open>
  C3: \<open>analyze_reclaim_attempt\<close> cancels a short exactly when, among the candles that closed after the
  break, there is a run of consecutive closes above the zone as long as the rules require; no
  later weakness of the price revives the setup.
\<close>

theorem reclaim_cancelled_iff:
  assumes "analyze_reclaim_attempt r z e bc cs = Inr a" "reclaim_rules_wf r"
  shows "ra_readiness a = CANCELLED \<longleftrightarrow> (\<exists>j. reclaimed_at r z (post_break e cs) j)"
proof -
  have "ra_readiness a = CANCELLED \<longleftrightarrow> ra_outcome a = SUCCESSFUL_RECLAIM"
    using analyze_verdict [OF assms] by (cases "ra_outcome a") (auto simp: coherent_def verdict_of_def)
  with analyze_verdict [OF assms] show ?thesis by blast
qed

text \<open>
  C26: a qualified short rests on evidence in the candles after the break: a rejection candle and a later
  trigger candle (for a failed pullback the rejection touched the zone and closed below it, and the
  trigger closed below the rejection's low; for a continuation a lower high below the zone was
  followed by a close below the low of the break candle), and no successful reclaim happened.
\<close>

theorem reclaim_qualified_supported:
  assumes "analyze_reclaim_attempt r z e bc cs = Inr a" "reclaim_rules_wf r" "ra_readiness a = QUALIFIED"
  shows "supported z e bc (post_break e cs) a \<and> (\<nexists>j. reclaimed_at r z (post_break e cs) j)"
  using analyze_verdict [OF assms(1,2)] assms(3) by (auto simp: coherent_def verdict_of_def)

text \<open>
  C38: every analysis that returns reports a coherent record: its setup type and readiness are those of
  its outcome, and all invariants of \<open>ReclaimAttempt\<close> hold (ordered evidence, counters, scores).
\<close>

theorem reclaim_coherent:
  assumes "analyze_reclaim_attempt r z e bc cs = Inr a" "reclaim_rules_wf r"
  shows "(ra_setup_type a, ra_readiness a) = verdict_of (ra_outcome a) \<and> attempt_wf a"
  using analyze_verdict [OF assms] by (simp add: coherent_def)

text \<open>
  on market data, for the confirmed break of a 4H zone, the reclaim analysis always returns.
\<close>

theorem reclaim_analysis_total:
  assumes "break_context z e bc cs" "reclaim_rules_wf r"
  shows "\<exists>a. analyze_reclaim_attempt r z e bc cs = Inr a"
  by (rule reclaim_total [OF assms])

lemma reclaimed_run: "reclaimed_at default_reclaim_rules sample_zone (tl reclaimed_candles) 0"
proof -
  have "closes_above sample_zone (tl reclaimed_candles ! 0)" by code_simp
  then show ?thesis
    by (auto simp: reclaimed_at_def holds_above_def required_closes_def default_reclaim_rules_def
        reclaimed_candles_def sample_candle_def)
qed

theorem reclaim_cancelled_iff_witness:
  "\<exists>a. analyze_reclaim_attempt default_reclaim_rules sample_zone sample_break sample_break_candle
     reclaimed_candles = Inr a \<and> ra_readiness a = CANCELLED"
  using reclaim_cancelled_iff [OF _ default_reclaim_rules_wf] reclaimed_run
    reclaim_total [OF reclaimed_context default_reclaim_rules_wf]
  unfolding rejected_post_break(2) [symmetric] by blast

theorem reclaim_qualified_supported_witness:
  "\<exists>a. analyze_reclaim_attempt default_reclaim_rules sample_zone sample_break sample_break_candle
     rejected_candles = Inr a \<and>
   supported sample_zone sample_break sample_break_candle (post_break sample_break rejected_candles) a"
  using reclaim_qualified_supported [OF _ default_reclaim_rules_wf rejected_qualified]
    reclaim_total [OF rejected_context default_reclaim_rules_wf] by blast

theorem reclaim_coherent_witness:
  "\<exists>a. analyze_reclaim_attempt default_reclaim_rules sample_zone sample_break sample_break_candle
     rejected_candles = Inr a \<and> attempt_wf a"
  using reclaim_coherent [OF _ default_reclaim_rules_wf]
    reclaim_total [OF rejected_context default_reclaim_rules_wf] by blast

theorem reclaim_analysis_total_witness:
  "\<exists>a. analyze_reclaim_attempt default_reclaim_rules sample_zone sample_break sample_break_candle
     rejected_candles = Inr a"
  by (rule reclaim_analysis_total [OF rejected_context default_reclaim_rules_wf])

end
