(* ===== verification/Structure_Repository.thy ===== *)
theory Structure_Repository
  imports Candle_Repository Reclaim_Total
begin

text \<open>
  \<^verbatim>\<open>app/structure/htf_repository.py\<close> with its rows in \<^verbatim>\<open>app/db/models.py\<close>: storing the zones and the events of an
  analysis, and reading the latest of them back. A session gives the row of a primary key, keeps
  rows, and answers a query for one row (\<open>scalar\<close>: the rows a condition selects, the first in a
  given order). As for candles the columns the database fills in are left out.
\<close>

section \<open>Rows\<close>

record zone_row =
  zr_zone_id :: string
  zr_source :: string
  zr_symbol :: string
  zr_interval :: string
  zr_zone_low :: decimal
  zr_zone_high :: decimal
  zr_state :: string
  zr_created_at_evidence :: datetime
  zr_confirmed_at :: datetime
  zr_last_test_at :: datetime
  zr_touch_count :: int
  zr_rejection_count :: int
  zr_strength_score :: decimal
  zr_evidence_open_times :: "string list"
  zr_reasons :: "string list"

record event_row =
  er_event_id :: string
  er_zone_id :: string
  er_source :: string
  er_symbol :: string
  er_interval :: string
  er_state :: string
  er_observed_at :: datetime
  er_candle_open_time :: datetime
  er_close_price :: decimal
  er_zone_low :: decimal
  er_zone_high :: decimal
  er_distance_bps :: decimal
  er_body_fraction :: decimal
  er_volume_ratio :: "decimal option"
  er_invalidates_event_id :: "string option"
  er_reasons :: "string list"

record structure_upsert_result =
  zone_counts :: upsert_result
  event_counts :: upsert_result

fun zone_state_value :: "support_zone_state \<Rightarrow> string" where
  "zone_state_value SZ_ACTIVE = ''ACTIVE''"
| "zone_state_value SZ_BROKEN = ''BROKEN''"
| "zone_state_value SZ_RECLAIMED = ''RECLAIMED''"
| "zone_state_value SZ_EXPIRED = ''EXPIRED''"

text \<open>\<open>SupportZoneState(value)\<close> and its like: the member with a value, or an error.\<close>

definition enum_of :: "string \<Rightarrow> ('a \<Rightarrow> string) \<Rightarrow> 'a list \<Rightarrow> string \<Rightarrow> 'a result" where
  "enum_of cls value_of members s =
     (case find (\<lambda>m. value_of m = s) members of Some m \<Rightarrow> Inr m
      | None \<Rightarrow> Inl (ValueError (str_repr s @ '' is not a valid '' @ cls)))"

definition SupportZoneState_of :: "string \<Rightarrow> support_zone_state result" where
  "SupportZoneState_of = enum_of ''SupportZoneState'' zone_state_value [SZ_ACTIVE, SZ_BROKEN, SZ_RECLAIMED, SZ_EXPIRED]"

definition StructureEventState_of :: "string \<Rightarrow> structure_event_state result" where
  "StructureEventState_of = enum_of ''StructureEventState'' event_state_value
     [PENDING_BREAK, CONFIRMED_BREAK, FAKE_BREAK, SE_RECLAIMED, SE_INVALIDATED]"

section \<open>Comparing what is stored\<close>

text \<open>\<open>_decimal_equal\<close>: columns round, so two Decimals pass for equal within a tolerance.\<close>

definition decimal_equal :: "decimal \<Rightarrow> decimal \<Rightarrow> bool" where
  "decimal_equal current expected =
     (let tolerance = dmax (dmul (dabs expected) (dec 1 (-15))) (dec 1 (-18))
      in dval (dabs (dsub current expected)) \<le> dval tolerance)"

text \<open>Next to a Decimal \<open>None\<close> does not convert, which \<open>_decimal_equal\<close> takes for different.\<close>

definition option_equal :: "decimal option \<Rightarrow> decimal option \<Rightarrow> bool" where
  "option_equal current expected =
     (case current of None \<Rightarrow> expected = None
      | Some c \<Rightarrow> (case expected of None \<Rightarrow> False | Some e \<Rightarrow> decimal_equal c e))"

section \<open>Zones\<close>

definition set_zone_values :: "zone \<Rightarrow> zone_row \<Rightarrow> zone_row" where
  "set_zone_values z r = r\<lparr>zr_source := source_value (sz_source z), zr_symbol := sz_symbol z,
     zr_interval := interval_value (sz_interval z), zr_zone_low := sz_low z, zr_zone_high := sz_high z,
     zr_state := zone_state_value (sz_state z), zr_created_at_evidence := created_at z, zr_confirmed_at := confirmed_at z,
     zr_last_test_at := last_test_at z, zr_touch_count := touch_count z, zr_rejection_count := rejection_count z,
     zr_strength_score := strength_score z, zr_evidence_open_times := map isoformat (evidence_open_times z),
     zr_reasons := sz_reasons z\<rparr>"

definition zone_record :: "zone \<Rightarrow> zone_row" where
  "zone_record z = \<lparr>zr_zone_id = sz_id z, zr_source = source_value (sz_source z), zr_symbol = sz_symbol z,
     zr_interval = interval_value (sz_interval z), zr_zone_low = sz_low z, zr_zone_high = sz_high z,
     zr_state = zone_state_value (sz_state z), zr_created_at_evidence = created_at z, zr_confirmed_at = confirmed_at z,
     zr_last_test_at = last_test_at z, zr_touch_count = touch_count z, zr_rejection_count = rejection_count z,
     zr_strength_score = strength_score z, zr_evidence_open_times = map isoformat (evidence_open_times z),
     zr_reasons = sz_reasons z\<rparr>"

definition same_zone_values :: "zone_row \<Rightarrow> zone \<Rightarrow> bool" where
  "same_zone_values r z \<longleftrightarrow>
     zr_source r = source_value (sz_source z) \<and> zr_symbol r = sz_symbol z \<and> zr_interval r = interval_value (sz_interval z) \<and>
     decimal_equal (zr_zone_low r) (sz_low z) \<and> decimal_equal (zr_zone_high r) (sz_high z) \<and>
     zr_state r = zone_state_value (sz_state z) \<and> same_time (zr_created_at_evidence r) (created_at z) \<and>
     same_time (zr_confirmed_at r) (confirmed_at z) \<and> same_time (zr_last_test_at r) (last_test_at z) \<and>
     zr_touch_count r = touch_count z \<and> zr_rejection_count r = rejection_count z \<and>
     decimal_equal (zr_strength_score r) (strength_score z) \<and>
     zr_evidence_open_times r = map isoformat (evidence_open_times z) \<and> zr_reasons r = sz_reasons z"

definition zone_from_record :: "zone_row \<Rightarrow> zone result" where
  "zone_from_record r =
     and_then (CandleSource_of (zr_source r)) (\<lambda>source.
     and_then (CandleInterval_of (zr_interval r)) (\<lambda>interval.
     and_then (traverse fromisoformat (zr_evidence_open_times r)) (\<lambda>evidence.
     and_then (SupportZoneState_of (zr_state r)) (\<lambda>state.
     SupportZone \<lparr>sz_id = zr_zone_id r, sz_source = source, sz_symbol = zr_symbol r, sz_interval = interval,
       sz_low = Finite (zr_zone_low r), sz_high = Finite (zr_zone_high r),
       created_at = aware_utc (zr_created_at_evidence r), confirmed_at = aware_utc (zr_confirmed_at r),
       last_test_at = aware_utc (zr_last_test_at r), touch_count = zr_touch_count r,
       rejection_count = zr_rejection_count r, strength_score = Finite (zr_strength_score r),
       evidence_open_times = evidence, sz_state = state, sz_reasons = zr_reasons r\<rparr>))))"

section \<open>Events\<close>

definition set_event_values :: "event \<Rightarrow> event_row \<Rightarrow> event_row" where
  "set_event_values e r = r\<lparr>er_zone_id := se_zone_id e, er_source := source_value (se_source e), er_symbol := se_symbol e,
     er_interval := interval_value (se_interval e), er_state := event_state_value (se_state e),
     er_observed_at := se_observed_at e, er_candle_open_time := se_open_time e, er_close_price := se_close_price e,
     er_zone_low := se_zone_low e, er_zone_high := se_zone_high e, er_distance_bps := distance_bps e,
     er_body_fraction := se_body_fraction e, er_volume_ratio := se_volume_ratio e,
     er_invalidates_event_id := invalidates_event_id e, er_reasons := se_reasons e\<rparr>"

definition event_record :: "event \<Rightarrow> event_row" where
  "event_record e = \<lparr>er_event_id = se_id e, er_zone_id = se_zone_id e, er_source = source_value (se_source e),
     er_symbol = se_symbol e, er_interval = interval_value (se_interval e), er_state = event_state_value (se_state e),
     er_observed_at = se_observed_at e, er_candle_open_time = se_open_time e, er_close_price = se_close_price e,
     er_zone_low = se_zone_low e, er_zone_high = se_zone_high e, er_distance_bps = distance_bps e,
     er_body_fraction = se_body_fraction e, er_volume_ratio = se_volume_ratio e,
     er_invalidates_event_id = invalidates_event_id e, er_reasons = se_reasons e\<rparr>"

definition same_event_values :: "event_row \<Rightarrow> event \<Rightarrow> bool" where
  "same_event_values r e \<longleftrightarrow>
     er_zone_id r = se_zone_id e \<and> er_source r = source_value (se_source e) \<and> er_symbol r = se_symbol e \<and>
     er_interval r = interval_value (se_interval e) \<and> er_state r = event_state_value (se_state e) \<and>
     same_time (er_observed_at r) (se_observed_at e) \<and> same_time (er_candle_open_time r) (se_open_time e) \<and>
     decimal_equal (er_close_price r) (se_close_price e) \<and> decimal_equal (er_zone_low r) (se_zone_low e) \<and>
     decimal_equal (er_zone_high r) (se_zone_high e) \<and> decimal_equal (er_distance_bps r) (distance_bps e) \<and>
     decimal_equal (er_body_fraction r) (se_body_fraction e) \<and> option_equal (er_volume_ratio r) (se_volume_ratio e) \<and>
     er_invalidates_event_id r = invalidates_event_id e \<and> er_reasons r = se_reasons e"

definition event_from_record :: "event_row \<Rightarrow> event result" where
  "event_from_record r =
     and_then (CandleSource_of (er_source r)) (\<lambda>source.
     and_then (CandleInterval_of (er_interval r)) (\<lambda>interval.
     and_then (StructureEventState_of (er_state r)) (\<lambda>state.
     StructureEvent \<lparr>se_id = er_event_id r, se_zone_id = er_zone_id r, se_source = source, se_symbol = er_symbol r,
       se_interval = interval, se_state = state, se_observed_at = aware_utc (er_observed_at r),
       se_open_time = aware_utc (er_candle_open_time r), se_close_price = Finite (er_close_price r),
       se_zone_low = Finite (er_zone_low r), se_zone_high = Finite (er_zone_high r),
       distance_bps = Finite (er_distance_bps r), se_body_fraction = Finite (er_body_fraction r),
       se_volume_ratio = map_option Finite (er_volume_ratio r), invalidates_event_id = er_invalidates_event_id r,
       se_reasons = er_reasons r\<rparr>)))"

section \<open>Storing an analysis\<close>

definition upsert_zone ::
  "('db \<Rightarrow> string \<Rightarrow> zone_row option) \<Rightarrow> ('db \<Rightarrow> string \<Rightarrow> zone_row \<Rightarrow> 'db) \<Rightarrow>
     zone \<Rightarrow> 'db \<times> upsert_result \<Rightarrow> 'db \<times> upsert_result" where
  "upsert_zone = upsert_row sz_id zone_record same_zone_values set_zone_values"

definition upsert_event ::
  "('db \<Rightarrow> string \<Rightarrow> event_row option) \<Rightarrow> ('db \<Rightarrow> string \<Rightarrow> event_row \<Rightarrow> 'db) \<Rightarrow>
     event \<Rightarrow> 'db \<times> upsert_result \<Rightarrow> 'db \<times> upsert_result" where
  "upsert_event = upsert_row se_id event_record same_event_values set_event_values"

text \<open>The zones and the events are two tables of one database; the state is the pair of them.\<close>

definition upsert_analysis ::
  "('zdb \<Rightarrow> string \<Rightarrow> zone_row option) \<Rightarrow> ('zdb \<Rightarrow> string \<Rightarrow> zone_row \<Rightarrow> 'zdb) \<Rightarrow>
     ('edb \<Rightarrow> string \<Rightarrow> event_row option) \<Rightarrow> ('edb \<Rightarrow> string \<Rightarrow> event_row \<Rightarrow> 'edb) \<Rightarrow>
     htf_analysis \<Rightarrow> 'zdb \<times> 'edb \<Rightarrow> ('zdb \<times> 'edb) \<times> structure_upsert_result" where
  "upsert_analysis fetch_zone save_zone fetch_event save_event a db =
     (let (zdb, zn) = fold (upsert_zone fetch_zone save_zone) (ha_zones a) (fst db, no_rows);
          (edb, en) = fold (upsert_event fetch_event save_event) (ha_events a) (snd db, no_rows)
      in ((zdb, edb), \<lparr>zone_counts = zn, event_counts = en\<rparr>))"

section \<open>Reading the latest\<close>

text \<open>\<open>order_by(observed_at.desc(), event_id.desc())\<close>: \<open>collate\<close> is the order of texts in the database.\<close>

definition newer_event :: "(string \<Rightarrow> string \<Rightarrow> bool) \<Rightarrow> event_row \<Rightarrow> event_row \<Rightarrow> bool" where
  "newer_event collate r s \<longleftrightarrow>
     instant (er_observed_at s) < instant (er_observed_at r) \<or>
     instant (er_observed_at s) = instant (er_observed_at r) \<and> collate (er_event_id s) (er_event_id r)"

definition latest_event ::
  "('edb \<Rightarrow> (event_row \<Rightarrow> bool) \<Rightarrow> (event_row \<Rightarrow> event_row \<Rightarrow> bool) \<Rightarrow> event_row option) \<Rightarrow> (string \<Rightarrow> string \<Rightarrow> bool) \<Rightarrow>
     candle_source \<Rightarrow> string \<Rightarrow> candle_interval \<Rightarrow> 'edb \<Rightarrow> event option result" where
  "latest_event scalar collate source symbol interval db =
     (let normalized_symbol = upper (strip symbol) in
      if normalized_symbol = '''' then Inl (ValueError ''symbol is required'')
      else if interval \<notin> {D1, H4} then Inl (ValueError ''latest structure event requires Daily or 4H'')
      else case scalar db (\<lambda>r. er_source r = source_value source \<and> er_symbol r = normalized_symbol \<and>
                               er_interval r = interval_value interval) (newer_event collate) of
             None \<Rightarrow> Inr None
           | Some r \<Rightarrow> and_then (event_from_record r) (\<lambda>e. Inr (Some e)))"

definition newer_zone :: "zone_row \<Rightarrow> zone_row \<Rightarrow> bool" where
  "newer_zone r s \<longleftrightarrow>
     instant (zr_confirmed_at s) < instant (zr_confirmed_at r) \<or>
     instant (zr_confirmed_at s) = instant (zr_confirmed_at r) \<and> dval (zr_strength_score s) \<le> dval (zr_strength_score r)"

definition latest_zone ::
  "('zdb \<Rightarrow> (zone_row \<Rightarrow> bool) \<Rightarrow> (zone_row \<Rightarrow> zone_row \<Rightarrow> bool) \<Rightarrow> zone_row option) \<Rightarrow>
     candle_source \<Rightarrow> string \<Rightarrow> candle_interval \<Rightarrow> 'zdb \<Rightarrow> zone option result" where
  "latest_zone scalar source symbol interval db =
     (let normalized_symbol = upper (strip symbol) in
      if normalized_symbol = '''' then Inl (ValueError ''symbol is required'')
      else case scalar db (\<lambda>r. zr_source r = source_value source \<and> zr_symbol r = normalized_symbol \<and>
                               zr_interval r = interval_value interval) newer_zone of
             None \<Rightarrow> Inr None
           | Some r \<Rightarrow> and_then (zone_from_record r) (\<lambda>z. Inr (Some z)))"


section \<open>What the comparison tolerates\<close>

lemma decimal_equal_near:
  assumes "\<bar>dval c - dval e\<bar> \<le> dval (dec 1 (-18))"
  shows "decimal_equal c e"
proof -
  have r: "dec_round (dval (dec 1 (-18))) = dval (dec 1 (-18))" using dec_round_exact [of 1 "-18"] by (simp only: dval_dec) simp
  have "\<bar>dec_round (dval c - dval e)\<bar> \<le> dval (dec 1 (-18))"
    using dec.R_le [OF r assms] by (simp only: dec.R_abs)
  then have "dec_round \<bar>dec_round (dval c - dval e)\<bar> \<le> dval (dec 1 (-18))" by (rule dec.R_le [OF r])
  then show ?thesis
    unfolding decimal_equal_def Let_def dval_dabs dval_dsub dval_dmax by (rule max.coboundedI2)
qed

lemma decimal_equal_refl [simp]: "dval c = dval e \<Longrightarrow> decimal_equal c e"
  by (rule decimal_equal_near) simp

lemma column_equal: "numeric_column 18 d d' \<Longrightarrow> decimal_equal d' d"
  by (rule decimal_equal_near) (simp add: numeric_column_def)

lemma scale_equal: "numeric_column s d d' \<Longrightarrow> fits s d \<Longrightarrow> decimal_equal d' d"
  using numeric_column_exact by simp

lemma enum_of_value:
  assumes "inj value_of" "m \<in> set members"
  shows "enum_of cls value_of members (value_of m) = Inr m"
proof -
  have "find (\<lambda>x. value_of x = value_of m) members = Some m"
    using assms by (induction members) (auto simp: inj_eq)
  then show ?thesis by (simp add: enum_of_def)
qed

lemma zone_state_of_value [simp]: "SupportZoneState_of (zone_state_value s) = Inr s"
  unfolding SupportZoneState_of_def
proof (rule enum_of_value)
  show "inj zone_state_value"
  proof (rule injI)
    fix a b assume "zone_state_value a = zone_state_value b"
    then show "a = b" by (cases a; cases b) simp_all
  qed
qed (cases s; simp)

lemma event_state_of_value [simp]: "StructureEventState_of (event_state_value s) = Inr s"
  unfolding StructureEventState_of_def
proof (rule enum_of_value)
  show "inj event_state_value"
  proof (rule injI)
    fix a b assume "event_state_value a = event_state_value b"
    then show "a = b" by (cases a; cases b) simp_all
  qed
qed (cases s; simp)

section \<open>Rows read back\<close>

lemma traverse_fromisoformat: "\<forall>t \<in> set ts. time_wf t \<Longrightarrow> traverse fromisoformat (map isoformat ts) = Inr ts"
  by (induction ts) (simp_all add: fromisoformat_isoformat)

lemma zone_read:
  assumes "zone_wf z" "\<forall>t \<in> set (evidence_open_times z). time_wf t"
  shows "\<exists>y. zone_from_record (zone_record z) = Inr y \<and> zone_eq y z"
proof -
  let ?y = "z\<lparr>created_at := aware_utc (created_at z), confirmed_at := aware_utc (confirmed_at z),
    last_test_at := aware_utc (last_test_at z)\<rparr>"
  have "zone_wf ?y" using assms(1) by (simp add: zone_wf_def)
  then have "SupportZone (zone_args ?y) = Inr ?y"
    using assms(1) by (auto simp: SupportZone_Inr zone_wf_def normal_symbol_def normal_id_def zone_args_def)
  then have "zone_from_record (zone_record z) = Inr ?y"
    using assms(2) by (simp add: zone_from_record_def zone_record_def traverse_fromisoformat zone_args_def)
  moreover have "zone_eq ?y z" by (simp add: zone_eq_def)
  ultimately show ?thesis by blast
qed

text \<open>Equality of events, as the generated \<open>__eq__\<close> compares them.\<close>

definition event_eq :: "event \<Rightarrow> event \<Rightarrow> bool" where
  "event_eq a b \<longleftrightarrow>
     se_id a = se_id b \<and> se_zone_id a = se_zone_id b \<and> se_source a = se_source b \<and> se_symbol a = se_symbol b \<and>
     se_interval a = se_interval b \<and> se_state a = se_state b \<and> instant (se_observed_at a) = instant (se_observed_at b) \<and>
     instant (se_open_time a) = instant (se_open_time b) \<and> dval (se_close_price a) = dval (se_close_price b) \<and>
     dval (se_zone_low a) = dval (se_zone_low b) \<and> dval (se_zone_high a) = dval (se_zone_high b) \<and>
     dval (distance_bps a) = dval (distance_bps b) \<and> dval (se_body_fraction a) = dval (se_body_fraction b) \<and>
     map_option dval (se_volume_ratio a) = map_option dval (se_volume_ratio b) \<and>
     invalidates_event_id a = invalidates_event_id b \<and> se_reasons a = se_reasons b"

lemma event_read:
  assumes "event_wf e"
  shows "\<exists>y. event_from_record (event_record e) = Inr y \<and> event_eq y e"
proof -
  let ?y = "e\<lparr>se_observed_at := aware_utc (se_observed_at e), se_open_time := aware_utc (se_open_time e)\<rparr>"
  have "event_wf ?y" using assms by (simp add: event_wf_def)
  then have "StructureEvent (event_args ?y) = Inr ?y"
    using assms by (auto simp: StructureEvent_Inr event_wf_def normal_symbol_def normal_id_def event_args_def)
  then have "event_from_record (event_record e) = Inr ?y"
    by (simp add: event_from_record_def event_record_def event_args_def)
  moreover have "event_eq ?y e" by (simp add: event_eq_def)
  ultimately show ?thesis by blast
qed

section \<open>The tables\<close>

interpretation zone_table: upsert_table sz_id zr_zone_id zone_record same_zone_values set_zone_values "\<lambda>r z. r = zone_record z"
  by unfold_locales (simp_all add: zone_record_def set_zone_values_def)

interpretation event_table: upsert_table se_id er_event_id event_record same_event_values set_event_values "\<lambda>r e. r = event_record e"
  by unfold_locales (simp_all add: event_record_def set_event_values_def)

text \<open>What the columns keep of a row; numbers have the scale \<^verbatim>\<open>app/db/models.py\<close> gives their column.\<close>

definition zone_columns :: "(zone_row \<Rightarrow> zone_row) \<Rightarrow> bool" where
  "zone_columns columns \<longleftrightarrow> (\<forall>r. let q = columns r in
     zr_zone_id q = zr_zone_id r \<and> zr_source q = zr_source r \<and> zr_symbol q = zr_symbol r \<and> zr_interval q = zr_interval r \<and>
     zr_state q = zr_state r \<and> zr_touch_count q = zr_touch_count r \<and> zr_rejection_count q = zr_rejection_count r \<and>
     zr_evidence_open_times q = zr_evidence_open_times r \<and> zr_reasons q = zr_reasons r \<and>
     instant (zr_created_at_evidence q) = instant (zr_created_at_evidence r) \<and>
     instant (zr_confirmed_at q) = instant (zr_confirmed_at r) \<and> instant (zr_last_test_at q) = instant (zr_last_test_at r) \<and>
     numeric_column 18 (zr_zone_low r) (zr_zone_low q) \<and> numeric_column 18 (zr_zone_high r) (zr_zone_high q) \<and>
     numeric_column 2 (zr_strength_score r) (zr_strength_score q))"

definition event_columns :: "(event_row \<Rightarrow> event_row) \<Rightarrow> bool" where
  "event_columns columns \<longleftrightarrow> (\<forall>r. let q = columns r in
     er_event_id q = er_event_id r \<and> er_zone_id q = er_zone_id r \<and> er_source q = er_source r \<and> er_symbol q = er_symbol r \<and>
     er_interval q = er_interval r \<and> er_state q = er_state r \<and> er_invalidates_event_id q = er_invalidates_event_id r \<and>
     er_reasons q = er_reasons r \<and> instant (er_observed_at q) = instant (er_observed_at r) \<and>
     instant (er_candle_open_time q) = instant (er_candle_open_time r) \<and>
     numeric_column 18 (er_close_price r) (er_close_price q) \<and> numeric_column 18 (er_zone_low r) (er_zone_low q) \<and>
     numeric_column 18 (er_zone_high r) (er_zone_high q) \<and> numeric_column 4 (er_distance_bps r) (er_distance_bps q) \<and>
     numeric_column 6 (er_body_fraction r) (er_body_fraction q) \<and> numeric_option 6 (er_volume_ratio r) (er_volume_ratio q))"

definition zone_fits :: "zone \<Rightarrow> bool" where
  "zone_fits z \<longleftrightarrow> fits 2 (strength_score z)"

definition event_fits :: "event \<Rightarrow> bool" where
  "event_fits e \<longleftrightarrow> fits 4 (distance_bps e) \<and> fits 6 (se_body_fraction e) \<and>
     (case se_volume_ratio e of None \<Rightarrow> True | Some v \<Rightarrow> fits 6 v)"

lemma columns_keep_zone:
  assumes "zone_columns columns" "zone_fits z"
  shows "zone_table.kept columns z"
  unfolding zone_table.kept_def
proof (intro allI impI)
  fix r
  assume r: "r = zone_record z"
  note c = assms(1) [unfolded zone_columns_def Let_def, rule_format, of r]
  have "decimal_equal (zr_zone_low (columns r)) (zr_zone_low r)" "decimal_equal (zr_zone_high (columns r)) (zr_zone_high r)"
    using c column_equal by blast+
  moreover have "fits 2 (zr_strength_score r)" using assms(2) r by (simp add: zone_fits_def zone_record_def)
  then have "decimal_equal (zr_strength_score (columns r)) (zr_strength_score r)" using c scale_equal by blast
  ultimately show "zr_zone_id (columns r) = sz_id z \<and> same_zone_values (columns r) z"
    using c unfolding r same_zone_values_def same_time_def by (simp add: zone_record_def)
qed

lemma option_equal_column: "numeric_option s v w \<Longrightarrow> (case v of None \<Rightarrow> True | Some d \<Rightarrow> fits s d) \<Longrightarrow> option_equal w v"
  by (auto simp: numeric_option_def option_equal_def scale_equal split: option.splits)

lemma columns_keep_event:
  assumes "event_columns columns" "event_fits e"
  shows "event_table.kept columns e"
  unfolding event_table.kept_def
proof (intro allI impI)
  fix r
  assume r: "r = event_record e"
  note c = assms(1) [unfolded event_columns_def Let_def, rule_format, of r]
  have "decimal_equal (er_close_price (columns r)) (er_close_price r)" "decimal_equal (er_zone_low (columns r)) (er_zone_low r)"
    "decimal_equal (er_zone_high (columns r)) (er_zone_high r)"
    using c column_equal by blast+
  moreover have "fits 4 (er_distance_bps r)" "fits 6 (er_body_fraction r)"
    "case er_volume_ratio r of None \<Rightarrow> True | Some d \<Rightarrow> fits 6 d"
    using assms(2) r by (simp_all add: event_fits_def event_record_def)
  then have "decimal_equal (er_distance_bps (columns r)) (er_distance_bps r)"
    "decimal_equal (er_body_fraction (columns r)) (er_body_fraction r)"
    "option_equal (er_volume_ratio (columns r)) (er_volume_ratio r)"
    using c scale_equal option_equal_column by blast+
  ultimately show "er_event_id (columns r) = se_id e \<and> same_event_values (columns r) e"
    using c unfolding r same_event_values_def same_time_def by (simp add: event_record_def)
qed


text \<open>What the engine derives fits the columns: strengths, distances, body fractions and volume ratios are quantized.\<close>

definition analysis_fits :: "htf_analysis \<Rightarrow> bool" where
  "analysis_fits a \<longleftrightarrow> (\<forall>z \<in> set (ha_zones a). zone_fits z) \<and> (\<forall>e \<in> set (ha_events a). event_fits e)"

lemma derived_zone_fits:
  assumes "zone_from_cluster r cs cl = Inr (Some z)"
  shows "zone_fits z"
proof -
  obtain strength first final evidence zlow zhigh confirmed rejections width touches ix bars where
    s: "zone_strength touches rejections ix bars = Inr strength"
    and z: "SupportZone (zone_fields r first final evidence zlow zhigh confirmed rejections strength width) = Inr z"
    using assms unfolding zone_from_cluster_def Let_def and_then_Inr
    by (auto split: if_splits list.splits simp: and_then_Inr)
  have "strength_score z = strength" using z by (cases z) (auto simp: SupportZone_Inr zone_args_def zone_fields_def Let_def)
  moreover have "fits 2 strength" using s fits_quantize [of _ "-2"] by (auto simp: zone_strength_def and_then_Inr)
  ultimately show ?thesis by (simp add: zone_fits_def)
qed

lemma body_fraction_fits: "body_fraction c = Inr b \<Longrightarrow> fits 6 b"
  using fits_mono [OF fits_quantize [of _ "-4"], of _ _ 6] fits_dec [of 0 6 0]
  by (auto simp: body_fraction_def Let_def and_then_Inr split: if_splits)

lemma volume_ratio_fits: "volume_ratio cs i n = Inr v \<Longrightarrow> (case v of None \<Rightarrow> True | Some d \<Rightarrow> fits 6 d)"
  using fits_mono [OF fits_quantize [of _ "-4"], of _ _ 6]
  by (auto simp: volume_ratio_def Let_def and_then_Inr split: if_splits)

lemma inj_map_option_eq: "map_option Finite a = map_option Finite b \<longleftrightarrow> a = b"
  by (cases a; cases b) auto

lemma made_event_fits:
  assumes "make_event z c s gap body ratio reasons iv = Inr e" "fits 6 body" "case ratio of None \<Rightarrow> True | Some d \<Rightarrow> fits 6 d"
  shows "event_fits e"
proof -
  obtain d where d: "quantize gap (-2) = Inr d" "distance_bps e = d" "se_body_fraction e = body" "se_volume_ratio e = ratio"
    using assms(1) unfolding make_event_def and_then_Inr StructureEvent_Inr
    by (cases e) (auto simp: event_args_def inj_map_option_eq)
  then show ?thesis using assms(2,3) fits_mono [OF fits_quantize [OF d(1)], of 4] by (simp add: event_fits_def)
qed

lemma scan_fits: "scan r z rel i confirmed pending cs = Inr es \<Longrightarrow> \<forall>e \<in> set es. event_fits e"
proof (induction cs arbitrary: i confirmed pending es)
  case (Cons c cs)
  obtain body where b: "body_fraction c = Inr body" using Cons.prems by (cases "body_fraction c") auto
  obtain ratio where v: "volume_ratio rel i (volume_lookback r) = Inr ratio"
    using Cons.prems b by (cases "volume_ratio rel i (volume_lookback r)") auto
  note mk = made_event_fits [OF _ body_fraction_fits [OF b] volume_ratio_fits [OF v]]
  show ?case
  proof (cases confirmed)
    case None
    then show ?thesis using Cons.prems b v Cons.IH mk by (auto simp: and_then_Inr Let_def split: if_splits)
  next
    case (Some p)
    then show ?thesis using Cons.prems b v Cons.IH mk by (cases p) (auto simp: and_then_Inr Let_def split: if_splits)
  qed
qed simp


lemma derived_fits:
  assumes "analyze_higher_timeframe zr er b = Inr a" "batch_wf b" "zone_rules_wf zr" "\<forall>c \<in> set (candles b). candle_wf c"
  shows "analysis_fits a"
proof -
  obtain by_zone where bld: "\<forall>item \<in> set by_zone. build_structure_events er (fst item) (candles b) = Inr (snd item)"
    and ev: "ha_events a = sort_key event_order (concat (map snd by_zone))"
    and zs: "derive_support_zones zr (candles b) = Inr (ha_zones a)"
    by (rule analyze_Inr [OF assms]) blast
  have "zone_fits z" if "z \<in> set (ha_zones a)" for z
  proof -
    obtain clusters found where d: "traverse (zone_from_cluster zr (candles b)) clusters = Inr found"
      "ha_zones a = take (nat (maximum_zones zr)) (sort_desc zone_rank (somes found))" by (rule derive_Inr [OF zs]) blast
    show ?thesis by (rule found_zone [OF d(2,1) that]) (rule derived_zone_fits)
  qed
  moreover have "event_fits e" if e: "e \<in> set (ha_events a)" for e
  proof -
    obtain item where item: "item \<in> set by_zone" "e \<in> set (snd item)" using e ev by auto
    then have "build_structure_events er (fst item) (candles b) = Inr (snd item)" using bld by blast
    then show ?thesis using item(2) scan_fits
      by (fastforce simp: build_structure_events_def and_then_Inr Let_def split: if_splits)
  qed
  ultimately show ?thesis by (simp add: analysis_fits_def)
qed

section \<open>Storing and reading\<close>

definition ids_distinct :: "htf_analysis \<Rightarrow> bool" where
  "ids_distinct a \<longleftrightarrow> distinct (map sz_id (ha_zones a)) \<and> distinct (map se_id (ha_events a))"

lemma upsert_analysis_facts:
  assumes "sql_table zc fetch_zone save_zone" "zone_columns zc" "keyed fetch_zone zr_zone_id (fst db)"
    "sql_table ec fetch_event save_event" "event_columns ec" "keyed fetch_event er_event_id (snd db)"
    "analysis_fits a" "ids_distinct a" "upsert_analysis fetch_zone save_zone fetch_event save_event a db = (db', n)"
  shows "ur_total (zone_counts n) = length (ha_zones a)" "ur_total (event_counts n) = length (ha_events a)"
    "\<forall>z \<in> set (ha_zones a). zone_table.stored fetch_zone (fst db') z"
    "\<forall>e \<in> set (ha_events a). event_table.stored fetch_event (snd db') e"
    "\<forall>k. k \<notin> sz_id ` set (ha_zones a) \<longrightarrow> fetch_zone (fst db') k = fetch_zone (fst db) k"
    "\<forall>k. k \<notin> se_id ` set (ha_events a) \<longrightarrow> fetch_event (snd db') k = fetch_event (snd db) k"
proof -
  obtain zdb zn where z: "fold (upsert_zone fetch_zone save_zone) (ha_zones a) (fst db, no_rows) = (zdb, zn)" by fastforce
  obtain edb en where e: "fold (upsert_event fetch_event save_event) (ha_events a) (snd db, no_rows) = (edb, en)" by fastforce
  have r: "db' = (zdb, edb)" "n = \<lparr>zone_counts = zn, event_counts = en\<rparr>"
    using assms(9) z e by (simp_all add: upsert_analysis_def)
  have d: "distinct (map sz_id (ha_zones a))" "distinct (map se_id (ha_events a))" using assms(8) by (simp_all add: ids_distinct_def)
  have k: "\<forall>z \<in> set (ha_zones a). zone_table.kept zc z" "\<forall>e \<in> set (ha_events a). event_table.kept ec e"
    using assms(7) columns_keep_zone [OF assms(2)] columns_keep_event [OF assms(5)] by (simp_all add: analysis_fits_def)
  note zs = zone_table.all [OF assms(1,3) k(1) d(1) z [unfolded upsert_zone_def]]
  note es = event_table.all [OF assms(4,6) k(2) d(2) e [unfolded upsert_event_def]]
  show "ur_total (zone_counts n) = length (ha_zones a)" "ur_total (event_counts n) = length (ha_events a)"
    "\<forall>z \<in> set (ha_zones a). zone_table.stored fetch_zone (fst db') z"
    "\<forall>e \<in> set (ha_events a). event_table.stored fetch_event (snd db') e"
    "\<forall>k. k \<notin> sz_id ` set (ha_zones a) \<longrightarrow> fetch_zone (fst db') k = fetch_zone (fst db) k"
    "\<forall>k. k \<notin> se_id ` set (ha_events a) \<longrightarrow> fetch_event (snd db') k = fetch_event (snd db) k"
    using zs es by (simp_all add: r ur_total_def no_rows_def)
qed

text \<open>
  Storing a higher-timeframe analysis is idempotent although the columns of the tables round: if the scores
  have no more decimals than their columns, as those the engine derives (\<open>derived_fits\<close>), the counters account
  for every zone and event, no row of another identifier changes, and storing the same analysis again
  changes nothing and reports every zone and event as unchanged. Prices may have any number of decimals.
\<close>

lemma analysis_upsert_idempotent:
  assumes "sql_table zc fetch_zone save_zone" "zone_columns zc" "keyed fetch_zone zr_zone_id (fst db)"
    "sql_table ec fetch_event save_event" "event_columns ec" "keyed fetch_event er_event_id (snd db)"
    "analysis_fits a" "ids_distinct a" "upsert_analysis fetch_zone save_zone fetch_event save_event a db = (db', n)"
  shows "ur_total (zone_counts n) = length (ha_zones a) \<and> ur_total (event_counts n) = length (ha_events a) \<and>
    (\<forall>k. k \<notin> sz_id ` set (ha_zones a) \<longrightarrow> fetch_zone (fst db') k = fetch_zone (fst db) k) \<and>
    (\<forall>k. k \<notin> se_id ` set (ha_events a) \<longrightarrow> fetch_event (snd db') k = fetch_event (snd db) k) \<and>
    upsert_analysis fetch_zone save_zone fetch_event save_event a db' =
      (db', \<lparr>zone_counts = no_rows\<lparr>ur_unchanged := length (ha_zones a)\<rparr>,
             event_counts = no_rows\<lparr>ur_unchanged := length (ha_events a)\<rparr>\<rparr>)"
proof -
  note up = upsert_analysis_facts [OF assms]
  have "upsert_analysis fetch_zone save_zone fetch_event save_event a db' =
      (db', \<lparr>zone_counts = no_rows\<lparr>ur_unchanged := length (ha_zones a)\<rparr>,
             event_counts = no_rows\<lparr>ur_unchanged := length (ha_events a)\<rparr>\<rparr>)"
    unfolding upsert_analysis_def upsert_zone_def upsert_event_def zone_table.again [OF up(3)] event_table.again [OF up(4)]
    by (simp add: no_rows_def)
  with up(1,2,5,6) show ?thesis by blast
qed

definition sample_zone_columns :: "zone_row \<Rightarrow> zone_row" where
  "sample_zone_columns r = r\<lparr>zr_zone_low := rounded 18 (zr_zone_low r), zr_zone_high := rounded 18 (zr_zone_high r),
     zr_strength_score := rounded 2 (zr_strength_score r)\<rparr>"

definition sample_event_columns :: "event_row \<Rightarrow> event_row" where
  "sample_event_columns r = r\<lparr>er_close_price := rounded 18 (er_close_price r), er_zone_low := rounded 18 (er_zone_low r),
     er_zone_high := rounded 18 (er_zone_high r), er_distance_bps := rounded 4 (er_distance_bps r),
     er_body_fraction := rounded 6 (er_body_fraction r), er_volume_ratio := map_option (rounded 6) (er_volume_ratio r)\<rparr>"

lemma numeric_option_rounded: "numeric_option s v (map_option (rounded s) v)"
  by (cases v) (simp_all add: numeric_option_def numeric_column_rounded)

lemma sample_structure_columns: "zone_columns sample_zone_columns" "event_columns sample_event_columns"
  by (simp_all add: zone_columns_def event_columns_def sample_zone_columns_def sample_event_columns_def
      numeric_column_rounded numeric_option_rounded)

text \<open>An analysis with one broken zone whose bounds have 20 decimals.\<close>

definition long_zone :: zone where
  "long_zone = sample_zone\<lparr>sz_low := dec 9980000000000000000001 (-20), sz_high := dec 10030020000000000000003 (-20)\<rparr>"

definition stored_analysis :: htf_analysis where
  "stored_analysis = \<lparr>ha_source = CS_BYBIT, ha_symbol = ''ABCUSDT'', ha_interval = H4, ha_observed_at = se_observed_at sample_break,
     ha_zones = [long_zone], ha_primary_zone = Some long_zone, ha_events = [sample_break],
     ha_evidence = \<lparr>te_source = CS_BYBIT, te_symbol = ''ABCUSDT'', te_interval = H4, te_status = TS_DAMAGED,
       te_observed_at = se_observed_at sample_break, te_zone_id = Some ''zone_sample'', te_event_id = Some ''event_sample'',
       te_reasons = []\<rparr>\<rparr>"

lemma stored_analysis_fits: "analysis_fits stored_analysis" "ids_distinct stored_analysis"
  by (simp_all add: analysis_fits_def ids_distinct_def stored_analysis_def zone_fits_def event_fits_def long_zone_def
      sample_zone_def sample_break_def fits_dec)

abbreviation upsert_sample :: "htf_analysis \<Rightarrow> (string \<rightharpoonup> zone_row) \<times> (string \<rightharpoonup> event_row) \<Rightarrow>
    ((string \<rightharpoonup> zone_row) \<times> (string \<rightharpoonup> event_row)) \<times> structure_upsert_result" where
  "upsert_sample \<equiv> upsert_analysis (\<lambda>db k. db k) (\<lambda>db k r. db(k \<mapsto> sample_zone_columns r))
     (\<lambda>db k. db k) (\<lambda>db k r. db(k \<mapsto> sample_event_columns r))"

lemma stored_analysis_again:
  "\<exists>db' n. upsert_sample stored_analysis (Map.empty, Map.empty) = (db', n) \<and>
    ur_total (zone_counts n) = 1 \<and> ur_total (event_counts n) = 1 \<and>
    upsert_sample stored_analysis db' =
      (db', \<lparr>zone_counts = no_rows\<lparr>ur_unchanged := 1\<rparr>, event_counts = no_rows\<lparr>ur_unchanged := 1\<rparr>\<rparr>)"
proof -
  obtain db' n where up: "upsert_sample stored_analysis (Map.empty, Map.empty) = (db', n)" by fastforce
  have "length (ha_zones stored_analysis) = 1" "length (ha_events stored_analysis) = 1" by (simp_all add: stored_analysis_def)
  then show ?thesis
    using analysis_upsert_idempotent [OF sql_table_map sample_structure_columns(1) _ sql_table_map sample_structure_columns(2) _
      stored_analysis_fits up] up by (simp add: keyed_empty)
qed


text \<open>
  What a query for one row promises: a row of the table that satisfies the condition and comes first
  in the order, or nothing when no row satisfies the condition.
\<close>

definition answers :: "('k \<Rightarrow> 'r option) \<Rightarrow> ('r \<Rightarrow> bool) \<Rightarrow> ('r \<Rightarrow> 'r \<Rightarrow> bool) \<Rightarrow> 'r option \<Rightarrow> bool" where
  "answers rows P newer found \<longleftrightarrow>
     (case found of None \<Rightarrow> \<forall>k s. rows k = Some s \<longrightarrow> \<not> P s
      | Some r \<Rightarrow> (\<exists>k. rows k = Some r) \<and> P r \<and> (\<forall>k s. rows k = Some s \<longrightarrow> P s \<longrightarrow> s = r \<or> newer r s))"

lemma event_from_record_time: "event_from_record r = Inr e \<Longrightarrow> instant (se_observed_at e) = instant (er_observed_at r)"
  by (cases e) (auto simp: event_from_record_def and_then_Inr StructureEvent_Inr event_args_def)

lemma stored_event_row:
  assumes "event_table.stored fetch_event db e"
  obtains r where "fetch_event db (se_id e) = Some r" "er_source r = source_value (se_source e)" "er_symbol r = se_symbol e"
    "er_interval r = interval_value (se_interval e)" "instant (er_observed_at r) = instant (se_observed_at e)"
  using assms that by (auto simp: event_table.stored_def same_event_values_def same_time_def)

text \<open>
  after an analysis was stored, the latest event that is read for its market is never older than
  any event of the analysis, and some event is read, provided the rows of the table can be read.
\<close>

theorem latest_event_after_upsert:
  assumes "sql_table zc fetch_zone save_zone" "zone_columns zc" "keyed fetch_zone zr_zone_id (fst db)"
    "sql_table ec fetch_event save_event" "event_columns ec" "keyed fetch_event er_event_id (snd db)"
    "analysis_fits a" "ids_distinct a" "upsert_analysis fetch_zone save_zone fetch_event save_event a db = (db', n)"
    "e \<in> set (ha_events a)" "event_wf e" "upper (strip symbol) = se_symbol e"
    "\<forall>P. answers (fetch_event (snd db')) P (newer_event collate) (scalar (snd db') P (newer_event collate))"
    "\<forall>k r. fetch_event (snd db') k = Some r \<longrightarrow> (\<exists>y. event_from_record r = Inr y)"
  shows "\<exists>y. latest_event scalar collate (se_source e) symbol (se_interval e) (snd db') = Inr (Some y) \<and>
    instant (se_observed_at e) \<le> instant (se_observed_at y)"
proof -
  let ?P = "\<lambda>r. er_source r = source_value (se_source e) \<and> er_symbol r = se_symbol e \<and> er_interval r = interval_value (se_interval e)"
  have "event_table.stored fetch_event (snd db') e" using upsert_analysis_facts(4) [OF assms(1-9)] assms(10) by blast
  then obtain r where r: "fetch_event (snd db') (se_id e) = Some r" "?P r" "instant (er_observed_at r) = instant (se_observed_at e)"
    by (rule stored_event_row) blast
  have ans: "answers (fetch_event (snd db')) ?P (newer_event collate) (scalar (snd db') ?P (newer_event collate))"
    using assms(13) by blast
  then obtain s where s: "scalar (snd db') ?P (newer_event collate) = Some s"
    using r(1,2) unfolding answers_def by (cases "scalar (snd db') ?P (newer_event collate)") auto
  with ans r(1,2) have "s = r \<or> newer_event collate s r" "\<exists>k. fetch_event (snd db') k = Some s" unfolding answers_def by auto
  then have old: "instant (se_observed_at e) \<le> instant (er_observed_at s)" using r(3) by (auto simp: newer_event_def)
  obtain y where y: "event_from_record s = Inr y" using \<open>\<exists>k. fetch_event (snd db') k = Some s\<close> assms(14) by blast
  have "latest_event scalar collate (se_source e) symbol (se_interval e) (snd db') = Inr (Some y)"
    using assms(11,12) s y by (auto simp: latest_event_def event_wf_def htf_def normal_symbol_def)
  with old event_from_record_time [OF y] show ?thesis by auto
qed

text \<open>A query over a table of one row.\<close>

definition only_row :: "(string \<rightharpoonup> event_row) \<Rightarrow> (event_row \<Rightarrow> bool) \<Rightarrow> (event_row \<Rightarrow> event_row \<Rightarrow> bool) \<Rightarrow> event_row option" where
  "only_row db P newer = (case db ''event_sample'' of None \<Rightarrow> None | Some r \<Rightarrow> if P r then Some r else None)"

lemma sample_event_readable:
  "case event_from_record (sample_event_columns (event_record sample_break)) of Inr y \<Rightarrow> True | Inl _ \<Rightarrow> False"
  by code_simp

theorem latest_event_after_upsert_witness:
  "\<exists>db' n y. upsert_sample stored_analysis (Map.empty, Map.empty) = (db', n) \<and>
    latest_event only_row (\<lambda>_ _. True) CS_BYBIT '' abcusdt '' H4 (snd db') = Inr (Some y) \<and>
    instant (se_observed_at sample_break) \<le> instant (se_observed_at y)"
proof -
  obtain db' n where up: "upsert_sample stored_analysis (Map.empty, Map.empty) = (db', n)" by fastforce
  have ev: "sample_break \<in> set (ha_events stored_analysis)" "se_source sample_break = CS_BYBIT" "se_interval sample_break = H4"
    by (simp_all add: stored_analysis_def sample_break_def)
  have wf: "event_wf sample_break" by code_simp
  have sym: "upper (strip '' abcusdt '') = se_symbol sample_break" by code_simp
  have db: "snd db' = [''event_sample'' \<mapsto> sample_event_columns (event_record sample_break)]"
    using up by (auto simp: upsert_analysis_def upsert_zone_def upsert_event_def upsert_row_def stored_analysis_def
        event_record_def sample_break_def)
  have readable: "\<exists>y. event_from_record (sample_event_columns (event_record sample_break)) = Inr y"
    using sample_event_readable by (simp split: sum.splits)
  have ans: "\<forall>P. answers (snd db') P (newer_event (\<lambda>_ _. True)) (only_row (snd db') P (newer_event (\<lambda>_ _. True)))"
    by (auto simp: answers_def only_row_def db)
  have rows: "\<forall>k r. snd db' k = Some r \<longrightarrow> (\<exists>y. event_from_record r = Inr y)" using readable by (auto simp: db)
  have "keyed (\<lambda>db k. db k) zr_zone_id (fst (Map.empty, Map.empty :: string \<rightharpoonup> event_row))"
    "keyed (\<lambda>db k. db k) er_event_id (snd (Map.empty :: string \<rightharpoonup> zone_row, Map.empty))" by (simp_all add: keyed_empty)
  from latest_event_after_upsert [OF sql_table_map sample_structure_columns(1) this(1) sql_table_map sample_structure_columns(2)
      this(2) stored_analysis_fits up ev(1) wf sym, of "\<lambda>_ _. True" only_row, OF ans rows] up
  show ?thesis unfolding ev(2,3) by blast
qed

end
