(* ===== verification/Market_Models.thy ===== *)
theory Market_Models
  imports PyFloat PyTime
begin

text \<open>
  The market records that enter the pipeline: \<^verbatim>\<open>app/adapters/lbank_models.py\<close> (instrument, quote,
  order book and execution snapshot of LBank), \<^verbatim>\<open>app/adapters/benchmark_models.py\<close> (snapshots of the
  four reference exchanges), \<^verbatim>\<open>app/adapters/discovery_models.py\<close>, and
  \<^verbatim>\<open>app/execution/symbol_mapping.py\<close>. Each constructor validates its raw arguments; the type of the
  decimal fields says whether a record is raw (\<open>raw_decimal\<close>) or validated (\<open>decimal\<close>).
\<close>

section \<open>Number and text checks\<close>

definition positive_decimal :: "string \<Rightarrow> raw_decimal \<Rightarrow> decimal result" where
  "positive_decimal name v =
     and_then (check_finite name v) (\<lambda>d.
       if dval d \<le> 0 then Inl (ValueError (name @ '' must be positive'')) else Inr d)"

definition non_negative_decimal :: "string \<Rightarrow> raw_decimal \<Rightarrow> decimal result" where
  "non_negative_decimal name v =
     and_then (check_finite name v) (\<lambda>d.
       if dval d < 0 then Inl (ValueError (name @ '' must be non-negative'')) else Inr d)"

definition required_text :: "string \<Rightarrow> string \<Rightarrow> string result" where
  "required_text name v =
     (let s = strip v in if s = '''' then Inl (ValueError (name @ '' is required'')) else Inr s)"

fun optional :: "('a \<Rightarrow> 'b result) \<Rightarrow> 'a option \<Rightarrow> 'b option result" where
  "optional f None = Inr None"
| "optional f (Some v) = and_then (f v) (\<lambda>w. Inr (Some w))"

section \<open>LBank\<close>

record 'd lbank_instrument =
  li_symbol :: string
  li_base_currency :: string
  li_price_currency :: string
  li_clear_currency :: string
  li_price_tick :: 'd
  li_volume_tick :: 'd
  li_volume_multiple :: 'd
  li_min_order_volume :: "'d option"
  li_min_order_cost :: "'d option"

definition LBankInstrument :: "raw_decimal lbank_instrument \<Rightarrow> decimal lbank_instrument result" where
  "LBankInstrument a =
     and_then (required_text ''symbol'' (li_symbol a)) (\<lambda>symbol.
     and_then (required_text ''base_currency'' (li_base_currency a)) (\<lambda>base.
     and_then (required_text ''price_currency'' (li_price_currency a)) (\<lambda>price.
     and_then (required_text ''clear_currency'' (li_clear_currency a)) (\<lambda>clear.
     and_then (positive_decimal ''price_tick'' (li_price_tick a)) (\<lambda>ptick.
     and_then (positive_decimal ''volume_tick'' (li_volume_tick a)) (\<lambda>vtick.
     and_then (positive_decimal ''volume_multiple'' (li_volume_multiple a)) (\<lambda>multiple.
     and_then (optional (positive_decimal ''min_order_volume'') (li_min_order_volume a)) (\<lambda>minv.
     and_then (optional (positive_decimal ''min_order_cost'') (li_min_order_cost a)) (\<lambda>minc.
     Inr \<lparr>li_symbol = symbol, li_base_currency = base, li_price_currency = price,
       li_clear_currency = clear, li_price_tick = ptick, li_volume_tick = vtick,
       li_volume_multiple = multiple, li_min_order_volume = minv, li_min_order_cost = minc\<rparr>)))))))))"

record 'd lbank_quote =
  lq_symbol :: string
  lq_last_price :: 'd
  lq_marked_price :: 'd
  lq_funding_rate :: "'d option"
  lq_volume_24h :: "'d option"
  lq_turnover_24h :: "'d option"

definition LBankMarketQuote :: "raw_decimal lbank_quote \<Rightarrow> decimal lbank_quote result" where
  "LBankMarketQuote a =
     and_then (required_text ''symbol'' (lq_symbol a)) (\<lambda>symbol.
     and_then (positive_decimal ''last_price'' (lq_last_price a)) (\<lambda>lastp.
     and_then (positive_decimal ''marked_price'' (lq_marked_price a)) (\<lambda>marked.
     and_then (optional (check_finite ''funding_rate'') (lq_funding_rate a)) (\<lambda>funding.
     and_then (optional (non_negative_decimal ''volume_24h'') (lq_volume_24h a)) (\<lambda>vol.
     and_then (optional (non_negative_decimal ''turnover_24h'') (lq_turnover_24h a)) (\<lambda>turn.
     Inr \<lparr>lq_symbol = symbol, lq_last_price = lastp, lq_marked_price = marked,
       lq_funding_rate = funding, lq_volume_24h = vol, lq_turnover_24h = turn\<rparr>))))))"

record 'd lbank_level =
  ll_price :: 'd
  ll_volume :: 'd
  ll_orders :: "int option"

definition LBankBookLevel :: "raw_decimal lbank_level \<Rightarrow> decimal lbank_level result" where
  "LBankBookLevel a =
     and_then (positive_decimal ''price'' (ll_price a)) (\<lambda>price.
     and_then (positive_decimal ''volume'' (ll_volume a)) (\<lambda>vol.
     if (case ll_orders a of None \<Rightarrow> False | Some n \<Rightarrow> n < 0)
       then Inl (ValueError ''orders must be non-negative'')
     else Inr \<lparr>ll_price = price, ll_volume = vol, ll_orders = ll_orders a\<rparr>))"

record lbank_book =
  lb_symbol :: string
  lb_bids :: "decimal lbank_level list"
  lb_asks :: "decimal lbank_level list"

definition LBankOrderBook :: "lbank_book \<Rightarrow> lbank_book result" where
  "LBankOrderBook a =
     and_then (required_text ''symbol'' (lb_symbol a)) (\<lambda>symbol.
     if lb_bids a = [] \<or> lb_asks a = [] then Inl (ValueError ''order book requires bids and asks'')
     else if dval (ll_price (hd (lb_asks a))) \<le> dval (ll_price (hd (lb_bids a)))
       then Inl (ValueError ''order book must not be crossed or locked'')
     else Inr (a\<lparr>lb_symbol := symbol\<rparr>))"

text \<open>\<open>self.bids[0]\<close> and \<open>self.asks[0]\<close>: a constructed book has both.\<close>

definition best_bid :: "lbank_book \<Rightarrow> decimal lbank_level" where
  "best_bid b = hd (lb_bids b)"

definition best_ask :: "lbank_book \<Rightarrow> decimal lbank_level" where
  "best_ask b = hd (lb_asks b)"

record 'd lbank_snapshot =
  ls_source :: string
  ls_product_group :: string
  ls_symbol :: string
  ls_received_at :: datetime
  ls_latency_ms :: int
  ls_instrument :: "decimal lbank_instrument"
  ls_quote :: "decimal lbank_quote"
  ls_order_book :: lbank_book
  ls_spread :: 'd
  ls_spread_bps :: 'd
  ls_bid_depth_quote :: 'd
  ls_ask_depth_quote :: 'd

text \<open>The three symbols of the parts must be that of the snapshot, whatever their case (lines 162 to 169).\<close>

definition check_part_symbols :: "string \<Rightarrow> (string \<times> string) list \<Rightarrow> unit result" where
  "check_part_symbols symbol parts =
     (case find (\<lambda>(name, s). lower s \<noteq> lower symbol) parts of
        None \<Rightarrow> Inr ()
      | Some (name, s) \<Rightarrow> Inl (ValueError (name @ '' symbol mismatch'')))"

definition LBankExecutionSnapshot :: "raw_decimal lbank_snapshot \<Rightarrow> decimal lbank_snapshot result" where
  "LBankExecutionSnapshot a =
     and_then (required_text ''source'' (ls_source a)) (\<lambda>source.
     and_then (required_text ''product_group'' (ls_product_group a)) (\<lambda>grp.
     and_then (required_text ''symbol'' (ls_symbol a)) (\<lambda>symbol.
     and_then (require_aware ''received_at'' (ls_received_at a)) (\<lambda>received.
     if ls_latency_ms a < 0 then Inl (ValueError ''latency_ms must be non-negative'')
     else and_then (check_part_symbols symbol
         [(''instrument'', li_symbol (ls_instrument a)), (''quote'', lq_symbol (ls_quote a)),
          (''order_book'', lb_symbol (ls_order_book a))]) (\<lambda>_.
     let expected = dsub (ll_price (best_ask (ls_order_book a))) (ll_price (best_bid (ls_order_book a))) in
     and_then (positive_decimal ''spread'' (ls_spread a)) (\<lambda>spread.
     if dval spread \<noteq> dval expected then Inl (ValueError ''spread does not match order book'')
     else and_then (positive_decimal ''spread_bps'' (ls_spread_bps a)) (\<lambda>bps.
     and_then (non_negative_decimal ''bid_depth_quote'' (ls_bid_depth_quote a)) (\<lambda>bid.
     and_then (non_negative_decimal ''ask_depth_quote'' (ls_ask_depth_quote a)) (\<lambda>ask.
     Inr \<lparr>ls_source = source, ls_product_group = grp, ls_symbol = symbol, ls_received_at = received,
       ls_latency_ms = ls_latency_ms a, ls_instrument = ls_instrument a, ls_quote = ls_quote a,
       ls_order_book = ls_order_book a, ls_spread = spread, ls_spread_bps = bps,
       ls_bid_depth_quote = bid, ls_ask_depth_quote = ask\<rparr>)))))))))"

definition executable_mid_price :: "decimal lbank_snapshot \<Rightarrow> decimal result" where
  "executable_mid_price s =
     ddiv (dadd (ll_price (best_bid (ls_order_book s))) (ll_price (best_ask (ls_order_book s)))) (dec 2 0)"

section \<open>Benchmarks\<close>

datatype benchmark_source = MEXC | GATE | BYBIT | BINANCE

datatype benchmark_role = BENCHMARK_ONLY

record 'd benchmark_level =
  bl_price :: 'd
  bl_quantity :: 'd

definition BenchmarkBookLevel :: "raw_decimal benchmark_level \<Rightarrow> decimal benchmark_level result" where
  "BenchmarkBookLevel a =
     and_then (positive_decimal ''book price'' (bl_price a)) (\<lambda>price.
     and_then (positive_decimal ''book quantity'' (bl_quantity a)) (\<lambda>quantity.
     Inr \<lparr>bl_price = price, bl_quantity = quantity\<rparr>))"

record 'd benchmark_snapshot =
  bs_source :: benchmark_source
  bs_role :: benchmark_role
  bs_symbol :: string
  bs_received_at :: datetime
  bs_latency_ms :: int
  bs_source_timestamp :: "datetime option"
  bs_last_price :: 'd
  bs_mark_price :: "'d option"
  bs_index_price :: "'d option"
  bs_funding_rate :: "'d option"
  bs_open_interest :: "'d option"
  bs_best_bid :: 'd
  bs_best_ask :: 'd
  bs_spread :: 'd
  bs_spread_bps :: 'd
  bs_bid_depth_quote :: 'd
  bs_ask_depth_quote :: 'd

text \<open>The checks before the prices (lines 78 to 93), then the prices (95 to 138).\<close>

definition check_benchmark_header :: "raw_decimal benchmark_snapshot \<Rightarrow> string result" where
  "check_benchmark_header a =
     (if bs_role a \<noteq> BENCHMARK_ONLY then Inl (ValueError ''benchmark role must remain BENCHMARK_ONLY'')
      else let symbol = strip (bs_symbol a) in
      if symbol = '''' then Inl (ValueError ''symbol is required'')
      else if \<not> aware (bs_received_at a) then Inl (ValueError ''received_at must be timezone-aware'')
      else if (case bs_source_timestamp a of None \<Rightarrow> False | Some t \<Rightarrow> \<not> aware t)
        then Inl (ValueError ''source_timestamp must be timezone-aware'')
      else if bs_latency_ms a < 0 then Inl (ValueError ''latency_ms must be non-negative'')
      else Inr symbol)"

definition BenchmarkSnapshot :: "raw_decimal benchmark_snapshot \<Rightarrow> decimal benchmark_snapshot result" where
  "BenchmarkSnapshot a =
     and_then (check_benchmark_header a) (\<lambda>symbol.
     and_then (positive_decimal ''last_price'' (bs_last_price a)) (\<lambda>lastp.
     and_then (optional (positive_decimal ''mark_price'') (bs_mark_price a)) (\<lambda>markp.
     and_then (optional (positive_decimal ''index_price'') (bs_index_price a)) (\<lambda>index.
     and_then (optional (check_finite ''funding_rate'') (bs_funding_rate a)) (\<lambda>funding.
     and_then (optional (non_negative_decimal ''open_interest'') (bs_open_interest a)) (\<lambda>interest.
     and_then (positive_decimal ''best_bid'' (bs_best_bid a)) (\<lambda>bid.
     and_then (positive_decimal ''best_ask'' (bs_best_ask a)) (\<lambda>ask.
     if dval ask \<le> dval bid then Inl (ValueError ''benchmark book must not be crossed or locked'')
     else and_then (positive_decimal ''spread'' (bs_spread a)) (\<lambda>spread.
     if dval spread \<noteq> dval (dsub ask bid) then Inl (ValueError ''spread does not match best bid and ask'')
     else and_then (positive_decimal ''spread_bps'' (bs_spread_bps a)) (\<lambda>bps.
     and_then (non_negative_decimal ''bid_depth_quote'' (bs_bid_depth_quote a)) (\<lambda>bdepth.
     and_then (non_negative_decimal ''ask_depth_quote'' (bs_ask_depth_quote a)) (\<lambda>adepth.
     Inr \<lparr>bs_source = bs_source a, bs_role = bs_role a, bs_symbol = symbol,
       bs_received_at = bs_received_at a, bs_latency_ms = bs_latency_ms a,
       bs_source_timestamp = bs_source_timestamp a, bs_last_price = lastp, bs_mark_price = markp,
       bs_index_price = index, bs_funding_rate = funding, bs_open_interest = interest,
       bs_best_bid = bid, bs_best_ask = ask, bs_spread = spread, bs_spread_bps = bps,
       bs_bid_depth_quote = bdepth, bs_ask_depth_quote = adepth\<rparr>))))))))))))"

section \<open>Discovery\<close>

datatype discovery_source = DEX_SCREENER | COINGECKO

fun discovery_source_value :: "discovery_source \<Rightarrow> string" where
  "discovery_source_value DEX_SCREENER = ''DEX_SCREENER''"
| "discovery_source_value COINGECKO = ''COINGECKO''"

datatype discovery_role = DISCOVERY_ONLY

text \<open>The \<open>metadata\<close> dictionary is opaque.\<close>

record 'm discovery_record =
  dr_source :: discovery_source
  dr_role :: discovery_role
  dr_external_id :: string
  dr_symbol :: "string option"
  dr_name :: "string option"
  dr_chain_id :: "string option"
  dr_token_address :: "string option"
  dr_category :: "string option"
  dr_price_usd :: "raw_decimal option"
  dr_liquidity_usd :: "raw_decimal option"
  dr_volume_24h_usd :: "raw_decimal option"
  dr_market_cap_usd :: "raw_decimal option"
  dr_price_change_24h_pct :: "raw_decimal option"
  dr_boost_active :: "int option"
  dr_pair_created_at :: "datetime option"
  dr_url :: "string option"
  dr_metadata :: 'm

text \<open>\<open>value < 0\<close> on a Decimal that may not be finite: ordering a NaN raises.\<close>

fun raw_negative :: "raw_decimal \<Rightarrow> bool result" where
  "raw_negative (Finite d) = Inr (dval d < 0)"
| "raw_negative (Infinite s) = Inr s"
| "raw_negative NotANumber = Inl InvalidOperation"

definition check_usd :: "raw_decimal option \<times> string \<Rightarrow> unit result" where
  "check_usd p = (case p of (None, name) \<Rightarrow> Inr ()
     | (Some v, name) \<Rightarrow> and_then (raw_negative v) (\<lambda>neg.
         if neg then Inl (ValueError (name @ '' must be non-negative'')) else Inr ()))"

definition DiscoveryRecord :: "'m discovery_record \<Rightarrow> 'm discovery_record result" where
  "DiscoveryRecord a =
     (if dr_role a \<noteq> DISCOVERY_ONLY then Inl (ValueError ''discovery role must remain DISCOVERY_ONLY'')
      else if strip (dr_external_id a) = '''' then Inl (ValueError ''external_id is required'')
      else and_then (traverse check_usd
        [(dr_price_usd a, ''price_usd''), (dr_liquidity_usd a, ''liquidity_usd''),
         (dr_volume_24h_usd a, ''volume_24h_usd''), (dr_market_cap_usd a, ''market_cap_usd'')]) (\<lambda>_.
      if (case dr_boost_active a of None \<Rightarrow> False | Some n \<Rightarrow> n < 0)
        then Inl (ValueError ''boost_active must be non-negative'')
      else if (case dr_pair_created_at a of None \<Rightarrow> False | Some t \<Rightarrow> \<not> aware t)
        then Inl (ValueError ''pair_created_at must be timezone-aware'')
      else Inr a))"

record 'm discovery_batch =
  db_source :: discovery_source
  db_role :: discovery_role
  db_query :: string
  db_fetched_at :: datetime
  db_records :: "'m discovery_record list"
  db_cache_hit :: bool

definition DiscoveryBatch :: "'m discovery_batch \<Rightarrow> 'm discovery_batch result" where
  "DiscoveryBatch a =
     (if db_role a \<noteq> DISCOVERY_ONLY then Inl (ValueError ''discovery batch role must remain DISCOVERY_ONLY'')
      else if strip (db_query a) = '''' then Inl (ValueError ''query is required'')
      else if \<not> aware (db_fetched_at a) then Inl (ValueError ''fetched_at must be timezone-aware'')
      else if \<exists>r \<in> set (db_records a). dr_source r \<noteq> db_source a
        then Inl (ValueError ''all records must match batch source'')
      else Inr a)"

section \<open>Symbol map\<close>

text \<open>A dictionary from exchange to symbol, as an association list with distinct keys.\<close>

record symbol_map =
  sm_canonical_symbol :: string
  sm_lbank_symbol :: string
  sm_benchmark_symbols :: "(benchmark_source \<times> string) list"
  sm_reliable :: bool

fun benchmark_source_value :: "benchmark_source \<Rightarrow> string" where
  "benchmark_source_value MEXC = ''MEXC''"
| "benchmark_source_value GATE = ''GATE''"
| "benchmark_source_value BYBIT = ''BYBIT''"
| "benchmark_source_value BINANCE = ''BINANCE''"

definition normal_entry :: "benchmark_source \<times> string \<Rightarrow> (benchmark_source \<times> string) result" where
  "normal_entry p = (let s = strip (snd p) in
     if s = '''' then Inl (ValueError (''symbol is required for '' @ benchmark_source_value (fst p)))
     else Inr (fst p, s))"

definition CrossExchangeSymbolMap :: "symbol_map \<Rightarrow> symbol_map result" where
  "CrossExchangeSymbolMap a =
     (let canonical = strip (sm_canonical_symbol a); lbank = strip (sm_lbank_symbol a) in
      if canonical = '''' then Inl (ValueError ''canonical_symbol is required'')
      else if lbank = '''' then Inl (ValueError ''lbank_symbol is required'')
      else and_then (traverse normal_entry (sm_benchmark_symbols a)) (\<lambda>normalized.
      if normalized = [] then Inl (ValueError ''at least one benchmark symbol is required'')
      else Inr \<lparr>sm_canonical_symbol = canonical, sm_lbank_symbol = lbank,
        sm_benchmark_symbols = normalized, sm_reliable = sm_reliable a\<rparr>))"

definition expected_symbol :: "symbol_map \<Rightarrow> benchmark_source \<Rightarrow> string option" where
  "expected_symbol m s = map_of (sm_benchmark_symbols m) s"

end
