(* ===== verification/Consensus.thy ===== *)
theory Consensus
  imports Market_Models
begin

text \<open>
  Execution confirmation: \<^verbatim>\<open>app/adapters/benchmark_health.py\<close>, \<^verbatim>\<open>app/execution/lbank_validator.py\<close> and
  \<^verbatim>\<open>app/execution/consensus.py\<close>. LBank is where the trade would run; its mid price must agree with
  the median of the healthy reference exchanges.
\<close>

section \<open>Benchmark health\<close>

text \<open>Subtraction of datetimes.\<close>

definition dt_diff :: "datetime \<Rightarrow> datetime \<Rightarrow> timedelta result" where
  "dt_diff a b =
     (if aware a = aware b then Inr (instant a - instant b)
      else Inl (TypeError ''can't subtract offset-naive and offset-aware datetimes''))"

datatype benchmark_health_state = BH_OK | BH_DEGRADED | BH_STALE

record benchmark_health_rules =
  hr_max_source_age_seconds :: pyfloat
  hr_max_receive_age_seconds :: pyfloat
  hr_max_latency_ms :: int

definition BenchmarkHealthRules :: "benchmark_health_rules \<Rightarrow> benchmark_health_rules result" where
  "BenchmarkHealthRules r =
     (if fle (hr_max_source_age_seconds r) (Fl 0)
        then Inl (ValueError ''max_source_age_seconds must be positive'')
      else if fle (hr_max_receive_age_seconds r) (Fl 0)
        then Inl (ValueError ''max_receive_age_seconds must be positive'')
      else if hr_max_latency_ms r \<le> 0 then Inl (ValueError ''max_latency_ms must be positive'')
      else Inr r)"

definition default_health_rules :: benchmark_health_rules where
  "default_health_rules = \<lparr>hr_max_source_age_seconds = Fl 20, hr_max_receive_age_seconds = Fl 10,
     hr_max_latency_ms = 2500\<rparr>"

record benchmark_health_report =
  hp_source :: benchmark_source
  hp_symbol :: string
  hp_state :: benchmark_health_state
  hp_receive_age_seconds :: pyfloat
  hp_source_age_seconds :: "pyfloat option"
  hp_reasons :: "string list"

definition health_usable :: "benchmark_health_report \<Rightarrow> bool" where
  "health_usable r \<longleftrightarrow> hp_state r = BH_OK"

definition evaluate_benchmark_health ::
  "benchmark_health_rules \<Rightarrow> datetime \<Rightarrow> decimal benchmark_snapshot \<Rightarrow> benchmark_health_report result" where
  "evaluate_benchmark_health r now s =
     and_then (require_aware ''now'' now) (\<lambda>_.
     and_then (dt_diff now (bs_received_at s)) (\<lambda>rd.
     and_then (case bs_source_timestamp s of None \<Rightarrow> Inr None
       | Some t \<Rightarrow> and_then (dt_diff now t) (\<lambda>d. Inr (Some (total_seconds d)))) (\<lambda>source_age.
     let receive_age = total_seconds rd;
       stale =
         (if fless receive_age (Fl (-1)) then []
          else if fless (hr_max_receive_age_seconds r) receive_age then [''RECEIVE_TIME_STALE''] else [])
         @ (case source_age of None \<Rightarrow> [] | Some age \<Rightarrow>
              if fless age (Fl (-1)) then []
              else if fless (hr_max_source_age_seconds r) age then [''SOURCE_TIME_STALE''] else []);
       degraded =
         (if fless receive_age (Fl (-1)) then [''RECEIVE_TIME_FROM_FUTURE''] else [])
         @ (case source_age of None \<Rightarrow> [''SOURCE_TIMESTAMP_MISSING''] | Some age \<Rightarrow>
              if fless age (Fl (-1)) then [''SOURCE_TIME_FROM_FUTURE''] else [])
         @ (if hr_max_latency_ms r < bs_latency_ms s then [''SOURCE_LATENCY_HIGH''] else []);
       state = (if stale \<noteq> [] then BH_STALE else if degraded \<noteq> [] then BH_DEGRADED else BH_OK) in
     Inr \<lparr>hp_source = bs_source s, hp_symbol = bs_symbol s, hp_state = state,
       hp_receive_age_seconds = receive_age, hp_source_age_seconds = source_age,
       hp_reasons = stale @ degraded\<rparr>)))"

section \<open>LBank validation\<close>

datatype lbank_status = LB_OK | LB_EXECUTION_PENDING | LB_DATA_DEGRADED

fun lbank_status_value :: "lbank_status \<Rightarrow> string" where
  "lbank_status_value LB_OK = ''OK''"
| "lbank_status_value LB_EXECUTION_PENDING = ''EXECUTION_PENDING''"
| "lbank_status_value LB_DATA_DEGRADED = ''DATA_DEGRADED''"

record lbank_rules =
  lr_max_age_seconds :: pyfloat
  lr_max_latency_ms :: int
  lr_max_spread_bps :: decimal
  lr_min_bid_depth_quote :: decimal
  lr_min_ask_depth_quote :: decimal

definition LBankExecutionRules :: "lbank_rules \<Rightarrow> lbank_rules result" where
  "LBankExecutionRules r =
     (if fle (lr_max_age_seconds r) (Fl 0) then Inl (ValueError ''max_age_seconds must be positive'')
      else if lr_max_latency_ms r \<le> 0 then Inl (ValueError ''max_latency_ms must be positive'')
      else if dval (lr_max_spread_bps r) \<le> 0 then Inl (ValueError ''max_spread_bps must be positive'')
      else if dval (lr_min_bid_depth_quote r) < 0 \<or> dval (lr_min_ask_depth_quote r) < 0
        then Inl (ValueError ''depth thresholds must be non-negative'')
      else Inr r)"

definition default_lbank_rules :: lbank_rules where
  "default_lbank_rules = \<lparr>lr_max_age_seconds = Fl 15, lr_max_latency_ms = 2500,
     lr_max_spread_bps = dec 25 0, lr_min_bid_depth_quote = dec 1000 0, lr_min_ask_depth_quote = dec 1000 0\<rparr>"

record lbank_validation =
  lv_symbol :: string
  lv_status :: lbank_status
  lv_age_seconds :: pyfloat
  lv_reasons :: "string list"

definition is_executable :: "lbank_validation \<Rightarrow> bool" where
  "is_executable v \<longleftrightarrow> lv_status v = LB_OK"

definition lbank_degraded :: "lbank_rules \<Rightarrow> pyfloat \<Rightarrow> decimal lbank_snapshot \<Rightarrow> string list" where
  "lbank_degraded r age s =
     (if fless age (Fl (-1)) then [''SNAPSHOT_FROM_FUTURE'']
      else if fless (lr_max_age_seconds r) age then [''SNAPSHOT_STALE''] else [])
     @ (if lr_max_latency_ms r < ls_latency_ms s then [''SOURCE_LATENCY_HIGH''] else [])
     @ (if dval (lq_last_price (ls_quote s)) \<le> 0 \<or> dval (lq_marked_price (ls_quote s)) \<le> 0
        then [''PRICE_INVALID''] else [])
     @ (if dval (ls_spread s) \<le> 0 \<or> dval (ls_spread_bps s) \<le> 0 then [''SPREAD_INVALID''] else [])"

definition lbank_pending :: "lbank_rules \<Rightarrow> decimal lbank_snapshot \<Rightarrow> string list" where
  "lbank_pending r s =
     (if dval (ls_spread s) \<le> 0 \<or> dval (ls_spread_bps s) \<le> 0 then []
      else if dval (lr_max_spread_bps r) < dval (ls_spread_bps s) then [''SPREAD_TOO_WIDE''] else [])
     @ (if dval (ls_bid_depth_quote s) < dval (lr_min_bid_depth_quote r) then [''BID_DEPTH_INSUFFICIENT''] else [])
     @ (if dval (ls_ask_depth_quote s) < dval (lr_min_ask_depth_quote r) then [''ASK_DEPTH_INSUFFICIENT''] else [])"

definition validate_lbank_execution ::
  "lbank_rules \<Rightarrow> datetime \<Rightarrow> decimal lbank_snapshot \<Rightarrow> lbank_validation result" where
  "validate_lbank_execution r now s =
     and_then (require_aware ''now'' now) (\<lambda>_.
     and_then (require_aware ''snapshot received_at'' (ls_received_at s)) (\<lambda>_.
     and_then (dt_diff now (ls_received_at s)) (\<lambda>d.
     let age = total_seconds d; degraded = lbank_degraded r age s; pending = lbank_pending r s in
     if degraded \<noteq> [] then Inr \<lparr>lv_symbol = ls_symbol s, lv_status = LB_DATA_DEGRADED,
       lv_age_seconds = age, lv_reasons = degraded @ pending\<rparr>
     else if pending \<noteq> [] then Inr \<lparr>lv_symbol = ls_symbol s, lv_status = LB_EXECUTION_PENDING,
       lv_age_seconds = age, lv_reasons = pending\<rparr>
     else Inr \<lparr>lv_symbol = ls_symbol s, lv_status = LB_OK, lv_age_seconds = age, lv_reasons = []\<rparr>)))"

section \<open>Consensus\<close>

datatype consensus_status = CO_OK | CO_WARNING | CO_EXECUTION_PENDING | CO_DATA_DEGRADED | CO_AVOID

fun consensus_status_value :: "consensus_status \<Rightarrow> string" where
  "consensus_status_value CO_OK = ''OK''"
| "consensus_status_value CO_WARNING = ''WARNING''"
| "consensus_status_value CO_EXECUTION_PENDING = ''EXECUTION_PENDING''"
| "consensus_status_value CO_DATA_DEGRADED = ''DATA_DEGRADED''"
| "consensus_status_value CO_AVOID = ''AVOID''"

record consensus_rules =
  cr_minimum_fresh_sources :: int
  cr_warning_deviation_pct :: decimal
  cr_degraded_deviation_pct :: decimal
  cr_avoid_deviation_pct :: decimal
  cr_max_benchmark_dispersion_pct :: decimal
  cr_benchmark_health :: benchmark_health_rules
  cr_lbank_execution :: lbank_rules

definition ConsensusRules :: "consensus_rules \<Rightarrow> consensus_rules result" where
  "ConsensusRules r =
     (if cr_minimum_fresh_sources r < 1 then Inl (ValueError ''minimum_fresh_sources must be positive'')
      else if \<not> (0 < dval (cr_warning_deviation_pct r) \<and>
          dval (cr_warning_deviation_pct r) < dval (cr_degraded_deviation_pct r) \<and>
          dval (cr_degraded_deviation_pct r) < dval (cr_avoid_deviation_pct r))
        then Inl (ValueError ''deviation thresholds must be positive and increasing'')
      else if dval (cr_max_benchmark_dispersion_pct r) \<le> 0
        then Inl (ValueError ''max_benchmark_dispersion_pct must be positive'')
      else Inr r)"

definition default_consensus_rules :: consensus_rules where
  "default_consensus_rules = \<lparr>cr_minimum_fresh_sources = 2, cr_warning_deviation_pct = dec 20 (-2),
     cr_degraded_deviation_pct = dec 50 (-2), cr_avoid_deviation_pct = dec 100 (-2),
     cr_max_benchmark_dispersion_pct = dec 100 (-2), cr_benchmark_health = default_health_rules,
     cr_lbank_execution = default_lbank_rules\<rparr>"

record source_result =
  sr_source :: benchmark_source
  sr_exchange_symbol :: string
  sr_expected_symbol :: "string option"
  sr_health_state :: "benchmark_health_state option"
  sr_price :: decimal
  sr_included :: bool
  sr_deviation_from_median_pct :: "decimal option"
  sr_reasons :: "string list"

record consensus_report =
  cp_canonical_symbol :: string
  cp_lbank_symbol :: string
  cp_lbank_price :: decimal
  cp_median_benchmark_price :: "decimal option"
  cp_lbank_deviation_pct :: "decimal option"
  cp_benchmark_dispersion_pct :: "decimal option"
  cp_status :: consensus_status
  cp_usable_sources :: nat
  cp_source_results :: "source_result list"
  cp_reasons :: "string list"

definition allows_execution_confirmation :: "consensus_report \<Rightarrow> bool" where
  "allows_execution_confirmation c \<longleftrightarrow> cp_status c \<in> {CO_OK, CO_WARNING}"

definition deviation_pct :: "decimal \<Rightarrow> decimal \<Rightarrow> decimal result" where
  "deviation_pct v reference =
     (if dval reference \<le> 0 then Inl (ValueError ''reference price must be positive'')
      else and_then (ddiv (dabs (dsub v reference)) reference) (\<lambda>q. Inr (dmul q (dec 100 0))))"

definition blocked_source_results ::
  "symbol_map \<Rightarrow> string \<Rightarrow> decimal benchmark_snapshot list \<Rightarrow> source_result list" where
  "blocked_source_results m reason snapshots =
     map (\<lambda>s. \<lparr>sr_source = bs_source s, sr_exchange_symbol = bs_symbol s,
       sr_expected_symbol = expected_symbol m (bs_source s), sr_health_state = None,
       sr_price = bs_last_price s, sr_included = False, sr_deviation_from_median_pct = None,
       sr_reasons = [reason]\<rparr>) snapshots"

definition blocked_report ::
  "decimal lbank_snapshot \<Rightarrow> decimal benchmark_snapshot list \<Rightarrow> symbol_map \<Rightarrow> decimal \<Rightarrow> string \<Rightarrow>
     consensus_report" where
  "blocked_report l snapshots m price reason =
     \<lparr>cp_canonical_symbol = sm_canonical_symbol m, cp_lbank_symbol = ls_symbol l, cp_lbank_price = price,
      cp_median_benchmark_price = None, cp_lbank_deviation_pct = None,
      cp_benchmark_dispersion_pct = None, cp_status = CO_DATA_DEGRADED, cp_usable_sources = 0,
      cp_source_results = blocked_source_results m reason snapshots, cp_reasons = [reason]\<rparr>"

text \<open>One turn of the loop over the snapshots: results, used prices, seen sources.\<close>

type_synonym assessment = "source_result list \<times> decimal list \<times> benchmark_source list"

definition assess_source ::
  "consensus_rules \<Rightarrow> symbol_map \<Rightarrow> datetime \<Rightarrow> assessment \<Rightarrow> decimal benchmark_snapshot \<Rightarrow> assessment result" where
  "assess_source r m now st s = (case st of (preliminary, used, seen) \<Rightarrow>
     let expected = expected_symbol m (bs_source s); dup = bs_source s \<in> set seen;
       seen' = (if dup then seen else bs_source s # seen);
       reasons = (if dup then [''DUPLICATE_SOURCE''] else [])
         @ (case expected of None \<Rightarrow> [''SOURCE_UNMAPPED'']
            | Some e \<Rightarrow> if bs_symbol s \<noteq> e then [''SYMBOL_MISMATCH''] else []) in
     and_then (if reasons = [] then
         and_then (evaluate_benchmark_health (cr_benchmark_health r) now s) (\<lambda>h.
           Inr (Some (hp_state h), health_usable h, if health_usable h then [] else hp_reasons h))
       else Inr (None, False, reasons)) (\<lambda>(health, included, why).
     Inr (preliminary @ [\<lparr>sr_source = bs_source s, sr_exchange_symbol = bs_symbol s,
         sr_expected_symbol = expected, sr_health_state = health, sr_price = bs_last_price s,
         sr_included = included, sr_deviation_from_median_pct = None, sr_reasons = why\<rparr>],
       if included then used @ [bs_last_price s] else used, seen')))"

text \<open>\<open>statistics.median\<close>.\<close>

definition statistics_median :: "decimal list \<Rightarrow> decimal result" where
  "statistics_median xs =
     (let ds = sort_key dval xs; n = length ds in
      if odd n then Inr (ds ! (n div 2))
      else ddiv (dadd (ds ! (n div 2 - 1)) (ds ! (n div 2))) (dec 2 0))"

text \<open>The numbers of lines 213 to 232.\<close>

definition measure_prices ::
  "decimal \<Rightarrow> source_result list \<Rightarrow> decimal list \<Rightarrow>
     (decimal option \<times> decimal option \<times> decimal option \<times> source_result list) result" where
  "measure_prices lbank_price preliminary used = (case used of
       [] \<Rightarrow> Inr (None, None, None, preliminary)
     | p # ps \<Rightarrow>
         and_then (statistics_median used) (\<lambda>mid.
         and_then (deviation_pct lbank_price mid) (\<lambda>dev.
         and_then (ddiv (dsub (max_by dval p ps) (min_by dval p ps)) mid) (\<lambda>q.
         and_then (traverse (\<lambda>x. if sr_included x
             then and_then (deviation_pct (sr_price x) mid) (\<lambda>d.
               Inr (x\<lparr>sr_deviation_from_median_pct := Some d\<rparr>))
             else Inr (x\<lparr>sr_deviation_from_median_pct := None\<rparr>)) preliminary) (\<lambda>results.
         Inr (Some mid, Some dev, Some (dmul q (dec 100 0)), results))))))"

text \<open>The status by the deviation of LBank from the median (lines 300 to 310).\<close>

definition deviation_status :: "consensus_rules \<Rightarrow> decimal \<Rightarrow> consensus_status \<times> string list" where
  "deviation_status r dev =
     (if dval (cr_avoid_deviation_pct r) \<le> dval dev then (CO_AVOID, [''LBANK_DEVIATION_AVOID''])
      else if dval (cr_degraded_deviation_pct r) \<le> dval dev
        then (CO_DATA_DEGRADED, [''LBANK_DEVIATION_DEGRADED''])
      else if dval (cr_warning_deviation_pct r) \<le> dval dev
        then (CO_WARNING, [''LBANK_DEVIATION_WARNING''])
      else (CO_OK, []))"

text \<open>The decision of lines 234 to 310.\<close>

definition consensus_verdict ::
  "consensus_rules \<Rightarrow> lbank_validation \<Rightarrow> nat \<Rightarrow> decimal option \<Rightarrow> decimal option \<Rightarrow>
     (consensus_status \<times> string list) result" where
  "consensus_verdict r v usable dispersion deviation =
     (if lv_status v = LB_EXECUTION_PENDING then Inr (CO_EXECUTION_PENDING, lv_reasons v)
      else if lv_status v = LB_DATA_DEGRADED then Inr (CO_DATA_DEGRADED, lv_reasons v)
      else if int usable < cr_minimum_fresh_sources r
        then Inr (CO_DATA_DEGRADED, [''INSUFFICIENT_FRESH_BENCHMARK_SOURCES''])
      else if (case dispersion of None \<Rightarrow> False
               | Some d \<Rightarrow> dval (cr_max_benchmark_dispersion_pct r) < dval d)
        then Inr (CO_DATA_DEGRADED, [''BENCHMARK_DISPERSION_TOO_HIGH''])
      else case deviation of
        None \<Rightarrow> Inl (ValueError ''median price is required after source validation'')
      | Some dev \<Rightarrow> Inr (deviation_status r dev))"

definition build_cross_exchange_consensus ::
  "consensus_rules \<Rightarrow> datetime \<Rightarrow> symbol_map \<Rightarrow> decimal lbank_snapshot \<Rightarrow>
     decimal benchmark_snapshot list \<Rightarrow> consensus_report result" where
  "build_cross_exchange_consensus r now m l snapshots =
     and_then (require_aware ''now'' now) (\<lambda>_.
     and_then (executable_mid_price l) (\<lambda>price.
     if \<not> sm_reliable m then Inr (blocked_report l snapshots m price ''SYMBOL_MAPPING_UNRELIABLE'')
     else if ls_symbol l \<noteq> sm_lbank_symbol m
       then Inr (blocked_report l snapshots m price ''LBANK_SYMBOL_MISMATCH'')
     else and_then (validate_lbank_execution (cr_lbank_execution r) now l) (\<lambda>v.
     and_then (foldM (assess_source r m now) ([], [], []) snapshots) (\<lambda>(preliminary, used, seen).
     and_then (measure_prices price preliminary used) (\<lambda>(mid, dev, disp, results).
     and_then (consensus_verdict r v (length used) disp dev) (\<lambda>(status, reasons).
     Inr \<lparr>cp_canonical_symbol = sm_canonical_symbol m, cp_lbank_symbol = ls_symbol l,
       cp_lbank_price = price, cp_median_benchmark_price = mid, cp_lbank_deviation_pct = dev,
       cp_benchmark_dispersion_pct = disp, cp_status = status, cp_usable_sources = length used,
       cp_source_results = results, cp_reasons = reasons\<rparr>))))))"

section \<open>Laws\<close>

lemma positive_decimal_Inr [result_simps]: "positive_decimal n v = Inr d \<longleftrightarrow> v = Finite d \<and> 0 < dval d"
  by (cases v) (auto simp: positive_decimal_def check_finite_def)

lemma non_negative_decimal_Inr [result_simps]: "non_negative_decimal n v = Inr d \<longleftrightarrow> v = Finite d \<and> 0 \<le> dval d"
  by (cases v) (auto simp: non_negative_decimal_def check_finite_def)

lemma dt_diff_Inr [result_simps]: "dt_diff a b = Inr d \<longleftrightarrow> aware a = aware b \<and> d = instant a - instant b"
  by (auto simp: dt_diff_def)

definition consensus_rules_wf :: "consensus_rules \<Rightarrow> bool" where
  "consensus_rules_wf r \<longleftrightarrow> 1 \<le> cr_minimum_fresh_sources r \<and> 0 < dval (cr_warning_deviation_pct r) \<and>
     dval (cr_warning_deviation_pct r) < dval (cr_degraded_deviation_pct r) \<and>
     dval (cr_degraded_deviation_pct r) < dval (cr_avoid_deviation_pct r) \<and>
     0 < dval (cr_max_benchmark_dispersion_pct r)"

lemma ConsensusRules_wf: "ConsensusRules r = Inr r' \<longleftrightarrow> r' = r \<and> consensus_rules_wf r"
  by (auto simp: ConsensusRules_def consensus_rules_wf_def)

lemma default_consensus_rules_wf: "consensus_rules_wf default_consensus_rules"
  by (simp add: consensus_rules_wf_def default_consensus_rules_def power_int_minus)

lemma validate_lbank_Inr:
  "validate_lbank_execution r now s = Inr v \<Longrightarrow>
     lv_status v = LB_OK \<longleftrightarrow>
       lbank_degraded r (total_seconds (instant now - instant (ls_received_at s))) s = [] \<and>
       lbank_pending r s = []"
  unfolding validate_lbank_execution_def Let_def by (auto simp: result_simps split: if_splits)

text \<open>What the loop over the snapshots has established about the part it visited.\<close>

definition accepted :: "symbol_map \<Rightarrow> source_result \<Rightarrow> bool" where
  "accepted m x \<longleftrightarrow> sr_expected_symbol x = Some (sr_exchange_symbol x) \<and>
     sr_expected_symbol x = expected_symbol m (sr_source x) \<and> sr_health_state x = Some BH_OK"

definition assessed :: "symbol_map \<Rightarrow> decimal benchmark_snapshot list \<Rightarrow> assessment \<Rightarrow> bool" where
  "assessed m ss st \<longleftrightarrow> (case st of (pre, used, seen) \<Rightarrow>
     map (\<lambda>x. (sr_source x, sr_exchange_symbol x, sr_price x)) pre =
       map (\<lambda>s. (bs_source s, bs_symbol s, bs_last_price s)) ss \<and>
     set seen = bs_source ` set ss \<and> used = map sr_price (filter sr_included pre) \<and>
     distinct (map sr_source (filter sr_included pre)) \<and> (\<forall>x \<in> set pre. sr_included x \<longrightarrow> accepted m x))"

lemma assessed_sources:
  assumes "assessed m ss (pre, used, seen)"
  shows "sr_source ` set pre = bs_source ` set ss"
proof -
  have "map fst (map (\<lambda>x. (sr_source x, sr_exchange_symbol x, sr_price x)) pre) =
      map fst (map (\<lambda>s. (bs_source s, bs_symbol s, bs_last_price s)) ss)"
    using assms by (simp only: assessed_def split)
  then have "map sr_source pre = map bs_source ss" by (simp add: comp_def)
  then show ?thesis by (metis set_map)
qed

lemma assess_step:
  assumes "assessed m ss (pre, used, seen)" "assess_source r m now (pre, used, seen) s = Inr st"
  shows "assessed m (ss @ [s]) st"
proof -
  let ?dup = "bs_source s \<in> set seen"
  obtain health included why where h:
    "(if ?dup \<or> expected_symbol m (bs_source s) \<noteq> Some (bs_symbol s) then included = False
      else health = Some BH_OK \<longleftrightarrow> included)"
    "st = (pre @ [\<lparr>sr_source = bs_source s, sr_exchange_symbol = bs_symbol s,
         sr_expected_symbol = expected_symbol m (bs_source s), sr_health_state = health,
         sr_price = bs_last_price s, sr_included = included, sr_deviation_from_median_pct = None,
         sr_reasons = why\<rparr>], if included then used @ [bs_last_price s] else used,
         if ?dup then seen else bs_source s # seen)"
    using assms(2) unfolding assess_source_def Let_def
    by (auto simp: result_simps health_usable_def split: if_splits option.splits)
  have "bs_source s \<notin> set (map sr_source (filter sr_included pre))" if "\<not> ?dup"
    using that assessed_sources [OF assms(1)] assms(1) by (auto simp: assessed_def)
  then show ?thesis
    using assms(1) h(1) unfolding h(2) assessed_def
    by (cases ?dup; cases included) (auto simp: accepted_def split: if_splits)
qed

lemma assess_all:
  assumes "foldM (assess_source r m now) ([], [], []) ss = Inr st"
  shows "assessed m ss st"
proof (rule foldM_invariant [OF assms])
  show "assessed m [] ([], [], [])" by (simp add: assessed_def)
  show "assessed m (ys @ [x]) v" if "assessed m ys u" "assess_source r m now u x = Inr v" for ys x u v
    using that assess_step by (cases u) blast
qed

text \<open>Measuring the prices fills in the deviations and changes nothing else.\<close>

definition plain :: "source_result \<Rightarrow> source_result" where
  "plain x = x\<lparr>sr_deviation_from_median_pct := None\<rparr>"

lemma plain_sel [simp]:
  "sr_source (plain x) = sr_source x" "sr_included (plain x) = sr_included x"
  "sr_exchange_symbol (plain x) = sr_exchange_symbol x" "sr_expected_symbol (plain x) = sr_expected_symbol x"
  "sr_health_state (plain x) = sr_health_state x" "accepted m (plain x) = accepted m x"
  by (simp_all add: plain_def accepted_def)

lemma traverse_map:
  assumes "traverse f xs = Inr ys" "\<And>x y. f x = Inr y \<Longrightarrow> g y = g x"
  shows "map g ys = map g xs"
  using assms(1) by (induction xs arbitrary: ys) (auto simp: result_simps assms(2))

lemma measure_plain:
  assumes "measure_prices price pre used = Inr (mid, dev, disp, results)"
  shows "map plain results = map plain pre"
  using assms unfolding measure_prices_def
  by (auto simp: result_simps plain_def split: list.splits if_splits intro!: traverse_map)

definition sources_ok :: "symbol_map \<Rightarrow> nat \<Rightarrow> source_result list \<Rightarrow> bool" where
  "sources_ok m n xs \<longleftrightarrow>
     n = length (filter sr_included xs) \<and> distinct (map sr_source (filter sr_included xs)) \<and>
     (\<forall>x \<in> set xs. sr_included x \<longrightarrow> accepted m x)"

lemma sources_ok_plain: "sources_ok m n (map plain xs) = sources_ok m n xs"
  by (simp add: sources_ok_def filter_map comp_def)

lemma assessed_sources_ok: "assessed m ss (pre, used, seen) \<Longrightarrow> sources_ok m (length used) pre"
  by (auto simp: assessed_def sources_ok_def)

lemma consensus_Inr:
  assumes "build_cross_exchange_consensus r now m l ss = Inr c"
  obtains (blocked) price reason where "c = blocked_report l ss m price reason" "\<not> (sm_reliable m \<and> ls_symbol l = sm_lbank_symbol m)"
  | (assessed) price v pre used seen mid dev disp results status reasons where
    "sm_reliable m" "ls_symbol l = sm_lbank_symbol m" "executable_mid_price l = Inr price"
    "validate_lbank_execution (cr_lbank_execution r) now l = Inr v" "assessed m ss (pre, used, seen)"
    "measure_prices price pre used = Inr (mid, dev, disp, results)"
    "consensus_verdict r v (length used) disp dev = Inr (status, reasons)"
    "c = \<lparr>cp_canonical_symbol = sm_canonical_symbol m, cp_lbank_symbol = ls_symbol l,
       cp_lbank_price = price, cp_median_benchmark_price = mid, cp_lbank_deviation_pct = dev,
       cp_benchmark_dispersion_pct = disp, cp_status = status, cp_usable_sources = length used,
       cp_source_results = results, cp_reasons = reasons\<rparr>"
proof (cases "sm_reliable m \<and> ls_symbol l = sm_lbank_symbol m")
  case False
  with assms blocked show thesis
    unfolding build_cross_exchange_consensus_def by (auto simp: result_simps split: if_splits)
next
  case True
  with assms assessed assess_all show thesis
    unfolding build_cross_exchange_consensus_def by (fastforce simp: result_simps)
qed

lemma measure_cases:
  assumes "measure_prices price pre used = Inr (mid, dev, disp, results)"
  shows "used = [] \<and> dev = None \<and> disp = None \<or>
    used \<noteq> [] \<and> (\<exists>m d p. mid = Some m \<and> dev = Some d \<and> disp = Some p \<and> statistics_median used = Inr m \<and>
      deviation_pct price m = Inr d)"
  using assms unfolding measure_prices_def by (auto simp: result_simps split: list.splits)

lemma verdict_allows:
  assumes "consensus_rules_wf r" "consensus_verdict r v n disp dev = Inr (status, reasons)"
    "n = 0 \<and> disp = None \<and> dev = None \<or> n \<noteq> 0 \<and> disp \<noteq> None \<and> dev \<noteq> None"
  shows "status \<in> {CO_OK, CO_WARNING} \<longleftrightarrow> lv_status v = LB_OK \<and> cr_minimum_fresh_sources r \<le> int n \<and>
    (\<exists>p d. disp = Some p \<and> dev = Some d \<and> dval p \<le> dval (cr_max_benchmark_dispersion_pct r) \<and>
      dval d < dval (cr_degraded_deviation_pct r))"
  using assms(1,2,3) unfolding consensus_verdict_def deviation_status_def consensus_rules_wf_def
  by (cases "lv_status v"; cases disp; cases dev) (auto split: if_splits)

text \<open>
  C4: \<open>build_cross_exchange_consensus\<close> confirms execution exactly when the symbol map is reliable and names
  the LBank symbol, LBank itself passes validation, enough fresh sources remain, their prices do
  not disperse beyond the limit, and LBank's mid price deviates from their median by less than
  the degradation threshold.
\<close>

theorem consensus_allows_iff:
  assumes "build_cross_exchange_consensus r now m l ss = Inr c" "consensus_rules_wf r"
  shows "allows_execution_confirmation c \<longleftrightarrow>
    sm_reliable m \<and> ls_symbol l = sm_lbank_symbol m \<and>
    (\<exists>v. validate_lbank_execution (cr_lbank_execution r) now l = Inr v \<and> is_executable v) \<and>
    cr_minimum_fresh_sources r \<le> int (cp_usable_sources c) \<and>
    (\<exists>p d. cp_benchmark_dispersion_pct c = Some p \<and> cp_lbank_deviation_pct c = Some d \<and>
      dval p \<le> dval (cr_max_benchmark_dispersion_pct r) \<and> dval d < dval (cr_degraded_deviation_pct r))"
  using assms(1)
proof (cases rule: consensus_Inr)
  case blocked
  then show ?thesis by (auto simp: allows_execution_confirmation_def blocked_report_def)
next
  case (assessed price v pre used seen mid dev disp results status reasons)
  have "length used = 0 \<and> disp = None \<and> dev = None \<or> length used \<noteq> 0 \<and> disp \<noteq> None \<and> dev \<noteq> None"
    using measure_cases [OF assessed(6)] by auto
  from verdict_allows [OF assms(2) assessed(7) this] assessed show ?thesis
    by (simp add: allows_execution_confirmation_def is_executable_def)
qed

text \<open>
  C35: the sources a consensus counts are sound: every included result is a different exchange whose
  symbol is the mapped one and whose snapshot is healthy, and \<open>usable_sources\<close> is their number; a
  duplicated, unmapped, mislabelled or stale source never contributes a price.
\<close>

theorem consensus_sources_sound:
  assumes "build_cross_exchange_consensus r now m l ss = Inr c"
  shows "cp_usable_sources c = length (filter sr_included (cp_source_results c)) \<and>
    distinct (map sr_source (filter sr_included (cp_source_results c))) \<and>
    (\<forall>x \<in> set (cp_source_results c). sr_included x \<longrightarrow>
      sr_expected_symbol x = Some (sr_exchange_symbol x) \<and>
      sr_expected_symbol x = expected_symbol m (sr_source x) \<and> sr_health_state x = Some BH_OK)"
  using assms
proof (cases rule: consensus_Inr)
  case blocked
  then show ?thesis by (auto simp: blocked_report_def blocked_source_results_def filter_map comp_def)
next
  case (assessed price v pre used seen mid dev disp results status reasons)
  have "sources_ok m (length used) results"
    using measure_plain [OF assessed(6)] assessed_sources_ok [OF assessed(5)] sources_ok_plain by metis
  then show ?thesis using assessed(8) by (auto simp: sources_ok_def accepted_def)
qed

section \<open>Totality\<close>

definition snapshot_ok :: "decimal benchmark_snapshot \<Rightarrow> bool" where
  "snapshot_ok s \<longleftrightarrow> aware (bs_received_at s) \<and> (\<forall>t. bs_source_timestamp s = Some t \<longrightarrow> aware t) \<and>
     1 / 10 ^ 20 \<le> dval (bs_last_price s)"

lemma health_total:
  assumes "snapshot_ok s" "aware now"
  shows "\<exists>h. evaluate_benchmark_health r now s = Inr h"
proof -
  have "\<exists>a. (case bs_source_timestamp s of None \<Rightarrow> Inr None
       | Some t \<Rightarrow> and_then (dt_diff now t) (\<lambda>d. Inr (Some (total_seconds d)))) = Inr a"
    using assms by (auto simp: snapshot_ok_def dt_diff_def split: option.split)
  then show ?thesis using assms
    by (auto simp: evaluate_benchmark_health_def snapshot_ok_def require_aware_def dt_diff_def Let_def)
qed

lemma assess_total:
  assumes "\<forall>s \<in> set ss. snapshot_ok s" "aware now"
  shows "\<exists>st. foldM (assess_source r m now) ([], [], []) ss = Inr st"
proof -
  have "\<exists>v. assess_source r m now u s = Inr v" if s: "snapshot_ok s" for u s
  proof -
    obtain h where "evaluate_benchmark_health (cr_benchmark_health r) now s = Inr h"
      using health_total [OF s assms(2)] by blast
    then show ?thesis by (cases u) (simp add: assess_source_def Let_def)
  qed
  then show ?thesis using foldM_succeeds [of "\<lambda>_ _. True" _ ss "assess_source r m now"] assms(1) by auto
qed

lemma median_ge:
  assumes "xs \<noteq> []" "\<forall>x \<in> set xs. 1 / 10 ^ 20 \<le> dval x"
  shows "\<exists>m. statistics_median xs = Inr m \<and> 1 / 10 ^ 20 \<le> dval m"
proof -
  let ?ds = "sort_key dval xs"
  let ?a = "?ds ! (length ?ds div 2 - 1)" and ?b = "?ds ! (length ?ds div 2)"
  have in_set: "?ds ! i \<in> set xs" if "i < length xs" for i
    using that nth_mem [of i ?ds] by simp
  have ab: "1 / 10 ^ 20 \<le> dval ?a" "1 / 10 ^ 20 \<le> dval ?b"
    using in_set assms by (simp_all add: less_imp_diff_less)
  have r: "dec_round (1 / 10 ^ 20) = 1 / 10 ^ 20" "dec_round (2 / 10 ^ 20) = 2 / 10 ^ 20"
    using dec_round_exact [of 1 "-20"] dec_round_exact [of 2 "-20"]
    by (simp_all add: power_int_minus inverse_eq_divide)
  obtain q where q: "ddiv (dadd ?a ?b) (dec 2 0) = Inr q" "dval q = dec_round (dval (dadd ?a ?b) / 2)"
    using ddiv_succeeds [of "dec 2 0" "dadd ?a ?b"] by auto
  have "2 / 10 ^ 20 \<le> dval (dadd ?a ?b)" unfolding dval_dadd using ab by (intro dec.R_ge r(2)) simp
  then have "1 / 10 ^ 20 \<le> dval q" unfolding q(2) by (intro dec.R_ge r(1)) simp
  with q(1) ab show ?thesis by (auto simp: statistics_median_def Let_def)
qed

lemma deviation_pct_total: "0 < dval m \<Longrightarrow> \<exists>d. deviation_pct v m = Inr d"
  using ddiv_succeeds [of m "dabs (dsub v m)"] by (auto simp: deviation_pct_def)

lemma measure_total:
  assumes "\<forall>x \<in> set used. 1 / 10 ^ 20 \<le> dval x"
  shows "\<exists>mid dev disp results. measure_prices price pre used = Inr (mid, dev, disp, results)"
proof (cases used)
  case Nil
  then show ?thesis by (simp add: measure_prices_def)
next
  case (Cons p ps)
  then obtain m where m: "statistics_median (p # ps) = Inr m" "1 / 10 ^ 20 \<le> dval m"
    using median_ge [of used] assms by auto
  then have pos: "0 < dval m" by (meson less_le_trans zero_less_divide_1_iff zero_less_numeral zero_less_power)
  obtain dev where dev: "deviation_pct price m = Inr dev" using deviation_pct_total [OF pos] by blast
  obtain q where q: "ddiv (dsub (max_by dval p ps) (min_by dval p ps)) m = Inr q"
    using ddiv_succeeds [of m "dsub (max_by dval p ps) (min_by dval p ps)"] pos by auto
  have "succeeds (traverse (\<lambda>x. if sr_included x
        then and_then (deviation_pct (sr_price x) m) (\<lambda>d. Inr (x\<lparr>sr_deviation_from_median_pct := Some d\<rparr>))
        else Inr (x\<lparr>sr_deviation_from_median_pct := None\<rparr>)) pre)"
    unfolding traverse_succeeds_iff using deviation_pct_total [OF pos] by (auto simp: succeeds_iff result_simps)
  then show ?thesis using Cons m(1) dev q by (auto simp: measure_prices_def succeeds_iff)
qed

lemma validate_lbank_total:
  assumes "aware now" "aware (ls_received_at s)"
  shows "\<exists>v. validate_lbank_execution r now s = Inr v"
  using assms by (simp add: validate_lbank_execution_def require_aware_def dt_diff_def Let_def)

lemma consensus_total:
  assumes "consensus_rules_wf r" "aware now" "aware (ls_received_at l)" "\<forall>s \<in> set ss. snapshot_ok s"
  shows "\<exists>c. build_cross_exchange_consensus r now m l ss = Inr c"
proof -
  obtain price where price: "executable_mid_price l = Inr price"
    using ddiv_succeeds [of "dec 2 0"] by (force simp: executable_mid_price_def)
  obtain v where v: "validate_lbank_execution (cr_lbank_execution r) now l = Inr v"
    using validate_lbank_total [OF assms(2,3)] by blast
  obtain pre used seen where st: "foldM (assess_source r m now) ([], [], []) ss = Inr (pre, used, seen)"
    using assess_total [OF assms(4,2)] by force
  from assess_all [OF st] have a: "map (\<lambda>x. (sr_source x, sr_exchange_symbol x, sr_price x)) pre =
       map (\<lambda>s. (bs_source s, bs_symbol s, bs_last_price s)) ss" "used = map sr_price (filter sr_included pre)"
    by (auto simp: assessed_def)
  from a(1) have "sr_price ` set pre = bs_last_price ` set ss"
    by (metis (no_types, lifting) image_image list.set_map snd_conv set_map image_cong)
  moreover have "set used \<subseteq> sr_price ` set pre" using a(2) by auto
  ultimately have "set used \<subseteq> bs_last_price ` set ss" by simp
  then have "\<forall>x \<in> set used. 1 / 10 ^ 20 \<le> dval x" using assms(4) by (fastforce simp: snapshot_ok_def)
  then obtain mid dev disp results where m: "measure_prices price pre used = Inr (mid, dev, disp, results)"
    using measure_total by blast
  have "\<exists>status reasons. consensus_verdict r v (length used) disp dev = Inr (status, reasons)"
    using measure_cases [OF m] assms(1)
    by (auto simp: consensus_verdict_def consensus_rules_wf_def deviation_status_def)
  with price v st m show ?thesis using assms(2)
    by (auto simp: build_cross_exchange_consensus_def require_aware_def)
qed

text \<open>
  with valid rules, aware times and positive benchmark prices the consensus always returns a report:
  no division by zero and no missing median.
\<close>

theorem consensus_never_raises:
  assumes "consensus_rules_wf r" "aware now" "aware (ls_received_at l)" "\<forall>s \<in> set ss. snapshot_ok s"
  shows "\<exists>c. build_cross_exchange_consensus r now m l ss = Inr c"
  by (rule consensus_total [OF assms])

section \<open>Sample market\<close>

definition sample_now :: datetime where
  "sample_now = DateTime 63903340800000000 (Some 0)"

definition sample_level :: "int \<Rightarrow> decimal lbank_level" where
  "sample_level p = \<lparr>ll_price = dec p (-2), ll_volume = dec 500 0, ll_orders = None\<rparr>"

definition sample_lbank :: "decimal lbank_snapshot" where
  "sample_lbank = \<lparr>ls_source = ''LBANK'', ls_product_group = ''SwapU'', ls_symbol = ''ABCUSDT'',
     ls_received_at = sample_now, ls_latency_ms = 120,
     ls_instrument = \<lparr>li_symbol = ''ABCUSDT'', li_base_currency = ''ABC'', li_price_currency = ''USDT'',
       li_clear_currency = ''USDT'', li_price_tick = dec 1 (-2), li_volume_tick = dec 1 0,
       li_volume_multiple = dec 1 0, li_min_order_volume = None, li_min_order_cost = None\<rparr>,
     ls_quote = \<lparr>lq_symbol = ''ABCUSDT'', lq_last_price = dec 100 0, lq_marked_price = dec 100 0,
       lq_funding_rate = None, lq_volume_24h = None, lq_turnover_24h = None\<rparr>,
     ls_order_book = \<lparr>lb_symbol = ''ABCUSDT'', lb_bids = [sample_level 9999], lb_asks = [sample_level 10001]\<rparr>,
     ls_spread = dec 2 (-2), ls_spread_bps = dec 2 0, ls_bid_depth_quote = dec 49995 0,
     ls_ask_depth_quote = dec 50005 0\<rparr>"

definition sample_benchmark :: "benchmark_source \<Rightarrow> decimal benchmark_snapshot" where
  "sample_benchmark src = \<lparr>bs_source = src, bs_role = BENCHMARK_ONLY, bs_symbol = ''ABCUSDT'',
     bs_received_at = sample_now, bs_latency_ms = 80, bs_source_timestamp = Some sample_now,
     bs_last_price = dec 100 0, bs_mark_price = None, bs_index_price = None, bs_funding_rate = None,
     bs_open_interest = None, bs_best_bid = dec 9999 (-2), bs_best_ask = dec 10001 (-2),
     bs_spread = dec 2 (-2), bs_spread_bps = dec 2 0, bs_bid_depth_quote = dec 50000 0,
     bs_ask_depth_quote = dec 50000 0\<rparr>"

definition sample_map :: symbol_map where
  "sample_map = \<lparr>sm_canonical_symbol = ''ABC'', sm_lbank_symbol = ''ABCUSDT'',
     sm_benchmark_symbols = [(BYBIT, ''ABCUSDT''), (MEXC, ''ABCUSDT''), (GATE, ''ABCUSDT'')], sm_reliable = True\<rparr>"

text \<open>The duplicate snapshot of MEXC is not counted.\<close>

definition sample_benchmarks :: "decimal benchmark_snapshot list" where
  "sample_benchmarks = map sample_benchmark [BYBIT, MEXC, MEXC, GATE]"

abbreviation sample_consensus :: "consensus_report result" where
  "sample_consensus \<equiv> build_cross_exchange_consensus default_consensus_rules sample_now sample_map sample_lbank sample_benchmarks"

lemma total_seconds_0: "total_seconds 0 = Fl 0"
  by (simp add: total_seconds_def to_float_def f64_max_def)

lemma sample_lbank_ok:
  "validate_lbank_execution default_lbank_rules sample_now sample_lbank =
     Inr \<lparr>lv_symbol = ''ABCUSDT'', lv_status = LB_OK, lv_age_seconds = Fl 0, lv_reasons = []\<rparr>"
  by (simp add: validate_lbank_execution_def sample_lbank_def sample_now_def require_aware_def aware_def dt_diff_def
      total_seconds_0 lbank_degraded_def lbank_pending_def default_lbank_rules_def power_int_minus)

lemma sample_health: "evaluate_benchmark_health default_health_rules sample_now (sample_benchmark s) =
    Inr \<lparr>hp_source = s, hp_symbol = ''ABCUSDT'', hp_state = BH_OK, hp_receive_age_seconds = Fl 0,
      hp_source_age_seconds = Some (Fl 0), hp_reasons = []\<rparr>"
  by (simp add: evaluate_benchmark_health_def sample_benchmark_def sample_now_def require_aware_def aware_def dt_diff_def
      total_seconds_0 default_health_rules_def Let_def)

lemma sample_benchmark_sel [simp]:
  "bs_source (sample_benchmark s) = s" "bs_symbol (sample_benchmark s) = ''ABCUSDT''"
  "bs_last_price (sample_benchmark s) = dec 100 0"
  by (simp_all add: sample_benchmark_def)

lemma sample_total: "\<exists>c. sample_consensus = Inr c"
  by (rule consensus_total [OF default_consensus_rules_wf])
    (simp_all add: sample_now_def aware_def sample_lbank_def sample_benchmarks_def sample_benchmark_def snapshot_ok_def)

lemma sample_assessed:
  "\<exists>pre seen. foldM (assess_source default_consensus_rules sample_map sample_now) ([], [], []) sample_benchmarks =
     Inr (pre, [dec 100 0, dec 100 0, dec 100 0], seen)"
  by (simp add: sample_benchmarks_def assess_source_def default_consensus_rules_def health_usable_def
      sample_map_def expected_symbol_def sample_health Let_def)

lemma sample_measures:
  assumes "dval price = 100" "measure_prices price pre [dec 100 0, dec 100 0, dec 100 0] = Inr (mid, dev, disp, results)"
  shows "\<exists>d p. dev = Some d \<and> disp = Some p \<and> dval d = 0 \<and> dval p = 0"
proof -
  have "statistics_median [dec 100 0, dec 100 0, dec 100 0] = Inr (dec 100 0)"
    by (simp add: statistics_median_def Let_def)
  then obtain d q where "deviation_pct price (dec 100 0) = Inr d" "dev = Some d"
    "ddiv (dsub (dec 100 0) (dec 100 0)) (dec 100 0) = Inr q" "disp = Some (dmul q (dec 100 0))"
    using assms(2) by (auto simp: measure_prices_def result_simps)
  moreover from this assms(1) have "dval d = 0" "dval q = 0"
    by (auto simp: deviation_pct_def result_simps dval_dmul dval_dabs dval_dsub dest!: ddiv_Inr)
  ultimately show ?thesis by (simp add: dval_dmul)
qed

lemma sample_confirmed: "\<exists>c. sample_consensus = Inr c \<and> cp_status c = CO_OK"
proof -
  obtain price where price: "executable_mid_price sample_lbank = Inr price" "dval price = 100"
    using ddiv_succeeds [of "dec 2 0" "dadd (dec 9999 (-2)) (dec 10001 (-2))"]
    by (auto simp: executable_mid_price_def sample_lbank_def best_bid_def best_ask_def sample_level_def dval_dadd
        power_int_minus)
  obtain pre seen where st: "foldM (assess_source default_consensus_rules sample_map sample_now) ([], [], []) sample_benchmarks =
     Inr (pre, [dec 100 0, dec 100 0, dec 100 0], seen)" using sample_assessed by blast
  obtain mid dev disp results where
    m: "measure_prices price pre [dec 100 0, dec 100 0, dec 100 0] = Inr (mid, dev, disp, results)"
    using measure_total [of "[dec 100 0, dec 100 0, dec 100 0]" price pre] by auto
  obtain d p where "dev = Some d" "disp = Some p" "dval d = 0" "dval p = 0"
    using sample_measures [OF price(2) m] by blast
  then have "consensus_verdict default_consensus_rules
      \<lparr>lv_symbol = ''ABCUSDT'', lv_status = LB_OK, lv_age_seconds = Fl 0, lv_reasons = []\<rparr>
      (length [dec 100 0, dec 100 0, dec 100 0]) disp dev = Inr (CO_OK, [])"
    by (simp add: consensus_verdict_def default_consensus_rules_def deviation_status_def power_int_minus)
  moreover have "sm_reliable sample_map" "ls_symbol sample_lbank = sm_lbank_symbol sample_map" "aware sample_now"
    "cr_lbank_execution default_consensus_rules = default_lbank_rules"
    by (simp_all add: sample_map_def sample_lbank_def sample_now_def aware_def default_consensus_rules_def)
  ultimately show ?thesis using price(1) st m
    by (simp add: build_cross_exchange_consensus_def require_aware_def sample_lbank_ok)
qed

theorem consensus_allows_iff_witness:
  "\<exists>c. sample_consensus = Inr c \<and> allows_execution_confirmation c \<and> 2 \<le> int (cp_usable_sources c)"
proof -
  obtain c where c: "sample_consensus = Inr c" "allows_execution_confirmation c"
    using sample_confirmed by (auto simp: allows_execution_confirmation_def)
  moreover have "cr_minimum_fresh_sources default_consensus_rules = 2" by (simp add: default_consensus_rules_def)
  ultimately show ?thesis using consensus_allows_iff [OF c(1) default_consensus_rules_wf] by auto
qed

theorem consensus_sources_sound_witness:
  "\<exists>c. sample_consensus = Inr c \<and> distinct (map sr_source (filter sr_included (cp_source_results c)))"
  using sample_total consensus_sources_sound by blast

theorem consensus_never_raises_witness: "\<exists>c. sample_consensus = Inr c"
  by (rule consensus_never_raises [OF default_consensus_rules_wf])
    (simp_all add: sample_now_def aware_def sample_lbank_def sample_benchmarks_def sample_benchmark_def snapshot_ok_def)

end
