(* ===== verification/Lifecycle.thy ===== *)
theory Lifecycle
  imports Planning
begin

text \<open>
  \<^verbatim>\<open>app/lifecycle\<close>: the life of a plan. \<open>lifecycle_step\<close> is the state machine the four operations
  implement; a record is \<open>PENDING\<close> or \<open>ACTIVE\<close> until it expires or is closed, and stays so.
\<close>

section \<open>Records and operations\<close>

datatype lifecycle_state = LS_PENDING | LS_ACTIVE | LS_EXPIRED | LS_CLOSED

fun lifecycle_state_value :: "lifecycle_state \<Rightarrow> string" where
  "lifecycle_state_value LS_PENDING = ''PENDING''"
| "lifecycle_state_value LS_ACTIVE = ''ACTIVE''"
| "lifecycle_state_value LS_EXPIRED = ''EXPIRED''"
| "lifecycle_state_value LS_CLOSED = ''CLOSED''"

record lifecycle_record =
  lc_symbol :: string
  lc_state :: lifecycle_state
  lc_created_at :: datetime
  lc_updated_at :: datetime
  lc_expires_at :: datetime
  lc_closed_at :: "datetime option"
  lc_notes :: "string list"

definition is_terminal :: "lifecycle_record \<Rightarrow> bool" where
  "is_terminal r \<longleftrightarrow> lc_state r \<in> {LS_EXPIRED, LS_CLOSED}"

definition require_forward_time :: "lifecycle_record \<Rightarrow> datetime \<Rightarrow> unit result" where
  "require_forward_time r now =
     and_then (require_aware ''now'' now) (\<lambda>_.
     and_then (dt_less now (lc_updated_at r)) (\<lambda>back.
     if back then Inl (ValueError ''time cannot move backwards'') else Inr ()))"

definition create_lifecycle :: "plan_draft \<Rightarrow> datetime \<Rightarrow> int \<Rightarrow> lifecycle_record result" where
  "create_lifecycle p now ttl_minutes =
     and_then (require_aware ''now'' now) (\<lambda>_.
     if ttl_minutes \<le> 0 then Inl (ValueError ''ttl_minutes must be positive'')
     else let state = (if pd_status p = PLAN_READY then LS_ACTIVE else LS_PENDING);
            note = (if state = LS_ACTIVE then ''ready plan activated'' else ''held plan pending'') in
     and_then (dt_add now (ttl_minutes * minute_us)) (\<lambda>expires.
     Inr \<lparr>lc_symbol = pd_symbol p, lc_state = state, lc_created_at = now, lc_updated_at = now,
       lc_expires_at = expires, lc_closed_at = None, lc_notes = [note]\<rparr>))"

definition advance_lifecycle :: "lifecycle_record \<Rightarrow> datetime \<Rightarrow> lifecycle_record result" where
  "advance_lifecycle r now =
     and_then (require_forward_time r now) (\<lambda>_.
     if is_terminal r then Inr r
     else and_then (dt_less now (lc_expires_at r)) (\<lambda>early.
     if early then Inr r
     else Inr (r\<lparr>lc_state := LS_EXPIRED, lc_updated_at := now, lc_notes := lc_notes r @ [''expired'']\<rparr>)))"

definition activate_lifecycle :: "lifecycle_record \<Rightarrow> datetime \<Rightarrow> lifecycle_record result" where
  "activate_lifecycle r now =
     and_then (require_forward_time r now) (\<lambda>_.
     if is_terminal r \<or> lc_state r = LS_ACTIVE then Inr r
     else and_then (dt_less now (lc_expires_at r)) (\<lambda>early.
     if \<not> early then advance_lifecycle r now
     else Inr (r\<lparr>lc_state := LS_ACTIVE, lc_updated_at := now, lc_notes := lc_notes r @ [''activated'']\<rparr>)))"

definition close_lifecycle :: "lifecycle_record \<Rightarrow> datetime \<Rightarrow> string \<Rightarrow> lifecycle_record result" where
  "close_lifecycle r now note =
     and_then (require_forward_time r now) (\<lambda>_.
     if is_terminal r then Inr r
     else let normalized = (if strip note = '''' then ''closed'' else strip note) in
     Inr (r\<lparr>lc_state := LS_CLOSED, lc_updated_at := now, lc_closed_at := Some now,
       lc_notes := lc_notes r @ [normalized]\<rparr>))"

section \<open>The state machine\<close>

text \<open>What may happen to a record at time \<open>now\<close>.\<close>

inductive lifecycle_step :: "datetime \<Rightarrow> lifecycle_record \<Rightarrow> lifecycle_record \<Rightarrow> bool" for now where
  stay: "lifecycle_step now r r"
| activate: "lc_state r = LS_PENDING \<Longrightarrow> instant now < instant (lc_expires_at r) \<Longrightarrow>
    lifecycle_step now r (r\<lparr>lc_state := LS_ACTIVE, lc_updated_at := now, lc_notes := lc_notes r @ [n]\<rparr>)"
| expire: "\<not> is_terminal r \<Longrightarrow> instant (lc_expires_at r) \<le> instant now \<Longrightarrow>
    lifecycle_step now r (r\<lparr>lc_state := LS_EXPIRED, lc_updated_at := now, lc_notes := lc_notes r @ [n]\<rparr>)"
| close: "\<not> is_terminal r \<Longrightarrow>
    lifecycle_step now r (r\<lparr>lc_state := LS_CLOSED, lc_updated_at := now, lc_closed_at := Some now,
      lc_notes := lc_notes r @ [n]\<rparr>)"

inductive_cases lifecycle_stepE: "lifecycle_step now r r'"

datatype lifecycle_op = Advance | Activate | Close string

fun lifecycle_apply :: "lifecycle_record \<Rightarrow> lifecycle_op \<times> datetime \<Rightarrow> lifecycle_record result" where
  "lifecycle_apply r (Advance, now) = advance_lifecycle r now"
| "lifecycle_apply r (Activate, now) = activate_lifecycle r now"
| "lifecycle_apply r (Close note, now) = close_lifecycle r now note"

lemmas dt_less_Inr [result_simps] = dt_less_value

lemma require_forward_time_Inr [result_simps]:
  "require_forward_time r now = Inr u \<longleftrightarrow>
     aware now \<and> aware (lc_updated_at r) \<and> instant (lc_updated_at r) \<le> instant now"
  by (auto simp: require_forward_time_def result_simps not_less split: if_splits)

lemma not_terminal_cases: "\<not> is_terminal r \<Longrightarrow> lc_state r = LS_PENDING \<or> lc_state r = LS_ACTIVE"
  by (cases "lc_state r") (auto simp: is_terminal_def)

lemma advance_step: "advance_lifecycle r now = Inr r' \<Longrightarrow> lifecycle_step now r r'"
  unfolding advance_lifecycle_def
  by (auto simp: result_simps not_less intro: lifecycle_step.intros split: if_splits)

lemma apply_step:
  assumes "lifecycle_apply r (opr, now) = Inr r'"
  shows "lifecycle_step now r r' \<and> aware now \<and> instant (lc_updated_at r) \<le> instant now"
proof (cases opr)
  case Advance
  then show ?thesis using assms advance_step by (auto simp: advance_lifecycle_def result_simps)
next
  case Activate
  then have "activate_lifecycle r now = Inr r'" using assms by simp
  then show ?thesis unfolding activate_lifecycle_def
    by (auto simp: result_simps not_less intro: lifecycle_step.intros advance_step
        dest: not_terminal_cases split: if_splits)
next
  case (Close s)
  then show ?thesis using assms
    by (auto simp: close_lifecycle_def result_simps Let_def intro: lifecycle_step.close lifecycle_step.stay
        split: if_splits)
qed

text \<open>The invariant of a record made by \<open>create_lifecycle\<close>.\<close>

definition lifecycle_wf :: "lifecycle_record \<Rightarrow> bool" where
  "lifecycle_wf r \<longleftrightarrow>
     aware (lc_updated_at r) \<and> aware (lc_expires_at r) \<and>
     instant (lc_created_at r) \<le> instant (lc_updated_at r) \<and>
     instant (lc_created_at r) < instant (lc_expires_at r) \<and>
     (lc_state r = LS_EXPIRED \<longrightarrow> instant (lc_expires_at r) \<le> instant (lc_updated_at r)) \<and>
     (lc_closed_at r = (if lc_state r = LS_CLOSED then Some (lc_updated_at r) else None))"

lemma create_wf:
  assumes "create_lifecycle p now ttl = Inr r"
  shows "lifecycle_wf r" "lc_created_at r = now" "instant (lc_expires_at r) = instant now + ttl * minute_us"
    "lc_state r = (if pd_status p = PLAN_READY then LS_ACTIVE else LS_PENDING)" "lc_symbol r = pd_symbol p"
    "0 < ttl"
  using assms unfolding create_lifecycle_def Let_def lifecycle_wf_def
  by (auto simp: result_simps minute_us_def instant_def aware_def split: if_splits)

lemma step_keeps:
  assumes "lifecycle_step now r r'" "lifecycle_wf r" "aware now" "instant (lc_updated_at r) \<le> instant now"
  shows "lifecycle_wf r'" "lc_symbol r' = lc_symbol r" "lc_created_at r' = lc_created_at r"
    "lc_expires_at r' = lc_expires_at r" "instant (lc_updated_at r) \<le> instant (lc_updated_at r')"
    "is_terminal r \<Longrightarrow> r' = r" "\<exists>ns. lc_notes r' = lc_notes r @ ns"
  using assms(1)
  by (cases rule: lifecycle_step.cases; use assms(2-4) in \<open>force simp: lifecycle_wf_def is_terminal_def\<close>)+

section \<open>Runs\<close>

text \<open>
  A run applies a sequence of operations, each at its own time. \<open>lifecycle_reach\<close> is reachability in
  the state machine through steps whose times do not go back.
\<close>

inductive lifecycle_reach :: "lifecycle_record \<Rightarrow> lifecycle_record \<Rightarrow> bool" where
  reach_refl: "lifecycle_reach r r"
| reach_step: "lifecycle_reach r s \<Longrightarrow> lifecycle_step now s t \<Longrightarrow> aware now \<Longrightarrow>
    instant (lc_updated_at s) \<le> instant now \<Longrightarrow> lifecycle_reach r t"

lemma run_reaches: "foldM lifecycle_apply r ops = Inr t \<Longrightarrow> lifecycle_reach r t"
proof (induction ops arbitrary: t rule: rev_induct)
  case Nil
  then show ?case by (simp add: lifecycle_reach.reach_refl)
next
  case (snoc x ops)
  then obtain s where s: "foldM lifecycle_apply r ops = Inr s" "lifecycle_apply s x = Inr t"
    by (auto simp: foldM_append result_simps)
  obtain opr now where "x = (opr, now)" by (cases x)
  with apply_step s(2) snoc.IH [OF s(1)] show ?case by (blast intro: lifecycle_reach.reach_step)
qed

lemma reach_keeps:
  assumes "lifecycle_reach r t" "lifecycle_wf r"
  shows "lifecycle_wf t \<and> lc_symbol t = lc_symbol r \<and> lc_created_at t = lc_created_at r \<and>
    lc_expires_at t = lc_expires_at r \<and> instant (lc_updated_at r) \<le> instant (lc_updated_at t) \<and>
    (\<exists>ns. lc_notes t = lc_notes r @ ns) \<and> (is_terminal r \<longrightarrow> t = r)"
  using assms
proof (induction rule: lifecycle_reach.induct)
  case (reach_refl r)
  then show ?case by simp
next
  case (reach_step r s now t)
  then have "lifecycle_wf s" by blast
  from step_keeps [OF reach_step.hyps(2) this reach_step.hyps(3,4)] reach_step show ?case
    by (metis append_assoc order_trans)
qed

text \<open>
  C7: whatever operations run on a created lifecycle, in whatever order and at whatever times: its
  symbol, creation and expiry never change, its update time never goes back, notes are only
  appended, it is expired only after its expiry, it has a closing time exactly when closed, and
  \<open>EXPIRED\<close> and \<open>CLOSED\<close> are final.
\<close>

theorem lifecycle_run_invariant:
  assumes "create_lifecycle p now ttl = Inr r" "foldM lifecycle_apply r ops = Inr t"
  shows "lc_symbol t = pd_symbol p \<and> lc_created_at t = now \<and>
    instant (lc_expires_at t) = instant now + ttl * minute_us \<and>
    instant now \<le> instant (lc_updated_at t) \<and> (\<exists>ns. lc_notes t = lc_notes r @ ns) \<and>
    (lc_state t = LS_EXPIRED \<longrightarrow> instant (lc_expires_at t) \<le> instant (lc_updated_at t)) \<and>
    (lc_closed_at t \<noteq> None \<longleftrightarrow> lc_state t = LS_CLOSED) \<and>
    (\<forall>more u. is_terminal t \<longrightarrow> foldM lifecycle_apply t more = Inr u \<longrightarrow> u = t)"
proof -
  note c = create_wf [OF assms(1)]
  have k: "lifecycle_wf t \<and> lc_symbol t = lc_symbol r \<and> lc_created_at t = lc_created_at r \<and>
    lc_expires_at t = lc_expires_at r \<and> instant (lc_updated_at r) \<le> instant (lc_updated_at t) \<and>
    (\<exists>ns. lc_notes t = lc_notes r @ ns) \<and> (is_terminal r \<longrightarrow> t = r)"
    by (rule reach_keeps [OF run_reaches [OF assms(2)] c(1)])
  moreover have "u = t" if "is_terminal t" "foldM lifecycle_apply t more = Inr u" for more u
    using reach_keeps [OF run_reaches [OF that(2)]] k that(1) by blast
  moreover have "instant now \<le> instant (lc_updated_at t)" using k c(1,2) by (auto simp: lifecycle_wf_def)
  ultimately show ?thesis using c by (auto simp: lifecycle_wf_def)
qed

text \<open>
  time brings every lifecycle to an end: advancing a well-formed record at or after its expiry returns a
  record that is expired or closed, and never raises.
\<close>

theorem advance_terminates:
  assumes "lifecycle_wf r" "aware now" "instant (lc_updated_at r) \<le> instant now"
    "instant (lc_expires_at r) \<le> instant now"
  shows "\<exists>t. advance_lifecycle r now = Inr t \<and> is_terminal t"
proof -
  have "require_forward_time r now = Inr ()" "dt_less now (lc_expires_at r) = Inr False"
    using assms by (simp_all add: result_simps lifecycle_wf_def)
  then show ?thesis by (auto simp: advance_lifecycle_def is_terminal_def)
qed

definition sample_record :: lifecycle_record where
  "sample_record = \<lparr>lc_symbol = ''ABC'', lc_state = LS_PENDING, lc_created_at = DateTime 0 (Some 0),
     lc_updated_at = DateTime 0 (Some 0), lc_expires_at = DateTime (60 * minute_us) (Some 0),
     lc_closed_at = None, lc_notes = [''held plan pending'']\<rparr>"

lemma sample_created:
  "create_lifecycle (hold_draft ''ABC'' []) (DateTime 0 (Some 0)) 60 = Inr sample_record" by code_simp

lemma sample_ops:
  "foldM lifecycle_apply sample_record [(Activate, DateTime 5 (Some 0)), (Advance, DateTime (61 * minute_us) (Some 0)),
     (Close ''late'', DateTime (62 * minute_us) (Some 0))] =
   Inr (sample_record\<lparr>lc_state := LS_EXPIRED, lc_updated_at := DateTime (61 * minute_us) (Some 0),
     lc_notes := [''held plan pending'', ''activated'', ''expired'']\<rparr>)" by code_simp

theorem lifecycle_run_invariant_witness:
  "\<exists>t. foldM lifecycle_apply sample_record [(Activate, DateTime 5 (Some 0)),
      (Advance, DateTime (61 * minute_us) (Some 0)), (Close ''late'', DateTime (62 * minute_us) (Some 0))] = Inr t \<and>
    lc_created_at t = DateTime 0 (Some 0) \<and> lc_closed_at t = None"
  using lifecycle_run_invariant [OF sample_created sample_ops] sample_ops by auto

theorem advance_terminates_witness:
  "\<exists>t. advance_lifecycle sample_record (DateTime (60 * minute_us) (Some 0)) = Inr t \<and> is_terminal t"
  by (rule advance_terminates) code_simp+

end
