(* ===== verification/Signals.thy ===== *)
theory Signals
  imports Consensus Lifecycle "HOL-Library.List_Lexorder" "HOL-Library.Char_ord"
begin

text \<open>
  \<^verbatim>\<open>app/signals/models.py\<close> and \<^verbatim>\<open>app/signals/service.py\<close>: the assembly of one short signal. Eleven gates
  are evaluated in a fixed order; the first that fails ends the assembly with a blocked report.
  \<open>assemble_signal\<close> of the source is one function; here each \<open>assemble_\<dots>\<close> definition is the part of it
  from one early return to the next, and calls the part that follows.
\<close>

section \<open>Models\<close>

datatype short_setup_type = SS_BREAKDOWN | SS_FAILED_PULLBACK | SS_CONTINUATION

fun setup_type_value :: "short_setup_type \<Rightarrow> string" where
  "setup_type_value SS_BREAKDOWN = ''BREAKDOWN_SHORT''"
| "setup_type_value SS_FAILED_PULLBACK = ''FAILED_PULLBACK_SHORT''"
| "setup_type_value SS_CONTINUATION = ''CONTINUATION_SHORT''"

datatype assembly_status =
  HYPE_WATCH | WEAKNESS_WATCH | BREAKDOWN_WATCH | AS_EXECUTION_PENDING | AS_DATA_DEGRADED | AS_AVOID | SHORT_READY

datatype gate_state = G_PASS | G_WARN | G_FAIL | G_SKIP

record gate_decision =
  gd_name :: string
  gd_state :: gate_state
  gd_reasons :: "string list"

definition GateDecision :: "gate_decision \<Rightarrow> gate_decision result" where
  "GateDecision g = (if strip (gd_name g) = '''' then Inl (ValueError ''gate name is required'') else Inr g)"

definition passed :: "gate_decision \<Rightarrow> bool" where
  "passed g \<longleftrightarrow> gd_state g \<in> {G_PASS, G_WARN}"

datatype evidence_origin = MANUAL | DERIVED

record htf_evidence =
  he_symbol :: string
  he_market_symbol :: string
  he_observed_at :: datetime
  he_daily_damaged :: bool
  he_four_hour_damaged :: bool
  he_origin :: evidence_origin
  he_daily_zone_id :: "string option"
  he_daily_event_id :: "string option"
  he_four_hour_zone_id :: "string option"
  he_four_hour_event_id :: "string option"
  he_reasons :: "string list"

fun nonblank :: "string option \<Rightarrow> bool" where
  "nonblank None = False"
| "nonblank (Some s) = (s \<noteq> '''')"

definition HigherTimeframeStructureEvidence :: "htf_evidence \<Rightarrow> htf_evidence result" where
  "HigherTimeframeStructureEvidence a =
     (let symbol = strip (he_symbol a); market = upper (strip (he_market_symbol a)) in
      if symbol = '''' \<or> market = ''''
        then Inl (ValueError ''higher-timeframe canonical and market symbols are required'')
      else if \<not> aware (he_observed_at a)
        then Inl (ValueError ''higher-timeframe observed_at must be timezone-aware'')
      else if he_origin a \<noteq> DERIVED
        then Inl (ValueError ''production assembly requires derived higher-timeframe evidence'')
      else if he_daily_damaged a \<and> \<not> (nonblank (he_daily_zone_id a) \<and> nonblank (he_daily_event_id a))
        then Inl (ValueError ''damaged Daily evidence requires zone and event IDs'')
      else if he_four_hour_damaged a \<and>
          \<not> (nonblank (he_four_hour_zone_id a) \<and> nonblank (he_four_hour_event_id a))
        then Inl (ValueError ''damaged 4H evidence requires zone and event IDs'')
      else Inr (a\<lparr>he_symbol := symbol, he_market_symbol := market\<rparr>))"

record assembly_rules =
  ar_max_structure_age_minutes :: pyfloat
  ar_max_entry_deviation_bps :: decimal
  ar_lifecycle_ttl_minutes :: int
  ar_max_discovery_records :: int
  ar_consensus :: consensus_rules

definition SignalAssemblyRules :: "assembly_rules \<Rightarrow> assembly_rules result" where
  "SignalAssemblyRules r =
     (if fle (ar_max_structure_age_minutes r) (Fl 0)
        then Inl (ValueError ''max_structure_age_minutes must be positive'')
      else if dval (ar_max_entry_deviation_bps r) \<le> 0
        then Inl (ValueError ''max_entry_deviation_bps must be positive'')
      else if ar_lifecycle_ttl_minutes r \<le> 0
        then Inl (ValueError ''lifecycle_ttl_minutes must be positive'')
      else if ar_max_discovery_records r < 0 \<or> 500 < ar_max_discovery_records r
        then Inl (ValueError ''max_discovery_records must be between 0 and 500'')
      else Inr r)"

definition default_assembly_rules :: assembly_rules where
  "default_assembly_rules = \<lparr>ar_max_structure_age_minutes = Fl 360, ar_max_entry_deviation_bps = dec 50 0,
     ar_lifecycle_ttl_minutes = 60, ar_max_discovery_records = 50, ar_consensus = default_consensus_rules\<rparr>"

record 'm assembly_request =
  rq_symbol :: string
  rq_setup_type :: short_setup_type
  rq_higher_timeframe :: htf_evidence
  rq_structure_input :: structure_input
  rq_lbank_snapshot :: "decimal lbank_snapshot"
  rq_benchmark_snapshots :: "decimal benchmark_snapshot list"
  rq_symbol_map :: symbol_map
  rq_plan_request :: plan_request
  rq_discovery_records :: "'m discovery_record list"

definition SignalAssemblyRequest :: "'m assembly_request \<Rightarrow> 'm assembly_request result" where
  "SignalAssemblyRequest a =
     (let symbol = strip (rq_symbol a) in
      if symbol = '''' then Inl (ValueError ''assembly symbol is required'')
      else case expected_symbol (rq_symbol_map a) BYBIT of
        None \<Rightarrow> Inl (ValueError ''Bybit structure symbol mapping is required'')
      | Some expected \<Rightarrow>
          if expected = '''' then Inl (ValueError ''Bybit structure symbol mapping is required'')
          else if he_market_symbol (rq_higher_timeframe a) \<noteq> expected
            then Inl (ValueError ''derived structure market symbol does not match symbol map'')
          else Inr (a\<lparr>rq_symbol := symbol\<rparr>))"

record 'm assembly_report =
  rp_symbol :: string
  rp_setup_type :: short_setup_type
  rp_status :: assembly_status
  rp_assembled_at :: datetime
  rp_discovery_records :: "'m discovery_record list"
  rp_higher_timeframe :: htf_evidence
  rp_gates :: "gate_decision list"
  rp_reasons :: "string list"
  rp_plan :: plan_draft
  rp_lifecycle :: lifecycle_record
  rp_structure :: "structure_snapshot option"
  rp_setup :: "setup_candidate option"
  rp_flow :: "flow_result option"
  rp_lbank_validation :: "lbank_validation option"
  rp_consensus :: "consensus_report option"
  rp_entry_deviation_bps :: "decimal option"

definition SignalAssemblyReport :: "'m assembly_report \<Rightarrow> 'm assembly_report result" where
  "SignalAssemblyReport a =
     (if strip (rp_symbol a) = '''' then Inl (ValueError ''report symbol is required'')
      else if \<not> aware (rp_assembled_at a) then Inl (ValueError ''assembled_at must be timezone-aware'')
      else Inr a)"

definition is_short_ready :: "'m assembly_report \<Rightarrow> bool" where
  "is_short_ready a \<longleftrightarrow> rp_status a = SHORT_READY"

section \<open>Gates\<close>

definition gate_order :: "string list" where
  "gate_order = [''discovery_context'', ''symbol_alignment'', ''higher_timeframe_structure'', ''structure'',
     ''setup_classification'', ''flow'', ''lbank_execution'', ''cross_exchange_consensus'',
     ''entry_alignment'', ''planning'', ''lifecycle'']"

definition gate :: "string \<Rightarrow> gate_state \<Rightarrow> string list \<Rightarrow> gate_decision" where
  "gate name state reasons = \<lparr>gd_name = name, gd_state = state, gd_reasons = reasons\<rparr>"

definition discovery_gate :: "assembly_rules \<Rightarrow> 'm assembly_request \<Rightarrow> gate_decision" where
  "discovery_gate r q =
     (let n = int (length (rq_discovery_records q)) in
      if ar_max_discovery_records r < n
        then gate ''discovery_context'' G_FAIL [''DISCOVERY_CONTEXT_TOO_LARGE'', ''COUNT_'' @ str_int n]
      else if n = 0 then gate ''discovery_context'' G_WARN [''DISCOVERY_CONTEXT_EMPTY'']
      else gate ''discovery_context'' G_PASS ((''COUNT_'' @ str_int n) #
        map (\<lambda>s. ''SOURCE_'' @ s)
          (sort (remdups (map (\<lambda>d. discovery_source_value (dr_source d)) (rq_discovery_records q))))))"

definition symbol_gate :: "'m assembly_request \<Rightarrow> gate_decision" where
  "symbol_gate q =
     (let expected = rq_symbol q;
        checks = [(''CANONICAL'', sm_canonical_symbol (rq_symbol_map q)),
          (''HIGHER_TIMEFRAME'', he_symbol (rq_higher_timeframe q)),
          (''STRUCTURE'', si_symbol (rq_structure_input q)),
          (''PLAN'', strip (pr_symbol (rq_plan_request q)))];
        reasons = map (\<lambda>(name, v). name @ ''_SYMBOL_MISMATCH'') (filter (\<lambda>(name, v). v \<noteq> expected) checks)
          @ (if ls_symbol (rq_lbank_snapshot q) \<noteq> sm_lbank_symbol (rq_symbol_map q)
             then [''LBANK_SYMBOL_MISMATCH''] else []) in
      gate ''symbol_alignment'' (if reasons \<noteq> [] then G_FAIL else G_PASS)
        (if reasons \<noteq> [] then reasons else [''SYMBOLS_ALIGNED'']))"

text \<open>The age of the evidence in minutes is a float, and so is the tolerance \<open>-(1 / 60)\<close>.\<close>

definition age_minutes :: "datetime \<Rightarrow> htf_evidence \<Rightarrow> pyfloat result" where
  "age_minutes now h = and_then (dt_diff now (he_observed_at h)) (\<lambda>d. Inr (fover (total_seconds d) 60))"

definition evidence_degraded :: "assembly_rules \<Rightarrow> pyfloat \<Rightarrow> string list" where
  "evidence_degraded r age =
     (if fless age (fneg (to_float (1 / 60))) then [''STRUCTURE_EVIDENCE_FROM_FUTURE'']
      else if fless (ar_max_structure_age_minutes r) age then [''STRUCTURE_EVIDENCE_STALE''] else [])"

definition missing_damage :: "htf_evidence \<Rightarrow> string list" where
  "missing_damage h =
     (if \<not> he_daily_damaged h then [''DAILY_STRUCTURE_NOT_DAMAGED''] else [])
     @ (if \<not> he_four_hour_damaged h then [''FOUR_HOUR_STRUCTURE_NOT_DAMAGED''] else [])"

definition higher_timeframe_gate ::
  "assembly_rules \<Rightarrow> datetime \<Rightarrow> htf_evidence \<Rightarrow> (gate_decision \<times> assembly_status) result" where
  "higher_timeframe_gate r now h =
     and_then (age_minutes now h) (\<lambda>age.
     let degraded = evidence_degraded r age; missing = missing_damage h;
       reasons = degraded @ missing @ he_reasons h in
     if degraded \<noteq> [] then Inr (gate ''higher_timeframe_structure'' G_FAIL reasons, AS_DATA_DEGRADED)
     else if missing \<noteq> [] then Inr (gate ''higher_timeframe_structure'' G_FAIL reasons, BREAKDOWN_WATCH)
     else Inr (gate ''higher_timeframe_structure'' G_PASS
       ((''AGE_MINUTES_'' @ format_fixed 2 age) # he_reasons h), SHORT_READY))"

text \<open>The entry of a validated plan request is finite.\<close>

definition entry_deviation_bps :: "'m assembly_request \<Rightarrow> decimal result" where
  "entry_deviation_bps q =
     (let entry = decimal_of_repr (fval (pr_entry (rq_plan_request q))) in
      and_then (executable_mid_price (rq_lbank_snapshot q)) (\<lambda>reference.
      if dval entry \<le> 0 \<or> dval reference \<le> 0
        then Inl (ValueError ''entry and LBank reference must be positive'')
      else and_then (ddiv (dabs (dsub entry reference)) reference) (\<lambda>d. Inr (dmul d (dec 10000 0)))))"

fun watch_status :: "structure_state \<Rightarrow> assembly_status" where
  "watch_status ST_NEUTRAL = HYPE_WATCH"
| "watch_status ST_WEAK = WEAKNESS_WATCH"
| "watch_status ST_ALERT = BREAKDOWN_WATCH"

definition error_reason :: "error \<Rightarrow> string" where
  "error_reason e =
     (let detail = strip (error_text e) in
      if detail \<noteq> '''' then take 500 (error_name e @ '':'' @ detail) else error_name e)"

definition complete_gates :: "gate_decision list \<Rightarrow> gate_decision list" where
  "complete_gates gates =
     map (\<lambda>name. case map_of (rev (map (\<lambda>g. (gd_name g, g)) gates)) name of
         Some g \<Rightarrow> g | None \<Rightarrow> gate name G_SKIP [''NOT_EVALUATED'']) gate_order"

section \<open>Assembly\<close>

text \<open>The optional arguments of \<open>_finish\<close>.\<close>

record progress =
  pg_structure :: "structure_snapshot option"
  pg_setup :: "setup_candidate option"
  pg_flow :: "flow_result option"
  pg_lbank :: "lbank_validation option"
  pg_consensus :: "consensus_report option"
  pg_deviation :: "decimal option"
  pg_plan :: "plan_draft option"
  pg_lifecycle :: "lifecycle_record option"

definition no_progress :: progress where
  "no_progress = \<lparr>pg_structure = None, pg_setup = None, pg_flow = None, pg_lbank = None,
     pg_consensus = None, pg_deviation = None, pg_plan = None, pg_lifecycle = None\<rparr>"

definition gate_reasons :: "gate_decision list \<Rightarrow> string list" where
  "gate_reasons gates = concat (map (\<lambda>g. map (\<lambda>s. gd_name g @ '':'' @ s) (gd_reasons g)) gates)"

definition finish ::
  "assembly_rules \<Rightarrow> datetime \<Rightarrow> 'm assembly_request \<Rightarrow> assembly_status \<Rightarrow> gate_decision list \<Rightarrow> progress \<Rightarrow>
     'm assembly_report result" where
  "finish r now q status gates pg =
     (let completed = complete_gates gates; reasons = gate_reasons completed in
      and_then (case pg_plan pg of Some p \<Rightarrow> Inr p
        | None \<Rightarrow> PlanDraft (hold_draft (rq_symbol q) (if reasons \<noteq> [] then reasons else [''ASSEMBLY_HELD'']))) (\<lambda>plan.
      and_then (case pg_lifecycle pg of Some l \<Rightarrow> Inr l
        | None \<Rightarrow> create_lifecycle plan now (ar_lifecycle_ttl_minutes r)) (\<lambda>life.
      SignalAssemblyReport \<lparr>rp_symbol = rq_symbol q, rp_setup_type = rq_setup_type q, rp_status = status,
        rp_assembled_at = now, rp_discovery_records = rq_discovery_records q,
        rp_higher_timeframe = rq_higher_timeframe q, rp_gates = completed, rp_reasons = reasons,
        rp_plan = plan, rp_lifecycle = life, rp_structure = pg_structure pg, rp_setup = pg_setup pg,
        rp_flow = pg_flow pg, rp_lbank_validation = pg_lbank pg, rp_consensus = pg_consensus pg,
        rp_entry_deviation_bps = pg_deviation pg\<rparr>)))"

text \<open>Planning and lifecycle (lines 304 to 385).\<close>

definition assemble_plan ::
  "assembly_rules \<Rightarrow> datetime \<Rightarrow> 'm assembly_request \<Rightarrow> gate_decision list \<Rightarrow> progress \<Rightarrow> flow_result \<Rightarrow>
     'm assembly_report result" where
  "assemble_plan r now q gates pg flow =
     (case build_plan flow (rq_plan_request q) of
       Inl e \<Rightarrow> finish r now q AS_DATA_DEGRADED (gates @ [gate ''planning'' G_FAIL [error_reason e]]) pg
     | Inr plan \<Rightarrow>
         if pd_status plan \<noteq> PLAN_READY then
           finish r now q AS_DATA_DEGRADED (gates @ [gate ''planning'' G_FAIL
             (if pd_notes plan \<noteq> [] then pd_notes plan else [''PLAN_NOT_READY''])]) (pg\<lparr>pg_plan := Some plan\<rparr>)
         else
           let gates' = gates @ [gate ''planning'' G_PASS
             (if pd_notes plan \<noteq> [] then pd_notes plan else [''PLAN_READY''])] in
           and_then (create_lifecycle plan now (ar_lifecycle_ttl_minutes r)) (\<lambda>life.
           finish r now q SHORT_READY
             (gates' @ [gate ''lifecycle'' G_PASS [''STATE_'' @ lifecycle_state_value (lc_state life)]])
             (pg\<lparr>pg_plan := Some plan, pg_lifecycle := Some life\<rparr>)))"

text \<open>Entry alignment (lines 270 to 302).\<close>

definition assemble_entry ::
  "assembly_rules \<Rightarrow> datetime \<Rightarrow> 'm assembly_request \<Rightarrow> gate_decision list \<Rightarrow> progress \<Rightarrow> flow_result \<Rightarrow>
     'm assembly_report result" where
  "assemble_entry r now q gates pg flow =
     and_then (entry_deviation_bps q) (\<lambda>dev.
     let pg' = pg\<lparr>pg_deviation := Some dev\<rparr>; text = ''DEVIATION_BPS_'' @ dec_str dev in
     if dval (ar_max_entry_deviation_bps r) < dval dev then
       finish r now q AS_EXECUTION_PENDING
         (gates @ [gate ''entry_alignment'' G_FAIL [''ENTRY_TOO_FAR_FROM_LBANK'', text]]) pg'
     else assemble_plan r now q (gates @ [gate ''entry_alignment'' G_PASS [text]]) pg' flow)"

text \<open>Consensus (lines 206 to 268).\<close>

fun consensus_gate_state :: "consensus_status \<Rightarrow> gate_state" where
  "consensus_gate_state CO_OK = G_PASS"
| "consensus_gate_state CO_WARNING = G_WARN"
| "consensus_gate_state s = G_FAIL"

fun consensus_blocked_status :: "consensus_status \<Rightarrow> assembly_status" where
  "consensus_blocked_status CO_EXECUTION_PENDING = AS_EXECUTION_PENDING"
| "consensus_blocked_status CO_DATA_DEGRADED = AS_DATA_DEGRADED"
| "consensus_blocked_status CO_AVOID = AS_AVOID"
| "consensus_blocked_status s = AS_DATA_DEGRADED"

definition assemble_consensus ::
  "assembly_rules \<Rightarrow> datetime \<Rightarrow> 'm assembly_request \<Rightarrow> gate_decision list \<Rightarrow> progress \<Rightarrow> flow_result \<Rightarrow>
     'm assembly_report result" where
  "assemble_consensus r now q gates pg flow =
     (case build_cross_exchange_consensus (ar_consensus r) now (rq_symbol_map q) (rq_lbank_snapshot q)
        (rq_benchmark_snapshots q) of
       Inl e \<Rightarrow> finish r now q AS_DATA_DEGRADED
         (gates @ [gate ''cross_exchange_consensus'' G_FAIL [error_reason e]]) pg
     | Inr c \<Rightarrow>
         let gates' = gates @ [gate ''cross_exchange_consensus'' (consensus_gate_state (cp_status c))
               (if cp_reasons c \<noteq> [] then cp_reasons c else [''STATUS_'' @ consensus_status_value (cp_status c)])];
           pg' = pg\<lparr>pg_consensus := Some c\<rparr> in
         if \<not> allows_execution_confirmation c
         then finish r now q (consensus_blocked_status (cp_status c)) gates' pg'
         else assemble_entry r now q gates' pg' flow)"

text \<open>LBank validation (lines 151 to 204).\<close>

definition assemble_execution ::
  "assembly_rules \<Rightarrow> datetime \<Rightarrow> 'm assembly_request \<Rightarrow> gate_decision list \<Rightarrow> progress \<Rightarrow> flow_result \<Rightarrow>
     'm assembly_report result" where
  "assemble_execution r now q gates pg flow =
     (case validate_lbank_execution (cr_lbank_execution (ar_consensus r)) now (rq_lbank_snapshot q) of
       Inl e \<Rightarrow> finish r now q AS_DATA_DEGRADED (gates @ [gate ''lbank_execution'' G_FAIL [error_reason e]]) pg
     | Inr v \<Rightarrow>
         let gates' = gates @ [gate ''lbank_execution'' (if lv_status v = LB_OK then G_PASS else G_FAIL)
               (if lv_reasons v \<noteq> [] then lv_reasons v else [''STATUS_'' @ lbank_status_value (lv_status v)])];
           pg' = pg\<lparr>pg_lbank := Some v\<rparr> in
         if lv_status v \<noteq> LB_OK
         then finish r now q (if lv_status v = LB_EXECUTION_PENDING then AS_EXECUTION_PENDING else AS_DATA_DEGRADED)
           gates' pg'
         else assemble_consensus r now q gates' pg' flow)"

text \<open>Structure state, classification and flow (lines 110 to 149).\<close>

definition assemble_flow ::
  "assembly_rules \<Rightarrow> datetime \<Rightarrow> 'm assembly_request \<Rightarrow> gate_decision list \<Rightarrow> structure_snapshot \<Rightarrow>
     'm assembly_report result" where
  "assemble_flow r now q gates s =
     (let setup = classify_snapshot s; flow = run_flow setup;
        gates' = gates @
          [gate ''structure'' (if ss_state s = ST_ALERT then G_PASS else G_FAIL)
             (ss_reasons s @ [''STATE_'' @ structure_state_value (ss_state s)]),
           gate ''setup_classification'' (if is_actionable setup then G_PASS else G_FAIL)
             (sc_reasons setup @ [''TYPE_'' @ setup_type_value (rq_setup_type q)]),
           gate ''flow'' (if fr_status flow = FL_READY then G_PASS else G_FAIL)
             (fr_reasons flow @ [''STATUS_'' @ flow_status_value (fr_status flow)])];
        pg = no_progress\<lparr>pg_structure := Some s, pg_setup := Some setup, pg_flow := Some flow\<rparr> in
      if \<not> flow_ready flow then finish r now q (watch_status (ss_state s)) gates' pg
      else assemble_execution r now q gates' pg flow)"

definition assemble_signal ::
  "assembly_rules \<Rightarrow> datetime \<Rightarrow> 'm assembly_request \<Rightarrow> 'm assembly_report result" where
  "assemble_signal r now q =
     and_then (require_aware ''now'' now) (\<lambda>_.
     let g1 = discovery_gate r q in
     if gd_state g1 = G_FAIL then finish r now q AS_DATA_DEGRADED [g1] no_progress
     else let g2 = symbol_gate q in
     if \<not> passed g2 then finish r now q AS_DATA_DEGRADED [g1, g2] no_progress
     else and_then (higher_timeframe_gate r now (rq_higher_timeframe q)) (\<lambda>(g3, status).
     if \<not> passed g3 then finish r now q status [g1, g2, g3] no_progress
     else case analyze_structure (rq_structure_input q) of
       Inl e \<Rightarrow> finish r now q AS_DATA_DEGRADED [g1, g2, g3, gate ''structure'' G_FAIL [error_reason e]] no_progress
     | Inr s \<Rightarrow> assemble_flow r now q [g1, g2, g3] s))"

section \<open>Completed gates\<close>

definition skipped :: "string \<Rightarrow> gate_decision" where
  "skipped name = gate name G_SKIP [''NOT_EVALUATED'']"

lemma gate_sel [simp]: "gd_name (gate n s rs) = n" "gd_state (gate n s rs) = s"
  by (simp_all add: gate_def)

lemma gate_order_facts: "distinct gate_order" "length gate_order = 11"
  by (simp_all add: gate_order_def)

lemma map_of_named:
  assumes "distinct (map gd_name gs)" "g \<in> set gs"
  shows "map_of (rev (map (\<lambda>g. (gd_name g, g)) gs)) (gd_name g) = Some g"
proof (rule map_of_is_SomeI)
  show "distinct (map fst (rev (map (\<lambda>g. (gd_name g, g)) gs)))"
    using assms(1) by (simp add: rev_map [symmetric] comp_def)
  show "(gd_name g, g) \<in> set (rev (map (\<lambda>g. (gd_name g, g)) gs))" using assms(2) by simp
qed

text \<open>When the evaluated gates are the first ones in order, the rest is skipped.\<close>

definition evaluated :: "gate_decision list \<Rightarrow> bool" where
  "evaluated gs \<longleftrightarrow> map gd_name gs = take (length gs) gate_order"

lemma complete_gates_evaluated:
  assumes "evaluated gs"
  shows "complete_gates gs = gs @ map skipped (drop (length gs) gate_order)"
proof -
  let ?f = "\<lambda>name. case map_of (rev (map (\<lambda>g. (gd_name g, g)) gs)) name of Some g \<Rightarrow> g | None \<Rightarrow> skipped name"
  have order: "gate_order = map gd_name gs @ drop (length gs) gate_order"
    using assms append_take_drop_id [of "length gs" gate_order] by (simp add: evaluated_def)
  then have dist: "distinct (map gd_name gs @ drop (length gs) gate_order)" using gate_order_facts(1) by metis
  have "?f (gd_name g) = g" if "g \<in> set gs" for g using map_of_named [OF _ that] dist by simp
  then have "map ?f (map gd_name gs) = gs" unfolding map_map by (intro map_idI) simp
  moreover have "map ?f (drop (length gs) gate_order) = map skipped (drop (length gs) gate_order)"
  proof (rule map_cong [OF refl])
    fix n assume "n \<in> set (drop (length gs) gate_order)"
    then have "n \<notin> set (map gd_name gs)" using dist by auto
    then have "map_of (rev (map (\<lambda>g. (gd_name g, g)) gs)) n = None" by (auto simp: map_of_eq_None_iff)
    then show "?f n = skipped n" by simp
  qed
  ultimately have "map ?f gate_order = gs @ map skipped (drop (length gs) gate_order)"
    by (subst order) (simp only: map_append)
  then show ?thesis unfolding complete_gates_def skipped_def [symmetric] .
qed

lemma complete_names: "map gd_name (complete_gates gs) = gate_order"
proof -
  have "gd_name (case map_of (rev (map (\<lambda>g. (gd_name g, g)) gs)) n of Some g \<Rightarrow> g
      | None \<Rightarrow> gate n G_SKIP [''NOT_EVALUATED'']) = n" for n
    by (auto split: option.split dest!: map_of_SomeD)
  then show ?thesis by (simp add: complete_gates_def comp_def)
qed

lemma evaluated_append:
  "evaluated gs \<Longrightarrow> map gd_name hs = take (length hs) (drop (length gs) gate_order) \<Longrightarrow> evaluated (gs @ hs)"
  by (simp add: evaluated_def take_add)

section \<open>Blocked reports\<close>

definition blocked :: "'m assembly_report \<Rightarrow> bool" where
  "blocked rep \<longleftrightarrow> rp_status rep \<noteq> SHORT_READY \<and> (\<exists>g \<in> set (rp_gates rep). gd_state g = G_FAIL) \<and>
     pd_status (rp_plan rep) = PLAN_HOLD \<and> lc_state (rp_lifecycle rep) = LS_PENDING"

lemma PlanDraft_hold: "PlanDraft (hold_draft s ns) = Inr p \<Longrightarrow> pd_status p = PLAN_HOLD"
  by (auto simp: PlanDraft_def hold_draft_def Let_def result_simps)

lemma finish_fields:
  assumes "finish r now q status gates pg = Inr rep"
  shows "rp_status rep = status" "rp_gates rep = complete_gates gates" "rp_symbol rep = rq_symbol q"
    "rp_higher_timeframe rep = rq_higher_timeframe q" "rp_lbank_validation rep = pg_lbank pg"
    "rp_consensus rep = pg_consensus pg" "rp_entry_deviation_bps rep = pg_deviation pg"
    "rp_structure rep = pg_structure pg" "rp_assembled_at rep = now"
    "\<And>p. pg_plan pg = Some p \<Longrightarrow> rp_plan rep = p" "\<And>l. pg_lifecycle pg = Some l \<Longrightarrow> rp_lifecycle rep = l"
  using assms unfolding finish_def Let_def SignalAssemblyReport_def by (auto simp: result_simps)

lemma finish_blocked:
  assumes "finish r now q status gates pg = Inr rep" "status \<noteq> SHORT_READY"
    "evaluated gates" "g \<in> set gates" "gd_state g = G_FAIL" "pg_plan pg = None" "pg_lifecycle pg = None"
  shows "blocked rep"
proof -
  obtain p where p: "PlanDraft (hold_draft (rq_symbol q) (if gate_reasons (complete_gates gates) \<noteq> []
      then gate_reasons (complete_gates gates) else [''ASSEMBLY_HELD''])) = Inr p"
    and l: "create_lifecycle p now (ar_lifecycle_ttl_minutes r) = Inr (rp_lifecycle rep)" "rp_plan rep = p"
    using assms(1,6,7) unfolding finish_def Let_def SignalAssemblyReport_def by (auto simp: result_simps)
  have "pd_status p = PLAN_HOLD" by (rule PlanDraft_hold [OF p])
  moreover have "lc_state (rp_lifecycle rep) = LS_PENDING" using create_wf(4) [OF l(1)] calculation by simp
  moreover have "g \<in> set (rp_gates rep)"
    using assms(4) finish_fields(2) [OF assms(1)] complete_gates_evaluated [OF assms(3)] by simp
  ultimately show ?thesis using assms(2,5) finish_fields(1) [OF assms(1)] l(2) by (auto simp: blocked_def)
qed

section \<open>The stages\<close>

text \<open>What a stage may rely on: the gates so far are the first ones in order and all passed.\<close>

definition so_far :: "nat \<Rightarrow> gate_decision list \<Rightarrow> progress \<Rightarrow> bool" where
  "so_far k gates pg \<longleftrightarrow> evaluated gates \<and> length gates = k \<and> (\<forall>g \<in> set gates. passed g) \<and>
     pg_plan pg = None \<and> pg_lifecycle pg = None"

lemma so_far_next:
  assumes "so_far k gates pg" "k < 11" "gd_name g = gate_order ! k" "passed g"
    "pg_plan pg' = None" "pg_lifecycle pg' = None"
  shows "so_far (Suc k) (gates @ [g]) pg'"
  using assms gate_order_facts(2)
  by (auto simp: so_far_def evaluated_def take_Suc_conv_app_nth)

lemma so_far_blocks:
  assumes "so_far k gates pg" "k < 11" "gd_name g = gate_order ! k" "gd_state g = G_FAIL"
    "finish r now q status (gates @ [g]) pg' = Inr rep" "status \<noteq> SHORT_READY"
    "pg_plan pg' = None" "pg_lifecycle pg' = None"
  shows "blocked rep"
  using assms gate_order_facts(2)
  by (intro finish_blocked [OF assms(5,6), of g])
    (auto simp: so_far_def evaluated_def take_Suc_conv_app_nth)

lemmas gate_names = gate_order_def nth_Cons_numeral

definition planned :: "assembly_rules \<Rightarrow> datetime \<Rightarrow> 'm assembly_request \<Rightarrow> flow_result \<Rightarrow> 'm assembly_report \<Rightarrow> bool" where
  "planned r now q flow rep \<longleftrightarrow> rp_status rep = SHORT_READY \<and> (\<forall>g \<in> set (rp_gates rep). passed g) \<and>
     build_plan flow (rq_plan_request q) = Inr (rp_plan rep) \<and> pd_status (rp_plan rep) = PLAN_READY \<and>
     create_lifecycle (rp_plan rep) now (ar_lifecycle_ttl_minutes r) = Inr (rp_lifecycle rep) \<and>
     lc_state (rp_lifecycle rep) = LS_ACTIVE"

lemma assemble_plan_cases:
  assumes "assemble_plan r now q gates pg flow = Inr rep" "so_far 9 gates pg" "flow_ready flow"
  shows "blocked rep \<or> planned r now q flow rep \<and> rp_lbank_validation rep = pg_lbank pg \<and>
    rp_consensus rep = pg_consensus pg \<and> rp_entry_deviation_bps rep = pg_deviation pg"
proof (cases "build_plan flow (rq_plan_request q)")
  case (Inl e)
  then have "finish r now q AS_DATA_DEGRADED (gates @ [gate ''planning'' G_FAIL [error_reason e]]) pg = Inr rep"
    using assms(1) by (simp add: assemble_plan_def)
  from so_far_blocks [OF assms(2) _ _ _ this] assms(2) show ?thesis
    by (simp add: so_far_def gate_order_def)
next
  case (Inr plan)
  then have ready: "pd_status plan = PLAN_READY" using build_plan_Inr(1) assms(3) by blast
  let ?g = "gate ''planning'' G_PASS (if pd_notes plan \<noteq> [] then pd_notes plan else [''PLAN_READY''])"
  obtain life where life: "create_lifecycle plan now (ar_lifecycle_ttl_minutes r) = Inr life"
    and fin: "finish r now q SHORT_READY
        ((gates @ [?g]) @ [gate ''lifecycle'' G_PASS [''STATE_'' @ lifecycle_state_value (lc_state life)]])
        (pg\<lparr>pg_plan := Some plan, pg_lifecycle := Some life\<rparr>) = Inr rep"
    using assms(1) Inr ready by (auto simp: assemble_plan_def Let_def result_simps)
  have "so_far 11 ((gates @ [?g]) @ [gate ''lifecycle'' G_PASS [''STATE_'' @ lifecycle_state_value (lc_state life)]]) no_progress"
    using so_far_next [OF so_far_next [OF assms(2), of ?g no_progress],
        of "gate ''lifecycle'' G_PASS [''STATE_'' @ lifecycle_state_value (lc_state life)]" no_progress]
    by (simp add: gate_order_def passed_def no_progress_def)
  then have "\<forall>g \<in> set (rp_gates rep). passed g"
    unfolding finish_fields(2) [OF fin] by (simp add: so_far_def complete_gates_evaluated gate_order_facts)
  then show ?thesis
    using finish_fields [OF fin] life create_wf(4) [OF life] Inr ready by (simp add: planned_def)
qed

lemma assemble_entry_cases:
  assumes "assemble_entry r now q gates pg flow = Inr rep" "so_far 8 gates pg" "flow_ready flow"
  shows "blocked rep \<or> planned r now q flow rep \<and> rp_lbank_validation rep = pg_lbank pg \<and>
    rp_consensus rep = pg_consensus pg \<and>
    (\<exists>dev. entry_deviation_bps q = Inr dev \<and> rp_entry_deviation_bps rep = Some dev \<and>
      dval dev \<le> dval (ar_max_entry_deviation_bps r))"
proof -
  obtain dev where dev: "entry_deviation_bps q = Inr dev"
    using assms(1) by (auto simp: assemble_entry_def result_simps)
  let ?pg = "pg\<lparr>pg_deviation := Some dev\<rparr>"
  show ?thesis
  proof (cases "dval (ar_max_entry_deviation_bps r) < dval dev")
    case True
    then have "finish r now q AS_EXECUTION_PENDING (gates @ [gate ''entry_alignment'' G_FAIL
        [''ENTRY_TOO_FAR_FROM_LBANK'', ''DEVIATION_BPS_'' @ dec_str dev]]) ?pg = Inr rep"
      using assms(1) dev by (simp add: assemble_entry_def Let_def)
    from so_far_blocks [OF assms(2) _ _ _ this] assms(2) show ?thesis
      by (simp add: so_far_def gate_order_def)
  next
    case False
    let ?g = "gate ''entry_alignment'' G_PASS [''DEVIATION_BPS_'' @ dec_str dev]"
    have "assemble_plan r now q (gates @ [?g]) ?pg flow = Inr rep"
      using assms(1) dev False by (simp add: assemble_entry_def Let_def)
    moreover have "so_far 9 (gates @ [?g]) ?pg"
      using so_far_next [OF assms(2), of ?g ?pg] assms(2) by (simp add: gate_order_def passed_def so_far_def)
    ultimately show ?thesis using assemble_plan_cases [OF _ _ assms(3)] dev False by fastforce
  qed
qed

lemma assemble_consensus_cases:
  assumes "assemble_consensus r now q gates pg flow = Inr rep" "so_far 7 gates pg" "flow_ready flow"
  shows "blocked rep \<or> planned r now q flow rep \<and> rp_lbank_validation rep = pg_lbank pg \<and>
    (\<exists>c. build_cross_exchange_consensus (ar_consensus r) now (rq_symbol_map q) (rq_lbank_snapshot q)
        (rq_benchmark_snapshots q) = Inr c \<and> rp_consensus rep = Some c \<and> allows_execution_confirmation c) \<and>
    (\<exists>dev. entry_deviation_bps q = Inr dev \<and> rp_entry_deviation_bps rep = Some dev \<and>
      dval dev \<le> dval (ar_max_entry_deviation_bps r))"
proof (cases "build_cross_exchange_consensus (ar_consensus r) now (rq_symbol_map q) (rq_lbank_snapshot q)
    (rq_benchmark_snapshots q)")
  case (Inl e)
  then have "finish r now q AS_DATA_DEGRADED (gates @ [gate ''cross_exchange_consensus'' G_FAIL [error_reason e]]) pg = Inr rep"
    using assms(1) by (simp add: assemble_consensus_def)
  from so_far_blocks [OF assms(2) _ _ _ this] assms(2) show ?thesis
    by (simp add: so_far_def gate_order_def)
next
  case (Inr c)
  let ?pg = "pg\<lparr>pg_consensus := Some c\<rparr>"
  let ?g = "gate ''cross_exchange_consensus'' (consensus_gate_state (cp_status c))
    (if cp_reasons c \<noteq> [] then cp_reasons c else [''STATUS_'' @ consensus_status_value (cp_status c)])"
  show ?thesis
  proof (cases "allows_execution_confirmation c")
    case False
    then have fin: "finish r now q (consensus_blocked_status (cp_status c)) (gates @ [?g]) ?pg = Inr rep"
      using assms(1) Inr by (simp add: assemble_consensus_def Let_def)
    have "consensus_gate_state (cp_status c) = G_FAIL" "consensus_blocked_status (cp_status c) \<noteq> SHORT_READY"
      using False by (cases "cp_status c"; simp add: allows_execution_confirmation_def)+
    then have "blocked rep" using so_far_blocks [OF assms(2) _ _ _ fin] assms(2)
      by (simp add: so_far_def gate_order_def)
    then show ?thesis ..
  next
    case True
    then have "assemble_entry r now q (gates @ [?g]) ?pg flow = Inr rep"
      using assms(1) Inr by (simp add: assemble_consensus_def Let_def)
    moreover have "passed ?g" using True by (auto simp: allows_execution_confirmation_def passed_def)
    then have "so_far 8 (gates @ [?g]) ?pg"
      using so_far_next [OF assms(2), of ?g ?pg] assms(2) by (simp add: gate_order_def so_far_def)
    ultimately show ?thesis using assemble_entry_cases [OF _ _ assms(3)] Inr True by fastforce
  qed
qed

definition confirmed :: "assembly_rules \<Rightarrow> datetime \<Rightarrow> 'm assembly_request \<Rightarrow> 'm assembly_report \<Rightarrow> bool" where
  "confirmed r now q rep \<longleftrightarrow>
     (\<exists>v. validate_lbank_execution (cr_lbank_execution (ar_consensus r)) now (rq_lbank_snapshot q) = Inr v \<and>
       is_executable v \<and> rp_lbank_validation rep = Some v) \<and>
     (\<exists>c. build_cross_exchange_consensus (ar_consensus r) now (rq_symbol_map q) (rq_lbank_snapshot q)
         (rq_benchmark_snapshots q) = Inr c \<and> rp_consensus rep = Some c \<and> allows_execution_confirmation c) \<and>
     (\<exists>dev. entry_deviation_bps q = Inr dev \<and> rp_entry_deviation_bps rep = Some dev \<and>
       dval dev \<le> dval (ar_max_entry_deviation_bps r))"

lemma assemble_execution_cases:
  assumes "assemble_execution r now q gates pg flow = Inr rep" "so_far 6 gates pg" "flow_ready flow"
  shows "blocked rep \<or> planned r now q flow rep \<and> confirmed r now q rep"
proof (cases "validate_lbank_execution (cr_lbank_execution (ar_consensus r)) now (rq_lbank_snapshot q)")
  case (Inl e)
  then have fin: "finish r now q AS_DATA_DEGRADED (gates @ [gate ''lbank_execution'' G_FAIL [error_reason e]]) pg = Inr rep"
    using assms(1) by (simp add: assemble_execution_def)
  from so_far_blocks [OF assms(2) _ _ _ fin] assms(2) show ?thesis
    by (simp add: so_far_def gate_order_def)
next
  case (Inr v)
  let ?pg = "pg\<lparr>pg_lbank := Some v\<rparr>"
  let ?g = "gate ''lbank_execution'' (if lv_status v = LB_OK then G_PASS else G_FAIL)
    (if lv_reasons v \<noteq> [] then lv_reasons v else [''STATUS_'' @ lbank_status_value (lv_status v)])"
  show ?thesis
  proof (cases "lv_status v = LB_OK")
    case False
    then have fin: "finish r now q (if lv_status v = LB_EXECUTION_PENDING then AS_EXECUTION_PENDING else AS_DATA_DEGRADED)
        (gates @ [?g]) ?pg = Inr rep"
      using assms(1) Inr by (simp add: assemble_execution_def Let_def)
    have "blocked rep" using so_far_blocks [OF assms(2) _ _ _ fin] assms(2) False
      by (simp add: so_far_def gate_order_def)
    then show ?thesis ..
  next
    case True
    then have "assemble_consensus r now q (gates @ [?g]) ?pg flow = Inr rep"
      using assms(1) Inr by (simp add: assemble_execution_def Let_def)
    moreover have "passed ?g" using True by (simp add: passed_def)
    then have "so_far 7 (gates @ [?g]) ?pg"
      using so_far_next [OF assms(2), of ?g ?pg] assms(2) by (simp add: gate_order_def so_far_def)
    ultimately have "blocked rep \<or> planned r now q flow rep \<and> rp_lbank_validation rep = pg_lbank ?pg \<and>
      (\<exists>c. build_cross_exchange_consensus (ar_consensus r) now (rq_symbol_map q) (rq_lbank_snapshot q)
          (rq_benchmark_snapshots q) = Inr c \<and> rp_consensus rep = Some c \<and> allows_execution_confirmation c) \<and>
      (\<exists>dev. entry_deviation_bps q = Inr dev \<and> rp_entry_deviation_bps rep = Some dev \<and>
        dval dev \<le> dval (ar_max_entry_deviation_bps r))"
      by (rule assemble_consensus_cases [OF _ _ assms(3)])
    then show ?thesis using Inr True by (auto simp: confirmed_def is_executable_def)
  qed
qed

lemma assemble_flow_cases:
  assumes "assemble_flow r now q gates s = Inr rep" "so_far 3 gates no_progress"
  shows "blocked rep \<or> planned r now q (run_flow (classify_snapshot s)) rep \<and> confirmed r now q rep \<and>
    ss_state s = ST_ALERT"
proof -
  let ?cls = "classify_snapshot s" and ?flow = "run_flow (classify_snapshot s)"
  let ?gs = "[gate ''structure'' (if ss_state s = ST_ALERT then G_PASS else G_FAIL)
       (ss_reasons s @ [''STATE_'' @ structure_state_value (ss_state s)]),
     gate ''setup_classification'' (if is_actionable ?cls then G_PASS else G_FAIL)
       (sc_reasons ?cls @ [''TYPE_'' @ setup_type_value (rq_setup_type q)]),
     gate ''flow'' (if fr_status ?flow = FL_READY then G_PASS else G_FAIL)
       (fr_reasons ?flow @ [''STATUS_'' @ flow_status_value (fr_status ?flow)])]"
  let ?pg = "no_progress\<lparr>pg_structure := Some s, pg_setup := Some ?cls, pg_flow := Some ?flow\<rparr>"
  have ev: "evaluated (gates @ ?gs)" using assms(2)
    by (intro evaluated_append) (simp_all add: so_far_def gate_order_def)
  have none: "pg_plan ?pg = None" "pg_lifecycle ?pg = None" by (simp_all add: no_progress_def)
  show ?thesis
  proof (cases "ss_state s = ST_ALERT")
    case False
    then have fin: "finish r now q (watch_status (ss_state s)) (gates @ ?gs) ?pg = Inr rep"
      using assms(1) flow_ready_iff [of s] by (simp add: assemble_flow_def Let_def)
    have "watch_status (ss_state s) \<noteq> SHORT_READY" by (cases "ss_state s") simp_all
    then have "blocked rep"
      by (rule finish_blocked [OF fin _ ev, of "hd ?gs"]) (use False none in simp_all)
    then show ?thesis ..
  next
    case True
    then have ready: "flow_ready ?flow" by (simp add: flow_ready_iff)
    have "is_actionable ?cls" using True by (simp add: classify_snapshot_def is_actionable_def)
    then have "so_far 6 (gates @ ?gs) ?pg"
      using assms(2) ev none True ready unfolding so_far_def flow_ready_def by (auto simp: passed_def)
    moreover have "assemble_execution r now q (gates @ ?gs) ?pg ?flow = Inr rep"
      using assms(1) ready by (simp add: assemble_flow_def Let_def)
    ultimately show ?thesis using assemble_execution_cases [OF _ _ ready] True by blast
  qed
qed

section \<open>The whole assembly\<close>

definition aligned :: "'m assembly_request \<Rightarrow> bool" where
  "aligned q \<longleftrightarrow> sm_canonical_symbol (rq_symbol_map q) = rq_symbol q \<and>
     he_symbol (rq_higher_timeframe q) = rq_symbol q \<and> si_symbol (rq_structure_input q) = rq_symbol q \<and>
     strip (pr_symbol (rq_plan_request q)) = rq_symbol q \<and>
     ls_symbol (rq_lbank_snapshot q) = sm_lbank_symbol (rq_symbol_map q)"

lemma symbol_gate_passed: "passed (symbol_gate q) \<longleftrightarrow> aligned q"
  by (auto simp: symbol_gate_def Let_def passed_def aligned_def)

lemma symbol_gate_sel:
  "gd_name (symbol_gate q) = ''symbol_alignment''"
  "\<not> passed (symbol_gate q) \<Longrightarrow> gd_state (symbol_gate q) = G_FAIL"
  unfolding symbol_gate_def Let_def gate_sel passed_def by (rule refl) (metis insertI1)

lemma discovery_gate_sel:
  "gd_name (discovery_gate r q) = ''discovery_context''"
  "gd_state (discovery_gate r q) \<noteq> G_FAIL \<Longrightarrow> passed (discovery_gate r q)"
  "gd_state (discovery_gate r q) = G_FAIL \<longleftrightarrow> ar_max_discovery_records r < int (length (rq_discovery_records q))"
  by (auto simp: discovery_gate_def Let_def passed_def)

definition damaged_now :: "assembly_rules \<Rightarrow> datetime \<Rightarrow> htf_evidence \<Rightarrow> bool" where
  "damaged_now r now h \<longleftrightarrow> he_daily_damaged h \<and> he_four_hour_damaged h \<and>
     (\<exists>age. age_minutes now h = Inr age \<and> \<not> fless age (fneg (to_float (1 / 60))) \<and>
       \<not> fless (ar_max_structure_age_minutes r) age)"

lemma missing_damage_Nil: "missing_damage h = [] \<longleftrightarrow> he_daily_damaged h \<and> he_four_hour_damaged h"
  by (auto simp: missing_damage_def)

lemma evidence_degraded_Nil:
  "evidence_degraded r age = [] \<longleftrightarrow> \<not> fless age (fneg (to_float (1 / 60))) \<and> \<not> fless (ar_max_structure_age_minutes r) age"
  by (auto simp: evidence_degraded_def)

lemma higher_timeframe_gate_Inr:
  assumes "higher_timeframe_gate r now h = Inr (g, status)"
  shows "gd_name g = ''higher_timeframe_structure''" "passed g \<longleftrightarrow> damaged_now r now h"
    "\<not> passed g \<Longrightarrow> gd_state g = G_FAIL \<and> status \<noteq> SHORT_READY"
  using assms unfolding higher_timeframe_gate_def Let_def
  by (auto simp: result_simps passed_def damaged_now_def missing_damage_Nil evidence_degraded_Nil split: if_splits)

text \<open>Everything that must hold for a short to be called ready.\<close>

definition ready_evidence :: "assembly_rules \<Rightarrow> datetime \<Rightarrow> 'm assembly_request \<Rightarrow> 'm assembly_report \<Rightarrow> bool" where
  "ready_evidence r now q rep \<longleftrightarrow>
     int (length (rq_discovery_records q)) \<le> ar_max_discovery_records r \<and> aligned q \<and>
     damaged_now r now (rq_higher_timeframe q) \<and>
     fless (si_current (rq_structure_input q)) (si_low (rq_structure_input q)) \<and> confirmed r now q rep \<and>
     (\<exists>flow. planned r now q flow rep)"

lemma assemble_cases:
  assumes "assemble_signal r now q = Inr rep"
  shows "blocked rep \<or> ready_evidence r now q rep"
proof -
  let ?g1 = "discovery_gate r q" and ?g2 = "symbol_gate q"
  have s0: "so_far 0 [] no_progress" by (simp add: so_far_def evaluated_def no_progress_def)
  have none: "pg_plan no_progress = None" "pg_lifecycle no_progress = None" by (simp_all add: no_progress_def)
  note order = gate_order_def
  consider (g1) "gd_state ?g1 = G_FAIL" | (g2) "gd_state ?g1 \<noteq> G_FAIL" "\<not> passed ?g2"
    | (go) "gd_state ?g1 \<noteq> G_FAIL" "passed ?g2" by blast
  then show ?thesis
  proof cases
    case g1
    then have fin: "finish r now q AS_DATA_DEGRADED ([] @ [?g1]) no_progress = Inr rep"
      using assms by (auto simp: assemble_signal_def Let_def result_simps)
    show ?thesis using so_far_blocks [OF s0 _ _ g1 fin] none by (simp add: discovery_gate_sel order)
  next
    case g2
    have s1: "so_far 1 [?g1] no_progress"
      using so_far_next [OF s0, of ?g1 no_progress] none discovery_gate_sel(2) [OF g2(1)]
      by (simp add: discovery_gate_sel order)
    have fin: "finish r now q AS_DATA_DEGRADED ([?g1] @ [?g2]) no_progress = Inr rep"
      using assms g2 by (auto simp: assemble_signal_def Let_def result_simps)
    show ?thesis using so_far_blocks [OF s1 _ _ symbol_gate_sel(2) [OF g2(2)] fin] none
      by (simp add: symbol_gate_sel order)
  next
    case go
    have s1: "so_far 1 [?g1] no_progress"
      using so_far_next [OF s0, of ?g1 no_progress] none discovery_gate_sel(2) [OF go(1)]
      by (simp add: discovery_gate_sel order)
    have s2: "so_far 2 [?g1, ?g2] no_progress"
      using so_far_next [OF s1, of ?g2 no_progress] none go(2) by (simp add: symbol_gate_sel order numeral_2_eq_2)
    obtain g3 status where g3: "higher_timeframe_gate r now (rq_higher_timeframe q) = Inr (g3, status)"
      using assms go by (auto simp: assemble_signal_def Let_def result_simps)
    note g3s = higher_timeframe_gate_Inr [OF g3]
    show ?thesis
    proof (cases "passed g3")
      case False
      then have fin: "finish r now q status ([?g1, ?g2] @ [g3]) no_progress = Inr rep"
        using assms go g3 by (auto simp: assemble_signal_def Let_def result_simps)
      show ?thesis using so_far_blocks [OF s2 _ _ _ fin] none g3s False by (simp add: order)
    next
      case True
      have s3: "so_far 3 [?g1, ?g2, g3] no_progress"
        using so_far_next [OF s2, of g3 no_progress] none True g3s by (simp add: order numeral_3_eq_3)
      show ?thesis
      proof (cases "analyze_structure (rq_structure_input q)")
        case (Inl e)
        then have fin: "finish r now q AS_DATA_DEGRADED
            ([?g1, ?g2, g3] @ [gate ''structure'' G_FAIL [error_reason e]]) no_progress = Inr rep"
          using assms go g3 True by (auto simp: assemble_signal_def Let_def result_simps)
        show ?thesis using so_far_blocks [OF s3 _ _ _ fin] none by (simp add: order)
      next
        case (Inr s)
        then have "assemble_flow r now q [?g1, ?g2, g3] s = Inr rep"
          using assms go g3 True by (auto simp: assemble_signal_def Let_def result_simps)
        from assemble_flow_cases [OF this s3] show ?thesis
          using analyze_structure_Inr(5) [OF Inr] True g3s(2) go discovery_gate_sel(3) [of r q]
          by (auto simp: ready_evidence_def symbol_gate_passed not_less)
      qed
    qed
  qed
qed

text \<open>The same in terms of the inputs only.\<close>

definition ready_conditions :: "assembly_rules \<Rightarrow> datetime \<Rightarrow> 'm assembly_request \<Rightarrow> bool" where
  "ready_conditions r now q \<longleftrightarrow>
     int (length (rq_discovery_records q)) \<le> ar_max_discovery_records r \<and> aligned q \<and>
     damaged_now r now (rq_higher_timeframe q) \<and>
     (\<exists>s. analyze_structure (rq_structure_input q) = Inr s \<and> ss_state s = ST_ALERT) \<and>
     (\<exists>v. validate_lbank_execution (cr_lbank_execution (ar_consensus r)) now (rq_lbank_snapshot q) = Inr v \<and>
       is_executable v) \<and>
     (\<exists>c. build_cross_exchange_consensus (ar_consensus r) now (rq_symbol_map q) (rq_lbank_snapshot q)
         (rq_benchmark_snapshots q) = Inr c \<and> allows_execution_confirmation c) \<and>
     (\<exists>dev. entry_deviation_bps q = Inr dev \<and> dval dev \<le> dval (ar_max_entry_deviation_bps r)) \<and>
     (\<exists>flow p. flow_ready flow \<and> build_plan flow (rq_plan_request q) = Inr p)"

lemma build_plan_flow: "flow_ready f \<Longrightarrow> flow_ready f' \<Longrightarrow> build_plan f r = build_plan f' r"
  by (simp add: build_plan_def)

lemma assemble_ready:
  assumes "assemble_signal r now q = Inr rep" "ready_conditions r now q"
  shows "rp_status rep = SHORT_READY"
proof -
  obtain s v c dev flow p where
    s: "analyze_structure (rq_structure_input q) = Inr s" "ss_state s = ST_ALERT" and
    v: "validate_lbank_execution (cr_lbank_execution (ar_consensus r)) now (rq_lbank_snapshot q) = Inr v" "lv_status v = LB_OK" and
    c: "build_cross_exchange_consensus (ar_consensus r) now (rq_symbol_map q) (rq_lbank_snapshot q)
         (rq_benchmark_snapshots q) = Inr c" "allows_execution_confirmation c" and
    dev: "entry_deviation_bps q = Inr dev" "\<not> dval (ar_max_entry_deviation_bps r) < dval dev" and
    p: "flow_ready flow" "build_plan flow (rq_plan_request q) = Inr p" and
    g1: "gd_state (discovery_gate r q) \<noteq> G_FAIL" and g2: "passed (symbol_gate q)" and
    d: "damaged_now r now (rq_higher_timeframe q)"
    using assms(2) unfolding ready_conditions_def is_executable_def
    by (auto simp: discovery_gate_sel symbol_gate_passed not_less)
  let ?flow = "run_flow (classify_snapshot s)"
  have flow: "flow_ready ?flow" using s(2) by (simp add: flow_ready_iff)
  have plan: "build_plan ?flow (rq_plan_request q) = Inr p" using build_plan_flow [OF flow p(1)] p(2) by simp
  have ready: "pd_status p = PLAN_READY" using build_plan_Inr(1) [OF plan] flow by simp
  obtain g3 st where g3: "higher_timeframe_gate r now (rq_higher_timeframe q) = Inr (g3, st)" "passed g3"
  proof -
    obtain age where "age_minutes now (rq_higher_timeframe q) = Inr age" using d by (auto simp: damaged_now_def)
    then obtain g st where "higher_timeframe_gate r now (rq_higher_timeframe q) = Inr (g, st)"
      by (fastforce simp: higher_timeframe_gate_def Let_def)
    with that higher_timeframe_gate_Inr(2) d show thesis by blast
  qed
  have "assemble_flow r now q [discovery_gate r q, symbol_gate q, g3] s = Inr rep"
    using assms(1) g1 g2 g3 s(1) by (auto simp: assemble_signal_def result_simps)
  then obtain gs pg where "assemble_execution r now q gs pg ?flow = Inr rep"
    using flow by (auto simp: assemble_flow_def Let_def)
  then obtain gs pg where "assemble_consensus r now q gs pg ?flow = Inr rep"
    using v by (auto simp: assemble_execution_def Let_def)
  then obtain gs pg where "assemble_entry r now q gs pg ?flow = Inr rep"
    using c by (auto simp: assemble_consensus_def Let_def)
  then obtain gs pg where "assemble_plan r now q gs pg ?flow = Inr rep"
    using dev by (auto simp: assemble_entry_def Let_def)
  then obtain gs' pg' where "finish r now q SHORT_READY gs' pg' = Inr rep"
    using plan ready by (auto simp: assemble_plan_def Let_def result_simps)
  then show ?thesis by (rule finish_fields(1))
qed

lemma ready_evidence_conditions: "ready_evidence r now q rep \<Longrightarrow> assemble_signal r now q = Inr rep \<Longrightarrow> ready_conditions r now q"
proof -
  assume e: "ready_evidence r now q rep" and a: "assemble_signal r now q = Inr rep"
  obtain flow where p: "planned r now q flow rep" using e by (auto simp: ready_evidence_def)
  then have "flow_ready flow" using build_plan_Inr(1) by (auto simp: planned_def)
  moreover have "\<exists>s. analyze_structure (rq_structure_input q) = Inr s \<and> ss_state s = ST_ALERT"
  proof (cases "analyze_structure (rq_structure_input q)")
    case (Inr s)
    then show ?thesis using analyze_structure_Inr(5) e by (auto simp: ready_evidence_def)
  next
    case (Inl err)
    have "rp_status rep \<noteq> SHORT_READY"
      using a Inl unfolding assemble_signal_def Let_def
      by (auto simp: result_simps dest!: finish_fields(1) higher_timeframe_gate_Inr(3) split: if_splits)
    then show ?thesis using p by (simp add: planned_def)
  qed
  ultimately show ?thesis using e p unfolding ready_evidence_def ready_conditions_def confirmed_def planned_def by blast
qed

lemma assemble_finishes:
  assumes "assemble_signal r now q = Inr rep"
  shows "\<exists>st gs pg. finish r now q st gs pg = Inr rep"
proof -
  have plan: "\<exists>st gs pg. finish r now q st gs pg = Inr rep" if "assemble_plan r now q gs pg f = Inr rep" for gs pg f
    using that by (auto simp: assemble_plan_def Let_def result_simps split: sum.splits if_splits)
  have entry: "\<exists>st gs pg. finish r now q st gs pg = Inr rep" if "assemble_entry r now q gs pg f = Inr rep" for gs pg f
    using that plan by (auto simp: assemble_entry_def Let_def result_simps split: if_splits)
  have cons: "\<exists>st gs pg. finish r now q st gs pg = Inr rep" if "assemble_consensus r now q gs pg f = Inr rep" for gs pg f
    using that entry by (auto simp: assemble_consensus_def Let_def split: sum.splits if_splits)
  have exec: "\<exists>st gs pg. finish r now q st gs pg = Inr rep" if "assemble_execution r now q gs pg f = Inr rep" for gs pg f
    using that cons by (auto simp: assemble_execution_def Let_def split: sum.splits if_splits)
  have flow: "\<exists>st gs pg. finish r now q st gs pg = Inr rep" if "assemble_flow r now q gs s = Inr rep" for gs s
    using that exec by (auto simp: assemble_flow_def Let_def split: if_splits)
  show ?thesis using assms flow
    by (cases "analyze_structure (rq_structure_input q)")
      (auto simp: assemble_signal_def Let_def result_simps split: if_splits)
qed

end
