(* ===== verification/Signal_Assembly.thy ===== *)
theory Signal_Assembly
  imports Signals
begin

text \<open>
  What \<open>assemble_signal\<close> guarantees: the gates of every report, when a short is ready, what a blocked
  report carries, and that the assembly returns.
\<close>

section \<open>Properties\<close>

text \<open>
  C1: a report says \<open>SHORT_READY\<close> exactly when every requirement holds of the inputs: the discovery context is
  within its limit, all symbols agree, the Daily and the 4H structure are both damaged by evidence
  neither stale nor from the future, the price is below the reference range, LBank is executable,
  the other exchanges confirm its price, the entry is close to it, and a plan can be built.
\<close>

theorem short_ready_iff:
  assumes "assemble_signal r now q = Inr rep"
  shows "is_short_ready rep \<longleftrightarrow> ready_conditions r now q"
  using assemble_cases [OF assms] assemble_ready [OF assms] ready_evidence_conditions [OF _ assms]
  by (auto simp: is_short_ready_def blocked_def)

text \<open>
  C6: every report lists all eleven gates in their fixed order, and it is \<open>SHORT_READY\<close> exactly when each of
  them passed (or passed with a warning); no gate can be bypassed.
\<close>

theorem assembly_gates:
  assumes "assemble_signal r now q = Inr rep"
  shows "map gd_name (rp_gates rep) = gate_order \<and>
    (is_short_ready rep \<longleftrightarrow> (\<forall>g \<in> set (rp_gates rep). passed g))"
proof -
  obtain st gs pg where "finish r now q st gs pg = Inr rep" using assemble_finishes [OF assms] by blast
  then have "map gd_name (rp_gates rep) = gate_order" using finish_fields(2) complete_names by metis
  moreover have "is_short_ready rep \<longleftrightarrow> (\<forall>g \<in> set (rp_gates rep). passed g)"
    using assemble_cases [OF assms]
    by (auto simp: is_short_ready_def blocked_def ready_evidence_def planned_def passed_def)
  ultimately show ?thesis ..
qed

text \<open>
  a report that is not ready is inert: some gate failed, its plan is on hold and its lifecycle is pending, so
  nothing downstream can act on it. A ready one has a ready plan and an active lifecycle.
\<close>

theorem blocked_is_inert:
  assumes "assemble_signal r now q = Inr rep"
  shows "if is_short_ready rep then pd_status (rp_plan rep) = PLAN_READY \<and> lc_state (rp_lifecycle rep) = LS_ACTIVE
    else (\<exists>g \<in> set (rp_gates rep). gd_state g = G_FAIL) \<and> pd_status (rp_plan rep) = PLAN_HOLD \<and>
      lc_state (rp_lifecycle rep) = LS_PENDING"
  using assemble_cases [OF assms]
  by (auto simp: is_short_ready_def blocked_def ready_evidence_def planned_def)

section \<open>Totality\<close>

lemma shortest_repr_pos:
  assumes "0 < a" "shortest_repr k n a = (c, m)"
  shows "0 < c"
  using assms(2)
proof (induction k arbitrary: n)
  case 0
  then show ?case using assms(1) by simp
next
  case (Suc k)
  have "0 < x" if "x \<in> set (repr_candidates n a)" for x
  proof -
    have "f64_round x = a" using that by (simp add: repr_candidates_def Let_def split: if_splits)
    then show ?thesis using f64.R_nonpos [of x] assms(1) by (cases "0 < x") auto
  qed
  with Suc show ?case by (fastforce split: list.splits)
qed

lemma decimal_of_repr_pos: "0 < v \<Longrightarrow> 0 < dval (decimal_of_repr v)"
  using shortest_repr_pos [of v] by (auto simp: decimal_of_repr_def Let_def split: prod.split)

definition book_priced :: "decimal lbank_snapshot \<Rightarrow> bool" where
  "book_priced s \<longleftrightarrow> 1 / 10 ^ 20 \<le> dval (ll_price (best_bid (ls_order_book s))) \<and>
     1 / 10 ^ 20 \<le> dval (ll_price (best_ask (ls_order_book s)))"

lemma mid_price_pos:
  assumes "book_priced s"
  shows "\<exists>m. executable_mid_price s = Inr m \<and> 0 < dval m"
proof -
  let ?a = "ll_price (best_bid (ls_order_book s))" and ?b = "ll_price (best_ask (ls_order_book s))"

  have r: "dec_round (1 / 10 ^ 20) = 1 / 10 ^ 20" "dec_round (2 / 10 ^ 20) = 2 / 10 ^ 20"
    using dec_round_exact [of 1 "-20"] dec_round_exact [of 2 "-20"]
    by (simp_all add: power_int_minus inverse_eq_divide)
  obtain q where q: "ddiv (dadd ?a ?b) (dec 2 0) = Inr q" "dval q = dec_round (dval (dadd ?a ?b) / 2)"
    using ddiv_succeeds [of "dec 2 0" "dadd ?a ?b"] by auto
  have "2 / 10 ^ 20 \<le> dval (dadd ?a ?b)" unfolding dval_dadd
    using assms by (intro dec.R_ge r(2)) (simp add: book_priced_def)
  then have "1 / 10 ^ 20 \<le> dval q" unfolding q(2) by (intro dec.R_ge r(1)) simp
  then have "0 < dval q" by (rule less_le_trans [rotated]) simp
  with q(1) show ?thesis by (simp add: executable_mid_price_def)
qed

definition clock_ok :: "assembly_rules \<Rightarrow> datetime \<Rightarrow> bool" where
  "clock_ok r now \<longleftrightarrow> aware now \<and> 0 < ar_lifecycle_ttl_minutes r \<and> 0 \<le> local_us now \<and>
     local_us now + ar_lifecycle_ttl_minutes r * minute_us < max_us"

lemma create_lifecycle_total: "clock_ok r now \<Longrightarrow> \<exists>l. create_lifecycle p now (ar_lifecycle_ttl_minutes r) = Inr l"
  by (auto simp: clock_ok_def create_lifecycle_def require_aware_def dt_add_def Let_def minute_us_def)

lemma finish_total:
  assumes "clock_ok r now" "strip (rq_symbol q) \<noteq> ''''"
  shows "\<exists>rep. finish r now q st gs pg = Inr rep"
proof -
  have "\<exists>p. PlanDraft (hold_draft (rq_symbol q) ns) = Inr p" for ns
    using assms(2) by (simp add: PlanDraft_def hold_draft_def Let_def finite_float_def)
  then obtain p where p: "(case pg_plan pg of Some p \<Rightarrow> Inr p
      | None \<Rightarrow> PlanDraft (hold_draft (rq_symbol q) (if gate_reasons (complete_gates gs) \<noteq> []
          then gate_reasons (complete_gates gs) else [''ASSEMBLY_HELD'']))) = Inr p"
    by (cases "pg_plan pg") auto
  obtain l where l: "(case pg_lifecycle pg of Some l \<Rightarrow> Inr l
      | None \<Rightarrow> create_lifecycle p now (ar_lifecycle_ttl_minutes r)) = Inr l"
    using create_lifecycle_total [OF assms(1), of p] by (cases "pg_lifecycle pg") auto
  show ?thesis using p l assms unfolding finish_def Let_def
    by (simp add: SignalAssemblyReport_def clock_ok_def)
qed

lemma entry_total:
  assumes "book_priced (rq_lbank_snapshot q)" "0 < fval (pr_entry (rq_plan_request q))"
  shows "\<exists>d. entry_deviation_bps q = Inr d"
proof -
  obtain m where m: "executable_mid_price (rq_lbank_snapshot q) = Inr m" "0 < dval m"
    using mid_price_pos [OF assms(1)] by blast
  obtain d where "ddiv (dabs (dsub (decimal_of_repr (fval (pr_entry (rq_plan_request q)))) m)) m = Inr d"
    using ddiv_succeeds [of m "dabs (dsub (decimal_of_repr (fval (pr_entry (rq_plan_request q)))) m)"] m(2) by auto
  then show ?thesis using m decimal_of_repr_pos [OF assms(2)] by (simp add: entry_deviation_bps_def Let_def)
qed

lemma assembly_returns:
  assumes "clock_ok r now" "strip (rq_symbol q) \<noteq> ''''" "aware (he_observed_at (rq_higher_timeframe q))"
    "book_priced (rq_lbank_snapshot q)" "0 < fval (pr_entry (rq_plan_request q))"
  shows "\<exists>rep. assemble_signal r now q = Inr rep"
proof -
  note fin = finish_total [OF assms(1,2)]
  have plan: "\<exists>rep. assemble_plan r now q gs pg f = Inr rep" for gs pg f
  proof (cases "build_plan f (rq_plan_request q)")
    case (Inl e)
    then show ?thesis using fin by (simp add: assemble_plan_def)
  next
    case (Inr p)
    obtain l where "create_lifecycle p now (ar_lifecycle_ttl_minutes r) = Inr l"
      using create_lifecycle_total [OF assms(1)] by blast
    then show ?thesis using fin Inr by (simp add: assemble_plan_def Let_def)
  qed
  obtain d where d: "entry_deviation_bps q = Inr d" using entry_total [OF assms(4,5)] by blast
  have entry: "\<exists>rep. assemble_entry r now q gs pg f = Inr rep" for gs pg f
    using fin plan d by (simp add: assemble_entry_def Let_def)
  have cons: "\<exists>rep. assemble_consensus r now q gs pg f = Inr rep" for gs pg f
    using fin entry by (simp add: assemble_consensus_def Let_def split: sum.split)
  have exec: "\<exists>rep. assemble_execution r now q gs pg f = Inr rep" for gs pg f
    using fin cons by (simp add: assemble_execution_def Let_def split: sum.split)
  have flow: "\<exists>rep. assemble_flow r now q gs s = Inr rep" for gs s
    using fin exec by (simp add: assemble_flow_def Let_def)
  have aware: "aware now" using assms(1) by (simp add: clock_ok_def)
  obtain g st where g: "higher_timeframe_gate r now (rq_higher_timeframe q) = Inr (g, st)"
    using assms(3) aware by (fastforce simp: higher_timeframe_gate_def age_minutes_def dt_diff_def Let_def)
  have "\<exists>rep. (case analyze_structure (rq_structure_input q) of
      Inl e \<Rightarrow> finish r now q AS_DATA_DEGRADED [discovery_gate r q, symbol_gate q, g, gate ''structure'' G_FAIL [error_reason e]] no_progress
    | Inr s \<Rightarrow> assemble_flow r now q [discovery_gate r q, symbol_gate q, g] s) = Inr rep"
    using fin flow by (simp split: sum.split)
  then show ?thesis using fin g aware by (simp add: assemble_signal_def require_aware_def Let_def)
qed

text \<open>
  C27: given a sane clock, a symbol, aware evidence, a priced LBank book and a positive entry, the assembly always returns a
  report: every failure of structure analysis, LBank validation, consensus or planning becomes a
  failed gate, none escapes as an exception.
\<close>

theorem assembly_total:
  assumes "clock_ok r now" "strip (rq_symbol q) \<noteq> ''''" "aware (he_observed_at (rq_higher_timeframe q))"
    "book_priced (rq_lbank_snapshot q)" "0 < fval (pr_entry (rq_plan_request q))"
  shows "\<exists>rep. assemble_signal r now q = Inr rep"
  by (rule assembly_returns [OF assms])

section \<open>A sample request\<close>

definition sample_evidence :: htf_evidence where
  "sample_evidence = \<lparr>he_symbol = ''ABC'', he_market_symbol = ''ABCUSDT'', he_observed_at = sample_now,
     he_daily_damaged = True, he_four_hour_damaged = True, he_origin = DERIVED,
     he_daily_zone_id = Some ''zd'', he_daily_event_id = Some ''ed'',
     he_four_hour_zone_id = Some ''zh'', he_four_hour_event_id = Some ''eh'', he_reasons = []\<rparr>"

definition sample_assembly :: "rat \<Rightarrow> unit assembly_request" where
  "sample_assembly entry = \<lparr>rq_symbol = ''ABC'', rq_setup_type = SS_FAILED_PULLBACK,
     rq_higher_timeframe = sample_evidence,
     rq_structure_input = \<lparr>si_symbol = ''ABC'', si_current = Fl 99, si_low = Fl 100, si_high = Fl 110\<rparr>,
     rq_lbank_snapshot = sample_lbank, rq_benchmark_snapshots = sample_benchmarks,
     rq_symbol_map = sample_map, rq_plan_request = (sample_request 2)\<lparr>pr_entry := Fl entry\<rparr>,
     rq_discovery_records = []\<rparr>"

lemma sample_request_entry: "(sample_request 2)\<lparr>pr_entry := Fl 100\<rparr> = sample_request 2"
  by (simp add: sample_request_def)

lemma sample_book: "book_priced sample_lbank"
  by (simp add: book_priced_def sample_lbank_def best_bid_def best_ask_def sample_level_def power_int_minus)

lemma sample_clock: "clock_ok default_assembly_rules sample_now"
  by (simp add: clock_ok_def default_assembly_rules_def sample_now_def aware_def minute_us_def max_us_def day_us_def)

lemma sample_returns: "\<exists>rep. assemble_signal default_assembly_rules sample_now (sample_assembly 100) = Inr rep"
  by (rule assembly_returns [OF sample_clock])
    (simp_all add: sample_assembly_def sample_evidence_def sample_now_def aware_def sample_book strip_def is_space_def spaces_def)

lemma sample_mid: "executable_mid_price sample_lbank = Inr m \<Longrightarrow> dval m = 100"
  by (auto simp: executable_mid_price_def sample_lbank_def best_bid_def best_ask_def sample_level_def dval_dadd
      power_int_minus dest!: ddiv_Inr)

lemma sample_entry: "\<exists>dev. entry_deviation_bps (sample_assembly 100) = Inr dev \<and> dval dev = 0"
proof -
  have e: "dval (decimal_of_repr 100) = 100" by code_simp
  obtain m where m: "executable_mid_price sample_lbank = Inr m" "0 < dval m" using mid_price_pos [OF sample_book] by blast
  note v = sample_mid [OF m(1)]
  obtain d where d: "ddiv (dabs (dsub (decimal_of_repr 100) m)) m = Inr d" "dval d = 0"
    using ddiv_succeeds [of m "dabs (dsub (decimal_of_repr 100) m)"] v e by (auto simp: dval_dabs dval_dsub)
  then show ?thesis using m v e by (simp add: entry_deviation_bps_def sample_assembly_def Let_def dval_dmul)
qed

lemma sample_damaged: "damaged_now default_assembly_rules sample_now sample_evidence"
proof -
  have "age_minutes sample_now sample_evidence = Inr (Fl 0)"
    by (simp add: age_minutes_def dt_diff_def sample_evidence_def total_seconds_0 to_float_def f64_max_def)
  moreover have "\<not> fless (Fl 0) (fneg (to_float (1 / 60)))"
    using f64.R_nonneg [of "1 / 60"] by (simp add: to_float_def Let_def f64_max_def)
  ultimately show ?thesis
    by (simp add: damaged_now_def) (simp add: sample_evidence_def default_assembly_rules_def)
qed

lemma sample_structure:
  "\<exists>s. analyze_structure (rq_structure_input (sample_assembly e)) = Inr s \<and> ss_state s = ST_ALERT"
  by (simp add: analyze_structure_def StructureSnapshot_def sample_assembly_def Let_def positive_finite_float_def
      finite_float_def strip_def is_space_def spaces_def)

lemma sample_conditions: "ready_conditions default_assembly_rules sample_now (sample_assembly 100)"
proof -
  have r: "ar_consensus default_assembly_rules = default_consensus_rules"
    "cr_lbank_execution default_consensus_rules = default_lbank_rules"
    "dval (ar_max_entry_deviation_bps default_assembly_rules) = 50" "ar_max_discovery_records default_assembly_rules = 50"
    by (simp_all add: default_assembly_rules_def default_consensus_rules_def)
  have q: "rq_lbank_snapshot (sample_assembly 100) = sample_lbank" "rq_symbol_map (sample_assembly 100) = sample_map"
    "rq_benchmark_snapshots (sample_assembly 100) = sample_benchmarks" "rq_plan_request (sample_assembly 100) = sample_request 2"
    "rq_higher_timeframe (sample_assembly 100) = sample_evidence" "rq_discovery_records (sample_assembly 100) = []"
    by (simp_all add: sample_assembly_def sample_request_entry)
  have "aligned (sample_assembly 100)"
    by (simp add: aligned_def sample_assembly_def sample_map_def sample_evidence_def sample_request_def sample_lbank_def
        strip_def is_space_def spaces_def)
  moreover have "\<exists>c. sample_consensus = Inr c \<and> allows_execution_confirmation c"
    using sample_confirmed by (auto simp: allows_execution_confirmation_def)
  moreover have "\<exists>dev. entry_deviation_bps (sample_assembly 100) = Inr dev \<and> dval dev \<le> 50"
    using sample_entry by force
  moreover have "\<exists>flow p. flow_ready flow \<and> build_plan flow (sample_request 2) = Inr p"
    using sample_plan by (intro exI [of _ sample_flow]) (auto simp: sample_flow_def flow_ready_def)
  ultimately show ?thesis using sample_damaged sample_structure [of 100] sample_lbank_ok
    unfolding ready_conditions_def r q by (simp add: is_executable_def)
qed

theorem short_ready_iff_witness:
  "\<exists>rep. assemble_signal default_assembly_rules sample_now (sample_assembly 100) = Inr rep \<and> is_short_ready rep"
  using sample_returns short_ready_iff sample_conditions by blast

theorem assembly_gates_witness:
  "\<exists>rep. assemble_signal default_assembly_rules sample_now (sample_assembly 100) = Inr rep \<and>
     map gd_name (rp_gates rep) = gate_order"
  using sample_returns assembly_gates by blast

theorem blocked_is_inert_witness:
  "\<exists>rep. assemble_signal default_assembly_rules sample_now (sample_assembly 100) = Inr rep \<and>
     (is_short_ready rep \<or> lc_state (rp_lifecycle rep) = LS_PENDING)"
  using sample_returns blocked_is_inert by meson

theorem assembly_total_witness:
  "\<exists>rep. assemble_signal default_assembly_rules sample_now (sample_assembly 100) = Inr rep"
  by (rule assembly_total [OF sample_clock])
    (simp_all add: sample_assembly_def sample_evidence_def sample_now_def aware_def sample_book strip_def is_space_def spaces_def)

text \<open>
  The hypothesis on the entry is needed: \<open>PlanRequest\<close> accepts a negative entry, and the deviation of the
  entry, which is computed outside any \<open>try\<close>, then raises; the planning gate, which rejects such values,
  is never reached.
\<close>

lemma negative_entry_raises:
  assumes "fval (pr_entry (rq_plan_request q)) < 0" "book_priced (rq_lbank_snapshot q)"
  shows "entry_deviation_bps q = Inl (ValueError ''entry and LBank reference must be positive'')"
proof -
  let ?v = "fval (pr_entry (rq_plan_request q))"
  obtain c n where c: "shortest_repr 17 1 \<bar>?v\<bar> = (c, n)" by fastforce
  have "0 < c" using shortest_repr_pos [OF _ c] assms(1) by simp
  then have "dval (decimal_of_repr ?v) < 0" using assms(1) c by (simp add: decimal_of_repr_def Let_def)
  then show ?thesis using mid_price_pos [OF assms(2)] by (auto simp: entry_deviation_bps_def Let_def)
qed

lemma negative_entry_escapes:
  "assemble_signal default_assembly_rules sample_now (sample_assembly (- 1)) =
     Inl (ValueError ''entry and LBank reference must be positive'')"
proof -
  let ?q = "sample_assembly (- 1)" and ?r = default_assembly_rules
  have r: "ar_consensus ?r = default_consensus_rules" "cr_lbank_execution default_consensus_rules = default_lbank_rules"
    by (simp_all add: default_assembly_rules_def default_consensus_rules_def)
  have q: "rq_lbank_snapshot ?q = sample_lbank" "rq_symbol_map ?q = sample_map"
    "rq_benchmark_snapshots ?q = sample_benchmarks" "rq_higher_timeframe ?q = sample_evidence"
    by (simp_all add: sample_assembly_def)
  have entry: "entry_deviation_bps ?q = Inl (ValueError ''entry and LBank reference must be positive'')"
    by (rule negative_entry_raises) (simp_all add: sample_assembly_def sample_book)
  have "aligned ?q"
    by (simp add: aligned_def sample_assembly_def sample_map_def sample_evidence_def sample_request_def sample_lbank_def
        strip_def is_space_def spaces_def)
  then have g2: "passed (symbol_gate ?q)" by (simp add: symbol_gate_passed)
  have g1: "gd_state (discovery_gate ?r ?q) \<noteq> G_FAIL"
    by (simp add: discovery_gate_sel sample_assembly_def default_assembly_rules_def)
  obtain g3 st where g3: "higher_timeframe_gate ?r sample_now sample_evidence = Inr (g3, st)"
    by (fastforce simp: higher_timeframe_gate_def age_minutes_def dt_diff_def sample_evidence_def Let_def)
  have p3: "passed g3" using higher_timeframe_gate_Inr(2) [OF g3] sample_damaged by simp
  obtain s where s: "analyze_structure (rq_structure_input ?q) = Inr s" "ss_state s = ST_ALERT"
    using sample_structure by blast
  obtain c where c: "sample_consensus = Inr c" "allows_execution_confirmation c"
    using sample_confirmed by (auto simp: allows_execution_confirmation_def)
  have "assemble_execution ?r sample_now ?q gs pg f = Inl (ValueError ''entry and LBank reference must be positive'')" for gs pg f
    by (simp add: assemble_execution_def assemble_consensus_def assemble_entry_def Let_def q r sample_lbank_ok c entry)
  then have "assemble_flow ?r sample_now ?q gs s = Inl (ValueError ''entry and LBank reference must be positive'')" for gs
    using s(2) flow_ready_iff [of s] by (simp add: assemble_flow_def Let_def)
  then show ?thesis using g1 g2 g3 p3 s(1)
    by (simp add: assemble_signal_def require_aware_def Let_def q) (simp add: sample_now_def aware_def)
qed

end
