(* ===== verification/Providers.thy ===== *)
theory Providers
  imports Signal_Assembly Reclaim_Total
begin

text \<open>
  How derived evidence reaches the assembly: \<^verbatim>\<open>app/signals/htf_provider.py\<close>,
  \<^verbatim>\<open>app/signals/reclaim_provider.py\<close>, \<^verbatim>\<open>app/signals/pipeline.py\<close> and the in-memory store of
  \<^verbatim>\<open>app/signals/store.py\<close>. The database queries are arguments: \<open>latest_zone\<close>, \<open>latest_event\<close> and
  \<open>latest_attempt\<close> give the row a query returns, if any.
\<close>

section \<open>Higher-timeframe evidence\<close>

fun event_reason :: "string \<Rightarrow> event option \<Rightarrow> string" where
  "event_reason label None = label @ ''_NO_STRUCTURE_EVENT''"
| "event_reason label (Some e) = label @ ''_EVENT_'' @ event_state_value (se_state e)"

definition broken_event :: "event option \<Rightarrow> bool" where
  "broken_event e \<longleftrightarrow> (case e of None \<Rightarrow> False | Some x \<Rightarrow> se_state x = CONFIRMED_BREAK)"

type_synonym 'a query = "candle_source \<Rightarrow> string \<Rightarrow> candle_interval \<Rightarrow> 'a option"

definition load_htf_evidence ::
  "candle_source \<Rightarrow> zone query \<Rightarrow> event query \<Rightarrow> string \<Rightarrow> string \<Rightarrow> htf_evidence result" where
  "load_htf_evidence src latest_zone latest_event canonical market =
     (let symbol = strip canonical; mkt = upper (strip market) in
      if symbol = '''' \<or> mkt = '''' then Inl (ValueError ''canonical_symbol and market_symbol are required'')
      else case (latest_zone src mkt D1, latest_zone src mkt H4) of
        (Some dz, Some hz) \<Rightarrow>
          let de = latest_event src mkt D1; hev = latest_event src mkt H4;
            observed = max_by instant (last_test_at dz)
              (last_test_at hz # (case de of None \<Rightarrow> [] | Some e \<Rightarrow> [se_observed_at e])
               @ (case hev of None \<Rightarrow> [] | Some e \<Rightarrow> [se_observed_at e])) in
          HigherTimeframeStructureEvidence
            \<lparr>he_symbol = symbol, he_market_symbol = mkt, he_observed_at = observed,
             he_daily_damaged = broken_event de, he_four_hour_damaged = broken_event hev,
             he_origin = DERIVED, he_daily_zone_id = Some (sz_id dz),
             he_daily_event_id = (if broken_event de then map_option se_id de else None),
             he_four_hour_zone_id = Some (sz_id hz),
             he_four_hour_event_id = (if broken_event hev then map_option se_id hev else None),
             he_reasons = [event_reason ''DAILY'' de, event_reason ''FOUR_HOUR'' hev,
               ''SOURCE_'' @ source_value src]\<rparr>
      | _ \<Rightarrow> Inl (ValueError ''derived Daily and 4H support evidence is required''))"

section \<open>Setup evidence\<close>

fun outcome_value :: "reclaim_outcome \<Rightarrow> string" where
  "outcome_value NO_ATTEMPT = ''NO_ATTEMPT''"
| "outcome_value ATTEMPTING = ''ATTEMPTING''"
| "outcome_value SUCCESSFUL_RECLAIM = ''SUCCESSFUL_RECLAIM''"
| "outcome_value FAILED_RECLAIM = ''FAILED_RECLAIM''"
| "outcome_value FAILED_PULLBACK = ''FAILED_PULLBACK''"
| "outcome_value CONTINUATION = ''CONTINUATION''"
| "outcome_value RO_EXPIRED = ''EXPIRED''"
| "outcome_value RO_INVALIDATED = ''INVALIDATED''"

text \<open>\<open>ShortSetupType(value)\<close> raises for \<open>NONE\<close>.\<close>

fun short_type_of :: "derived_setup_type \<Rightarrow> short_setup_type result" where
  "short_type_of BREAKDOWN_SHORT = Inr SS_BREAKDOWN"
| "short_type_of FAILED_PULLBACK_SHORT = Inr SS_FAILED_PULLBACK"
| "short_type_of CONTINUATION_SHORT = Inr SS_CONTINUATION"
| "short_type_of DS_NONE = Inl (ValueError (CHR 0x27 # ''NONE'' @ CHR 0x27 # '' is not a valid ShortSetupType''))"

definition load_setup_evidence ::
  "candle_source \<Rightarrow> (candle_source \<Rightarrow> string \<Rightarrow> attempt option) \<Rightarrow> string \<Rightarrow> attempt result" where
  "load_setup_evidence src latest_attempt market =
     (let mkt = upper (strip market) in
      if mkt = '''' then Inl (ValueError ''market_symbol is required'')
      else case latest_attempt src mkt of
        None \<Rightarrow> Inl (ValueError ''derived reclaim/setup evidence is required'')
      | Some a \<Rightarrow> Inr a)"

record 'm derived_request =
  de_request :: "'m assembly_request"
  de_evidence :: attempt

definition build_request ::
  "candle_source \<Rightarrow> (candle_source \<Rightarrow> string \<Rightarrow> attempt option) \<Rightarrow> 'm assembly_request \<Rightarrow> 'm derived_request result" where
  "build_request src latest_attempt q =
     (let h = rq_higher_timeframe q in
      and_then (load_setup_evidence src latest_attempt (he_market_symbol h)) (\<lambda>a.
      if ra_readiness a \<noteq> QUALIFIED
        then Inl (ValueError (''setup evidence is not qualified: '' @ outcome_value (ra_outcome a)))
      else if ra_setup_type a = DS_NONE
        then Inl (ValueError ''qualified setup evidence cannot have type NONE'')
      else if ra_symbol a \<noteq> he_market_symbol h
        then Inl (ValueError ''setup evidence symbol does not match structure evidence'')
      else if (Some (ra_zone_id a), Some (ra_break_event_id a)) \<notin>
          {(he_daily_zone_id h, he_daily_event_id h), (he_four_hour_zone_id h, he_four_hour_event_id h)}
        then Inl (ValueError ''setup evidence is not linked to active structure evidence'')
      else and_then (short_type_of (ra_setup_type a)) (\<lambda>t.
      and_then (SignalAssemblyRequest (q\<lparr>rq_setup_type := t\<rparr>)) (\<lambda>q'.
      Inr \<lparr>de_request = q', de_evidence = a\<rparr>))))"

section \<open>Pipeline\<close>

text \<open>The in-memory store is the list of persisted reports.\<close>

definition memory_persist :: "'m assembly_report list \<Rightarrow> 'm assembly_report \<Rightarrow> 'm assembly_report list" where
  "memory_persist reports rep = reports @ [rep]"

definition assemble_and_persist ::
  "assembly_rules \<Rightarrow> datetime \<Rightarrow> 'm assembly_request \<Rightarrow> 'm assembly_report list \<Rightarrow>
     ('m assembly_report \<times> 'm assembly_report list) result" where
  "assemble_and_persist r now q reports =
     and_then (assemble_signal r now q) (\<lambda>rep. Inr (rep, memory_persist reports rep))"

section \<open>Laws\<close>

lemma load_htf_Inr:
  assumes "load_htf_evidence src latest_zone latest_event canonical market = Inr h"
  obtains dz hz where "latest_zone src (upper (strip market)) D1 = Some dz"
    "latest_zone src (upper (strip market)) H4 = Some hz" "he_symbol h = strip canonical"
    "he_market_symbol h = upper (strip market)"
    "he_daily_damaged h = broken_event (latest_event src (upper (strip market)) D1)"
    "he_four_hour_damaged h = broken_event (latest_event src (upper (strip market)) H4)"
    "he_daily_zone_id h = Some (sz_id dz)" "he_four_hour_zone_id h = Some (sz_id hz)"
    "he_daily_event_id h = (if he_daily_damaged h then map_option se_id (latest_event src (upper (strip market)) D1) else None)"
    "he_four_hour_event_id h = (if he_four_hour_damaged h then map_option se_id (latest_event src (upper (strip market)) H4) else None)"
  using assms unfolding load_htf_evidence_def HigherTimeframeStructureEvidence_def Let_def
  by (auto simp: result_simps split: option.splits if_splits)

lemma SignalAssemblyRequest_Inr:
  "SignalAssemblyRequest q = Inr q' \<Longrightarrow> q' = q\<lparr>rq_symbol := strip (rq_symbol q)\<rparr>"
  by (auto simp: SignalAssemblyRequest_def Let_def split: option.splits if_splits)

lemma build_request_Inr:
  assumes "build_request src latest_attempt q = Inr d"
  shows "latest_attempt src (upper (strip (he_market_symbol (rq_higher_timeframe q)))) = Some (de_evidence d)"
    "ra_readiness (de_evidence d) = QUALIFIED" "ra_symbol (de_evidence d) = he_market_symbol (rq_higher_timeframe q)"
    "(Some (ra_zone_id (de_evidence d)), Some (ra_break_event_id (de_evidence d))) \<in>
       {(he_daily_zone_id (rq_higher_timeframe q), he_daily_event_id (rq_higher_timeframe q)),
        (he_four_hour_zone_id (rq_higher_timeframe q), he_four_hour_event_id (rq_higher_timeframe q))}"
    "short_type_of (ra_setup_type (de_evidence d)) = Inr (rq_setup_type (de_request d))"
    "rq_higher_timeframe (de_request d) = rq_higher_timeframe q"
  using assms unfolding build_request_def load_setup_evidence_def Let_def
  by (auto simp: result_simps dest!: SignalAssemblyRequest_Inr split: option.splits)

lemma finish_setup_type: "finish r now q st gs pg = Inr rep \<Longrightarrow> rp_setup_type rep = rq_setup_type q"
  unfolding finish_def Let_def SignalAssemblyReport_def by (auto simp: result_simps)

text \<open>
  C2: the path from stored evidence to a ready short: when the evidence comes from the providers and the assembled
  report is \<open>SHORT_READY\<close>, the latest stored Daily and 4H events are both confirmed breaks, the latest
  reclaim attempt is qualified and of the type the report names, and it belongs to the very zone
  and break that the structure evidence cites.
\<close>

theorem derived_short_sound:
  assumes "load_htf_evidence src latest_zone latest_event canonical market = Inr (rq_higher_timeframe q)"
    "build_request src latest_attempt q = Inr d"
    "assemble_and_persist r now (de_request d) reports = Inr (rep, reports')" "is_short_ready rep"
  shows "broken_event (latest_event src (upper (strip market)) D1) \<and>
    broken_event (latest_event src (upper (strip market)) H4) \<and>
    (\<exists>a. latest_attempt src (upper (strip market)) = Some a \<and> ra_readiness a = QUALIFIED \<and>
       short_type_of (ra_setup_type a) = Inr (rp_setup_type rep) \<and>
       (\<exists>z e i. (i = D1 \<or> i = H4) \<and> latest_zone src (upper (strip market)) i = Some z \<and>
          latest_event src (upper (strip market)) i = Some e \<and> ra_zone_id a = sz_id z \<and> ra_break_event_id a = se_id e)) \<and>
    reports' = reports @ [rep]"
proof -
  let ?h = "rq_higher_timeframe q" and ?m = "upper (strip market)"
  obtain dz hz where h: "latest_zone src ?m D1 = Some dz" "latest_zone src ?m H4 = Some hz"
    "he_symbol ?h = strip canonical" "he_market_symbol ?h = ?m"
    "he_daily_damaged ?h = broken_event (latest_event src ?m D1)"
    "he_four_hour_damaged ?h = broken_event (latest_event src ?m H4)"
    "he_daily_zone_id ?h = Some (sz_id dz)" "he_four_hour_zone_id ?h = Some (sz_id hz)"
    "he_daily_event_id ?h = (if he_daily_damaged ?h then map_option se_id (latest_event src ?m D1) else None)"
    "he_four_hour_event_id ?h = (if he_four_hour_damaged ?h then map_option se_id (latest_event src ?m H4) else None)"
    by (rule load_htf_Inr [OF assms(1)])
  have a: "assemble_signal r now (de_request d) = Inr rep" and p: "reports' = reports @ [rep]"
    using assms(3) by (auto simp: assemble_and_persist_def memory_persist_def result_simps)
  note b = build_request_Inr [OF assms(2)]
  have "ready_evidence r now (de_request d) rep"
    using assemble_cases [OF a] assms(4) by (auto simp: is_short_ready_def blocked_def)
  then have dam: "he_daily_damaged ?h" "he_four_hour_damaged ?h"
    using b(6) by (simp_all add: ready_evidence_def damaged_now_def)
  have "rp_setup_type rep = rq_setup_type (de_request d)"
    using assemble_finishes [OF a] finish_setup_type by blast
  moreover have "upper (strip ?m) = ?m" by (simp add: text_simps)
  moreover obtain de ev where "latest_event src ?m D1 = Some de" "latest_event src ?m H4 = Some ev"
    using dam h(5,6) by (auto simp: broken_event_def split: option.splits)
  then have "\<exists>z e i. (i = D1 \<or> i = H4) \<and> latest_zone src ?m i = Some z \<and> latest_event src ?m i = Some e \<and>
      ra_zone_id (de_evidence d) = sz_id z \<and> ra_break_event_id (de_evidence d) = se_id e"
    using b(4) h dam by (auto intro: exI [of _ D1] exI [of _ H4])
  ultimately show ?thesis using b h(4-6) dam p by auto
qed

text \<open>
  The provider pairs the latest zone with the latest event without checking that they belong
  together. A qualified attempt on a break of an older zone is therefore refused: its pair of zone
  and event can only match if the break is one of the latest zone.
\<close>

lemma foreign_break_refused:
  assumes "load_htf_evidence src latest_zone latest_event canonical market = Inr (rq_higher_timeframe q)"
    "latest_attempt src (upper (strip market)) = Some a"
    "\<And>i z. latest_zone src (upper (strip market)) i = Some z \<Longrightarrow> ra_zone_id a \<noteq> sz_id z"
  shows "\<exists>e. build_request src latest_attempt q = Inl e"
proof (cases "build_request src latest_attempt q")
  case (Inr d)
  let ?h = "rq_higher_timeframe q" and ?m = "upper (strip market)"
  obtain dz hz where h: "latest_zone src ?m D1 = Some dz" "latest_zone src ?m H4 = Some hz"
    "he_symbol ?h = strip canonical" "he_market_symbol ?h = ?m"
    "he_daily_damaged ?h = broken_event (latest_event src ?m D1)"
    "he_four_hour_damaged ?h = broken_event (latest_event src ?m H4)"
    "he_daily_zone_id ?h = Some (sz_id dz)" "he_four_hour_zone_id ?h = Some (sz_id hz)"
    "he_daily_event_id ?h = (if he_daily_damaged ?h then map_option se_id (latest_event src ?m D1) else None)"
    "he_four_hour_event_id ?h = (if he_four_hour_damaged ?h then map_option se_id (latest_event src ?m H4) else None)"
    by (rule load_htf_Inr [OF assms(1)])
  have "upper (strip ?m) = ?m" by (simp add: text_simps)
  then have "de_evidence d = a" using build_request_Inr(1) [OF Inr] h(4) assms(2) by simp
  then show ?thesis using build_request_Inr(4) [OF Inr] h(7,8) assms(3) [OF h(1)] assms(3) [OF h(2)] by auto
qed simp

section \<open>Sample run\<close>

definition sample_latest_event :: "event query" where
  "sample_latest_event src m i = Some (sample_break\<lparr>se_observed_at := sample_now\<rparr>)"

definition sample_latest_zone :: "zone query" where
  "sample_latest_zone src m i = Some sample_zone"

definition loaded_evidence :: htf_evidence where
  "loaded_evidence = \<lparr>he_symbol = ''ABC'', he_market_symbol = ''ABCUSDT'', he_observed_at = sample_now,
     he_daily_damaged = True, he_four_hour_damaged = True, he_origin = DERIVED,
     he_daily_zone_id = Some ''zone_sample'', he_daily_event_id = Some ''event_sample'',
     he_four_hour_zone_id = Some ''zone_sample'', he_four_hour_event_id = Some ''event_sample'',
     he_reasons = [''DAILY_EVENT_CONFIRMED_BREAK'', ''FOUR_HOUR_EVENT_CONFIRMED_BREAK'', ''SOURCE_BYBIT'']\<rparr>"

lemma sample_loaded:
  "load_htf_evidence CS_BYBIT sample_latest_zone sample_latest_event ''ABC'' ''ABCUSDT'' = Inr loaded_evidence"
  by code_simp

definition derived_assembly :: "unit assembly_request" where
  "derived_assembly = (sample_assembly 100)\<lparr>rq_higher_timeframe := loaded_evidence\<rparr>"

lemma ready_conditions_update:
  assumes "ready_conditions r now q" "he_symbol h = he_symbol (rq_higher_timeframe q)" "damaged_now r now h"
  shows "ready_conditions r now (q\<lparr>rq_higher_timeframe := h, rq_setup_type := t\<rparr>)"
  using assms by (simp add: ready_conditions_def aligned_def entry_deviation_bps_def)

lemma derived_ready:
  "ready_conditions default_assembly_rules sample_now (derived_assembly\<lparr>rq_setup_type := t\<rparr>)"
  unfolding derived_assembly_def using sample_damaged
  by (intro ready_conditions_update [OF sample_conditions])
    (simp_all add: loaded_evidence_def sample_assembly_def sample_evidence_def damaged_now_def age_minutes_def)

definition sample_attempt :: attempt where
  "sample_attempt = \<lparr>ra_id = ''attempt_sample'', ra_break_event_id = ''event_sample'', ra_zone_id = ''zone_sample'',
     ra_source = CS_BYBIT, ra_symbol = ''ABCUSDT'', ra_structure_interval = H4,
     ra_started_at = sample_now, ra_observed_at = sample_now, ra_outcome = FAILED_PULLBACK,
     ra_setup_type = FAILED_PULLBACK_SHORT, ra_readiness = QUALIFIED, ra_zone_low = dec 9980000 (-5),
     ra_zone_high = dec 10030020 (-5), ra_maximum_price = dec 10000 (-2),
     ra_maximum_penetration_bps = dec 2004 (-2), ra_duration_bars = 1, ra_closes_above_zone = 0,
     ra_bars_above_zone = 0, ra_bounce_volume_ratio = None, ra_rejection_open = Some sample_now,
     ra_rejection_low = Some (dec 9850 (-2)), ra_trigger_open = Some sample_now,
     ra_quality_score = dec 70 0, ra_reasons = [], ra_warnings = []\<rparr>"

lemma sample_built:
  "build_request CS_BYBIT (\<lambda>_ _. Some sample_attempt) derived_assembly =
     Inr \<lparr>de_request = derived_assembly\<lparr>rq_setup_type := SS_FAILED_PULLBACK\<rparr>, de_evidence = sample_attempt\<rparr>"
proof -
  have s: "strip ''ABC'' = ''ABC''" "strip ''ABCUSDT'' = ''ABCUSDT''" "upper ''ABCUSDT'' = ''ABCUSDT''" by code_simp+
  show ?thesis
    by (simp add: build_request_def load_setup_evidence_def derived_assembly_def sample_assembly_def loaded_evidence_def
        sample_attempt_def s SignalAssemblyRequest_def expected_symbol_def sample_map_def Let_def)
qed

theorem derived_short_sound_witness:
  "\<exists>rep. assemble_and_persist default_assembly_rules sample_now (derived_assembly\<lparr>rq_setup_type := SS_FAILED_PULLBACK\<rparr>) [] =
     Inr (rep, [rep]) \<and> is_short_ready rep \<and> broken_event (sample_latest_event CS_BYBIT ''ABCUSDT'' D1)"
proof -
  let ?q = "derived_assembly\<lparr>rq_setup_type := SS_FAILED_PULLBACK\<rparr>"
  obtain rep where rep: "assemble_signal default_assembly_rules sample_now ?q = Inr rep"
    using assembly_returns [OF sample_clock, of ?q]
    by (auto simp: derived_assembly_def sample_assembly_def loaded_evidence_def sample_now_def aware_def sample_book
        strip_def is_space_def spaces_def)
  have ready: "is_short_ready rep"
    using assemble_ready [OF rep derived_ready] by (simp add: is_short_ready_def)
  have p: "assemble_and_persist default_assembly_rules sample_now ?q [] = Inr (rep, [] @ [rep])"
    using rep by (simp add: assemble_and_persist_def memory_persist_def)
  have l: "load_htf_evidence CS_BYBIT sample_latest_zone sample_latest_event ''ABC'' ''ABCUSDT'' =
      Inr (rq_higher_timeframe derived_assembly)"
    using sample_loaded by (simp add: derived_assembly_def)
  have b: "assemble_and_persist default_assembly_rules sample_now (de_request \<lparr>de_request = ?q, de_evidence = sample_attempt\<rparr>) [] =
      Inr (rep, [rep])" using p by simp
  have "upper (strip ''ABCUSDT'') = ''ABCUSDT''" by code_simp
  with derived_short_sound [OF l sample_built b ready] p ready show ?thesis by simp
qed

end
