(* ===== verification/Reclaim_Repository.thy ===== *)
theory Reclaim_Repository
  imports Structure_Repository Providers
begin

text \<open>
  \<^verbatim>\<open>app/setups/reclaim_repository.py\<close> with the row of \<^verbatim>\<open>app/db/reclaim_records.py\<close>: storing a reclaim attempt and reading
  the latest one back. The comparison with the stored row is that of the structure repository except
  that \<open>None\<close> next to a Decimal raises: \<open>Decimal("None")\<close> is an invalid operation, and nothing catches it.
\<close>

record attempt_row =
  ar_attempt_id :: string
  ar_break_event_id :: string
  ar_zone_id :: string
  ar_source :: string
  ar_symbol :: string
  ar_structure_interval :: string
  ar_started_at :: datetime
  ar_observed_at :: datetime
  ar_outcome :: string
  ar_setup_type :: string
  ar_readiness :: string
  ar_zone_low :: decimal
  ar_zone_high :: decimal
  ar_maximum_price :: decimal
  ar_maximum_penetration_bps :: decimal
  ar_duration_bars :: int
  ar_closes_above_zone :: int
  ar_bars_above_zone :: int
  ar_bounce_volume_ratio :: "decimal option"
  ar_rejection_candle_open_time :: "datetime option"
  ar_rejection_low :: "decimal option"
  ar_trigger_candle_open_time :: "datetime option"
  ar_quality_score :: decimal
  ar_reasons :: "string list"
  ar_warnings :: "string list"

fun derived_setup_value :: "derived_setup_type \<Rightarrow> string" where
  "derived_setup_value DS_NONE = ''NONE''"
| "derived_setup_value BREAKDOWN_SHORT = ''BREAKDOWN_SHORT''"
| "derived_setup_value FAILED_PULLBACK_SHORT = ''FAILED_PULLBACK_SHORT''"
| "derived_setup_value CONTINUATION_SHORT = ''CONTINUATION_SHORT''"

fun readiness_value :: "setup_readiness \<Rightarrow> string" where
  "readiness_value SR_WATCH = ''WATCH''"
| "readiness_value QUALIFIED = ''QUALIFIED''"
| "readiness_value CANCELLED = ''CANCELLED''"
| "readiness_value SR_EXPIRED = ''EXPIRED''"
| "readiness_value SR_INVALIDATED = ''INVALIDATED''"

definition ReclaimOutcome_of :: "string \<Rightarrow> reclaim_outcome result" where
  "ReclaimOutcome_of = enum_of ''ReclaimOutcome'' outcome_value
     [NO_ATTEMPT, ATTEMPTING, SUCCESSFUL_RECLAIM, FAILED_RECLAIM, FAILED_PULLBACK, CONTINUATION, RO_EXPIRED, RO_INVALIDATED]"

definition DerivedSetupType_of :: "string \<Rightarrow> derived_setup_type result" where
  "DerivedSetupType_of = enum_of ''DerivedSetupType'' derived_setup_value
     [DS_NONE, BREAKDOWN_SHORT, FAILED_PULLBACK_SHORT, CONTINUATION_SHORT]"

definition SetupReadiness_of :: "string \<Rightarrow> setup_readiness result" where
  "SetupReadiness_of = enum_of ''SetupReadiness'' readiness_value [SR_WATCH, QUALIFIED, CANCELLED, SR_EXPIRED, SR_INVALIDATED]"

section \<open>Storing\<close>

definition set_attempt_values :: "attempt \<Rightarrow> attempt_row \<Rightarrow> attempt_row" where
  "set_attempt_values a r = r\<lparr>ar_break_event_id := ra_break_event_id a, ar_zone_id := ra_zone_id a,
     ar_source := source_value (ra_source a), ar_symbol := ra_symbol a,
     ar_structure_interval := interval_value (ra_structure_interval a), ar_started_at := ra_started_at a,
     ar_observed_at := ra_observed_at a, ar_outcome := outcome_value (ra_outcome a),
     ar_setup_type := derived_setup_value (ra_setup_type a), ar_readiness := readiness_value (ra_readiness a),
     ar_zone_low := ra_zone_low a, ar_zone_high := ra_zone_high a, ar_maximum_price := ra_maximum_price a,
     ar_maximum_penetration_bps := ra_maximum_penetration_bps a, ar_duration_bars := ra_duration_bars a,
     ar_closes_above_zone := ra_closes_above_zone a, ar_bars_above_zone := ra_bars_above_zone a,
     ar_bounce_volume_ratio := ra_bounce_volume_ratio a, ar_rejection_candle_open_time := ra_rejection_open a,
     ar_rejection_low := ra_rejection_low a, ar_trigger_candle_open_time := ra_trigger_open a,
     ar_quality_score := ra_quality_score a, ar_reasons := ra_reasons a, ar_warnings := ra_warnings a\<rparr>"

definition attempt_record :: "attempt \<Rightarrow> attempt_row" where
  "attempt_record a = \<lparr>ar_attempt_id = ra_id a, ar_break_event_id = ra_break_event_id a, ar_zone_id = ra_zone_id a,
     ar_source = source_value (ra_source a), ar_symbol = ra_symbol a,
     ar_structure_interval = interval_value (ra_structure_interval a), ar_started_at = ra_started_at a,
     ar_observed_at = ra_observed_at a, ar_outcome = outcome_value (ra_outcome a),
     ar_setup_type = derived_setup_value (ra_setup_type a), ar_readiness = readiness_value (ra_readiness a),
     ar_zone_low = ra_zone_low a, ar_zone_high = ra_zone_high a, ar_maximum_price = ra_maximum_price a,
     ar_maximum_penetration_bps = ra_maximum_penetration_bps a, ar_duration_bars = ra_duration_bars a,
     ar_closes_above_zone = ra_closes_above_zone a, ar_bars_above_zone = ra_bars_above_zone a,
     ar_bounce_volume_ratio = ra_bounce_volume_ratio a, ar_rejection_candle_open_time = ra_rejection_open a,
     ar_rejection_low = ra_rejection_low a, ar_trigger_candle_open_time = ra_trigger_open a,
     ar_quality_score = ra_quality_score a, ar_reasons = ra_reasons a, ar_warnings = ra_warnings a\<rparr>"

text \<open>\<open>_same\<close> on optional Decimals and on optional times.\<close>

definition same_optional :: "decimal option \<Rightarrow> decimal option \<Rightarrow> bool result" where
  "same_optional v w =
     (case v of None \<Rightarrow> (case w of None \<Rightarrow> Inr True | Some _ \<Rightarrow> Inl InvalidOperation)
      | Some c \<Rightarrow> (case w of None \<Rightarrow> Inl InvalidOperation | Some e \<Rightarrow> Inr (decimal_equal c e)))"

definition same_optional_time :: "datetime option \<Rightarrow> datetime option \<Rightarrow> bool" where
  "same_optional_time v w =
     (case v of None \<Rightarrow> w = None | Some t \<Rightarrow> (case w of None \<Rightarrow> False | Some u \<Rightarrow> same_time t u))"

text \<open>The values in front of the first optional Decimal, in the order in which \<open>any\<close> compares them.\<close>

definition same_before_ratio :: "attempt_row \<Rightarrow> attempt \<Rightarrow> bool" where
  "same_before_ratio r a \<longleftrightarrow>
     ar_break_event_id r = ra_break_event_id a \<and> ar_zone_id r = ra_zone_id a \<and> ar_source r = source_value (ra_source a) \<and>
     ar_symbol r = ra_symbol a \<and> ar_structure_interval r = interval_value (ra_structure_interval a) \<and>
     same_time (ar_started_at r) (ra_started_at a) \<and> same_time (ar_observed_at r) (ra_observed_at a) \<and>
     ar_outcome r = outcome_value (ra_outcome a) \<and> ar_setup_type r = derived_setup_value (ra_setup_type a) \<and>
     ar_readiness r = readiness_value (ra_readiness a) \<and> decimal_equal (ar_zone_low r) (ra_zone_low a) \<and>
     decimal_equal (ar_zone_high r) (ra_zone_high a) \<and> decimal_equal (ar_maximum_price r) (ra_maximum_price a) \<and>
     decimal_equal (ar_maximum_penetration_bps r) (ra_maximum_penetration_bps a) \<and>
     ar_duration_bars r = ra_duration_bars a \<and> ar_closes_above_zone r = ra_closes_above_zone a \<and>
     ar_bars_above_zone r = ra_bars_above_zone a"

definition same_attempt_values :: "attempt_row \<Rightarrow> attempt \<Rightarrow> bool result" where
  "same_attempt_values r a =
     (if \<not> same_before_ratio r a then Inr False
      else and_then (same_optional (ar_bounce_volume_ratio r) (ra_bounce_volume_ratio a)) (\<lambda>ratio.
      if \<not> ratio \<or> \<not> same_optional_time (ar_rejection_candle_open_time r) (ra_rejection_open a) then Inr False
      else and_then (same_optional (ar_rejection_low r) (ra_rejection_low a)) (\<lambda>rejection_low.
      Inr (rejection_low \<and> same_optional_time (ar_trigger_candle_open_time r) (ra_trigger_open a) \<and>
        decimal_equal (ar_quality_score r) (ra_quality_score a) \<and> ar_reasons r = ra_reasons a \<and> ar_warnings r = ra_warnings a))))"

definition upsert_attempt ::
  "('db \<Rightarrow> string \<Rightarrow> attempt_row option) \<Rightarrow> ('db \<Rightarrow> string \<Rightarrow> attempt_row \<Rightarrow> 'db) \<Rightarrow> attempt \<Rightarrow> 'db \<Rightarrow>
     ('db \<times> upsert_result) result" where
  "upsert_attempt fetch_row save_row a db =
     (case fetch_row db (ra_id a) of
        None \<Rightarrow> Inr (save_row db (ra_id a) (attempt_record a), no_rows\<lparr>ur_inserted := 1\<rparr>)
      | Some row \<Rightarrow>
          and_then (same_attempt_values row a) (\<lambda>same.
          if \<not> same then Inr (save_row db (ra_id a) (set_attempt_values a row), no_rows\<lparr>ur_updated := 1\<rparr>)
          else Inr (db, no_rows\<lparr>ur_unchanged := 1\<rparr>)))"

section \<open>Reading\<close>

definition attempt_from_record :: "attempt_row \<Rightarrow> attempt result" where
  "attempt_from_record r =
     and_then (CandleSource_of (ar_source r)) (\<lambda>source.
     and_then (CandleInterval_of (ar_structure_interval r)) (\<lambda>interval.
     and_then (ReclaimOutcome_of (ar_outcome r)) (\<lambda>outcome.
     and_then (DerivedSetupType_of (ar_setup_type r)) (\<lambda>setup_type.
     and_then (SetupReadiness_of (ar_readiness r)) (\<lambda>readiness.
     ReclaimAttempt \<lparr>ra_id = ar_attempt_id r, ra_break_event_id = ar_break_event_id r, ra_zone_id = ar_zone_id r,
       ra_source = source, ra_symbol = ar_symbol r, ra_structure_interval = interval,
       ra_started_at = aware_utc (ar_started_at r), ra_observed_at = aware_utc (ar_observed_at r), ra_outcome = outcome,
       ra_setup_type = setup_type, ra_readiness = readiness, ra_zone_low = Finite (ar_zone_low r),
       ra_zone_high = Finite (ar_zone_high r), ra_maximum_price = Finite (ar_maximum_price r),
       ra_maximum_penetration_bps = Finite (ar_maximum_penetration_bps r), ra_duration_bars = ar_duration_bars r,
       ra_closes_above_zone = ar_closes_above_zone r, ra_bars_above_zone = ar_bars_above_zone r,
       ra_bounce_volume_ratio = map_option Finite (ar_bounce_volume_ratio r),
       ra_rejection_open = map_option aware_utc (ar_rejection_candle_open_time r),
       ra_rejection_low = map_option Finite (ar_rejection_low r),
       ra_trigger_open = map_option aware_utc (ar_trigger_candle_open_time r),
       ra_quality_score = Finite (ar_quality_score r), ra_reasons = ar_reasons r, ra_warnings = ar_warnings r\<rparr>)))))"

definition newer_attempt :: "attempt_row \<Rightarrow> attempt_row \<Rightarrow> bool" where
  "newer_attempt r s \<longleftrightarrow>
     instant (ar_observed_at s) < instant (ar_observed_at r) \<or>
     instant (ar_observed_at s) = instant (ar_observed_at r) \<and> dval (ar_quality_score s) \<le> dval (ar_quality_score r)"

definition latest_reclaim ::
  "('db \<Rightarrow> (attempt_row \<Rightarrow> bool) \<Rightarrow> (attempt_row \<Rightarrow> attempt_row \<Rightarrow> bool) \<Rightarrow> attempt_row option) \<Rightarrow>
     candle_source \<Rightarrow> string \<Rightarrow> bool \<Rightarrow> 'db \<Rightarrow> attempt option result" where
  "latest_reclaim scalar source symbol qualified_only db =
     (let normalized = upper (strip symbol) in
      if normalized = '''' then Inl (ValueError ''symbol is required'')
      else case scalar db (\<lambda>r. ar_source r = source_value source \<and> ar_symbol r = normalized \<and>
                               (qualified_only \<longrightarrow> ar_readiness r = readiness_value QUALIFIED)) newer_attempt of
             None \<Rightarrow> Inr None
           | Some r \<Rightarrow> and_then (attempt_from_record r) (\<lambda>a. Inr (Some a)))"

section \<open>Rows read back\<close>

lemma outcome_of_value [simp]: "ReclaimOutcome_of (outcome_value x) = Inr x"
  unfolding ReclaimOutcome_of_def
proof (rule enum_of_value)
  show "inj outcome_value"
  proof (rule injI)
    fix a b assume "outcome_value a = outcome_value b"
    then show "a = b" by (cases a; cases b) simp_all
  qed
qed (cases x; simp)

lemma derived_setup_of_value [simp]: "DerivedSetupType_of (derived_setup_value x) = Inr x"
  unfolding DerivedSetupType_of_def
proof (rule enum_of_value)
  show "inj derived_setup_value"
  proof (rule injI)
    fix a b assume "derived_setup_value a = derived_setup_value b"
    then show "a = b" by (cases a; cases b) simp_all
  qed
qed (cases x; simp)

lemma readiness_of_value [simp]: "SetupReadiness_of (readiness_value x) = Inr x"
  unfolding SetupReadiness_of_def
proof (rule enum_of_value)
  show "inj readiness_value"
  proof (rule injI)
    fix a b assume "readiness_value a = readiness_value b"
    then show "a = b" by (cases a; cases b) simp_all
  qed
qed (cases x; simp)

text \<open>An attempt whose times are given in UTC.\<close>

definition in_utc :: "attempt \<Rightarrow> attempt" where
  "in_utc a = a\<lparr>ra_started_at := aware_utc (ra_started_at a), ra_observed_at := aware_utc (ra_observed_at a),
     ra_rejection_open := map_option aware_utc (ra_rejection_open a), ra_trigger_open := map_option aware_utc (ra_trigger_open a)\<rparr>"

definition attempt_args :: "attempt \<Rightarrow> raw_attempt" where
  "attempt_args a = \<lparr>ra_id = ra_id a, ra_break_event_id = ra_break_event_id a, ra_zone_id = ra_zone_id a,
     ra_source = ra_source a, ra_symbol = ra_symbol a, ra_structure_interval = ra_structure_interval a,
     ra_started_at = ra_started_at a, ra_observed_at = ra_observed_at a, ra_outcome = ra_outcome a,
     ra_setup_type = ra_setup_type a, ra_readiness = ra_readiness a, ra_zone_low = Finite (ra_zone_low a),
     ra_zone_high = Finite (ra_zone_high a), ra_maximum_price = Finite (ra_maximum_price a),
     ra_maximum_penetration_bps = Finite (ra_maximum_penetration_bps a), ra_duration_bars = ra_duration_bars a,
     ra_closes_above_zone = ra_closes_above_zone a, ra_bars_above_zone = ra_bars_above_zone a,
     ra_bounce_volume_ratio = map_option Finite (ra_bounce_volume_ratio a), ra_rejection_open = ra_rejection_open a,
     ra_rejection_low = map_option Finite (ra_rejection_low a), ra_trigger_open = ra_trigger_open a,
     ra_quality_score = Finite (ra_quality_score a), ra_reasons = ra_reasons a, ra_warnings = ra_warnings a\<rparr>"

lemma in_utc_wf: "attempt_wf a \<Longrightarrow> attempt_wf (in_utc a)"
  by (cases "ra_rejection_open a"; cases "ra_trigger_open a") (auto simp: attempt_wf_def in_utc_def triggered_after_def)


lemma ReclaimAttempt_args:
  assumes "attempt_wf a"
  shows "ReclaimAttempt (attempt_args a) = Inr a"
proof -
  note wf = assms [unfolded attempt_wf_def]
  have text_ok: "strip (ra_id a) = ra_id a" "ra_id a \<noteq> ''''" "strip (ra_break_event_id a) = ra_break_event_id a" "ra_break_event_id a \<noteq> ''''"
    "strip (ra_zone_id a) = ra_zone_id a" "ra_zone_id a \<noteq> ''''" "upper (strip (ra_symbol a)) = ra_symbol a" "ra_symbol a \<noteq> ''''"
    "ra_structure_interval a \<in> {D1, H4}"
    using wf by (auto simp: normal_id_def normal_symbol_def htf_def)
  have num: "reclaim_decimal m (Some price_floor) None (Finite (ra_zone_low a)) = Inr (ra_zone_low a)"
    "reclaim_decimal m (Some price_floor) None (Finite (ra_zone_high a)) = Inr (ra_zone_high a)"
    "reclaim_decimal m (Some price_floor) None (Finite (ra_maximum_price a)) = Inr (ra_maximum_price a)"
    "reclaim_decimal m (Some (dec 0 0)) None (Finite (ra_maximum_penetration_bps a)) = Inr (ra_maximum_penetration_bps a)"
    "reclaim_decimal m (Some (dec 0 0)) (Some (dec 100 0)) (Finite (ra_quality_score a)) = Inr (ra_quality_score a)" for m
    using wf by (auto simp: reclaim_decimal_Inr)
  have opt: "opt_check (reclaim_decimal m (Some (dec 0 0)) None) (map_option Finite (ra_bounce_volume_ratio a)) = Inr (ra_bounce_volume_ratio a)"
    "opt_check (reclaim_decimal m (Some price_floor) None) (map_option Finite (ra_rejection_low a)) = Inr (ra_rejection_low a)"
    "opt_check (require_aware m) (ra_rejection_open a) = Inr (ra_rejection_open a)"
    "opt_check (require_aware m) (ra_trigger_open a) = Inr (ra_trigger_open a)"
    "require_aware m (ra_started_at a) = Inr (ra_started_at a)" "require_aware m (ra_observed_at a) = Inr (ra_observed_at a)" for m
    using wf by (simp_all add: opt_check_decimal opt_check_aware require_aware_Inr)
  have chk: "check_evidence (attempt_args a) (ra_rejection_open a) (ra_rejection_low a) (ra_trigger_open a) = Inr ()"
    "check_combination (attempt_args a) (ra_rejection_open a) (ra_trigger_open a) = Inr ()"
    using wf unfolding check_evidence_Inr check_combination_Inr by (auto simp: attempt_args_def)
  have ord: "\<not> instant (ra_observed_at a) < instant (ra_started_at a)" "\<not> dval (ra_zone_high a) \<le> dval (ra_zone_low a)"
    using wf by auto
  show ?thesis
    unfolding ReclaimAttempt_def Let_def using text_ok num opt chk ord by (simp add: attempt_args_def)
qed

lemma attempt_read:
  assumes "attempt_wf a"
  shows "attempt_from_record (attempt_record a) = Inr (in_utc a)"
  using ReclaimAttempt_args [OF in_utc_wf [OF assms]]
  by (simp add: attempt_from_record_def attempt_record_def attempt_args_def in_utc_def)


text \<open>
  C21: the evidence the repositories write is the evidence they read: a zone, an event and a reclaim attempt turned into
  a row and back are equal to what they were, an attempt with its times in UTC.
\<close>

theorem evidence_rows_round_trip:
  assumes "zone_wf z" "\<forall>t \<in> set (evidence_open_times z). time_wf t" "event_wf e" "attempt_wf a"
  shows "\<exists>z' e'. zone_from_record (zone_record z) = Inr z' \<and> zone_eq z' z \<and>
    event_from_record (event_record e) = Inr e' \<and> event_eq e' e \<and> attempt_from_record (attempt_record a) = Inr (in_utc a)"
  using zone_read [OF assms(1,2)] event_read [OF assms(3)] attempt_read [OF assms(4)] by blast

lemma sample_evidence_wf:
  "\<forall>t \<in> set (evidence_open_times sample_zone). time_wf t" "event_wf sample_break"
  by (simp add: sample_zone_def time_wf_def sample_start_def minute_us_def max_us_def day_us_def) code_simp

definition watched_attempt :: attempt where
  "watched_attempt = sample_attempt\<lparr>ra_outcome := ATTEMPTING, ra_setup_type := DS_NONE, ra_readiness := SR_WATCH,
     ra_rejection_open := None, ra_rejection_low := None, ra_trigger_open := None\<rparr>"

lemma watched_attempt_wf: "attempt_wf watched_attempt"
  by code_simp

theorem evidence_rows_round_trip_witness:
  "\<exists>z' e'. zone_from_record (zone_record sample_zone) = Inr z' \<and> zone_eq z' sample_zone \<and>
    event_from_record (event_record sample_break) = Inr e' \<and> event_eq e' sample_break \<and>
    attempt_from_record (attempt_record watched_attempt) = Inr (in_utc watched_attempt)"
  by (rule evidence_rows_round_trip [OF sample_zone_wf(1) sample_evidence_wf watched_attempt_wf])

section \<open>Storing twice\<close>

definition attempt_columns :: "(attempt_row \<Rightarrow> attempt_row) \<Rightarrow> bool" where
  "attempt_columns columns \<longleftrightarrow> (\<forall>r. let q = columns r in
     ar_attempt_id q = ar_attempt_id r \<and> ar_break_event_id q = ar_break_event_id r \<and> ar_zone_id q = ar_zone_id r \<and>
     ar_source q = ar_source r \<and> ar_symbol q = ar_symbol r \<and> ar_structure_interval q = ar_structure_interval r \<and>
     ar_outcome q = ar_outcome r \<and> ar_setup_type q = ar_setup_type r \<and> ar_readiness q = ar_readiness r \<and>
     ar_duration_bars q = ar_duration_bars r \<and> ar_closes_above_zone q = ar_closes_above_zone r \<and>
     ar_bars_above_zone q = ar_bars_above_zone r \<and> ar_reasons q = ar_reasons r \<and> ar_warnings q = ar_warnings r \<and>
     same_time (ar_started_at q) (ar_started_at r) \<and> same_time (ar_observed_at q) (ar_observed_at r) \<and>
     same_optional_time (ar_rejection_candle_open_time q) (ar_rejection_candle_open_time r) \<and>
     same_optional_time (ar_trigger_candle_open_time q) (ar_trigger_candle_open_time r) \<and>
     numeric_column 18 (ar_zone_low r) (ar_zone_low q) \<and> numeric_column 18 (ar_zone_high r) (ar_zone_high q) \<and>
     numeric_column 18 (ar_maximum_price r) (ar_maximum_price q) \<and>
     numeric_column 4 (ar_maximum_penetration_bps r) (ar_maximum_penetration_bps q) \<and>
     numeric_option 6 (ar_bounce_volume_ratio r) (ar_bounce_volume_ratio q) \<and>
     numeric_option 18 (ar_rejection_low r) (ar_rejection_low q) \<and> numeric_column 2 (ar_quality_score r) (ar_quality_score q))"

definition attempt_fits :: "attempt \<Rightarrow> bool" where
  "attempt_fits a \<longleftrightarrow> fits 4 (ra_maximum_penetration_bps a) \<and> fits 2 (ra_quality_score a) \<and>
     (case ra_bounce_volume_ratio a of None \<Rightarrow> True | Some v \<Rightarrow> fits 6 v)"

lemma same_optional_scale:
  "numeric_option s v w \<Longrightarrow> (case v of None \<Rightarrow> True | Some d \<Rightarrow> fits s d) \<Longrightarrow> same_optional w v = Inr True"
  by (auto simp: numeric_option_def same_optional_def scale_equal split: option.splits)

lemma same_optional_column: "numeric_option 18 v w \<Longrightarrow> same_optional w v = Inr True"
  by (auto simp: numeric_option_def same_optional_def column_equal split: option.splits)

lemma columns_keep_attempt:
  assumes "attempt_columns columns" "attempt_fits a"
  shows "ar_attempt_id (columns (attempt_record a)) = ra_id a" "same_attempt_values (columns (attempt_record a)) a = Inr True"
proof -
  define r where "r = attempt_record a"
  note c = assms(1) [unfolded attempt_columns_def Let_def, rule_format, of r]
  have "decimal_equal (ar_zone_low (columns r)) (ar_zone_low r)" "decimal_equal (ar_zone_high (columns r)) (ar_zone_high r)"
    "decimal_equal (ar_maximum_price (columns r)) (ar_maximum_price r)"
    "same_optional (ar_rejection_low (columns r)) (ar_rejection_low r) = Inr True"
    using c column_equal same_optional_column by blast+
  moreover have "fits 4 (ar_maximum_penetration_bps r)" "fits 2 (ar_quality_score r)"
    "case ar_bounce_volume_ratio r of None \<Rightarrow> True | Some d \<Rightarrow> fits 6 d"
    using assms(2) by (simp_all add: attempt_fits_def attempt_record_def r_def)
  then have "decimal_equal (ar_maximum_penetration_bps (columns r)) (ar_maximum_penetration_bps r)"
    "decimal_equal (ar_quality_score (columns r)) (ar_quality_score r)"
    "same_optional (ar_bounce_volume_ratio (columns r)) (ar_bounce_volume_ratio r) = Inr True"
    using c scale_equal same_optional_scale by blast+
  moreover have "ar_attempt_id (columns r) = ar_attempt_id r" using c by blast
  ultimately show "ar_attempt_id (columns (attempt_record a)) = ra_id a" "same_attempt_values (columns (attempt_record a)) a = Inr True"
    using c unfolding r_def same_attempt_values_def same_before_ratio_def by (simp_all add: attempt_record_def)
qed

lemma set_attempt_record: "ar_attempt_id r = ra_id a \<Longrightarrow> set_attempt_values a r = attempt_record a"
  by (simp add: attempt_record_def set_attempt_values_def)

text \<open>
  Storing a reclaim attempt is idempotent although the columns round: exactly one row is inserted, updated or left
  unchanged, no other row changes, and storing the same attempt again succeeds, changes nothing and reports
  it as unchanged.
\<close>

lemma attempt_upsert_idempotent:
  assumes "sql_table columns fetch_row save_row" "attempt_columns columns" "keyed fetch_row ar_attempt_id db" "attempt_fits a"
    "upsert_attempt fetch_row save_row a db = Inr (db', n)"
  shows "ur_total n = 1 \<and> (\<forall>k. k \<noteq> ra_id a \<longrightarrow> fetch_row db' k = fetch_row db k) \<and>
    upsert_attempt fetch_row save_row a db' = Inr (db', no_rows\<lparr>ur_unchanged := 1\<rparr>)"
proof -
  note keep = columns_keep_attempt(2) [OF assms(2,4)]
  have saved: "upsert_attempt fetch_row save_row a (save_row db (ra_id a) (attempt_record a)) =
      Inr (save_row db (ra_id a) (attempt_record a), no_rows\<lparr>ur_unchanged := 1\<rparr>)"
    using keep by (simp add: upsert_attempt_def sql_tableD [OF assms(1)])
  show ?thesis
  proof (cases "fetch_row db (ra_id a)")
    case None
    then show ?thesis
      using assms(5) saved by (auto simp: upsert_attempt_def sql_tableD [OF assms(1)] ur_total_def no_rows_def)
  next
    case (Some row)
    have put: "set_attempt_values a row = attempt_record a" by (rule set_attempt_record) (rule keyedD [OF assms(3) Some])
    obtain same where same: "same_attempt_values row a = Inr same"
      using assms(5) Some by (cases "same_attempt_values row a") (auto simp: upsert_attempt_def)
    show ?thesis
      using assms(5) Some same put saved
      by (cases same) (auto simp: upsert_attempt_def sql_tableD [OF assms(1)] ur_total_def no_rows_def)
  qed
qed


definition sample_attempt_columns :: "attempt_row \<Rightarrow> attempt_row" where
  "sample_attempt_columns r = r\<lparr>ar_zone_low := rounded 18 (ar_zone_low r), ar_zone_high := rounded 18 (ar_zone_high r),
     ar_maximum_price := rounded 18 (ar_maximum_price r), ar_maximum_penetration_bps := rounded 4 (ar_maximum_penetration_bps r),
     ar_bounce_volume_ratio := map_option (rounded 6) (ar_bounce_volume_ratio r),
     ar_rejection_low := map_option (rounded 18) (ar_rejection_low r), ar_quality_score := rounded 2 (ar_quality_score r)\<rparr>"

lemma same_optional_time_refl [simp]: "same_optional_time t t"
  by (simp add: same_optional_time_def same_time_def split: option.split)

lemma sample_attempt_columns: "attempt_columns sample_attempt_columns"
  by (simp add: attempt_columns_def sample_attempt_columns_def numeric_column_rounded numeric_option_rounded same_time_def)

lemma sample_attempt_again:
  "\<exists>db' n. upsert_attempt (\<lambda>db k. db k) (\<lambda>db k r. db(k \<mapsto> sample_attempt_columns r)) sample_attempt Map.empty = Inr (db', n) \<and>
    ur_total n = 1 \<and>
    upsert_attempt (\<lambda>db k. db k) (\<lambda>db k r. db(k \<mapsto> sample_attempt_columns r)) sample_attempt db' =
      Inr (db', no_rows\<lparr>ur_unchanged := 1\<rparr>)"
proof -
  obtain db' n where up: "upsert_attempt (\<lambda>db k. db k) (\<lambda>db k r. db(k \<mapsto> sample_attempt_columns r)) sample_attempt Map.empty = Inr (db', n)"
    by (simp add: upsert_attempt_def)
  have "attempt_fits sample_attempt" by (simp add: attempt_fits_def sample_attempt_def fits_dec)
  from attempt_upsert_idempotent [OF sql_table_map sample_attempt_columns keyed_empty this up] up show ?thesis by blast
qed

text \<open>
  C31: storing a reclaim attempt raises exactly when the stored row and the attempt differ in whether they have a bounce
  volume ratio, or a rejection low, while everything that is compared before it is the same: the difference
  that should lead to an update ends the operation with \<open>InvalidOperation\<close> instead.
\<close>

theorem attempt_upsert_raises_iff:
  "upsert_attempt fetch_row save_row a db = Inl err \<longleftrightarrow>
     err = InvalidOperation \<and>
     (\<exists>row. fetch_row db (ra_id a) = Some row \<and> same_before_ratio row a \<and>
       ((ar_bounce_volume_ratio row = None) \<noteq> (ra_bounce_volume_ratio a = None) \<or>
        option_equal (ar_bounce_volume_ratio row) (ra_bounce_volume_ratio a) \<and>
        same_optional_time (ar_rejection_candle_open_time row) (ra_rejection_open a) \<and>
        (ar_rejection_low row = None) \<noteq> (ra_rejection_low a = None)))"
proof (cases "fetch_row db (ra_id a)")
  case None
  then show ?thesis by (simp add: upsert_attempt_def)
next
  case (Some row)
  then show ?thesis
    by (cases "ar_bounce_volume_ratio row"; cases "ra_bounce_volume_ratio a"; cases "ar_rejection_low row"; cases "ra_rejection_low a")
      (auto simp: upsert_attempt_def same_attempt_values_def same_optional_def option_equal_def)
qed

text \<open>A stored attempt without a volume ratio is not replaced by the same attempt with one.\<close>

theorem attempt_upsert_raises_iff_witness:
  "upsert_attempt (\<lambda>db k. db k) (\<lambda>db k r. db(k \<mapsto> r)) (watched_attempt\<lparr>ra_bounce_volume_ratio := Some (dec 5 (-1))\<rparr>)
     [''attempt_sample'' \<mapsto> attempt_record watched_attempt] = Inl InvalidOperation"
proof -
  have "same_before_ratio (attempt_record watched_attempt) (watched_attempt\<lparr>ra_bounce_volume_ratio := Some (dec 5 (-1))\<rparr>)"
    by (simp add: same_before_ratio_def attempt_record_def same_time_def)
  then show ?thesis unfolding attempt_upsert_raises_iff by (simp add: watched_attempt_def sample_attempt_def attempt_record_def)
qed

end
