(* ===== verification/Json_Safe.thy ===== *)
theory Json_Safe
  imports Reclaim_Repository
begin

text \<open>
  \<open>json_safe\<close> of \<^verbatim>\<open>app/runtime/store.py\<close> and \<^verbatim>\<open>app/db/repository.py\<close>: Python values as the JSON of a domain record. A
  dataclass is the list of its fields in order, as \<open>asdict\<close> gives them; the keys of the program's
  dictionaries are text, for which \<open>str(key)\<close> is the key.
\<close>

section \<open>Values\<close>

datatype pyvalue =
    PNone
  | PEnum pyvalue
  | PStr string
  | PInt int
  | PFloat pyfloat
  | PBool bool
  | PDecimal raw_decimal
  | PDatetime datetime
  | PUuid string
  | PData "(string \<times> pyvalue) list"
  | PDict "(string \<times> pyvalue) list"
  | PList "pyvalue list"
  | PTuple "pyvalue list"
  | PSet "pyvalue list"
  | POther string

type_synonym py_dict = "(string \<times> pyvalue) list"

fun json_safe :: "pyvalue \<Rightarrow> json result"
  and json_safe_list :: "pyvalue list \<Rightarrow> json list result"
  and json_safe_fields :: "py_dict \<Rightarrow> json_object result"
where
  "json_safe PNone = Inr JNull"
| "json_safe (PEnum v) = json_safe v"
| "json_safe (PStr s) = Inr (JStr s)"
| "json_safe (PInt n) = Inr (JInt n)"
| "json_safe (PFloat x) = Inr (JFloat x)"
| "json_safe (PBool b) = Inr (JBool b)"
| "json_safe (PDecimal v) =
     (case v of Finite d \<Rightarrow> Inr (JStr (dec_str d)) | _ \<Rightarrow> Inl (ValueError ''persisted Decimal must be finite''))"
| "json_safe (PDatetime t) =
     (if aware t then Inr (JStr (isoformat t)) else Inl (ValueError ''persisted datetime must be timezone-aware''))"
| "json_safe (PUuid s) = Inr (JStr s)"
| "json_safe (PData d) = and_then (json_safe_fields d) (\<lambda>e. Inr (JObj e))"
| "json_safe (PDict d) = and_then (json_safe_fields d) (\<lambda>e. Inr (JObj e))"
| "json_safe (PList xs) = and_then (json_safe_list xs) (\<lambda>ys. Inr (JList ys))"
| "json_safe (PTuple xs) = and_then (json_safe_list xs) (\<lambda>ys. Inr (JList ys))"
| "json_safe (PSet xs) = and_then (json_safe_list xs) (\<lambda>ys. Inr (JList (sort_key py_repr ys)))"
| "json_safe (POther cls) = Inl (TypeError (''unsupported persistence value: '' @ cls))"
| "json_safe_list [] = Inr []"
| "json_safe_list (x # xs) = and_then (json_safe x) (\<lambda>y. and_then (json_safe_list xs) (\<lambda>ys. Inr (y # ys)))"
| "json_safe_fields [] = Inr []"
| "json_safe_fields ((k, x) # d) = and_then (json_safe x) (\<lambda>y. and_then (json_safe_fields d) (\<lambda>e. Inr ((k, y) # e)))"

text \<open>JSON is safe as it is.\<close>

fun py_of_json :: "json \<Rightarrow> pyvalue" where
  "py_of_json JNull = PNone"
| "py_of_json (JBool b) = PBool b"
| "py_of_json (JInt n) = PInt n"
| "py_of_json (JFloat x) = PFloat x"
| "py_of_json (JStr s) = PStr s"
| "py_of_json (JList xs) = PList (map py_of_json xs)"
| "py_of_json (JObj d) = PDict (map (\<lambda>(k, v). (k, py_of_json v)) d)"

lemma json_safe_map_list: "(\<And>x. x \<in> set xs \<Longrightarrow> json_safe (f x) = Inr x) \<Longrightarrow> json_safe_list (map f xs) = Inr xs"
  by (induction xs) simp_all

lemma json_safe_map_fields:
  "(\<And>k v. (k, v) \<in> set d \<Longrightarrow> json_safe (f v) = Inr v) \<Longrightarrow> json_safe_fields (map (\<lambda>(k, v). (k, f v)) d) = Inr d"
proof (induction d)
  case (Cons p d)
  obtain k v where p: "p = (k, v)" by (cases p)
  have "json_safe (f v) = Inr v" using Cons.prems [of k v] p by simp
  moreover have "json_safe_fields (map (\<lambda>(k, v). (k, f v)) d) = Inr d"
  proof (rule Cons.IH)
    show "json_safe (f v) = Inr v" if "(k, v) \<in> set d" for k v using Cons.prems [of k v] that by simp
  qed
  ultimately show ?case by (simp add: p)
qed simp

lemma json_safe_of_json [simp]: "json_safe (py_of_json v) = Inr v"
proof (induction v rule: py_of_json.induct)
  case (6 xs)
  then show ?case by (simp add: json_safe_map_list)
next
  case (7 d)
  have "json_safe_fields (map (\<lambda>(k, v). (k, py_of_json v)) d) = Inr d" by (rule json_safe_map_fields) (use 7 in auto)
  then show ?case by simp
qed simp_all

section \<open>Records of the program as values\<close>

definition py_optional :: "('a \<Rightarrow> pyvalue) \<Rightarrow> 'a option \<Rightarrow> pyvalue" where
  "py_optional f v = (case v of None \<Rightarrow> PNone | Some x \<Rightarrow> f x)"

abbreviation PDec :: "decimal \<Rightarrow> pyvalue" where
  "PDec d \<equiv> PDecimal (Finite d)"

definition py_texts :: "string list \<Rightarrow> pyvalue" where
  "py_texts xs = PTuple (map PStr xs)"

definition py_zone :: "zone \<Rightarrow> pyvalue" where
  "py_zone z = PData
     [(''zone_id'', PStr (sz_id z)), (''source'', PEnum (PStr (source_value (sz_source z)))), (''symbol'', PStr (sz_symbol z)),
      (''interval'', PEnum (PStr (interval_value (sz_interval z)))), (''low'', PDec (sz_low z)), (''high'', PDec (sz_high z)),
      (''created_at'', PDatetime (created_at z)), (''confirmed_at'', PDatetime (confirmed_at z)),
      (''last_test_at'', PDatetime (last_test_at z)), (''touch_count'', PInt (touch_count z)),
      (''rejection_count'', PInt (rejection_count z)), (''strength_score'', PDec (strength_score z)),
      (''evidence_open_times'', PTuple (map PDatetime (evidence_open_times z))),
      (''state'', PEnum (PStr (zone_state_value (sz_state z)))), (''reasons'', py_texts (sz_reasons z))]"

definition py_event :: "event \<Rightarrow> pyvalue" where
  "py_event e = PData
     [(''event_id'', PStr (se_id e)), (''zone_id'', PStr (se_zone_id e)), (''source'', PEnum (PStr (source_value (se_source e)))),
      (''symbol'', PStr (se_symbol e)), (''interval'', PEnum (PStr (interval_value (se_interval e)))),
      (''state'', PEnum (PStr (event_state_value (se_state e)))), (''observed_at'', PDatetime (se_observed_at e)),
      (''candle_open_time'', PDatetime (se_open_time e)), (''close_price'', PDec (se_close_price e)),
      (''zone_low'', PDec (se_zone_low e)), (''zone_high'', PDec (se_zone_high e)), (''distance_bps'', PDec (distance_bps e)),
      (''body_fraction'', PDec (se_body_fraction e)), (''volume_ratio'', py_optional PDec (se_volume_ratio e)),
      (''invalidates_event_id'', py_optional PStr (invalidates_event_id e)), (''reasons'', py_texts (se_reasons e))]"

fun structure_status_value :: "timeframe_structure_status \<Rightarrow> string" where
  "structure_status_value TS_INTACT = ''INTACT''"
| "structure_status_value TS_WATCH = ''WATCH''"
| "structure_status_value TS_DAMAGED = ''DAMAGED''"
| "structure_status_value TS_RECLAIMED = ''RECLAIMED''"
| "structure_status_value TS_INVALIDATED = ''INVALIDATED''"
| "structure_status_value TS_INSUFFICIENT = ''INSUFFICIENT''"

definition py_evidence :: "timeframe_evidence \<Rightarrow> pyvalue" where
  "py_evidence e = PData
     [(''source'', PEnum (PStr (source_value (te_source e)))), (''symbol'', PStr (te_symbol e)),
      (''interval'', PEnum (PStr (interval_value (te_interval e)))), (''status'', PEnum (PStr (structure_status_value (te_status e)))),
      (''observed_at'', PDatetime (te_observed_at e)), (''zone_id'', py_optional PStr (te_zone_id e)),
      (''event_id'', py_optional PStr (te_event_id e)), (''reasons'', py_texts (te_reasons e))]"

definition py_analysis :: "htf_analysis \<Rightarrow> pyvalue" where
  "py_analysis a = PData
     [(''source'', PEnum (PStr (source_value (ha_source a)))), (''symbol'', PStr (ha_symbol a)),
      (''interval'', PEnum (PStr (interval_value (ha_interval a)))), (''observed_at'', PDatetime (ha_observed_at a)),
      (''zones'', PTuple (map py_zone (ha_zones a))), (''primary_zone'', py_optional py_zone (ha_primary_zone a)),
      (''events'', PTuple (map py_event (ha_events a))), (''evidence'', py_evidence (ha_evidence a))]"

definition py_attempt :: "attempt \<Rightarrow> pyvalue" where
  "py_attempt a = PData
     [(''attempt_id'', PStr (ra_id a)), (''break_event_id'', PStr (ra_break_event_id a)), (''zone_id'', PStr (ra_zone_id a)),
      (''source'', PEnum (PStr (source_value (ra_source a)))), (''symbol'', PStr (ra_symbol a)),
      (''structure_interval'', PEnum (PStr (interval_value (ra_structure_interval a)))),
      (''started_at'', PDatetime (ra_started_at a)), (''observed_at'', PDatetime (ra_observed_at a)),
      (''outcome'', PEnum (PStr (outcome_value (ra_outcome a)))), (''setup_type'', PEnum (PStr (derived_setup_value (ra_setup_type a)))),
      (''readiness'', PEnum (PStr (readiness_value (ra_readiness a)))), (''zone_low'', PDec (ra_zone_low a)),
      (''zone_high'', PDec (ra_zone_high a)), (''maximum_price'', PDec (ra_maximum_price a)),
      (''maximum_penetration_bps'', PDec (ra_maximum_penetration_bps a)), (''duration_bars'', PInt (ra_duration_bars a)),
      (''closes_above_zone'', PInt (ra_closes_above_zone a)), (''bars_above_zone'', PInt (ra_bars_above_zone a)),
      (''bounce_volume_ratio'', py_optional PDec (ra_bounce_volume_ratio a)),
      (''rejection_candle_open_time'', py_optional PDatetime (ra_rejection_open a)),
      (''rejection_low'', py_optional PDec (ra_rejection_low a)),
      (''trigger_candle_open_time'', py_optional PDatetime (ra_trigger_open a)), (''quality_score'', PDec (ra_quality_score a)),
      (''reasons'', py_texts (ra_reasons a)), (''warnings'', py_texts (ra_warnings a))]"

section \<open>When a value can be stored\<close>

text \<open>Every Decimal in it is finite, every time aware, and nothing in it is of an unknown class.\<close>

fun storable :: "pyvalue \<Rightarrow> bool" where
  "storable (PEnum v) = storable v"
| "storable (PDecimal v) = (case v of Finite d \<Rightarrow> True | _ \<Rightarrow> False)"
| "storable (PDatetime t) = aware t"
| "storable (PData d) = (\<forall>p \<in> set d. storable (snd p))"
| "storable (PDict d) = (\<forall>p \<in> set d. storable (snd p))"
| "storable (PList xs) = (\<forall>x \<in> set xs. storable x)"
| "storable (PTuple xs) = (\<forall>x \<in> set xs. storable x)"
| "storable (PSet xs) = (\<forall>x \<in> set xs. storable x)"
| "storable (POther cls) = False"
| "storable v = True"

lemma json_safe_iff:
  "succeeds (json_safe v) \<longleftrightarrow> storable v"
  "succeeds (json_safe_list xs) \<longleftrightarrow> (\<forall>x \<in> set xs. storable x)"
  "succeeds (json_safe_fields d) \<longleftrightarrow> (\<forall>p \<in> set d. storable (snd p))"
proof (induction v and xs and d rule: json_safe_json_safe_list_json_safe_fields.induct)
qed (auto simp: succeeds_iff and_then_Inr split: raw_decimal.splits)

end
