(* ===== verification/Reclaim_Runtime.thy ===== *)
theory Reclaim_Runtime
  imports Reclaim_Repository
begin

text \<open>
  The step from structure to reclaim evidence in the worker (\<open>derive_reclaim_from_structure\<close> of
  \<^verbatim>\<open>app/setups/runtime_analysis.py\<close>): on a 4H batch of market candles and the engine's own analysis of it, the
  confirmed break, its zone and its candle are always found and the reclaim analysis returns; the
  attempt fits the columns of its table.
\<close>

section \<open>Attempts fit their columns\<close>

lemma fits_small [simp]: "fits 2 (dec n 0)"
  by (rule fits_dec) simp

lemma reclaim_result_fits:
  assumes "reclaim_result z e f = Inr a" "fits 2 (rf_quality f)"
  shows "attempt_fits a"
proof -
  obtain p q where pq: "quantize (rf_penetration f) (-2) = Inr p"
    "(case rf_volume_ratio f of None \<Rightarrow> Inr None | Some r \<Rightarrow> and_then (quantize r (-4)) (\<lambda>q. Inr (Some q))) = Inr q"
    "ReclaimAttempt (result_fields z e f p q) = Inr a"
    using assms(1) by (auto simp: reclaim_result_def and_then_Inr)
  have "ra_maximum_penetration_bps a = p" "ra_bounce_volume_ratio a = q" "ra_quality_score a = rf_quality f"
    using pq(3) unfolding ReclaimAttempt_def Let_def
    by (auto simp: result_simps result_fields_def inj_map_option_eq)
  moreover have "fits 4 p" using fits_mono [OF fits_quantize [OF pq(1)], of 4] by simp
  moreover have "case q of None \<Rightarrow> True | Some v \<Rightarrow> fits 6 v"
    using pq(2) fits_mono [OF fits_quantize [of _ "-4"], of _ _ 6] by (auto simp: and_then_Inr split: option.splits)
  ultimately show ?thesis using assms(2) by (simp add: attempt_fits_def)
qed

lemma quality_fits: "reclaim_quality r p b v n t = Inr (q, xs, ys) \<Longrightarrow> fits 2 q"
  using fits_quantize [of _ "-2"] by (auto simp: reclaim_quality_def and_then_Inr Let_def)

lemma continuation_quality_fits: "continuation_quality r v n = Inr q \<Longrightarrow> fits 2 q"
  using fits_quantize [of _ "-2"] by (auto simp: continuation_quality_def Let_def)

lemma continuation_fits:
  assumes "continuation_result r z e bc cs = Inr (Some a)"
  shows "attempt_fits a"
proof -
  let ?search = "take (nat (maximum_pullback_bars r)) cs"
  obtain t where t: "continuation_trigger bc ?search (bounce_position ?search) = Some t"
    using assms unfolding continuation_result_def Let_def
    by (cases "continuation_trigger bc ?search (bounce_position ?search)") (simp_all split: if_split_asm)
  have "\<exists>f v n. reclaim_result z e f = Inr a \<and> continuation_quality r v n = Inr (rf_quality f)"
    using assms t unfolding continuation_result_def Let_def
    by (simp add: and_then_Inr split: if_split_asm) (elim exE conjE, rule exI, rule conjI, assumption, auto)
  then show ?thesis using reclaim_result_fits continuation_quality_fits by blast
qed

lemma unattempted_fits:
  assumes "reclaim_unattempted r z e bc i cs = Inr a"
  shows "attempt_fits a"
proof -
  obtain k where k: "continuation_result r z e bc cs = Inr k" using assms by (auto simp: reclaim_unattempted_def and_then_Inr)
  show ?thesis
  proof (cases k)
    case None
    then show ?thesis using assms k
      by (auto simp: reclaim_unattempted_def and_then_Inr Let_def plain_facts_def split: if_splits dest!: reclaim_result_fits)
  next
    case (Some a')
    then show ?thesis using assms k continuation_fits by (auto simp: reclaim_unattempted_def)
  qed
qed

lemma rejected_fits: "reclaim_rejected r z e cs i f = Inr a \<Longrightarrow> attempt_fits a"
  by (auto simp: reclaim_rejected_def and_then_Inr Let_def quality_fits split: option.splits dest!: reclaim_result_fits)

lemma open_fits: "reclaim_open r z e bc i cs f = Inr a \<Longrightarrow> fits 2 (rf_quality f) \<Longrightarrow> attempt_fits a"
  by (auto simp: reclaim_open_def and_then_Inr plain_facts_def split: if_splits intro!: reclaim_result_fits)

lemma attempted_fits:
  assumes "reclaim_attempted r z e bc i cs = Inr a"
  shows "attempt_fits a"
proof -
  obtain k where k: "rejection_index r z 0 (take (nat (maximum_pullback_bars r)) cs) = Inr k"
    using assms by (auto simp: reclaim_attempted_def and_then_Inr Let_def)
  show ?thesis
    using assms k by (cases k) (auto simp: reclaim_attempted_def and_then_Inr Let_def plain_facts_def dest!: rejected_fits open_fits)
qed

lemma analyzed_fits:
  assumes "analyze_reclaim_attempt r z e bc cs = Inr a"
  shows "attempt_fits a"
proof -
  have "reclaim_no_candles z e = Inr a \<Longrightarrow> attempt_fits a"
    by (auto simp: reclaim_no_candles_def plain_facts_def intro!: reclaim_result_fits)
  moreover have "reclaim_success z e bc i cs' n = Inr a \<Longrightarrow> attempt_fits a" for i cs' n
    by (auto simp: reclaim_success_def and_then_Inr Let_def plain_facts_def intro!: reclaim_result_fits)
  moreover have "(case x of None \<Rightarrow> reclaim_unattempted r z e bc i cs' | Some k \<Rightarrow> reclaim_attempted r z e bc i (drop k cs')) = Inr a
      \<Longrightarrow> attempt_fits a" for x i cs'
    using unattempted_fits attempted_fits by (cases x) auto
  moreover have "successful_reclaim_index r z (post_break e cs) = Inr n \<Longrightarrow> post_break e cs \<noteq> [] \<Longrightarrow> attempt_fits a" for n
    using assms calculation by (cases n) (auto simp: analyze_reclaim_attempt_def Let_def and_then_Inr)
  ultimately show ?thesis
    using assms
    by (cases "post_break e cs = []"; cases "successful_reclaim_index r z (post_break e cs)")
      (auto simp: analyze_reclaim_attempt_def Let_def and_then_Inr)
qed

lemma derived_attempt_fits: "derive_reclaim_from_structure b h = Inr (Some a) \<Longrightarrow> attempt_fits a"
  using analyzed_fits
  by (auto simp: derive_reclaim_from_structure_def and_then_Inr Let_def split: if_splits list.splits option.splits)


section \<open>The break is found and analysed\<close>

lemma cluster_zone_low:
  assumes "zone_from_cluster r cs cl = Inr (Some z)" "usable_zone_rules r" "\<forall>p \<in> set cl. 1 / 10 ^ 10 \<le> dval (pv_price p)"
  shows "1 / 10 ^ 11 \<le> dval (sz_low z)"
proof -
  obtain first rest where o: "sort_key pivot_time cl = first # rest"
    using assms(1) by (cases "sort_key pivot_time cl") (auto simp: zone_from_cluster_def split: if_splits)
  let ?core = "min_by dval (pv_price first) (map pv_price rest)"
  obtain pad where pad: "ddiv (zone_padding_bps r) BPS = Inr pad" "sz_low z = dmul ?core (dsub (dec 1 0) pad)"
    using assms(1) o
    by (cases z) (auto simp: zone_from_cluster_def and_then_Inr Let_def SupportZone_Inr zone_args_def zone_fields_def split: if_splits)
  have "set cl = insert first (set rest)" using arg_cong [OF o, of set] by simp
  then have "1 / 10 ^ 10 \<le> dval ?core" using min_by_in [of dval "pv_price first" "map pv_price rest"] assms(3) by auto
  moreover have "1 / 2 \<le> dval (dsub (dec 1 0) pad)" using factor_bounds(1) [OF padding_bounds [OF assms(2) pad(1)]] .
  ultimately have "1 / 10 ^ 10 * (1 / 2) \<le> dval ?core * dval (dsub (dec 1 0) pad)" by (intro mult_mono) auto
  then have "1 / 10 ^ 11 \<le> dval ?core * dval (dsub (dec 1 0) pad)" by simp
  moreover have "dec_round (1 / 10 ^ 11) = 1 / 10 ^ 11"
    using dec_round_exact [of 1 "-11"] by (simp add: power_int_minus inverse_eq_divide)
  ultimately show ?thesis unfolding pad(2) dval_dmul by (intro dec.R_ge)
qed

lemma derived_zone_low:
  assumes "derive_support_zones r cs = Inr zones" "usable_zone_rules r" "\<forall>c \<in> set cs. market_candle c" "z \<in> set zones"
  shows "1 / 10 ^ 11 \<le> dval (sz_low z)"
proof -
  have wf: "zone_rules_wf r" using assms(2) by (simp add: usable_zone_rules_def)
  obtain pivots clusters found where d: "find_pivots r cs = Inr pivots" "concat clusters = sort_key pivot_order pivots"
    "traverse (zone_from_cluster r cs) clusters = Inr found" "zones = take (nat (maximum_zones r)) (sort_desc zone_rank (somes found))"
    by (rule derive_Inr [OF assms(1)])
  obtain cl where cl: "cl \<in> set clusters" "zone_from_cluster r cs cl = Inr (Some z)" by (rule found_zone [OF d(4,3) assms(4)])
  have "set cl \<subseteq> set pivots" using cluster_subset [OF wf d(1,2) cl(1)] by blast
  moreover have "pv_candle p \<in> set cs" if "p \<in> set pivots" for p
  proof -
    have "is_pivot r cs (pv_index p)" "pv_candle p = cs ! pv_index p" using find_pivots_facts [OF wf d(1)] that by blast+
    then show ?thesis using is_pivot_bounds by fastforce
  qed
  ultimately have "\<forall>p \<in> set cl. 1 / 10 ^ 10 \<le> dval (pv_price p)" using assms(3) by (auto simp: market_candle_def pv_price_def)
  then show ?thesis by (rule cluster_zone_low [OF cl(2) assms(2)])
qed

lemma find_exists: "x \<in> set xs \<Longrightarrow> P x \<Longrightarrow> \<exists>y. find P xs = Some y \<and> y \<in> set xs \<and> P y"
  by (induction xs) auto

lemma analysis_of_batch:
  assumes "analyze_higher_timeframe zr er b = Inr a" "batch_wf b"
  shows "ha_source a = cb_source b" "ha_symbol a = cb_symbol b" "ha_interval a = cb_interval b"
    "\<forall>z \<in> set (ha_zones a). sz_source z = cb_source b \<and> sz_symbol z = cb_symbol b \<and> sz_interval z = cb_interval b"
proof -
  have "upper (strip (cb_symbol b)) = cb_symbol b" using assms(2) by (simp add: batch_wf_def normal_symbol_def)
  moreover obtain zones primary es ev where "HtfStructureAnalysis \<lparr>ha_source = cb_source b, ha_symbol = cb_symbol b,
      ha_interval = cb_interval b, ha_observed_at = fetched_at b, ha_zones = zones, ha_primary_zone = primary,
      ha_events = es, ha_evidence = ev\<rparr> = Inr a"
    using assms(1) by (auto simp: analyze_higher_timeframe_def and_then_Inr Let_def case_prod_beta split: if_splits)
  ultimately show "ha_source a = cb_source b" "ha_symbol a = cb_symbol b" "ha_interval a = cb_interval b"
    "\<forall>z \<in> set (ha_zones a). sz_source z = cb_source b \<and> sz_symbol z = cb_symbol b \<and> sz_interval z = cb_interval b"
    by (auto simp: HtfStructureAnalysis_Inr)
qed

lemma event_source:
  assumes "analyze_higher_timeframe zr er b = Inr a" "batch_wf b" "zone_rules_wf zr"
    "\<forall>c \<in> set (candles b). candle_wf c" "e \<in> set (ha_events a)"
  obtains z c where "z \<in> set (ha_zones a)" "c \<in> set (candles b)" "event_of z (se_state e) c e"
proof -
  obtain by_zone where z: "map fst by_zone = ha_zones a"
    "\<forall>item \<in> set by_zone. build_structure_events er (fst item) (candles b) = Inr (snd item)"
    "ha_events a = sort_key event_order (concat (map snd by_zone))" "\<forall>z \<in> set (ha_zones a). zone_wf z"
    by (rule analyze_Inr [OF assms(1-4)])
  obtain item where i: "item \<in> set by_zone" "e \<in> set (snd item)" using assms(5) z(3) by auto
  have "fst item \<in> set (ha_zones a)" using i(1) unfolding z(1) [symmetric] by simp
  then show ?thesis using that build_no_lookahead [of er "fst item" "candles b" "snd item"] z(2,4) i by blast
qed

lemma derived_context:
  assumes "analyze_higher_timeframe default_zone_rules er b = Inr a" "batch_wf b" "cb_interval b = H4"
    "\<forall>c \<in> set (candles b). market_candle c" "int (length (candles b)) \<le> 10 ^ 9"
    "e \<in> set (ha_events a)" "se_state e = CONFIRMED_BREAK"
    "z \<in> set (ha_zones a)" "sz_id z = se_zone_id e"
    "bc \<in> set (candles b)" "instant (open_time bc) = instant (se_open_time e)"
  shows "break_context z e bc (candles b)"
proof -
  have wf: "zone_rules_wf default_zone_rules" "\<forall>c \<in> set (candles b). candle_wf c"
    using assms(4) by (auto simp: market_candle_def default_zone_rules_wf)
  have zs: "zone_wf z" "derive_support_zones default_zone_rules (candles b) = Inr (ha_zones a)"
    by (rule analyze_Inr [OF assms(1,2) wf]; use assms(8) in blast)+
  obtain y c where y: "y \<in> set (ha_zones a)" "c \<in> set (candles b)" "event_of y (se_state e) c e"
    by (rule event_source [OF assms(1,2) wf assms(6)])
  have cs: "\<forall>c \<in> set (candles b). cd_source c = cb_source b \<and> cd_symbol c = cb_symbol b \<and> cd_interval c = H4"
    "chronological (candles b)"
    using assms(2,3) by (simp_all add: batch_wf_def)
  have ev: "event_wf e" "se_open_time e = open_time c" "se_observed_at e = close_time c" "se_source e = cb_source b"
    "se_symbol e = cb_symbol b" "se_interval e = H4"
    using y(1,3) analysis_of_batch(4) [OF assms(1,2)] assms(3) by (simp_all add: event_of_def)
  have "instant (close_time bc) = instant (close_time c)"
    using assms(10,11) wf(2) y(2) cs(1) ev(2) by (simp add: candle_wf_def)
  moreover have "1 / 10 ^ 11 \<le> dval (sz_low z)"
    by (rule derived_zone_low [OF zs(2) default_zone_rules_usable assms(4,8)])
  moreover have "sz_source z = cb_source b" "sz_symbol z = cb_symbol b" "sz_interval z = H4"
    using assms(3,8) analysis_of_batch(4) [OF assms(1,2)] by simp_all
  ultimately show ?thesis
    unfolding break_context_def using assms(4,5,7,9,10,11) zs(1) cs ev by simp
qed

lemma latest_break_reclaim:
  assumes "analyze_higher_timeframe default_zone_rules er b = Inr a" "batch_wf b" "cb_interval b = H4"
    "\<forall>c \<in> set (candles b). market_candle c" "int (length (candles b)) \<le> 10 ^ 9"
    "e \<in> set (ha_events a)" "se_state e = CONFIRMED_BREAK"
  obtains z bc r where "find (\<lambda>z. sz_id z = se_zone_id e) (ha_zones a) = Some z"
    "find (\<lambda>c. instant (open_time c) = instant (se_open_time e)) (candles b) = Some bc"
    "analyze_reclaim_attempt default_reclaim_rules z e bc (candles b) = Inr r"
proof -
  have wf: "zone_rules_wf default_zone_rules" "\<forall>c \<in> set (candles b). candle_wf c"
    using assms(4) by (auto simp: market_candle_def default_zone_rules_wf)
  obtain y c where y: "y \<in> set (ha_zones a)" "c \<in> set (candles b)" "event_of y (se_state e) c e"
    by (rule event_source [OF assms(1,2) wf assms(6)])
  have ids: "sz_id y = se_zone_id e" "instant (open_time c) = instant (se_open_time e)"
    using y(3) by (simp_all add: event_of_def)
  obtain z where z: "find (\<lambda>z. sz_id z = se_zone_id e) (ha_zones a) = Some z" "z \<in> set (ha_zones a)" "sz_id z = se_zone_id e"
    using find_exists [OF y(1), of "\<lambda>z. sz_id z = se_zone_id e", OF ids(1)] by blast
  obtain bc where bc: "find (\<lambda>c. instant (open_time c) = instant (se_open_time e)) (candles b) = Some bc"
    "bc \<in> set (candles b)" "instant (open_time bc) = instant (se_open_time e)"
    using find_exists [OF y(2), of "\<lambda>c. instant (open_time c) = instant (se_open_time e)", OF ids(2)] by blast
  obtain r where "analyze_reclaim_attempt default_reclaim_rules z e bc (candles b) = Inr r"
    using reclaim_total [OF derived_context [OF assms z(2,3) bc(2,3)] default_reclaim_rules_wf] by blast
  with z(1) bc(1) show ?thesis by (rule that)
qed

lemma derive_reclaim_total:
  assumes "analyze_higher_timeframe default_zone_rules er b = Inr a" "batch_wf b"
    "\<forall>c \<in> set (candles b). market_candle c" "int (length (candles b)) \<le> 10 ^ 9"
  shows "\<exists>r. derive_reclaim_from_structure b a = Inr r"
proof (cases "cb_interval b = H4")
  case False
  then show ?thesis by (simp add: derive_reclaim_from_structure_def)
next
  case h4: True
  note ids = analysis_of_batch(1-3) [OF assms(1,2)]
  show ?thesis
  proof (cases "filter (\<lambda>e. se_state e = CONFIRMED_BREAK) (ha_events a)")
    case Nil
    then show ?thesis using ids by (simp add: derive_reclaim_from_structure_def)
  next
    case (Cons first rest)
    let ?e = "max_by event_order first rest"
    have "?e \<in> set (filter (\<lambda>e. se_state e = CONFIRMED_BREAK) (ha_events a))"
      unfolding Cons using max_by_in [of event_order first rest] by simp
    then have "?e \<in> set (ha_events a)" "se_state ?e = CONFIRMED_BREAK" by simp_all
    then obtain z bc r where "find (\<lambda>z. sz_id z = se_zone_id ?e) (ha_zones a) = Some z"
      "find (\<lambda>c. instant (open_time c) = instant (se_open_time ?e)) (candles b) = Some bc"
      "analyze_reclaim_attempt default_reclaim_rules z ?e bc (candles b) = Inr r"
      using latest_break_reclaim [OF assms(1,2) h4 assms(3,4)] by blast
    then show ?thesis unfolding derive_reclaim_from_structure_def Cons using h4 ids by (simp add: Let_def)
  qed
qed

end
