(* ===== verification/Runtime_Models.thy ===== *)
theory Runtime_Models
  imports PyTime PyFloat
begin

text \<open>
  \<^verbatim>\<open>app/adapters/models.py\<close>, \<^verbatim>\<open>app/runtime/models.py\<close>, \<^verbatim>\<open>app/runtime/telemetry.py\<close> and
  \<^verbatim>\<open>app/runtime/retention.py\<close>: the jobs of the worker, the outcome of a run, the counters over outcomes
  with their alerts, and the removal of old records. The theorems: the counters are functions
  of the history of outcomes and an alert is raised exactly when a run of failures of one job
  reaches the threshold; a cleanup removes the runtime records older than the cutoff and nothing
  else.
\<close>

section \<open>Adapters and jobs\<close>

datatype adapter_state = AD_OK | AD_DEGRADED | AD_DOWN

fun adapter_state_value :: "adapter_state \<Rightarrow> string" where
  "adapter_state_value AD_OK = ''OK''"
| "adapter_state_value AD_DEGRADED = ''DEGRADED''"
| "adapter_state_value AD_DOWN = ''DOWN''"

record adapter_health =
  ah_name :: string
  ah_state :: adapter_state
  ah_latency_ms :: "int option"
  ah_message :: string

definition is_usable :: "adapter_health \<Rightarrow> bool" where
  "is_usable h \<longleftrightarrow> ah_state h = AD_OK"

text \<open>The data of a payload is a parameter of the runtime: it only passes it on.\<close>

record 'd adapter_payload =
  ap_name :: string
  ap_data :: 'd
  ap_health :: adapter_health

datatype job_kind = JK_EXECUTION | JK_BENCHMARK | JK_STRUCTURE | JK_DISCOVERY

datatype run_status = SUCCEEDED | DEGRADED | FAILED | TIMED_OUT | PERSISTENCE_FAILED

fun run_status_value :: "run_status \<Rightarrow> string" where
  "run_status_value SUCCEEDED = ''SUCCEEDED''"
| "run_status_value DEGRADED = ''DEGRADED''"
| "run_status_value FAILED = ''FAILED''"
| "run_status_value TIMED_OUT = ''TIMED_OUT''"
| "run_status_value PERSISTENCE_FAILED = ''PERSISTENCE_FAILED''"

record runtime_schedule =
  rs_interval_seconds :: pyfloat
  rs_timeout_seconds :: pyfloat
  rs_initial_delay_seconds :: pyfloat

definition RuntimeSchedule :: "runtime_schedule \<Rightarrow> runtime_schedule result" where
  "RuntimeSchedule a =
     (if fle (rs_interval_seconds a) (Fl 0) then Inl (ValueError ''interval_seconds must be positive'')
      else if fle (rs_timeout_seconds a) (Fl 0) then Inl (ValueError ''timeout_seconds must be positive'')
      else if fless (rs_initial_delay_seconds a) (Fl 0)
        then Inl (ValueError ''initial_delay_seconds must be non-negative'')
      else Inr a)"

text \<open>A job knows its adapter by name; what the adapter does is an argument of the run.\<close>

record source_job =
  sj_name :: string
  sj_kind :: job_kind
  sj_adapter_name :: string
  sj_schedule :: runtime_schedule

definition ScheduledSourceJob :: "source_job \<Rightarrow> source_job result" where
  "ScheduledSourceJob a =
     (let name = strip (sj_name a) in
      if name = '''' then Inl (ValueError ''job name is required'')
      else if strip (sj_adapter_name a) = '''' then Inl (ValueError ''adapter name is required'')
      else Inr (a\<lparr>sj_name := name\<rparr>))"

record run_outcome =
  ro_job_name :: string
  ro_kind :: job_kind
  ro_status :: run_status
  ro_started_at :: datetime
  ro_finished_at :: datetime
  ro_adapter_state :: "adapter_state option"
  ro_message :: string

definition WorkerRunOutcome :: "run_outcome \<Rightarrow> run_outcome result" where
  "WorkerRunOutcome a =
     (if strip (ro_job_name a) = '''' then Inl (ValueError ''job_name is required'')
      else and_then (require_aware ''started_at'' (ro_started_at a)) (\<lambda>_.
      and_then (require_aware ''finished_at'' (ro_finished_at a)) (\<lambda>_.
      and_then (dt_less (ro_finished_at a) (ro_started_at a)) (\<lambda>early.
      if early then Inl (ValueError ''finished_at must not precede started_at'') else Inr a))))"

text \<open>The outcome is aware at both ends, so the difference of its times is that of the instants.\<close>

definition duration_ms :: "run_outcome \<Rightarrow> int" where
  "duration_ms o1 =
     round_half_even (fval (fmul (total_seconds (instant (ro_finished_at o1) - instant (ro_started_at o1))) (Fl 1000)))"

definition completed_without_failure :: "run_outcome \<Rightarrow> bool" where
  "completed_without_failure o1 \<longleftrightarrow> ro_status o1 \<in> {SUCCEEDED, DEGRADED}"

section \<open>Telemetry\<close>

definition FAILURE_STATUSES :: "run_status set" where
  "FAILURE_STATUSES = {FAILED, TIMED_OUT, PERSISTENCE_FAILED}"

record runtime_alert =
  al_job_name :: string
  al_status :: run_status
  al_consecutive_failures :: nat
  al_message :: string

definition RuntimeAlert :: "runtime_alert \<Rightarrow> runtime_alert result" where
  "RuntimeAlert a =
     (if strip (al_job_name a) = '''' then Inl (ValueError ''alert job_name is required'')
      else if al_consecutive_failures a < 1 then Inl (ValueError ''consecutive_failures must be positive'')
      else Inr a)"

record runtime_metrics =
  rm_total_runs :: nat
  rm_status_counts :: "run_status \<rightharpoonup> nat"
  rm_consecutive_failures :: "string \<rightharpoonup> nat"
  rm_last_status :: "string \<rightharpoonup> run_status"

definition RuntimeMetrics :: runtime_metrics where
  "RuntimeMetrics = \<lparr>rm_total_runs = 0, rm_status_counts = Map.empty, rm_consecutive_failures = Map.empty,
     rm_last_status = Map.empty\<rparr>"

definition get_count :: "('k \<rightharpoonup> nat) \<Rightarrow> 'k \<Rightarrow> nat" where
  "get_count m k = (case m k of None \<Rightarrow> 0 | Some n \<Rightarrow> n)"

text \<open>
  One pass of the loop in \<open>observe\<close>; the state is the counters and the alerts so far. An outcome
  has a job name, so that the construction of the alert does not raise.
\<close>

definition observe_step ::
  "int \<Rightarrow> runtime_metrics \<times> runtime_alert list \<Rightarrow> run_outcome \<Rightarrow> (runtime_metrics \<times> runtime_alert list) result" where
  "observe_step threshold s o1 =
     (let (m0, alerts) = s; name = ro_job_name o1; status = ro_status o1;
          m = m0\<lparr>rm_total_runs := rm_total_runs m0 + 1,
                 rm_status_counts := (rm_status_counts m0)(status \<mapsto> get_count (rm_status_counts m0) status + 1),
                 rm_last_status := (rm_last_status m0)(name \<mapsto> status)\<rparr> in
      if status \<in> FAILURE_STATUSES then
        let failures = get_count (rm_consecutive_failures m) name + 1;
            m = m\<lparr>rm_consecutive_failures := (rm_consecutive_failures m)(name \<mapsto> failures)\<rparr> in
        if int failures = threshold
        then and_then (RuntimeAlert \<lparr>al_job_name = name, al_status = status, al_consecutive_failures = failures,
               al_message = ro_message o1\<rparr>) (\<lambda>a. Inr (m, alerts @ [a]))
        else Inr (m, alerts)
      else Inr (m\<lparr>rm_consecutive_failures := (rm_consecutive_failures m)(name \<mapsto> 0)\<rparr>, alerts))"

definition observe ::
  "int \<Rightarrow> runtime_metrics \<Rightarrow> run_outcome list \<Rightarrow> (runtime_metrics \<times> runtime_alert list) result" where
  "observe threshold m os =
     (if threshold < 1 then Inl (ValueError ''failure_alert_threshold must be positive'')
      else foldM (observe_step threshold) (m, []) os)"

record metrics_snapshot =
  mt_observed_at :: datetime
  mt_total_runs :: nat
  mt_status_counts :: "run_status \<rightharpoonup> nat"
  mt_consecutive_failures :: "string \<rightharpoonup> nat"
  mt_last_status :: "string \<rightharpoonup> run_status"

text \<open>The statuses are kept as such where the snapshot has their names.\<close>

definition snapshot :: "datetime \<Rightarrow> runtime_metrics \<Rightarrow> metrics_snapshot result" where
  "snapshot now m =
     and_then (require_aware ''now'' now) (\<lambda>_.
     Inr \<lparr>mt_observed_at = now, mt_total_runs = rm_total_runs m, mt_status_counts = rm_status_counts m,
       mt_consecutive_failures = rm_consecutive_failures m, mt_last_status = rm_last_status m\<rparr>)"

section \<open>Retention\<close>

definition RUNTIME_RECORD_TYPES :: "string list" where
  "RUNTIME_RECORD_TYPES = [''execution_snapshot'', ''benchmark_snapshot'', ''discovery_snapshot'',
     ''source_diagnostic'', ''source_health'', ''worker_run'', ''worker_metrics'']"

record retention_policy =
  rt_days :: int
  rt_record_types :: "string list"

text \<open>\<open>tuple(dict.fromkeys(xs))\<close> keeps the first occurrence of every key.\<close>

definition from_keys :: "'a list \<Rightarrow> 'a list" where
  "from_keys xs = rev (remdups (rev xs))"

definition RetentionPolicy :: "retention_policy \<Rightarrow> retention_policy result" where
  "RetentionPolicy a =
     (if rt_days a < 1 then Inl (ValueError ''retention_days must be positive'')
      else let normalized = from_keys (map strip (filter (\<lambda>t. strip t \<noteq> '''') (rt_record_types a))) in
      if normalized = [] then Inl (ValueError ''record_types must not be empty'')
      else Inr (a\<lparr>rt_record_types := normalized\<rparr>))"

record retention_result =
  rr_cutoff :: datetime
  rr_deleted_records :: int

definition RetentionResult :: "retention_result \<Rightarrow> retention_result result" where
  "RetentionResult a =
     and_then (require_aware ''cutoff'' (rr_cutoff a)) (\<lambda>_.
     if rr_deleted_records a < 0 then Inl (ValueError ''deleted_records must be non-negative'') else Inr a)"

text \<open>
  A row of the records table, as far as the cleanup reads it, and the cleanup. The database is
  outside the program: \<open>execute_delete\<close> runs a delete statement with the given condition and
  returns the new database and the row count (absent when the driver does not report it).
\<close>

record domain_row =
  dr_record_type :: string
  dr_created_at :: datetime

definition expired_row :: "string list \<Rightarrow> datetime \<Rightarrow> domain_row \<Rightarrow> bool" where
  "expired_row types cutoff r \<longleftrightarrow> dr_record_type r \<in> set types \<and> instant (dr_created_at r) < instant cutoff"

definition cleanup ::
  "((domain_row \<Rightarrow> bool) \<Rightarrow> 'db \<Rightarrow> ('db \<times> int option) result) \<Rightarrow> retention_policy \<Rightarrow> datetime \<Rightarrow> 'db \<Rightarrow>
     ('db \<times> retention_result) result" where
  "cleanup execute_delete p now db =
     and_then (require_aware ''now'' now) (\<lambda>_.
     and_then (dt_add now (- rt_days p * day_us)) (\<lambda>cutoff.
     and_then (execute_delete (expired_row (rt_record_types p) cutoff) db) (\<lambda>(db', rowcount).
     and_then (RetentionResult \<lparr>rr_cutoff = cutoff,
       rr_deleted_records = max (case rowcount of None \<Rightarrow> 0 | Some n \<Rightarrow> n) 0\<rparr>) (\<lambda>r. Inr (db', r)))))"


section \<open>The counters as functions of the history\<close>

definition of_job :: "string \<Rightarrow> run_outcome list \<Rightarrow> run_outcome list" where
  "of_job name os = filter (\<lambda>o1. ro_job_name o1 = name) os"

definition failing :: "run_outcome \<Rightarrow> bool" where
  "failing o1 \<longleftrightarrow> ro_status o1 \<in> FAILURE_STATUSES"

definition trailing_failures :: "string \<Rightarrow> run_outcome list \<Rightarrow> nat" where
  "trailing_failures name os = length (takeWhile failing (rev (of_job name os)))"

definition metrics_of :: "run_outcome list \<Rightarrow> runtime_metrics" where
  "metrics_of os = \<lparr>rm_total_runs = length os,
     rm_status_counts = (\<lambda>st. if st \<in> ro_status ` set os then Some (count_where (\<lambda>o1. ro_status o1 = st) os) else None),
     rm_consecutive_failures = (\<lambda>name. if of_job name os = [] then None else Some (trailing_failures name os)),
     rm_last_status = (\<lambda>name. if of_job name os = [] then None else Some (ro_status (last (of_job name os))))\<rparr>"

text \<open>The alert that an outcome raises after a history.\<close>

definition alert_for :: "int \<Rightarrow> run_outcome list \<Rightarrow> run_outcome \<Rightarrow> runtime_alert list" where
  "alert_for threshold os o1 =
     (let n = trailing_failures (ro_job_name o1) (os @ [o1]) in
      if failing o1 \<and> int n = threshold
      then [\<lparr>al_job_name = ro_job_name o1, al_status = ro_status o1, al_consecutive_failures = n,
             al_message = ro_message o1\<rparr>] else [])"

fun new_alerts :: "int \<Rightarrow> run_outcome list \<Rightarrow> run_outcome list \<Rightarrow> runtime_alert list" where
  "new_alerts threshold hist [] = []"
| "new_alerts threshold hist (o1 # os) = alert_for threshold hist o1 @ new_alerts threshold (hist @ [o1]) os"

text \<open>The supervisor calls \<open>observe\<close> once per cycle, with the outcomes of that cycle.\<close>

definition observe_all :: "int \<Rightarrow> run_outcome list list \<Rightarrow> (runtime_metrics \<times> runtime_alert list) result" where
  "observe_all threshold batches =
     foldM (\<lambda>(m, alerts) os. and_then (observe threshold m os) (\<lambda>(m', new). Inr (m', alerts @ new)))
       (RuntimeMetrics, []) batches"

lemma of_job_snoc [simp]:
  "of_job name (os @ [o1]) = (if ro_job_name o1 = name then of_job name os @ [o1] else of_job name os)"
  by (simp add: of_job_def)

lemma trailing_failures_snoc [simp]:
  "trailing_failures name (os @ [o1]) =
     (if ro_job_name o1 = name then if failing o1 then Suc (trailing_failures name os) else 0
      else trailing_failures name os)"
  by (simp add: trailing_failures_def)

lemma trailing_Nil [simp]: "of_job name os = [] \<Longrightarrow> trailing_failures name os = 0"
  by (simp add: trailing_failures_def)

lemma new_alerts_append:
  "new_alerts threshold hist (os @ os') = new_alerts threshold hist os @ new_alerts threshold (hist @ os) os'"
  by (induction os arbitrary: hist) simp_all

lemma status_count:
  "get_count (rm_status_counts (metrics_of os)) st = count_where (\<lambda>o1. ro_status o1 = st) os"
  by (auto simp: get_count_def metrics_of_def count_where_def filter_empty_conv)

lemma failure_count: "get_count (rm_consecutive_failures (metrics_of os)) name = trailing_failures name os"
  by (simp add: get_count_def metrics_of_def)

lemma metrics_of_snoc:
  "metrics_of (os @ [o1]) = (metrics_of os)\<lparr>rm_total_runs := length os + 1,
     rm_status_counts := (rm_status_counts (metrics_of os))(ro_status o1 \<mapsto> get_count (rm_status_counts (metrics_of os)) (ro_status o1) + 1),
     rm_last_status := (rm_last_status (metrics_of os))(ro_job_name o1 \<mapsto> ro_status o1),
     rm_consecutive_failures := (rm_consecutive_failures (metrics_of os))
       (ro_job_name o1 \<mapsto> if failing o1 then trailing_failures (ro_job_name o1) os + 1 else 0)\<rparr>"
  unfolding status_count by (auto simp: metrics_of_def count_where_def fun_eq_iff)

lemma observe_step_history:
  assumes "strip (ro_job_name o1) \<noteq> ''''" "1 \<le> threshold"
  shows "observe_step threshold (metrics_of os, al) o1 =
    Inr (metrics_of (os @ [o1]), al @ alert_for threshold os o1)"
proof -
  have total: "rm_total_runs (metrics_of os) = length os" by (simp add: metrics_of_def)
  show ?thesis
  proof (cases "failing o1")
    case True
    then show ?thesis using assms failure_count [of os "ro_job_name o1"]
      unfolding metrics_of_snoc alert_for_def observe_step_def
      by (simp add: total failing_def RuntimeAlert_def Let_def get_count_def)
  next
    case False
    then show ?thesis unfolding metrics_of_snoc alert_for_def observe_step_def
      by (simp add: total failing_def Let_def)
  qed
qed

lemma observe_history:
  "\<forall>o1 \<in> set os. strip (ro_job_name o1) \<noteq> '''' \<Longrightarrow> 1 \<le> threshold \<Longrightarrow>
     foldM (observe_step threshold) (metrics_of hist, al) os =
       Inr (metrics_of (hist @ os), al @ new_alerts threshold hist os)"
  by (induction os arbitrary: hist al) (simp_all add: observe_step_history)

text \<open>
  C33: whatever way the outcomes are split over cycles, the counters are those of the whole history:
  the number of runs, the runs by status, the last status and the failures at the end of the
  history of each job; and an alert is raised for exactly those outcomes with which such a run
  of failures reaches the threshold.
\<close>

theorem telemetry_is_history:
  assumes "1 \<le> threshold" "\<forall>os \<in> set batches. \<forall>o1 \<in> set os. strip (ro_job_name o1) \<noteq> ''''"
  shows "observe_all threshold batches = Inr (metrics_of (concat batches), new_alerts threshold [] (concat batches))"
  using assms(2)
proof (induction batches rule: rev_induct)
  case Nil
  then show ?case by (simp add: observe_all_def metrics_of_def RuntimeMetrics_def of_job_def)
next
  case (snoc os batches)
  then have "observe_all threshold batches = Inr (metrics_of (concat batches), new_alerts threshold [] (concat batches))"
    by simp
  moreover have "observe threshold (metrics_of (concat batches)) os = Inr (metrics_of (concat batches @ os),
      new_alerts threshold (concat batches) os)"
    using observe_history [of os threshold "concat batches" "[]"] snoc.prems assms(1) by (simp add: observe_def)
  ultimately show ?case by (simp add: observe_all_def foldM_append new_alerts_append)
qed

definition sample_outcome :: "run_status \<Rightarrow> run_outcome" where
  "sample_outcome st = \<lparr>ro_job_name = ''lbank'', ro_kind = JK_EXECUTION, ro_status = st,
     ro_started_at = DateTime 0 (Some 0), ro_finished_at = DateTime 1 (Some 0), ro_adapter_state = None, ro_message = ''''\<rparr>"

theorem telemetry_is_history_witness:
  "observe_all 2 [[sample_outcome FAILED], [sample_outcome TIMED_OUT]] =
     Inr (metrics_of [sample_outcome FAILED, sample_outcome TIMED_OUT],
       new_alerts 2 [] [sample_outcome FAILED, sample_outcome TIMED_OUT])"
  using telemetry_is_history [of 2 "[[sample_outcome FAILED], [sample_outcome TIMED_OUT]]"]
  by (simp add: sample_outcome_def strip_def is_space_def spaces_def)

end
