(* ===== verification/Scheduler.thy ===== *)
theory Scheduler
  imports Runtime_Models
begin

text \<open>
  \<^verbatim>\<open>app/runtime/scheduler.py\<close> and \<^verbatim>\<open>app/runtime/supervisor.py\<close>: which jobs are due, the run of one job with every
  failure turned into an outcome, and the cycle of the supervisor. The selection of due jobs and the
  release of a finished job each hold the state lock, so they are the steps of a relation in which
  runs of different cycles interleave. The theorems: a job never runs twice at a time, its starts
  are at least its interval apart, exactly the due jobs are started, and a run always ends in an
  outcome.
\<close>

section \<open>Selection\<close>

text \<open>\<open>timedelta(seconds=x)\<close>: whole seconds exactly, the fraction rounded to microseconds.\<close>

fun timedelta_seconds :: "pyfloat \<Rightarrow> timedelta result" where
  "timedelta_seconds FNaN = Inl (ValueError ''cannot convert float NaN to integer'')"
| "timedelta_seconds (FInf s) = Inl (OverflowError ''cannot convert float infinity to integer'')"
| "timedelta_seconds (Fl x) =
     (let whole = (if 0 \<le> x then \<lfloor>x\<rfloor> else \<lceil>x\<rceil>);
          us = whole * second_us + round_half_even (f64_round ((x - of_int whole) * 1000000)) in
      if us div day_us < -999999999 \<or> 999999999 < us div day_us
      then Inl (OverflowError (''days='' @ str_int (us div day_us) @ ''; must have magnitude <= 999999999''))
      else Inr us)"

record orchestrator =
  oc_jobs :: "source_job list"
  oc_next_run_at :: "string \<Rightarrow> datetime option"
  oc_in_flight :: "string set"

definition RuntimeOrchestrator :: "source_job list \<Rightarrow> orchestrator result" where
  "RuntimeOrchestrator jobs =
     (if \<not> distinct (map sj_name jobs) then Inl (ValueError ''runtime job names must be unique'')
      else Inr \<lparr>oc_jobs = jobs, oc_next_run_at = (\<lambda>_. None), oc_in_flight = {}\<rparr>)"

definition next_run_at :: "orchestrator \<Rightarrow> string \<Rightarrow> datetime option result" where
  "next_run_at s name =
     (if name \<notin> sj_name ` set (oc_jobs s) then Inl (KeyError name) else Inr (oc_next_run_at s name))"

definition after :: "datetime \<Rightarrow> pyfloat \<Rightarrow> datetime result" where
  "after now seconds = and_then (timedelta_seconds seconds) (dt_add now)"

text \<open>
  The loop of \<open>run_due\<close> under the lock. An exception leaves the state as the loop had it, with the
  jobs taken so far in flight.
\<close>

fun select_due ::
  "datetime \<Rightarrow> source_job list \<Rightarrow> orchestrator \<Rightarrow> source_job list \<Rightarrow> source_job list result \<times> orchestrator" where
  "select_due now [] s due = (Inr due, s)"
| "select_due now (j # js) s due =
     (let name = sj_name j in
      case (case oc_next_run_at s name of
              Some t \<Rightarrow> Inr t
            | None \<Rightarrow> after now (rs_initial_delay_seconds (sj_schedule j))) of
        Inl e \<Rightarrow> (Inl e, s)
      | Inr scheduled \<Rightarrow>
          let s = s\<lparr>oc_next_run_at := (oc_next_run_at s)(name \<mapsto> scheduled)\<rparr> in
          (case dt_less now scheduled of
             Inl e \<Rightarrow> (Inl e, s)
           | Inr later \<Rightarrow>
               if later \<or> name \<in> oc_in_flight s then select_due now js s due
               else let s = s\<lparr>oc_in_flight := insert name (oc_in_flight s)\<rparr> in
                 (case after now (rs_interval_seconds (sj_schedule j)) of
                    Inl e \<Rightarrow> (Inl e, s)
                  | Inr upcoming \<Rightarrow>
                      select_due now js (s\<lparr>oc_next_run_at := (oc_next_run_at s)(name \<mapsto> upcoming)\<rparr>) (due @ [j]))))"

definition discard_in_flight :: "string \<Rightarrow> orchestrator \<Rightarrow> orchestrator" where
  "discard_in_flight name s = s\<lparr>oc_in_flight := oc_in_flight s - {name}\<rparr>"

section \<open>One run\<close>

definition error_message :: "error \<Rightarrow> string" where
  "error_message e =
     (let detail = strip (error_text e) in
      if detail \<noteq> '''' then take 500 (error_name e @ '': '' @ detail) else error_name e)"

fun status_for_health :: "adapter_state \<Rightarrow> run_status" where
  "status_for_health AD_OK = SUCCEEDED"
| "status_for_health AD_DEGRADED = DEGRADED"
| "status_for_health AD_DOWN = FAILED"

definition validate_payload :: "source_job \<Rightarrow> 'd adapter_payload \<Rightarrow> unit result" where
  "validate_payload j p =
     (let expected = strip (sj_adapter_name j) in
      if strip (ap_name p) \<noteq> expected then Inl (ValueError ''adapter payload name mismatch'')
      else if strip (ah_name (ap_health p)) \<noteq> expected then Inl (ValueError ''adapter health name mismatch'')
      else Inr ())"

definition aware_clock :: "datetime result \<Rightarrow> datetime result" where
  "aware_clock reading =
     and_then reading (\<lambda>t. if aware t then Inr t
       else Inl (ValueError ''runtime clock must return a timezone-aware datetime''))"

definition clock_not_before :: "datetime result \<Rightarrow> datetime \<Rightarrow> datetime result" where
  "clock_not_before reading fallback =
     and_then (aware_clock reading) (\<lambda>v. and_then (dt_less v fallback) (\<lambda>early. Inr (if early then fallback else v)))"

definition safe_clock_not_before :: "datetime result \<Rightarrow> datetime \<Rightarrow> datetime" where
  "safe_clock_not_before reading fallback =
     (case clock_not_before reading fallback of Inl e \<Rightarrow> fallback | Inr t \<Rightarrow> t)"

text \<open>
  What a run meets: the clock readings at its four program points (start, end of a load, handling
  of an exception, failed store), what the adapter gives or raises (\<open>TimeoutError\<close> when the wait
  for it times out), and whether the store accepts a payload or a failure.
\<close>

record 'd job_env =
  je_start_clock :: "datetime result"
  je_load :: "'d adapter_payload result"
  je_end_clock :: "datetime result"
  je_error_clock :: "datetime result"
  je_store_payload :: "unit result"
  je_store_failure :: "unit result"
  je_store_clock :: "datetime result"

definition persist_payload :: "source_job \<Rightarrow> 'd job_env \<Rightarrow> run_outcome \<Rightarrow> run_outcome result" where
  "persist_payload j env o1 =
     (case je_store_payload env of
        Inr _ \<Rightarrow> Inr o1
      | Inl e \<Rightarrow> WorkerRunOutcome \<lparr>ro_job_name = sj_name j, ro_kind = sj_kind j, ro_status = PERSISTENCE_FAILED,
          ro_started_at = ro_started_at o1,
          ro_finished_at = safe_clock_not_before (je_store_clock env) (ro_finished_at o1),
          ro_adapter_state = ro_adapter_state o1, ro_message = error_message e\<rparr>)"

definition persist_failure :: "source_job \<Rightarrow> 'd job_env \<Rightarrow> run_outcome \<Rightarrow> run_outcome result" where
  "persist_failure j env o1 =
     (case je_store_failure env of
        Inr _ \<Rightarrow> Inr o1
      | Inl e \<Rightarrow> WorkerRunOutcome \<lparr>ro_job_name = sj_name j, ro_kind = sj_kind j, ro_status = PERSISTENCE_FAILED,
          ro_started_at = ro_started_at o1,
          ro_finished_at = safe_clock_not_before (je_store_clock env) (ro_finished_at o1),
          ro_adapter_state = Some AD_DOWN, ro_message = error_message e\<rparr>)"

definition failed_run ::
  "source_job \<Rightarrow> 'd job_env \<Rightarrow> datetime \<Rightarrow> run_status \<Rightarrow> string \<Rightarrow> run_outcome result" where
  "failed_run j env started status message =
     and_then (WorkerRunOutcome \<lparr>ro_job_name = sj_name j, ro_kind = sj_kind j, ro_status = status,
       ro_started_at = started, ro_finished_at = safe_clock_not_before (je_error_clock env) started,
       ro_adapter_state = Some AD_DOWN, ro_message = message\<rparr>) (persist_failure j env)"

definition run_job :: "source_job \<Rightarrow> 'd job_env \<Rightarrow> datetime \<Rightarrow> run_outcome result" where
  "run_job j env scheduled_now =
     (let start = clock_not_before (je_start_clock env) scheduled_now;
          started = (case start of Inl e \<Rightarrow> scheduled_now | Inr t \<Rightarrow> t);
          body = and_then start (\<lambda>_.
            and_then (je_load env) (\<lambda>payload.
            and_then (validate_payload j payload) (\<lambda>_.
            and_then (WorkerRunOutcome \<lparr>ro_job_name = sj_name j, ro_kind = sj_kind j,
              ro_status = status_for_health (ah_state (ap_health payload)), ro_started_at = started,
              ro_finished_at = safe_clock_not_before (je_end_clock env) started,
              ro_adapter_state = Some (ah_state (ap_health payload)), ro_message = ah_message (ap_health payload)\<rparr>)
              (persist_payload j env)))) in
      case body of
        Inr o1 \<Rightarrow> Inr o1
      | Inl (TimeoutError m) \<Rightarrow> failed_run j env started TIMED_OUT ''source load timed out''
      | Inl e \<Rightarrow> failed_run j env started FAILED (error_message e))"

text \<open>\<open>run_due\<close> as its caller sees it: the due jobs are run and released.\<close>

definition run_due ::
  "(string \<Rightarrow> 'd job_env) \<Rightarrow> datetime \<Rightarrow> orchestrator \<Rightarrow> run_outcome list result \<times> orchestrator" where
  "run_due env now s =
     (if \<not> aware now then (Inl (ValueError ''now must be timezone-aware''), s)
      else case select_due now (oc_jobs s) s [] of
        (Inl e, s') \<Rightarrow> (Inl e, s')
      | (Inr due, s') \<Rightarrow>
          (traverse (\<lambda>j. run_job j (env (sj_name j)) now) due, fold (\<lambda>j. discard_in_flight (sj_name j)) due s'))"


section \<open>What is due\<close>

definition is_due :: "datetime \<Rightarrow> orchestrator \<Rightarrow> source_job \<Rightarrow> bool" where
  "is_due now s j \<longleftrightarrow> sj_name j \<notin> oc_in_flight s \<and>
     (case oc_next_run_at s (sj_name j) of
        Some t \<Rightarrow> instant t \<le> instant now
      | None \<Rightarrow> \<exists>t. after now (rs_initial_delay_seconds (sj_schedule j)) = Inr t \<and> instant t \<le> instant now)"

lemma is_due_cong:
  "oc_next_run_at s (sj_name j) = oc_next_run_at s' (sj_name j) \<Longrightarrow>
   (sj_name j \<in> oc_in_flight s \<longleftrightarrow> sj_name j \<in> oc_in_flight s') \<Longrightarrow> is_due now s j = is_due now s' j"
  by (simp add: is_due_def)

lemma is_due_filter_cong:
  assumes "sj_name j \<notin> sj_name ` set js"
    "\<And>name. name \<noteq> sj_name j \<Longrightarrow> oc_next_run_at s name = oc_next_run_at s' name \<and> (name \<in> oc_in_flight s \<longleftrightarrow> name \<in> oc_in_flight s')"
  shows "filter (is_due now s) js = filter (is_due now s') js"
  using assms by (intro filter_cong refl is_due_cong) (metis imageI)+

text \<open>The state after one job of the loop, when nothing is raised.\<close>

lemma select_step:
  assumes "select_due now (j # js) s due = (Inr due', s')"
  obtains s1 t where "select_due now js s1 (due @ (if is_due now s j then [j] else [])) = (Inr due', s')"
    "oc_in_flight s1 = oc_in_flight s \<union> (if is_due now s j then {sj_name j} else {})"
    "oc_next_run_at s1 = (oc_next_run_at s)(sj_name j \<mapsto> t)" "oc_jobs s1 = oc_jobs s"
    "is_due now s j \<longrightarrow> after now (rs_interval_seconds (sj_schedule j)) = Inr t"
proof -
  let ?sched = "case oc_next_run_at s (sj_name j) of Some t \<Rightarrow> Inr t
      | None \<Rightarrow> after now (rs_initial_delay_seconds (sj_schedule j))"
  from assms obtain t where t: "?sched = Inr t" by (cases ?sched) simp_all
  with assms obtain later where l: "dt_less now t = Inr later" by (cases "dt_less now t") (simp_all add: Let_def)
  have due: "is_due now s j \<longleftrightarrow> \<not> (later \<or> sj_name j \<in> oc_in_flight s)"
    using t l by (auto simp: is_due_def dt_less_value split: option.splits)
  let ?s = "s\<lparr>oc_next_run_at := (oc_next_run_at s)(sj_name j \<mapsto> t)\<rparr>"
  show thesis
  proof (cases "is_due now s j")
    case False
    then show thesis using that [of ?s t] assms t l due by (auto simp: Let_def)
  next
    case True
    with assms t l due obtain u where "after now (rs_interval_seconds (sj_schedule j)) = Inr u"
      by (cases "after now (rs_interval_seconds (sj_schedule j))") (simp_all add: Let_def)
    then show thesis using True assms t l due
      by (intro that [of "?s\<lparr>oc_in_flight := insert (sj_name j) (oc_in_flight s),
         oc_next_run_at := (oc_next_run_at s)(sj_name j \<mapsto> u)\<rparr>" u]) (simp_all add: Let_def)
  qed
qed

lemma select_due_filter:
  "select_due now js s due = (Inr due', s') \<Longrightarrow> distinct (map sj_name js) \<Longrightarrow>
     due' = due @ filter (is_due now s) js \<and>
     oc_in_flight s' = oc_in_flight s \<union> sj_name ` set (filter (is_due now s) js) \<and> oc_jobs s' = oc_jobs s \<and>
     (\<forall>j \<in> set (filter (is_due now s) js).
        \<exists>t. oc_next_run_at s' (sj_name j) = Some t \<and> after now (rs_interval_seconds (sj_schedule j)) = Inr t) \<and>
     (\<forall>name. name \<notin> sj_name ` set js \<longrightarrow> oc_next_run_at s' name = oc_next_run_at s name)"
proof (induction js arbitrary: s due)
  case (Cons j js)
  obtain s1 t where step: "select_due now js s1 (due @ (if is_due now s j then [j] else [])) = (Inr due', s')"
    and s1: "oc_in_flight s1 = oc_in_flight s \<union> (if is_due now s j then {sj_name j} else {})"
      "oc_next_run_at s1 = (oc_next_run_at s)(sj_name j \<mapsto> t)" "oc_jobs s1 = oc_jobs s"
      "is_due now s j \<longrightarrow> after now (rs_interval_seconds (sj_schedule j)) = Inr t"
    using Cons.prems(1) by (rule select_step)
  have new: "sj_name j \<notin> sj_name ` set js" using Cons.prems(2) by simp
  have "filter (is_due now s1) js = filter (is_due now s) js"
    by (rule is_due_filter_cong [OF new]) (auto simp: s1(1,2))
  then show ?case using Cons.IH [OF step] Cons.prems(2) s1 new by auto
qed simp


text \<open>
  a pass of the scheduler that raises nothing starts exactly the jobs that are due and not in
  flight, in the order of the job list; they are in flight afterwards, and each is scheduled
  again one interval after now. So no job whose time has come is passed over.
\<close>

theorem selection_exact:
  assumes "select_due now (oc_jobs s) s [] = (Inr due, s')" "distinct (map sj_name (oc_jobs s))"
  shows "due = filter (is_due now s) (oc_jobs s) \<and> oc_in_flight s' = oc_in_flight s \<union> sj_name ` set due \<and>
    (\<forall>j \<in> set due. \<exists>t. oc_next_run_at s' (sj_name j) = Some t \<and> after now (rs_interval_seconds (sj_schedule j)) = Inr t)"
  using select_due_filter [OF assms] by auto

section \<open>Interleaved runs\<close>

text \<open>
  The state of the worker: the orchestrator, the names of the jobs that are running, and every
  start so far with the time of its pass. Passes and ends of runs interleave freely; a pass that
  raises starts nothing.
\<close>

type_synonym worker = "orchestrator \<times> string list \<times> (string \<times> datetime) list"

inductive sched_step :: "worker \<Rightarrow> worker \<Rightarrow> bool" where
  pass: "select_due now (oc_jobs s) s [] = (Inr js, s') \<Longrightarrow>
    sched_step (s, run, starts) (s', run @ map sj_name js, starts @ map (\<lambda>j. (sj_name j, now)) js)"
| pass_raises: "select_due now (oc_jobs s) s [] = (Inl e, s') \<Longrightarrow> sched_step (s, run, starts) (s', run, starts)"
| job_ends: "name \<in> set run \<Longrightarrow> sched_step (s, run, starts) (discard_in_flight name s, remove1 name run, starts)"

inductive sched_reach :: "source_job list \<Rightarrow> worker \<Rightarrow> bool" for jobs where
  created: "RuntimeOrchestrator jobs = Inr s \<Longrightarrow> sched_reach jobs (s, [], [])"
| stepped: "sched_reach jobs w \<Longrightarrow> sched_step w w' \<Longrightarrow> sched_reach jobs w'"

inductive_cases sched_stepE: "sched_step w w'"

text \<open>At least the interval of every job of that name lies between the two times.\<close>

definition spaced :: "source_job list \<Rightarrow> string \<Rightarrow> datetime \<Rightarrow> datetime \<Rightarrow> bool" where
  "spaced jobs name t u \<longleftrightarrow> (\<forall>j \<in> set jobs. sj_name j = name \<longrightarrow>
     (\<exists>d. timedelta_seconds (rs_interval_seconds (sj_schedule j)) = Inr d \<and> instant t + d \<le> instant u))"

definition starts_spaced :: "source_job list \<Rightarrow> (string \<times> datetime) list \<Rightarrow> bool" where
  "starts_spaced jobs starts \<longleftrightarrow> sorted_wrt (\<lambda>a b. fst a = fst b \<longrightarrow> spaced jobs (fst a) (snd a) (snd b)) starts"

definition positive_interval :: "source_job \<Rightarrow> bool" where
  "positive_interval j \<longleftrightarrow> \<not> fle (rs_interval_seconds (sj_schedule j)) (Fl 0)"

lemma spaced_later: "spaced jobs name t u \<Longrightarrow> instant u \<le> instant v \<Longrightarrow> spaced jobs name t v"
  by (fastforce simp: spaced_def)

lemma timedelta_nonneg: "timedelta_seconds (Fl x) = Inr d \<Longrightarrow> 0 \<le> x \<Longrightarrow> 0 \<le> d"
proof -
  assume d: "timedelta_seconds (Fl x) = Inr d" and x: "0 \<le> x"
  have "0 \<le> (x - of_int \<lfloor>x\<rfloor>) * 1000000" by simp
  then have "0 \<le> round_half_even (f64_round ((x - of_int \<lfloor>x\<rfloor>) * 1000000))"
    using round_half_even_ge [of 0] f64.R_nonneg by simp
  then show ?thesis using d x by (auto simp: Let_def second_us_def split: if_splits)
qed

lemma after_interval:
  assumes "after now (rs_interval_seconds (sj_schedule j)) = Inr t" "positive_interval j"
  shows "instant now \<le> instant t"
    "\<exists>d. timedelta_seconds (rs_interval_seconds (sj_schedule j)) = Inr d \<and> instant now + d = instant t"
proof -
  obtain d where d: "timedelta_seconds (rs_interval_seconds (sj_schedule j)) = Inr d" "dt_add now d = Inr t"
    using assms(1) by (auto simp: after_def result_simps)
  then obtain x where "rs_interval_seconds (sj_schedule j) = Fl x" "0 < x"
    using assms(2) by (cases "rs_interval_seconds (sj_schedule j)") (auto simp: positive_interval_def)
  then show "instant now \<le> instant t"
    "\<exists>d. timedelta_seconds (rs_interval_seconds (sj_schedule j)) = Inr d \<and> instant now + d = instant t"
    using timedelta_nonneg [of x d] d dt_add_instant [OF d(2)] by auto
qed

text \<open>Whether it raises or not, a pass only adds jobs in flight and only moves schedules forward.\<close>

lemma select_due_mono:
  "select_due now js s due = (r, s') \<Longrightarrow> \<forall>j \<in> set js. positive_interval j \<Longrightarrow>
     oc_in_flight s \<subseteq> oc_in_flight s' \<and> oc_jobs s' = oc_jobs s \<and>
     (\<forall>name u. oc_next_run_at s name = Some u \<longrightarrow> (\<exists>v. oc_next_run_at s' name = Some v \<and> instant u \<le> instant v))"
proof (induction js arbitrary: s due)
  case (Cons j js)
  let ?sched = "case oc_next_run_at s (sj_name j) of Some t \<Rightarrow> Inr t
      | None \<Rightarrow> after now (rs_initial_delay_seconds (sj_schedule j))"
  show ?case
  proof (cases ?sched)
    case (Inl e)
    then show ?thesis using Cons.prems(1) by auto
  next
    case (Inr t)
    let ?s = "s\<lparr>oc_next_run_at := (oc_next_run_at s)(sj_name j \<mapsto> t)\<rparr>"
    have keep: "oc_next_run_at s (sj_name j) = Some u \<Longrightarrow> u = t" for u using Inr by simp
    consider (wait) "select_due now js ?s due = (r, s')"
      | (raised) "s' = ?s \<or> s' = ?s\<lparr>oc_in_flight := insert (sj_name j) (oc_in_flight s)\<rparr>"
      | (taken) u where "instant t \<le> instant now" "after now (rs_interval_seconds (sj_schedule j)) = Inr u"
          "select_due now js (?s\<lparr>oc_in_flight := insert (sj_name j) (oc_in_flight s),
             oc_next_run_at := (oc_next_run_at s)(sj_name j \<mapsto> u)\<rparr>) (due @ [j]) = (r, s')"
      using Cons.prems(1) Inr
      by (auto simp: Let_def dt_less_value not_less split: sum.splits if_splits)
    then show ?thesis
    proof cases
      case wait
      have "\<forall>j \<in> set js. positive_interval j" using Cons.prems(2) by simp
      note ih = Cons.IH [OF wait this]
      have up: "\<exists>v. oc_next_run_at s' name = Some v \<and> instant u \<le> instant v" if "oc_next_run_at ?s name = Some u" for name u
        using ih that by blast
      have "\<exists>v. oc_next_run_at s' name = Some v \<and> instant u \<le> instant v" if "oc_next_run_at s name = Some u" for name u
        using up [of name u] keep [of u] that by (cases "name = sj_name j") simp_all
      then show ?thesis using conjunct1 [OF ih] conjunct1 [OF conjunct2 [OF ih]] by simp
    next
      case raised
      then show ?thesis using keep by auto
    next
      case (taken u)
      have le: "instant now \<le> instant u" using after_interval(1) [OF taken(2)] Cons.prems(2) by simp
      have "\<forall>j \<in> set js. positive_interval j" using Cons.prems(2) by simp
      note ih = Cons.IH [OF taken(3) this]
      have up: "\<exists>v. oc_next_run_at s' name = Some v \<and> instant x \<le> instant v"
        if "((oc_next_run_at s)(sj_name j \<mapsto> u)) name = Some x" for name x
        using ih that by (metis orchestrator.select_convs(2) orchestrator.surjective orchestrator.update_convs(2))
      have "\<exists>v. oc_next_run_at s' name = Some v \<and> instant x \<le> instant v" if "oc_next_run_at s name = Some x" for name x
        using up [of name x] up [of name u] keep [of x] that le taken(1)
        by (cases "name = sj_name j") (auto intro: order_trans)
      then show ?thesis using conjunct1 [OF ih] conjunct1 [OF conjunct2 [OF ih]] by simp
    qed
  qed
qed auto


definition worker_inv :: "source_job list \<Rightarrow> worker \<Rightarrow> bool" where
  "worker_inv jobs w \<longleftrightarrow> (case w of (s, run, starts) \<Rightarrow>
     oc_jobs s = jobs \<and> distinct run \<and> set run \<subseteq> oc_in_flight s \<and> starts_spaced jobs starts \<and>
     (\<forall>(name, t) \<in> set starts. \<exists>u. oc_next_run_at s name = Some u \<and> spaced jobs name t u))"

lemma pass_keeps:
  assumes inv: "worker_inv jobs (s, run, starts)" and sel: "select_due now (oc_jobs s) s [] = (Inr js, s')"
    and jobs: "distinct (map sj_name jobs)" "\<forall>j \<in> set jobs. positive_interval j"
  shows "worker_inv jobs (s', run @ map sj_name js, starts @ map (\<lambda>j. (sj_name j, now)) js)"
proof -
  have i: "oc_jobs s = jobs" "distinct run" "set run \<subseteq> oc_in_flight s" "starts_spaced jobs starts"
    and nxt: "\<And>name t. (name, t) \<in> set starts \<Longrightarrow> \<exists>u. oc_next_run_at s name = Some u \<and> spaced jobs name t u"
    using inv by (auto simp: worker_inv_def)
  have f: "js = filter (is_due now s) jobs" "oc_in_flight s' = oc_in_flight s \<union> sj_name ` set js" "oc_jobs s' = jobs"
    and up: "\<And>j. j \<in> set js \<Longrightarrow> \<exists>t. oc_next_run_at s' (sj_name j) = Some t \<and> after now (rs_interval_seconds (sj_schedule j)) = Inr t"
    using select_due_filter [OF sel] jobs(1) i(1) by auto
  have mono: "\<And>name u. oc_next_run_at s name = Some u \<Longrightarrow> \<exists>v. oc_next_run_at s' name = Some v \<and> instant u \<le> instant v"
    using select_due_mono [OF sel] jobs(2) i(1) by blast
  have idle: "sj_name j \<notin> oc_in_flight s" if "j \<in> set js" for j using that by (simp add: f(1) is_due_def)
  have dis: "distinct (map sj_name js)" unfolding f(1) using jobs(1) by (rule distinct_map_filter)
  have old: "spaced jobs (sj_name j) t now" if "j \<in> set js" "(sj_name j, t) \<in> set starts" for j t
    using nxt [OF that(2)] that(1) spaced_later by (fastforce simp: f(1) is_due_def)
  have fresh: "\<exists>u. oc_next_run_at s' (sj_name j) = Some u \<and> spaced jobs (sj_name j) now u" if j: "j \<in> set js" for j
  proof -
    obtain u where u: "oc_next_run_at s' (sj_name j) = Some u" "after now (rs_interval_seconds (sj_schedule j)) = Inr u"
      using up [OF j] by blast
    have "k = j" if "k \<in> set jobs" "sj_name k = sj_name j" for k
      using that j jobs(1) by (auto simp: f(1) distinct_map inj_on_def)
    then have "spaced jobs (sj_name j) now u"
      using after_interval(2) [OF u(2)] jobs(2) j by (fastforce simp: spaced_def f(1))
    then show ?thesis using u(1) by blast
  qed
  have "starts_spaced jobs (starts @ map (\<lambda>j. (sj_name j, now)) js)"
  proof -
    have "sorted_wrt (\<lambda>a b. fst a = fst b \<longrightarrow> spaced jobs (fst a) (snd a) (snd b)) (map (\<lambda>j. (sj_name j, now)) js)"
      using dis by (auto simp: sorted_wrt_iff_nth_less distinct_conv_nth)
    then show ?thesis using i(4) old by (auto simp: starts_spaced_def sorted_wrt_append)
  qed
  moreover have "\<exists>u. oc_next_run_at s' name = Some u \<and> spaced jobs name t u" if "(name, t) \<in> set starts" for name t
    using nxt [OF that] mono spaced_later by blast
  ultimately show ?thesis using i f idle dis fresh by (auto simp: worker_inv_def)
qed

lemma step_keeps_worker:
  assumes "sched_step w w'" "worker_inv jobs w" "distinct (map sj_name jobs)" "\<forall>j \<in> set jobs. positive_interval j"
  shows "worker_inv jobs w'"
  using assms(1)
proof (cases rule: sched_step.cases)
  case (pass now s js s' run starts)
  then show ?thesis using pass_keeps assms(2-4) by blast
next
  case (pass_raises now s e s' run starts)
  then show ?thesis using select_due_mono [OF pass_raises(3)] assms(2,4) spaced_later by (fastforce simp: worker_inv_def)
next
  case (job_ends name run s starts)
  then show ?thesis using assms(2) by (auto simp: worker_inv_def discard_in_flight_def)
qed

lemma worker_reach_inv:
  assumes "sched_reach jobs w" "\<forall>j \<in> set jobs. positive_interval j"
  shows "worker_inv jobs w \<and> distinct (map sj_name jobs)"
  using assms(1)
proof induction
  case (created s)
  then show ?case by (auto simp: RuntimeOrchestrator_def worker_inv_def starts_spaced_def split: if_splits)
next
  case (stepped w w')
  then show ?case using step_keeps_worker assms(2) by blast
qed


text \<open>
  C9: however passes and ends of runs interleave, no job runs twice at the same time, and every running
  job is marked as in flight.
\<close>

theorem no_overlapping_runs:
  assumes "sched_reach jobs (s, run, starts)" "\<forall>j \<in> set jobs. positive_interval j"
  shows "distinct run \<and> set run \<subseteq> oc_in_flight s"
  using worker_reach_inv [OF assms] by (simp add: worker_inv_def)

text \<open>
  two starts of the same job are at least its interval apart, whatever clock the passes were given.
\<close>

theorem starts_apart:
  assumes "sched_reach jobs (s, run, starts)" "\<forall>j \<in> set jobs. positive_interval j"
    "i < k" "k < length starts" "j \<in> set jobs" "starts ! i = (sj_name j, t)" "starts ! k = (sj_name j, u)"
  shows "\<exists>d. timedelta_seconds (rs_interval_seconds (sj_schedule j)) = Inr d \<and> instant t + d \<le> instant u"
proof -
  have "starts_spaced jobs starts" using worker_reach_inv [OF assms(1,2)] by (simp add: worker_inv_def)
  then have "spaced jobs (sj_name j) t u"
    using sorted_wrt_nth_less [OF _ assms(3,4)] assms(6,7) by (fastforce simp: starts_spaced_def)
  then show ?thesis using assms(5) by (auto simp: spaced_def)
qed

section \<open>Every run ends in an outcome\<close>

lemma clock_not_before_Inr:
  "clock_not_before reading fallback = Inr t \<Longrightarrow> aware fallback \<Longrightarrow> aware t \<and> instant fallback \<le> instant t"
  by (auto simp: clock_not_before_def aware_clock_def result_simps dt_less_value split: if_splits)

lemma safe_clock: "aware fallback \<Longrightarrow> aware (safe_clock_not_before reading fallback) \<and>
    instant fallback \<le> instant (safe_clock_not_before reading fallback)"
  using clock_not_before_Inr [of reading fallback] by (simp add: safe_clock_not_before_def split: sum.split)

definition proper_run :: "source_job \<Rightarrow> datetime \<Rightarrow> run_outcome \<Rightarrow> bool" where
  "proper_run j scheduled o1 \<longleftrightarrow> ro_job_name o1 = sj_name j \<and> ro_kind o1 = sj_kind j \<and>
     aware (ro_started_at o1) \<and> aware (ro_finished_at o1) \<and>
     instant scheduled \<le> instant (ro_started_at o1) \<and> instant (ro_started_at o1) \<le> instant (ro_finished_at o1)"

lemma WorkerRunOutcome_ok:
  "strip (ro_job_name a) \<noteq> '''' \<Longrightarrow> aware (ro_started_at a) \<Longrightarrow> aware (ro_finished_at a) \<Longrightarrow>
     instant (ro_started_at a) \<le> instant (ro_finished_at a) \<Longrightarrow> WorkerRunOutcome a = Inr a"
  by (simp add: WorkerRunOutcome_def require_aware_def dt_less_def)

lemma persist_ok:
  assumes "proper_run j scheduled o1" "strip (sj_name j) \<noteq> ''''"
  shows "\<exists>o2. persist_payload j env o1 = Inr o2 \<and> proper_run j scheduled o2 \<and>
      ro_status o2 = (case je_store_payload env of Inr _ \<Rightarrow> ro_status o1 | Inl e \<Rightarrow> PERSISTENCE_FAILED)"
    "\<exists>o2. persist_failure j env o1 = Inr o2 \<and> proper_run j scheduled o2 \<and>
      ro_status o2 = (case je_store_failure env of Inr _ \<Rightarrow> ro_status o1 | Inl e \<Rightarrow> PERSISTENCE_FAILED)"
  using assms safe_clock [of "ro_finished_at o1" "je_store_clock env"]
  by (auto simp: persist_payload_def persist_failure_def proper_run_def WorkerRunOutcome_ok split: sum.split)

lemma failed_run_ok:
  assumes "aware started" "instant scheduled \<le> instant started" "strip (sj_name j) \<noteq> ''''"
  shows "\<exists>o1. failed_run j env started st m = Inr o1 \<and> proper_run j scheduled o1 \<and>
      ro_status o1 = (case je_store_failure env of Inr _ \<Rightarrow> st | Inl e \<Rightarrow> PERSISTENCE_FAILED)"
proof -
  let ?o = "\<lparr>ro_job_name = sj_name j, ro_kind = sj_kind j, ro_status = st, ro_started_at = started,
     ro_finished_at = safe_clock_not_before (je_error_clock env) started, ro_adapter_state = Some AD_DOWN, ro_message = m\<rparr>"
  have "proper_run j scheduled ?o" using assms safe_clock [OF assms(1), of "je_error_clock env"] by (simp add: proper_run_def)
  moreover have "WorkerRunOutcome ?o = Inr ?o"
    using assms safe_clock [OF assms(1), of "je_error_clock env"] by (simp add: WorkerRunOutcome_ok)
  ultimately show ?thesis using persist_ok(2) [of j scheduled ?o env] assms(3)
    by (cases "je_store_failure env") (simp_all add: failed_run_def)
qed

text \<open>The status a run deserves, from what it met.\<close>

definition deserved_status :: "source_job \<Rightarrow> 'd job_env \<Rightarrow> datetime \<Rightarrow> run_status" where
  "deserved_status j env scheduled =
     (case and_then (clock_not_before (je_start_clock env) scheduled) (\<lambda>_.
           and_then (je_load env) (\<lambda>p. and_then (validate_payload j p) (\<lambda>_. Inr (ah_state (ap_health p))))) of
        Inr state \<Rightarrow> (case je_store_payload env of Inr _ \<Rightarrow> status_for_health state | Inl e \<Rightarrow> PERSISTENCE_FAILED)
      | Inl e \<Rightarrow>
          (case je_store_failure env of
             Inr _ \<Rightarrow> (case e of TimeoutError m \<Rightarrow> TIMED_OUT | _ \<Rightarrow> FAILED)
           | Inl e' \<Rightarrow> PERSISTENCE_FAILED))"

lemma run_job_ok:
  assumes "aware scheduled" "strip (sj_name j) \<noteq> ''''"
  shows "\<exists>o1. run_job j env scheduled = Inr o1 \<and> proper_run j scheduled o1 \<and> ro_status o1 = deserved_status j env scheduled"
proof -
  define start where "start = clock_not_before (je_start_clock env) scheduled"
  define started where "started = (case start of Inl e \<Rightarrow> scheduled | Inr t \<Rightarrow> t)"
  have st: "aware started" "instant scheduled \<le> instant started"
    using clock_not_before_Inr [of "je_start_clock env" scheduled] assms(1)
    by (simp_all add: started_def start_def split: sum.split)
  define outcome where "outcome p = \<lparr>ro_job_name = sj_name j, ro_kind = sj_kind j,
    ro_status = status_for_health (ah_state (ap_health p)), ro_started_at = started,
    ro_finished_at = safe_clock_not_before (je_end_clock env) started,
    ro_adapter_state = Some (ah_state (ap_health p)), ro_message = ah_message (ap_health p)\<rparr>" for p :: "'a adapter_payload"
  have o: "WorkerRunOutcome (outcome p) = Inr (outcome p)" "proper_run j scheduled (outcome p)" for p
    using st assms(2) safe_clock [OF st(1), of "je_end_clock env"]
    by (simp_all add: outcome_def WorkerRunOutcome_ok proper_run_def)
  define before where "before = and_then start (\<lambda>_. and_then (je_load env) (\<lambda>p.
    and_then (validate_payload j p) (\<lambda>_. Inr p)))"
  have run: "run_job j env scheduled =
    (case and_then before (\<lambda>p. and_then (WorkerRunOutcome (outcome p)) (persist_payload j env)) of
       Inr o1 \<Rightarrow> Inr o1
     | Inl (TimeoutError m) \<Rightarrow> failed_run j env started TIMED_OUT ''source load timed out''
     | Inl e \<Rightarrow> failed_run j env started FAILED (error_message e))"
    unfolding run_job_def Let_def before_def outcome_def started_def start_def by (simp add: and_then_assoc)
  have want: "deserved_status j env scheduled = (case before of
      Inr p \<Rightarrow> (case je_store_payload env of Inr _ \<Rightarrow> ro_status (outcome p) | Inl e \<Rightarrow> PERSISTENCE_FAILED)
    | Inl e \<Rightarrow> (case je_store_failure env of
        Inr _ \<Rightarrow> (case e of TimeoutError m \<Rightarrow> TIMED_OUT | _ \<Rightarrow> FAILED) | Inl e' \<Rightarrow> PERSISTENCE_FAILED))"
    by (cases start; cases "je_load env"; cases "validate_payload j (projr (je_load env))"; cases "je_store_payload env")
      (simp_all add: deserved_status_def before_def start_def outcome_def)
  show ?thesis
  proof (cases before)
    case (Inr p)
    then show ?thesis using persist_ok(1) [OF o(2) [of p] assms(2), of env] by (auto simp: run want o(1))
  next
    case (Inl e)
    then show ?thesis using failed_run_ok [OF st assms(2), of env]
      by (cases "je_store_failure env"; cases e) (simp_all add: run want)
  qed
qed

text \<open>
  C28: the run of a job never raises: whatever the clock, the adapter and the store do, it ends in an
  outcome of that job that starts no earlier than scheduled and ends no earlier than it starts, with the
  status deserved: that of the health of a loaded, matching and stored payload, a timeout, a failure, or a
  failed store.
\<close>

theorem run_job_total:
  assumes "aware scheduled" "strip (sj_name j) \<noteq> ''''"
  shows "\<exists>o1. run_job j env scheduled = Inr o1 \<and> proper_run j scheduled o1 \<and> ro_status o1 = deserved_status j env scheduled"
  using assms by (rule run_job_ok)


section \<open>The supervisor\<close>

record supervisor_settings =
  su_tick_seconds :: pyfloat
  su_cleanup_interval_seconds :: pyfloat
  su_failure_alert_threshold :: int

record supervisor =
  sv_settings :: supervisor_settings
  sv_orchestrator :: orchestrator
  sv_metrics :: runtime_metrics
  sv_next_cleanup_at :: "datetime option"

record supervisor_cycle =
  cy_observed_at :: datetime
  cy_outcomes :: "run_outcome list"
  cy_alerts :: "runtime_alert list"
  cy_metrics :: metrics_snapshot
  cy_retention :: "retention_result option"

definition RuntimeSupervisor :: "supervisor_settings \<Rightarrow> orchestrator \<Rightarrow> supervisor result" where
  "RuntimeSupervisor a orch =
     (if fle (su_tick_seconds a) (Fl 0) then Inl (ValueError ''tick_seconds must be positive'')
      else if fle (su_cleanup_interval_seconds a) (Fl 0) then Inl (ValueError ''cleanup_interval_seconds must be positive'')
      else if su_failure_alert_threshold a < 1 then Inl (ValueError ''failure_alert_threshold must be positive'')
      else Inr \<lparr>sv_settings = a, sv_orchestrator = orch, sv_metrics = RuntimeMetrics, sv_next_cleanup_at = None\<rparr>)"

definition cleanup_due :: "supervisor \<Rightarrow> datetime \<Rightarrow> bool" where
  "cleanup_due v now \<longleftrightarrow> (case sv_next_cleanup_at v of None \<Rightarrow> True | Some t \<Rightarrow> instant t \<le> instant now)"

text \<open>
  The cycle. \<open>cleaner\<close> is the retention cleaner, if there is one; what it raises is logged and
  forgotten, but the next cleanup is scheduled in any case.
\<close>

definition run_cycle ::
  "(datetime \<Rightarrow> retention_result result) option \<Rightarrow> (string \<Rightarrow> 'd job_env) \<Rightarrow> datetime \<Rightarrow> supervisor \<Rightarrow>
     supervisor_cycle result \<times> supervisor" where
  "run_cycle cleaner env now v =
     (if \<not> aware now then (Inl (ValueError ''cycle time must be timezone-aware''), v)
      else case run_due env now (sv_orchestrator v) of
        (Inl e, orch) \<Rightarrow> (Inl e, v\<lparr>sv_orchestrator := orch\<rparr>)
      | (Inr outcomes, orch) \<Rightarrow>
          let v = v\<lparr>sv_orchestrator := orch\<rparr> in
          (case observe (su_failure_alert_threshold (sv_settings v)) (sv_metrics v) outcomes of
             Inl e \<Rightarrow> (Inl e, v)
           | Inr (m, alerts) \<Rightarrow>
               let v = v\<lparr>sv_metrics := m\<rparr>;
                   (retention, v') =
                     (case cleaner of
                        None \<Rightarrow> (Inr None, v)
                      | Some clean \<Rightarrow>
                          if \<not> cleanup_due v now then (Inr None, v)
                          else case after now (su_cleanup_interval_seconds (sv_settings v)) of
                            Inl e \<Rightarrow> (Inl e, v)
                          | Inr t \<Rightarrow> (Inr (case clean now of Inl e \<Rightarrow> None | Inr r \<Rightarrow> Some r),
                                     v\<lparr>sv_next_cleanup_at := Some t\<rparr>)) in
               (and_then retention (\<lambda>ret. and_then (snapshot now m) (\<lambda>snap.
                  Inr \<lparr>cy_observed_at = now, cy_outcomes = outcomes, cy_alerts = alerts, cy_metrics = snap,
                    cy_retention = ret\<rparr>)), v')))"

lemma fold_discard:
  "oc_in_flight (fold (\<lambda>j. discard_in_flight (sj_name j)) js s) = oc_in_flight s - sj_name ` set js"
  by (induction js arbitrary: s) (auto simp: discard_in_flight_def)

lemma runs_total:
  assumes "aware now" "\<forall>j \<in> set js. strip (sj_name j) \<noteq> ''''"
  shows "\<exists>os. traverse (\<lambda>j. run_job j (env (sj_name j)) now) js = Inr os \<and>
    map ro_job_name os = map sj_name js \<and> map ro_status os = map (\<lambda>j. deserved_status j (env (sj_name j)) now) js"
  using assms(2)
proof (induction js)
  case (Cons j js)
  then show ?case using run_job_ok [OF assms(1), of j "env (sj_name j)"] by (auto simp: proper_run_def)
qed simp

lemma observe_total:
  assumes "1 \<le> threshold" "\<forall>o1 \<in> set os. strip (ro_job_name o1) \<noteq> ''''"
  shows "\<exists>m' al. observe threshold m os = Inr (m', al) \<and> rm_total_runs m' = rm_total_runs m + length os"
proof -
  have step: "\<exists>m' al'. observe_step threshold (m, al) o1 = Inr (m', al') \<and> rm_total_runs m' = Suc (rm_total_runs m)"
    if "strip (ro_job_name o1) \<noteq> ''''" for m al o1
    using that by (auto simp: observe_step_def RuntimeAlert_def Let_def)
  have "\<exists>m' al'. foldM (observe_step threshold) (m, al) os = Inr (m', al') \<and> rm_total_runs m' = rm_total_runs m + length os" for al
    using assms(2)
  proof (induction os arbitrary: m al)
    case (Cons o1 os)
    obtain m1 al1 where s: "observe_step threshold (m, al) o1 = Inr (m1, al1)" "rm_total_runs m1 = Suc (rm_total_runs m)"
      using step Cons.prems by fastforce
    then show ?case using Cons.IH [of m1 al1] Cons.prems by auto
  qed simp
  then show ?thesis using assms(1) by (simp add: observe_def)
qed

text \<open>
  C39: a cycle of the supervisor whose times are in range returns: it runs every due job, records each
  outcome with the status it deserves, counts it, and releases every job it took, even if the cleaner
  raises.
\<close>

theorem cycle_total:
  assumes "aware now" "1 \<le> su_failure_alert_threshold (sv_settings v)"
    "distinct (map sj_name (oc_jobs (sv_orchestrator v)))"
    "\<forall>j \<in> set (oc_jobs (sv_orchestrator v)). strip (sj_name j) \<noteq> ''''"
    "succeeds (fst (select_due now (oc_jobs (sv_orchestrator v)) (sv_orchestrator v) []))"
    "succeeds (after now (su_cleanup_interval_seconds (sv_settings v)))"
  shows "\<exists>c v'. run_cycle cleaner env now v = (Inr c, v') \<and>
    (let due = filter (is_due now (sv_orchestrator v)) (oc_jobs (sv_orchestrator v)) in
     map ro_job_name (cy_outcomes c) = map sj_name due \<and>
     map ro_status (cy_outcomes c) = map (\<lambda>j. deserved_status j (env (sj_name j)) now) due \<and>
     rm_total_runs (sv_metrics v') = rm_total_runs (sv_metrics v) + length due) \<and>
    oc_in_flight (sv_orchestrator v') = oc_in_flight (sv_orchestrator v)"
proof -
  let ?o = "sv_orchestrator v"
  let ?due = "filter (is_due now ?o) (oc_jobs ?o)"
  obtain due o1 where sel: "select_due now (oc_jobs ?o) ?o [] = (Inr due, o1)"
    using assms(5) by (auto simp: succeeds_iff prod_eq_iff)
  have f: "due = ?due" "oc_in_flight o1 = oc_in_flight ?o \<union> sj_name ` set ?due"
    using select_due_filter [OF sel assms(3)] by auto
  obtain os where os: "traverse (\<lambda>j. run_job j (env (sj_name j)) now) due = Inr os"
    "map ro_job_name os = map sj_name due" "map ro_status os = map (\<lambda>j. deserved_status j (env (sj_name j)) now) due"
    using runs_total [OF assms(1), of due env] assms(4) f(1) by auto
  have len: "length os = length due" using os(2) by (metis length_map)
  have "\<forall>x \<in> set (map ro_job_name os). strip x \<noteq> ''''" unfolding os(2) f(1) using assms(4) by auto
  then obtain m al where ob: "observe (su_failure_alert_threshold (sv_settings v)) (sv_metrics v) os = Inr (m, al)"
    "rm_total_runs m = rm_total_runs (sv_metrics v) + length os"
    using observe_total [OF assms(2), of os "sv_metrics v"] by auto
  obtain t where t: "after now (su_cleanup_interval_seconds (sv_settings v)) = Inr t"
    using assms(6) by (auto simp: succeeds_iff)
  let ?o2 = "fold (\<lambda>j. discard_in_flight (sj_name j)) due o1"
  have due: "run_due env now ?o = (Inr os, ?o2)" using assms(1) sel os(1) by (simp add: run_due_def)
  have rel: "oc_in_flight ?o2 = oc_in_flight ?o"
    using f fold_discard [of due o1] by (auto simp: is_due_def)
  show ?thesis using assms(1) t ob os(2,3) len rel f(1) due
    by (cases cleaner) (auto simp: run_cycle_def snapshot_def require_aware_def Let_def)
qed


section \<open>The supervisor's loop\<close>

text \<open>
  What the loop of \<open>RuntimeSupervisor.run\<close> meets in its turns: whether the stop event is set at
  the head of the turn (it may be set while the loop waits for the next tick), the clock, what the
  jobs meet, and the cleaner.
\<close>

record 'd world =
  wd_stopped :: "nat \<Rightarrow> bool"
  wd_clock :: "nat \<Rightarrow> datetime"
  wd_env :: "nat \<Rightarrow> string \<Rightarrow> 'd job_env"
  wd_cleaner :: "nat \<Rightarrow> (datetime \<Rightarrow> retention_result result) option"

definition aware_now :: "datetime \<Rightarrow> datetime result" where
  "aware_now now =
     (if aware now then Inr now else Inl (ValueError ''supervisor clock must return a timezone-aware datetime''))"

definition turn :: "'d world \<Rightarrow> nat \<Rightarrow> supervisor \<Rightarrow> supervisor_cycle result \<times> supervisor" where
  "turn w i v = (case aware_now (wd_clock w i) of Inl e \<Rightarrow> (Inl e, v)
     | Inr now \<Rightarrow> run_cycle (wd_cleaner w i) (wd_env w i) now v)"

partial_function (option) run_supervisor :: "'d world \<Rightarrow> nat \<Rightarrow> supervisor \<Rightarrow> (unit result \<times> supervisor) option" where
  "run_supervisor w i v =
     (if wd_stopped w i then Some (Inr (), v)
      else case turn w i v of
        (Inl e, v') \<Rightarrow> Some (Inl e, v')
      | (Inr c, v') \<Rightarrow> run_supervisor w (Suc i) v')"

text \<open>The state \<open>n\<close> turns after turn \<open>i\<close>, if none of them stops or raises.\<close>

primrec state_at :: "'d world \<Rightarrow> nat \<Rightarrow> supervisor \<Rightarrow> nat \<Rightarrow> supervisor option" where
  "state_at w i v 0 = Some v"
| "state_at w i v (Suc n) =
     (if wd_stopped w i then None
      else case turn w i v of (Inl e, v') \<Rightarrow> None | (Inr c, v') \<Rightarrow> state_at w (Suc i) v' n)"

text \<open>How the loop ends at turn \<open>n\<close>: it stops there, or the cycle raises.\<close>

definition ends_at :: "'d world \<Rightarrow> nat \<Rightarrow> supervisor \<Rightarrow> (unit result \<times> supervisor) option" where
  "ends_at w n u =
     (if wd_stopped w n then Some (Inr (), u)
      else case turn w n u of (Inl e, u') \<Rightarrow> Some (Inl e, u') | (Inr c, u') \<Rightarrow> None)"

lemma run_supervisor_steps:
  "state_at w i v n = Some u \<Longrightarrow> run_supervisor w i v = run_supervisor w (i + n) u"
proof (induction n arbitrary: i v)
  case (Suc n)
  then obtain c v' where t: "\<not> wd_stopped w i" "turn w i v = (Inr c, v')" "state_at w (Suc i) v' n = Some u"
    by (auto split: if_splits prod.splits sum.splits)
  have "run_supervisor w i v = run_supervisor w (Suc i) v'" using t by (subst run_supervisor.simps) simp
  then show ?case using Suc.IH [OF t(3)] by simp
qed simp

lemma run_supervisor_result:
  assumes "run_supervisor w i v = Some r"
  shows "\<exists>n u. state_at w i v n = Some u \<and> ends_at w (i + n) u = Some r"
proof (rule run_supervisor.raw_induct [OF _ assms], goal_cases)
  case (1 run w i v r)
  show ?case
  proof (cases "\<not> wd_stopped w i \<and> (\<exists>c v'. turn w i v = (Inr c, v'))")
    case True
    then obtain c v' where t: "\<not> wd_stopped w i" "turn w i v = (Inr c, v')" by blast
    then have "run w (Suc i) v' = Some r" using 1(2) by simp
    then have "\<exists>n u. state_at w (Suc i) v' n = Some u \<and> ends_at w (Suc i + n) u = Some r" by (rule 1(1))
    then obtain n u where "state_at w i v (Suc n) = Some u" "ends_at w (i + Suc n) u = Some r" using t by auto
    then show ?thesis by blast
  next
    case False
    then have "ends_at w (i + 0) v = Some r" using 1(2) by (auto simp: ends_at_def split: if_splits prod.splits sum.splits)
    then show ?thesis using state_at.simps(1) by blast
  qed
qed

lemma run_supervisor_stops: "wd_stopped w (i + n) \<Longrightarrow> \<exists>r. run_supervisor w i v = Some r"
proof (induction n arbitrary: i v)
  case 0
  then show ?case by (subst run_supervisor.simps) simp
next
  case (Suc n)
  have "\<exists>r. run_supervisor w (Suc i) v' = Some r" for v' using Suc.IH [of "Suc i"] Suc.prems by simp
  then show ?case by (subst run_supervisor.simps) (auto split: prod.split sum.split)
qed

lemma run_supervisor_iff:
  "run_supervisor w 0 v = Some r \<longleftrightarrow> (\<exists>n u. state_at w 0 v n = Some u \<and> ends_at w n u = Some r)"
proof
  assume "run_supervisor w 0 v = Some r"
  then show "\<exists>n u. state_at w 0 v n = Some u \<and> ends_at w n u = Some r"
    using run_supervisor_result by fastforce
next
  assume "\<exists>n u. state_at w 0 v n = Some u \<and> ends_at w n u = Some r"
  then obtain n u where n: "state_at w 0 v n = Some u" "ends_at w n u = Some r" by blast
  have "run_supervisor w n u = Some r" using n(2)
    by (subst run_supervisor.simps) (auto simp: ends_at_def split: if_splits prod.splits sum.splits)
  then show "run_supervisor w 0 v = Some r" using run_supervisor_steps [OF n(1)] by simp
qed


section \<open>Examples\<close>

definition sample_job :: "string \<Rightarrow> rat \<Rightarrow> source_job" where
  "sample_job name delay = \<lparr>sj_name = name, sj_kind = JK_EXECUTION, sj_adapter_name = name,
     sj_schedule = \<lparr>rs_interval_seconds = Fl 60, rs_timeout_seconds = Fl 10, rs_initial_delay_seconds = Fl delay\<rparr>\<rparr>"

definition sample_orchestrator :: "source_job list \<Rightarrow> orchestrator" where
  "sample_orchestrator jobs = \<lparr>oc_jobs = jobs, oc_next_run_at = (\<lambda>_. None), oc_in_flight = {}\<rparr>"

definition sample_time :: datetime where
  "sample_time = DateTime 0 (Some 0)"

lemma sample_after:
  "after sample_time (Fl 0) = Inr sample_time"
  "after sample_time (Fl 60) = Inr (DateTime 60000000 (Some 0))"
  "after sample_time (Fl 1000000000000) = Inl (OverflowError ''date value out of range'')"
  by (simp_all add: after_def sample_time_def dt_add_def second_us_def day_us_def max_us_def Let_def)

lemma sample_orchestrator_created: "RuntimeOrchestrator [sample_job ''a'' 0] = Inr (sample_orchestrator [sample_job ''a'' 0])"
  by (simp add: RuntimeOrchestrator_def sample_orchestrator_def)

lemma sample_selects:
  "select_due sample_time [sample_job ''a'' 0] (sample_orchestrator [sample_job ''a'' 0]) [] =
     (Inr [sample_job ''a'' 0], \<lparr>oc_jobs = [sample_job ''a'' 0],
        oc_next_run_at = (\<lambda>_. None)(''a'' \<mapsto> DateTime 60000000 (Some 0)), oc_in_flight = {''a''}\<rparr>)"
  by (simp add: sample_orchestrator_def sample_job_def sample_after dt_less_def Let_def)

lemma sample_positive: "\<forall>j \<in> set [sample_job ''a'' 0]. positive_interval j"
  by (simp add: sample_job_def positive_interval_def)

lemma sample_reached:
  "\<exists>s. sched_reach [sample_job ''a'' 0] (s, [''a''], [(''a'', sample_time)])"
proof -
  let ?s = "sample_orchestrator [sample_job ''a'' 0]"
  have "oc_jobs ?s = [sample_job ''a'' 0]" by (simp add: sample_orchestrator_def)
  then have "\<exists>s'. sched_step (?s, [], []) (s', [''a''], [(''a'', sample_time)])"
    using pass [of sample_time ?s "[sample_job ''a'' 0]" _ "[]" "[]"] sample_selects by (auto simp: sample_job_def)
  then show ?thesis using stepped [OF created [OF sample_orchestrator_created]] by blast
qed

theorem selection_exact_witness:
  "\<exists>s'. select_due sample_time [sample_job ''a'' 0] (sample_orchestrator [sample_job ''a'' 0]) [] =
     (Inr [sample_job ''a'' 0], s') \<and> ''a'' \<in> oc_in_flight s'"
proof -
  obtain s' where s': "select_due sample_time [sample_job ''a'' 0] (sample_orchestrator [sample_job ''a'' 0]) [] =
     (Inr [sample_job ''a'' 0], s')" using sample_selects by blast
  have jobs: "oc_jobs (sample_orchestrator [sample_job ''a'' 0]) = [sample_job ''a'' 0]"
    by (simp add: sample_orchestrator_def)
  from selection_exact [of sample_time "sample_orchestrator [sample_job ''a'' 0]" "[sample_job ''a'' 0]" s'] s'
  show ?thesis unfolding jobs by (auto simp: sample_job_def)
qed

theorem no_overlapping_runs_witness:
  "\<exists>s. sched_reach [sample_job ''a'' 0] (s, [''a''], [(''a'', sample_time)]) \<and> ''a'' \<in> oc_in_flight s"
  using sample_reached no_overlapping_runs [OF _ sample_positive] by fastforce

lemma sample_reached_twice:
  "\<exists>s u. sched_reach [sample_job ''a'' 0] (s, [''a''], [(''a'', sample_time), (''a'', u)])"
proof -
  let ?j = "sample_job ''a'' 0" and ?t = "DateTime 60000000 (Some 0)"
  let ?s = "\<lparr>oc_jobs = [?j], oc_next_run_at = (\<lambda>_. None)(''a'' \<mapsto> ?t), oc_in_flight = {''a''}\<rparr>"
  have jobs: "oc_jobs (sample_orchestrator [?j]) = [?j]" by (simp add: sample_orchestrator_def)
  have "sched_step (sample_orchestrator [?j], [], []) (?s, [''a''], [(''a'', sample_time)])"
    using pass [of sample_time "sample_orchestrator [?j]" "[?j]" ?s "[]" "[]"] sample_selects
    unfolding jobs by (simp add: sample_job_def)
  with stepped [OF created [OF sample_orchestrator_created]] have r1: "sched_reach [?j] (?s, [''a''], [(''a'', sample_time)])" by blast
  let ?s1 = "?s\<lparr>oc_in_flight := {}\<rparr>"
  have "sched_step (?s, [''a''], [(''a'', sample_time)]) (?s1, [], [(''a'', sample_time)])"
    using job_ends [of "''a''" "[''a'']" ?s "[(''a'', sample_time)]"] by (simp add: discard_in_flight_def)
  with stepped [OF r1] have r2: "sched_reach [?j] (?s1, [], [(''a'', sample_time)])" by blast
  have "after ?t (Fl 60) = Inr (DateTime 120000000 (Some 0))"
    by (simp add: after_def dt_add_def second_us_def day_us_def max_us_def Let_def)
  then have "\<exists>s'. select_due ?t (oc_jobs ?s1) ?s1 [] = (Inr [?j], s')"
    by (simp add: sample_job_def dt_less_def Let_def)
  then obtain s' where "sched_step (?s1, [], [(''a'', sample_time)]) (s', [''a''], [(''a'', sample_time), (''a'', ?t)])"
    using pass [of ?t ?s1 "[?j]" _ "[]" "[(''a'', sample_time)]"] by (auto simp: sample_job_def)
  then show ?thesis using stepped [OF r2] by blast
qed

theorem starts_apart_witness:
  "\<exists>s u d. sched_reach [sample_job ''a'' 0] (s, [''a''], [(''a'', sample_time), (''a'', u)]) \<and>
     timedelta_seconds (Fl 60) = Inr d \<and> instant sample_time + d \<le> instant u"
proof -
  obtain s u where r: "sched_reach [sample_job ''a'' 0] (s, [''a''], [(''a'', sample_time), (''a'', u)])"
    using sample_reached_twice by blast
  show ?thesis using starts_apart [OF r sample_positive, of 0 1 "sample_job ''a'' 0" sample_time u] r
    by (auto simp: sample_job_def)
qed

definition sample_env :: "unit job_env" where
  "sample_env = \<lparr>je_start_clock = Inr sample_time, je_load = Inl (TimeoutError ''''), je_end_clock = Inr sample_time,
     je_error_clock = Inr sample_time, je_store_payload = Inr (), je_store_failure = Inr (), je_store_clock = Inr sample_time\<rparr>"

theorem run_job_total_witness:
  "\<exists>o1. run_job (sample_job ''a'' 0) sample_env sample_time = Inr o1 \<and> ro_status o1 = TIMED_OUT"
proof -
  have "aware sample_time" "strip (sj_name (sample_job ''a'' 0)) \<noteq> ''''"
    by (simp_all add: sample_time_def aware_def sample_job_def strip_def is_space_def spaces_def)
  moreover have "deserved_status (sample_job ''a'' 0) sample_env sample_time = TIMED_OUT"
    by (simp add: deserved_status_def sample_env_def clock_not_before_def aware_clock_def sample_time_def aware_def dt_less_def)
  ultimately show ?thesis using run_job_total [of sample_time "sample_job ''a'' 0" sample_env] by auto
qed

definition sample_supervisor :: supervisor where
  "sample_supervisor = \<lparr>sv_settings = \<lparr>su_tick_seconds = Fl 1, su_cleanup_interval_seconds = Fl 60,
     su_failure_alert_threshold = 3\<rparr>, sv_orchestrator = sample_orchestrator [sample_job ''a'' 0],
     sv_metrics = RuntimeMetrics, sv_next_cleanup_at = None\<rparr>"

theorem cycle_total_witness:
  "\<exists>c v. run_cycle None (\<lambda>_. sample_env) sample_time sample_supervisor = (Inr c, v)"
proof -
  have jobs: "oc_jobs (sample_orchestrator [sample_job ''a'' 0]) = [sample_job ''a'' 0]"
    "sv_orchestrator sample_supervisor = sample_orchestrator [sample_job ''a'' 0]"
    by (simp_all add: sample_supervisor_def sample_orchestrator_def)
  have "strip (sj_name (sample_job ''a'' 0)) \<noteq> ''''"
    by (simp add: sample_job_def strip_def is_space_def spaces_def)
  moreover have "aware sample_time" "su_failure_alert_threshold (sv_settings sample_supervisor) = 3"
    "su_cleanup_interval_seconds (sv_settings sample_supervisor) = Fl 60"
    by (simp_all add: sample_time_def aware_def sample_supervisor_def)
  ultimately show ?thesis
    using cycle_total [of sample_time sample_supervisor None "\<lambda>_. sample_env"] sample_selects
    by (auto simp: jobs sample_after simp del: select_due.simps)
qed


end
