(* ===== verification/Parsers.thy ===== *)
theory Parsers
  imports Json_Values Market_Models
begin

text \<open>
  \<^verbatim>\<open>app/adapters/benchmark_utils.py\<close>: the reading of untyped JSON into checked values, order books
  sorted with the best level first, and the numbers computed from a book. Every failure to read is
  a \<open>ParserError\<close>. The lemmas say what a value that was read satisfies, and that the first level of a
  parsed side has the best price of all its rows.
\<close>

section \<open>Shapes\<close>

fun require_object :: "string \<Rightarrow> json \<Rightarrow> json_object result" where
  "require_object label (JObj d) = Inr d"
| "require_object label v = Inl (ParserError (label @ '' must be an object''))"

fun require_list :: "string \<Rightarrow> json \<Rightarrow> json list result" where
  "require_list label (JList xs) = Inr xs"
| "require_list label v = Inl (ParserError (label @ '' must be a list''))"

fun require_text :: "string \<Rightarrow> json \<Rightarrow> string result" where
  "require_text fld (JStr s) =
     (if strip s = '''' then Inl (ParserError (fld @ '' must be a non-empty string'')) else Inr (strip s))"
| "require_text fld v = Inl (ParserError (fld @ '' must be a non-empty string''))"

section \<open>Numbers\<close>

text \<open>
  \<open>parse_decimal\<close> without and with \<open>optional=True\<close>. A boolean is refused although Python counts it as
  an integer.
\<close>

definition parse_decimal :: "string \<Rightarrow> bool \<Rightarrow> bool \<Rightarrow> json \<Rightarrow> decimal result" where
  "parse_decimal fld positive non_negative v =
     (case v of
        JBool b \<Rightarrow> Inl (ParserError (fld @ '' must be numeric''))
      | _ \<Rightarrow>
          (case decimal_of_json v of
             Inl e \<Rightarrow> Inl (ParserError (fld @ '' must be numeric''))
           | Inr (Finite d) \<Rightarrow>
               if positive \<and> dval d \<le> 0 then Inl (ParserError (fld @ '' must be positive''))
               else if non_negative \<and> dval d < 0 then Inl (ParserError (fld @ '' must be non-negative''))
               else Inr d
           | Inr _ \<Rightarrow> Inl (ParserError (fld @ '' must be finite''))))"

definition parse_decimal_optional :: "string \<Rightarrow> bool \<Rightarrow> bool \<Rightarrow> json \<Rightarrow> decimal option result" where
  "parse_decimal_optional fld positive non_negative v =
     (if absent v then Inr None
      else and_then (parse_decimal fld positive non_negative v) (\<lambda>d. Inr (Some d)))"

definition parse_epoch_ms :: "string \<Rightarrow> json \<Rightarrow> datetime result" where
  "parse_epoch_ms fld v =
     (case v of
        JBool b \<Rightarrow> Inl (ParserError (fld @ '' must be an integer timestamp''))
      | _ \<Rightarrow>
          (case int_of_json v of
             Inl (TypeError m) \<Rightarrow> Inl (ParserError (fld @ '' must be an integer timestamp''))
           | Inl (ValueError m) \<Rightarrow> Inl (ParserError (fld @ '' must be an integer timestamp''))
           | Inl e \<Rightarrow> Inl e
           | Inr milliseconds \<Rightarrow>
               if milliseconds \<le> 0 then Inl (ParserError (fld @ '' must be positive''))
               else and_then (int_truediv milliseconds 1000) fromtimestamp))"

definition parse_epoch_ms_optional :: "string \<Rightarrow> json \<Rightarrow> datetime option result" where
  "parse_epoch_ms_optional fld v =
     (if absent v then Inr None else and_then (parse_epoch_ms fld v) (\<lambda>t. Inr (Some t)))"

definition parse_epoch_seconds :: "string \<Rightarrow> json \<Rightarrow> datetime result" where
  "parse_epoch_seconds fld v =
     (case v of
        JBool b \<Rightarrow> Inl (ParserError (fld @ '' must be a timestamp''))
      | _ \<Rightarrow>
          (case decimal_of_json v of
             Inl e \<Rightarrow> Inl (ParserError (fld @ '' must be a timestamp''))
           | Inr (Finite d) \<Rightarrow>
               if dval d \<le> 0 then Inl (ParserError (fld @ '' must be positive''))
               else fromtimestamp (to_float (dval d))
           | Inr _ \<Rightarrow> Inl (ParserError (fld @ '' must be positive''))))"

definition parse_epoch_seconds_optional :: "string \<Rightarrow> json \<Rightarrow> datetime option result" where
  "parse_epoch_seconds_optional fld v =
     (if absent v then Inr None else and_then (parse_epoch_seconds fld v) (\<lambda>t. Inr (Some t)))"

section \<open>Order books\<close>

datatype book_side = Bids | Asks

fun side_text :: "book_side \<Rightarrow> string" where
  "side_text Bids = ''bids''"
| "side_text Asks = ''asks''"

text \<open>\<open>levels.sort(key=price, reverse=side == "bids")\<close>, stable either way.\<close>

fun sort_side :: "('a \<Rightarrow> rat) \<Rightarrow> book_side \<Rightarrow> 'a list \<Rightarrow> 'a list" where
  "sort_side price Bids levels = sort_desc price levels"
| "sort_side price Asks levels = sort_key price levels"

definition sequence_level :: "book_side \<Rightarrow> decimal \<Rightarrow> json \<Rightarrow> decimal benchmark_level result" where
  "sequence_level side multiplier row =
     (case row of
        JList (p # q # rest) \<Rightarrow>
          and_then (parse_decimal (side_text side @ ''.price'') True False p) (\<lambda>price.
          and_then (parse_decimal (side_text side @ ''.quantity'') True False q) (\<lambda>quantity.
          BenchmarkBookLevel \<lparr>bl_price = Finite price, bl_quantity = Finite (dmul quantity multiplier)\<rparr>))
      | _ \<Rightarrow> Inl (ParserError (side_text side @ '' level must contain price and quantity'')))"

definition parse_sequence_book :: "book_side \<Rightarrow> decimal \<Rightarrow> json \<Rightarrow> decimal benchmark_level list result" where
  "parse_sequence_book side multiplier rows =
     and_then (require_list (side_text side) rows) (\<lambda>items.
     if items = [] then Inl (ParserError (side_text side @ '' must not be empty''))
     else and_then (traverse (sequence_level side multiplier) items) (\<lambda>levels.
     Inr (sort_side (\<lambda>l. dval (bl_price l)) side levels)))"

definition object_level ::
  "book_side \<Rightarrow> string \<Rightarrow> string \<Rightarrow> decimal \<Rightarrow> bool \<Rightarrow> json \<Rightarrow> decimal benchmark_level result" where
  "object_level side price_field quantity_field multiplier absolute row =
     and_then (require_object (side_text side @ '' level'') row) (\<lambda>item.
     and_then (parse_decimal (side_text side @ ''.'' @ price_field) True False (get item price_field)) (\<lambda>price.
     and_then (parse_decimal (side_text side @ ''.'' @ quantity_field) False False (get item quantity_field)) (\<lambda>q.
     let quantity = (if absolute then dabs q else q) in
     if dval quantity \<le> 0 then Inl (ParserError (side_text side @ ''.'' @ quantity_field @ '' must be positive''))
     else BenchmarkBookLevel \<lparr>bl_price = Finite price, bl_quantity = Finite (dmul quantity multiplier)\<rparr>)))"

definition parse_object_book ::
  "book_side \<Rightarrow> string \<Rightarrow> string \<Rightarrow> decimal \<Rightarrow> bool \<Rightarrow> json \<Rightarrow> decimal benchmark_level list result" where
  "parse_object_book side price_field quantity_field multiplier absolute rows =
     and_then (require_list (side_text side) rows) (\<lambda>items.
     if items = [] then Inl (ParserError (side_text side @ '' must not be empty''))
     else and_then (traverse (object_level side price_field quantity_field multiplier absolute) items) (\<lambda>levels.
     Inr (sort_side (\<lambda>l. dval (bl_price l)) side levels)))"

record book_metrics =
  bm_best_bid :: decimal
  bm_best_ask :: decimal
  bm_spread :: decimal
  bm_spread_bps :: decimal
  bm_bid_depth_quote :: decimal
  bm_ask_depth_quote :: decimal

definition calculate_book_metrics ::
  "decimal benchmark_level list \<Rightarrow> decimal benchmark_level list \<Rightarrow> book_metrics result" where
  "calculate_book_metrics bids asks =
     (if bids = [] \<or> asks = [] then Inl (ParserError ''order book must contain bids and asks'')
      else let bid = bl_price (hd bids); ask = bl_price (hd asks) in
      if dval ask \<le> dval bid then Inl (ParserError ''order book is crossed or locked'')
      else let spread = dsub ask bid in
      and_then (ddiv (dadd bid ask) (dec 2 0)) (\<lambda>mid_price.
      and_then (ddiv spread mid_price) (\<lambda>ratio.
      Inr \<lparr>bm_best_bid = bid, bm_best_ask = ask, bm_spread = spread,
        bm_spread_bps = dmul ratio (dec 10000 0),
        bm_bid_depth_quote = dsum (map (\<lambda>l. dmul (bl_price l) (bl_quantity l)) bids),
        bm_ask_depth_quote = dsum (map (\<lambda>l. dmul (bl_price l) (bl_quantity l)) asks)\<rparr>)))"

section \<open>What parsing gives\<close>

lemma traverse_Inr_all: "traverse f xs = Inr ys \<Longrightarrow> x \<in> set xs \<Longrightarrow> \<exists>y \<in> set ys. f x = Inr y"
  by (induction xs arbitrary: ys) (auto simp: result_simps)

lemma parse_decimal_Inr:
  "parse_decimal fld pos nonneg v = Inr d \<longleftrightarrow>
     (\<forall>b. v \<noteq> JBool b) \<and> decimal_of_json v = Inr (Finite d) \<and> (pos \<longrightarrow> 0 < dval d) \<and> (nonneg \<longrightarrow> 0 \<le> dval d)"
  by (cases v; cases "decimal_of_json v"; cases "projr (decimal_of_json v)")
    (auto simp: parse_decimal_def split: if_splits)

lemma parse_decimal_error: "parse_decimal fld pos nonneg v = Inl e \<Longrightarrow> \<exists>m. e = ParserError m"
  by (auto simp: parse_decimal_def split: json.splits sum.splits raw_decimal.splits if_splits)

lemma parse_decimal_wf: "parse_decimal fld pos nonneg v = Inr d \<Longrightarrow> decimal_wf d"
  by (auto simp: parse_decimal_Inr decimal_of_json_wf)

lemma parse_epoch_ms_laws: "parse_epoch_ms fld v = Inr t \<Longrightarrow> aware t" "parse_epoch_ms fld v = Inr t \<Longrightarrow> time_wf t"
  using fromtimestamp_laws
  by (auto simp: parse_epoch_ms_def and_then_Inr split: json.splits sum.splits error.splits if_splits)

lemma parse_epoch_seconds_laws: "parse_epoch_seconds fld v = Inr t \<Longrightarrow> aware t"
  using fromtimestamp_laws
  by (auto simp: parse_epoch_seconds_def split: json.splits sum.splits raw_decimal.splits if_splits)

lemma BenchmarkBookLevel_Inr:
  "BenchmarkBookLevel a = Inr l \<longleftrightarrow> bl_price a = Finite (bl_price l) \<and> bl_quantity a = Finite (bl_quantity l) \<and>
     0 < dval (bl_price l) \<and> 0 < dval (bl_quantity l)"
  by (cases l; cases "bl_price a"; cases "bl_quantity a")
    (auto simp: BenchmarkBookLevel_def positive_decimal_def check_finite_def split: if_splits)

lemma set_sort_side: "set (sort_side f side ls) = set ls"
  by (cases side) (simp_all add: sort_desc_def)

lemma hd_sorted: "sorted (map f xs) \<Longrightarrow> x \<in> set xs \<Longrightarrow> f (hd xs) \<le> f x"
  by (cases xs) auto

lemma last_sorted: "sorted (map f xs) \<Longrightarrow> x \<in> set xs \<Longrightarrow> f x \<le> f (last xs)"
  by (cases xs rule: rev_cases) (auto simp: sorted_append)

text \<open>The dearest bid, the cheapest ask.\<close>

fun at_least :: "book_side \<Rightarrow> decimal \<Rightarrow> decimal \<Rightarrow> bool" where
  "at_least Bids p q \<longleftrightarrow> dval q \<le> dval p"
| "at_least Asks p q \<longleftrightarrow> dval p \<le> dval q"

lemma sort_side_best:
  assumes "ls \<noteq> []"
  shows "sort_side (\<lambda>l. dval (price l)) side ls \<noteq> []" "hd (sort_side (\<lambda>l. dval (price l)) side ls) \<in> set ls"
    "\<forall>l \<in> set ls. at_least side (price (hd (sort_side (\<lambda>l. dval (price l)) side ls))) (price l)"
proof -
  let ?f = "\<lambda>l. dval (price l)"
  show ne: "sort_side ?f side ls \<noteq> []" using assms set_sort_side [of ?f side ls] by (metis set_empty)
  show "hd (sort_side ?f side ls) \<in> set ls" using hd_in_set [OF ne] by (simp only: set_sort_side)
  have s: "sorted (map ?f (sort_key ?f xs))" for xs by simp
  show "\<forall>l \<in> set ls. at_least side (price (hd (sort_side ?f side ls))) (price l)"
  proof (cases side)
    case Bids
    have "sort_key ?f (rev ls) \<noteq> []" using ne Bids by (simp add: sort_desc_def)
    then have "hd (sort_desc ?f ls) = last (sort_key ?f (rev ls))" by (simp add: sort_desc_def hd_rev)
    then show ?thesis using last_sorted [OF s [of "rev ls"]] unfolding Bids by simp
  next
    case Asks
    then show ?thesis using hd_sorted [OF s [of ls]] by simp
  qed
qed

text \<open>\<open>p\<close> is the price of a row, and the best of all rows of the side.\<close>

definition best_row :: "('r \<Rightarrow> decimal option) \<Rightarrow> book_side \<Rightarrow> 'r list \<Rightarrow> decimal \<Rightarrow> bool" where
  "best_row row_price side rows p \<longleftrightarrow>
     (\<exists>row \<in> set rows. row_price row = Some p) \<and>
     (\<forall>row \<in> set rows. case row_price row of None \<Rightarrow> False | Some q \<Rightarrow> at_least side p q)"

lemma best_row_sorted:
  assumes "traverse f rows = Inr ls" "rows \<noteq> []"
    and price: "\<And>row l. f row = Inr l \<Longrightarrow> row_price row = Some (price l)"
  shows "best_row row_price side rows (price (hd (sort_side (\<lambda>l. dval (price l)) side ls)))"
proof -
  let ?best = "hd (sort_side (\<lambda>l. dval (price l)) side ls)"
  have "ls \<noteq> []" using traverse_length [OF assms(1)] assms(2) by auto
  note best = sort_side_best [OF this, where price = price and side = side]
  have "\<exists>row \<in> set rows. row_price row = Some (price ?best)"
    using traverse_Inr_set [OF assms(1) best(2)] price by blast
  moreover have "case row_price row of None \<Rightarrow> False | Some q \<Rightarrow> at_least side (price ?best) q" if "row \<in> set rows" for row
    using traverse_Inr_all [OF assms(1) that] best(3) price by fastforce
  ultimately show ?thesis by (simp add: best_row_def)
qed

lemma calculate_book_metrics_Inr:
  assumes "calculate_book_metrics bids asks = Inr k"
  shows "bids \<noteq> []" "asks \<noteq> []" "bm_best_bid k = bl_price (hd bids)" "bm_best_ask k = bl_price (hd asks)"
    "dval (bm_best_bid k) < dval (bm_best_ask k)" "bm_spread k = dsub (bm_best_ask k) (bm_best_bid k)"
  using assms by (auto simp: calculate_book_metrics_def Let_def and_then_Inr split: if_splits)

end
