(* ===== verification/Adapter_Interface.thy ===== *)
theory Adapter_Interface
  imports Scheduler Json_Values
begin

text \<open>
  What the runtime relies on in a source adapter (\<open>load\<close> of \<^verbatim>\<open>app/adapters/base.py\<close>): the payload carries the
  adapter's name twice, and its health tells how the fetch went. The laws are those of the locale;
  every adapter theory interprets it on its own \<open>load\<close>. What follows from them is the status of a
  run of the adapter's job.
\<close>

locale source_adapter =
  fixes load :: "'a \<Rightarrow> 'e \<Rightarrow> json_object adapter_payload"
    and name :: "'a \<Rightarrow> string"
    and fetch :: "'a \<Rightarrow> 'e \<Rightarrow> 's result"
    and verdict :: "'s \<Rightarrow> adapter_state"
    and soft :: "error \<Rightarrow> bool"
  assumes named: "ap_name (load a e) = name a" "ah_name (ap_health (load a e)) = name a"
    and failed: "fetch a e = Inl x \<Longrightarrow> ah_state (ap_health (load a e)) = (if soft x then AD_DEGRADED else AD_DOWN)"
    and fetched: "fetch a e = Inr s \<Longrightarrow> ah_state (ap_health (load a e)) = verdict s"
begin

lemma accepted: "sj_adapter_name j = name a \<Longrightarrow> validate_payload j (load a e) = Inr ()"
  by (simp add: validate_payload_def named)

text \<open>
  Whatever the source answers, the run of the adapter's job neither raises nor times out on its own
  account, and ends with the status of the fetch, if clock and store work.
\<close>

lemma run_status:
  assumes "aware scheduled" "strip (sj_name j) \<noteq> ''''" "sj_adapter_name j = name a"
    and "succeeds (clock_not_before (je_start_clock env) scheduled)" "je_load env = Inr (load a e)"
    and "je_store_payload env = Inr ()"
  shows "\<exists>o1. run_job j env scheduled = Inr o1 \<and> proper_run j scheduled o1 \<and> 
      ro_status o1 = (case fetch a e of Inl x \<Rightarrow> if soft x then DEGRADED else FAILED | Inr s \<Rightarrow> status_for_health (verdict s))"
proof -
  have "deserved_status j env scheduled = status_for_health (ah_state (ap_health (load a e)))"
    using assms(4-6) accepted [OF assms(3), of e] by (auto simp: deserved_status_def succeeds_iff)
  also have "\<dots> = (case fetch a e of Inl x \<Rightarrow> if soft x then DEGRADED else FAILED | Inr s \<Rightarrow> status_for_health (verdict s))"
    using failed fetched by (cases "fetch a e") auto
  finally show ?thesis using run_job_ok [OF assms(1,2), of env] by simp
qed

end

end
