(* ===== verification/Benchmark_Adapters.thy ===== *)
theory Benchmark_Adapters
  imports Parsers Adapter_Interface
begin

text \<open>
  \<^verbatim>\<open>app/adapters/benchmark_base.py\<close> and the adapters of the four reference exchanges
  (\<^verbatim>\<open>binance_futures.py\<close>, \<^verbatim>\<open>bybit_futures.py\<close>, \<^verbatim>\<open>mexc_futures.py\<close>, \<^verbatim>\<open>gate_public.py\<close>): the requests each makes, the
  reading of the responses into a benchmark snapshot, and \<open>health\<close> and \<open>load\<close>, which turn every
  failure into a report. The network is outside the program: \<open>be_gather\<close> is what \<open>asyncio.gather\<close> over
  the client's calls gives for a list of URLs with their parameters, or raises.
\<close>

record benchmark_adapter =
  ba_source :: benchmark_source
  ba_symbol :: string
  ba_depth :: int
  ba_base_url :: string

type_synonym request = "string \<times> json_object"

record benchmark_env =
  be_gather :: "request list \<Rightarrow> json list result"
  be_clock :: datetime
  be_latency_ms :: int

section \<open>Construction\<close>

definition rstrip_slash :: "string \<Rightarrow> string" where
  "rstrip_slash s = rev (dropWhile (\<lambda>c. c = CHR ''/'') (rev s))"

definition starts_with :: "string \<Rightarrow> string \<Rightarrow> bool" where
  "starts_with p s \<longleftrightarrow> take (length p) s = p"

definition ends_with :: "string \<Rightarrow> string \<Rightarrow> bool" where
  "ends_with p s \<longleftrightarrow> length p \<le> length s \<and> drop (length s - length p) s = p"

definition BenchmarkAdapterBase :: "benchmark_source \<Rightarrow> int \<Rightarrow> string \<Rightarrow> string \<Rightarrow> benchmark_adapter result" where
  "BenchmarkAdapterBase source depth symbol base_url =
     (let normalized_symbol = strip symbol; normalized_url = rstrip_slash base_url in
      if normalized_symbol = '''' then Inl (ValueError ''symbol is required'')
      else if \<not> starts_with ''https://'' normalized_url then Inl (ValueError ''base_url must use HTTPS'')
      else Inr \<lparr>ba_source = source, ba_symbol = normalized_symbol, ba_depth = depth, ba_base_url = normalized_url\<rparr>)"

definition BinanceUsdMAdapter :: "string \<Rightarrow> int \<Rightarrow> string \<Rightarrow> benchmark_adapter result" where
  "BinanceUsdMAdapter symbol depth base_url =
     (if depth \<notin> {5, 10, 20, 50, 100, 500, 1000} then Inl (ValueError ''unsupported Binance depth'')
      else BenchmarkAdapterBase BINANCE depth symbol base_url)"

definition BybitLinearPerpetualAdapter :: "string \<Rightarrow> int \<Rightarrow> string \<Rightarrow> benchmark_adapter result" where
  "BybitLinearPerpetualAdapter symbol depth base_url =
     (if depth \<notin> {1, 25, 50, 100, 200, 500} then Inl (ValueError ''unsupported Bybit depth'')
      else BenchmarkAdapterBase BYBIT depth symbol base_url)"

definition MexcUsdtPerpetualAdapter :: "string \<Rightarrow> int \<Rightarrow> string \<Rightarrow> benchmark_adapter result" where
  "MexcUsdtPerpetualAdapter symbol depth base_url =
     (if depth < 1 \<or> 100 < depth then Inl (ValueError ''MEXC depth must be between 1 and 100'')
      else BenchmarkAdapterBase MEXC depth symbol base_url)"

definition GateUsdtFuturesAdapter :: "string \<Rightarrow> int \<Rightarrow> string \<Rightarrow> benchmark_adapter result" where
  "GateUsdtFuturesAdapter symbol depth base_url =
     (if depth < 1 \<or> 100 < depth then Inl (ValueError ''Gate depth must be between 1 and 100'')
      else BenchmarkAdapterBase GATE depth symbol base_url)"

fun adapter_name :: "benchmark_source \<Rightarrow> string" where
  "adapter_name BINANCE = ''binance-usdm-benchmark''"
| "adapter_name BYBIT = ''bybit-linear-perpetual-benchmark''"
| "adapter_name MEXC = ''mexc-usdt-perpetual-benchmark''"
| "adapter_name GATE = ''gate-usdt-futures-benchmark''"

definition url :: "benchmark_adapter \<Rightarrow> string \<Rightarrow> string" where
  "url a path = ba_base_url a @ path"

definition received_at :: "datetime \<Rightarrow> datetime result" where
  "received_at now =
     (if aware now then Inr now else Inl (ValueError ''clock must return a timezone-aware datetime''))"

section \<open>Snapshots\<close>

text \<open>The constructor call at the end of every \<open>fetch_snapshot\<close>, after its arguments.\<close>

definition build_snapshot ::
  "benchmark_adapter \<Rightarrow> benchmark_env \<Rightarrow> book_metrics \<Rightarrow> datetime \<Rightarrow> datetime option \<Rightarrow> decimal \<Rightarrow> decimal option \<Rightarrow>
     decimal option \<Rightarrow> decimal option \<Rightarrow> decimal option \<Rightarrow> decimal benchmark_snapshot result" where
  "build_snapshot a env k received stamp lastp markp index funding interest =
     BenchmarkSnapshot \<lparr>bs_source = ba_source a, bs_role = BENCHMARK_ONLY, bs_symbol = ba_symbol a,
       bs_received_at = received, bs_latency_ms = be_latency_ms env, bs_source_timestamp = stamp,
       bs_last_price = Finite lastp, bs_mark_price = map_option Finite markp,
       bs_index_price = map_option Finite index, bs_funding_rate = map_option Finite funding,
       bs_open_interest = map_option Finite interest, bs_best_bid = Finite (bm_best_bid k),
       bs_best_ask = Finite (bm_best_ask k), bs_spread = Finite (bm_spread k),
       bs_spread_bps = Finite (bm_spread_bps k), bs_bid_depth_quote = Finite (bm_bid_depth_quote k),
       bs_ask_depth_quote = Finite (bm_ask_depth_quote k)\<rparr>"

definition unpack_error :: error where
  "unpack_error = ValueError ''not enough values to unpack''"

subsection \<open>Binance\<close>

fun validate_contract_items :: "string \<Rightarrow> json list \<Rightarrow> unit result" where
  "validate_contract_items symbol [] = Inl (ParserError (''symbol not found: '' @ symbol))"
| "validate_contract_items symbol (raw # rest) =
     and_then (require_object ''exchangeInfo symbol'' raw) (\<lambda>item.
     if get item ''symbol'' \<noteq> JStr symbol then validate_contract_items symbol rest
     else if get item ''contractType'' \<noteq> JStr ''PERPETUAL'' then Inl (ParserError ''Binance contract is not perpetual'')
     else if get item ''quoteAsset'' \<noteq> JStr ''USDT'' \<or> get item ''marginAsset'' \<noteq> JStr ''USDT''
       then Inl (ParserError ''Binance contract is not USDT-margined'')
     else if get item ''status'' \<noteq> JStr ''TRADING'' then Inl (ParserError ''Binance contract is not trading'')
     else Inr ())"

definition validate_contract :: "string \<Rightarrow> json \<Rightarrow> unit result" where
  "validate_contract symbol payload =
     and_then (require_object ''exchangeInfo'' payload) (\<lambda>root.
     and_then (require_list ''exchangeInfo.symbols'' (get root ''symbols'')) (validate_contract_items symbol))"

definition check_symbol :: "string \<Rightarrow> string \<Rightarrow> string \<Rightarrow> json_object \<Rightarrow> unit result" where
  "check_symbol symbol label message item =
     and_then (require_text (label @ ''.symbol'') (get item ''symbol'')) (\<lambda>s.
     if s \<noteq> symbol then Inl (ParserError message) else Inr ())"

definition binance_requests :: "benchmark_adapter \<Rightarrow> request list" where
  "binance_requests a =
     [(url a ''/fapi/v1/exchangeInfo'', []),
      (url a ''/fapi/v2/ticker/price'', [(''symbol'', JStr (ba_symbol a))]),
      (url a ''/fapi/v1/premiumIndex'', [(''symbol'', JStr (ba_symbol a))]),
      (url a ''/fapi/v1/openInterest'', [(''symbol'', JStr (ba_symbol a))]),
      (url a ''/fapi/v1/depth'', [(''symbol'', JStr (ba_symbol a)), (''limit'', JInt (ba_depth a))])]"

definition binance_snapshot ::
  "benchmark_adapter \<Rightarrow> benchmark_env \<Rightarrow> json \<Rightarrow> json \<Rightarrow> json \<Rightarrow> json \<Rightarrow> json \<Rightarrow> decimal benchmark_snapshot result" where
  "binance_snapshot a env exchange_info ticker premium open_int book =
     and_then (validate_contract (ba_symbol a) exchange_info) (\<lambda>_.
     and_then (require_object ''ticker'' ticker) (\<lambda>ticker_item.
     and_then (require_object ''premiumIndex'' premium) (\<lambda>premium_item.
     and_then (require_object ''openInterest'' open_int) (\<lambda>interest_item.
     and_then (require_object ''depth'' book) (\<lambda>book_item.
     and_then (check_symbol (ba_symbol a) ''ticker'' ''ticker symbol mismatch'' ticker_item) (\<lambda>_.
     and_then (check_symbol (ba_symbol a) ''premiumIndex'' ''premiumIndex symbol mismatch'' premium_item) (\<lambda>_.
     and_then (check_symbol (ba_symbol a) ''openInterest'' ''openInterest symbol mismatch'' interest_item) (\<lambda>_.
     and_then (parse_sequence_book Bids (dec 1 0) (get book_item ''bids'')) (\<lambda>bids.
     and_then (parse_sequence_book Asks (dec 1 0) (get book_item ''asks'')) (\<lambda>asks.
     and_then (calculate_book_metrics bids asks) (\<lambda>k.
     and_then (received_at (be_clock env)) (\<lambda>received.
     and_then (parse_epoch_ms_optional ''premiumIndex.time'' (get premium_item ''time'')) (\<lambda>stamp.
     and_then (parse_decimal ''ticker.price'' True False (get ticker_item ''price'')) (\<lambda>lastp.
     and_then (parse_decimal ''premiumIndex.markPrice'' True False (get premium_item ''markPrice'')) (\<lambda>markp.
     and_then (parse_decimal ''premiumIndex.indexPrice'' True False (get premium_item ''indexPrice'')) (\<lambda>index.
     and_then (parse_decimal_optional ''premiumIndex.lastFundingRate'' False False (get premium_item ''lastFundingRate'')) (\<lambda>funding.
     and_then (parse_decimal ''openInterest.openInterest'' False True (get interest_item ''openInterest'')) (\<lambda>interest.
     build_snapshot a env k received stamp lastp (Some markp) (Some index) funding (Some interest)))))))))))))))))))"

subsection \<open>Bybit\<close>

definition bybit_result :: "string \<Rightarrow> json \<Rightarrow> json_object result" where
  "bybit_result label payload =
     and_then (require_object label payload) (\<lambda>root.
     if \<not> equals_int (get root ''retCode'') 0 then Inl (ParserError (label @ '' reported failure''))
     else require_object (label @ ''.result'') (get root ''result''))"

definition single_result_item :: "string \<Rightarrow> json \<Rightarrow> json_object result" where
  "single_result_item label payload =
     and_then (bybit_result label payload) (\<lambda>res.
     and_then (require_list (label @ ''.result.list'') (get res ''list'')) (\<lambda>items.
     case items of [x] \<Rightarrow> require_object (label @ '' item'') x
     | _ \<Rightarrow> Inl (ParserError (label @ '' must contain one symbol''))))"

definition bybit_requests :: "benchmark_adapter \<Rightarrow> request list" where
  "bybit_requests a =
     [(url a ''/v5/market/instruments-info'', [(''category'', JStr ''linear''), (''symbol'', JStr (ba_symbol a))]),
      (url a ''/v5/market/tickers'', [(''category'', JStr ''linear''), (''symbol'', JStr (ba_symbol a))]),
      (url a ''/v5/market/orderbook'',
        [(''category'', JStr ''linear''), (''symbol'', JStr (ba_symbol a)), (''limit'', JInt (ba_depth a))])]"

definition bybit_snapshot ::
  "benchmark_adapter \<Rightarrow> benchmark_env \<Rightarrow> json \<Rightarrow> json \<Rightarrow> json \<Rightarrow> decimal benchmark_snapshot result" where
  "bybit_snapshot a env instrument_payload ticker_payload book_payload =
     and_then (single_result_item ''instruments'' instrument_payload) (\<lambda>instrument.
     and_then (single_result_item ''tickers'' ticker_payload) (\<lambda>ticker.
     and_then (bybit_result ''orderbook'' book_payload) (\<lambda>book.
     and_then (check_symbol (ba_symbol a) ''instrument'' ''Bybit instrument symbol mismatch'' instrument) (\<lambda>_.
     and_then (check_symbol (ba_symbol a) ''ticker'' ''Bybit ticker symbol mismatch'' ticker) (\<lambda>_.
     if get instrument ''contractType'' \<noteq> JStr ''LinearPerpetual''
       then Inl (ParserError ''Bybit contract is not linear perpetual'')
     else if get instrument ''status'' \<noteq> JStr ''Trading'' then Inl (ParserError ''Bybit contract is not trading'')
     else if get instrument ''quoteCoin'' \<noteq> JStr ''USDT'' \<or> get instrument ''settleCoin'' \<noteq> JStr ''USDT''
       then Inl (ParserError ''Bybit contract is not USDT-settled'')
     else and_then (require_text ''orderbook.s'' (get book ''s'')) (\<lambda>book_symbol.
     if book_symbol \<noteq> ba_symbol a then Inl (ParserError ''Bybit order-book symbol mismatch'')
     else and_then (parse_sequence_book Bids (dec 1 0) (get book ''b'')) (\<lambda>bids.
     and_then (parse_sequence_book Asks (dec 1 0) (get book ''a'')) (\<lambda>asks.
     and_then (calculate_book_metrics bids asks) (\<lambda>k.
     and_then (received_at (be_clock env)) (\<lambda>received.
     and_then (parse_epoch_ms_optional ''orderbook.ts'' (get book ''ts'')) (\<lambda>stamp.
     and_then (parse_decimal ''ticker.lastPrice'' True False (get ticker ''lastPrice'')) (\<lambda>lastp.
     and_then (parse_decimal_optional ''ticker.markPrice'' True False (get ticker ''markPrice'')) (\<lambda>markp.
     and_then (parse_decimal_optional ''ticker.indexPrice'' True False (get ticker ''indexPrice'')) (\<lambda>index.
     and_then (parse_decimal_optional ''ticker.fundingRate'' False False (get ticker ''fundingRate'')) (\<lambda>funding.
     and_then (parse_decimal_optional ''ticker.openInterest'' False True (get ticker ''openInterest'')) (\<lambda>interest.
     build_snapshot a env k received stamp lastp markp index funding interest))))))))))))))))"

subsection \<open>MEXC\<close>

definition mexc_data :: "string \<Rightarrow> json \<Rightarrow> json_object result" where
  "mexc_data label payload =
     and_then (require_object label payload) (\<lambda>root.
     if get root ''success'' \<noteq> JBool True then Inl (ParserError (label @ '' reported failure''))
     else require_object (label @ ''.data'') (get root ''data''))"

definition mexc_requests :: "benchmark_adapter \<Rightarrow> request list" where
  "mexc_requests a =
     [(url a (''/api/v1/contract/detail/'' @ ba_symbol a), []),
      (url a ''/api/v1/contract/ticker'', [(''symbol'', JStr (ba_symbol a))]),
      (url a (''/api/v1/contract/depth/'' @ ba_symbol a), [(''limit'', JInt (ba_depth a))])]"

definition mexc_snapshot ::
  "benchmark_adapter \<Rightarrow> benchmark_env \<Rightarrow> json \<Rightarrow> json \<Rightarrow> json \<Rightarrow> decimal benchmark_snapshot result" where
  "mexc_snapshot a env detail_payload ticker_payload book_payload =
     and_then (mexc_data ''detail'' detail_payload) (\<lambda>detail.
     and_then (mexc_data ''ticker'' ticker_payload) (\<lambda>ticker.
     and_then (mexc_data ''depth'' book_payload) (\<lambda>book.
     and_then (require_text ''detail.symbol'' (get detail ''symbol'')) (\<lambda>detail_symbol.
     and_then (require_text ''ticker.symbol'' (get ticker ''symbol'')) (\<lambda>ticker_symbol.
     if detail_symbol \<noteq> ba_symbol a \<or> ticker_symbol \<noteq> ba_symbol a then Inl (ParserError ''MEXC symbol mismatch'')
     else if get detail ''quoteCoin'' \<noteq> JNull \<and> get detail ''quoteCoin'' \<noteq> JStr ''USDT''
       then Inl (ParserError ''MEXC contract is not USDT quoted'')
     else if \<not> ends_with ''_USDT'' (ba_symbol a)
       then Inl (ParserError ''MEXC symbol must be a USDT perpetual contract'')
     else and_then (parse_decimal ''detail.contractSize'' True False (get detail ''contractSize'')) (\<lambda>contract_size.
     and_then (parse_sequence_book Bids contract_size (get book ''bids'')) (\<lambda>bids.
     and_then (parse_sequence_book Asks contract_size (get book ''asks'')) (\<lambda>asks.
     and_then (calculate_book_metrics bids asks) (\<lambda>k.
     let source_timestamp = (if json_truthy (get ticker ''timestamp'') then get ticker ''timestamp'' else get book ''timestamp'') in
     and_then (received_at (be_clock env)) (\<lambda>received.
     and_then (parse_epoch_ms_optional ''timestamp'' source_timestamp) (\<lambda>stamp.
     and_then (parse_decimal ''ticker.lastPrice'' True False (get ticker ''lastPrice'')) (\<lambda>lastp.
     and_then (parse_decimal_optional ''ticker.fairPrice'' True False (get ticker ''fairPrice'')) (\<lambda>markp.
     and_then (parse_decimal_optional ''ticker.indexPrice'' True False (get ticker ''indexPrice'')) (\<lambda>index.
     and_then (parse_decimal_optional ''ticker.fundingRate'' False False (get ticker ''fundingRate'')) (\<lambda>funding.
     and_then (parse_decimal_optional ''ticker.holdVol'' False True (get ticker ''holdVol'')) (\<lambda>interest.
     build_snapshot a env k received stamp lastp markp index funding interest))))))))))))))))"

subsection \<open>Gate\<close>

definition gate_requests :: "benchmark_adapter \<Rightarrow> request list" where
  "gate_requests a =
     [(url a (''/api/v4/futures/usdt/contracts/'' @ ba_symbol a), []),
      (url a ''/api/v4/futures/usdt/tickers'', [(''contract'', JStr (ba_symbol a))]),
      (url a ''/api/v4/futures/usdt/order_book'',
        [(''contract'', JStr (ba_symbol a)), (''limit'', JInt (ba_depth a)), (''with_id'', JBool True)])]"

definition gate_snapshot ::
  "benchmark_adapter \<Rightarrow> benchmark_env \<Rightarrow> json \<Rightarrow> json \<Rightarrow> json \<Rightarrow> decimal benchmark_snapshot result" where
  "gate_snapshot a env contract_payload ticker_payload book_payload =
     and_then (require_object ''contract'' contract_payload) (\<lambda>contract.
     and_then (require_text ''contract.name'' (get contract ''name'')) (\<lambda>contract_name.
     if contract_name \<noteq> ba_symbol a then Inl (ParserError ''Gate contract symbol mismatch'')
     else if \<not> ends_with ''_USDT'' (ba_symbol a) then Inl (ParserError ''Gate symbol must be a USDT futures contract'')
     else if get contract ''in_delisting'' = JBool True then Inl (ParserError ''Gate contract is delisting'')
     else and_then (parse_decimal ''contract.quanto_multiplier'' True False (get contract ''quanto_multiplier'')) (\<lambda>multiplier.
     and_then (require_list ''tickers'' ticker_payload) (\<lambda>tickers.
     case tickers of [t] \<Rightarrow>
       and_then (require_object ''ticker'' t) (\<lambda>ticker.
       and_then (require_text ''ticker.contract'' (get ticker ''contract'')) (\<lambda>ticker_symbol.
       if ticker_symbol \<noteq> ba_symbol a then Inl (ParserError ''Gate ticker symbol mismatch'')
       else and_then (require_object ''order_book'' book_payload) (\<lambda>book.
       and_then (parse_object_book Bids ''p'' ''s'' multiplier True (get book ''bids'')) (\<lambda>bids.
       and_then (parse_object_book Asks ''p'' ''s'' multiplier True (get book ''asks'')) (\<lambda>asks.
       and_then (calculate_book_metrics bids asks) (\<lambda>k.
       and_then (received_at (be_clock env)) (\<lambda>received.
       and_then (parse_epoch_seconds_optional ''order_book.current'' (get book ''current'')) (\<lambda>stamp.
       and_then (parse_decimal ''ticker.last'' True False (get ticker ''last'')) (\<lambda>lastp.
       and_then (parse_decimal_optional ''ticker.mark_price'' True False (get ticker ''mark_price'')) (\<lambda>markp.
       and_then (parse_decimal_optional ''ticker.index_price'' True False (get ticker ''index_price'')) (\<lambda>index.
       and_then (parse_decimal_optional ''ticker.funding_rate'' False False (get ticker ''funding_rate'')) (\<lambda>funding.
       and_then (parse_decimal_optional ''ticker.total_size'' False True (get ticker ''total_size'')) (\<lambda>interest.
       build_snapshot a env k received stamp lastp markp index funding interest)))))))))))))
     | _ \<Rightarrow> Inl (ParserError ''Gate ticker response must contain one contract'')))))"

section \<open>The interface of an adapter\<close>

text \<open>\<open>fetch_snapshot\<close> of the class of the adapter.\<close>

definition fetch_snapshot :: "benchmark_adapter \<Rightarrow> benchmark_env \<Rightarrow> decimal benchmark_snapshot result" where
  "fetch_snapshot a env =
     (case ba_source a of
        BINANCE \<Rightarrow> and_then (be_gather env (binance_requests a)) (\<lambda>rs.
          case rs of [e, t, p, i, b] \<Rightarrow> binance_snapshot a env e t p i b | _ \<Rightarrow> Inl unpack_error)
      | BYBIT \<Rightarrow> and_then (be_gather env (bybit_requests a)) (\<lambda>rs.
          case rs of [i, t, b] \<Rightarrow> bybit_snapshot a env i t b | _ \<Rightarrow> Inl unpack_error)
      | MEXC \<Rightarrow> and_then (be_gather env (mexc_requests a)) (\<lambda>rs.
          case rs of [d, t, b] \<Rightarrow> mexc_snapshot a env d t b | _ \<Rightarrow> Inl unpack_error)
      | GATE \<Rightarrow> and_then (be_gather env (gate_requests a)) (\<lambda>rs.
          case rs of [c, t, b] \<Rightarrow> gate_snapshot a env c t b | _ \<Rightarrow> Inl unpack_error))"

definition benchmark_health :: "benchmark_adapter \<Rightarrow> benchmark_env \<Rightarrow> int \<Rightarrow> adapter_health" where
  "benchmark_health a env elapsed_ms =
     (case fetch_snapshot a env of
        Inl e \<Rightarrow> \<lparr>ah_name = adapter_name (ba_source a), ah_state = AD_DOWN, ah_latency_ms = Some elapsed_ms,
                  ah_message = error_name e\<rparr>
      | Inr s \<Rightarrow> \<lparr>ah_name = adapter_name (ba_source a), ah_state = AD_OK, ah_latency_ms = Some elapsed_ms,
                  ah_message = ''''\<rparr>)"

definition optional_str :: "decimal option \<Rightarrow> json" where
  "optional_str v = (case v of None \<Rightarrow> JNull | Some d \<Rightarrow> JStr (dec_str d))"

definition snapshot_data :: "decimal benchmark_snapshot \<Rightarrow> json_object" where
  "snapshot_data s =
     [(''source'', JStr (benchmark_source_value (bs_source s))),
      (''role'', JStr ''BENCHMARK_ONLY''),
      (''symbol'', JStr (bs_symbol s)),
      (''received_at'', JStr (isoformat (bs_received_at s))),
      (''source_timestamp'', (case bs_source_timestamp s of None \<Rightarrow> JNull | Some t \<Rightarrow> JStr (isoformat t))),
      (''latency_ms'', JInt (bs_latency_ms s)),
      (''last_price'', JStr (dec_str (bs_last_price s))),
      (''mark_price'', optional_str (bs_mark_price s)),
      (''index_price'', optional_str (bs_index_price s)),
      (''funding_rate'', optional_str (bs_funding_rate s)),
      (''open_interest'', optional_str (bs_open_interest s)),
      (''best_bid'', JStr (dec_str (bs_best_bid s))),
      (''best_ask'', JStr (dec_str (bs_best_ask s))),
      (''spread'', JStr (dec_str (bs_spread s))),
      (''spread_bps'', JStr (dec_str (bs_spread_bps s))),
      (''bid_depth_quote'', JStr (dec_str (bs_bid_depth_quote s))),
      (''ask_depth_quote'', JStr (dec_str (bs_ask_depth_quote s))),
      (''status'', JStr ''OK'')]"

definition benchmark_load :: "benchmark_adapter \<Rightarrow> benchmark_env \<Rightarrow> json_object adapter_payload" where
  "benchmark_load a env =
     (let name = adapter_name (ba_source a) in
      case fetch_snapshot a env of
        Inl e \<Rightarrow> \<lparr>ap_name = name,
          ap_data = [(''source'', JStr (benchmark_source_value (ba_source a))),
            (''role'', JStr ''BENCHMARK_ONLY''), (''symbol'', JStr (ba_symbol a)),
            (''status'', JStr ''DATA_DEGRADED'')],
          ap_health = \<lparr>ah_name = name, ah_state = (if is_ValueError e then AD_DEGRADED else AD_DOWN),
            ah_latency_ms = None, ah_message = error_name e\<rparr>\<rparr>
      | Inr s \<Rightarrow> \<lparr>ap_name = name, ap_data = snapshot_data s,
          ap_health = \<lparr>ah_name = name, ah_state = AD_OK, ah_latency_ms = Some (bs_latency_ms s),
            ah_message = ''''\<rparr>\<rparr>)"

section \<open>Soundness of a snapshot\<close>

text \<open>
  Where the rows of a side are in the last response of an exchange, and the price of a row.
\<close>

definition sub :: "string \<Rightarrow> json \<Rightarrow> json" where
  "sub k v = (case v of JObj d \<Rightarrow> get d k | _ \<Rightarrow> JNull)"

fun items :: "json \<Rightarrow> json list" where
  "items (JList xs) = xs"
| "items v = []"

definition book_rows :: "benchmark_source \<Rightarrow> book_side \<Rightarrow> json list \<Rightarrow> json list" where
  "book_rows source side responses =
     (let book = last responses in
      items (case source of
          BINANCE \<Rightarrow> sub (side_text side) book
        | GATE \<Rightarrow> sub (side_text side) book
        | MEXC \<Rightarrow> sub (side_text side) (sub ''data'' book)
        | BYBIT \<Rightarrow> sub (take 1 (side_text side)) (sub ''result'' book)))"

definition decimal_value :: "json \<Rightarrow> decimal option" where
  "decimal_value v = (case decimal_of_json v of Inr (Finite d) \<Rightarrow> Some d | _ \<Rightarrow> None)"

definition row_price :: "benchmark_source \<Rightarrow> json \<Rightarrow> decimal option" where
  "row_price source row = decimal_value (if source = GATE then sub ''p'' row else case items row of x # xs \<Rightarrow> x | [] \<Rightarrow> JNull)"

text \<open>\<open>p\<close> is the best price of the rows.\<close>

definition best_of_rows :: "benchmark_source \<Rightarrow> book_side \<Rightarrow> json list \<Rightarrow> decimal \<Rightarrow> bool" where
  "best_of_rows source side rows p \<longleftrightarrow> best_row (row_price source) side rows p"

lemma sequence_level_price:
  "source \<noteq> GATE \<Longrightarrow> sequence_level side m row = Inr l \<Longrightarrow> row_price source row = Some (bl_price l)"
  by (auto simp: sequence_level_def and_then_Inr BenchmarkBookLevel_Inr parse_decimal_Inr row_price_def decimal_value_def
      split: json.splits list.splits)

lemma object_level_price: "object_level side ''p'' q m ab row = Inr l \<Longrightarrow> row_price GATE row = Some (bl_price l)"
  by (cases row) (auto simp: object_level_def Let_def and_then_Inr BenchmarkBookLevel_Inr parse_decimal_Inr row_price_def
      decimal_value_def sub_def split: if_splits)

lemma parse_sequence_book_best:
  assumes "parse_sequence_book side m rows = Inr levels" "source \<noteq> GATE"
  shows "best_of_rows source side (items rows) (bl_price (hd levels))"
proof (cases rows)
  case (JList xs)
  then show ?thesis using assms best_row_sorted [OF _ _ sequence_level_price [OF assms(2)]]
    by (auto simp: parse_sequence_book_def best_of_rows_def and_then_Inr split: if_splits)
qed (use assms in \<open>simp_all add: parse_sequence_book_def\<close>)

lemma parse_object_book_best:
  assumes "parse_object_book side ''p'' q m ab rows = Inr levels"
  shows "best_of_rows GATE side (items rows) (bl_price (hd levels))"
proof (cases rows)
  case (JList xs)
  then show ?thesis using assms best_row_sorted [OF _ _ object_level_price]
    by (auto simp: parse_object_book_def best_of_rows_def and_then_Inr split: if_splits)
qed (use assms in \<open>simp_all add: parse_object_book_def\<close>)

lemma BenchmarkSnapshot_Inr:
  assumes "BenchmarkSnapshot r = Inr s"
  shows "bs_source s = bs_source r" "bs_symbol s = strip (bs_symbol r)" "aware (bs_received_at s)"
    "bs_best_bid r = Finite (bs_best_bid s)" "bs_best_ask r = Finite (bs_best_ask s)"
    "0 < dval (bs_last_price s)" "0 < dval (bs_best_bid s)" "dval (bs_best_bid s) < dval (bs_best_ask s)"
    "0 \<le> dval (bs_bid_depth_quote s)" "0 \<le> dval (bs_ask_depth_quote s)" "0 \<le> bs_latency_ms s"
    "dval (bs_spread s) = dval (dsub (bs_best_ask s) (bs_best_bid s))"
proof -
  have pos: "positive_decimal n v = Inr d \<longleftrightarrow> v = Finite d \<and> 0 < dval d" for n v d
    by (cases v) (auto simp: positive_decimal_def check_finite_def)
  have nonneg: "non_negative_decimal n v = Inr d \<longleftrightarrow> v = Finite d \<and> 0 \<le> dval d" for n v d
    by (cases v) (auto simp: non_negative_decimal_def check_finite_def)
  have header: "check_benchmark_header r = Inr y \<Longrightarrow> y = strip (bs_symbol r) \<and> aware (bs_received_at r) \<and> 0 \<le> bs_latency_ms r" for y
    by (auto simp: check_benchmark_header_def Let_def split: if_splits)
  show "bs_source s = bs_source r" "bs_symbol s = strip (bs_symbol r)" "aware (bs_received_at s)"
    "bs_best_bid r = Finite (bs_best_bid s)" "bs_best_ask r = Finite (bs_best_ask s)"
    "0 < dval (bs_last_price s)" "0 < dval (bs_best_bid s)" "dval (bs_best_bid s) < dval (bs_best_ask s)"
    "0 \<le> dval (bs_bid_depth_quote s)" "0 \<le> dval (bs_ask_depth_quote s)" "0 \<le> bs_latency_ms s"
    "dval (bs_spread s) = dval (dsub (bs_best_ask s) (bs_best_bid s))"
    using assms by (auto simp: BenchmarkSnapshot_def and_then_Inr if_Inl_eq_Inr pos nonneg dest!: header)
qed

text \<open>Unpacking a list of a fixed length.\<close>

lemma unpack:
  "(case xs of [a] \<Rightarrow> f1 a | _ \<Rightarrow> Inl err) = Inr y \<longleftrightarrow> (\<exists>a. xs = [a] \<and> f1 a = Inr y)"
  "(case xs of [a, b, c] \<Rightarrow> f3 a b c | _ \<Rightarrow> Inl err) = Inr y \<longleftrightarrow> (\<exists>a b c. xs = [a, b, c] \<and> f3 a b c = Inr y)"
  "(case xs of [a, b, c, d, e] \<Rightarrow> f5 a b c d e | _ \<Rightarrow> Inl err) = Inr y \<longleftrightarrow>
     (\<exists>a b c d e. xs = [a, b, c, d, e] \<and> f5 a b c d e = Inr y)"
  by (auto split: list.splits)

text \<open>A snapshot that quotes the best rows of the book it was read from.\<close>

definition snapshot_sound :: "benchmark_adapter \<Rightarrow> json list \<Rightarrow> decimal benchmark_snapshot \<Rightarrow> bool" where
  "snapshot_sound a rs s \<longleftrightarrow>
     bs_source s = ba_source a \<and> bs_symbol s = strip (ba_symbol a) \<and> aware (bs_received_at s) \<and> 0 < dval (bs_last_price s) \<and>
     best_of_rows (ba_source a) Bids (book_rows (ba_source a) Bids rs) (bs_best_bid s) \<and>
     best_of_rows (ba_source a) Asks (book_rows (ba_source a) Asks rs) (bs_best_ask s) \<and>
     0 < dval (bs_best_bid s) \<and> dval (bs_best_bid s) < dval (bs_best_ask s) \<and>
     dval (bs_spread s) = dval (dsub (bs_best_ask s) (bs_best_bid s))"

lemma build_snapshot_sound:
  assumes "build_snapshot a env k received stamp lastp markp index funding interest = Inr s"
    "calculate_book_metrics bids asks = Inr k"
    "best_of_rows (ba_source a) Bids (book_rows (ba_source a) Bids rs) (bl_price (hd bids))"
    "best_of_rows (ba_source a) Asks (book_rows (ba_source a) Asks rs) (bl_price (hd asks))"
  shows "snapshot_sound a rs s"
  using BenchmarkSnapshot_Inr [OF assms(1) [unfolded build_snapshot_def]] calculate_book_metrics_Inr [OF assms(2)] assms(3,4)
  by (simp add: snapshot_sound_def)

lemma binance_snapshot_sound:
  assumes "binance_snapshot a env e t p i b = Inr s" "ba_source a = BINANCE"
  shows "snapshot_sound a [e, t, p, i, b] s"
proof -
  obtain book bids asks k where "require_object ''depth'' b = Inr book"
    and bids: "parse_sequence_book Bids (dec 1 0) (get book ''bids'') = Inr bids"
    and asks: "parse_sequence_book Asks (dec 1 0) (get book ''asks'') = Inr asks"
    and k: "calculate_book_metrics bids asks = Inr k"
    and s: "\<exists>r st l m x f o'. build_snapshot a env k r st l m x f o' = Inr s"
    using assms(1) unfolding binance_snapshot_def and_then_Inr by blast
  then have "b = JObj book" by (cases b) auto
  then show ?thesis using build_snapshot_sound [OF _ k, where a = a] s parse_sequence_book_best [OF bids, of BINANCE]
      parse_sequence_book_best [OF asks, of BINANCE] assms(2)
    by (auto simp: book_rows_def sub_def)
qed

lemma bybit_result_sub: "bybit_result label v = Inr d \<Longrightarrow> sub ''result'' v = JObj d"
  by (cases v; cases "sub ''result'' v") (auto simp: bybit_result_def sub_def split: if_splits)

lemma bybit_snapshot_sound:
  assumes "bybit_snapshot a env i t b = Inr s" "ba_source a = BYBIT"
  shows "snapshot_sound a [i, t, b] s"
proof -
  obtain book bids asks k where book: "bybit_result ''orderbook'' b = Inr book"
    and bids: "parse_sequence_book Bids (dec 1 0) (get book ''b'') = Inr bids"
    and asks: "parse_sequence_book Asks (dec 1 0) (get book ''a'') = Inr asks"
    and k: "calculate_book_metrics bids asks = Inr k"
    and s: "\<exists>r st l m x f o'. build_snapshot a env k r st l m x f o' = Inr s"
    using assms(1) unfolding bybit_snapshot_def and_then_Inr if_Inl_eq_Inr by blast
  then show ?thesis using build_snapshot_sound [OF _ k, where a = a] s parse_sequence_book_best [OF bids, of BYBIT]
      parse_sequence_book_best [OF asks, of BYBIT] assms(2) bybit_result_sub [OF book]
    by (auto simp: book_rows_def sub_def [of _ "JObj _"])
qed

lemma mexc_data_sub: "mexc_data label v = Inr d \<Longrightarrow> sub ''data'' v = JObj d"
  by (cases v; cases "sub ''data'' v") (auto simp: mexc_data_def sub_def split: if_splits)

lemma mexc_snapshot_sound:
  assumes "mexc_snapshot a env i t b = Inr s" "ba_source a = MEXC"
  shows "snapshot_sound a [i, t, b] s"
proof -
  obtain book bids asks k c where book: "mexc_data ''depth'' b = Inr book"
    and bids: "parse_sequence_book Bids c (get book ''bids'') = Inr bids"
    and asks: "parse_sequence_book Asks c (get book ''asks'') = Inr asks"
    and k: "calculate_book_metrics bids asks = Inr k"
    and s: "\<exists>r st l m x f o'. build_snapshot a env k r st l m x f o' = Inr s"
    using assms(1) unfolding mexc_snapshot_def and_then_Inr if_Inl_eq_Inr Let_def by blast
  then show ?thesis using build_snapshot_sound [OF _ k, where a = a] s parse_sequence_book_best [OF bids, of MEXC]
      parse_sequence_book_best [OF asks, of MEXC] assms(2) mexc_data_sub [OF book]
    by (auto simp: book_rows_def sub_def [of _ "JObj _"])
qed

lemma gate_snapshot_sound:
  assumes "gate_snapshot a env c t b = Inr s" "ba_source a = GATE"
  shows "snapshot_sound a [c, t, b] s"
proof -
  obtain book bids asks k m where "require_object ''order_book'' b = Inr book"
    and bids: "parse_object_book Bids ''p'' ''s'' m True (get book ''bids'') = Inr bids"
    and asks: "parse_object_book Asks ''p'' ''s'' m True (get book ''asks'') = Inr asks"
    and k: "calculate_book_metrics bids asks = Inr k"
    and s: "\<exists>r st l m x f o'. build_snapshot a env k r st l m x f o' = Inr s"
    using assms(1) unfolding gate_snapshot_def and_then_Inr if_Inl_eq_Inr unpack by blast
  then have "b = JObj book" by (cases b) auto
  then show ?thesis using build_snapshot_sound [OF _ k, where a = a] s parse_object_book_best [OF bids]
      parse_object_book_best [OF asks] assms(2)
    by (auto simp: book_rows_def sub_def)
qed

definition requests :: "benchmark_adapter \<Rightarrow> request list" where
  "requests a = (case ba_source a of BINANCE \<Rightarrow> binance_requests a | BYBIT \<Rightarrow> bybit_requests a
     | MEXC \<Rightarrow> mexc_requests a | GATE \<Rightarrow> gate_requests a)"

lemma fetch_snapshot_sound:
  assumes "fetch_snapshot a env = Inr s"
  shows "\<exists>rs. be_gather env (requests a) = Inr rs \<and> snapshot_sound a rs s"
proof (cases "ba_source a")
  case BINANCE
  then obtain e t p i b where "be_gather env (requests a) = Inr [e, t, p, i, b]" "binance_snapshot a env e t p i b = Inr s"
    using assms by (auto simp: fetch_snapshot_def requests_def and_then_Inr unpack)
  then show ?thesis using binance_snapshot_sound BINANCE by blast
next
  case BYBIT
  then obtain i t b where "be_gather env (requests a) = Inr [i, t, b]" "bybit_snapshot a env i t b = Inr s"
    using assms by (auto simp: fetch_snapshot_def requests_def and_then_Inr unpack)
  then show ?thesis using bybit_snapshot_sound BYBIT by blast
next
  case MEXC
  then obtain i t b where "be_gather env (requests a) = Inr [i, t, b]" "mexc_snapshot a env i t b = Inr s"
    using assms by (auto simp: fetch_snapshot_def requests_def and_then_Inr unpack)
  then show ?thesis using mexc_snapshot_sound MEXC by blast
next
  case GATE
  then obtain i t b where "be_gather env (requests a) = Inr [i, t, b]" "gate_snapshot a env i t b = Inr s"
    using assms by (auto simp: fetch_snapshot_def requests_def and_then_Inr unpack)
  then show ?thesis using gate_snapshot_sound GATE by blast
qed

text \<open>
  C18: a benchmark snapshot of any of the four exchanges is true to the responses it was read from: it
  carries the exchange and the symbol of the adapter, its best bid is the highest price of the
  bid rows of the response and its best ask the lowest price of the ask rows, whatever the order
  of the rows, the book is not crossed and the spread is their difference. So no row is ignored,
  and a response of another exchange, of another contract or with an unreadable row gives no snapshot.
\<close>

theorem benchmark_snapshot_sound:
  assumes "fetch_snapshot a env = Inr s"
  shows "\<exists>rs. be_gather env (requests a) = Inr rs \<and> snapshot_sound a rs s"
  using assms by (rule fetch_snapshot_sound)

definition sample_benchmark_adapter :: benchmark_adapter where
  "sample_benchmark_adapter = \<lparr>ba_source = BYBIT, ba_symbol = ''ABCUSDT'', ba_depth = 25, ba_base_url = ''https://api.bybit.com''\<rparr>"

definition bybit_response :: "json \<Rightarrow> json" where
  "bybit_response v = JObj [(''retCode'', JInt 0), (''result'', v)]"

definition sample_bids :: json where
  "sample_bids = JList [JList [JStr ''98'', JStr ''2''], JList [JStr ''99'', JStr ''3'']]"

definition sample_asks :: json where
  "sample_asks = JList [JList [JStr ''101'', JStr ''1'']]"

definition sample_responses :: "json list" where
  "sample_responses =
     [bybit_response (JObj [(''list'', JList [JObj [(''symbol'', JStr ''ABCUSDT''), (''contractType'', JStr ''LinearPerpetual''),
        (''status'', JStr ''Trading''), (''quoteCoin'', JStr ''USDT''), (''settleCoin'', JStr ''USDT'')]])]),
      bybit_response (JObj [(''list'', JList [JObj [(''symbol'', JStr ''ABCUSDT''), (''lastPrice'', JStr ''100'')]])]),
      bybit_response (JObj [(''s'', JStr ''ABCUSDT''), (''b'', sample_bids), (''a'', sample_asks)])]"

definition sample_benchmark_env :: benchmark_env where
  "sample_benchmark_env = \<lparr>be_gather = (\<lambda>_. Inr sample_responses), be_clock = DateTime 63903168000000000 (Some 0), be_latency_ms = 12\<rparr>"

lemma sample_books_read:
  "parse_sequence_book Bids (dec 1 0) sample_bids =
     Inr [\<lparr>bl_price = dec 99 0, bl_quantity = dec 3 0\<rparr>, \<lparr>bl_price = dec 98 0, bl_quantity = dec 2 0\<rparr>]"
  "parse_sequence_book Asks (dec 1 0) sample_asks = Inr [\<lparr>bl_price = dec 101 0, bl_quantity = dec 1 0\<rparr>]"
  by code_simp+

lemma sample_metrics:
  "calculate_book_metrics [\<lparr>bl_price = dec 99 0, bl_quantity = dec 3 0\<rparr>, \<lparr>bl_price = dec 98 0, bl_quantity = dec 2 0\<rparr>]
     [\<lparr>bl_price = dec 101 0, bl_quantity = dec 1 0\<rparr>] =
   Inr \<lparr>bm_best_bid = dec 99 0, bm_best_ask = dec 101 0, bm_spread = dec 2 0, bm_spread_bps = dec 20000 (-2),
     bm_bid_depth_quote = dec 493 0, bm_ask_depth_quote = dec 101 0\<rparr>"
  by code_simp

lemma sample_price_read: "parse_decimal ''ticker.lastPrice'' True False (JStr ''100'') = Inr (dec 100 0)"
  by code_simp

lemma sample_text_read: "require_text fld (JStr ''ABCUSDT'') = Inr ''ABCUSDT''"
proof -
  have "strip ''ABCUSDT'' = ''ABCUSDT''" by code_simp
  then show ?thesis by simp
qed

lemma sample_snapshot_built:
  "succeeds (build_snapshot sample_benchmark_adapter sample_benchmark_env
     \<lparr>bm_best_bid = dec 99 0, bm_best_ask = dec 101 0, bm_spread = dec 2 0, bm_spread_bps = dec 20000 (-2),
       bm_bid_depth_quote = dec 493 0, bm_ask_depth_quote = dec 101 0\<rparr>
     (DateTime 63903168000000000 (Some 0)) None (dec 100 0) None None None None)"
  by code_simp

lemma sample_fetched: "succeeds (fetch_snapshot sample_benchmark_adapter sample_benchmark_env)"
proof -
  have "be_gather sample_benchmark_env rs = Inr sample_responses" "ba_source sample_benchmark_adapter = BYBIT"
    "ba_symbol sample_benchmark_adapter = ''ABCUSDT''" "be_clock sample_benchmark_env = DateTime 63903168000000000 (Some 0)" for rs
    by (simp_all add: sample_benchmark_env_def sample_benchmark_adapter_def)
  then show ?thesis using sample_snapshot_built
    by (simp add: fetch_snapshot_def sample_responses_def bybit_snapshot_def single_result_item_def bybit_result_def
        bybit_response_def check_symbol_def sample_text_read sample_books_read sample_metrics sample_price_read received_at_def aware_def
        parse_epoch_ms_optional_def parse_decimal_optional_def absent_def del: require_text.simps)
qed

theorem benchmark_snapshot_sound_witness:
  "\<exists>s. fetch_snapshot sample_benchmark_adapter sample_benchmark_env = Inr s \<and>
    (\<exists>rs. be_gather sample_benchmark_env (requests sample_benchmark_adapter) = Inr rs \<and> snapshot_sound sample_benchmark_adapter rs s)"
proof -
  obtain s where "fetch_snapshot sample_benchmark_adapter sample_benchmark_env = Inr s"
    using sample_fetched by (auto simp: succeeds_iff)
  then show ?thesis using benchmark_snapshot_sound by blast
qed

text \<open>The adapters keep the contract of the runtime.\<close>

interpretation benchmark: source_adapter benchmark_load "\<lambda>a. adapter_name (ba_source a)" fetch_snapshot "\<lambda>_. AD_OK" is_ValueError
  by unfold_locales (auto simp: benchmark_load_def Let_def split: sum.splits)

end
