(* ===== verification/Kline_Adapter.thy ===== *)
theory Kline_Adapter
  imports Serialization Benchmark_Adapters
begin

text \<open>
  \<^verbatim>\<open>app/adapters/bybit_kline.py\<close>: the rows of Bybit's kline endpoint as a batch of closed candles, and
  the payload the runtime store receives. The theorems: the batch holds exactly the rows that
  are closed at the time of the fetch, in the order of their opening, and what \<open>load\<close> writes
  the store reads back as the same batch.
\<close>

record kline_adapter =
  ka_symbol :: string
  ka_interval :: candle_interval
  ka_category :: string
  ka_limit :: int
  ka_base_url :: string

text \<open>The client's answer to the one request, the clock, and the latency \<open>load\<close> measures.\<close>

record kline_env =
  ke_response :: "request \<Rightarrow> json result"
  ke_clock :: datetime
  ke_latency_ms :: int

definition BybitKlineAdapter :: "string \<Rightarrow> candle_interval \<Rightarrow> string \<Rightarrow> int \<Rightarrow> string \<Rightarrow> kline_adapter result" where
  "BybitKlineAdapter symbol interval category limit base_url =
     (let normalized_symbol = upper (strip symbol);
          normalized_category = lower (strip category);
          normalized_url = rstrip_slash base_url in
      if normalized_symbol = '''' then Inl (ValueError ''symbol is required'')
      else if normalized_category \<notin> set categories then Inl (ValueError ''unsupported Bybit kline category'')
      else if limit < 1 \<or> 1000 < limit then Inl (ValueError ''limit must be between 1 and 1000'')
      else if \<not> starts_with ''https://'' normalized_url then Inl (ValueError ''base_url must use HTTPS'')
      else Inr \<lparr>ka_symbol = normalized_symbol, ka_interval = interval, ka_category = normalized_category,
        ka_limit = limit, ka_base_url = normalized_url\<rparr>)"

definition kline_name :: "kline_adapter \<Rightarrow> string" where
  "kline_name a = ''bybit-kline-'' @ interval_label (ka_interval a)"

definition kline_request :: "kline_adapter \<Rightarrow> request" where
  "kline_request a =
     (ka_base_url a @ ''/v5/market/kline'',
      [(''category'', JStr (ka_category a)), (''symbol'', JStr (ka_symbol a)),
       (''interval'', JStr (interval_value (ka_interval a))), (''limit'', JInt (ka_limit a))])"

definition kline_now :: "datetime \<Rightarrow> datetime result" where
  "kline_now now =
     (if aware now then Inr now else Inl (ValueError ''clock must return a timezone-aware datetime''))"

text \<open>\<open>None\<close> for a row whose candle is still open when it is fetched.\<close>

definition parse_row :: "kline_adapter \<Rightarrow> datetime \<Rightarrow> json \<Rightarrow> candle option result" where
  "parse_row a fetched raw =
     (case raw of
        JList (r0 # r1 # r2 # r3 # r4 # r5 # r6 # rest) \<Rightarrow>
          and_then (parse_epoch_ms ''kline.startTime'' r0) (\<lambda>opened.
          and_then (dt_add opened (duration (ka_interval a))) (\<lambda>closed.
          and_then (dt_less fetched closed) (\<lambda>still_open.
          if still_open then Inr None
          else
          and_then (parse_decimal ''kline.openPrice'' True False r1) (\<lambda>op.
          and_then (parse_decimal ''kline.highPrice'' True False r2) (\<lambda>hi.
          and_then (parse_decimal ''kline.lowPrice'' True False r3) (\<lambda>lo.
          and_then (parse_decimal ''kline.closePrice'' True False r4) (\<lambda>cl.
          and_then (parse_decimal ''kline.volume'' False True r5) (\<lambda>vol.
          and_then (parse_decimal ''kline.turnover'' False True r6) (\<lambda>turn.
          and_then (OhlcvCandle \<lparr>cd_source = CS_BYBIT, cd_role = STRUCTURE_DATA, cd_category = ka_category a,
            cd_symbol = ka_symbol a, cd_interval = ka_interval a, open_time = opened, close_time = closed,
            open_price = Finite op, high_price = Finite hi, low_price = Finite lo, close_price = Finite cl,
            volume = Finite vol, turnover = Finite turn\<rparr>) (\<lambda>c. Inr (Some c)))))))))))
      | _ \<Rightarrow> Inl (ParserError ''kline row must contain seven values''))"

definition fetch_batch :: "kline_adapter \<Rightarrow> kline_env \<Rightarrow> candle_batch result" where
  "fetch_batch a env =
     and_then (ke_response env (kline_request a)) (\<lambda>payload.
     and_then (require_object ''kline'' payload) (\<lambda>root.
     if \<not> equals_int (get root ''retCode'') 0 then Inl (ParserError ''Bybit kline endpoint reported failure'')
     else and_then (require_object ''kline.result'' (get root ''result'')) (\<lambda>res.
     and_then (require_text ''kline.result.symbol'' (get res ''symbol'')) (\<lambda>result_symbol.
     and_then (require_text ''kline.result.category'' (get res ''category'')) (\<lambda>result_category.
     if upper result_symbol \<noteq> ka_symbol a then Inl (ParserError ''Bybit kline symbol mismatch'')
     else if lower result_category \<noteq> ka_category a then Inl (ParserError ''Bybit kline category mismatch'')
     else and_then (kline_now (ke_clock env)) (\<lambda>fetched.
     and_then (require_list ''kline.result.list'' (get res ''list'')) (\<lambda>raw_rows.
     and_then (traverse (parse_row a fetched) raw_rows) (\<lambda>parsed.
     CandleBatch \<lparr>cb_source = CS_BYBIT, cb_role = STRUCTURE_DATA, cb_category = ka_category a, cb_symbol = ka_symbol a,
       cb_interval = ka_interval a, fetched_at = fetched,
       candles = sort_key (\<lambda>c. instant (open_time c)) (somes parsed)\<rparr>))))))))"

fun freshness_value :: "candle_freshness_state \<Rightarrow> string" where
  "freshness_value CF_OK = ''OK''"
| "freshness_value CF_EMPTY = ''EMPTY''"
| "freshness_value CF_STALE = ''STALE''"
| "freshness_value CF_FUTURE = ''FUTURE''"

definition kline_fetch :: "kline_adapter \<Rightarrow> kline_env \<Rightarrow> (candle_batch \<times> candle_freshness_report) result" where
  "kline_fetch a env =
     and_then (fetch_batch a env) (\<lambda>b.
     and_then (evaluate_candle_freshness b (fetched_at b) default_freshness_rules) (\<lambda>f. Inr (b, f)))"

definition freshness_data :: "candle_freshness_report \<Rightarrow> json_object" where
  "freshness_data f =
     [(''status'', JStr (freshness_value (cf_state f))),
      (''freshness_age_seconds'', (case cf_age_seconds f of None \<Rightarrow> JNull | Some x \<Rightarrow> JFloat x)),
      (''freshness_reasons'', JList (map JStr (cf_reasons f)))]"

definition kline_load :: "kline_adapter \<Rightarrow> kline_env \<Rightarrow> json_object adapter_payload" where
  "kline_load a env =
     (case kline_fetch a env of
        Inl e \<Rightarrow> \<lparr>ap_name = kline_name a,
          ap_data = [(''source'', JStr (source_value CS_BYBIT)), (''role'', JStr (role_value STRUCTURE_DATA)),
            (''category'', JStr (ka_category a)), (''symbol'', JStr (ka_symbol a)),
            (''interval'', JStr (interval_value (ka_interval a))), (''status'', JStr ''DATA_DEGRADED''),
            (''candles'', JList [])],
          ap_health = \<lparr>ah_name = kline_name a, ah_state = (if is_ValueError e then AD_DEGRADED else AD_DOWN),
            ah_latency_ms = Some (ke_latency_ms env), ah_message = error_name e\<rparr>\<rparr>
      | Inr (b, f) \<Rightarrow> \<lparr>ap_name = kline_name a, ap_data = batch_to_payload_data b @ freshness_data f,
          ap_health = \<lparr>ah_name = kline_name a, ah_state = (if cf_state f = CF_OK then AD_OK else AD_DEGRADED),
            ah_latency_ms = Some (ke_latency_ms env), ah_message = join '','' (cf_reasons f)\<rparr>\<rparr>)"

section \<open>What the adapter delivers\<close>

interpretation kline: source_adapter kline_load kline_name kline_fetch
  "\<lambda>(b, f). if cf_state f = CF_OK then AD_OK else AD_DEGRADED" is_ValueError
  by unfold_locales (auto simp: kline_load_def split: sum.splits)

lemma parse_row_Some:
  assumes "parse_row a fetched raw = Inr (Some c)"
  shows "candle_ok c" "dt_less fetched (close_time c) = Inr False"
proof -
  obtain r1 r2 r3 r4 r5 r6 opened closed op hi lo cl vol turn s r k y i r0 where
    t: "parse_epoch_ms ''kline.startTime'' r0 = Inr opened" "dt_add opened (duration (ka_interval a)) = Inr closed"
      "dt_less fetched closed = Inr False"
    and d: "parse_decimal ''kline.openPrice'' True False r1 = Inr op" "parse_decimal ''kline.highPrice'' True False r2 = Inr hi"
      "parse_decimal ''kline.lowPrice'' True False r3 = Inr lo" "parse_decimal ''kline.closePrice'' True False r4 = Inr cl"
      "parse_decimal ''kline.volume'' False True r5 = Inr vol" "parse_decimal ''kline.turnover'' False True r6 = Inr turn"
    and c: "OhlcvCandle \<lparr>cd_source = s, cd_role = r, cd_category = k, cd_symbol = y, cd_interval = i, open_time = opened,
      close_time = closed, open_price = Finite op, high_price = Finite hi, low_price = Finite lo, close_price = Finite cl,
      volume = Finite vol, turnover = Finite turn\<rparr> = Inr c"
    using assms by (auto simp: parse_row_def and_then_Inr split: json.splits list.splits if_splits)
  have args: "candle_wf c" "open_time c = opened" "close_time c = closed" "open_price c = op" "high_price c = hi"
    "low_price c = lo" "close_price c = cl" "volume c = vol" "turnover c = turn"
    using c by (auto simp: OhlcvCandle_Inr candle_args_def)
  have "time_wf opened" using t(1) parse_epoch_ms_laws by blast
  then have "time_wf closed" using t(2) by (auto simp: time_wf_def dt_add_Inr)
  then show "candle_ok c" using args d parse_decimal_wf \<open>time_wf opened\<close> by (auto simp: candle_ok_def)
  show "dt_less fetched (close_time c) = Inr False" using args t(3) by simp
qed

definition kline_rows :: "json \<Rightarrow> json list" where
  "kline_rows payload = items (sub ''list'' (sub ''result'' payload))"

text \<open>A row whose candle closes after \<open>now\<close>.\<close>

definition row_still_open :: "kline_adapter \<Rightarrow> datetime \<Rightarrow> json \<Rightarrow> bool" where
  "row_still_open a now row \<longleftrightarrow>
     (case items row of
        [] \<Rightarrow> False
      | r0 # rest \<Rightarrow>
          (case parse_epoch_ms ''kline.startTime'' r0 of
             Inl e \<Rightarrow> False
           | Inr opened \<Rightarrow> instant now < instant opened + duration (ka_interval a)))"

lemma parse_row_None:
  assumes "parse_row a now row = Inr r"
  shows "r = None \<longleftrightarrow> row_still_open a now row"
  using assms
  by (auto simp: parse_row_def row_still_open_def and_then_Inr dt_less_value dt_add_instant split: json.splits list.splits if_splits)

lemma fetch_batch_Inr:
  assumes "fetch_batch a env = Inr b"
  shows "batch_wf b" "\<forall>c \<in> set (candles b). candle_ok c" "fetched_at b = ke_clock env"
    "\<exists>payload parsed. ke_response env (kline_request a) = Inr payload \<and>
       traverse (parse_row a (ke_clock env)) (kline_rows payload) = Inr parsed \<and> set (candles b) = {c. Some c \<in> set parsed}"
proof -
  obtain payload root res rows parsed fetched where
    q: "ke_response env (kline_request a) = Inr payload" "require_object ''kline'' payload = Inr root"
      "require_object ''kline.result'' (get root ''result'') = Inr res" "require_list ''kline.result.list'' (get res ''list'') = Inr rows"
    and p: "kline_now (ke_clock env) = Inr fetched" "traverse (parse_row a fetched) rows = Inr parsed"
    "CandleBatch \<lparr>cb_source = CS_BYBIT, cb_role = STRUCTURE_DATA, cb_category = ka_category a, cb_symbol = ka_symbol a,
       cb_interval = ka_interval a, fetched_at = fetched,
       candles = sort_key (\<lambda>c. instant (open_time c)) (somes parsed)\<rparr> = Inr b"
    using assms unfolding fetch_batch_def and_then_Inr if_Inl_eq_Inr by blast
  have f: "fetched = ke_clock env" using p(1) by (simp add: kline_now_def split: if_splits)
  have "payload = JObj root" using q(2) by (cases payload) auto
  moreover have "get root ''result'' = JObj res" using q(3) by (cases "get root ''result''") auto
  moreover have "get res ''list'' = JList rows" using q(4) by (cases "get res ''list''") auto
  ultimately have rows: "kline_rows payload = rows" by (simp add: kline_rows_def sub_def)
  have b: "batch_wf b" "candles b = sort_key (\<lambda>c. instant (open_time c)) (somes parsed)" "fetched_at b = fetched"
    using p(3) by (auto simp: CandleBatch_Inr)
  have set: "set (candles b) = {c. Some c \<in> set parsed}" unfolding b(2) by (auto simp: set_somes)
  show "batch_wf b" "fetched_at b = ke_clock env" using b f by auto
  show "\<forall>c \<in> set (candles b). candle_ok c"
    unfolding set using traverse_Inr_set [OF p(2)] parse_row_Some(1) by blast
  show "\<exists>payload parsed. ke_response env (kline_request a) = Inr payload \<and>
       traverse (parse_row a (ke_clock env)) (kline_rows payload) = Inr parsed \<and> set (candles b) = {c. Some c \<in> set parsed}"
    using p(2) q(1) set rows unfolding f by blast
qed

lemma kline_fetch_Inr:
  assumes "fetch_batch a env = Inr b"
  shows "\<exists>f. kline_fetch a env = Inr (b, f)"
  using fetch_batch_Inr(1) [OF assms] assms
  by (auto simp: kline_fetch_def evaluate_candle_freshness_def batch_wf_def Let_def split: option.split)

text \<open>
  C17: from exchange to store: the candles the kline adapter fetches are exactly those of the
  response's rows that are closed at the time of the fetch, in a well-formed batch; and whatever
  the freshness verdict adds to it, the payload that \<open>load\<close> writes is read by the runtime store as that same batch.
\<close>

theorem kline_store_round_trip:
  assumes "fetch_batch a env = Inr b" "time_wf (ke_clock env)"
  shows "batch_from_payload_data (ap_data (kline_load a env)) = Inr b \<and> batch_wf b \<and> fetched_at b = ke_clock env \<and>
    (\<exists>payload. ke_response env (kline_request a) = Inr payload \<and>
      (\<forall>row \<in> set (kline_rows payload).
        if row_still_open a (ke_clock env) row then parse_row a (ke_clock env) row = Inr None
        else \<exists>c \<in> set (candles b). parse_row a (ke_clock env) row = Inr (Some c)) \<and>
      (\<forall>c \<in> set (candles b). \<exists>row \<in> set (kline_rows payload). parse_row a (ke_clock env) row = Inr (Some c)))"
proof -
  note b = fetch_batch_Inr [OF assms(1)]
  obtain payload parsed where p: "ke_response env (kline_request a) = Inr payload"
    "traverse (parse_row a (ke_clock env)) (kline_rows payload) = Inr parsed" "set (candles b) = {c. Some c \<in> set parsed}"
    using b(4) by blast
  have row: "if row_still_open a (ke_clock env) row then parse_row a (ke_clock env) row = Inr None
      else \<exists>c \<in> set (candles b). parse_row a (ke_clock env) row = Inr (Some c)" if in_rows: "row \<in> set (kline_rows payload)" for row
  proof -
    obtain r where r: "r \<in> set parsed" "parse_row a (ke_clock env) row = Inr r" using traverse_Inr_all [OF p(2) in_rows] by blast
    then show ?thesis using parse_row_None [OF r(2)] p(3) by (cases r) auto
  qed
  have cand: "\<exists>row \<in> set (kline_rows payload). parse_row a (ke_clock env) row = Inr (Some c)" if "c \<in> set (candles b)" for c
    using traverse_Inr_set [OF p(2)] that p(3) by blast
  obtain f where "kline_fetch a env = Inr (b, f)" using kline_fetch_Inr [OF assms(1)] by blast
  moreover have "batch_ok b" using b assms(2) by (simp add: batch_ok_def)
  ultimately have "batch_from_payload_data (ap_data (kline_load a env)) = Inr b"
    using batch_round_trip by (simp add: kline_load_def)
  then show ?thesis using b(1,3) p(1) row cand by blast
qed

definition sample_kline_adapter :: kline_adapter where
  "sample_kline_adapter = \<lparr>ka_symbol = ''ABCUSDT'', ka_interval = H4, ka_category = ''linear'', ka_limit = 2,
     ka_base_url = ''https://api.bybit.com''\<rparr>"

definition sample_row :: "string \<Rightarrow> json" where
  "sample_row start = JList (map JStr [start, ''100'', ''101'', ''99'', ''100'', ''10'', ''1000''])"

definition sample_kline_clock :: datetime where
  "sample_kline_clock = DateTime (63871286400000000 + 5 * 60 * minute_us) (Some 0)"

definition sample_kline_env :: kline_env where
  "sample_kline_env = \<lparr>ke_response = (\<lambda>_. Inr (JObj [(''retCode'', JInt 0), (''result'', JObj
       [(''symbol'', JStr ''ABCUSDT''), (''category'', JStr ''linear''),
        (''list'', JList [sample_row ''1735704000000'', sample_row ''1735689600000''])])])),
     ke_clock = sample_kline_clock, ke_latency_ms = 7\<rparr>"

definition sample_kline_candle :: candle where
  "sample_kline_candle = \<lparr>cd_source = CS_BYBIT, cd_role = STRUCTURE_DATA, cd_category = ''linear'', cd_symbol = ''ABCUSDT'',
     cd_interval = H4, open_time = DateTime 63871286400000000 (Some 0),
     close_time = DateTime (63871286400000000 + 4 * 60 * minute_us) (Some 0),
     open_price = dec 100 0, high_price = dec 101 0, low_price = dec 99 0, close_price = dec 100 0,
     volume = dec 10 0, turnover = dec 1000 0\<rparr>"

lemma whole_seconds_read:
  assumes "int_text s = Some (1000 * n)" "0 < n" "n < 10 ^ 10"
  shows "parse_epoch_ms fld (JStr s) = Inr (DateTime (epoch_us + n * second_us) (Some 0))"
proof -
  have "f64_round (of_int n) = of_int n" using f64_round_exact [of n 0] assms(2,3) by simp
  moreover have "\<not> f64_max \<le> of_int n" using assms(2,3) by (simp add: f64_max_def not_le)
  ultimately have "to_float (of_int n) = Fl (of_int n)" using assms(2) by (simp add: to_float_def)
  moreover have "to_float 0 = Fl 0" by (simp add: to_float_def f64_max_def)
  moreover have "round_half_even 0 = 0" using round_half_even_of_int [of 0] by simp
  ultimately show ?thesis using assms
    by (simp add: parse_epoch_ms_def int_truediv_def trunc_int_def epoch_us_def second_us_def max_us_def day_us_def Let_def)
qed

lemma sample_epochs_read:
  "parse_epoch_ms ''kline.startTime'' (JStr ''1735704000000'') = Inr (DateTime 63871300800000000 (Some 0))"
  "parse_epoch_ms ''kline.startTime'' (JStr ''1735689600000'') = Inr (DateTime 63871286400000000 (Some 0))"
proof -
  have "int_text ''1735704000000'' = Some (1000 * 1735704000)" "int_text ''1735689600000'' = Some (1000 * 1735689600)"
    by code_simp+
  then show "parse_epoch_ms ''kline.startTime'' (JStr ''1735704000000'') = Inr (DateTime 63871300800000000 (Some 0))"
    "parse_epoch_ms ''kline.startTime'' (JStr ''1735689600000'') = Inr (DateTime 63871286400000000 (Some 0))"
    using whole_seconds_read by (simp_all add: epoch_us_def day_us_def second_us_def)
qed

lemma sample_numbers_read:
  "decimal_of_json (JStr ''100'') = Inr (Finite (dec 100 0))" "decimal_of_json (JStr ''101'') = Inr (Finite (dec 101 0))"
  "decimal_of_json (JStr ''99'') = Inr (Finite (dec 99 0))" "decimal_of_json (JStr ''10'') = Inr (Finite (dec 10 0))"
  "decimal_of_json (JStr ''1000'') = Inr (Finite (dec 1000 0))"
  by code_simp+

lemma sample_rows_read:
  "parse_row sample_kline_adapter sample_kline_clock (sample_row ''1735704000000'') = Inr None"
  "parse_row sample_kline_adapter sample_kline_clock (sample_row ''1735689600000'') = Inr (Some sample_kline_candle)"
proof -
  have a: "ka_symbol sample_kline_adapter = ''ABCUSDT''" "ka_category sample_kline_adapter = ''linear''"
    "ka_interval sample_kline_adapter = H4" by (simp_all add: sample_kline_adapter_def)
  have "OhlcvCandle (candle_args sample_kline_candle) = Inr sample_kline_candle" by code_simp
  then show "parse_row sample_kline_adapter sample_kline_clock (sample_row ''1735704000000'') = Inr None"
    "parse_row sample_kline_adapter sample_kline_clock (sample_row ''1735689600000'') = Inr (Some sample_kline_candle)"
    by (simp_all add: parse_row_def sample_row_def sample_epochs_read parse_decimal_def sample_numbers_read a dt_add_def
        dt_less_def sample_kline_clock_def minute_us_def max_us_def day_us_def aware_def instant_def Let_def
        candle_args_def sample_kline_candle_def)
qed

definition sample_kline_batch :: candle_batch where
  "sample_kline_batch = \<lparr>cb_source = CS_BYBIT, cb_role = STRUCTURE_DATA, cb_category = ''linear'', cb_symbol = ''ABCUSDT'',
     cb_interval = H4, fetched_at = sample_kline_clock, candles = [sample_kline_candle]\<rparr>"

lemma sample_kline_built: "CandleBatch sample_kline_batch = Inr sample_kline_batch"
  by code_simp

lemma sample_kline_fetched: "fetch_batch sample_kline_adapter sample_kline_env = Inr sample_kline_batch"
proof -
  have texts: "strip ''ABCUSDT'' = ''ABCUSDT''" "strip ''linear'' = ''linear''" "upper ''ABCUSDT'' = ''ABCUSDT''"
    "lower ''linear'' = ''linear''" "aware sample_kline_clock" by code_simp+
  have a: "ka_symbol sample_kline_adapter = ''ABCUSDT''" "ka_category sample_kline_adapter = ''linear''"
    "ka_interval sample_kline_adapter = H4" by (simp_all add: sample_kline_adapter_def)
  show ?thesis using sample_kline_built
    by (simp add: fetch_batch_def sample_kline_env_def texts a sample_rows_read kline_now_def sample_kline_batch_def)
qed

theorem kline_store_round_trip_witness:
  "batch_from_payload_data (ap_data (kline_load sample_kline_adapter sample_kline_env)) = Inr sample_kline_batch"
proof -
  have "time_wf (ke_clock sample_kline_env)"
    by (simp add: sample_kline_env_def sample_kline_clock_def time_wf_def minute_us_def max_us_def day_us_def)
  then show ?thesis using kline_store_round_trip [OF sample_kline_fetched] by blast
qed

end
