(* ===== verification/Runtime_Store.thy ===== *)
theory Runtime_Store
  imports Json_Safe Reclaim_Runtime Scheduler Kline_Adapter
begin

text \<open>
  \<^verbatim>\<open>app/runtime/store.py\<close>, \<^verbatim>\<open>app/db/repository.py\<close> and the persistence of reclaim evidence
  (\<^verbatim>\<open>app/setups/runtime_analysis.py\<close>, \<^verbatim>\<open>runtime_m15.py\<close>, \<^verbatim>\<open>runtime_records.py\<close>, \<^verbatim>\<open>atomic_runtime_store.py\<close>): what the worker stores of a
  payload. A structure payload goes through the whole chain: candles, zones and events, the reclaim
  attempt, and three domain records. All of it is one transaction: an exception leaves the
  database as it was, which is the result \<open>Inl\<close>. The operations of the session and the outcome
  of the commit are parameters.
\<close>

section \<open>Tables and sessions\<close>

record domain_record =
  dm_record_type :: string
  dm_symbol :: string
  dm_state :: string
  dm_payload :: json_object
  dm_expires_at :: "datetime option"

record ('c, 'z, 'e, 'a, 'd) tables =
  tb_candles :: 'c
  tb_zones :: 'z
  tb_events :: 'e
  tb_attempts :: 'a
  tb_records :: 'd

record ('c, 'z, 'e, 'a, 'd) session_api =
  sa_fetch_candle :: "'c \<Rightarrow> candle_key \<Rightarrow> candle_row option"
  sa_save_candle :: "'c \<Rightarrow> candle_key \<Rightarrow> candle_row \<Rightarrow> 'c"
  sa_newest_candles :: "'c \<Rightarrow> string \<Rightarrow> string \<Rightarrow> string \<Rightarrow> nat \<Rightarrow> candle_row list"
  sa_fetch_zone :: "'z \<Rightarrow> string \<Rightarrow> zone_row option"
  sa_save_zone :: "'z \<Rightarrow> string \<Rightarrow> zone_row \<Rightarrow> 'z"
  sa_fetch_event :: "'e \<Rightarrow> string \<Rightarrow> event_row option"
  sa_save_event :: "'e \<Rightarrow> string \<Rightarrow> event_row \<Rightarrow> 'e"
  sa_scalar_event :: "'e \<Rightarrow> (event_row \<Rightarrow> bool) \<Rightarrow> (event_row \<Rightarrow> event_row \<Rightarrow> bool) \<Rightarrow> event_row option"
  sa_collate :: "string \<Rightarrow> string \<Rightarrow> bool"
  sa_fetch_attempt :: "'a \<Rightarrow> string \<Rightarrow> attempt_row option"
  sa_save_attempt :: "'a \<Rightarrow> string \<Rightarrow> attempt_row \<Rightarrow> 'a"
  sa_add_record :: "'d \<Rightarrow> domain_record \<Rightarrow> 'd"
  sa_newest_records :: "'d \<Rightarrow> string \<Rightarrow> nat \<Rightarrow> domain_record list"
  sa_commit :: "unit result"

section \<open>Domain records\<close>

definition add_record :: "('d \<Rightarrow> domain_record \<Rightarrow> 'd) \<Rightarrow> domain_record \<Rightarrow> 'd \<Rightarrow> 'd result" where
  "add_record add_row item db =
     (let record_type = strip (dm_record_type item); symbol = strip (dm_symbol item); state = strip (dm_state item) in
      if record_type = '''' \<or> symbol = '''' \<or> state = ''''
        then Inl (ValueError ''record_type, symbol, and state are required'')
      else Inr (add_row db (item\<lparr>dm_record_type := record_type, dm_symbol := symbol, dm_state := state\<rparr>)))"

definition list_by_type ::
  "('d \<Rightarrow> string \<Rightarrow> nat \<Rightarrow> domain_record list) \<Rightarrow> string \<Rightarrow> int \<Rightarrow> 'd \<Rightarrow> domain_record list result" where
  "list_by_type newest record_type limit db =
     (let normalized_type = strip record_type in
      if normalized_type = '''' then Inl (ValueError ''record_type is required'')
      else if limit < 1 \<or> 500 < limit then Inl (ValueError ''limit must be between 1 and 500'')
      else Inr (newest db normalized_type (nat limit)))"

fun job_kind_value :: "job_kind \<Rightarrow> string" where
  "job_kind_value JK_EXECUTION = ''EXECUTION''"
| "job_kind_value JK_BENCHMARK = ''BENCHMARK''"
| "job_kind_value JK_STRUCTURE = ''STRUCTURE''"
| "job_kind_value JK_DISCOVERY = ''DISCOVERY''"

definition payload_symbol :: "json_object \<Rightarrow> string \<Rightarrow> string option" where
  "payload_symbol data fld =
     (case get data fld of JStr raw \<Rightarrow> if strip raw = '''' then None else Some (strip raw) | _ \<Rightarrow> None)"

definition record_symbol :: "source_job \<Rightarrow> json_object adapter_payload option \<Rightarrow> string" where
  "record_symbol j payload =
     (case payload of None \<Rightarrow> sj_name j
      | Some p \<Rightarrow> (case payload_symbol (ap_data p) ''symbol'' of Some s \<Rightarrow> s
          | None \<Rightarrow> (case payload_symbol (ap_data p) ''query'' of Some s \<Rightarrow> s | None \<Rightarrow> sj_name j)))"

definition payload_record_type :: "source_job \<Rightarrow> json_object adapter_payload \<Rightarrow> string" where
  "payload_record_type j p =
     (if ah_state (ap_health p) = AD_OK then lower (job_kind_value (sj_kind j)) @ ''_snapshot'' else ''source_diagnostic'')"

definition health_payload :: "source_job \<Rightarrow> json_object adapter_payload \<Rightarrow> run_outcome \<Rightarrow> py_dict" where
  "health_payload j p out =
     [(''job_name'', PStr (sj_name j)), (''adapter_name'', PStr (ah_name (ap_health p))), (''kind'', PStr (job_kind_value (sj_kind j))),
      (''latency_ms'', py_optional PInt (ah_latency_ms (ap_health p))), (''message'', PStr (ah_message (ap_health p))),
      (''observed_at'', PDatetime (ro_finished_at out))]"

definition run_payload :: "source_job \<Rightarrow> string \<Rightarrow> adapter_state \<Rightarrow> run_outcome \<Rightarrow> py_dict" where
  "run_payload j adapter state out =
     [(''job_name'', PStr (sj_name j)), (''adapter_name'', PStr adapter), (''kind'', PStr (job_kind_value (sj_kind j))),
      (''started_at'', PDatetime (ro_started_at out)), (''finished_at'', PDatetime (ro_finished_at out)),
      (''duration_ms'', PInt (duration_ms out)), (''adapter_state'', PStr (adapter_state_value state)),
      (''message'', PStr (ro_message out))]"

text \<open>One \<open>repository.add(DomainRecordInput(..., payload=json_safe(...)))\<close>.\<close>

definition add_safe :: "('d \<Rightarrow> domain_record \<Rightarrow> 'd) \<Rightarrow> string \<Rightarrow> string \<Rightarrow> string \<Rightarrow> py_dict \<Rightarrow> 'd \<Rightarrow> 'd result" where
  "add_safe add_row record_type symbol state payload db =
     and_then (json_safe_fields payload) (\<lambda>safe.
     add_record add_row \<lparr>dm_record_type = record_type, dm_symbol = symbol, dm_state = state, dm_payload = safe,
       dm_expires_at = None\<rparr> db)"

section \<open>Reclaim evidence\<close>

definition persist_reclaim_from_structure ::
  "('c, 'z, 'e, 'a, 'd) session_api \<Rightarrow> candle_batch \<Rightarrow> htf_analysis \<Rightarrow> 'a \<Rightarrow> ('a \<times> (attempt \<times> upsert_result) option) result" where
  "persist_reclaim_from_structure api b analysis db =
     and_then (derive_reclaim_from_structure b analysis) (\<lambda>derived.
     case derived of None \<Rightarrow> Inr (db, None)
     | Some a \<Rightarrow> and_then (upsert_attempt (sa_fetch_attempt api) (sa_save_attempt api) a db) (\<lambda>(db', n).
         Inr (db', Some (a, n))))"

definition confirmed_break_row :: "candle_batch \<Rightarrow> event_row \<Rightarrow> bool" where
  "confirmed_break_row b r \<longleftrightarrow>
     er_source r = source_value (cb_source b) \<and> er_symbol r = cb_symbol b \<and> er_interval r = interval_value H4 \<and>
     er_state r = event_state_value CONFIRMED_BREAK"

definition persist_reclaim_from_confirmation ::
  "('c, 'z, 'e, 'a, 'd) session_api \<Rightarrow> candle_batch \<Rightarrow> ('c, 'z, 'e, 'a, 'd) tables \<Rightarrow>
     (('c, 'z, 'e, 'a, 'd) tables \<times> (attempt \<times> upsert_result) option) result" where
  "persist_reclaim_from_confirmation api b t =
     (if cb_interval b \<noteq> M15 then Inr (t, None)
      else case sa_scalar_event api (tb_events t) (confirmed_break_row b) (newer_event (sa_collate api)) of
        None \<Rightarrow> Inr (t, None)
      | Some er \<Rightarrow>
          (case sa_fetch_zone api (tb_zones t) (er_zone_id er) of
            None \<Rightarrow> Inl (ValueError ''confirmed 4H break is missing its support zone'')
          | Some zr \<Rightarrow>
              and_then (event_from_record er) (\<lambda>e.
              and_then (zone_from_record zr) (\<lambda>z.
              and_then (list_recent (sa_newest_candles api) (cb_source b) (cb_symbol b) H4 500 (tb_candles t)) (\<lambda>h4_candles.
              case find (\<lambda>c. instant (open_time c) = instant (se_open_time e)) h4_candles of
                None \<Rightarrow> Inl (ValueError ''confirmed 4H break is missing its persisted candle'')
              | Some break_candle \<Rightarrow>
                  and_then (analyze_reclaim_attempt default_reclaim_rules z e break_candle (candles b)) (\<lambda>a.
                  and_then (upsert_attempt (sa_fetch_attempt api) (sa_save_attempt api) a (tb_attempts t)) (\<lambda>(db', n).
                  Inr (t\<lparr>tb_attempts := db'\<rparr>, Some (a, n)))))))))"

section \<open>Payloads\<close>

definition py_counts :: "upsert_result \<Rightarrow> py_dict" where
  "py_counts n =
     [(''inserted'', PInt (int (ur_inserted n))), (''updated'', PInt (int (ur_updated n))), (''unchanged'', PInt (int (ur_unchanged n)))]"

definition py_reclaim :: "(attempt \<times> upsert_result) option \<Rightarrow> py_dict" where
  "py_reclaim r =
     (case r of None \<Rightarrow> []
      | Some (a, n) \<Rightarrow> [(''reclaim_analysis'', py_attempt a), (''reclaim_upsert'', PDict (py_counts n))])"

definition py_structure_counts :: "structure_upsert_result \<Rightarrow> py_dict" where
  "py_structure_counts n =
     [(''zones_inserted'', PInt (int (ur_inserted (zone_counts n)))), (''zones_updated'', PInt (int (ur_updated (zone_counts n)))),
      (''zones_unchanged'', PInt (int (ur_unchanged (zone_counts n)))),
      (''events_inserted'', PInt (int (ur_inserted (event_counts n)))), (''events_updated'', PInt (int (ur_updated (event_counts n)))),
      (''events_unchanged'', PInt (int (ur_unchanged (event_counts n))))]"

definition empty_structure :: error where
  "empty_structure = ValueError ''OK structure payload must contain closed candles''"

text \<open>What the branch of \<open>persist_payload\<close> for an OK structure payload adds to the source payload.\<close>

definition structure_fields ::
  "upsert_result \<Rightarrow> htf_analysis \<Rightarrow> structure_upsert_result \<Rightarrow> (attempt \<times> upsert_result) option \<Rightarrow> py_dict" where
  "structure_fields cn analysis sn reclaim =
     [(''candle_upsert'', PDict (py_counts cn @ [(''total'', PInt (int (ur_total cn)))])), (''htf_analysis'', py_analysis analysis),
      (''structure_upsert'', PDict (py_structure_counts sn))] @ py_reclaim reclaim"


definition persist_structure ::
  "('c, 'z, 'e, 'a, 'd) session_api \<Rightarrow> json_object \<Rightarrow> ('c, 'z, 'e, 'a, 'd) tables \<Rightarrow>
     (('c, 'z, 'e, 'a, 'd) tables \<times> py_dict) result" where
  "persist_structure api data t =
     and_then (batch_from_payload_data data) (\<lambda>b.
     if candles b = [] then Inl empty_structure
     else let (cdb, cn) = upsert_batch (sa_fetch_candle api) (sa_save_candle api) b (tb_candles t) in
     and_then (analyze_higher_timeframe default_zone_rules default_event_rules b) (\<lambda>analysis.
     let ((zdb, edb), sn) = upsert_analysis (sa_fetch_zone api) (sa_save_zone api) (sa_fetch_event api) (sa_save_event api)
           analysis (tb_zones t, tb_events t) in
     and_then (persist_reclaim_from_structure api b analysis (tb_attempts t)) (\<lambda>(adb, reclaim).
     Inr (t\<lparr>tb_candles := cdb, tb_zones := zdb, tb_events := edb, tb_attempts := adb\<rparr>,
       structure_fields cn analysis sn reclaim))))"

definition source_payload :: "source_job \<Rightarrow> json_object adapter_payload \<Rightarrow> py_dict" where
  "source_payload j p =
     [(''job_name'', PStr (sj_name j)), (''adapter_name'', PStr (ap_name p)), (''kind'', PStr (job_kind_value (sj_kind j))),
      (''data'', py_of_json (JObj (ap_data p)))]"

text \<open>
  The three records, as \<open>persist_payload\<close> of the base class adds them one by one.
\<close>

definition add_run_records ::
  "('d \<Rightarrow> domain_record \<Rightarrow> 'd) \<Rightarrow> source_job \<Rightarrow> json_object adapter_payload \<Rightarrow> run_outcome \<Rightarrow> py_dict \<Rightarrow> 'd \<Rightarrow> 'd result" where
  "add_run_records add_row j p out payload db =
     (let symbol = record_symbol j (Some p); state = adapter_state_value (ah_state (ap_health p)) in
      and_then (add_safe add_row (payload_record_type j p) symbol state payload db) (\<lambda>db1.
      and_then (add_safe add_row ''source_health'' symbol state (health_payload j p out) db1) (\<lambda>db2.
      add_safe add_row ''worker_run'' symbol (run_status_value (ro_status out))
        (run_payload j (ap_name p) (ah_state (ap_health p)) out) db2)))"

definition store_payload ::
  "('c, 'z, 'e, 'a, 'd) session_api \<Rightarrow> source_job \<Rightarrow> json_object adapter_payload \<Rightarrow> run_outcome \<Rightarrow>
     ('c, 'z, 'e, 'a, 'd) tables \<Rightarrow> ('c, 'z, 'e, 'a, 'd) tables result" where
  "store_payload api j p out t =
     and_then (if sj_kind j = JK_STRUCTURE \<and> ah_state (ap_health p) = AD_OK then persist_structure api (ap_data p) t
               else Inr (t, [])) (\<lambda>(t1, extra).
     and_then (add_run_records (sa_add_record api) j p out (source_payload j p @ extra) (tb_records t1)) (\<lambda>records.
     and_then (sa_commit api) (\<lambda>_. Inr (t1\<lparr>tb_records := records\<rparr>))))"

definition store_failure ::
  "('c, 'z, 'e, 'a, 'd) session_api \<Rightarrow> source_job \<Rightarrow> run_outcome \<Rightarrow> ('c, 'z, 'e, 'a, 'd) tables \<Rightarrow>
     ('c, 'z, 'e, 'a, 'd) tables result" where
  "store_failure api j out t =
     (let symbol = record_symbol j None in
      and_then (add_safe (sa_add_record api) ''source_health'' symbol (adapter_state_value AD_DOWN)
        [(''job_name'', PStr (sj_name j)), (''adapter_name'', PStr (sj_adapter_name j)), (''kind'', PStr (job_kind_value (sj_kind j))),
         (''message'', PStr (ro_message out)), (''observed_at'', PDatetime (ro_finished_at out))] (tb_records t)) (\<lambda>db1.
      and_then (add_safe (sa_add_record api) ''worker_run'' symbol (run_status_value (ro_status out))
        (run_payload j (sj_adapter_name j) AD_DOWN out) db1) (\<lambda>db2.
      and_then (sa_commit api) (\<lambda>_. Inr (t\<lparr>tb_records := db2\<rparr>)))))"

section \<open>The confirmation store\<close>

text \<open>
  \<open>add_runtime_records\<close> builds all three inputs, and so checks all three payloads, before it adds the
  first.
\<close>

definition add_runtime_records ::
  "('d \<Rightarrow> domain_record \<Rightarrow> 'd) \<Rightarrow> source_job \<Rightarrow> json_object adapter_payload \<Rightarrow> run_outcome \<Rightarrow> py_dict \<Rightarrow> 'd \<Rightarrow> 'd result" where
  "add_runtime_records add_row j p out payload db =
     (let symbol = record_symbol j (Some p); state = adapter_state_value (ah_state (ap_health p)) in
      and_then (json_safe_fields payload) (\<lambda>source.
      and_then (json_safe_fields (health_payload j p out)) (\<lambda>health.
      and_then (json_safe_fields (run_payload j (ap_name p) (ah_state (ap_health p)) out)) (\<lambda>run.
      and_then (add_record add_row \<lparr>dm_record_type = payload_record_type j p, dm_symbol = symbol, dm_state = state,
        dm_payload = source, dm_expires_at = None\<rparr> db) (\<lambda>db1.
      and_then (add_record add_row \<lparr>dm_record_type = ''source_health'', dm_symbol = symbol, dm_state = state,
        dm_payload = health, dm_expires_at = None\<rparr> db1) (\<lambda>db2.
      add_record add_row \<lparr>dm_record_type = ''worker_run'', dm_symbol = symbol, dm_state = run_status_value (ro_status out),
        dm_payload = run, dm_expires_at = None\<rparr> db2))))))"

definition confirmation_fields :: "json_object adapter_payload \<Rightarrow> upsert_result \<Rightarrow> (attempt \<times> upsert_result) option \<Rightarrow> py_dict" where
  "confirmation_fields p cn reclaim =
     [(''job_name'', PStr (ap_name p)), (''adapter_name'', PStr (ap_name p)), (''data'', py_of_json (JObj (ap_data p))),
      (''candle_upsert'', PDict (py_counts cn @ [(''total'', PInt (int (ur_total cn)))]))] @ py_reclaim reclaim"

definition persist_m15_confirmation ::
  "('c, 'z, 'e, 'a, 'd) session_api \<Rightarrow> json_object adapter_payload \<Rightarrow> ('c, 'z, 'e, 'a, 'd) tables \<Rightarrow>
     (('c, 'z, 'e, 'a, 'd) tables \<times> py_dict) result" where
  "persist_m15_confirmation api p t =
     and_then (batch_from_payload_data (ap_data p)) (\<lambda>b.
     if cb_interval b \<noteq> M15 then Inl (ValueError ''15m confirmation handler requires M15 candles'')
     else if candles b = [] then Inl empty_structure
     else let (cdb, cn) = upsert_batch (sa_fetch_candle api) (sa_save_candle api) b (tb_candles t) in
     and_then (persist_reclaim_from_confirmation api b (t\<lparr>tb_candles := cdb\<rparr>)) (\<lambda>(t1, reclaim).
     Inr (t1, confirmation_fields p cn reclaim)))"

text \<open>\<open>d[key] = value\<close> keeps the place of a key that is there.\<close>

fun dict_set :: "string \<Rightarrow> pyvalue \<Rightarrow> py_dict \<Rightarrow> py_dict" where
  "dict_set k v [] = [(k, v)]"
| "dict_set k v ((k', w) # d) = (if k' = k then (k, v) # d else (k', w) # dict_set k v d)"

definition atomic_store_payload ::
  "('c, 'z, 'e, 'a, 'd) session_api \<Rightarrow> source_job \<Rightarrow> json_object adapter_payload \<Rightarrow> run_outcome \<Rightarrow>
     ('c, 'z, 'e, 'a, 'd) tables \<Rightarrow> ('c, 'z, 'e, 'a, 'd) tables result" where
  "atomic_store_payload api j p out t =
     (if \<not> (sj_kind j = JK_STRUCTURE \<and> ah_state (ap_health p) = AD_OK) then store_payload api j p out t
      else and_then (batch_from_payload_data (ap_data p)) (\<lambda>b.
      if cb_interval b \<noteq> M15 then store_payload api j p out t
      else and_then (persist_m15_confirmation api p t) (\<lambda>(t1, payload).
      and_then (add_runtime_records (sa_add_record api) j p out
        (dict_set ''kind'' (PStr (job_kind_value (sj_kind j))) (dict_set ''adapter_name'' (PStr (ap_name p))
          (dict_set ''job_name'' (PStr (sj_name j)) payload))) (tb_records t1)) (\<lambda>records.
      and_then (sa_commit api) (\<lambda>_. Inr (t1\<lparr>tb_records := records\<rparr>))))))"


section \<open>When the records are accepted\<close>

lemma add_record_succeeds:
  "succeeds (add_record add_row item db) \<longleftrightarrow>
     strip (dm_record_type item) \<noteq> '''' \<and> strip (dm_symbol item) \<noteq> '''' \<and> strip (dm_state item) \<noteq> ''''"
  by (simp add: add_record_def Let_def)

lemma add_safe_succeeds:
  "succeeds (add_safe add_row ty name st payload db) \<longleftrightarrow>
     (\<forall>f \<in> set payload. storable (snd f)) \<and> strip ty \<noteq> '''' \<and> strip name \<noteq> '''' \<and> strip st \<noteq> ''''"
  unfolding add_safe_def succeeds_and_then add_record_succeeds json_safe_iff(3) [symmetric] succeeds_iff [of "json_safe_fields payload"]
  by auto

lemma adapter_state_text [simp]: "strip (adapter_state_value s) \<noteq> ''''"
  by (cases s) (simp_all add: strip_def is_space_def spaces_def)

lemma run_status_text [simp]: "strip (run_status_value s) \<noteq> ''''"
  by (cases s) (simp_all add: strip_def is_space_def spaces_def)

lemma record_type_text [simp]: "strip (payload_record_type j p) \<noteq> ''''"
  by (cases "sj_kind j") (simp_all add: payload_record_type_def; code_simp)+

lemma record_symbol_text: "strip (sj_name j) \<noteq> '''' \<Longrightarrow> strip (record_symbol j p) \<noteq> ''''"
  by (auto simp: record_symbol_def payload_symbol_def split: option.splits json.splits if_splits)

lemma fixed_type_text [simp]: "strip ''source_health'' \<noteq> ''''" "strip ''worker_run'' \<noteq> ''''"
  by code_simp+

lemma health_storable: "(\<forall>f \<in> set (health_payload j p out). storable (snd f)) \<longleftrightarrow> aware (ro_finished_at out)"
  by (auto simp: health_payload_def py_optional_def split: option.split)

lemma run_storable:
  "(\<forall>f \<in> set (run_payload j a s out). storable (snd f)) \<longleftrightarrow> aware (ro_started_at out) \<and> aware (ro_finished_at out)"
  by (auto simp: run_payload_def)

lemmas stored_payloads = health_storable run_storable

text \<open>Both ways of adding the three records accept the same ones.\<close>

definition records_accepted :: "source_job \<Rightarrow> json_object adapter_payload \<Rightarrow> run_outcome \<Rightarrow> py_dict \<Rightarrow> bool" where
  "records_accepted j p out payload \<longleftrightarrow>
     (\<forall>f \<in> set payload. storable (snd f)) \<and> strip (record_symbol j (Some p)) \<noteq> '''' \<and>
     aware (ro_started_at out) \<and> aware (ro_finished_at out)"

lemma add_run_records_succeeds: "succeeds (add_run_records add_row j p out payload db) \<longleftrightarrow> records_accepted j p out payload"
  unfolding add_run_records_def Let_def succeeds_and_then add_safe_succeeds stored_payloads records_accepted_def
  by (auto simp: add_safe_succeeds [unfolded succeeds_iff] stored_payloads)

lemma add_runtime_records_succeeds:
  "succeeds (add_runtime_records add_row j p out payload db) \<longleftrightarrow> records_accepted j p out payload"
  unfolding add_runtime_records_def Let_def succeeds_and_then add_record_succeeds records_accepted_def
  by (auto simp: add_record_succeeds [unfolded succeeds_iff] json_safe_iff(3) [unfolded succeeds_iff] stored_payloads)

section \<open>The session and its tables\<close>

text \<open>What a session of the database promises: four tables whose columns round as the models declare.\<close>

definition sql_session ::
  "(candle_row \<Rightarrow> candle_row) \<Rightarrow> (zone_row \<Rightarrow> zone_row) \<Rightarrow> (event_row \<Rightarrow> event_row) \<Rightarrow> (attempt_row \<Rightarrow> attempt_row) \<Rightarrow>
     ('c, 'z, 'e, 'a, 'd) session_api \<Rightarrow> bool" where
  "sql_session cc zc ec ac api \<longleftrightarrow>
     sql_table cc (sa_fetch_candle api) (sa_save_candle api) \<and> candle_columns cc \<and>
     sql_table zc (sa_fetch_zone api) (sa_save_zone api) \<and> zone_columns zc \<and>
     sql_table ec (sa_fetch_event api) (sa_save_event api) \<and> event_columns ec \<and>
     sql_table ac (sa_fetch_attempt api) (sa_save_attempt api) \<and> attempt_columns ac"

definition keyed_tables :: "('c, 'z, 'e, 'a, 'd) session_api \<Rightarrow> ('c, 'z, 'e, 'a, 'd) tables \<Rightarrow> bool" where
  "keyed_tables api t \<longleftrightarrow>
     keyed (sa_fetch_candle api) row_key (tb_candles t) \<and> keyed (sa_fetch_zone api) zr_zone_id (tb_zones t) \<and>
     keyed (sa_fetch_event api) er_event_id (tb_events t) \<and> keyed (sa_fetch_attempt api) ar_attempt_id (tb_attempts t)"

text \<open>Everything but the domain records.\<close>

definition same_data :: "('c, 'z, 'e, 'a, 'd) tables \<Rightarrow> ('c, 'z, 'e, 'a, 'd) tables \<Rightarrow> bool" where
  "same_data t u \<longleftrightarrow> tb_candles t = tb_candles u \<and> tb_zones t = tb_zones u \<and> tb_events t = tb_events u \<and>
     tb_attempts t = tb_attempts u"

section \<open>Storing again\<close>

lemma counts_storable [simp]:
  "\<forall>f \<in> set (py_counts n). storable (snd f)" "\<forall>f \<in> set (py_structure_counts m). storable (snd f)"
  by (simp_all add: py_counts_def py_structure_counts_def)

definition reclaim_storable :: "(attempt \<times> upsert_result) option \<Rightarrow> bool" where
  "reclaim_storable r \<longleftrightarrow> (case r of None \<Rightarrow> True | Some (a, n) \<Rightarrow> storable (py_attempt a))"

lemma py_reclaim_storable: "(\<forall>f \<in> set (py_reclaim r). storable (snd f)) \<longleftrightarrow> reclaim_storable r"
  by (auto simp: py_reclaim_def reclaim_storable_def split: option.split)

lemma structure_fields_storable:
  "(\<forall>f \<in> set (structure_fields cn a sn r). storable (snd f)) \<longleftrightarrow> storable (py_analysis a) \<and> reclaim_storable r"
  unfolding structure_fields_def set_append ball_Un py_reclaim_storable
  by (auto simp: py_counts_def py_structure_counts_def)

lemma same_attempt_storable: "map_option fst r = map_option fst s \<Longrightarrow> reclaim_storable r \<longleftrightarrow> reclaim_storable s"
  by (auto simp: reclaim_storable_def split: option.splits)

lemma persist_structure_Inr:
  "persist_structure api data t = Inr (t', extra) \<longleftrightarrow>
     (\<exists>b a cdb cn zdb edb sn adb r. batch_from_payload_data data = Inr b \<and> candles b \<noteq> [] \<and>
        upsert_batch (sa_fetch_candle api) (sa_save_candle api) b (tb_candles t) = (cdb, cn) \<and>
        analyze_higher_timeframe default_zone_rules default_event_rules b = Inr a \<and>
        upsert_analysis (sa_fetch_zone api) (sa_save_zone api) (sa_fetch_event api) (sa_save_event api) a
          (tb_zones t, tb_events t) = ((zdb, edb), sn) \<and>
        persist_reclaim_from_structure api b a (tb_attempts t) = Inr (adb, r) \<and>
        t' = t\<lparr>tb_candles := cdb, tb_zones := zdb, tb_events := edb, tb_attempts := adb\<rparr> \<and>
        extra = structure_fields cn a sn r)"
  by (auto simp: persist_structure_def and_then_Inr Let_def case_prod_beta split: if_splits) (metis prod.collapse)+

lemma reclaim_again:
  assumes "sql_table ac (sa_fetch_attempt api) (sa_save_attempt api)" "attempt_columns ac"
    "keyed (sa_fetch_attempt api) ar_attempt_id db" "persist_reclaim_from_structure api b a db = Inr (db', r)"
  shows "\<exists>r'. persist_reclaim_from_structure api b a db' = Inr (db', r') \<and> map_option fst r' = map_option fst r"
proof -
  obtain d where d: "derive_reclaim_from_structure b a = Inr d"
    using assms(4) by (auto simp: persist_reclaim_from_structure_def and_then_Inr)
  show ?thesis
  proof (cases d)
    case None
    then show ?thesis using assms(4) d by (simp add: persist_reclaim_from_structure_def)
  next
    case (Some x)
    then obtain n where up: "upsert_attempt (sa_fetch_attempt api) (sa_save_attempt api) x db = Inr (db', n)" "r = Some (x, n)"
      using assms(4) d by (auto simp: persist_reclaim_from_structure_def and_then_Inr)
    have "attempt_fits x" using derived_attempt_fits d Some by blast
    from attempt_upsert_idempotent [OF assms(1-3) this up(1)]
    show ?thesis using d Some up(2) by (simp add: persist_reclaim_from_structure_def)
  qed
qed

lemma structure_again:
  assumes "sql_session cc zc ec ac api" "keyed_tables api t" "batch_from_payload_data data = Inr b"
    "\<forall>c \<in> set (candles b). candle_fits c"
    "\<forall>a. analyze_higher_timeframe default_zone_rules default_event_rules b = Inr a \<longrightarrow> ids_distinct a"
    "persist_structure api data t = Inr (t', extra)"
  shows "\<exists>extra'. persist_structure api data t' = Inr (t', extra') \<and>
    ((\<forall>f \<in> set extra'. storable (snd f)) \<longleftrightarrow> (\<forall>f \<in> set extra. storable (snd f)))"
proof -
  note s = assms(1) [unfolded sql_session_def] and k = assms(2) [unfolded keyed_tables_def]
  obtain a cdb cn zdb edb sn adb r where
    c: "candles b \<noteq> []" "upsert_batch (sa_fetch_candle api) (sa_save_candle api) b (tb_candles t) = (cdb, cn)"
    and a: "analyze_higher_timeframe default_zone_rules default_event_rules b = Inr a"
    and u: "upsert_analysis (sa_fetch_zone api) (sa_save_zone api) (sa_fetch_event api) (sa_save_event api) a
          (tb_zones t, tb_events t) = ((zdb, edb), sn)"
    and r: "persist_reclaim_from_structure api b a (tb_attempts t) = Inr (adb, r)"
    and t': "t' = t\<lparr>tb_candles := cdb, tb_zones := zdb, tb_events := edb, tb_attempts := adb\<rparr>" "extra = structure_fields cn a sn r"
    using assms(6) unfolding persist_structure_Inr assms(3) by blast
  note wf = batch_from_payload_wf [OF assms(3)]
  have "upsert_batch (sa_fetch_candle api) (sa_save_candle api) b cdb = (cdb, no_rows\<lparr>ur_unchanged := length (candles b)\<rparr>)"
    by (rule upsert_batch_facts(4) [OF _ _ _ wf(1) assms(4) c(2)]) (use s k in blast)+
  moreover have "analysis_fits a" by (rule derived_fits [OF a wf(1) default_zone_rules_wf wf(2)])
  then obtain n where "upsert_analysis (sa_fetch_zone api) (sa_save_zone api) (sa_fetch_event api) (sa_save_event api) a (zdb, edb) =
      ((zdb, edb), n)"
    using analysis_upsert_idempotent [of zc "sa_fetch_zone api" "sa_save_zone api" "(tb_zones t, tb_events t)" ec
      "sa_fetch_event api" "sa_save_event api" a "(zdb, edb)" sn] s k u assms(5) a by simp
  moreover obtain r' where r': "persist_reclaim_from_structure api b a adb = Inr (adb, r')" "map_option fst r' = map_option fst r"
    using reclaim_again [OF _ _ _ r, of ac] s k by blast
  ultimately have "persist_structure api data t' =
      Inr (t', structure_fields (no_rows\<lparr>ur_unchanged := length (candles b)\<rparr>) a n r')"
    using c(1) a assms(3) by (simp add: persist_structure_def t'(1))
  then show ?thesis using t'(2) structure_fields_storable same_attempt_storable [OF r'(2)] by blast
qed

lemma confirmation_cases:
  assumes "persist_reclaim_from_confirmation api b t = Inr (t', r)"
  obtains (none) "cb_interval b \<noteq> M15 \<or>
      sa_scalar_event api (tb_events t) (confirmed_break_row b) (newer_event (sa_collate api)) = None" "t' = t" "r = None"
    | (attempt) er zr e z cs bc a db' n where "cb_interval b = M15"
      "sa_scalar_event api (tb_events t) (confirmed_break_row b) (newer_event (sa_collate api)) = Some er"
      "sa_fetch_zone api (tb_zones t) (er_zone_id er) = Some zr" "event_from_record er = Inr e" "zone_from_record zr = Inr z"
      "list_recent (sa_newest_candles api) (cb_source b) (cb_symbol b) H4 500 (tb_candles t) = Inr cs"
      "find (\<lambda>c. instant (open_time c) = instant (se_open_time e)) cs = Some bc"
      "analyze_reclaim_attempt default_reclaim_rules z e bc (candles b) = Inr a"
      "upsert_attempt (sa_fetch_attempt api) (sa_save_attempt api) a (tb_attempts t) = Inr (db', n)"
      "t' = t\<lparr>tb_attempts := db'\<rparr>" "r = Some (a, n)"
  using assms that
  by (auto simp: persist_reclaim_from_confirmation_def and_then_Inr split: if_splits option.splits)

lemma confirmation_again:
  assumes "sql_table ac (sa_fetch_attempt api) (sa_save_attempt api)" "attempt_columns ac"
    "keyed (sa_fetch_attempt api) ar_attempt_id (tb_attempts t)" "persist_reclaim_from_confirmation api b t = Inr (t', r)"
  shows "\<exists>r'. persist_reclaim_from_confirmation api b t' = Inr (t', r') \<and> map_option fst r' = map_option fst r"
  using assms(4)
proof (cases rule: confirmation_cases)
  case none
  then show ?thesis by (auto simp: persist_reclaim_from_confirmation_def)
next
  case attempt
  from attempt_upsert_idempotent [OF assms(1-3) analyzed_fits [OF attempt(8)] attempt(9)] attempt
  show ?thesis by (simp add: persist_reclaim_from_confirmation_def)
qed

lemma persist_m15_Inr:
  "persist_m15_confirmation api p t = Inr (t', payload) \<longleftrightarrow>
     (\<exists>b cdb cn r. batch_from_payload_data (ap_data p) = Inr b \<and> cb_interval b = M15 \<and> candles b \<noteq> [] \<and>
        upsert_batch (sa_fetch_candle api) (sa_save_candle api) b (tb_candles t) = (cdb, cn) \<and>
        persist_reclaim_from_confirmation api b (t\<lparr>tb_candles := cdb\<rparr>) = Inr (t', r) \<and>
        payload = confirmation_fields p cn r)"
  by (auto simp: persist_m15_confirmation_def and_then_Inr Let_def case_prod_beta split: if_splits) (metis prod.collapse)+

lemma confirmation_storable:
  "(\<forall>f \<in> set (dict_set ''kind'' (PStr k) (dict_set ''adapter_name'' (PStr n) (dict_set ''job_name'' (PStr m)
     (confirmation_fields p cn r)))). storable (snd f)) \<longleftrightarrow> reclaim_storable r \<and> storable (py_of_json (JObj (ap_data p)))"
  by (cases r) (auto simp: confirmation_fields_def py_reclaim_def reclaim_storable_def py_counts_def)

lemma confirmation_keeps:
  "persist_reclaim_from_confirmation api b t = Inr (t', r) \<Longrightarrow> \<exists>db'. t' = t\<lparr>tb_attempts := db'\<rparr>"
  by (erule confirmation_cases) (auto intro: exI [of _ "tb_attempts t"])

lemma m15_again:
  assumes "sql_session cc zc ec ac api" "keyed_tables api t" "batch_from_payload_data (ap_data p) = Inr b"
    "\<forall>c \<in> set (candles b). candle_fits c" "persist_m15_confirmation api p t = Inr (t', payload)"
  shows "\<exists>cn r cn' r'. payload = confirmation_fields p cn r \<and> persist_m15_confirmation api p t' = Inr (t', confirmation_fields p cn' r') \<and>
    map_option fst r' = map_option fst r"
proof -
  note s = assms(1) [unfolded sql_session_def] and k = assms(2) [unfolded keyed_tables_def]
  obtain cdb cn r where c: "cb_interval b = M15" "candles b \<noteq> []"
      "upsert_batch (sa_fetch_candle api) (sa_save_candle api) b (tb_candles t) = (cdb, cn)"
    and r: "persist_reclaim_from_confirmation api b (t\<lparr>tb_candles := cdb\<rparr>) = Inr (t', r)" "payload = confirmation_fields p cn r"
    using assms(5) unfolding persist_m15_Inr assms(3) by blast
  have "upsert_batch (sa_fetch_candle api) (sa_save_candle api) b cdb = (cdb, no_rows\<lparr>ur_unchanged := length (candles b)\<rparr>)"
    by (rule upsert_batch_facts(4) [OF _ _ _ batch_from_payload_wf(1) [OF assms(3)] assms(4) c(3)]) (use s k in blast)+
  moreover obtain db' where "t' = t\<lparr>tb_candles := cdb, tb_attempts := db'\<rparr>" using confirmation_keeps [OF r(1)] by auto
  then have t': "tb_candles t' = cdb" "t'\<lparr>tb_candles := cdb\<rparr> = t'" by simp_all
  moreover obtain r' where "persist_reclaim_from_confirmation api b t' = Inr (t', r')" "map_option fst r' = map_option fst r"
    using confirmation_again [OF _ _ _ r(1), of ac] s k by auto
  ultimately have "persist_m15_confirmation api p t' =
      Inr (t', confirmation_fields p (no_rows\<lparr>ur_unchanged := length (candles b)\<rparr>) r')"
    unfolding persist_m15_Inr assms(3) using c(1,2) by auto
  with r(2) \<open>map_option fst r' = map_option fst r\<close> show ?thesis by blast
qed

text \<open>The domain records take no part in either.\<close>

lemma structure_fixpoint:
  assumes "persist_structure api data t = Inr (t, extra)"
  shows "persist_structure api data (t\<lparr>tb_records := d\<rparr>) = Inr (t\<lparr>tb_records := d\<rparr>, extra)"
  using assms unfolding persist_structure_Inr by (cases t) auto

lemma confirmation_fixpoint:
  assumes "persist_reclaim_from_confirmation api b t = Inr (t, r)"
  shows "persist_reclaim_from_confirmation api b (t\<lparr>tb_records := d\<rparr>) = Inr (t\<lparr>tb_records := d\<rparr>, r)"
  using assms
proof (cases rule: confirmation_cases)
  case none
  then show ?thesis by (auto simp: persist_reclaim_from_confirmation_def)
next
  case (attempt er zr e z cs bc a db' n)
  have "tb_attempts t = db'" using arg_cong [OF attempt(10), of tb_attempts] by simp
  with attempt show ?thesis by (cases t) (simp add: persist_reclaim_from_confirmation_def)
qed

lemma m15_fixpoint:
  assumes "persist_m15_confirmation api p t = Inr (t, payload)"
  shows "persist_m15_confirmation api p (t\<lparr>tb_records := d\<rparr>) = Inr (t\<lparr>tb_records := d\<rparr>, payload)"
proof -
  obtain b cdb cn r where b: "batch_from_payload_data (ap_data p) = Inr b" "cb_interval b = M15" "candles b \<noteq> []"
      "upsert_batch (sa_fetch_candle api) (sa_save_candle api) b (tb_candles t) = (cdb, cn)"
      "persist_reclaim_from_confirmation api b (t\<lparr>tb_candles := cdb\<rparr>) = Inr (t, r)" "payload = confirmation_fields p cn r"
    using assms unfolding persist_m15_Inr by blast
  obtain db' where "t = t\<lparr>tb_candles := cdb, tb_attempts := db'\<rparr>" using confirmation_keeps [OF b(5)] by blast
  then have "t\<lparr>tb_candles := cdb\<rparr> = t" by (cases t) simp
  then have c: "persist_reclaim_from_confirmation api b (t\<lparr>tb_records := d\<rparr>) = Inr (t\<lparr>tb_records := d\<rparr>, r)"
    "t\<lparr>tb_records := d\<rparr>\<lparr>tb_candles := cdb\<rparr> = t\<lparr>tb_records := d\<rparr>"
    using confirmation_fixpoint [of api b t r d] b(5) by (cases t; simp)+
  show ?thesis unfolding persist_m15_Inr
    by (rule exI [of _ b], rule exI [of _ cdb], rule exI [of _ cn], rule exI [of _ r]) (simp only: b c, simp add: b(4))
qed

lemma store_commits: "store_payload api j p out t = Inr t' \<Longrightarrow> sa_commit api = Inr ()"
  by (auto simp: store_payload_def and_then_Inr)

lemma base_store_again:
  assumes "sql_session cc zc ec ac api" "keyed_tables api t" "sj_kind j = JK_STRUCTURE" "ah_state (ap_health p) = AD_OK"
    "batch_from_payload_data (ap_data p) = Inr b" "\<forall>c \<in> set (candles b). candle_fits c"
    "\<forall>a. analyze_higher_timeframe default_zone_rules default_event_rules b = Inr a \<longrightarrow> ids_distinct a"
    "store_payload api j p out t = Inr t'" "aware (ro_started_at later)" "aware (ro_finished_at later)"
  shows "\<exists>t''. store_payload api j p later t' = Inr t'' \<and> same_data t'' t'"
proof -
  obtain t1 extra records where t1: "persist_structure api (ap_data p) t = Inr (t1, extra)"
    "add_run_records (sa_add_record api) j p out (source_payload j p @ extra) (tb_records t1) = Inr records"
    "t' = t1\<lparr>tb_records := records\<rparr>"
    using assms(3,4,8) by (auto simp: store_payload_def and_then_Inr)
  obtain extra' where again: "persist_structure api (ap_data p) t1 = Inr (t1, extra')"
    "(\<forall>f \<in> set extra'. storable (snd f)) \<longleftrightarrow> (\<forall>f \<in> set extra. storable (snd f))"
    using structure_again [OF assms(1,2,5-7) t1(1)] by blast
  have "records_accepted j p out (source_payload j p @ extra)"
    unfolding add_run_records_succeeds [of "sa_add_record api" _ _ _ _ "tb_records t1", symmetric] t1(2) by simp
  then have "records_accepted j p later (source_payload j p @ extra')"
    using again(2) assms(9,10) unfolding records_accepted_def set_append ball_Un by blast
  then obtain records' where
    "add_run_records (sa_add_record api) j p later (source_payload j p @ extra') records = Inr records'"
    unfolding add_run_records_succeeds [of "sa_add_record api" _ _ _ _ records, symmetric] succeeds_iff by blast
  then have "store_payload api j p later t' = Inr (t'\<lparr>tb_records := records'\<rparr>)"
    using structure_fixpoint [OF again(1)] store_commits [OF assms(8)] assms(3,4) t1(3) by (simp add: store_payload_def)
  then show ?thesis by (simp add: same_data_def)
qed

lemma m15_store_again:
  assumes "sql_session cc zc ec ac api" "keyed_tables api t" "sj_kind j = JK_STRUCTURE" "ah_state (ap_health p) = AD_OK"
    "batch_from_payload_data (ap_data p) = Inr b" "\<forall>c \<in> set (candles b). candle_fits c"
    "cb_interval b = M15"
    "atomic_store_payload api j p out t = Inr t'" "aware (ro_started_at later)" "aware (ro_finished_at later)"
  shows "\<exists>t''. atomic_store_payload api j p later t' = Inr t'' \<and> same_data t'' t'"
proof -
  let ?named = "\<lambda>payload. dict_set ''kind'' (PStr (job_kind_value (sj_kind j))) (dict_set ''adapter_name'' (PStr (ap_name p))
    (dict_set ''job_name'' (PStr (sj_name j)) payload))"
  obtain t1 payload records where t1: "persist_m15_confirmation api p t = Inr (t1, payload)"
    "add_runtime_records (sa_add_record api) j p out (?named payload) (tb_records t1) = Inr records"
    "t' = t1\<lparr>tb_records := records\<rparr>" "sa_commit api = Inr ()"
    using assms(3-5,7,8) by (auto simp: atomic_store_payload_def and_then_Inr)
  obtain cn r cn' r' where again: "payload = confirmation_fields p cn r"
    "persist_m15_confirmation api p t1 = Inr (t1, confirmation_fields p cn' r')" "map_option fst r' = map_option fst r"
    using m15_again [OF assms(1,2,5,6) t1(1)] by blast
  have "records_accepted j p out (?named payload)"
    unfolding add_runtime_records_succeeds [of "sa_add_record api" _ _ _ _ "tb_records t1", symmetric] t1(2) by simp
  then have "records_accepted j p later (?named (confirmation_fields p cn' r'))"
    using same_attempt_storable [OF again(3)] assms(9,10) unfolding again(1) records_accepted_def confirmation_storable by blast
  then obtain records' where
    "add_runtime_records (sa_add_record api) j p later (?named (confirmation_fields p cn' r')) records = Inr records'"
    unfolding add_runtime_records_succeeds [of "sa_add_record api" _ _ _ _ records, symmetric] succeeds_iff by blast
  then have "atomic_store_payload api j p later t' = Inr (t'\<lparr>tb_records := records'\<rparr>)"
    using m15_fixpoint [OF again(2)] t1(3,4) assms(3-5,7) by (simp add: atomic_store_payload_def)
  then show ?thesis by (simp add: same_data_def)
qed



section \<open>Storing succeeds\<close>

lemma zone_storable: "zone_wf z \<Longrightarrow> storable (py_zone z)"
  by (simp add: zone_wf_def py_zone_def py_texts_def)

lemma event_storable: "event_wf e \<Longrightarrow> storable (py_event e)"
  by (auto simp: event_wf_def py_event_def py_texts_def py_optional_def split: option.split)

lemma evidence_storable: "aware (te_observed_at e) \<Longrightarrow> storable (py_evidence e)"
  by (auto simp: py_evidence_def py_texts_def py_optional_def split: option.split)

lemma attempt_storable: "attempt_wf a \<Longrightarrow> storable (py_attempt a)"
  by (auto simp: attempt_wf_def py_attempt_def py_texts_def py_optional_def split: option.splits)

lemma primary_in_zones:
  assumes "select_primary zones by_zone = (Some z, evs)" "map fst by_zone = zones"
  shows "z \<in> set zones"
  using assms(2)
proof (cases rule: select_primary_cases)
  case (bearing item)
  then have "z = fst item" using assms(1) by simp
  with bearing(2) show ?thesis using assms(2) by (metis image_eqI list.set_map)
qed (use assms(1) in auto)

lemma analysis_storable:
  assumes "analyze_higher_timeframe zr er b = Inr a" "batch_wf b" "zone_rules_wf zr" "\<forall>c \<in> set (candles b). candle_wf c"
  shows "storable (py_analysis a)"
proof -
  obtain by_zone primary evs where s: "select_primary (ha_zones a) by_zone = (primary, evs)" "map fst by_zone = ha_zones a"
    and p: "ha_primary_zone a = primary"
    and ev: "evidence_from_events primary evs (cb_source b) (cb_symbol b) (cb_interval b) (fetched_at b) = Inr (ha_evidence a)"
    and z: "\<forall>z \<in> set (ha_zones a). zone_wf z"
    by (rule analyze_Inr [OF assms])
  have "aware (ha_observed_at a)"
    using assms(1) by (auto simp: analyze_higher_timeframe_def and_then_Inr Let_def HtfStructureAnalysis_Inr case_prod_beta split: if_splits)
  moreover have "storable (py_optional py_zone (ha_primary_zone a))"
    using primary_in_zones [OF _ s(2)] s(1) p z by (cases primary) (auto simp: py_optional_def zone_storable)
  moreover have "event_wf e" if "e \<in> set (ha_events a)" for e
    by (rule event_source [OF assms that]) (simp add: event_of_def)
  moreover have "aware (te_observed_at (ha_evidence a))"
    using ev by (auto simp: evidence_from_events_def TimeframeStructureEvidence_Inr evidence_wf_def Let_def split: option.splits if_splits)
  ultimately show ?thesis using z by (simp add: py_analysis_def zone_storable event_storable evidence_storable)
qed

text \<open>The stored row and the attempt have the same optional numbers.\<close>

definition same_shape :: "attempt_row \<Rightarrow> attempt \<Rightarrow> bool" where
  "same_shape r a \<longleftrightarrow> (ar_bounce_volume_ratio r = None) = (ra_bounce_volume_ratio a = None) \<and>
     (ar_rejection_low r = None) = (ra_rejection_low a = None)"

lemma upsert_attempt_succeeds:
  assumes "\<forall>r. fetch_row db (ra_id a) = Some r \<longrightarrow> same_shape r a"
  shows "\<exists>db' n. upsert_attempt fetch_row save_row a db = Inr (db', n)"
proof (cases "fetch_row db (ra_id a)")
  case None
  then show ?thesis by (simp add: upsert_attempt_def)
next
  case (Some r)
  with assms have "\<exists>s. same_attempt_values r a = Inr s"
    by (cases "ar_bounce_volume_ratio r"; cases "ra_bounce_volume_ratio a"; cases "ar_rejection_low r"; cases "ra_rejection_low a")
      (auto simp: same_shape_def same_attempt_values_def same_optional_def)
  with Some show ?thesis by (auto simp: upsert_attempt_def)
qed

lemma derived_attempt_wf: "derive_reclaim_from_structure b a = Inr (Some x) \<Longrightarrow> attempt_wf x"
  using analyze_verdict [OF _ default_reclaim_rules_wf]
  by (fastforce simp: derive_reclaim_from_structure_def and_then_Inr Let_def coherent_def split: if_splits list.splits option.splits)

lemma persist_reclaim_succeeds:
  assumes "analyze_higher_timeframe default_zone_rules er b = Inr a" "batch_wf b"
    "\<forall>c \<in> set (candles b). market_candle c" "int (length (candles b)) \<le> 10 ^ 9"
    "\<forall>x r. derive_reclaim_from_structure b a = Inr (Some x) \<longrightarrow> sa_fetch_attempt api db (ra_id x) = Some r \<longrightarrow> same_shape r x"
  shows "\<exists>db' r. persist_reclaim_from_structure api b a db = Inr (db', r) \<and> reclaim_storable r"
proof -
  obtain d where d: "derive_reclaim_from_structure b a = Inr d" using derive_reclaim_total [OF assms(1-4)] by blast
  show ?thesis
  proof (cases d)
    case None
    with d show ?thesis by (simp add: persist_reclaim_from_structure_def reclaim_storable_def)
  next
    case (Some x)
    obtain db' n where "upsert_attempt (sa_fetch_attempt api) (sa_save_attempt api) x db = Inr (db', n)"
      using upsert_attempt_succeeds [of "sa_fetch_attempt api" db x] assms(5) d Some by blast
    with d Some attempt_storable [OF derived_attempt_wf [of b a x]] show ?thesis
      by (simp add: persist_reclaim_from_structure_def reclaim_storable_def)
  qed
qed

lemma source_storable: "\<forall>f \<in> set (source_payload j p). storable (snd f)"
proof -
  have "storable (py_of_json (JObj (ap_data p)))" unfolding json_safe_iff(1) [symmetric] json_safe_of_json by simp
  then show ?thesis unfolding source_payload_def by simp
qed

lemma outcome_aware: "WorkerRunOutcome out = Inr out' \<Longrightarrow> aware (ro_started_at out) \<and> aware (ro_finished_at out)"
  by (auto simp: WorkerRunOutcome_def and_then_Inr require_aware_def split: if_splits)

lemma structure_store_ok:
  assumes "sj_kind j = JK_STRUCTURE" "ah_state (ap_health p) = AD_OK" "batch_from_payload_data (ap_data p) = Inr b"
    "cb_interval b \<in> {D1, H4}" "candles b \<noteq> []" "\<forall>c \<in> set (candles b). market_candle c" "int (length (candles b)) \<le> 10 ^ 9"
    "\<forall>a x r. analyze_higher_timeframe default_zone_rules default_event_rules b = Inr a \<longrightarrow>
       derive_reclaim_from_structure b a = Inr (Some x) \<longrightarrow>
       sa_fetch_attempt api (tb_attempts t) (ra_id x) = Some r \<longrightarrow> same_shape r x"
    "strip (sj_name j) \<noteq> ''''" "WorkerRunOutcome out = Inr out" "sa_commit api = Inr ()"
  shows "\<exists>t'. atomic_store_payload api j p out t = Inr t'"
proof -
  note wf = batch_from_payload_wf [OF assms(3)]
  have "htf (cb_interval b)" using assms(4) by (auto simp: htf_def)
  then obtain a where a: "analyze_higher_timeframe default_zone_rules default_event_rules b = Inr a"
    using htf_total [OF default_zone_rules_usable default_event_rules_usable wf(1) _ assms(6)] by blast
  have "\<forall>x r. derive_reclaim_from_structure b a = Inr (Some x) \<longrightarrow>
      sa_fetch_attempt api (tb_attempts t) (ra_id x) = Some r \<longrightarrow> same_shape r x"
    using assms(8) a by metis
  from persist_reclaim_succeeds [OF a wf(1) assms(6,7) this]
  obtain adb r where r: "persist_reclaim_from_structure api b a (tb_attempts t) = Inr (adb, r)" "reclaim_storable r" by metis
  obtain cdb cn where c: "upsert_batch (sa_fetch_candle api) (sa_save_candle api) b (tb_candles t) = (cdb, cn)" by fastforce
  obtain zdb edb sn where u: "upsert_analysis (sa_fetch_zone api) (sa_save_zone api) (sa_fetch_event api) (sa_save_event api) a
      (tb_zones t, tb_events t) = ((zdb, edb), sn)" by (metis old.prod.exhaust)
  let ?t1 = "t\<lparr>tb_candles := cdb, tb_zones := zdb, tb_events := edb, tb_attempts := adb\<rparr>"
  have "persist_structure api (ap_data p) t = Inr (?t1, structure_fields cn a sn r)"
    using assms(3,5) a c u r(1) by (simp add: persist_structure_def)
  moreover have "records_accepted j p out (source_payload j p @ structure_fields cn a sn r)"
    using source_storable r(2) analysis_storable [OF a wf(1) default_zone_rules_wf wf(2)] record_symbol_text [OF assms(9)] outcome_aware [OF assms(10)]
    unfolding records_accepted_def set_append ball_Un structure_fields_storable by blast
  then obtain records where
    "add_run_records (sa_add_record api) j p out (source_payload j p @ structure_fields cn a sn r) (tb_records t) = Inr records"
    unfolding add_run_records_succeeds [of "sa_add_record api" _ _ _ _ "tb_records t", symmetric] succeeds_iff by blast
  ultimately have "\<exists>t'. store_payload api j p out t = Inr t'" using assms(1,2,11) by (simp add: store_payload_def)
  moreover have "cb_interval b \<noteq> M15" using assms(4) by auto
  ultimately show ?thesis using assms(1-3) by (simp add: atomic_store_payload_def)
qed



section \<open>A session in memory\<close>

type_synonym memory =
  "(candle_key \<rightharpoonup> candle_row, string \<rightharpoonup> zone_row, string \<rightharpoonup> event_row, string \<rightharpoonup> attempt_row, domain_record list) tables"

definition memory_session ::
  "(candle_key \<rightharpoonup> candle_row, string \<rightharpoonup> zone_row, string \<rightharpoonup> event_row, string \<rightharpoonup> attempt_row, domain_record list) session_api" where
  "memory_session = \<lparr>sa_fetch_candle = (\<lambda>db k. db k), sa_save_candle = (\<lambda>db k r. db(k \<mapsto> sample_columns r)),
     sa_newest_candles = (\<lambda>db s y i n. []), sa_fetch_zone = (\<lambda>db k. db k), sa_save_zone = (\<lambda>db k r. db(k \<mapsto> sample_zone_columns r)),
     sa_fetch_event = (\<lambda>db k. db k), sa_save_event = (\<lambda>db k r. db(k \<mapsto> sample_event_columns r)),
     sa_scalar_event = only_row, sa_collate = (\<lambda>_ _. True),
     sa_fetch_attempt = (\<lambda>db k. db k), sa_save_attempt = (\<lambda>db k r. db(k \<mapsto> sample_attempt_columns r)),
     sa_add_record = (\<lambda>db r. db @ [r]), sa_newest_records = (\<lambda>db ty n. take n (rev (filter (\<lambda>r. dm_record_type r = ty) db))),
     sa_commit = Inr ()\<rparr>"

definition no_tables :: memory where
  "no_tables = \<lparr>tb_candles = Map.empty, tb_zones = Map.empty, tb_events = Map.empty, tb_attempts = Map.empty, tb_records = []\<rparr>"

lemma memory_session_sql:
  "sql_session sample_columns sample_zone_columns sample_event_columns sample_attempt_columns memory_session"
  "keyed_tables memory_session no_tables"
  by (simp_all add: sql_session_def keyed_tables_def memory_session_def no_tables_def sql_table_map keyed_empty sample_columns
      sample_structure_columns sample_attempt_columns)

definition sample_structure_job :: source_job where
  "sample_structure_job = (sample_job ''bybit-4h'' 0)\<lparr>sj_kind := JK_STRUCTURE\<rparr>"

definition structure_payload :: "candle_batch \<Rightarrow> json_object adapter_payload" where
  "structure_payload b = \<lparr>ap_name = ''bybit_klines'', ap_data = batch_to_payload_data b,
     ap_health = \<lparr>ah_name = ''bybit_klines'', ah_state = AD_OK, ah_latency_ms = Some 12, ah_message = ''ok''\<rparr>\<rparr>"

text \<open>One candle, too few for a zone.\<close>

definition short_batch :: candle_batch where
  "short_batch = (sample_batch H4)\<lparr>candles := take 1 (sample_candles H4)\<rparr>"

lemma sample_fetched_wf: "time_wf (fetched_at (sample_batch H4))"
  by (simp add: sample_batch_def time_wf_def sample_start_def minute_us_def max_us_def day_us_def)

lemma short_batch_ok: "batch_ok short_batch"
proof -
  have "chronological (take 1 (sample_candles H4))"
    using sample_batch_wf(1) by (simp add: batch_wf_def chronological_def sample_batch_def sorted_wrt_take)
  moreover have "set (take 1 (sample_candles H4)) \<subseteq> set (candles (sample_batch H4))" by (simp add: sample_batch_def set_take_subset)
  ultimately show ?thesis using sample_batch_wf(1) sample_fetched_wf sample_candles_ok
    by (auto simp: batch_ok_def short_batch_def batch_wf_def)
qed

lemma short_batch_facts:
  "candles short_batch \<noteq> []" "\<forall>c \<in> set (candles short_batch). market_candle c" "\<forall>c \<in> set (candles short_batch). candle_fits c"
proof -
  show "candles short_batch \<noteq> []" using length_sample [of H4] by (auto simp: short_batch_def)
  show "\<forall>c \<in> set (candles short_batch). market_candle c" "\<forall>c \<in> set (candles short_batch). candle_fits c"
    using sample_market(1) sample_fits [of _ 0 sample_prices] set_take_subset [of 1 "sample_candles H4"]
    by (auto simp: short_batch_def sample_candles_def)
qed

lemma short_batch_decoded: "batch_from_payload_data (ap_data (structure_payload short_batch)) = Inr short_batch"
  using batch_round_trip [OF short_batch_ok, of "[]"] by (simp add: structure_payload_def)

lemma short_batch_analysis:
  "case analyze_higher_timeframe default_zone_rules default_event_rules short_batch of Inl e \<Rightarrow> False | Inr a \<Rightarrow> ids_distinct a"
  by code_simp

lemma sample_run_aware: "aware (ro_started_at (sample_outcome s))" "aware (ro_finished_at (sample_outcome s))"
  by (simp_all add: sample_outcome_def aware_def)

lemma short_store_premises:
  "sj_kind sample_structure_job = JK_STRUCTURE" "ah_state (ap_health (structure_payload short_batch)) = AD_OK"
  "cb_interval short_batch \<in> {D1, H4}" "int (length (candles short_batch)) \<le> 10 ^ 9" "strip (sj_name sample_structure_job) \<noteq> ''''"
  "WorkerRunOutcome (sample_outcome SUCCEEDED) = Inr (sample_outcome SUCCEEDED)" "sa_commit memory_session = Inr ()"
  by (simp_all add: sample_structure_job_def structure_payload_def short_batch_def sample_batch_def memory_session_def)
    (code_simp)+

lemma no_attempts: "sa_fetch_attempt memory_session (tb_attempts no_tables) k = None"
  by (simp add: memory_session_def no_tables_def)



end
