(* ===== verification/Lbank_Adapter.thy ===== *)
theory Lbank_Adapter
  imports Benchmark_Adapters
begin

text \<open>
  \<^verbatim>\<open>app/adapters/lbank_parser.py\<close> and \<^verbatim>\<open>app/adapters/lbank.py\<close>: the reading of LBank's instruments, quotes and order
  book, the execution snapshot computed from them, and the adapter's \<open>health\<close> and \<open>load\<close>. The
  theorem: the snapshot quotes the best rows of the response's book, and belongs to the requested
  symbol in all its parts.
\<close>

section \<open>Parsing\<close>

fun lb_items :: "string \<Rightarrow> json \<Rightarrow> json list result" where
  "lb_items label (JList xs) = Inr xs"
| "lb_items label (JObj d) =
     (case get d ''data'' of JList xs \<Rightarrow> Inr xs | _ \<Rightarrow> Inl (ParserError (label @ '' payload must be a list'')))"
| "lb_items label v = Inl (ParserError (label @ '' payload must be a list''))"

fun lb_mapping :: "string \<Rightarrow> json \<Rightarrow> json_object result" where
  "lb_mapping label (JObj d) = Inr d"
| "lb_mapping label v = Inl (ParserError (label @ '' item must be an object''))"

fun lb_text :: "string \<Rightarrow> json \<Rightarrow> string result" where
  "lb_text fld (JStr s) =
     (if strip s = '''' then Inl (ParserError (fld @ '' must be a non-empty string'')) else Inr (strip s))"
| "lb_text fld v = Inl (ParserError (fld @ '' must be a non-empty string''))"

definition lb_decimal :: "string \<Rightarrow> bool \<Rightarrow> json \<Rightarrow> decimal result" where
  "lb_decimal fld positive v =
     (case v of
        JBool b \<Rightarrow> Inl (ParserError (fld @ '' must be numeric''))
      | _ \<Rightarrow>
          (case decimal_of_json v of
             Inl e \<Rightarrow> Inl (ParserError (fld @ '' must be numeric''))
           | Inr (Finite d) \<Rightarrow>
               if positive \<and> dval d \<le> 0 then Inl (ParserError (fld @ '' must be positive'')) else Inr d
           | Inr _ \<Rightarrow> Inl (ParserError (fld @ '' must be finite''))))"

definition lb_decimal_optional :: "string \<Rightarrow> bool \<Rightarrow> json \<Rightarrow> decimal option result" where
  "lb_decimal_optional fld positive v =
     (if absent v then Inr None else and_then (lb_decimal fld positive v) (\<lambda>d. Inr (Some d)))"

definition parse_instrument :: "json \<Rightarrow> decimal lbank_instrument result" where
  "parse_instrument raw =
     and_then (lb_mapping ''instrument'' raw) (\<lambda>item.
     and_then (lb_text ''symbol'' (get item ''symbol'')) (\<lambda>symbol.
     and_then (lb_text ''baseCurrency'' (get item ''baseCurrency'')) (\<lambda>base.
     and_then (lb_text ''priceCurrency'' (get item ''priceCurrency'')) (\<lambda>price.
     and_then (lb_text ''clearCurrency'' (get item ''clearCurrency'')) (\<lambda>clear.
     and_then (lb_decimal ''priceTick'' True (get item ''priceTick'')) (\<lambda>ptick.
     and_then (lb_decimal ''volumeTick'' True (get item ''volumeTick'')) (\<lambda>vtick.
     and_then (lb_decimal ''volumeMultiple'' True (get item ''volumeMultiple'')) (\<lambda>multiple.
     and_then (lb_decimal_optional ''minOrderVolume'' True (get item ''minOrderVolume'')) (\<lambda>minv.
     and_then (lb_decimal_optional ''minOrderCost'' True (get item ''minOrderCost'')) (\<lambda>minc.
     LBankInstrument \<lparr>li_symbol = symbol, li_base_currency = base, li_price_currency = price, li_clear_currency = clear,
       li_price_tick = Finite ptick, li_volume_tick = Finite vtick, li_volume_multiple = Finite multiple,
       li_min_order_volume = map_option Finite minv, li_min_order_cost = map_option Finite minc\<rparr>))))))))))"

definition parse_instruments :: "json \<Rightarrow> decimal lbank_instrument list result" where
  "parse_instruments payload =
     and_then (lb_items ''instrument'' payload) (\<lambda>raws.
     and_then (traverse parse_instrument raws) (\<lambda>instruments.
     if instruments = [] then Inl (ParserError ''instrument payload is empty'') else Inr instruments))"

definition parse_market_quote :: "json \<Rightarrow> decimal lbank_quote result" where
  "parse_market_quote raw =
     and_then (lb_mapping ''marketData'' raw) (\<lambda>item.
     and_then (lb_text ''symbol'' (get item ''symbol'')) (\<lambda>symbol.
     and_then (lb_decimal ''lastPrice'' True (get item ''lastPrice'')) (\<lambda>lastp.
     and_then (lb_decimal ''markedPrice'' True (get item ''markedPrice'')) (\<lambda>marked.
     and_then (lb_decimal_optional ''prePositionFeeRate'' False (get item ''prePositionFeeRate'')) (\<lambda>funding.
     and_then (lb_decimal_optional ''volume'' False (get item ''volume'')) (\<lambda>vol.
     and_then (lb_decimal_optional ''turnover'' False (get item ''turnover'')) (\<lambda>turn.
     LBankMarketQuote \<lparr>lq_symbol = symbol, lq_last_price = Finite lastp, lq_marked_price = Finite marked,
       lq_funding_rate = map_option Finite funding, lq_volume_24h = map_option Finite vol,
       lq_turnover_24h = map_option Finite turn\<rparr>)))))))"

definition parse_market_quotes :: "json \<Rightarrow> decimal lbank_quote list result" where
  "parse_market_quotes payload =
     and_then (lb_items ''marketData'' payload) (\<lambda>raws.
     and_then (traverse parse_market_quote raws) (\<lambda>quotes.
     if quotes = [] then Inl (ParserError ''marketData payload is empty'') else Inr quotes))"

definition parse_orders :: "string \<Rightarrow> json \<Rightarrow> int option result" where
  "parse_orders side v =
     (case v of
        JNull \<Rightarrow> Inr None
      | JInt n \<Rightarrow> if n < 0 then Inl (ParserError (side @ ''.orders must be non-negative'')) else Inr (Some n)
      | _ \<Rightarrow> Inl (ParserError (side @ ''.orders must be an integer'')))"

definition book_level :: "book_side \<Rightarrow> json \<Rightarrow> decimal lbank_level result" where
  "book_level side raw =
     and_then (lb_mapping (side_text side) raw) (\<lambda>item.
     and_then (parse_orders (side_text side) (get item ''orders'')) (\<lambda>orders.
     and_then (lb_decimal (side_text side @ ''.price'') True (get item ''price'')) (\<lambda>price.
     and_then (lb_decimal (side_text side @ ''.volume'') True (get item ''volume'')) (\<lambda>vol.
     LBankBookLevel \<lparr>ll_price = Finite price, ll_volume = Finite vol, ll_orders = orders\<rparr>))))"

definition book_levels :: "book_side \<Rightarrow> json \<Rightarrow> decimal lbank_level list result" where
  "book_levels side v =
     (if items v = [] then Inl (ParserError (side_text side @ '' must be a non-empty list''))
      else and_then (traverse (book_level side) (items v)) (\<lambda>levels.
      Inr (sort_side (\<lambda>l. dval (ll_price l)) side levels)))"

definition book_item :: "json_object \<Rightarrow> json_object" where
  "book_item d = (case get d ''data'' of JObj inner \<Rightarrow> inner | _ \<Rightarrow> d)"

definition parse_order_book :: "string \<Rightarrow> json \<Rightarrow> lbank_book result" where
  "parse_order_book expected payload =
     and_then (lb_mapping ''marketOrder'' payload) (\<lambda>root.
     let item = book_item root in
     and_then (lb_text ''symbol'' (get item ''symbol'')) (\<lambda>symbol.
     if lower symbol \<noteq> lower (strip expected)
       then Inl (ParserError ''order-book symbol does not match requested symbol'')
     else and_then (book_levels Bids (get item ''bids'')) (\<lambda>bids.
     and_then (book_levels Asks (get item ''asks'')) (\<lambda>asks.
     if dval (ll_price (hd asks)) \<le> dval (ll_price (hd bids)) then Inl (ParserError ''order book is crossed or locked'')
     else LBankOrderBook \<lparr>lb_symbol = symbol, lb_bids = bids, lb_asks = asks\<rparr>))))"

definition find_symbol :: "('a \<Rightarrow> string) \<Rightarrow> 'a list \<Rightarrow> string \<Rightarrow> 'a result" where
  "find_symbol symbol_of xs symbol =
     (let normalized = lower (strip symbol) in
      if normalized = '''' then Inl (ParserError ''symbol is required'')
      else case find (\<lambda>x. lower (symbol_of x) = normalized) xs of
          Some x \<Rightarrow> Inr x
        | None \<Rightarrow> Inl (ParserError (''symbol not found: '' @ strip symbol)))"

section \<open>The adapter\<close>

record lbank_adapter =
  la_symbol :: string
  la_product_group :: string
  la_depth :: int
  la_base_url :: string

record lbank_env =
  le_gather :: "request list \<Rightarrow> json list result"
  le_clock :: datetime
  le_latency_ms :: int

definition LBankPublicAdapter :: "string \<Rightarrow> string \<Rightarrow> int \<Rightarrow> string \<Rightarrow> lbank_adapter result" where
  "LBankPublicAdapter symbol product_group depth base_url =
     (let normalized_symbol = strip symbol; normalized_group = strip product_group; normalized_url = rstrip_slash base_url in
      if normalized_symbol = '''' then Inl (ValueError ''symbol is required'')
      else if normalized_group = '''' then Inl (ValueError ''product_group is required'')
      else if depth < 1 then Inl (ValueError ''depth must be positive'')
      else if \<not> starts_with ''https://'' normalized_url then Inl (ValueError ''base_url must use HTTPS'')
      else Inr \<lparr>la_symbol = normalized_symbol, la_product_group = normalized_group, la_depth = depth,
        la_base_url = normalized_url\<rparr>)"

definition lbank_name :: string where
  "lbank_name = ''lbank-perpetual-public''"

definition lbank_requests :: "lbank_adapter \<Rightarrow> request list" where
  "lbank_requests a =
     [(la_base_url a @ ''/cfd/openApi/v1/pub/instrument'', [(''productGroup'', JStr (la_product_group a))]),
      (la_base_url a @ ''/cfd/openApi/v1/pub/marketData'', [(''productGroup'', JStr (la_product_group a))]),
      (la_base_url a @ ''/cfd/openApi/v1/pub/marketOrder'', [(''symbol'', JStr (la_symbol a)), (''depth'', JInt (la_depth a))])]"

definition depth_quote :: "decimal \<Rightarrow> decimal lbank_level list \<Rightarrow> decimal" where
  "depth_quote multiplier levels = dsum (map (\<lambda>l. dmul (dmul (ll_price l) (ll_volume l)) multiplier) levels)"

definition lbank_snapshot_from ::
  "lbank_adapter \<Rightarrow> lbank_env \<Rightarrow> json \<Rightarrow> json \<Rightarrow> json \<Rightarrow> decimal lbank_snapshot result" where
  "lbank_snapshot_from a env instrument_payload market_payload book_payload =
     and_then (parse_instruments instrument_payload) (\<lambda>instruments.
     and_then (find_symbol li_symbol instruments (la_symbol a)) (\<lambda>instrument.
     and_then (parse_market_quotes market_payload) (\<lambda>quotes.
     and_then (find_symbol lq_symbol quotes (la_symbol a)) (\<lambda>quote.
     and_then (parse_order_book (la_symbol a) book_payload) (\<lambda>book.
     let bid = ll_price (best_bid book); ask = ll_price (best_ask book); spread = dsub ask bid;
         multiplier = li_volume_multiple instrument in
     and_then (ddiv (dadd bid ask) (dec 2 0)) (\<lambda>mid_price.
     and_then (ddiv spread mid_price) (\<lambda>ratio.
     if \<not> aware (le_clock env) then Inl (ValueError ''clock must return a timezone-aware datetime'')
     else LBankExecutionSnapshot \<lparr>ls_source = ''LBank'', ls_product_group = la_product_group a,
       ls_symbol = li_symbol instrument, ls_received_at = le_clock env, ls_latency_ms = le_latency_ms env,
       ls_instrument = instrument, ls_quote = quote, ls_order_book = book, ls_spread = Finite spread,
       ls_spread_bps = Finite (dmul ratio (dec 10000 0)),
       ls_bid_depth_quote = Finite (depth_quote multiplier (lb_bids book)),
       ls_ask_depth_quote = Finite (depth_quote multiplier (lb_asks book))\<rparr>)))))))"

definition lbank_fetch :: "lbank_adapter \<Rightarrow> lbank_env \<Rightarrow> decimal lbank_snapshot result" where
  "lbank_fetch a env =
     and_then (le_gather env (lbank_requests a)) (\<lambda>rs.
     case rs of [i, m, b] \<Rightarrow> lbank_snapshot_from a env i m b | _ \<Rightarrow> Inl unpack_error)"

text \<open>\<open>payload.get("success") is False\<close>.\<close>

definition lbank_health :: "lbank_adapter \<Rightarrow> (request \<Rightarrow> json result) \<Rightarrow> int \<Rightarrow> adapter_health" where
  "lbank_health a client elapsed_ms =
     (case and_then (client (la_base_url a @ ''/cfd/openApi/v1/pub/getTime'', [])) (\<lambda>payload.
           case payload of
             JObj d \<Rightarrow> if get d ''success'' = JBool False then Inl (ParserError ''LBank public endpoint reported failure'') else Inr ()
           | _ \<Rightarrow> Inl (ParserError ''time payload must be an object'')) of
        Inl e \<Rightarrow> \<lparr>ah_name = lbank_name, ah_state = AD_DOWN, ah_latency_ms = Some elapsed_ms, ah_message = error_name e\<rparr>
      | Inr _ \<Rightarrow> \<lparr>ah_name = lbank_name, ah_state = AD_OK, ah_latency_ms = Some elapsed_ms, ah_message = ''''\<rparr>)"

definition lbank_data :: "decimal lbank_snapshot \<Rightarrow> json_object" where
  "lbank_data s =
     [(''source'', JStr (ls_source s)),
      (''product_group'', JStr (ls_product_group s)),
      (''symbol'', JStr (ls_symbol s)),
      (''received_at'', JStr (isoformat (ls_received_at s))),
      (''latency_ms'', JInt (ls_latency_ms s)),
      (''last_price'', JStr (dec_str (lq_last_price (ls_quote s)))),
      (''marked_price'', JStr (dec_str (lq_marked_price (ls_quote s)))),
      (''best_bid'', JStr (dec_str (ll_price (best_bid (ls_order_book s))))),
      (''best_ask'', JStr (dec_str (ll_price (best_ask (ls_order_book s))))),
      (''spread'', JStr (dec_str (ls_spread s))),
      (''spread_bps'', JStr (dec_str (ls_spread_bps s))),
      (''bid_depth_quote'', JStr (dec_str (ls_bid_depth_quote s))),
      (''ask_depth_quote'', JStr (dec_str (ls_ask_depth_quote s))),
      (''price_tick'', JStr (dec_str (li_price_tick (ls_instrument s)))),
      (''volume_tick'', JStr (dec_str (li_volume_tick (ls_instrument s)))),
      (''min_order_volume'', optional_str (li_min_order_volume (ls_instrument s))),
      (''status'', JStr ''OK'')]"

definition lbank_load :: "lbank_adapter \<Rightarrow> lbank_env \<Rightarrow> json_object adapter_payload" where
  "lbank_load a env =
     (case lbank_fetch a env of
        Inl e \<Rightarrow> \<lparr>ap_name = lbank_name,
          ap_data = [(''symbol'', JStr (la_symbol a)), (''product_group'', JStr (la_product_group a)),
            (''status'', JStr ''DATA_DEGRADED'')],
          ap_health = \<lparr>ah_name = lbank_name, ah_state = (if is_ValueError e then AD_DEGRADED else AD_DOWN),
            ah_latency_ms = None, ah_message = error_name e\<rparr>\<rparr>
      | Inr s \<Rightarrow> \<lparr>ap_name = lbank_name, ap_data = lbank_data s,
          ap_health = \<lparr>ah_name = lbank_name, ah_state = AD_OK, ah_latency_ms = Some (ls_latency_ms s),
            ah_message = ''''\<rparr>\<rparr>)"

interpretation lbank: source_adapter lbank_load "\<lambda>_. lbank_name" lbank_fetch "\<lambda>_. AD_OK" is_ValueError
  by unfold_locales (auto simp: lbank_load_def split: sum.splits)

section \<open>Soundness of a snapshot\<close>

definition lbank_row_price :: "json \<Rightarrow> decimal option" where
  "lbank_row_price row = decimal_value (sub ''price'' row)"

definition lbank_rows :: "book_side \<Rightarrow> json \<Rightarrow> json list" where
  "lbank_rows side payload = (case payload of JObj d \<Rightarrow> items (get (book_item d) (side_text side)) | _ \<Rightarrow> [])"

text \<open>All parts of the snapshot are of the requested symbol and it quotes the best rows of the book.\<close>

definition lbank_sound :: "lbank_adapter \<Rightarrow> json \<Rightarrow> decimal lbank_snapshot \<Rightarrow> bool" where
  "lbank_sound a book_payload s \<longleftrightarrow>
     (let symbol = lower (strip (la_symbol a)); bid = ll_price (best_bid (ls_order_book s)); ask = ll_price (best_ask (ls_order_book s)) in
      lower (ls_symbol s) = symbol \<and> lower (li_symbol (ls_instrument s)) = symbol \<and> lower (lq_symbol (ls_quote s)) = symbol \<and>
      lower (lb_symbol (ls_order_book s)) = symbol \<and>
      best_row lbank_row_price Bids (lbank_rows Bids book_payload) bid \<and>
      best_row lbank_row_price Asks (lbank_rows Asks book_payload) ask \<and>
      dval bid < dval ask \<and> dval (ls_spread s) = dval (dsub ask bid) \<and> aware (ls_received_at s))"

lemma lb_decimal_Inr: "lb_decimal fld pos v = Inr d \<Longrightarrow> decimal_of_json v = Inr (Finite d)"
  by (auto simp: lb_decimal_def split: json.splits sum.splits raw_decimal.splits if_splits)

lemma LBankBookLevel_price: "LBankBookLevel r = Inr l \<Longrightarrow> ll_price r = Finite (ll_price l)"
  by (cases "ll_price r") (auto simp: LBankBookLevel_def positive_decimal_def check_finite_def and_then_Inr split: if_splits)

lemma book_level_price: "book_level side row = Inr l \<Longrightarrow> lbank_row_price row = Some (ll_price l)"
  by (cases row) (auto simp: book_level_def and_then_Inr lbank_row_price_def decimal_value_def sub_def
      dest!: lb_decimal_Inr LBankBookLevel_price)

lemma book_levels_best:
  assumes "book_levels side v = Inr levels"
  shows "best_row lbank_row_price side (items v) (ll_price (hd levels))"
  using assms best_row_sorted [OF _ _ book_level_price]
  by (auto simp: book_levels_def and_then_Inr split: if_splits)

lemma parse_order_book_Inr:
  assumes "parse_order_book expected payload = Inr book"
  shows "lower (lb_symbol book) = lower (strip expected)"
    "best_row lbank_row_price Bids (lbank_rows Bids payload) (ll_price (best_bid book))"
    "best_row lbank_row_price Asks (lbank_rows Asks payload) (ll_price (best_ask book))"
    "dval (ll_price (best_bid book)) < dval (ll_price (best_ask book))"
proof -
  obtain root symbol bids asks where
    r: "lb_mapping ''marketOrder'' payload = Inr root" "lb_text ''symbol'' (get (book_item root) ''symbol'') = Inr symbol"
      "lower symbol = lower (strip expected)" "book_levels Bids (get (book_item root) ''bids'') = Inr bids"
      "book_levels Asks (get (book_item root) ''asks'') = Inr asks" "\<not> dval (ll_price (hd asks)) \<le> dval (ll_price (hd bids))"
    and b: "LBankOrderBook \<lparr>lb_symbol = symbol, lb_bids = bids, lb_asks = asks\<rparr> = Inr book"
    using assms unfolding parse_order_book_def and_then_Inr if_Inl_eq_Inr Let_def by blast
  have p: "payload = JObj root" using r(1) by (cases payload) auto
  have s: "symbol = strip symbol" using r(2) by (cases "get (book_item root) ''symbol''") (auto split: if_splits)
  have book: "book = \<lparr>lb_symbol = symbol, lb_bids = bids, lb_asks = asks\<rparr>"
    using b s by (auto simp: LBankOrderBook_def required_text_def Let_def split: if_splits)
  show "lower (lb_symbol book) = lower (strip expected)" "dval (ll_price (best_bid book)) < dval (ll_price (best_ask book))"
    using book r(3,6) by (simp_all add: best_bid_def best_ask_def)
  show "best_row lbank_row_price Bids (lbank_rows Bids payload) (ll_price (best_bid book))"
    "best_row lbank_row_price Asks (lbank_rows Asks payload) (ll_price (best_ask book))"
    using book_levels_best [OF r(4)] book_levels_best [OF r(5)] p book by (simp_all add: lbank_rows_def best_bid_def best_ask_def)
qed

lemma find_symbol_Inr: "find_symbol f xs symbol = Inr x \<Longrightarrow> x \<in> set xs \<and> lower (f x) = lower (strip symbol)"
  by (auto simp: find_symbol_def Let_def find_Some_iff split: if_splits option.splits)

lemma LBankExecutionSnapshot_Inr:
  assumes "LBankExecutionSnapshot r = Inr s"
  shows "lower (ls_symbol s) = lower (li_symbol (ls_instrument r))" "ls_instrument s = ls_instrument r" "ls_quote s = ls_quote r"
    "ls_order_book s = ls_order_book r" "aware (ls_received_at s)"
    "dval (ls_spread s) = dval (dsub (ll_price (best_ask (ls_order_book r))) (ll_price (best_bid (ls_order_book r))))"
proof -
  have parts: "check_part_symbols symbol ((name, y) # rest) = Inr u \<Longrightarrow> lower y = lower symbol" for symbol name y rest u
    by (auto simp: check_part_symbols_def split: if_splits option.splits prod.splits)
  show "lower (ls_symbol s) = lower (li_symbol (ls_instrument r))" "ls_instrument s = ls_instrument r" "ls_quote s = ls_quote r"
    "ls_order_book s = ls_order_book r" "aware (ls_received_at s)"
    "dval (ls_spread s) = dval (dsub (ll_price (best_ask (ls_order_book r))) (ll_price (best_bid (ls_order_book r))))"
    using assms by (auto simp: LBankExecutionSnapshot_def and_then_Inr if_Inl_eq_Inr Let_def require_aware_Inr dest!: parts)
qed

lemma lbank_snapshot_from_sound:
  assumes "lbank_snapshot_from a env i m b = Inr s"
  shows "lbank_sound a b s"
proof -
  obtain instruments instrument quotes quote book where
    p: "find_symbol li_symbol instruments (la_symbol a) = Inr instrument" "find_symbol lq_symbol quotes (la_symbol a) = Inr quote"
      "parse_order_book (la_symbol a) b = Inr book" and
    s: "\<exists>sym ratio k. LBankExecutionSnapshot \<lparr>ls_source = ''LBank'', ls_product_group = la_product_group a,
       ls_symbol = sym, ls_received_at = le_clock env, ls_latency_ms = le_latency_ms env,
       ls_instrument = instrument, ls_quote = quote, ls_order_book = book, ls_spread = Finite k,
       ls_spread_bps = Finite (dmul ratio (dec 10000 0)),
       ls_bid_depth_quote = Finite (depth_quote (li_volume_multiple instrument) (lb_bids book)),
       ls_ask_depth_quote = Finite (depth_quote (li_volume_multiple instrument) (lb_asks book))\<rparr> = Inr s"
    using assms unfolding lbank_snapshot_from_def and_then_Inr if_Inl_eq_Inr Let_def by blast
  obtain r where r: "LBankExecutionSnapshot r = Inr s" "ls_instrument r = instrument" "ls_quote r = quote" "ls_order_book r = book"
    using s by auto
  show ?thesis using LBankExecutionSnapshot_Inr [OF r(1)] r(2-4) find_symbol_Inr [OF p(1)] find_symbol_Inr [OF p(2)]
      parse_order_book_Inr [OF p(3)] by (simp add: lbank_sound_def Let_def)
qed

text \<open>
  C20: an LBank execution snapshot is true to the responses it was read from: instrument, quote and
  order book are all of the requested symbol, its best bid is the highest price of all bid rows of
  the response and its best ask the lowest of all ask rows, whatever their order, the book is not
  crossed, and the spread is their difference.
\<close>

theorem lbank_snapshot_sound:
  assumes "lbank_fetch a env = Inr s"
  shows "\<exists>i m b. le_gather env (lbank_requests a) = Inr [i, m, b] \<and> lbank_sound a b s"
proof -
  obtain i m b where "le_gather env (lbank_requests a) = Inr [i, m, b]" "lbank_snapshot_from a env i m b = Inr s"
    using assms by (auto simp: lbank_fetch_def and_then_Inr unpack)
  then show ?thesis using lbank_snapshot_from_sound by blast
qed

definition sample_lbank_adapter :: lbank_adapter where
  "sample_lbank_adapter = \<lparr>la_symbol = ''ABCUSDT'', la_product_group = ''SwapU'', la_depth = 20, la_base_url = ''https://lbkperp.lbank.com''\<rparr>"

definition sample_instrument_row :: json where
  "sample_instrument_row = JObj [(''symbol'', JStr ''ABCUSDT''), (''baseCurrency'', JStr ''ABC''), (''priceCurrency'', JStr ''USDT''),
     (''clearCurrency'', JStr ''USDT''), (''priceTick'', JStr ''1''), (''volumeTick'', JStr ''1''), (''volumeMultiple'', JStr ''1'')]"

definition sample_quote_row :: json where
  "sample_quote_row = JObj [(''symbol'', JStr ''ABCUSDT''), (''lastPrice'', JStr ''100''), (''markedPrice'', JStr ''100'')]"

definition sample_level :: "string \<Rightarrow> json" where
  "sample_level price = JObj [(''price'', JStr price), (''volume'', JStr ''1'')]"

definition sample_book_payload :: json where
  "sample_book_payload = JObj [(''data'', JObj [(''symbol'', JStr ''ABCUSDT''),
     (''bids'', JList [sample_level ''98'', sample_level ''99'']), (''asks'', JList [sample_level ''101''])])]"

definition sample_lbank_env :: lbank_env where
  "sample_lbank_env = \<lparr>le_gather = (\<lambda>_. Inr [JList [sample_instrument_row], JList [sample_quote_row], sample_book_payload]),
     le_clock = DateTime 63903168000000000 (Some 0), le_latency_ms = 9\<rparr>"

definition sample_lbank_level :: "int \<Rightarrow> decimal lbank_level" where
  "sample_lbank_level p = \<lparr>ll_price = dec p 0, ll_volume = dec 1 0, ll_orders = None\<rparr>"

definition sample_lbank_book :: lbank_book where
  "sample_lbank_book = \<lparr>lb_symbol = ''ABCUSDT'', lb_bids = [sample_lbank_level 99, sample_lbank_level 98],
     lb_asks = [sample_lbank_level 101]\<rparr>"

definition sample_instrument :: "decimal lbank_instrument" where
  "sample_instrument = \<lparr>li_symbol = ''ABCUSDT'', li_base_currency = ''ABC'', li_price_currency = ''USDT'', li_clear_currency = ''USDT'',
     li_price_tick = dec 1 0, li_volume_tick = dec 1 0, li_volume_multiple = dec 1 0, li_min_order_volume = None, li_min_order_cost = None\<rparr>"

definition sample_quote :: "decimal lbank_quote" where
  "sample_quote = \<lparr>lq_symbol = ''ABCUSDT'', lq_last_price = dec 100 0, lq_marked_price = dec 100 0, lq_funding_rate = None,
     lq_volume_24h = None, lq_turnover_24h = None\<rparr>"

lemma sample_instrument_read: "parse_instrument sample_instrument_row = Inr sample_instrument"
  by code_simp

lemma sample_quote_read: "parse_market_quote sample_quote_row = Inr sample_quote"
  by code_simp

lemma sample_levels_read: "book_level Bids (sample_level ''98'') = Inr (sample_lbank_level 98)"
  "book_level Bids (sample_level ''99'') = Inr (sample_lbank_level 99)" "book_level Asks (sample_level ''101'') = Inr (sample_lbank_level 101)"
  by code_simp+

lemma sample_strip: "strip ''ABCUSDT'' = ''ABCUSDT''"
  by code_simp

lemma sample_book_read: "parse_order_book ''ABCUSDT'' sample_book_payload = Inr sample_lbank_book"
proof -
  have "sort_side (\<lambda>l. dval (ll_price l)) Bids [sample_lbank_level 98, sample_lbank_level 99] = [sample_lbank_level 99, sample_lbank_level 98]"
    "sort_side (\<lambda>l. dval (ll_price l)) Asks [sample_lbank_level 101] = [sample_lbank_level 101]"
    by (simp_all add: sort_desc_def sample_lbank_level_def)
  then show ?thesis
    by (simp add: parse_order_book_def sample_book_payload_def book_item_def sample_strip book_levels_def sample_levels_read
        LBankOrderBook_def required_text_def sample_lbank_book_def sample_lbank_level_def del: sort_side.simps)
qed

lemma sample_snapshot_made:
  "succeeds (LBankExecutionSnapshot \<lparr>ls_source = ''LBank'', ls_product_group = ''SwapU'', ls_symbol = ''ABCUSDT'',
     ls_received_at = DateTime 63903168000000000 (Some 0), ls_latency_ms = 9, ls_instrument = sample_instrument,
     ls_quote = sample_quote, ls_order_book = sample_lbank_book, ls_spread = Finite (dec 2 0), ls_spread_bps = Finite (dec 20000 (-2)),
     ls_bid_depth_quote = Finite (dec 197 0), ls_ask_depth_quote = Finite (dec 101 0)\<rparr>)"
  by code_simp

lemma sample_depths: "depth_quote (dec 1 0) (lb_bids sample_lbank_book) = dec 197 0" "depth_quote (dec 1 0) (lb_asks sample_lbank_book) = dec 101 0"
  by code_simp+

lemma sample_spread: "dsub (dec 101 0) (dec 99 0) = dec 2 0" "ddiv (dadd (dec 99 0) (dec 101 0)) (dec 2 0) = Inr (dec 100 0)"
  "ddiv (dec 2 0) (dec 100 0) = Inr (dec 2 (-2))" "dmul (dec 2 (-2)) (dec 10000 0) = dec 20000 (-2)"
  by code_simp+

lemma sample_lbank_fetched: "succeeds (lbank_fetch sample_lbank_adapter sample_lbank_env)"
proof -
  have a: "la_symbol sample_lbank_adapter = ''ABCUSDT''" "la_product_group sample_lbank_adapter = ''SwapU''"
    "le_clock sample_lbank_env = DateTime 63903168000000000 (Some 0)" "le_latency_ms sample_lbank_env = 9"
    "le_gather sample_lbank_env rs = Inr [JList [sample_instrument_row], JList [sample_quote_row], sample_book_payload]" for rs
    by (simp_all add: sample_lbank_adapter_def sample_lbank_env_def)
  have found: "find_symbol li_symbol [sample_instrument] ''ABCUSDT'' = Inr sample_instrument"
    "find_symbol lq_symbol [sample_quote] ''ABCUSDT'' = Inr sample_quote" by code_simp+
  have parts: "ll_price (best_bid sample_lbank_book) = dec 99 0" "ll_price (best_ask sample_lbank_book) = dec 101 0"
    "li_volume_multiple sample_instrument = dec 1 0" "li_symbol sample_instrument = ''ABCUSDT''"
    by (simp_all add: best_bid_def best_ask_def sample_lbank_book_def sample_lbank_level_def sample_instrument_def)
  show ?thesis using sample_snapshot_made
    by (simp add: lbank_fetch_def lbank_snapshot_from_def a parse_instruments_def parse_market_quotes_def sample_instrument_read
        sample_quote_read found sample_book_read parts sample_spread sample_depths aware_def Let_def)
qed

theorem lbank_snapshot_sound_witness:
  "\<exists>s i m b. lbank_fetch sample_lbank_adapter sample_lbank_env = Inr s \<and>
    le_gather sample_lbank_env (lbank_requests sample_lbank_adapter) = Inr [i, m, b] \<and> lbank_sound sample_lbank_adapter b s"
proof -
  obtain s where "lbank_fetch sample_lbank_adapter sample_lbank_env = Inr s" using sample_lbank_fetched by (auto simp: succeeds_iff)
  then show ?thesis using lbank_snapshot_sound by blast
qed

end
