(* ===== verification/Source_Cache.thy ===== *)
theory Source_Cache
  imports PyFloat
begin

text \<open>
  \<^verbatim>\<open>app/adapters/source_cache.py\<close> and the request path of \<^verbatim>\<open>app/adapters/discovery_base.py\<close>: a cache whose
  entries expire, a budget of requests in a sliding window, and \<open>request_json\<close>, which consults both.
  The operations hold a lock, so each is one step; the reading of the clock it makes is an
  argument. The theorems: the cache is indistinguishable from a log of all stores that forgets
  nothing, the budget grants a request exactly when fewer than the maximum were granted in the
  window, and a repeated request is answered from the cache without using the budget.
\<close>

section \<open>Cache\<close>

record 'v cache_entry =
  ce_value :: 'v
  ce_expires_at :: pyfloat

record 'v ttl_cache =
  tc_ttl :: pyfloat
  tc_items :: "string \<rightharpoonup> 'v cache_entry"

definition AsyncTtlCache :: "pyfloat \<Rightarrow> 'v ttl_cache result" where
  "AsyncTtlCache ttl =
     (if fle ttl (Fl 0) then Inl (ValueError ''ttl_seconds must be positive'')
      else Inr \<lparr>tc_ttl = ttl, tc_items = Map.empty\<rparr>)"

definition cache_get :: "string \<Rightarrow> pyfloat \<Rightarrow> 'v ttl_cache \<Rightarrow> 'v option \<times> 'v ttl_cache" where
  "cache_get key now c =
     (case tc_items c key of
        None \<Rightarrow> (None, c)
      | Some e \<Rightarrow>
          if fle (ce_expires_at e) now then (None, c\<lparr>tc_items := (tc_items c)(key := None)\<rparr>)
          else (Some (ce_value e), c))"

definition cache_set :: "string \<Rightarrow> 'v \<Rightarrow> pyfloat \<Rightarrow> 'v ttl_cache \<Rightarrow> 'v ttl_cache" where
  "cache_set key v now c =
     c\<lparr>tc_items := (tc_items c)(key \<mapsto> \<lparr>ce_value = v, ce_expires_at = fadd now (tc_ttl c)\<rparr>)\<rparr>"

definition cache_clear :: "'v ttl_cache \<Rightarrow> 'v ttl_cache" where
  "cache_clear c = c\<lparr>tc_items := Map.empty\<rparr>"

section \<open>Budget\<close>

record budget =
  sb_max_requests :: int
  sb_window :: pyfloat
  sb_requests :: "pyfloat list"

definition SlidingWindowBudget :: "int \<Rightarrow> pyfloat \<Rightarrow> budget result" where
  "SlidingWindowBudget max_requests window =
     (if max_requests < 1 then Inl (ValueError ''max_requests must be positive'')
      else if fle window (Fl 0) then Inl (ValueError ''window_seconds must be positive'')
      else Inr \<lparr>sb_max_requests = max_requests, sb_window = window, sb_requests = []\<rparr>)"

text \<open>The loop that pops expired requests off the left end of the queue.\<close>

fun pop_expired :: "pyfloat \<Rightarrow> pyfloat list \<Rightarrow> pyfloat list" where
  "pop_expired boundary [] = []"
| "pop_expired boundary (t # ts) = (if fle t boundary then pop_expired boundary ts else t # ts)"

definition acquire :: "pyfloat \<Rightarrow> budget \<Rightarrow> unit result \<times> budget" where
  "acquire now b =
     (let requests = pop_expired (fsub now (sb_window b)) (sb_requests b) in
      if sb_max_requests b \<le> int (length requests)
      then (Inl (RequestBudgetExceeded ''source request budget exceeded''), b\<lparr>sb_requests := requests\<rparr>)
      else (Inr (), b\<lparr>sb_requests := requests @ [now]\<rparr>))"

section \<open>Requests\<close>

text \<open>
  \<open>request_json\<close> for one key. The network client is outside the program: \<open>fetch\<close> is what the call
  of \<open>get_json_value\<close> gives or raises. The three clock readings are those of the cache lookup,
  the budget and the store. A JSON null is a payload that the cache cannot tell from a miss.
\<close>

record 'v source_state =
  so_cache :: "'v option ttl_cache"
  so_budget :: budget

definition request_json ::
  "string \<Rightarrow> 'v option result \<Rightarrow> pyfloat \<Rightarrow> pyfloat \<Rightarrow> pyfloat \<Rightarrow> 'v source_state \<Rightarrow>
     ('v option \<times> bool) result \<times> 'v source_state" where
  "request_json key fetch t_get t_budget t_set s =
     (let (cached, c) = cache_get key t_get (so_cache s); s = s\<lparr>so_cache := c\<rparr> in
      case cached of
        Some (Some payload) \<Rightarrow> (Inr (Some payload, True), s)
      | _ \<Rightarrow>
          let (granted, b) = acquire t_budget (so_budget s); s = s\<lparr>so_budget := b\<rparr> in
          (case granted of
             Inl e \<Rightarrow> (Inl e, s)
           | Inr _ \<Rightarrow>
               (case fetch of
                  Inl e \<Rightarrow> (Inl e, s)
                | Inr payload \<Rightarrow>
                    (Inr (payload, False), s\<lparr>so_cache := cache_set key payload t_set (so_cache s)\<rparr>))))"

section \<open>The cache as a log\<close>

text \<open>
  The contract of the cache: it remembers every store and every clear, newest first, and a lookup
  answers with the newest store of the key since the last clear, if it has not expired.
\<close>

datatype 'v cache_op = OpGet string | OpSet string 'v | OpClear

fun log_lookup :: "pyfloat \<Rightarrow> string \<Rightarrow> pyfloat \<Rightarrow> (pyfloat \<times> 'v cache_op) list \<Rightarrow> 'v option" where
  "log_lookup ttl key now [] = None"
| "log_lookup ttl key now ((t, OpSet k v) # hist) =
     (if k = key then if fle (fadd t ttl) now then None else Some v else log_lookup ttl key now hist)"
| "log_lookup ttl key now ((t, OpClear) # hist) = None"
| "log_lookup ttl key now ((t, OpGet k) # hist) = log_lookup ttl key now hist"

fun log_answers :: "pyfloat \<Rightarrow> (pyfloat \<times> 'v cache_op) list \<Rightarrow> (pyfloat \<times> 'v cache_op) list \<Rightarrow> 'v option list" where
  "log_answers ttl hist [] = []"
| "log_answers ttl hist ((t, a) # ops) =
     (case a of OpGet k \<Rightarrow> [log_lookup ttl k t hist] | _ \<Rightarrow> []) @ log_answers ttl ((t, a) # hist) ops"

fun cache_answers :: "'v ttl_cache \<Rightarrow> (pyfloat \<times> 'v cache_op) list \<Rightarrow> 'v option list" where
  "cache_answers c [] = []"
| "cache_answers c ((t, OpGet k) # ops) = (case cache_get k t c of (v, c') \<Rightarrow> v # cache_answers c' ops)"
| "cache_answers c ((t, OpSet k v) # ops) = cache_answers (cache_set k v t c) ops"
| "cache_answers c ((t, OpClear) # ops) = cache_answers (cache_clear c) ops"

text \<open>The items of the cache agree with the log from \<open>now\<close> on.\<close>

definition agrees :: "pyfloat \<Rightarrow> 'v ttl_cache \<Rightarrow> (pyfloat \<times> 'v cache_op) list \<Rightarrow> bool" where
  "agrees now c hist \<longleftrightarrow> (\<forall>key t. fle now t \<longrightarrow>
     log_lookup (tc_ttl c) key t hist =
       (case tc_items c key of None \<Rightarrow> None | Some e \<Rightarrow> if fle (ce_expires_at e) t then None else Some (ce_value e)))"

lemma agrees_step:
  assumes "agrees now c hist" "fle now t"
  shows "agrees t (snd (cache_get key t c)) ((t, OpGet key) # hist)"
    "fst (cache_get key t c) = log_lookup (tc_ttl c) key t hist"
    "agrees t (cache_set key v t c) ((t, OpSet key v) # hist)"
    "agrees t (cache_clear c) ((t, OpClear) # hist)"
proof -
  have later: "fle now u" if "fle t u" for u using assms(2) that by (rule fle_trans)
  have "fle t t" using assms(2) by (cases now; cases t) auto
  then show "fst (cache_get key t c) = log_lookup (tc_ttl c) key t hist"
    using assms by (auto simp: agrees_def cache_get_def split: option.splits)
  show "agrees t (snd (cache_get key t c)) ((t, OpGet key) # hist)"
    using assms(1) later fle_trans by (auto simp: agrees_def cache_get_def split: option.splits if_splits)
  show "agrees t (cache_set key v t c) ((t, OpSet key v) # hist)"
    using assms(1) later by (auto simp: agrees_def cache_set_def)
  show "agrees t (cache_clear c) ((t, OpClear) # hist)"
    by (auto simp: agrees_def cache_clear_def)
qed


lemma cache_answers_agree:
  "agrees now c hist \<Longrightarrow> \<forall>t \<in> set (map fst ops). fle now t \<Longrightarrow> sorted_wrt fle (map fst ops) \<Longrightarrow>
     cache_answers c ops = log_answers (tc_ttl c) hist ops"
proof (induction c ops arbitrary: now hist rule: cache_answers.induct)
  case (2 c t k ops)
  obtain v c' where g: "cache_get k t c = (v, c')" by fastforce
  have "tc_ttl c' = tc_ttl c" using g by (auto simp: cache_get_def split: option.splits if_splits)
  moreover have "v = log_lookup (tc_ttl c) k t hist" "agrees t c' ((t, OpGet k) # hist)"
    using agrees_step(1,2) [OF "2.prems"(1), of t k] "2.prems"(2) g by auto
  moreover have "cache_answers c' ops = log_answers (tc_ttl c') ((t, OpGet k) # hist) ops"
    using "2.IH" [OF g [symmetric] calculation(3)] "2.prems"(3) by simp
  ultimately show ?case using g by simp
next
  case (3 c t k v ops)
  have "agrees t (cache_set k v t c) ((t, OpSet k v) # hist)" using agrees_step(3) "3.prems"(1,2) by fastforce
  then show ?case using "3.IH" "3.prems"(3) by (simp add: cache_set_def)
next
  case (4 c t ops)
  have "agrees t (cache_clear c) ((t, OpClear) # hist)" using agrees_step(4) "4.prems"(1,2) by fastforce
  then show ?case using "4.IH" "4.prems"(3) by (simp add: cache_clear_def)
qed simp

text \<open>
  C16: the cache refines the log: whatever lookups, stores and clears happen on a clock that never goes
  back, every lookup is answered as if nothing were ever evicted, by the newest store of the key
  since the last clear if less than its lifetime has passed.
\<close>

theorem cache_refines_log:
  assumes "AsyncTtlCache ttl = Inr c" "sorted_wrt fle (map fst ops)" "\<forall>t \<in> set (map fst ops). t \<noteq> FNaN"
  shows "cache_answers c ops = log_answers ttl [] ops"
proof -
  have c: "c = \<lparr>tc_ttl = ttl, tc_items = Map.empty\<rparr>"
    using assms(1) by (auto simp: AsyncTtlCache_def split: if_splits)
  have "\<forall>t \<in> set (map fst ops). fle (FInf True) t"
  proof
    fix t assume "t \<in> set (map fst ops)"
    then have "t \<noteq> FNaN" using assms(3) by blast
    then show "fle (FInf True) t" by (cases t) auto
  qed
  then show ?thesis using cache_answers_agree [of "FInf True" c "[]" ops] assms(2) by (simp add: c agrees_def)
qed

section \<open>The budget as a window\<close>

text \<open>The requests granted so far, oldest first, and the budget, after attempts at the given times.\<close>

definition budget_step :: "pyfloat list \<times> budget \<Rightarrow> pyfloat \<Rightarrow> pyfloat list \<times> budget" where
  "budget_step s t = (case acquire t (snd s) of (granted, b) \<Rightarrow>
     (case granted of Inl e \<Rightarrow> fst s | Inr _ \<Rightarrow> fst s @ [t], b))"

definition budget_run :: "budget \<Rightarrow> pyfloat list \<Rightarrow> pyfloat list \<times> budget" where
  "budget_run b ts = foldl budget_step ([], b) ts"

definition in_window :: "pyfloat \<Rightarrow> pyfloat \<Rightarrow> pyfloat list \<Rightarrow> pyfloat list" where
  "in_window window now gs = filter (\<lambda>g. \<not> fle g (fsub now window)) gs"

definition budget_inv :: "int \<Rightarrow> rat \<Rightarrow> rat \<Rightarrow> pyfloat list \<times> budget \<Rightarrow> bool" where
  "budget_inv m w now s \<longleftrightarrow> sb_max_requests (snd s) = m \<and> sb_window (snd s) = Fl w \<and>
     sorted_wrt fle (fst s) \<and> (\<forall>g \<in> set (fst s). fle g (Fl now)) \<and>
     (\<forall>t \<ge> now. pop_expired (fsub (Fl t) (Fl w)) (sb_requests (snd s)) = in_window (Fl w) (Fl t) (fst s) \<and>
        int (length (in_window (Fl w) (Fl t) (fst s))) \<le> m)"

lemma pop_expired_filter:
  "sorted_wrt fle xs \<Longrightarrow> pop_expired b xs = filter (\<lambda>x. \<not> fle x b) xs"
proof (induction xs)
  case (Cons x xs)
  show ?case
  proof (cases "fle x b")
    case False
    then have "\<not> fle y b" if "y \<in> set xs" for y using Cons.prems that fle_trans by auto
    then show ?thesis using False by (auto simp: filter_id_conv)
  qed (use Cons in simp)
qed simp

lemma window_shrinks:
  assumes "t \<le> u"
  shows "in_window (Fl w) (Fl u) (in_window (Fl w) (Fl t) gs) = in_window (Fl w) (Fl u) gs"
    "length (in_window (Fl w) (Fl u) gs) \<le> length (in_window (Fl w) (Fl t) gs)"
proof -
  have later: "fle g (fsub (Fl u) (Fl w))" if "fle g (fsub (Fl t) (Fl w))" for g
    using that fsub_mono [OF assms] by (rule fle_trans)
  then show eq: "in_window (Fl w) (Fl u) (in_window (Fl w) (Fl t) gs) = in_window (Fl w) (Fl u) gs"
    by (induction gs) (auto simp: in_window_def)
  have "length (in_window (Fl w) (Fl u) (in_window (Fl w) (Fl t) gs)) \<le> length (in_window (Fl w) (Fl t) gs)"
    unfolding in_window_def by (rule length_filter_le)
  then show "length (in_window (Fl w) (Fl u) gs) \<le> length (in_window (Fl w) (Fl t) gs)" by (simp add: eq)
qed

lemma acquire_window:
  assumes "budget_inv m w now (gs, b)" "now \<le> t"
  shows "fst (acquire (Fl t) b) = Inr () \<longleftrightarrow> int (length (in_window (Fl w) (Fl t) gs)) < m"
  using assms by (auto simp: budget_inv_def acquire_def Let_def)


lemma budget_step_inv:
  assumes "budget_inv m w now s" "now \<le> t" "1 \<le> m"
  shows "budget_inv m w t (budget_step s (Fl t))"
proof -
  obtain gs b where s: "s = (gs, b)" by fastforce
  let ?in = "in_window (Fl w) (Fl t) gs"
  have b: "sb_max_requests b = m" "sb_window b = Fl w" "sorted_wrt fle gs"
    and pop: "pop_expired (fsub (Fl t) (Fl w)) (sb_requests b) = ?in" and le: "int (length ?in) \<le> m"
    and below: "\<And>g. g \<in> set gs \<Longrightarrow> fle g (Fl t)"
    using assms(1,2) fle_trans [of _ "Fl now" "Fl t"] by (auto simp: budget_inv_def s)
  have sorted_in: "sorted_wrt fle ?in" using b(3) by (simp add: in_window_def sorted_wrt_filter)
  have again: "pop_expired (fsub (Fl u) (Fl w)) ?in = in_window (Fl w) (Fl u) gs" if "t \<le> u" for u
    using window_shrinks(1) [OF that, of w gs] pop_expired_filter [OF sorted_in] by (simp add: in_window_def)
  show ?thesis
  proof (cases "m \<le> int (length ?in)")
    case True
    then have "budget_step s (Fl t) = (gs, b\<lparr>sb_requests := ?in\<rparr>)"
      using pop b by (simp add: budget_step_def s acquire_def Let_def)
    then show ?thesis using b below again le window_shrinks(2) [of t _ w gs]
      by (fastforce simp: budget_inv_def intro: order_trans)
  next
    case False
    let ?gs = "gs @ [Fl t]"
    have step: "budget_step s (Fl t) = (?gs, b\<lparr>sb_requests := ?in @ [Fl t]\<rparr>)"
      using False pop b by (simp add: budget_step_def s acquire_def Let_def)
    have sorted_gs: "sorted_wrt fle ?gs" using b(3) below by (simp add: sorted_wrt_append)
    have "sorted_wrt fle (?in @ [Fl t])" using sorted_in below by (simp add: sorted_wrt_append in_window_def)
    then have win: "pop_expired (fsub (Fl u) (Fl w)) (?in @ [Fl t]) = in_window (Fl w) (Fl u) ?gs" if "t \<le> u" for u
      using window_shrinks(1) [OF that, of w gs] by (simp add: pop_expired_filter in_window_def)
    have "length (in_window (Fl w) (Fl u) ?gs) \<le> Suc (length ?in)" if "t \<le> u" for u
      using window_shrinks(2) [OF that, of w gs] by (simp add: in_window_def)
    then have "int (length (in_window (Fl w) (Fl u) ?gs)) \<le> m" if "t \<le> u" for u
      using that False by (smt (verit) int_ops(4) of_nat_mono)
    then show ?thesis using b sorted_gs below win step by (auto simp: budget_inv_def)
  qed
qed

lemma budget_run_inv:
  assumes "sorted ts" "1 \<le> m" "\<forall>t \<in> set ts. t \<le> now" "budget_inv m w t0 s" "\<forall>t \<in> set ts. t0 \<le> t" "t0 \<le> now"
  shows "budget_inv m w now (foldl budget_step s (map Fl ts))"
  using assms
proof (induction ts arbitrary: s t0)
  case Nil
  then show ?case by (auto simp: budget_inv_def intro: fle_trans)
next
  case (Cons t ts)
  have "budget_inv m w t (budget_step s (Fl t))" by (rule budget_step_inv [OF Cons.prems(4)]) (use Cons.prems in auto)
  then show ?case using Cons.IH [of t] Cons.prems by simp
qed


text \<open>
  C29: the budget is an exact sliding window: after any attempts on a clock that never goes back, at
  most \<open>max_requests\<close> of the granted ones lie in the window that ends now, and the next attempt is
  granted exactly when fewer do.
\<close>

theorem budget_exact:
  assumes "SlidingWindowBudget m (Fl w) = Inr b" "sorted (ts @ [now])" "budget_run b (map Fl ts) = (gs, b')"
  shows "int (length (in_window (Fl w) (Fl now) gs)) \<le> m \<and>
    (fst (acquire (Fl now) b') = Inr () \<longleftrightarrow> int (length (in_window (Fl w) (Fl now) gs)) < m)"
proof -
  have b: "b = \<lparr>sb_max_requests = m, sb_window = Fl w, sb_requests = []\<rparr>" "1 \<le> m"
    using assms(1) by (auto simp: SlidingWindowBudget_def split: if_splits)
  let ?t0 = "hd (ts @ [now])"
  have start: "budget_inv m w ?t0 ([], b)" using b by (simp add: budget_inv_def in_window_def)
  have first: "\<forall>t \<in> set ts. ?t0 \<le> t" "?t0 \<le> now" using assms(2) by (cases ts; auto simp: sorted_append)+
  have "budget_inv m w now (gs, b')"
    using budget_run_inv [OF _ b(2) _ start first] assms(2,3) by (simp add: budget_run_def sorted_append)
  then show ?thesis using acquire_window [of m w now gs b' now] by (simp add: budget_inv_def)
qed

section \<open>Stores of keyed values\<close>

text \<open>What a client relies on: a fresh value is found again, and other keys do not disturb it.\<close>

locale keyed_store =
  fixes look :: "'k \<Rightarrow> 't \<Rightarrow> 's \<Rightarrow> 'v option \<times> 's"
    and put :: "'k \<Rightarrow> 'v \<Rightarrow> 't \<Rightarrow> 's \<Rightarrow> 's"
    and fresh :: "'s \<Rightarrow> 't \<Rightarrow> 't \<Rightarrow> bool"
  assumes look_put: "fresh s stored now \<Longrightarrow> look k now (put k v stored s) = (Some v, put k v stored s)"
    and look_put_other: "k \<noteq> k' \<Longrightarrow> fst (look k' now (put k v stored s)) = fst (look k' now s)"
    and look_keeps: "fst (look k now s) = Some v \<Longrightarrow> snd (look k now s) = s"
begin

lemma survives_puts:
  assumes "fresh s stored now" "k \<notin> fst ` set kvs"
  shows "look k now (foldl (\<lambda>s (k', v', t'). put k' v' t' s) (put k v stored s) kvs) =
    (Some v, foldl (\<lambda>s (k', v', t'). put k' v' t' s) (put k v stored s) kvs)"
proof -
  have "fst (look k now (foldl (\<lambda>s (k', v', t'). put k' v' t' s) s1 kvs)) = fst (look k now s1)" for s1
    using assms(2)
  proof (induction kvs arbitrary: s1)
    case (Cons x kvs)
    then show ?case using look_put_other [of "fst x" k now] by (cases x) auto
  qed simp
  then have "fst (look k now (foldl (\<lambda>s (k', v', t'). put k' v' t' s) (put k v stored s) kvs)) = Some v"
    using look_put [OF assms(1)] by simp
  then show ?thesis using look_keeps by (metis prod.collapse)
qed

end

definition cache_fresh :: "'v ttl_cache \<Rightarrow> pyfloat \<Rightarrow> pyfloat \<Rightarrow> bool" where
  "cache_fresh c stored now \<longleftrightarrow> \<not> fle (fadd stored (tc_ttl c)) now"

interpretation ttl: keyed_store cache_get cache_set cache_fresh
  by unfold_locales (auto simp: cache_get_def cache_set_def cache_fresh_def split: option.splits if_splits)

text \<open>
  What was stored is read back: after a store, and any stores of other keys, a lookup before the
  lifetime has passed returns the value and leaves the cache as it was.
\<close>

theorem cache_round_trip:
  assumes "\<not> fle (fadd stored (tc_ttl c)) now" "key \<notin> fst ` set others"
  shows "cache_get key now (foldl (\<lambda>c (k, v, t). cache_set k v t c) (cache_set key x stored c) others) =
    (Some x, foldl (\<lambda>c (k, v, t). cache_set k v t c) (cache_set key x stored c) others)"
  using ttl.survives_puts [of c stored now key others x] assms by (simp add: cache_fresh_def)

text \<open>
  A request that reached the network is answered from the cache while its payload is fresh: the
  repeated request returns the same payload marked as a hit, whatever the network would say, and
  neither the cache nor the budget changes.
\<close>

theorem request_json_cached:
  assumes "request_json key fetch t_get t_budget t_set s = (Inr (Some payload, False), s')"
    "\<not> fle (fadd t_set (tc_ttl (so_cache s))) now"
  shows "request_json key fetch' now t_budget' t_set' s' = (Inr (Some payload, True), s')"
proof -
  obtain cached c where g: "cache_get key t_get (so_cache s) = (cached, c)" by fastforce
  have ttl: "tc_ttl c = tc_ttl (so_cache s)" using g by (auto simp: cache_get_def split: option.splits if_splits)
  have "so_cache s' = cache_set key (Some payload) t_set c"
    using assms(1) g by (auto simp: request_json_def Let_def split: option.splits sum.splits prod.splits)
  then have "cache_get key now (so_cache s') = (Some (Some payload), so_cache s')"
    using ttl.look_put [of c t_set now] assms(2) ttl by (simp add: cache_fresh_def)
  then show ?thesis by (simp add: request_json_def)
qed

section \<open>Examples\<close>

theorem cache_refines_log_witness:
  "\<exists>c. AsyncTtlCache (Fl 5) = Inr c \<and>
     cache_answers c [(Fl 0, OpSet ''a'' True), (Fl 1, OpGet ''a''), (Fl 7, OpGet ''a'')] =
     log_answers (Fl 5) [] [(Fl 0, OpSet ''a'' True), (Fl 1, OpGet ''a''), (Fl 7, OpGet ''a'')]"
  using cache_refines_log [of "Fl 5" "\<lparr>tc_ttl = Fl 5, tc_items = Map.empty\<rparr>"
      "[(Fl 0, OpSet ''a'' True), (Fl 1, OpGet ''a''), (Fl 7, OpGet ''a'')]"]
  by (simp add: AsyncTtlCache_def)

theorem budget_exact_witness:
  "\<exists>b gs b'. SlidingWindowBudget 2 (Fl 60) = Inr b \<and> budget_run b (map Fl [1, 2, 3]) = (gs, b') \<and>
     int (length (in_window (Fl 60) (Fl 4) gs)) \<le> 2"
proof -
  obtain b where b: "SlidingWindowBudget 2 (Fl 60) = Inr b" by (simp add: SlidingWindowBudget_def)
  obtain gs b' where r: "budget_run b (map Fl [1, 2, 3]) = (gs, b')" by fastforce
  show ?thesis using budget_exact [OF b _ r, of 4] b r by auto
qed

theorem cache_round_trip_witness:
  "fst (cache_get ''a'' (Fl 2) (cache_set ''b'' 4 (Fl 1) (cache_set ''a'' (3 :: int) (Fl 0)
     \<lparr>tc_ttl = FInf False, tc_items = Map.empty\<rparr>))) = Some 3"
  using cache_round_trip [of "Fl 0" "\<lparr>tc_ttl = FInf False, tc_items = Map.empty\<rparr>" "Fl 2" "''a''" "[(''b'', 4, Fl 1)]" "3 :: int"]
  by simp

definition sample_source :: "int source_state" where
  "sample_source = \<lparr>so_cache = \<lparr>tc_ttl = FInf False, tc_items = Map.empty\<rparr>,
     so_budget = \<lparr>sb_max_requests = 1, sb_window = Fl 60, sb_requests = []\<rparr>\<rparr>"

theorem request_json_cached_witness:
  "\<exists>s. fst (request_json ''a'' (Inr (Some 7)) (Fl 0) (Fl 0) (Fl 0) sample_source) = Inr (Some 7, False) \<and>
     request_json ''a'' (Inl (TimeoutError '''')) (Fl 1) (Fl 1) (Fl 1) s = (Inr (Some (7 :: int), True), s)"
proof -
  obtain s where s: "request_json ''a'' (Inr (Some 7)) (Fl 0) (Fl 0) (Fl 0) sample_source = (Inr (Some 7, False), s)"
    by (simp add: request_json_def sample_source_def cache_get_def acquire_def Let_def)
  have "\<not> fle (fadd (Fl 0) (tc_ttl (so_cache sample_source))) (Fl 1)" by (simp add: sample_source_def)
  from request_json_cached [OF s this] s show ?thesis by auto
qed

end
