(* ===== verification/Discovery_Adapters.thy ===== *)
theory Discovery_Adapters
  imports Benchmark_Adapters Source_Cache
begin

text \<open>
  \<^verbatim>\<open>app/adapters/discovery_base.py\<close>, \<^verbatim>\<open>dex_screener.py\<close> and \<^verbatim>\<open>coingecko.py\<close>: the feeds that discover tokens. A fetch asks
  the cache, then the budget, then the network, and reads every item of the answer into a record. The
  state of an adapter is its cache and its budget. The network client is outside the program:
  \<open>de_get\<close> is what \<open>get_json_value\<close> gives for a URL with its parameters, or raises.
\<close>

section \<open>Adapters\<close>

datatype dex_feed = BOOSTS | PROFILES | SEARCH | TOKEN_PAIRS

datatype gecko_feed = MARKETS | CATEGORIES | UNIVERSE

fun dex_feed_value :: "dex_feed \<Rightarrow> string" where
  "dex_feed_value BOOSTS = ''BOOSTS''"
| "dex_feed_value PROFILES = ''PROFILES''"
| "dex_feed_value SEARCH = ''SEARCH''"
| "dex_feed_value TOKEN_PAIRS = ''TOKEN_PAIRS''"

fun gecko_feed_value :: "gecko_feed \<Rightarrow> string" where
  "gecko_feed_value MARKETS = ''MARKETS''"
| "gecko_feed_value CATEGORIES = ''CATEGORIES''"
| "gecko_feed_value UNIVERSE = ''UNIVERSE''"

record dex_adapter =
  da_feed :: dex_feed
  da_query :: "string option"
  da_chain_id :: "string option"
  da_token_address :: "string option"
  da_base_url :: string

record gecko_adapter =
  ga_feed :: gecko_feed
  ga_category :: "string option"
  ga_page :: int
  ga_per_page :: int
  ga_order :: string
  ga_vs_currency :: string
  ga_base_url :: string

record discovery_env =
  de_get :: "string \<Rightarrow> json_object option \<Rightarrow> json result"
  de_t_get :: pyfloat
  de_t_budget :: pyfloat
  de_t_set :: pyfloat
  de_now :: datetime
  de_latency_ms :: int

text \<open>\<open>DiscoveryAdapterBase.__init__\<close> with the cache and the budget it makes by default.\<close>

definition DiscoveryAdapterBase :: "string \<Rightarrow> pyfloat \<Rightarrow> int \<Rightarrow> (string \<times> json source_state) result" where
  "DiscoveryAdapterBase base_url ttl_seconds max_requests =
     (let normalized_url = rstrip_slash base_url in
      if \<not> starts_with ''https://'' normalized_url then Inl (ValueError ''base_url must use HTTPS'')
      else and_then (AsyncTtlCache ttl_seconds) (\<lambda>cache.
      and_then (SlidingWindowBudget max_requests (Fl 60)) (\<lambda>budget.
      Inr (normalized_url, \<lparr>so_cache = cache, so_budget = budget\<rparr>))))"

definition blank :: "string option \<Rightarrow> bool" where
  "blank s \<longleftrightarrow> s = None \<or> s = Some ''''"

definition DexScreenerAdapter ::
  "dex_feed \<Rightarrow> string option \<Rightarrow> string option \<Rightarrow> string option \<Rightarrow> string \<Rightarrow> pyfloat \<Rightarrow> (dex_adapter \<times> json source_state) result" where
  "DexScreenerAdapter feed query chain_id token_address base_url ttl_seconds =
     (let query = map_option strip query; chain_id = map_option strip chain_id; token_address = map_option strip token_address in
      if feed = SEARCH \<and> blank query then Inl (ValueError ''query is required for SEARCH'')
      else if feed = TOKEN_PAIRS \<and> (blank chain_id \<or> blank token_address)
        then Inl (ValueError ''chain_id and token_address are required for TOKEN_PAIRS'')
      else and_then (DiscoveryAdapterBase base_url ttl_seconds (if feed \<in> {BOOSTS, PROFILES} then 60 else 300)) (\<lambda>(normalized, s).
        Inr (\<lparr>da_feed = feed, da_query = query, da_chain_id = chain_id, da_token_address = token_address, da_base_url = normalized\<rparr>, s)))"

definition CoinGeckoDiscoveryAdapter ::
  "gecko_feed \<Rightarrow> string option \<Rightarrow> int \<Rightarrow> int \<Rightarrow> string \<Rightarrow> string \<Rightarrow> string \<Rightarrow> pyfloat \<Rightarrow> int \<Rightarrow>
     (gecko_adapter \<times> json source_state) result" where
  "CoinGeckoDiscoveryAdapter feed category page per_page order vs_currency base_url ttl_seconds max_requests =
     (let normalized_currency = lower (strip vs_currency) in
      if page < 1 then Inl (ValueError ''page must be positive'')
      else if per_page < 1 \<or> 250 < per_page then Inl (ValueError ''per_page must be between 1 and 250'')
      else if normalized_currency = '''' then Inl (ValueError ''vs_currency is required'')
      else if strip order = '''' then Inl (ValueError ''order is required'')
      else and_then (DiscoveryAdapterBase base_url ttl_seconds max_requests) (\<lambda>(normalized, s).
        Inr (\<lparr>ga_feed = feed, ga_category = map_option strip category, ga_page = page, ga_per_page = per_page,
          ga_order = strip order, ga_vs_currency = normalized_currency, ga_base_url = normalized\<rparr>, s)))"

text \<open>\<open>fetched_at\<close>.\<close>

definition fetched_now :: "datetime \<Rightarrow> datetime result" where
  "fetched_now now = (if aware now then Inr now else Inl (ValueError ''clock must return a timezone-aware datetime''))"

section \<open>Requests\<close>

text \<open>The key under which an answer is cached, its URL and its parameters. \<open>f"{None}"\<close> is \<open>None\<close>.\<close>

definition shown :: "string option \<Rightarrow> string" where
  "shown s = (case s of None \<Rightarrow> ''None'' | Some t \<Rightarrow> t)"

definition json_text :: "string option \<Rightarrow> json" where
  "json_text s = (case s of None \<Rightarrow> JNull | Some t \<Rightarrow> JStr t)"

definition dex_request :: "dex_adapter \<Rightarrow> string \<times> string \<times> json_object option" where
  "dex_request a =
     (case da_feed a of
        BOOSTS \<Rightarrow> (''boosts:latest'', da_base_url a @ ''/token-boosts/latest/v1'', None)
      | PROFILES \<Rightarrow> (''profiles:latest'', da_base_url a @ ''/token-profiles/latest/v1'', None)
      | SEARCH \<Rightarrow> (''search:'' @ shown (da_query a), da_base_url a @ ''/latest/dex/search'', Some [(''q'', json_text (da_query a))])
      | TOKEN_PAIRS \<Rightarrow> (''pairs:'' @ shown (da_chain_id a) @ '':'' @ shown (da_token_address a),
          da_base_url a @ ''/token-pairs/v1/'' @ shown (da_chain_id a) @ ''/'' @ shown (da_token_address a), None))"

definition gecko_request :: "gecko_adapter \<Rightarrow> string \<times> string \<times> json_object option" where
  "gecko_request a =
     (case ga_feed a of
        CATEGORIES \<Rightarrow> (''categories'', ga_base_url a @ ''/coins/categories'', None)
      | UNIVERSE \<Rightarrow> (''universe'', ga_base_url a @ ''/coins/list'', Some [(''include_platform'', JStr ''false'')])
      | MARKETS \<Rightarrow>
          (''markets:'' @ ga_vs_currency a @ '':'' @ (if blank (ga_category a) then ''all'' else the (ga_category a)) @ '':'' @
             ga_order a @ '':'' @ str_int (ga_page a) @ '':'' @ str_int (ga_per_page a),
           ga_base_url a @ ''/coins/markets'',
           Some ([(''vs_currency'', JStr (ga_vs_currency a)), (''order'', JStr (ga_order a)), (''per_page'', JInt (ga_per_page a)),
              (''page'', JInt (ga_page a)), (''sparkline'', JStr ''false''), (''price_change_percentage'', JStr ''24h'')] @
             (if blank (ga_category a) then [] else [(''category'', json_text (ga_category a))]))))"

text \<open>\<open>request_json\<close> on JSON: a null is what the cache cannot tell from a miss.\<close>

definition null_as_none :: "json \<Rightarrow> json option" where
  "null_as_none v = (if v = JNull then None else Some v)"

definition discovery_request ::
  "string \<times> string \<times> json_object option \<Rightarrow> discovery_env \<Rightarrow> json source_state \<Rightarrow> (json \<times> bool) result \<times> json source_state" where
  "discovery_request q env s =
     (case q of (key, u, params) \<Rightarrow>
        let (r, s') = request_json key (and_then (de_get env u params) (\<lambda>v. Inr (null_as_none v)))
              (de_t_get env) (de_t_budget env) (de_t_set env) s
        in (and_then r (\<lambda>(p, hit). Inr (case p of None \<Rightarrow> JNull | Some v \<Rightarrow> v, hit)), s'))"

section \<open>Records\<close>

type_synonym found_record = "json_object discovery_record"

definition text_of :: "json \<Rightarrow> string option" where
  "text_of v = (case v of JStr s \<Rightarrow> Some s | _ \<Rightarrow> None)"

definition object_or_empty :: "json \<Rightarrow> json_object" where
  "object_or_empty v = (case v of JObj d \<Rightarrow> d | _ \<Rightarrow> [])"

definition dex_records_payload :: "dex_feed \<Rightarrow> json \<Rightarrow> json list result" where
  "dex_records_payload feed payload =
     (if feed = SEARCH
      then and_then (require_object ''search'' payload) (\<lambda>root. require_list ''search.pairs'' (get root ''pairs''))
      else case payload of JObj d \<Rightarrow> Inr [payload] | _ \<Rightarrow> require_list (lower (dex_feed_value feed)) payload)"

text \<open>\<open>isinstance(amount, int)\<close> holds of booleans too.\<close>

definition boost_amount :: "json \<Rightarrow> int option" where
  "boost_amount v = (case v of JInt n \<Rightarrow> Some n | JBool b \<Rightarrow> Some (if b then 1 else 0) | _ \<Rightarrow> None)"

definition token_record :: "dex_feed \<Rightarrow> json_object \<Rightarrow> found_record result" where
  "token_record feed item =
     and_then (require_text ''chainId'' (get item ''chainId'')) (\<lambda>chain_id.
     and_then (require_text ''tokenAddress'' (get item ''tokenAddress'')) (\<lambda>token_address.
     DiscoveryRecord \<lparr>dr_source = DEX_SCREENER, dr_role = DISCOVERY_ONLY, dr_external_id = chain_id @ '':'' @ token_address,
       dr_symbol = None, dr_name = None, dr_chain_id = Some chain_id, dr_token_address = Some token_address, dr_category = None,
       dr_price_usd = None, dr_liquidity_usd = None, dr_volume_24h_usd = None, dr_market_cap_usd = None,
       dr_price_change_24h_pct = None, dr_boost_active = (if feed = BOOSTS then boost_amount (get item ''amount'') else None),
       dr_pair_created_at = None, dr_url = text_of (get item ''url''),
       dr_metadata = [(''feed'', JStr (dex_feed_value feed)), (''description'', get item ''description''), (''icon'', get item ''icon''),
         (''header'', get item ''header''), (''links'', (case get item ''links'' of JList xs \<Rightarrow> JList xs | _ \<Rightarrow> JList [])),
         (''amount'', get item ''amount''), (''total_amount'', get item ''totalAmount'')]\<rparr>))"

definition parse_boost :: "json \<Rightarrow> int option result" where
  "parse_boost v = (case v of JNull \<Rightarrow> Inr None | JInt n \<Rightarrow> Inr (Some n) | _ \<Rightarrow> Inl (ParserError ''boosts.active must be an integer''))"

definition usd :: "string \<Rightarrow> json \<Rightarrow> decimal option result" where
  "usd fld v = parse_decimal_optional fld False True v"

definition pair_record :: "json_object \<Rightarrow> found_record result" where
  "pair_record item =
     and_then (require_text ''pairAddress'' (get item ''pairAddress'')) (\<lambda>pair_address.
     and_then (require_text ''chainId'' (get item ''chainId'')) (\<lambda>chain_id.
     and_then (require_object ''baseToken'' (get item ''baseToken'')) (\<lambda>base_token.
     and_then (require_text ''baseToken.address'' (get base_token ''address'')) (\<lambda>token_address.
     and_then (require_text ''baseToken.symbol'' (get base_token ''symbol'')) (\<lambda>symbol.
     let liquidity = object_or_empty (get item ''liquidity''); vol = object_or_empty (get item ''volume'');
         change = object_or_empty (get item ''priceChange''); boosts = object_or_empty (get item ''boosts'') in
     and_then (parse_boost (get boosts ''active'')) (\<lambda>boost_active.
     and_then (usd ''priceUsd'' (get item ''priceUsd'')) (\<lambda>price_usd.
     and_then (usd ''liquidity.usd'' (get liquidity ''usd'')) (\<lambda>liquidity_usd.
     and_then (usd ''volume.h24'' (get vol ''h24'')) (\<lambda>volume_usd.
     and_then (usd ''marketCap'' (get item ''marketCap'')) (\<lambda>cap_usd.
     and_then (parse_decimal_optional ''priceChange.h24'' False False (get change ''h24'')) (\<lambda>change_pct.
     and_then (parse_epoch_ms_optional ''pairCreatedAt'' (get item ''pairCreatedAt'')) (\<lambda>created.
     DiscoveryRecord \<lparr>dr_source = DEX_SCREENER, dr_role = DISCOVERY_ONLY, dr_external_id = pair_address,
       dr_symbol = Some symbol, dr_name = text_of (get base_token ''name''), dr_chain_id = Some chain_id,
       dr_token_address = Some token_address, dr_category = None, dr_price_usd = map_option Finite price_usd,
       dr_liquidity_usd = map_option Finite liquidity_usd, dr_volume_24h_usd = map_option Finite volume_usd,
       dr_market_cap_usd = map_option Finite cap_usd, dr_price_change_24h_pct = map_option Finite change_pct,
       dr_boost_active = boost_active, dr_pair_created_at = created, dr_url = text_of (get item ''url''),
       dr_metadata = [(''dex_id'', get item ''dexId''), (''quote_token'', get item ''quoteToken''),
         (''labels'', get_default item ''labels'' (JList []))]\<rparr>))))))))))))"

definition dex_record :: "dex_feed \<Rightarrow> json \<Rightarrow> found_record result" where
  "dex_record feed raw =
     and_then (require_object ''record'' raw) (\<lambda>item.
     if feed \<in> {BOOSTS, PROFILES} then token_record feed item else pair_record item)"

definition market_record :: "string option \<Rightarrow> json_object \<Rightarrow> found_record result" where
  "market_record category item =
     and_then (require_text ''id'' (get item ''id'')) (\<lambda>external_id.
     and_then (require_text ''symbol'' (get item ''symbol'')) (\<lambda>symbol.
     and_then (require_text ''name'' (get item ''name'')) (\<lambda>name.
     and_then (usd ''current_price'' (get item ''current_price'')) (\<lambda>price_usd.
     and_then (usd ''total_volume'' (get item ''total_volume'')) (\<lambda>volume_usd.
     and_then (usd ''market_cap'' (get item ''market_cap'')) (\<lambda>cap_usd.
     and_then (parse_decimal_optional ''price_change_percentage_24h'' False False (get item ''price_change_percentage_24h'')) (\<lambda>change_pct.
     DiscoveryRecord \<lparr>dr_source = COINGECKO, dr_role = DISCOVERY_ONLY, dr_external_id = external_id,
       dr_symbol = Some (upper symbol), dr_name = Some name, dr_chain_id = None, dr_token_address = None, dr_category = category,
       dr_price_usd = map_option Finite price_usd, dr_liquidity_usd = None, dr_volume_24h_usd = map_option Finite volume_usd,
       dr_market_cap_usd = map_option Finite cap_usd, dr_price_change_24h_pct = map_option Finite change_pct,
       dr_boost_active = None, dr_pair_created_at = None, dr_url = None,
       dr_metadata = map (\<lambda>k. (k, get item k)) [''market_cap_rank'', ''fully_diluted_valuation'', ''circulating_supply'',
         ''total_supply'', ''max_supply'', ''ath'', ''atl'', ''last_updated'']\<rparr>)))))))"

definition category_record :: "json_object \<Rightarrow> found_record result" where
  "category_record item =
     and_then (require_text ''id'' (get item ''id'')) (\<lambda>external_id.
     and_then (require_text ''name'' (get item ''name'')) (\<lambda>name.
     and_then (usd ''market_cap'' (get item ''market_cap'')) (\<lambda>cap_usd.
     and_then (usd ''volume_24h'' (get item ''volume_24h'')) (\<lambda>volume_usd.
     and_then (parse_decimal_optional ''market_cap_change_24h'' False False (get item ''market_cap_change_24h'')) (\<lambda>change_pct.
     DiscoveryRecord \<lparr>dr_source = COINGECKO, dr_role = DISCOVERY_ONLY, dr_external_id = external_id, dr_symbol = None,
       dr_name = Some name, dr_chain_id = None, dr_token_address = None, dr_category = Some name, dr_price_usd = None,
       dr_liquidity_usd = None, dr_volume_24h_usd = map_option Finite volume_usd, dr_market_cap_usd = map_option Finite cap_usd,
       dr_price_change_24h_pct = map_option Finite change_pct, dr_boost_active = None, dr_pair_created_at = None, dr_url = None,
       dr_metadata = [(''content'', get item ''content''), (''top_3_coins'', get_default item ''top_3_coins'' (JList [])),
         (''updated_at'', get item ''updated_at'')]\<rparr>)))))"

definition universe_record :: "json_object \<Rightarrow> found_record result" where
  "universe_record item =
     and_then (require_text ''id'' (get item ''id'')) (\<lambda>external_id.
     and_then (require_text ''symbol'' (get item ''symbol'')) (\<lambda>symbol.
     and_then (require_text ''name'' (get item ''name'')) (\<lambda>name.
     DiscoveryRecord \<lparr>dr_source = COINGECKO, dr_role = DISCOVERY_ONLY, dr_external_id = external_id,
       dr_symbol = Some (upper symbol), dr_name = Some name, dr_chain_id = None, dr_token_address = None, dr_category = None,
       dr_price_usd = None, dr_liquidity_usd = None, dr_volume_24h_usd = None, dr_market_cap_usd = None,
       dr_price_change_24h_pct = None, dr_boost_active = None, dr_pair_created_at = None, dr_url = None, dr_metadata = []\<rparr>)))"

definition gecko_record :: "gecko_adapter \<Rightarrow> json \<Rightarrow> found_record result" where
  "gecko_record a raw =
     and_then (require_object ''record'' raw) (\<lambda>item.
     case ga_feed a of MARKETS \<Rightarrow> market_record (ga_category a) item | CATEGORIES \<Rightarrow> category_record item
       | UNIVERSE \<Rightarrow> universe_record item)"

section \<open>Batches\<close>

text \<open>The tail of both \<open>fetch_batch\<close> methods: items into records, the clock, the batch.\<close>

definition batch_of ::
  "discovery_source \<Rightarrow> string \<Rightarrow> datetime \<Rightarrow> bool \<Rightarrow> (json \<Rightarrow> found_record result) \<Rightarrow> json list \<Rightarrow> json_object discovery_batch result" where
  "batch_of source key now hit read raws =
     and_then (traverse read raws) (\<lambda>records.
     and_then (fetched_now now) (\<lambda>fetched.
     DiscoveryBatch \<lparr>db_source = source, db_role = DISCOVERY_ONLY, db_query = key, db_fetched_at = fetched,
       db_records = records, db_cache_hit = hit\<rparr>))"

definition dex_fetch ::
  "dex_adapter \<Rightarrow> discovery_env \<Rightarrow> json source_state \<Rightarrow> json_object discovery_batch result \<times> json source_state" where
  "dex_fetch a env s =
     (let (r, s') = discovery_request (dex_request a) env s
      in (and_then r (\<lambda>(payload, hit).
          and_then (dex_records_payload (da_feed a) payload) (\<lambda>items.
          batch_of DEX_SCREENER (fst (dex_request a)) (de_now env) hit (dex_record (da_feed a)) items)), s'))"

definition gecko_fetch ::
  "gecko_adapter \<Rightarrow> discovery_env \<Rightarrow> json source_state \<Rightarrow> json_object discovery_batch result \<times> json source_state" where
  "gecko_fetch a env s =
     (let (r, s') = discovery_request (gecko_request a) env s
      in (and_then r (\<lambda>(payload, hit).
          and_then (require_list (lower (gecko_feed_value (ga_feed a))) payload) (\<lambda>items.
          batch_of COINGECKO (fst (gecko_request a)) (de_now env) hit (gecko_record a) items)), s'))"

section \<open>Health and load\<close>

fun soft_error :: "error \<Rightarrow> bool" where
  "soft_error (RequestBudgetExceeded m) = True"
| "soft_error e = is_ValueError e"

definition discovery_health :: "string \<Rightarrow> discovery_env \<Rightarrow> json_object discovery_batch result \<Rightarrow> adapter_health" where
  "discovery_health name env fetched =
     (case fetched of
        Inl e \<Rightarrow> \<lparr>ah_name = name, ah_state = (if soft_error e then AD_DEGRADED else AD_DOWN),
          ah_latency_ms = Some (de_latency_ms env), ah_message = error_name e\<rparr>
      | Inr b \<Rightarrow> \<lparr>ah_name = name, ah_state = AD_OK, ah_latency_ms = Some (de_latency_ms env), ah_message = ''''\<rparr>)"

definition raw_str :: "raw_decimal \<Rightarrow> string" where
  "raw_str v = (case v of Finite d \<Rightarrow> dec_str d | Infinite neg \<Rightarrow> (if neg then ''-Infinity'' else ''Infinity'') | NotANumber \<Rightarrow> ''NaN'')"

definition json_decimal :: "raw_decimal option \<Rightarrow> json" where
  "json_decimal v = json_text (map_option raw_str v)"

definition record_data :: "found_record \<Rightarrow> json_object" where
  "record_data r =
     [(''source'', JStr (discovery_source_value (dr_source r))), (''role'', JStr ''DISCOVERY_ONLY''),
      (''external_id'', JStr (dr_external_id r)), (''symbol'', json_text (dr_symbol r)), (''name'', json_text (dr_name r)),
      (''chain_id'', json_text (dr_chain_id r)), (''token_address'', json_text (dr_token_address r)),
      (''category'', json_text (dr_category r)), (''price_usd'', json_decimal (dr_price_usd r)),
      (''liquidity_usd'', json_decimal (dr_liquidity_usd r)), (''volume_24h_usd'', json_decimal (dr_volume_24h_usd r)),
      (''market_cap_usd'', json_decimal (dr_market_cap_usd r)), (''price_change_24h_pct'', json_decimal (dr_price_change_24h_pct r)),
      (''boost_active'', (case dr_boost_active r of None \<Rightarrow> JNull | Some n \<Rightarrow> JInt n)),
      (''pair_created_at'', json_text (map_option isoformat (dr_pair_created_at r))), (''url'', json_text (dr_url r)),
      (''metadata'', JObj (dr_metadata r))]"

definition discovery_load ::
  "string \<Rightarrow> discovery_source \<Rightarrow> json_object discovery_batch result \<Rightarrow> json_object adapter_payload" where
  "discovery_load name source fetched =
     (case fetched of
        Inl e \<Rightarrow> \<lparr>ap_name = name,
          ap_data = [(''source'', JStr (discovery_source_value source)), (''role'', JStr ''DISCOVERY_ONLY''),
            (''status'', JStr ''DATA_DEGRADED''), (''records'', JList [])],
          ap_health = \<lparr>ah_name = name, ah_state = (if soft_error e then AD_DEGRADED else AD_DOWN),
            ah_latency_ms = None, ah_message = error_name e\<rparr>\<rparr>
      | Inr b \<Rightarrow> \<lparr>ap_name = name,
          ap_data = [(''source'', JStr (discovery_source_value (db_source b))), (''role'', JStr ''DISCOVERY_ONLY''),
            (''query'', JStr (db_query b)), (''fetched_at'', JStr (isoformat (db_fetched_at b))),
            (''cache_hit'', JBool (db_cache_hit b)), (''status'', JStr ''OK''),
            (''records'', JList (map (\<lambda>r. JObj (record_data r)) (db_records b)))],
          ap_health = \<lparr>ah_name = name, ah_state = AD_OK, ah_latency_ms = None, ah_message = ''''\<rparr>\<rparr>)"

definition dex_load :: "dex_adapter \<Rightarrow> discovery_env \<Rightarrow> json source_state \<Rightarrow> json_object adapter_payload \<times> json source_state" where
  "dex_load a env s = (case dex_fetch a env s of (r, s') \<Rightarrow> (discovery_load ''dex-screener-discovery'' DEX_SCREENER r, s'))"

definition gecko_load :: "gecko_adapter \<Rightarrow> discovery_env \<Rightarrow> json source_state \<Rightarrow> json_object adapter_payload \<times> json source_state" where
  "gecko_load a env s = (case gecko_fetch a env s of (r, s') \<Rightarrow> (discovery_load ''coingecko-discovery'' COINGECKO r, s'))"

interpretation dex: source_adapter "\<lambda>a (env, s). fst (dex_load a env s)" "\<lambda>a. ''dex-screener-discovery''"
  "\<lambda>a (env, s). fst (dex_fetch a env s)" "\<lambda>b. AD_OK" soft_error
  by unfold_locales (auto simp: dex_load_def discovery_load_def split: sum.splits prod.splits)

interpretation gecko: source_adapter "\<lambda>a (env, s). fst (gecko_load a env s)" "\<lambda>a. ''coingecko-discovery''"
  "\<lambda>a (env, s). fst (gecko_fetch a env s)" "\<lambda>b. AD_OK" soft_error
  by unfold_locales (auto simp: gecko_load_def discovery_load_def split: sum.splits prod.splits)


section \<open>What is discovered\<close>

definition usd_ok :: "raw_decimal option \<Rightarrow> bool" where
  "usd_ok v \<longleftrightarrow> (case v of None \<Rightarrow> True | Some (Finite d) \<Rightarrow> 0 \<le> dval d | Some _ \<Rightarrow> False)"

definition record_ok :: "discovery_source \<Rightarrow> found_record \<Rightarrow> bool" where
  "record_ok source r \<longleftrightarrow>
     dr_source r = source \<and> dr_role r = DISCOVERY_ONLY \<and> strip (dr_external_id r) \<noteq> '''' \<and> usd_ok (dr_price_usd r) \<and>
     usd_ok (dr_liquidity_usd r) \<and> usd_ok (dr_volume_24h_usd r) \<and> usd_ok (dr_market_cap_usd r) \<and>
     (case dr_boost_active r of None \<Rightarrow> True | Some n \<Rightarrow> 0 \<le> n) \<and> (case dr_pair_created_at r of None \<Rightarrow> True | Some t \<Rightarrow> aware t)"

lemma check_usd_finite: "check_usd (map_option Finite v, name) = Inr u \<longleftrightarrow> usd_ok (map_option Finite v)"
  by (cases v) (auto simp: check_usd_def usd_ok_def)

lemma check_usd_None: "check_usd (None, name) = Inr ()" "usd_ok None"
  by (simp_all add: check_usd_def usd_ok_def)

lemma DiscoveryRecord_ok:
  assumes "DiscoveryRecord a = Inr r" "dr_price_usd a = map_option Finite p" "dr_liquidity_usd a = map_option Finite l"
    "dr_volume_24h_usd a = map_option Finite v" "dr_market_cap_usd a = map_option Finite c"
  shows "record_ok (dr_source a) r"
  using assms
  by (auto simp: DiscoveryRecord_def and_then_Inr check_usd_finite record_ok_def split: if_splits option.splits)

lemma DiscoveryRecord_plain:
  assumes "DiscoveryRecord a = Inr r" "dr_price_usd a = None" "dr_liquidity_usd a = None"
    "dr_volume_24h_usd a = None" "dr_market_cap_usd a = None"
  shows "record_ok (dr_source a) r"
  using DiscoveryRecord_ok [OF assms(1), of None None None None] assms(2-) by simp

lemma token_record_ok: "token_record feed item = Inr r \<Longrightarrow> record_ok DEX_SCREENER r"
  by (auto simp: token_record_def and_then_Inr dest!: DiscoveryRecord_plain)

lemma pair_record_ok: "pair_record item = Inr r \<Longrightarrow> record_ok DEX_SCREENER r"
  by (auto simp: pair_record_def and_then_Inr Let_def dest!: DiscoveryRecord_ok)

lemma dex_record_ok: "dex_record feed raw = Inr r \<Longrightarrow> record_ok DEX_SCREENER r"
  by (auto simp: dex_record_def and_then_Inr token_record_ok pair_record_ok split: if_splits)

lemma gecko_record_ok: "gecko_record a raw = Inr r \<Longrightarrow> record_ok COINGECKO r"
proof -
  have "record_ok COINGECKO r" if "market_record k item = Inr r" for k item
    using that DiscoveryRecord_ok [of _ r _ None] by (fastforce simp: market_record_def and_then_Inr)
  moreover have "record_ok COINGECKO r" if "category_record item = Inr r" for item
    using that DiscoveryRecord_ok [of _ r None None] by (fastforce simp: category_record_def and_then_Inr)
  moreover have "record_ok COINGECKO r" if "universe_record item = Inr r" for item
    using that by (auto simp: universe_record_def and_then_Inr dest!: DiscoveryRecord_plain)
  ultimately show "gecko_record a raw = Inr r \<Longrightarrow> record_ok COINGECKO r"
    by (cases "ga_feed a") (auto simp: gecko_record_def and_then_Inr)
qed


lemma batch_of_Inr:
  assumes "batch_of source key now hit read raws = Inr b"
  shows "traverse read raws = Inr (db_records b)" "db_source b = source" "db_query b = key" "db_fetched_at b = now" "aware now"
    "db_cache_hit b = hit"
  using assms by (auto simp: batch_of_def and_then_Inr fetched_now_def DiscoveryBatch_def split: if_splits)

lemma batch_of_again:
  assumes "batch_of source key now hit read raws = Inr b" "aware now'"
  shows "batch_of source key now' hit' read raws = Inr (b\<lparr>db_fetched_at := now', db_cache_hit := hit'\<rparr>)"
  using assms by (auto simp: batch_of_def and_then_Inr fetched_now_def DiscoveryBatch_def split: if_splits)

text \<open>
  C22: whatever a discovery source answers, every record of a delivered batch is for discovery only, from the
  adapter's source, identified, with finite non-negative amounts and an aware creation time; there
  is one record for each item of the answer.
\<close>

theorem discovery_batch_sound:
  "(dex_fetch d env s = (Inr b, s') \<longrightarrow>
      aware (db_fetched_at b) \<and> db_source b = DEX_SCREENER \<and> (\<forall>r \<in> set (db_records b). record_ok DEX_SCREENER r) \<and>
      (\<exists>payload hit raws. fst (discovery_request (dex_request d) env s) = Inr (payload, hit) \<and>
         dex_records_payload (da_feed d) payload = Inr raws \<and> length (db_records b) = length raws)) \<and>
   (gecko_fetch g env s = (Inr b, s') \<longrightarrow>
      aware (db_fetched_at b) \<and> db_source b = COINGECKO \<and> (\<forall>r \<in> set (db_records b). record_ok COINGECKO r) \<and>
      (\<exists>raws hit. fst (discovery_request (gecko_request g) env s) = Inr (JList raws, hit) \<and> length (db_records b) = length raws))"
proof (intro conjI impI)
  assume "dex_fetch d env s = (Inr b, s')"
  then obtain payload hit raws where f: "fst (discovery_request (dex_request d) env s) = Inr (payload, hit)"
    "dex_records_payload (da_feed d) payload = Inr raws"
    "batch_of DEX_SCREENER (fst (dex_request d)) (de_now env) hit (dex_record (da_feed d)) raws = Inr b"
    by (auto simp: dex_fetch_def and_then_Inr Let_def split: prod.splits)
  note b = batch_of_Inr [OF f(3)]
  show "aware (db_fetched_at b)" "db_source b = DEX_SCREENER" using b by simp_all
  show "\<forall>r \<in> set (db_records b). record_ok DEX_SCREENER r" using traverse_Inr_set [OF b(1)] dex_record_ok by blast
  show "\<exists>payload hit raws. fst (discovery_request (dex_request d) env s) = Inr (payload, hit) \<and>
      dex_records_payload (da_feed d) payload = Inr raws \<and> length (db_records b) = length raws"
    using f(1,2) traverse_length [OF b(1)] by auto
next
  assume "gecko_fetch g env s = (Inr b, s')"
  then obtain payload hit raws where f: "fst (discovery_request (gecko_request g) env s) = Inr (payload, hit)"
    "require_list (lower (gecko_feed_value (ga_feed g))) payload = Inr raws"
    "batch_of COINGECKO (fst (gecko_request g)) (de_now env) hit (gecko_record g) raws = Inr b"
    by (auto simp: gecko_fetch_def and_then_Inr Let_def split: prod.splits)
  note b = batch_of_Inr [OF f(3)]
  show "aware (db_fetched_at b)" "db_source b = COINGECKO" using b by simp_all
  show "\<forall>r \<in> set (db_records b). record_ok COINGECKO r" using traverse_Inr_set [OF b(1)] gecko_record_ok by blast
  show "\<exists>raws hit. fst (discovery_request (gecko_request g) env s) = Inr (JList raws, hit) \<and> length (db_records b) = length raws"
    using f(1,2) traverse_length [OF b(1)] by (cases payload) auto
qed

section \<open>Repeated fetches\<close>

lemma discovery_request_again:
  assumes "discovery_request q env s = (Inr (payload, False), s')" "payload \<noteq> JNull"
    "\<not> fle (fadd (de_t_set env) (tc_ttl (so_cache s))) (de_t_get env')"
  shows "discovery_request q env' s' = (Inr (payload, True), s')"
proof -
  obtain key u params where q: "q = (key, u, params)" by (cases q)
  have "request_json key (and_then (de_get env u params) (\<lambda>v. Inr (null_as_none v))) (de_t_get env) (de_t_budget env) (de_t_set env) s =
      (Inr (Some payload, False), s')"
    using assms(1,2) by (auto simp: discovery_request_def q and_then_Inr Let_def split: prod.splits option.splits)
  from request_json_cached [OF this assms(3)] show ?thesis by (simp add: discovery_request_def q)
qed

text \<open>
  a fetch within the time to live of an answer costs nothing and changes nothing: whatever the network
  would answer then, it delivers the same records, marked as a cache hit, and neither the cache nor
  the budget of the adapter changes.
\<close>

theorem discovery_fetch_cached:
  assumes "\<not> fle (fadd (de_t_set env) (tc_ttl (so_cache s))) (de_t_get env')" "aware (de_now env')"
  shows "(dex_fetch d env s = (Inr b, s') \<and> \<not> db_cache_hit b \<longrightarrow>
       dex_fetch d env' s' = (Inr (b\<lparr>db_fetched_at := de_now env', db_cache_hit := True\<rparr>), s')) \<and>
     (gecko_fetch g env s = (Inr b, s') \<and> \<not> db_cache_hit b \<longrightarrow>
       gecko_fetch g env' s' = (Inr (b\<lparr>db_fetched_at := de_now env', db_cache_hit := True\<rparr>), s'))"
proof (intro conjI impI; elim conjE)
  assume f: "dex_fetch d env s = (Inr b, s')" "\<not> db_cache_hit b"
  then obtain payload hit raws where p: "discovery_request (dex_request d) env s = (Inr (payload, hit), s')"
    "dex_records_payload (da_feed d) payload = Inr raws"
    "batch_of DEX_SCREENER (fst (dex_request d)) (de_now env) hit (dex_record (da_feed d)) raws = Inr b"
    by (auto simp: dex_fetch_def and_then_Inr Let_def split: prod.splits)
  have "payload \<noteq> JNull" using p(2) by (auto simp: dex_records_payload_def split: if_splits)
  moreover have "hit = False" using batch_of_Inr(6) [OF p(3)] f(2) by simp
  ultimately have "discovery_request (dex_request d) env' s' = (Inr (payload, True), s')"
    using discovery_request_again p(1) assms(1) by blast
  then show "dex_fetch d env' s' = (Inr (b\<lparr>db_fetched_at := de_now env', db_cache_hit := True\<rparr>), s')"
    using p(2) batch_of_again [OF p(3) assms(2)] by (simp add: dex_fetch_def)
next
  assume f: "gecko_fetch g env s = (Inr b, s')" "\<not> db_cache_hit b"
  then obtain payload hit raws where p: "discovery_request (gecko_request g) env s = (Inr (payload, hit), s')"
    "require_list (lower (gecko_feed_value (ga_feed g))) payload = Inr raws"
    "batch_of COINGECKO (fst (gecko_request g)) (de_now env) hit (gecko_record g) raws = Inr b"
    by (auto simp: gecko_fetch_def and_then_Inr Let_def split: prod.splits)
  have "payload \<noteq> JNull" using p(2) by auto
  moreover have "hit = False" using batch_of_Inr(6) [OF p(3)] f(2) by simp
  ultimately have "discovery_request (gecko_request g) env' s' = (Inr (payload, True), s')"
    using discovery_request_again p(1) assms(1) by blast
  then show "gecko_fetch g env' s' = (Inr (b\<lparr>db_fetched_at := de_now env', db_cache_hit := True\<rparr>), s')"
    using p(2) batch_of_again [OF p(3) assms(2)] by (simp add: gecko_fetch_def)
qed


section \<open>A sample feed\<close>

definition sample_dex :: dex_adapter where
  "sample_dex = \<lparr>da_feed = BOOSTS, da_query = None, da_chain_id = None, da_token_address = None,
     da_base_url = ''https://api.dexscreener.com''\<rparr>"

definition sample_gecko :: gecko_adapter where
  "sample_gecko = \<lparr>ga_feed = MARKETS, ga_category = None, ga_page = 1, ga_per_page = 100, ga_order = ''market_cap_desc'',
     ga_vs_currency = ''usd'', ga_base_url = ''https://api.coingecko.com/api/v3''\<rparr>"

text \<open>A network that answers at first and fails later.\<close>

definition sample_answer :: json where
  "sample_answer = JList [JObj [(''chainId'', JStr ''solana''), (''tokenAddress'', JStr ''So11''), (''amount'', JInt 30),
     (''id'', JStr ''solana''), (''symbol'', JStr ''sol''), (''name'', JStr ''Solana''), (''current_price'', JStr ''142.5'')]]"

definition answering :: discovery_env where
  "answering = \<lparr>de_get = (\<lambda>u params. Inr sample_answer), de_t_get = Fl 0, de_t_budget = Fl 0, de_t_set = Fl 1,
     de_now = sample_instant, de_latency_ms = 12\<rparr>"

definition failing :: discovery_env where
  "failing = \<lparr>de_get = (\<lambda>u params. Inl (OtherError ''ConnectError'' '''')), de_t_get = Fl 2, de_t_budget = Fl 2, de_t_set = Fl 2,
     de_now = sample_instant, de_latency_ms = 12\<rparr>"

definition fresh_source :: "json source_state" where
  "fresh_source = \<lparr>so_cache = \<lparr>tc_ttl = Fl 60, tc_items = Map.empty\<rparr>,
     so_budget = \<lparr>sb_max_requests = 60, sb_window = Fl 60, sb_requests = []\<rparr>\<rparr>"


lemma sample_budget: "\<exists>b. acquire (Fl 0) (so_budget fresh_source) = (Inr (), b)"
proof -
  have "case acquire (Fl 0) (so_budget fresh_source) of (Inr u, b) \<Rightarrow> True | _ \<Rightarrow> False" by code_simp
  then show ?thesis by (auto split: prod.splits sum.splits)
qed

lemma sample_request: "\<exists>s'. discovery_request q answering fresh_source = (Inr (sample_answer, False), s')"
proof -
  obtain b where "acquire (Fl 0) (so_budget fresh_source) = (Inr (), b)" using sample_budget by blast
  then show ?thesis
    by (cases q) (simp add: discovery_request_def request_json_def answering_def cache_get_def null_as_none_def
        sample_answer_def fresh_source_def)
qed

lemma sample_records:
  "\<exists>r. traverse (dex_record BOOSTS) (case sample_answer of JList xs \<Rightarrow> xs | _ \<Rightarrow> []) = Inr [r] \<and> dr_source r = DEX_SCREENER"
  "\<exists>r. traverse (gecko_record sample_gecko) (case sample_answer of JList xs \<Rightarrow> xs | _ \<Rightarrow> []) = Inr [r] \<and> dr_source r = COINGECKO"
proof -
  have "case traverse (dex_record BOOSTS) (case sample_answer of JList xs \<Rightarrow> xs | _ \<Rightarrow> []) of
      Inr [r] \<Rightarrow> dr_source r = DEX_SCREENER | _ \<Rightarrow> False" by code_simp
  then show "\<exists>r. traverse (dex_record BOOSTS) (case sample_answer of JList xs \<Rightarrow> xs | _ \<Rightarrow> []) = Inr [r] \<and> dr_source r = DEX_SCREENER"
    by (auto split: sum.splits list.splits)
  have "case traverse (gecko_record sample_gecko) (case sample_answer of JList xs \<Rightarrow> xs | _ \<Rightarrow> []) of
      Inr [r] \<Rightarrow> dr_source r = COINGECKO | _ \<Rightarrow> False" by code_simp
  then show "\<exists>r. traverse (gecko_record sample_gecko) (case sample_answer of JList xs \<Rightarrow> xs | _ \<Rightarrow> []) = Inr [r] \<and> dr_source r = COINGECKO"
    by (auto split: sum.splits list.splits)
qed

lemma sample_batch_made:
  assumes "traverse read raws = Inr [r]" "dr_source r = source" "strip key \<noteq> ''''"
  shows "\<exists>b. batch_of source key sample_instant hit read raws = Inr b \<and> length (db_records b) = 1 \<and> db_cache_hit b = hit"
  using assms by (simp add: batch_of_def fetched_now_def DiscoveryBatch_def sample_instant_def aware_def)

lemma sample_fetches:
  "\<exists>b s'. dex_fetch sample_dex answering fresh_source = (Inr b, s') \<and> length (db_records b) = 1 \<and> \<not> db_cache_hit b"
  "\<exists>b s'. gecko_fetch sample_gecko answering fresh_source = (Inr b, s') \<and> length (db_records b) = 1 \<and> \<not> db_cache_hit b"
proof -
  define raws where "raws = (case sample_answer of JList xs \<Rightarrow> xs | _ \<Rightarrow> [])"
  have raws: "sample_answer = JList raws" by (simp add: raws_def sample_answer_def)
  have env: "de_now answering = sample_instant" by (simp add: answering_def)
  obtain r where r: "traverse (dex_record BOOSTS) raws = Inr [r]" "dr_source r = DEX_SCREENER"
    using sample_records(1) unfolding raws_def by blast
  obtain b where b: "batch_of DEX_SCREENER ''boosts:latest'' sample_instant False (dex_record BOOSTS) raws = Inr b"
    "length (db_records b) = 1" "db_cache_hit b = False"
    using sample_batch_made [OF r, of "''boosts:latest''" False] by (auto simp: strip_def is_space_def spaces_def)
  obtain s' where "discovery_request (dex_request sample_dex) answering fresh_source = (Inr (sample_answer, False), s')"
    using sample_request by blast
  with b show "\<exists>b s'. dex_fetch sample_dex answering fresh_source = (Inr b, s') \<and> length (db_records b) = 1 \<and> \<not> db_cache_hit b"
    by (simp add: dex_fetch_def dex_request_def sample_dex_def raws dex_records_payload_def env)
  define key where "key = fst (gecko_request sample_gecko)"
  have key: "strip key \<noteq> ''''" unfolding key_def by code_simp
  obtain g where g: "traverse (gecko_record sample_gecko) raws = Inr [g]" "dr_source g = COINGECKO"
    using sample_records(2) unfolding raws_def by blast
  obtain c where c: "batch_of COINGECKO key sample_instant False (gecko_record sample_gecko) raws = Inr c"
    "length (db_records c) = 1" "db_cache_hit c = False"
    using sample_batch_made [OF g key, of False] by blast
  obtain s2 where "discovery_request (gecko_request sample_gecko) answering fresh_source = (Inr (sample_answer, False), s2)"
    using sample_request by blast
  with c show "\<exists>b s'. gecko_fetch sample_gecko answering fresh_source = (Inr b, s') \<and> length (db_records b) = 1 \<and> \<not> db_cache_hit b"
    by (simp add: gecko_fetch_def raws env key_def [symmetric])
qed

lemma sample_still_fresh: "\<not> fle (fadd (de_t_set answering) (tc_ttl (so_cache fresh_source))) (de_t_get failing)" "aware (de_now failing)"
  by code_simp+

theorem discovery_batch_sound_witness:
  "\<exists>b s'. gecko_fetch sample_gecko answering fresh_source = (Inr b, s') \<and> length (db_records b) = 1 \<and>
     (\<forall>r \<in> set (db_records b). record_ok COINGECKO r)"
proof -
  obtain b s' where "gecko_fetch sample_gecko answering fresh_source = (Inr b, s')" "length (db_records b) = 1"
    using sample_fetches(2) by blast
  with discovery_batch_sound [of _ answering fresh_source b s' sample_gecko] show ?thesis by blast
qed

theorem discovery_fetch_cached_witness:
  "\<exists>b s'. dex_fetch sample_dex answering fresh_source = (Inr b, s') \<and> length (db_records b) = 1 \<and>
     dex_fetch sample_dex failing s' = (Inr (b\<lparr>db_fetched_at := de_now failing, db_cache_hit := True\<rparr>), s')"
proof -
  obtain b s' where "dex_fetch sample_dex answering fresh_source = (Inr b, s')" "length (db_records b) = 1" "\<not> db_cache_hit b"
    using sample_fetches(1) by blast
  with discovery_fetch_cached [OF sample_still_fresh, of sample_dex b s'] show ?thesis by blast
qed

end
