(* ===== verification/Overview.thy ===== *)
theory Overview
  imports Lifecycle Runtime_Store
begin

text \<open>
  \<^verbatim>\<open>app/watchlist\<close>, \<^verbatim>\<open>app/strategy/review.py\<close>, the data of \<^verbatim>\<open>app/notifications/models.py\<close> and \<^verbatim>\<open>app/overview\<close>: the watchlist, and the two ways to
  count what the pipeline holds, from objects in memory (\<open>build_overview\<close>) and from the grouped
  counts of a database query (\<open>database_summary\<close>). The theorems: both agree on the same data, the counts
  account for every record, and the records the runtime store writes are not among those counted.
\<close>

section \<open>Watchlist and review\<close>

datatype watch_stage = WS_NEW | WS_WATCHING | WS_REVIEWING | WS_PAUSED

fun watch_stage_value :: "watch_stage \<Rightarrow> string" where
  "watch_stage_value WS_NEW = ''NEW''"
| "watch_stage_value WS_WATCHING = ''WATCHING''"
| "watch_stage_value WS_REVIEWING = ''REVIEWING''"
| "watch_stage_value WS_PAUSED = ''PAUSED''"

record watchlist_entry =
  we_symbol :: string
  we_stage :: watch_stage
  we_source :: string
  we_data :: json_object
  we_reasons :: "string list"

definition is_active :: "watchlist_entry \<Rightarrow> bool" where
  "is_active e \<longleftrightarrow> we_stage e \<in> {WS_WATCHING, WS_REVIEWING}"

definition require_fields :: "json_object \<Rightarrow> string list \<Rightarrow> unit result" where
  "require_fields payload names =
     (let missing = filter (\<lambda>f. f \<notin> fst ` set payload) names in
      if missing \<noteq> [] then Inl (ParserError (''missing fields: '' @ join '', '' missing)) else Inr ())"

definition entry_from_payload :: "json_object adapter_payload \<Rightarrow> watchlist_entry result" where
  "entry_from_payload p =
     and_then (require_fields (ap_data p) [''symbol'', ''price'']) (\<lambda>_.
     let symbol = py_str (get (ap_data p) ''symbol'') in
     if \<not> is_usable (ap_health p)
       then Inr \<lparr>we_symbol = symbol, we_stage = WS_PAUSED, we_source = ap_name p, we_data = ap_data p, we_reasons = [''source unavailable'']\<rparr>
     else Inr \<lparr>we_symbol = symbol, we_stage = WS_WATCHING, we_source = ap_name p, we_data = ap_data p, we_reasons = [''accepted'']\<rparr>)"

definition move_to_review :: "watchlist_entry \<Rightarrow> string \<Rightarrow> watchlist_entry" where
  "move_to_review e reason =
     (if we_stage e = WS_PAUSED then e else e\<lparr>we_stage := WS_REVIEWING, we_reasons := we_reasons e @ [reason]\<rparr>)"

record candidate_review =
  cv_symbol :: string
  cv_structure_ok :: bool
  cv_validation_ok :: bool
  cv_freshness_ok :: bool
  cv_notes :: "string list"

definition classify_candidate :: "candidate_review \<Rightarrow> string" where
  "classify_candidate r =
     (if cv_structure_ok r \<and> cv_validation_ok r \<and> cv_freshness_ok r then ''READY''
      else if cv_structure_ok r then ''REVIEW'' else ''WATCH'')"

section \<open>Deliveries\<close>

datatype notification_channel = TELEGRAM | DASHBOARD

datatype delivery_status = DS_ACCEPTED | DS_SKIPPED

fun delivery_status_value :: "delivery_status \<Rightarrow> string" where
  "delivery_status_value DS_ACCEPTED = ''ACCEPTED''"
| "delivery_status_value DS_SKIPPED = ''SKIPPED''"

record notification_message =
  nm_symbol :: string
  nm_channel :: notification_channel
  nm_title :: string
  nm_body :: string
  nm_metadata :: "(string \<times> string) list"

record delivery_receipt =
  dl_symbol :: string
  dl_channel :: notification_channel
  dl_status :: delivery_status
  dl_detail :: string

definition disabled_delivery :: "notification_message \<Rightarrow> delivery_receipt" where
  "disabled_delivery m =
     \<lparr>dl_symbol = nm_symbol m, dl_channel = nm_channel m, dl_status = DS_SKIPPED, dl_detail = ''delivery disabled''\<rparr>"

section \<open>Overview of objects\<close>

datatype overview_mode = NO_STORE | IN_MEMORY | DATABASE | DATABASE_UNAVAILABLE

record overview_data =
  od_watchlist :: "watchlist_entry list"
  od_setups :: "setup_candidate list"
  od_flow :: "flow_result list"
  od_plans :: "plan_draft list"
  od_lifecycle :: "lifecycle_record list"
  od_deliveries :: "delivery_receipt list"
  od_mode :: overview_mode
  od_notes :: "string list"

type_synonym counts = "(string \<times> int) list"

record overview_summary =
  os_generated_at :: datetime
  os_mode :: overview_mode
  os_totals :: counts
  os_watchlist :: counts
  os_setups :: counts
  os_flow :: counts
  os_plans :: counts
  os_lifecycle :: counts
  os_deliveries :: counts
  os_notes :: "string list"

fun setup_label_value :: "setup_label \<Rightarrow> string" where
  "setup_label_value SL_IGNORE = ''IGNORE''"
| "setup_label_value SL_WATCH = ''WATCH''"
| "setup_label_value SL_REVIEW = ''REVIEW''"

fun plan_status_value :: "plan_status \<Rightarrow> string" where
  "plan_status_value PLAN_HOLD = ''HOLD''"
| "plan_status_value PLAN_READY = ''READY''"

text \<open>The members of each enumeration, in the order of their declaration.\<close>

definition watch_stages :: "string list" where
  "watch_stages = map watch_stage_value [WS_NEW, WS_WATCHING, WS_REVIEWING, WS_PAUSED]"

definition setup_labels :: "string list" where
  "setup_labels = map setup_label_value [SL_IGNORE, SL_WATCH, SL_REVIEW]"

definition flow_statuses :: "string list" where
  "flow_statuses = map flow_status_value [FL_READY, FL_WAIT, FL_INCOMPLETE]"

definition plan_statuses :: "string list" where
  "plan_statuses = map plan_status_value [PLAN_HOLD, PLAN_READY]"

definition lifecycle_states :: "string list" where
  "lifecycle_states = map lifecycle_state_value [LS_PENDING, LS_ACTIVE, LS_EXPIRED, LS_CLOSED]"

definition delivery_statuses :: "string list" where
  "delivery_statuses = map delivery_status_value [DS_ACCEPTED, DS_SKIPPED]"

definition counts_of :: "string list \<Rightarrow> string list \<Rightarrow> counts" where
  "counts_of members values = map (\<lambda>m. (m, int (count_list values m))) members"

definition require_generated :: "datetime \<Rightarrow> unit result" where
  "require_generated t = (if aware t then Inr () else Inl (ValueError ''generated_at must be timezone-aware''))"

definition build_overview :: "overview_data \<Rightarrow> datetime \<Rightarrow> overview_summary result" where
  "build_overview d generated_at =
     and_then (require_generated generated_at) (\<lambda>_.
     Inr \<lparr>os_generated_at = generated_at, os_mode = od_mode d,
       os_totals = [(''watchlist'', int (length (od_watchlist d))), (''setups'', int (length (od_setups d))),
         (''flow'', int (length (od_flow d))), (''plans'', int (length (od_plans d))),
         (''lifecycle'', int (length (od_lifecycle d))), (''deliveries'', int (length (od_deliveries d)))],
       os_watchlist = counts_of watch_stages (map (\<lambda>e. watch_stage_value (we_stage e)) (od_watchlist d)),
       os_setups = counts_of setup_labels (map (\<lambda>c. setup_label_value (sc_label c)) (od_setups d)),
       os_flow = counts_of flow_statuses (map (\<lambda>f. flow_status_value (fr_status f)) (od_flow d)),
       os_plans = counts_of plan_statuses (map (\<lambda>p. plan_status_value (pd_status p)) (od_plans d)),
       os_lifecycle = counts_of lifecycle_states (map (\<lambda>l. lifecycle_state_value (lc_state l)) (od_lifecycle d)),
       os_deliveries = counts_of delivery_statuses (map (\<lambda>r. delivery_status_value (dl_status r)) (od_deliveries d)),
       os_notes = od_notes d\<rparr>)"

definition empty_overview_data :: overview_data where
  "empty_overview_data = \<lparr>od_watchlist = [], od_setups = [], od_flow = [], od_plans = [], od_lifecycle = [], od_deliveries = [],
     od_mode = NO_STORE, od_notes = [''No persistence provider is configured.'']\<rparr>"

definition empty_summary :: "datetime \<Rightarrow> overview_summary result" where
  "empty_summary generated_at = build_overview empty_overview_data generated_at"

section \<open>Overview of the database\<close>

text \<open>Record type, section of the summary, members of the enumeration of its states.\<close>

definition record_sections :: "(string \<times> string \<times> string list) list" where
  "record_sections =
     [(''watchlist'', ''watchlist'', watch_stages), (''setup'', ''setups'', setup_labels), (''flow'', ''flow'', flow_statuses),
      (''plan'', ''plans'', plan_statuses), (''lifecycle'', ''lifecycle'', lifecycle_states), (''delivery'', ''deliveries'', delivery_statuses)]"

definition zero_counts :: "string list \<Rightarrow> counts" where
  "zero_counts members = map (\<lambda>m. (m, 0)) members"

type_synonym sections = "(string \<times> counts) list"

definition empty_sections :: sections where
  "empty_sections = map (\<lambda>(ty, section, members). (section, zero_counts members)) record_sections"

text \<open>\<open>d[k] = d.get(k, 0) + n\<close>, which is \<open>d[k] += n\<close> for a key that is there.\<close>

fun bump :: "string \<Rightarrow> int \<Rightarrow> counts \<Rightarrow> counts" where
  "bump k n [] = [(k, n)]"
| "bump k n ((k', m) # d) = (if k' = k then (k', m + n) # d else (k', m) # bump k n d)"

definition in_section :: "string \<Rightarrow> (counts \<Rightarrow> counts) \<Rightarrow> sections \<Rightarrow> sections" where
  "in_section section f ss = map (\<lambda>(s, c). if s = section then (s, f c) else (s, c)) ss"

definition section_counts :: "sections \<Rightarrow> string \<Rightarrow> counts" where
  "section_counts ss section = (case map_of ss section of None \<Rightarrow> [] | Some c \<Rightarrow> c)"

record tally =
  ta_sections :: sections
  ta_totals :: counts
  ta_ignored :: int
  ta_unknown :: counts

definition tally_row :: "string \<times> string \<times> int \<Rightarrow> tally \<Rightarrow> tally" where
  "tally_row row t =
     (case row of (record_type, state, n) \<Rightarrow>
        case map_of record_sections record_type of
          None \<Rightarrow> t\<lparr>ta_ignored := ta_ignored t + n\<rparr>
        | Some (section, members) \<Rightarrow>
            let t1 = t\<lparr>ta_totals := bump section n (ta_totals t)\<rparr> in
            if state \<in> fst ` set (section_counts (ta_sections t) section)
              then t1\<lparr>ta_sections := in_section section (bump state n) (ta_sections t)\<rparr>
            else t1\<lparr>ta_sections := in_section section (bump ''UNKNOWN'' n) (ta_sections t),
                    ta_unknown := bump section n (ta_unknown t)\<rparr>)"

definition no_tally :: tally where
  "no_tally = \<lparr>ta_sections = empty_sections, ta_totals = map (\<lambda>(s, c). (s, 0)) empty_sections, ta_ignored = 0, ta_unknown = []\<rparr>"

definition overview_notes :: "tally \<Rightarrow> string list" where
  "overview_notes t =
     (if \<forall>(s, n) \<in> set (ta_totals t). n = 0 then [''No dashboard records are stored.''] else []) @
     (if ta_ignored t \<noteq> 0 then [''Ignored '' @ str_int (ta_ignored t) @ '' non-dashboard records.''] else []) @
     map (\<lambda>(s, n). s @ '' contains '' @ str_int n @ '' records with unknown states.'') (sort_key (\<lambda>e. e) (ta_unknown t))"

definition summary_of :: "datetime \<Rightarrow> overview_mode \<Rightarrow> sections \<Rightarrow> counts \<Rightarrow> string list \<Rightarrow> overview_summary" where
  "summary_of generated_at mode given_sections given_totals notes =
     (let active = (if given_sections = [] then empty_sections else given_sections);
          totals = (if given_totals = [] then map (\<lambda>(s, c). (s, 0)) active else given_totals) in
      \<lparr>os_generated_at = generated_at, os_mode = mode, os_totals = totals,
       os_watchlist = section_counts active ''watchlist'', os_setups = section_counts active ''setups'',
       os_flow = section_counts active ''flow'', os_plans = section_counts active ''plans'',
       os_lifecycle = section_counts active ''lifecycle'', os_deliveries = section_counts active ''deliveries'', os_notes = notes\<rparr>)"

text \<open>
  The answer of the query is an argument: rows of type, state and count, or what the driver
  raised; \<open>sql_error\<close> tells the exceptions of SQLAlchemy from others.
\<close>

definition database_summary ::
  "(error \<Rightarrow> bool) \<Rightarrow> (string \<times> string \<times> int) list result \<Rightarrow> datetime \<Rightarrow> overview_summary result" where
  "database_summary sql_error answer generated_at =
     and_then (require_generated generated_at) (\<lambda>_.
     case answer of
       Inl e \<Rightarrow> if sql_error e
         then Inr (summary_of generated_at DATABASE_UNAVAILABLE [] [] [''Database overview unavailable: '' @ error_name e])
         else Inl e
     | Inr rows \<Rightarrow>
         let t = fold tally_row rows no_tally in
         Inr (summary_of generated_at DATABASE (ta_sections t) (ta_totals t) (overview_notes t)))"


section \<open>The tally of known states\<close>

definition row_sum :: "(string \<times> string \<times> int) list \<Rightarrow> string \<Rightarrow> string \<Rightarrow> int" where
  "row_sum rows ty st = sum_list (map (\<lambda>(a, b, n). if a = ty \<and> b = st then n else 0) rows)"

definition type_sum :: "(string \<times> string \<times> int) list \<Rightarrow> string \<Rightarrow> int" where
  "type_sum rows ty = sum_list (map (\<lambda>(a, b, n). if a = ty then n else 0) rows)"

definition other_sum :: "(string \<times> string \<times> int) list \<Rightarrow> int" where
  "other_sum rows = sum_list (map (\<lambda>(a, b, n). if a \<in> fst ` set record_sections then 0 else n) rows)"

definition tally_of :: "(string \<times> string \<times> int) list \<Rightarrow> tally" where
  "tally_of rows = \<lparr>ta_sections = map (\<lambda>x. (fst (snd x), map (\<lambda>m. (m, row_sum rows (fst x) m)) (snd (snd x)))) record_sections,
     ta_totals = map (\<lambda>x. (fst (snd x), type_sum rows (fst x))) record_sections, ta_ignored = other_sum rows, ta_unknown = []\<rparr>"

definition known_row :: "string \<times> string \<times> int \<Rightarrow> bool" where
  "known_row row = (case row of (ty, st, n) \<Rightarrow>
     (case map_of record_sections ty of None \<Rightarrow> True | Some (s, ms) \<Rightarrow> st \<in> set ms))"

lemma bump_map:
  "k \<in> g ` set xs \<Longrightarrow> distinct (map g xs) \<Longrightarrow>
     bump k n (map (\<lambda>x. (g x, f x)) xs) = map (\<lambda>x. (g x, f x + (if g x = k then n else 0))) xs"
  by (induction xs) (auto intro!: map_cong, metis image_eqI)

lemma record_sections_facts:
  "distinct (map fst record_sections)" "distinct (map (\<lambda>x. fst (snd x)) record_sections)"
  "\<forall>(ty, s, ms) \<in> set record_sections. distinct ms"
  by code_simp+

lemma sections_inj:
  assumes "(ty, s, ms) \<in> set record_sections" "(ty', s', ms') \<in> set record_sections"
  shows "s' = s \<longleftrightarrow> ty' = ty"
  using assms by (auto simp: record_sections_def)

lemma tally_known:
  assumes "known_row r"
  shows "tally_row r (tally_of rows) = tally_of (rows @ [r])"
proof -
  obtain ty st n where r: "r = (ty, st, n)" by (cases r)
  show ?thesis
  proof (cases "map_of record_sections ty")
    case None
    then have no: "ty \<notin> fst ` set record_sections" by (simp add: map_of_eq_None_iff)
    then have "\<forall>(a, s, ms) \<in> set record_sections. a \<noteq> ty" by force
    then show ?thesis using None no
      by (auto simp: r tally_row_def tally_of_def row_sum_def type_sum_def other_sum_def intro!: map_cong)
  next
    case (Some x)
    then obtain s ms where x: "map_of record_sections ty = Some (s, ms)" by (cases x) auto
    then have mem: "(ty, s, ms) \<in> set record_sections" and st: "st \<in> set ms"
      using assms by (auto simp: known_row_def r dest: map_of_SomeD)
    have d: "distinct ms" using record_sections_facts(3) mem by blast
    have key: "fst (snd x) = s \<longleftrightarrow> fst x = ty" if "x \<in> set record_sections" for x
      using sections_inj [OF mem, of "fst x" "fst (snd x)" "snd (snd x)"] that by simp
    have ms: "snd (snd x) = ms" if "x \<in> set record_sections" "fst x = ty" for x
      using eq_key_imp_eq_value [OF record_sections_facts(1) mem, of "snd x"] that by (cases x) auto
    have "map_of (ta_sections (tally_of rows)) s = Some (map (\<lambda>m. (m, row_sum rows ty m)) ms)"
      using mem record_sections_facts(2)
      by (intro map_of_is_SomeI) (auto simp: tally_of_def comp_def intro!: image_eqI [of _ _ "(ty, s, ms)"])
    then have sec: "section_counts (ta_sections (tally_of rows)) s = map (\<lambda>m. (m, row_sum rows ty m)) ms"
      by (simp add: section_counts_def)
    have "s \<in> (\<lambda>x. fst (snd x)) ` set record_sections" using mem by force
    then have "bump s n (ta_totals (tally_of rows)) = map (\<lambda>x. (fst (snd x), type_sum rows (fst x) + (if fst (snd x) = s then n else 0))) record_sections"
      unfolding tally_of_def tally.simps by (rule bump_map [OF _ record_sections_facts(2)])
    also have "\<dots> = ta_totals (tally_of (rows @ [r]))" using key by (auto simp: tally_of_def r type_sum_def intro!: map_cong)
    finally have tot: "bump s n (ta_totals (tally_of rows)) = ta_totals (tally_of (rows @ [r]))" .
    have own: "bump st n (map (\<lambda>m. (m, row_sum rows ty m)) ms) = map (\<lambda>m. (m, row_sum (rows @ [r]) ty m)) ms"
      using bump_map [of st "\<lambda>m. m" ms n "row_sum rows ty"] st d by (auto simp: r row_sum_def intro!: map_cong)
    have others: "row_sum (rows @ [r]) ty' m = row_sum rows ty' m" if "ty' \<noteq> ty" for ty' m
      using that by (simp add: r row_sum_def)
    have "in_section s (bump st n) (ta_sections (tally_of rows)) = ta_sections (tally_of (rows @ [r]))"
      unfolding in_section_def tally_of_def tally.simps map_map
      by (rule map_cong [OF refl]) (use key ms own others in auto)
    note sections = this tot
    have "other_sum (rows @ [r]) = other_sum rows" using mem by (force simp: other_sum_def r)
    moreover have "tally_row r (tally_of rows) = (tally_of rows)\<lparr>ta_totals := bump s n (ta_totals (tally_of rows)),
        ta_sections := in_section s (bump st n) (ta_sections (tally_of rows))\<rparr>"
      using x st sec by (simp add: tally_row_def r image_image Let_def)
    ultimately show ?thesis unfolding sections by (simp add: tally_of_def)
  qed
qed

lemma tally_all_known: "\<forall>r \<in> set rows. known_row r \<Longrightarrow> fold tally_row rows no_tally = tally_of rows"
proof (induction rows rule: rev_induct)
  case Nil
  show ?case
    by (auto simp: no_tally_def tally_of_def empty_sections_def zero_counts_def row_sum_def type_sum_def other_sum_def case_prod_beta)
next
  case (snoc r rows)
  then show ?case using tally_known by simp
qed


section \<open>Both overviews agree\<close>

text \<open>The query groups the stored records by type and state; it may list the groups in any order.\<close>

definition grouped :: "(string \<times> string) list \<Rightarrow> (string \<times> string \<times> int) list \<Rightarrow> bool" where
  "grouped recs rows \<longleftrightarrow> (\<exists>ks. distinct ks \<and> set ks = set recs \<and> rows = map (\<lambda>k. (fst k, snd k, int (count_list recs k))) ks)"

lemma grouped_row_sum:
  assumes "grouped recs rows"
  shows "row_sum rows ty st = int (count_list recs (ty, st))"
proof -
  obtain ks where ks: "distinct ks" "set ks = set recs" "rows = map (\<lambda>k. (fst k, snd k, int (count_list recs k))) ks"
    using assms by (auto simp: grouped_def)
  have "row_sum rows ty st = (\<Sum>k \<leftarrow> ks. if k = (ty, st) then int (count_list recs k) else 0)"
    unfolding row_sum_def ks(3) by (auto simp: comp_def prod_eq_iff intro!: arg_cong [where f = sum_list] map_cong)
  also have "\<dots> = (\<Sum>k \<in> set recs. if k = (ty, st) then int (count_list recs k) else 0)"
    using ks(1,2) by (simp add: sum_list_distinct_conv_sum_set)
  also have "\<dots> = int (count_list recs (ty, st))" by (simp add: sum.delta' count_list_0_iff)
  finally show ?thesis .
qed

lemma count_list_filter: "P k \<Longrightarrow> count_list (filter P xs) k = count_list xs k"
  by (induction xs) auto

lemma grouped_type_sum:
  assumes "grouped recs rows"
  shows "type_sum rows ty = int (length (filter (\<lambda>r. fst r = ty) recs))"
proof -
  let ?own = "filter (\<lambda>r. fst r = ty) recs"
  obtain ks where ks: "distinct ks" "set ks = set recs" "rows = map (\<lambda>k. (fst k, snd k, int (count_list recs k))) ks"
    using assms by (auto simp: grouped_def)
  have "type_sum rows ty = (\<Sum>k \<leftarrow> ks. if fst k = ty then int (count_list recs k) else 0)"
    unfolding type_sum_def ks(3) by (simp add: comp_def)
  also have "\<dots> = (\<Sum>k \<in> set recs. if fst k = ty then int (count_list recs k) else 0)"
    using ks(1,2) by (simp add: sum_list_distinct_conv_sum_set)
  also have "\<dots> = (\<Sum>k \<in> set ?own. int (count_list recs k))" by (simp add: sum.inter_filter)
  also have "\<dots> = (\<Sum>k \<in> set ?own. int (count_list ?own k))"
    by (rule sum.cong) (auto simp: count_list_filter)
  also have "\<dots> = int (length ?own)" using arg_cong [OF sum_count_set [of ?own "set ?own"], of int] by simp
  finally show ?thesis .
qed

text \<open>The records that stand for the objects of an overview.\<close>

definition data_records :: "overview_data \<Rightarrow> (string \<times> string) list" where
  "data_records d =
     map (\<lambda>e. (''watchlist'', watch_stage_value (we_stage e))) (od_watchlist d) @
     map (\<lambda>c. (''setup'', setup_label_value (sc_label c))) (od_setups d) @
     map (\<lambda>f. (''flow'', flow_status_value (fr_status f))) (od_flow d) @
     map (\<lambda>p. (''plan'', plan_status_value (pd_status p))) (od_plans d) @
     map (\<lambda>l. (''lifecycle'', lifecycle_state_value (lc_state l))) (od_lifecycle d) @
     map (\<lambda>r. (''delivery'', delivery_status_value (dl_status r))) (od_deliveries d)"

lemma count_list_tagged:
  "count_list (map (\<lambda>x. (c, f x)) xs) (c', m) = (if c = c' then count_list (map f xs) m else 0)"
  by (induction xs) auto

lemma filter_tagged: "filter (\<lambda>r. fst r = c') (map (\<lambda>x. (c, f x)) xs) = (if c = c' then map (\<lambda>x. (c, f x)) xs else [])"
  by (induction xs) auto

lemma member_values:
  "watch_stage_value a \<in> set watch_stages" "setup_label_value b \<in> set setup_labels" "flow_status_value c \<in> set flow_statuses"
  "plan_status_value p \<in> set plan_statuses" "lifecycle_state_value l \<in> set lifecycle_states" "delivery_status_value r \<in> set delivery_statuses"
proof -
  show "watch_stage_value a \<in> set watch_stages" by (cases a) (simp_all add: watch_stages_def)
  show "setup_label_value b \<in> set setup_labels" by (cases b) (simp_all add: setup_labels_def)
  show "flow_status_value c \<in> set flow_statuses" by (cases c) (simp_all add: flow_statuses_def)
  show "plan_status_value p \<in> set plan_statuses" by (cases p) (simp_all add: plan_statuses_def)
  show "lifecycle_state_value l \<in> set lifecycle_states" by (cases l) (simp_all add: lifecycle_states_def)
  show "delivery_status_value r \<in> set delivery_statuses" by (cases r) (simp_all add: delivery_statuses_def)
qed

lemma data_rows_known:
  assumes "grouped (data_records d) rows"
  shows "\<forall>r \<in> set rows. known_row r"
proof
  fix r
  assume "r \<in> set rows"
  then obtain k where "k \<in> set (data_records d)" "r = (fst k, snd k, int (count_list (data_records d) k))"
    using assms by (auto simp: grouped_def)
  then show "known_row r"
    by (auto simp: data_records_def known_row_def record_sections_def member_values)
qed

text \<open>
  C23: the overview of the database and the overview of objects in memory agree: when the stored records are those of the objects,
  and the query groups and counts them, all totals and all counts of every section are the same.
\<close>

theorem overview_providers_agree:
  assumes "aware t" "grouped (data_records d) rows"
  shows "\<exists>s. database_summary sql_error (Inr rows) t = Inr s \<and>
    build_overview d t = Inr (s\<lparr>os_mode := od_mode d, os_notes := od_notes d\<rparr>)"
proof -
  let ?recs = "data_records d" and ?t = "tally_of rows"
  note sums = grouped_row_sum [OF assms(2)] grouped_type_sum [OF assms(2)]
  have fold: "fold tally_row rows no_tally = ?t" by (rule tally_all_known [OF data_rows_known [OF assms(2)]])
  have "ta_totals ?t = [(''watchlist'', int (length (od_watchlist d))), (''setups'', int (length (od_setups d))),
         (''flow'', int (length (od_flow d))), (''plans'', int (length (od_plans d))),
         (''lifecycle'', int (length (od_lifecycle d))), (''deliveries'', int (length (od_deliveries d)))]"
    by (simp add: tally_of_def record_sections_def sums(2) data_records_def filter_tagged)
  moreover have "section_counts (ta_sections ?t) s = map (\<lambda>m. (m, int (count_list ?recs (ty, m)))) ms"
    if "(ty, s, ms) \<in> set record_sections" for ty s ms
    using that by (auto simp: section_counts_def tally_of_def record_sections_def sums(1))
  then have "section_counts (ta_sections ?t) ''watchlist'' = counts_of watch_stages (map (\<lambda>e. watch_stage_value (we_stage e)) (od_watchlist d))"
    "section_counts (ta_sections ?t) ''setups'' = counts_of setup_labels (map (\<lambda>c. setup_label_value (sc_label c)) (od_setups d))"
    "section_counts (ta_sections ?t) ''flow'' = counts_of flow_statuses (map (\<lambda>f. flow_status_value (fr_status f)) (od_flow d))"
    "section_counts (ta_sections ?t) ''plans'' = counts_of plan_statuses (map (\<lambda>p. plan_status_value (pd_status p)) (od_plans d))"
    "section_counts (ta_sections ?t) ''lifecycle'' = counts_of lifecycle_states (map (\<lambda>l. lifecycle_state_value (lc_state l)) (od_lifecycle d))"
    "section_counts (ta_sections ?t) ''deliveries'' = counts_of delivery_statuses (map (\<lambda>r. delivery_status_value (dl_status r)) (od_deliveries d))"
    by (simp_all add: record_sections_def data_records_def counts_of_def count_list_tagged)
  moreover have "ta_sections ?t \<noteq> []" "ta_totals ?t \<noteq> []" by (simp_all add: tally_of_def record_sections_def)
  ultimately show ?thesis
    using assms(1) by (simp add: database_summary_def build_overview_def require_generated_def fold summary_of_def Let_def)
qed

section \<open>The counts account for every record\<close>

definition total :: "counts \<Rightarrow> int" where
  "total c = sum_list (map snd c)"

lemma total_bump: "total (bump k n c) = total c + n"
  by (induction c) (auto simp: total_def)

lemma sections_bump:
  assumes "distinct (map fst ss)" "s \<in> fst ` set ss" "\<And>c. total (f c) = total c + n"
  shows "map (\<lambda>(s, c). (s, total c)) (in_section s f ss) = bump s n (map (\<lambda>(s, c). (s, total c)) ss)"
  using assms(1,2)
proof (induction ss)
  case (Cons p ss)
  obtain s' c where p: "p = (s', c)" by (cases p)
  have "in_section s f ss = ss" if "s \<notin> fst ` set ss" using that by (force simp: in_section_def intro!: map_idI)
  then show ?case using Cons p assms(3) by (cases "s' = s") (auto simp: in_section_def image_iff)
qed simp

definition balanced :: "tally \<Rightarrow> int \<Rightarrow> bool" where
  "balanced t n \<longleftrightarrow> map fst (ta_sections t) = map fst empty_sections \<and> map (\<lambda>(s, c). (s, total c)) (ta_sections t) = ta_totals t \<and>
     total (ta_totals t) + ta_ignored t = n"

lemma tally_balanced:
  assumes "balanced t n"
  shows "balanced (tally_row (ty, st, k) t) (n + k)"
proof (cases "map_of record_sections ty")
  case None
  then show ?thesis using assms by (simp add: tally_row_def balanced_def)
next
  case (Some x)
  obtain s ms where x: "x = (s, ms)" by (cases x)
  have "distinct (map fst empty_sections)" by code_simp
  moreover have "s \<in> fst ` set empty_sections" using map_of_SomeD [OF Some] by (force simp: empty_sections_def x)
  ultimately have "distinct (map fst (ta_sections t))" "s \<in> fst ` set (ta_sections t)"
    using assms by (simp_all add: balanced_def) (metis list.set_map)
  from sections_bump [OF this total_bump] have
    "map (\<lambda>(s, c). (s, total c)) (in_section s (bump v k) (ta_sections t)) = bump s k (map (\<lambda>(s, c). (s, total c)) (ta_sections t))" for v .
  moreover have "map fst (in_section s f (ta_sections t)) = map fst (ta_sections t)" for f
    by (simp add: in_section_def comp_def case_prod_beta if_distrib)
  ultimately show ?thesis using assms Some x by (simp add: tally_row_def balanced_def total_bump Let_def)
qed

lemma fold_balanced: "balanced t n \<Longrightarrow> balanced (fold tally_row rows t) (n + sum_list (map (\<lambda>(ty, st, k). k) rows))"
proof (induction rows arbitrary: t n)
  case (Cons r rows)
  obtain ty st k where r: "r = (ty, st, k)" by (cases r)
  show ?case using Cons.IH [OF tally_balanced [OF Cons.prems, of ty st k]] by (simp add: r add.assoc)
qed simp

text \<open>
  C24: the database overview loses no record, known state or not: in every section the counts add up to the total of the section,
  and the totals together with the ignored records are all the records the query counted.
\<close>

theorem overview_accounts:
  assumes "database_summary sql_error (Inr rows) t = Inr s"
  shows "map_of (os_totals s) ''watchlist'' = Some (total (os_watchlist s)) \<and> map_of (os_totals s) ''setups'' = Some (total (os_setups s)) \<and>
    map_of (os_totals s) ''flow'' = Some (total (os_flow s)) \<and> map_of (os_totals s) ''plans'' = Some (total (os_plans s)) \<and>
    map_of (os_totals s) ''lifecycle'' = Some (total (os_lifecycle s)) \<and>
    map_of (os_totals s) ''deliveries'' = Some (total (os_deliveries s)) \<and>
    total (os_totals s) + other_sum rows = sum_list (map (\<lambda>(ty, st, k). k) rows)"
proof -
  define u where "u = fold tally_row rows no_tally"
  have "balanced no_tally 0" by code_simp
  from fold_balanced [OF this, of rows] have b: "map fst (ta_sections u) = map fst empty_sections"
    "map (\<lambda>(s, c). (s, total c)) (ta_sections u) = ta_totals u" "total (ta_totals u) + ta_ignored u = sum_list (map (\<lambda>(ty, st, k). k) rows)"
    by (simp_all add: balanced_def u_def)
  have "ta_ignored (fold tally_row rows v) = ta_ignored v + other_sum rows" for v
  proof (induction rows arbitrary: v)
    case (Cons r rows)
    obtain ty st k where r: "r = (ty, st, k)" by (cases r)
    have "ta_ignored (tally_row r v) = ta_ignored v + (if ty \<in> fst ` set record_sections then 0 else k)"
    proof (cases "map_of record_sections ty")
      case None
      moreover from None have "ty \<notin> fst ` set record_sections" by (simp add: map_of_eq_None_iff)
      ultimately show ?thesis by (simp add: tally_row_def r)
    next
      case (Some x)
      then have "ty \<in> fst ` set record_sections" by (metis map_of_eq_None_iff option.distinct(1))
      then show ?thesis using Some by (cases x) (simp add: tally_row_def r Let_def)
    qed
    then show ?case using Cons by (simp add: other_sum_def r)
  qed (simp add: other_sum_def)
  then have ign: "ta_ignored u = other_sum rows" by (simp add: u_def no_tally_def)
  have ne: "ta_sections u \<noteq> []" "ta_totals u \<noteq> []" using b(1,2) by (auto simp: empty_sections_def record_sections_def)
  have "map_of (ta_totals u) k = map_option total (map_of (ta_sections u) k)" for k
    unfolding b(2) [symmetric] map_of_map by simp
  moreover have "map_of (ta_sections u) k = Some (section_counts (ta_sections u) k)" if "k \<in> set (map fst empty_sections)" for k
  proof -
    have "k \<in> fst ` set (ta_sections u)" using that b(1) by (metis list.set_map)
    then show ?thesis by (auto simp: section_counts_def map_of_eq_None_iff split: option.split)
  qed
  ultimately have "map_of (ta_totals u) k = Some (total (section_counts (ta_sections u) k))" if "k \<in> set (map fst empty_sections)" for k
    using that by simp
  moreover have "s = summary_of t DATABASE (ta_sections u) (ta_totals u) (overview_notes u)"
    using assms by (simp add: database_summary_def and_then_Inr u_def Let_def)
  ultimately show ?thesis using ne b(3) ign by (simp add: summary_of_def Let_def empty_sections_def record_sections_def)
qed

text \<open>
  Nothing in the program writes a record of the types the overview counts: those of the runtime store, the signal
  store and the audit are all ignored, so the overview of a database that holds only these is empty.
\<close>

definition written_types :: "string set" where
  "written_types = range (\<lambda>(j, p). payload_record_type j p) \<union>
     {''source_health'', ''worker_run'', ''signal_assembly'', ''signal_lifecycle'', ''audit''}"

lemma written_not_counted: "ty \<in> written_types \<Longrightarrow> map_of record_sections ty = None"
proof -
  have "map (map_of record_sections) [''execution_snapshot'', ''benchmark_snapshot'', ''structure_snapshot'', ''discovery_snapshot'',
      ''source_diagnostic'', ''source_health'', ''worker_run'', ''signal_assembly'', ''signal_lifecycle'', ''audit''] = replicate 10 None"
    by code_simp
  moreover have "map (\<lambda>k. lower (job_kind_value k)) [JK_EXECUTION, JK_BENCHMARK, JK_STRUCTURE, JK_DISCOVERY] =
      [''execution'', ''benchmark'', ''structure'', ''discovery'']" by code_simp
  ultimately have none: "map_of record_sections (payload_record_type j p) = None" for j p
    by (cases "sj_kind j") (simp_all add: payload_record_type_def numeral_eq_Suc)
  show "ty \<in> written_types \<Longrightarrow> map_of record_sections ty = None"
    using none \<open>map (map_of record_sections) _ = _\<close> by (auto simp: written_types_def numeral_eq_Suc)
qed

theorem written_records_ignored:
  assumes "aware t" "\<forall>(ty, st, n) \<in> set rows. ty \<in> written_types"
  shows "\<exists>s. database_summary sql_error (Inr rows) t = Inr s \<and> (\<forall>(k, n) \<in> set (os_totals s). n = 0)"
proof -
  have "fold tally_row rows u = u\<lparr>ta_ignored := ta_ignored u + sum_list (map (\<lambda>(ty, st, n). n) rows)\<rparr>" for u
    using assms(2)
  proof (induction rows arbitrary: u)
    case (Cons r rows)
    obtain ty st n where r: "r = (ty, st, n)" by (cases r)
    have "map_of record_sections ty = None" using written_not_counted [of ty] Cons.prems r by auto
    then show ?case using Cons by (simp add: r tally_row_def)
  qed simp
  then show ?thesis using assms(1)
    by (auto simp: database_summary_def require_generated_def summary_of_def no_tally_def Let_def)
qed

section \<open>A sample\<close>

definition sample_overview :: overview_data where
  "sample_overview = empty_overview_data\<lparr>od_flow := [\<lparr>fr_symbol = ''ABCUSDT'', fr_status = FL_READY, fr_reasons = []\<rparr>,
     \<lparr>fr_symbol = ''XYZUSDT'', fr_status = FL_READY, fr_reasons = []\<rparr>]\<rparr>"

lemma sample_grouped: "grouped (data_records sample_overview) [(''flow'', ''READY'', 2)]"
  by (auto simp: grouped_def data_records_def sample_overview_def empty_overview_data_def intro!: exI [of _ "[(''flow'', ''READY'')]"])

theorem overview_providers_agree_witness:
  "\<exists>s. database_summary (\<lambda>_. True) (Inr [(''flow'', ''READY'', 2)]) (DateTime 0 (Some 0)) = Inr s \<and>
    build_overview sample_overview (DateTime 0 (Some 0)) =
      Inr (s\<lparr>os_mode := NO_STORE, os_notes := [''No persistence provider is configured.'']\<rparr>)"
  using overview_providers_agree [OF _ sample_grouped, of "DateTime 0 (Some 0)" "\<lambda>_. True"]
  by (simp add: aware_def sample_overview_def empty_overview_data_def)

theorem overview_accounts_witness:
  "\<exists>s. database_summary (\<lambda>_. True) (Inr [(''flow'', ''ODD'', 2), (''audit'', ''SUCCESS'', 3)]) (DateTime 0 (Some 0)) = Inr s \<and>
    map_of (os_totals s) ''flow'' = Some (total (os_flow s))"
proof -
  obtain s where "database_summary (\<lambda>_. True) (Inr [(''flow'', ''ODD'', 2), (''audit'', ''SUCCESS'', 3)]) (DateTime 0 (Some 0)) = Inr s"
    by (simp add: database_summary_def require_generated_def aware_def Let_def)
  with overview_accounts [OF this] show ?thesis by blast
qed

end
