(* ===== verification/Signal_Store.thy ===== *)
theory Signal_Store
  imports Providers Overview
begin

text \<open>
  \<^verbatim>\<open>DomainRecordSignalAssemblyStore\<close> of \<^verbatim>\<open>app/signals/store.py\<close> and the pipeline of \<^verbatim>\<open>app/signals/pipeline.py\<close> over it: a report as
  a Python value, and the two domain records it is stored as. The metadata of a discovery record is an opaque
  dictionary; \<open>meta\<close> gives it as a value.
\<close>

section \<open>Reports as values\<close>

fun assembly_status_value :: "assembly_status \<Rightarrow> string" where
  "assembly_status_value HYPE_WATCH = ''HYPE_WATCH''"
| "assembly_status_value WEAKNESS_WATCH = ''WEAKNESS_WATCH''"
| "assembly_status_value BREAKDOWN_WATCH = ''BREAKDOWN_WATCH''"
| "assembly_status_value AS_EXECUTION_PENDING = ''EXECUTION_PENDING''"
| "assembly_status_value AS_DATA_DEGRADED = ''DATA_DEGRADED''"
| "assembly_status_value AS_AVOID = ''AVOID''"
| "assembly_status_value SHORT_READY = ''SHORT_READY''"

fun gate_state_value :: "gate_state \<Rightarrow> string" where
  "gate_state_value G_PASS = ''PASS''"
| "gate_state_value G_WARN = ''WARN''"
| "gate_state_value G_FAIL = ''FAIL''"
| "gate_state_value G_SKIP = ''SKIP''"

fun origin_value :: "evidence_origin \<Rightarrow> string" where
  "origin_value MANUAL = ''MANUAL''"
| "origin_value DERIVED = ''DERIVED''"

fun benchmark_health_value :: "benchmark_health_state \<Rightarrow> string" where
  "benchmark_health_value BH_OK = ''OK''"
| "benchmark_health_value BH_DEGRADED = ''DEGRADED''"
| "benchmark_health_value BH_STALE = ''STALE''"

definition py_enum :: "string \<Rightarrow> pyvalue" where
  "py_enum s = PEnum (PStr s)"

definition py_discovery :: "('m \<Rightarrow> pyvalue) \<Rightarrow> 'm discovery_record \<Rightarrow> pyvalue" where
  "py_discovery meta d = PData
     [(''source'', py_enum (discovery_source_value (dr_source d))), (''role'', py_enum ''DISCOVERY_ONLY''),
      (''external_id'', PStr (dr_external_id d)), (''symbol'', py_optional PStr (dr_symbol d)), (''name'', py_optional PStr (dr_name d)),
      (''chain_id'', py_optional PStr (dr_chain_id d)), (''token_address'', py_optional PStr (dr_token_address d)),
      (''category'', py_optional PStr (dr_category d)), (''price_usd'', py_optional PDecimal (dr_price_usd d)),
      (''liquidity_usd'', py_optional PDecimal (dr_liquidity_usd d)), (''volume_24h_usd'', py_optional PDecimal (dr_volume_24h_usd d)),
      (''market_cap_usd'', py_optional PDecimal (dr_market_cap_usd d)),
      (''price_change_24h_pct'', py_optional PDecimal (dr_price_change_24h_pct d)), (''boost_active'', py_optional PInt (dr_boost_active d)),
      (''pair_created_at'', py_optional PDatetime (dr_pair_created_at d)), (''url'', py_optional PStr (dr_url d)),
      (''metadata'', meta (dr_metadata d))]"

definition py_htf_evidence :: "htf_evidence \<Rightarrow> pyvalue" where
  "py_htf_evidence h = PData
     [(''symbol'', PStr (he_symbol h)), (''market_symbol'', PStr (he_market_symbol h)), (''observed_at'', PDatetime (he_observed_at h)),
      (''daily_damaged'', PBool (he_daily_damaged h)), (''four_hour_damaged'', PBool (he_four_hour_damaged h)),
      (''origin'', py_enum (origin_value (he_origin h))), (''daily_zone_id'', py_optional PStr (he_daily_zone_id h)),
      (''daily_event_id'', py_optional PStr (he_daily_event_id h)), (''four_hour_zone_id'', py_optional PStr (he_four_hour_zone_id h)),
      (''four_hour_event_id'', py_optional PStr (he_four_hour_event_id h)), (''reasons'', py_texts (he_reasons h))]"

definition py_gate :: "gate_decision \<Rightarrow> pyvalue" where
  "py_gate g = PData [(''name'', PStr (gd_name g)), (''state'', py_enum (gate_state_value (gd_state g))), (''reasons'', py_texts (gd_reasons g))]"

definition py_plan :: "plan_draft \<Rightarrow> pyvalue" where
  "py_plan p = PData
     [(''symbol'', PStr (pd_symbol p)), (''status'', py_enum (plan_status_value (pd_status p))),
      (''entry_value'', py_optional PFloat (pd_entry p)), (''boundary_value'', py_optional PFloat (pd_boundary p)),
      (''objective_value'', py_optional PFloat (pd_objective p)), (''multiplier'', PInt (pd_multiplier p)),
      (''ratio'', PFloat (pd_ratio p)), (''notes'', py_texts (pd_notes p))]"

definition py_lifecycle :: "lifecycle_record \<Rightarrow> pyvalue" where
  "py_lifecycle l = PData
     [(''symbol'', PStr (lc_symbol l)), (''state'', py_enum (lifecycle_state_value (lc_state l))),
      (''created_at'', PDatetime (lc_created_at l)), (''updated_at'', PDatetime (lc_updated_at l)),
      (''expires_at'', PDatetime (lc_expires_at l)), (''closed_at'', py_optional PDatetime (lc_closed_at l)), (''notes'', py_texts (lc_notes l))]"

definition py_structure :: "structure_snapshot \<Rightarrow> pyvalue" where
  "py_structure s = PData
     [(''symbol'', PStr (ss_symbol s)), (''state'', py_enum (structure_state_value (ss_state s))), (''current_value'', PFloat (ss_current s)),
      (''reference_low'', PFloat (ss_low s)), (''reference_high'', PFloat (ss_high s)), (''reasons'', py_texts (ss_reasons s))]"

definition py_setup :: "setup_candidate \<Rightarrow> pyvalue" where
  "py_setup c = PData
     [(''symbol'', PStr (sc_symbol c)), (''label'', py_enum (setup_label_value (sc_label c))), (''source_state'', PStr (sc_source_state c)),
      (''data'', PDict (map (\<lambda>(k, x). (k, PFloat x)) (sc_data c))), (''reasons'', py_texts (sc_reasons c))]"

definition py_flow :: "flow_result \<Rightarrow> pyvalue" where
  "py_flow f = PData [(''symbol'', PStr (fr_symbol f)), (''status'', py_enum (flow_status_value (fr_status f))), (''reasons'', py_texts (fr_reasons f))]"

definition py_validation :: "lbank_validation \<Rightarrow> pyvalue" where
  "py_validation v = PData
     [(''symbol'', PStr (lv_symbol v)), (''status'', py_enum (lbank_status_value (lv_status v))), (''age_seconds'', PFloat (lv_age_seconds v)),
      (''reasons'', py_texts (lv_reasons v))]"

definition py_source_result :: "source_result \<Rightarrow> pyvalue" where
  "py_source_result s = PData
     [(''source'', py_enum (benchmark_source_value (sr_source s))), (''exchange_symbol'', PStr (sr_exchange_symbol s)),
      (''expected_symbol'', py_optional PStr (sr_expected_symbol s)),
      (''health_state'', py_optional (\<lambda>h. py_enum (benchmark_health_value h)) (sr_health_state s)), (''price'', PDec (sr_price s)),
      (''included'', PBool (sr_included s)), (''deviation_from_median_pct'', py_optional PDec (sr_deviation_from_median_pct s)),
      (''reasons'', py_texts (sr_reasons s))]"

definition py_consensus :: "consensus_report \<Rightarrow> pyvalue" where
  "py_consensus c = PData
     [(''canonical_symbol'', PStr (cp_canonical_symbol c)), (''lbank_symbol'', PStr (cp_lbank_symbol c)), (''lbank_price'', PDec (cp_lbank_price c)),
      (''median_benchmark_price'', py_optional PDec (cp_median_benchmark_price c)),
      (''lbank_deviation_pct'', py_optional PDec (cp_lbank_deviation_pct c)),
      (''benchmark_dispersion_pct'', py_optional PDec (cp_benchmark_dispersion_pct c)),
      (''status'', py_enum (consensus_status_value (cp_status c))), (''usable_sources'', PInt (int (cp_usable_sources c))),
      (''source_results'', PTuple (map py_source_result (cp_source_results c))), (''reasons'', py_texts (cp_reasons c))]"

definition py_report :: "('m \<Rightarrow> pyvalue) \<Rightarrow> 'm assembly_report \<Rightarrow> pyvalue" where
  "py_report meta a = PData
     [(''symbol'', PStr (rp_symbol a)), (''setup_type'', py_enum (setup_type_value (rp_setup_type a))),
      (''status'', py_enum (assembly_status_value (rp_status a))), (''assembled_at'', PDatetime (rp_assembled_at a)),
      (''discovery_records'', PTuple (map (py_discovery meta) (rp_discovery_records a))),
      (''higher_timeframe'', py_htf_evidence (rp_higher_timeframe a)), (''gates'', PTuple (map py_gate (rp_gates a))),
      (''reasons'', py_texts (rp_reasons a)), (''plan'', py_plan (rp_plan a)), (''lifecycle'', py_lifecycle (rp_lifecycle a)),
      (''structure'', py_optional py_structure (rp_structure a)), (''setup'', py_optional py_setup (rp_setup a)),
      (''flow'', py_optional py_flow (rp_flow a)), (''lbank_validation'', py_optional py_validation (rp_lbank_validation a)),
      (''consensus'', py_optional py_consensus (rp_consensus a)), (''entry_deviation_bps'', py_optional PDec (rp_entry_deviation_bps a))]"

section \<open>The store\<close>

definition lifecycle_payload :: "'m assembly_report \<Rightarrow> py_dict" where
  "lifecycle_payload a =
     [(''symbol'', PStr (rp_symbol a)), (''assembly_status'', py_enum (assembly_status_value (rp_status a))),
      (''setup_type'', py_enum (setup_type_value (rp_setup_type a))), (''assembled_at'', PDatetime (rp_assembled_at a)),
      (''lifecycle'', py_lifecycle (rp_lifecycle a)), (''reasons'', py_texts (rp_reasons a)), (''gates'', PTuple (map py_gate (rp_gates a)))]"

definition json_object_of :: "json \<Rightarrow> json_object" where
  "json_object_of v = (case v of JObj d \<Rightarrow> d | _ \<Rightarrow> [])"

definition assembly_record :: "json \<Rightarrow> 'm assembly_report \<Rightarrow> domain_record" where
  "assembly_record payload a = \<lparr>dm_record_type = ''signal_assembly'', dm_symbol = rp_symbol a, dm_state = assembly_status_value (rp_status a),
     dm_payload = json_object_of payload, dm_expires_at = Some (lc_expires_at (rp_lifecycle a))\<rparr>"

definition signal_lifecycle_record :: "json \<Rightarrow> 'm assembly_report \<Rightarrow> domain_record" where
  "signal_lifecycle_record payload a = \<lparr>dm_record_type = ''signal_lifecycle'', dm_symbol = rp_symbol a,
     dm_state = lifecycle_state_value (lc_state (rp_lifecycle a)), dm_payload = json_object_of payload,
     dm_expires_at = Some (lc_expires_at (rp_lifecycle a))\<rparr>"

text \<open>What is added before an exception is rolled back with the session, so only a whole success has an effect.\<close>

definition signal_persist ::
  "('m \<Rightarrow> pyvalue) \<Rightarrow> ('d \<Rightarrow> domain_record \<Rightarrow> 'd) \<Rightarrow> unit result \<Rightarrow> 'm assembly_report \<Rightarrow> 'd \<Rightarrow> 'd result" where
  "signal_persist meta add_row commit a db =
     and_then (json_safe (py_report meta a)) (\<lambda>assembly.
     and_then (json_safe (PDict (lifecycle_payload a))) (\<lambda>life.
     and_then (add_record add_row (assembly_record assembly a) db) (\<lambda>db1.
     and_then (add_record add_row (signal_lifecycle_record life a) db1) (\<lambda>db2.
     and_then commit (\<lambda>_. Inr db2)))))"

definition assemble_and_store ::
  "('m assembly_report \<Rightarrow> 'd \<Rightarrow> 'd result) \<Rightarrow> assembly_rules \<Rightarrow> datetime \<Rightarrow> 'm assembly_request \<Rightarrow> 'd \<Rightarrow> ('m assembly_report \<times> 'd) result" where
  "assemble_and_store persist r now q db =
     and_then (assemble_signal r now q) (\<lambda>rep. and_then (persist rep db) (\<lambda>db1. Inr (rep, db1)))"

section \<open>What can be stored\<close>

text \<open>Values in which only a Decimal can keep \<open>json_safe\<close> from succeeding.\<close>

fun timely :: "pyvalue \<Rightarrow> bool" where
  "timely (PEnum v) = timely v"
| "timely (PDatetime t) = aware t"
| "timely (PData d) = (\<forall>p \<in> set d. timely (snd p))"
| "timely (PDict d) = (\<forall>p \<in> set d. timely (snd p))"
| "timely (PList xs) = (\<forall>x \<in> set xs. timely x)"
| "timely (PTuple xs) = (\<forall>x \<in> set xs. timely x)"
| "timely (PSet xs) = (\<forall>x \<in> set xs. timely x)"
| "timely (POther cls) = False"
| "timely v = True"

lemma json_safe_timely:
  "timely v \<Longrightarrow> \<not> storable v \<Longrightarrow> json_safe v = Inl (ValueError ''persisted Decimal must be finite'')"
  "\<forall>x \<in> set xs. timely x \<Longrightarrow> \<not> (\<forall>x \<in> set xs. storable x) \<Longrightarrow>
     json_safe_list xs = Inl (ValueError ''persisted Decimal must be finite'')"
  "\<forall>p \<in> set d. timely (snd p) \<Longrightarrow> \<not> (\<forall>p \<in> set d. storable (snd p)) \<Longrightarrow>
     json_safe_fields d = Inl (ValueError ''persisted Decimal must be finite'')"
proof (induction v and xs and d rule: json_safe_json_safe_list_json_safe_fields.induct)
  case (17 x xs)
  then show ?case using json_safe_iff(1) [of x] by (cases "storable x") (auto simp: succeeds_iff)
next
  case (19 k x d)
  then show ?case using json_safe_iff(1) [of x] by (cases "storable x") (auto simp: succeeds_iff)
qed (auto split: raw_decimal.splits)

definition finite_amount :: "raw_decimal option \<Rightarrow> bool" where
  "finite_amount v = (case v of Some (Finite d) \<Rightarrow> True | None \<Rightarrow> True | _ \<Rightarrow> False)"

definition finite_record :: "'m discovery_record \<Rightarrow> bool" where
  "finite_record d \<longleftrightarrow> finite_amount (dr_price_usd d) \<and> finite_amount (dr_liquidity_usd d) \<and> finite_amount (dr_volume_24h_usd d) \<and>
     finite_amount (dr_market_cap_usd d) \<and> finite_amount (dr_price_change_24h_pct d)"

lemma storable_optional [simp]:
  "storable (py_optional f v) \<longleftrightarrow> (\<forall>x. v = Some x \<longrightarrow> storable (f x))" "timely (py_optional f v) \<longleftrightarrow> (\<forall>x. v = Some x \<longrightarrow> timely (f x))"
  by (cases v; simp add: py_optional_def)+

lemma storable_simple [simp]:
  "storable (py_texts xs)" "timely (py_texts xs)" "storable (py_enum s)" "timely (py_enum s)"
  by (auto simp: py_texts_def py_enum_def)

lemma storable_decimal: "(\<forall>x. v = Some x \<longrightarrow> storable (PDecimal x)) \<longleftrightarrow> finite_amount v"
  by (auto simp: finite_amount_def split: option.splits raw_decimal.splits)

lemma storable_parts [simp]:
  "storable (py_gate g)" "timely (py_gate g)" "storable (py_plan p)" "timely (py_plan p)" "storable (py_structure s)" "timely (py_structure s)"
  "storable (py_setup c)" "timely (py_setup c)" "storable (py_flow f)" "timely (py_flow f)" "storable (py_validation v)" "timely (py_validation v)"
  "storable (py_source_result r)" "timely (py_source_result r)" "storable (py_consensus k)" "timely (py_consensus k)"
  by (auto simp: py_gate_def py_plan_def py_structure_def py_setup_def py_flow_def py_validation_def py_source_result_def py_consensus_def)

lemma storable_timely: "storable v \<Longrightarrow> timely v"
  by (induction v rule: storable.induct) auto

lemma storable_discovery:
  assumes "storable (meta (dr_metadata d))" "\<forall>t. dr_pair_created_at d = Some t \<longrightarrow> aware t"
  shows "storable (py_discovery meta d) \<longleftrightarrow> finite_record d" "timely (py_discovery meta d)"
  using assms storable_timely [OF assms(1)] by (simp_all add: py_discovery_def finite_record_def storable_decimal del: storable.simps(2))

lemma storable_times:
  "storable (py_htf_evidence h) \<longleftrightarrow> aware (he_observed_at h)" "timely (py_htf_evidence h) \<longleftrightarrow> aware (he_observed_at h)"
  "lifecycle_wf l \<Longrightarrow> aware (lc_created_at l) \<Longrightarrow> storable (py_lifecycle l)"
  "lifecycle_wf l \<Longrightarrow> aware (lc_created_at l) \<Longrightarrow> timely (py_lifecycle l)"
  by (auto simp: py_htf_evidence_def py_lifecycle_def lifecycle_wf_def)

section \<open>Every assembled report\<close>

text \<open>The lifecycle of a report is one that was just created.\<close>

lemma finish_lifecycle:
  assumes "finish r now q st gs pg = Inr rep" "pg_lifecycle pg = None"
  shows "\<exists>p. create_lifecycle p now (ar_lifecycle_ttl_minutes r) = Inr (rp_lifecycle rep)"
  using assms unfolding finish_def Let_def SignalAssemblyReport_def by (auto simp: result_simps)

lemma assemble_lifecycle:
  assumes "assemble_signal r now q = Inr rep"
  shows "\<exists>p. create_lifecycle p now (ar_lifecycle_ttl_minutes r) = Inr (rp_lifecycle rep)" (is "\<exists>p. ?new p")
proof -
  note fin = finish_lifecycle [of r now q _ _ _ rep]
  have plan: "\<exists>p. ?new p" if "assemble_plan r now q gs pg f = Inr rep" "pg_lifecycle pg = None" for gs pg f
    using that fin by (auto simp: assemble_plan_def Let_def result_simps dest: finish_fields(11) split: sum.splits if_splits)
  have entry: "\<exists>p. ?new p" if "assemble_entry r now q gs pg f = Inr rep" "pg_lifecycle pg = None" for gs pg f
    using that plan fin by (auto simp: assemble_entry_def Let_def result_simps split: if_splits)
  have cons: "\<exists>p. ?new p" if "assemble_consensus r now q gs pg f = Inr rep" "pg_lifecycle pg = None" for gs pg f
    using that entry fin by (auto simp: assemble_consensus_def Let_def split: sum.splits if_splits)
  have exec: "\<exists>p. ?new p" if "assemble_execution r now q gs pg f = Inr rep" "pg_lifecycle pg = None" for gs pg f
    using that cons fin by (auto simp: assemble_execution_def Let_def split: sum.splits if_splits)
  have none: "pg_lifecycle no_progress = None" by (simp add: no_progress_def)
  have flow: "\<exists>p. ?new p" if "assemble_flow r now q gs s = Inr rep" for gs s
    using that exec fin none by (auto simp: assemble_flow_def Let_def split: if_splits)
  show ?thesis using assms flow fin none
    by (cases "analyze_structure (rq_structure_input q)")
      (auto simp: assemble_signal_def Let_def result_simps split: if_splits)
qed

lemma finish_copies:
  assumes "finish r now q st gs pg = Inr rep"
  shows "rp_discovery_records rep = rq_discovery_records q" "strip (rp_symbol rep) \<noteq> ''''" "aware (rp_assembled_at rep)"
  using assms unfolding finish_def Let_def SignalAssemblyReport_def by (auto simp: result_simps split: if_splits)

lemma DiscoveryRecord_time: "DiscoveryRecord d0 = Inr d \<Longrightarrow> dr_pair_created_at d = Some t \<Longrightarrow> aware t"
  by (auto simp: DiscoveryRecord_def result_simps split: if_splits option.splits)

lemma report_storable:
  assumes "assemble_signal r now q = Inr rep" "aware (he_observed_at (rq_higher_timeframe q))"
    "\<forall>d \<in> set (rq_discovery_records q). (\<exists>d0. DiscoveryRecord d0 = Inr d) \<and> storable (meta (dr_metadata d))"
  shows "storable (py_report meta rep) \<longleftrightarrow> (\<forall>d \<in> set (rq_discovery_records q). finite_record d)" "timely (py_report meta rep)"
    "storable (PDict (lifecycle_payload rep))"
proof -
  obtain st gs pg where fin: "finish r now q st gs pg = Inr rep" using assemble_finishes [OF assms(1)] by blast
  note f = finish_copies [OF fin] finish_fields [OF fin]
  obtain p where "create_lifecycle p now (ar_lifecycle_ttl_minutes r) = Inr (rp_lifecycle rep)"
    using assemble_lifecycle [OF assms(1)] by blast
  then have l: "lifecycle_wf (rp_lifecycle rep)" "aware (lc_created_at (rp_lifecycle rep))"
    using create_wf(1,2) f(3) f(12) by metis+
  have d: "(storable (py_discovery meta d) \<longleftrightarrow> finite_record d) \<and> timely (py_discovery meta d)" if "d \<in> set (rq_discovery_records q)" for d
    using assms(3) that storable_discovery [of meta d] DiscoveryRecord_time by blast
  show "storable (py_report meta rep) \<longleftrightarrow> (\<forall>d \<in> set (rq_discovery_records q). finite_record d)"
    using d f(1,3) assms(2) f(7) storable_times(1,3) l by (simp add: py_report_def)
  show "timely (py_report meta rep)"
    using d f(1,3) assms(2) f(7) storable_times(2,4) l by (simp add: py_report_def)
  show "storable (PDict (lifecycle_payload rep))"
    using f(3) storable_times(3) l by (simp add: lifecycle_payload_def)
qed

lemma status_text [simp]:
  "strip (assembly_status_value s) = assembly_status_value s" "assembly_status_value s \<noteq> []"
  by (cases s; simp; code_simp)+

lemma state_text [simp]:
  "strip (lifecycle_state_value l) = lifecycle_state_value l" "lifecycle_state_value l \<noteq> []"
  by (cases l; simp; code_simp)+

lemma type_text: "strip ''signal_assembly'' = ''signal_assembly''" "strip ''signal_lifecycle'' = ''signal_lifecycle''"
  by code_simp+

definition stored_record :: "string \<Rightarrow> string \<Rightarrow> json_object \<Rightarrow> 'm assembly_report \<Rightarrow> domain_record" where
  "stored_record ty st payload rep = \<lparr>dm_record_type = ty, dm_symbol = strip (rp_symbol rep), dm_state = st, dm_payload = payload,
     dm_expires_at = Some (lc_expires_at (rp_lifecycle rep))\<rparr>"

lemma persist_finite:
  assumes "storable (py_report meta rep)" "storable (PDict (lifecycle_payload rep))" "strip (rp_symbol rep) \<noteq> ''''"
  shows "\<exists>pa pl. json_safe (py_report meta rep) = Inr (JObj pa) \<and> json_safe (PDict (lifecycle_payload rep)) = Inr (JObj pl) \<and>
    signal_persist meta add_row commit rep db = and_then commit (\<lambda>_. Inr (add_row
      (add_row db (stored_record ''signal_assembly'' (assembly_status_value (rp_status rep)) pa rep))
      (stored_record ''signal_lifecycle'' (lifecycle_state_value (lc_state (rp_lifecycle rep))) pl rep)))"
proof -
  obtain pa where pa: "json_safe (py_report meta rep) = Inr (JObj pa)"
    using assms(1) json_safe_iff(1) [of "py_report meta rep"] by (auto simp: py_report_def succeeds_iff and_then_Inr)
  obtain pl where pl: "json_safe (PDict (lifecycle_payload rep)) = Inr (JObj pl)"
    using assms(2) json_safe_iff(1) [of "PDict (lifecycle_payload rep)"] by (auto simp: succeeds_iff and_then_Inr)
  have "signal_persist meta add_row commit rep db = and_then commit (\<lambda>_. Inr (add_row
      (add_row db (stored_record ''signal_assembly'' (assembly_status_value (rp_status rep)) pa rep))
      (stored_record ''signal_lifecycle'' (lifecycle_state_value (lc_state (rp_lifecycle rep))) pl rep)))"
    unfolding signal_persist_def pa pl using assms(3)
    by (simp add: add_record_def assembly_record_def signal_lifecycle_record_def json_object_of_def stored_record_def type_text)
  with pa pl show ?thesis by blast
qed

text \<open>
  C14: what the pipeline assembles it stores, or nothing. A report assembled from validated evidence is written as two records of its symbol, which
  expire with its lifecycle and whose states agree (a ready short is active, any other report pending); storing raises exactly when
  a discovery record has a non-finite amount, which \<open>DiscoveryRecord\<close> admits, or when the commit fails.
\<close>

theorem signal_store_exact:
  assumes "assemble_signal r now q = Inr rep" "HigherTimeframeStructureEvidence h = Inr (rq_higher_timeframe q)"
    "\<forall>d \<in> set (rq_discovery_records q). (\<exists>d0. DiscoveryRecord d0 = Inr d) \<and> storable (meta (dr_metadata d))"
  shows "if \<forall>d \<in> set (rq_discovery_records q). finite_record d
    then \<exists>pa pl. json_safe (py_report meta rep) = Inr (JObj pa) \<and> json_safe (PDict (lifecycle_payload rep)) = Inr (JObj pl) \<and>
      assemble_and_store (signal_persist meta add_row commit) r now q db = and_then commit (\<lambda>_. Inr (rep, add_row
        (add_row db (stored_record ''signal_assembly'' (assembly_status_value (rp_status rep)) pa rep))
        (stored_record ''signal_lifecycle'' (if rp_status rep = SHORT_READY then ''ACTIVE'' else ''PENDING'') pl rep)))
    else assemble_and_store (signal_persist meta add_row commit) r now q db = Inl (ValueError ''persisted Decimal must be finite'')"
proof -
  have "aware (he_observed_at h)" "he_observed_at (rq_higher_timeframe q) = he_observed_at h"
    using assms(2) arg_cong [of _ "rq_higher_timeframe q" he_observed_at]
    by (fastforce simp: HigherTimeframeStructureEvidence_def Let_def split: if_splits)+
  then have aw: "aware (he_observed_at (rq_higher_timeframe q))" by simp
  note st = report_storable [OF assms(1) aw assms(3)]
  have sy: "strip (rp_symbol rep) \<noteq> ''''" using assemble_finishes [OF assms(1)] finish_copies(2) by blast
  have "lc_state (rp_lifecycle rep) = (if rp_status rep = SHORT_READY then LS_ACTIVE else LS_PENDING)"
    using assemble_cases [OF assms(1)] by (auto simp: blocked_def ready_evidence_def planned_def)
  then have ls: "lifecycle_state_value (lc_state (rp_lifecycle rep)) = (if rp_status rep = SHORT_READY then ''ACTIVE'' else ''PENDING'')"
    by simp
  show ?thesis
  proof (cases "\<forall>d \<in> set (rq_discovery_records q). finite_record d")
    case True
    then show ?thesis
      using persist_finite [of meta rep, OF _ st(3) sy, of add_row commit db] st(1) assms(1)
      unfolding ls by (cases commit) (auto simp: assemble_and_store_def)
  next
    case False
    then have "signal_persist meta add_row commit rep db = Inl (ValueError ''persisted Decimal must be finite'')"
      using json_safe_timely(1) [OF st(2)] st(1) by (simp add: signal_persist_def)
    then have "assemble_and_store (signal_persist meta add_row commit) r now q db = Inl (ValueError ''persisted Decimal must be finite'')"
      using assms(1) by (simp add: assemble_and_store_def)
    then show ?thesis unfolding if_not_P [OF False] .
  qed
qed

theorem signal_store_exact_witness:
  "\<exists>rep pa pl. assemble_and_store (signal_persist (\<lambda>_. PDict []) (\<lambda>db r. db @ [r]) (Inr ())) default_assembly_rules sample_now
      (derived_assembly\<lparr>rq_setup_type := SS_FAILED_PULLBACK\<rparr>) [] =
     Inr (rep, [stored_record ''signal_assembly'' ''SHORT_READY'' pa rep, stored_record ''signal_lifecycle'' ''ACTIVE'' pl rep])"
proof -
  let ?q = "derived_assembly\<lparr>rq_setup_type := SS_FAILED_PULLBACK\<rparr>"
  obtain rep where rep: "assemble_signal default_assembly_rules sample_now ?q = Inr rep"
    using assembly_returns [OF sample_clock, of ?q]
    by (auto simp: derived_assembly_def sample_assembly_def loaded_evidence_def sample_now_def aware_def sample_book
        strip_def is_space_def spaces_def)
  have "rp_status rep = SHORT_READY" by (rule assemble_ready [OF rep derived_ready])
  moreover have "HigherTimeframeStructureEvidence loaded_evidence = Inr (rq_higher_timeframe ?q)" by code_simp
  moreover have "rq_discovery_records ?q = []" by code_simp
  ultimately show ?thesis using signal_store_exact [OF rep, of loaded_evidence "\<lambda>_. PDict []" "\<lambda>db r. db @ [r]" "Inr ()" "[]"] by auto
qed

end
