(* ===== verification/Operations.thy ===== *)
theory Operations
  imports Runtime_Store Sha256
begin

text \<open>
  \<^verbatim>\<open>app/ops\<close>: dependency probes and their aggregate, audit events, and the manifest of a backup. What a probe finds and what a
  path holds is outside the program and an argument. The theorems: the reported state is exactly
  the agreement of the probes, an audit event is always accepted by the record store, and a
  manifest describes exactly the files it was given.
\<close>

section \<open>Health\<close>

datatype operational_state = OP_OK | OP_DEGRADED | OP_DOWN

record dependency_check =
  dc_name :: string
  dc_state :: operational_state
  dc_latency_ms :: pyfloat
  dc_detail :: string

record operational_health =
  oh_checked_at :: datetime
  oh_state :: operational_state
  oh_checks :: "dependency_check list"

text \<open>
  A probe is what awaiting it under the timeout gives, and the elapsed milliseconds. \<open>TimeoutError\<close> is what the
  timeout raises.
\<close>

record probe =
  pb_outcome :: "pyfloat \<Rightarrow> unit result"
  pb_elapsed_ms :: pyfloat

definition run_probe :: "pyfloat \<Rightarrow> string \<times> probe \<Rightarrow> dependency_check result" where
  "run_probe timeout_seconds p =
     (case p of (name, probe) \<Rightarrow>
        let normalized_name = strip name in
        if normalized_name = '''' then Inl (ValueError ''probe name is required'')
        else if fle timeout_seconds (Fl 0) then Inl (ValueError ''timeout_seconds must be positive'')
        else let (state, detail) =
            (case pb_outcome probe timeout_seconds of
               Inl (TimeoutError m) \<Rightarrow> (OP_DOWN, ''timeout'')
             | Inl e \<Rightarrow> (OP_DOWN, error_name e)
             | Inr _ \<Rightarrow> (OP_OK, ''''))
          in Inr \<lparr>dc_name = normalized_name, dc_state = state, dc_latency_ms = pb_elapsed_ms probe, dc_detail = detail\<rparr>)"

definition aggregate_state :: "dependency_check list \<Rightarrow> operational_state" where
  "aggregate_state checks =
     (if checks = [] then OP_DEGRADED
      else if \<forall>c \<in> set checks. dc_state c = OP_OK then OP_OK
      else if \<forall>c \<in> set checks. dc_state c = OP_DOWN then OP_DOWN
      else OP_DEGRADED)"

definition collect_health :: "(string \<times> probe) list \<Rightarrow> datetime \<Rightarrow> pyfloat \<Rightarrow> operational_health result" where
  "collect_health probes checked_at timeout_seconds =
     and_then (if aware checked_at then Inr () else Inl (ValueError ''checked_at must be timezone-aware'')) (\<lambda>_.
     and_then (traverse (run_probe timeout_seconds) probes) (\<lambda>checks.
     Inr \<lparr>oh_checked_at = checked_at, oh_state = aggregate_state checks, oh_checks = checks\<rparr>))"

definition collect_default_health :: "probe \<Rightarrow> probe \<Rightarrow> datetime \<Rightarrow> pyfloat \<Rightarrow> operational_health result" where
  "collect_default_health database redis checked_at timeout_seconds =
     collect_health [(''database'', database), (''redis'', redis)] checked_at timeout_seconds"

section \<open>Audit\<close>

datatype audit_outcome = AU_SUCCESS | AU_FAILURE | AU_SKIPPED

fun audit_outcome_value :: "audit_outcome \<Rightarrow> string" where
  "audit_outcome_value AU_SUCCESS = ''SUCCESS''"
| "audit_outcome_value AU_FAILURE = ''FAILURE''"
| "audit_outcome_value AU_SKIPPED = ''SKIPPED''"

record audit_event =
  ae_occurred_at :: datetime
  ae_action :: string
  ae_entity_type :: string
  ae_entity_id :: string
  ae_outcome :: audit_outcome
  ae_actor :: string
  ae_details :: json_object

definition create_audit_event :: "audit_event \<Rightarrow> audit_event result" where
  "create_audit_event a =
     (if \<not> aware (ae_occurred_at a) then Inl (ValueError ''occurred_at must be timezone-aware'')
      else let action = strip (ae_action a); entity_type = strip (ae_entity_type a); entity_id = strip (ae_entity_id a); actor = strip (ae_actor a) in
      if '''' \<in> {action, entity_type, entity_id, actor} then Inl (ValueError ''audit identifiers are required'')
      else Inr (a\<lparr>ae_action := action, ae_entity_type := entity_type, ae_entity_id := entity_id, ae_actor := actor\<rparr>))"

text \<open>\<open>model_dump\<close> is pydantic's JSON form of the event.\<close>

definition to_domain_record :: "(audit_event \<Rightarrow> json_object) \<Rightarrow> audit_event \<Rightarrow> domain_record" where
  "to_domain_record model_dump e = \<lparr>dm_record_type = ''audit'', dm_symbol = ae_entity_id e, dm_state = audit_outcome_value (ae_outcome e),
     dm_payload = model_dump e, dm_expires_at = None\<rparr>"

section \<open>Backups\<close>

text \<open>
  A path after \<open>resolve()\<close>, with its last part \<open>name\<close>; \<open>read\<close> gives the bytes of a regular file.
\<close>

record backup_artifact =
  bk_name :: string
  bk_size_bytes :: int
  bk_sha256 :: string

record backup_manifest =
  bm_created_at :: datetime
  bm_total_bytes :: int
  bm_artifacts :: "backup_artifact list"

text \<open>
  \<open>iter(lambda: stream.read(1024 * 1024), b"")\<close>: pieces of at most a mebibyte until one is empty; \<open>chunks n\<close> cuts
  into pieces of \<open>n + 1\<close>. The digest is updated with each piece, which hashes them in sequence.
\<close>

definition file_sha256 :: "string \<Rightarrow> string" where
  "file_sha256 content = sha256_hexdigest (concat (chunks (1024 * 1024 - 1) content))"

definition backup_item :: "(string \<Rightarrow> string) \<Rightarrow> (string \<Rightarrow> string option) \<Rightarrow> string \<Rightarrow> backup_artifact result" where
  "backup_item name_of read path =
     (case read path of
        None \<Rightarrow> Inl (ValueError (''backup artifact is not a file: '' @ name_of path))
      | Some content \<Rightarrow> Inr \<lparr>bk_name = name_of path, bk_size_bytes = int (length content), bk_sha256 = file_sha256 content\<rparr>)"

definition build_backup_manifest ::
  "(string \<Rightarrow> string) \<Rightarrow> (string \<Rightarrow> string) \<Rightarrow> (string \<Rightarrow> string option) \<Rightarrow> string list \<Rightarrow> datetime \<Rightarrow> backup_manifest result" where
  "build_backup_manifest resolve name_of read paths now =
     and_then (if aware now then Inr () else Inl (ValueError ''created_at must be timezone-aware'')) (\<lambda>_.
     let resolved_paths = map resolve paths in
     if resolved_paths = [] then Inl (ValueError ''at least one backup artifact is required'')
     else if \<not> distinct resolved_paths then Inl (ValueError ''backup artifacts must be unique'')
     else and_then (traverse (backup_item name_of read) (sort_key name_of resolved_paths)) (\<lambda>artifacts.
     Inr \<lparr>bm_created_at = now, bm_total_bytes = sum_list (map bk_size_bytes artifacts), bm_artifacts = artifacts\<rparr>))"

section \<open>Properties\<close>

lemma run_probe_state:
  assumes "run_probe timeout (name, p) = Inr c"
  shows "dc_state c = (if succeeds (pb_outcome p timeout) then OP_OK else OP_DOWN)"
  using assms by (cases "pb_outcome p timeout") (auto simp: run_probe_def Let_def split: if_splits error.splits)

lemma run_probe_succeeds:
  "succeeds (run_probe timeout (name, p)) \<longleftrightarrow> strip name \<noteq> '''' \<and> \<not> fle timeout (Fl 0)"
  by (simp add: run_probe_def Let_def case_prod_beta)

text \<open>
  the health of the dependencies is the agreement of the probes. A collection with named probes, a positive timeout and an aware
  time never raises, whatever the probes raise; it reports OK exactly when every probe succeeded, DOWN exactly
  when every probe failed, and DEGRADED otherwise, without probes too.
\<close>

theorem health_is_agreement:
  assumes "aware t" "\<not> fle timeout (Fl 0)" "\<forall>(name, p) \<in> set probes. strip name \<noteq> ''''"
  shows "\<exists>h. collect_health probes t timeout = Inr h \<and> length (oh_checks h) = length probes \<and>
    (oh_state h = OP_OK \<longleftrightarrow> probes \<noteq> [] \<and> (\<forall>(name, p) \<in> set probes. succeeds (pb_outcome p timeout))) \<and>
    (oh_state h = OP_DOWN \<longleftrightarrow> probes \<noteq> [] \<and> (\<forall>(name, p) \<in> set probes. \<not> succeeds (pb_outcome p timeout)))"
proof -
  have "succeeds (traverse (run_probe timeout) probes)"
    using assms(2,3) by (auto simp: traverse_succeeds_iff run_probe_succeeds)
  then obtain cs where cs: "traverse (run_probe timeout) probes = Inr cs" by (auto simp: succeeds_iff)
  then have l: "list_all2 (\<lambda>q c. dc_state c = (if succeeds (pb_outcome (snd q) timeout) then OP_OK else OP_DOWN)) probes cs"
  proof (induction probes arbitrary: cs)
    case (Cons q qs)
    then show ?case using run_probe_state [of timeout "fst q" "snd q"] by (auto simp: and_then_Inr)
  qed simp
  then have states: "dc_state ` set cs = (\<lambda>q. if succeeds (pb_outcome (snd q) timeout) then OP_OK else OP_DOWN) ` set probes"
    and len: "length cs = length probes"
    by (induction rule: list_all2_induct) auto
  have "(\<forall>c \<in> set cs. dc_state c = v) \<longleftrightarrow> (\<forall>q \<in> set probes. (if succeeds (pb_outcome (snd q) timeout) then OP_OK else OP_DOWN) = v)" for v
    using ball_simps(9) [of dc_state "set cs" "\<lambda>s. s = v"] unfolding states by auto
  then show ?thesis using assms(1) cs len
    by (cases probes) (auto simp: collect_health_def aggregate_state_def case_prod_beta split: if_splits)
qed

text \<open>An audit event that was created is accepted by the record store.\<close>

lemma audit_accepted:
  assumes "create_audit_event a = Inr e"
  shows "succeeds (add_record add_row (to_domain_record model_dump e) db)"
proof -
  have "ae_entity_id e = strip (ae_entity_id a)" "strip (ae_entity_id a) \<noteq> ''''"
    using assms by (auto simp: create_audit_event_def Let_def split: if_splits)
  moreover have "strip ''audit'' \<noteq> ''''" "strip (audit_outcome_value (ae_outcome e)) \<noteq> ''''"
    by (cases "ae_outcome e"; simp add: strip_def is_space_def spaces_def)+
  ultimately show ?thesis by (simp add: add_record_succeeds to_domain_record_def)
qed

lemma concat_chunks [simp]: "concat (chunks n xs) = xs"
  by (induction n xs rule: chunks.induct) simp_all

lemma backup_items:
  "traverse (backup_item name_of read) ps = Inr as \<longleftrightarrow>
     (\<forall>p \<in> set ps. read p \<noteq> None) \<and> as = map (\<lambda>p. \<lparr>bk_name = name_of p, bk_size_bytes = int (length (the (read p))),
       bk_sha256 = sha256_hexdigest (the (read p))\<rparr>) ps"
  by (induction ps arbitrary: as) (auto simp: and_then_Inr backup_item_def file_sha256_def split: option.split)

text \<open>
  C32: a backup manifest describes exactly the files it was given: it exists exactly for an aware time and a non-empty list of different
  paths that all are files, and it then lists every one of them in the order of their names, with size and SHA-256 of the
  whole content, and the sum of the sizes.
\<close>

theorem backup_manifest_exact:
  "build_backup_manifest resolve name_of read paths t = Inr m \<longleftrightarrow>
     aware t \<and> paths \<noteq> [] \<and> distinct (map resolve paths) \<and> (\<forall>p \<in> set paths. read (resolve p) \<noteq> None) \<and>
     bm_created_at m = t \<and> bm_total_bytes m = (\<Sum>p \<leftarrow> paths. int (length (the (read (resolve p))))) \<and>
     bm_artifacts m = map (\<lambda>p. \<lparr>bk_name = name_of p, bk_size_bytes = int (length (the (read p))),
       bk_sha256 = sha256_hexdigest (the (read p))\<rparr>) (sort_key name_of (map resolve paths))"
proof -
  have "(\<Sum>p \<leftarrow> sort_key name_of (map resolve paths). int (length (the (read p)))) = (\<Sum>p \<leftarrow> paths. int (length (the (read (resolve p)))))"
    using sum_mset_sum_list [of "map (\<lambda>p. int (length (the (read p)))) (sort_key name_of (map resolve paths))"]
      sum_mset_sum_list [of "map (\<lambda>p. int (length (the (read (resolve p))))) paths"]
    by (simp add: image_mset.compositionality comp_def)
  then show ?thesis
    by (cases m) (auto simp: build_backup_manifest_def and_then_Inr backup_items Let_def comp_def)
qed

theorem backup_manifest_exact_witness:
  "\<exists>m. build_backup_manifest (\<lambda>p. p) (\<lambda>p. p) [''a'' \<mapsto> ''abc'', ''b'' \<mapsto> ''''] [''b'', ''a''] (DateTime 0 (Some 0)) = Inr m \<and>
    map bk_name (bm_artifacts m) = [''a'', ''b''] \<and> bm_total_bytes m = 3"
proof -
  let ?read = "[''a'' \<mapsto> ''abc'', ''b'' \<mapsto> '''']"
  let ?item = "\<lambda>p. \<lparr>bk_name = p, bk_size_bytes = int (length (the (?read p))), bk_sha256 = sha256_hexdigest (the (?read p))\<rparr>"
  let ?m = "\<lparr>bm_created_at = DateTime 0 (Some 0), bm_total_bytes = 3, bm_artifacts = map ?item [''a'', ''b'']\<rparr>"
  have "sort_key (\<lambda>p. p) [''b'', ''a''] = [''a'', ''b'']" by code_simp
  then have "build_backup_manifest (\<lambda>p. p) (\<lambda>p. p) ?read [''b'', ''a''] (DateTime 0 (Some 0)) = Inr ?m"
    unfolding backup_manifest_exact by (simp add: aware_def)
  then show ?thesis by auto
qed

theorem health_is_agreement_witness:
  "\<exists>h. collect_default_health \<lparr>pb_outcome = (\<lambda>_. Inr ()), pb_elapsed_ms = Fl 1\<rparr>
      \<lparr>pb_outcome = (\<lambda>_. Inl (TimeoutError '''')), pb_elapsed_ms = Fl 2000\<rparr> (DateTime 0 (Some 0)) (Fl 2) = Inr h \<and>
    oh_state h \<noteq> OP_OK \<and> oh_state h \<noteq> OP_DOWN"
proof -
  let ?ps = "[(''database'', \<lparr>pb_outcome = (\<lambda>_. Inr ()), pb_elapsed_ms = Fl 1\<rparr>),
    (''redis'', \<lparr>pb_outcome = (\<lambda>_. Inl (TimeoutError '''')), pb_elapsed_ms = Fl 2000\<rparr>)]"
  have "\<forall>(name, p) \<in> set ?ps. strip name \<noteq> ''''" by (simp add: strip_def is_space_def spaces_def)
  from health_is_agreement [OF _ _ this, of "DateTime 0 (Some 0)" "Fl 2"] show ?thesis
    by (auto simp: collect_default_health_def aware_def)
qed

end
