(* ===== verification/Notifications.thy ===== *)
theory Notifications
  imports Overview
begin

text \<open>
  \<^verbatim>\<open>app/notifications/formatter.py\<close>: the message of a plan, with the number format \<open>g\<close> of Python. The theorems: printed numbers read back as
  the value rounded to six significant digits, and the message of every plan that \<open>build_plan\<close> makes keeps the
  order of objective, entry and boundary. The locale \<open>rounding\<close> is interpreted once more, for those six digits.
\<close>

section \<open>Numbers\<close>

text \<open>
  \<open>f"{x:g}"\<close>: the exact value rounded half to even to six significant digits, without trailing zeros,
  in scientific notation unless the leading digit stands between \<open>10 ^ -4\<close> and \<open>10 ^ 5\<close>.
\<close>

definition g_round :: "rat \<Rightarrow> rat" where
  "g_round a = ctx_round 10 6 (magnitude 10 a - 5) a"

definition strip_zeros :: "string \<Rightarrow> string" where
  "strip_zeros s = rev (dropWhile (\<lambda>c. c = CHR ''0'') (rev s))"

definition with_point :: "string \<Rightarrow> string \<Rightarrow> string" where
  "with_point whole fraction = (if fraction = '''' then whole else whole @ CHR ''.'' # fraction)"

definition g_exponent :: "int \<Rightarrow> string" where
  "g_exponent x = CHR ''e'' # (if x < 0 then ''-'' else ''+'') @ pad0 2 (str_int \<bar>x\<bar>)"

definition g_str :: "rat \<Rightarrow> string" where
  "g_str a =
     (let v = g_round a; x = magnitude 10 v; ds = str_pos \<lfloor>\<bar>v\<bar> / 10 powi (x - 5)\<rfloor> in
      if v = 0 then ''0''
      else (if v < 0 then ''-'' else '''') @
        (if \<not> (-4 \<le> x \<and> x < 6) then with_point (take 1 ds) (strip_zeros (drop 1 ds)) @ g_exponent x
         else if 0 \<le> x then with_point (take (nat (x + 1)) ds) (strip_zeros (drop (nat (x + 1)) ds))
         else with_point ''0'' (strip_zeros (replicate (nat (- x - 1)) CHR ''0'' @ ds))))"

fun format_number :: "pyfloat \<Rightarrow> string" where
  "format_number (Fl v) = g_str v"
| "format_number (FInf s) = (if s then ''-inf'' else ''inf'')"
| "format_number FNaN = ''nan''"

section \<open>Six digits are a rounding\<close>

lemma g_round_eq: "e \<le> magnitude 10 a - 5 \<Longrightarrow> ctx_round 10 6 e a = g_round a"
  by (simp add: g_round_def ctx_round_def ulp_exp_def max_def)

interpretation g6: rounding g_round
proof
  show "g_round 0 = 0" by (simp add: g_round_def)
  show "g_round (- x) = - g_round x" for x by (simp add: g_round_def ctx_round_minus)
  show "g_round x \<le> g_round y" if "x \<le> y" for x y
  proof -
    let ?e = "min (magnitude 10 x) (magnitude 10 y) - 5"
    have "ctx_round 10 6 ?e x \<le> ctx_round 10 6 ?e y" by (rule rounding.R_mono [OF rounding_ctx_round that]) simp_all
    then show ?thesis using g_round_eq [of ?e x] g_round_eq [of ?e y] by simp
  qed
  show "g_round (g_round x) = g_round x" for x
  proof -
    let ?e = "min (magnitude 10 x) (magnitude 10 (g_round x)) - 5"
    have "ctx_round 10 6 ?e (ctx_round 10 6 ?e x) = ctx_round 10 6 ?e x" by (rule ctx_round_idem) simp_all
    then show ?thesis using g_round_eq [of ?e x] g_round_eq [of ?e "g_round x"] by simp
  qed
qed

lemma g_round_error: "\<bar>g_round a - a\<bar> \<le> \<bar>a\<bar> / 200000"
proof (cases "a = 0")
  case False
  have "10 powi (magnitude 10 a - 5 + int 6 - 1) \<le> \<bar>a\<bar>" using magnitude_bounds(1) [OF False, of 10] by simp
  then have "\<bar>g_round a - a\<bar> \<le> \<bar>a\<bar> * 10 powi (1 - int 6) / 2"
    unfolding g_round_def using ctx_round_error [of 10 "magnitude 10 a - 5" 6 a] by simp
  moreover have "(10 :: rat) powi (1 - int 6) = 1 / 100000" by (simp add: power_int_def power_one_over)
  ultimately show ?thesis by (simp del: One_nat_def)
qed (simp add: g6.R_zero)

text \<open>A printed number is six digits at its leading place.\<close>

lemma g_round_digits:
  assumes "g_round a \<noteq> 0"
  shows "\<exists>n. \<bar>g_round a\<bar> = of_int n * 10 powi (magnitude 10 (g_round a) - 5) \<and> 100000 \<le> n \<and> n < 1000000"
proof -
  let ?v = "g_round a" and ?x = "magnitude 10 (g_round a)"
  define n where "n = round_half_even (\<bar>?v\<bar> / 10 powi (?x - 5))"
  have "g_round \<bar>?v\<bar> = \<bar>?v\<bar>" using g6.R_idem [of a] g6.R_abs [of ?v] by simp
  moreover have "magnitude 10 \<bar>?v\<bar> = ?x" by (simp add: magnitude_def)
  ultimately have v: "\<bar>?v\<bar> = of_int n * 10 powi (?x - 5)"
    using assms by (simp add: g_round_def [of "\<bar>?v\<bar>"] ctx_round_def ulp_exp_def n_def Let_def)
  have pos: "(0 :: rat) < 10 powi (?x - 5)" by simp
  have "(10 :: rat) powi ?x = 100000 * 10 powi (?x - 5)" "(10 :: rat) powi (?x + 1) = 1000000 * 10 powi (?x - 5)"
    using powi_split [of 10 5 "?x - 5"] powi_split [of 10 6 "?x - 5"] by (simp_all add: add.commute)
  then have "(100000 :: rat) * 10 powi (?x - 5) \<le> of_int n * 10 powi (?x - 5)" "of_int n * 10 powi (?x - 5) < (1000000 :: rat) * 10 powi (?x - 5)"
    using magnitude_bounds [OF assms, of 10] v by simp_all
  then have "(100000 :: rat) \<le> of_int n" "of_int n < (1000000 :: rat)" using pos by (simp_all only: mult_le_cancel_right_pos mult_less_cancel_right_pos)
  then have "100000 \<le> n" "n < 1000000" by linarith+
  with v show ?thesis by blast
qed

section \<open>Printed numbers read back\<close>

lemma str_pos_bound: "0 \<le> n \<Longrightarrow> n < 10 ^ length (str_pos n)"
proof (induction n rule: str_pos.induct)
  case (1 n)
  show ?case
  proof (cases "n < 10")
    case True
    then show ?thesis by (subst str_pos.simps) simp
  next
    case False
    then have "n div 10 < 10 ^ length (str_pos (n div 10))" using 1 by simp
    then have "n < 10 ^ length (str_pos (n div 10)) * 10" by linarith
    then show ?thesis using False by (subst str_pos.simps) simp
  qed
qed

lemma length_six:
  assumes "100000 \<le> n" "n < 1000000"
  shows "length (str_pos n) = 6"
proof (rule antisym)
  show "length (str_pos n) \<le> 6" using length_str_pos [of n 6] assms by simp
  have "(10 :: int) ^ 5 < 10 ^ length (str_pos n)" using str_pos_bound [of n] assms by simp
  then have "5 < length (str_pos n)" by (rule power_less_imp_less_exp [rotated]) simp
  then show "6 \<le> length (str_pos n)" by simp
qed

lemma strip_zeros_split: "\<exists>k. s = strip_zeros s @ replicate k CHR ''0''"
proof -
  let ?z = "takeWhile (\<lambda>c. c = CHR ''0'') (rev s)"
  have "?z = replicate (length ?z) CHR ''0''" by (rule replicate_length_same [symmetric]) (blast dest: set_takeWhileD)
  then have "rev ?z = replicate (length ?z) CHR ''0''" using rev_replicate [of "length ?z" "CHR ''0''"] by simp
  moreover have "s = strip_zeros s @ rev ?z" by (simp add: strip_zeros_def flip: rev_append)
  ultimately show ?thesis by (intro exI [of _ "length ?z"]) (simp only:)
qed

lemma read_digits_some: "set s \<subseteq> set digits \<Longrightarrow> \<exists>n. read_digits acc s = Some n"
proof (induction s arbitrary: acc)
  case (Cons c s)
  have "c \<in> set digits" using Cons.prems by simp
  then have "\<exists>d. digit_value c = Some d" by (auto simp: digit_value_def digits_def)
  then show ?case using Cons by auto
qed simp

lemma read_digits_trailing: "read_digits acc (replicate k CHR ''0'') = Some (acc * 10 ^ k)"
  by (induction k arbitrary: acc) (simp_all add: digit_value_def digits_def)

text \<open>The digits of a number after a point, without the zeros at the end, still give the number.\<close>

lemma stripped_value:
  assumes "parse_digits (whole @ fraction) = Some n" "set (whole @ fraction) \<subseteq> set digits" "whole \<noteq> ''''"
  shows "\<exists>m. parse_digits (whole @ strip_zeros fraction) = Some m \<and> set (strip_zeros fraction) \<subseteq> set digits \<and>
    (of_int m :: rat) * 10 powi (e - int (length (strip_zeros fraction))) = of_int n * 10 powi (e - int (length fraction))"
proof -
  obtain k where k: "fraction = strip_zeros fraction @ replicate k CHR ''0''" using strip_zeros_split by blast
  let ?f = "strip_zeros fraction"
  have d: "set (whole @ ?f) \<subseteq> set digits" using assms(2) k by (metis Un_subset_iff set_append)
  then obtain m where m: "read_digits 0 (whole @ ?f) = Some m" using read_digits_some by blast
  have "read_digits 0 ((whole @ ?f) @ replicate k CHR ''0'') = Some n"
    using assms(1) k by (metis append.assoc parse_digits_def option.distinct(1))
  then have n: "n = m * 10 ^ k" unfolding read_digits_append [of 0 "whole @ ?f"] m option.case read_digits_trailing by simp
  have "length fraction = length ?f + k" using k by (metis length_append length_replicate)
  then have "e - int (length ?f) = int k + (e - int (length fraction))" by simp
  then have "(10 :: rat) powi (e - int (length ?f)) = 10 ^ k * 10 powi (e - int (length fraction))"
    using powi_split [of 10 "int k" "e - int (length fraction)"] by (simp only:) simp
  then show ?thesis using m d assms(3) n by (intro exI [of _ m]) (simp add: parse_digits_def)
qed

lemma read_pointed:
  assumes "parse_digits (whole @ fraction) = Some n" "set (whole @ fraction) \<subseteq> set digits" "whole \<noteq> ''''"
    "pw = '''' \<and> e = 0 \<or> pw = g_exponent e"
  shows "\<exists>d. read_decimal ((if neg then ''-'' else '''') @ with_point whole (strip_zeros fraction) @ pw) = Inr (Finite d) \<and>
    dval d = (if neg then - 1 else 1) * (of_int n * 10 powi (e - int (length fraction)))"
proof -
  obtain m where m: "parse_digits (whole @ strip_zeros fraction) = Some m" "set (strip_zeros fraction) \<subseteq> set digits"
    "(of_int m :: rat) * 10 powi (e - int (length (strip_zeros fraction))) = of_int n * 10 powi (e - int (length fraction))"
    using stripped_value [OF assms(1-3)] by blast
  have "\<exists>x t. g_exponent e = x # t \<and> x \<in> {CHR ''E'', CHR ''e''} \<and> parse_signed t = Some e \<and>
      (\<forall>ch \<in> set t. ch \<in> set digits \<or> ch = CHR ''-'' \<or> ch = CHR ''+'')"
  proof -
    have s: "str_int \<bar>e\<bar> = str_pos \<bar>e\<bar>" by (simp add: str_int_def)
    have "parse_digits (pad0 2 (str_int \<bar>e\<bar>)) = Some \<bar>e\<bar>"
      using parse_str_pos [of "\<bar>e\<bar>"] by (simp add: s pad0_def parse_digits_def read_digits_zeros)
    moreover have "set (pad0 2 (str_int \<bar>e\<bar>)) \<subseteq> set digits" using str_pos_digits [of "\<bar>e\<bar>"] by (auto simp: s pad0_def digits_def)
    ultimately show ?thesis by (auto simp: g_exponent_def parse_signed_def)
  qed
  then have pw: "pw = '''' \<and> e = 0 \<or> (\<exists>x t. pw = x # t \<and> x \<in> {CHR ''E'', CHR ''e''} \<and> parse_signed t = Some e \<and>
      (\<forall>ch \<in> set t. ch \<in> set digits \<or> ch = CHR ''-'' \<or> ch = CHR ''+''))" using assms(4) by blast
  have "set whole \<subseteq> set digits" using assms(2) by simp
  from read_decimal_form [OF this assms(3) m(2,1) pw, of neg] show ?thesis using m(3) unfolding with_point_def by auto
qed

lemma read_g_str: "\<exists>d. read_decimal (g_str a) = Inr (Finite d) \<and> dval d = g_round a"
proof (cases "g_round a = 0")
  case True
  have "read_decimal ''0'' = Inr (Finite (dec 0 0))" by code_simp
  then show ?thesis using True by (simp add: g_str_def)
next
  case False
  let ?v = "g_round a" and ?x = "magnitude 10 (g_round a)"
  obtain n where n: "\<bar>?v\<bar> = of_int n * 10 powi (?x - 5)" "100000 \<le> n" "n < 1000000" using g_round_digits [OF False] by blast
  let ?ds = "str_pos n"
  have "\<lfloor>\<bar>?v\<bar> / 10 powi (?x - 5)\<rfloor> = n" unfolding n(1) by simp
  then have str: "g_str a = (if ?v < 0 then ''-'' else '''') @
        (if \<not> (-4 \<le> ?x \<and> ?x < 6) then with_point (take 1 ?ds) (strip_zeros (drop 1 ?ds)) @ g_exponent ?x
         else if 0 \<le> ?x then with_point (take (nat (?x + 1)) ?ds) (strip_zeros (drop (nat (?x + 1)) ?ds))
         else with_point ''0'' (strip_zeros (replicate (nat (- ?x - 1)) CHR ''0'' @ ?ds)))"
    using False by (simp add: g_str_def Let_def)
  have len: "length ?ds = 6" by (rule length_six [OF n(2,3)])
  have ds: "parse_digits ?ds = Some n" "set ?ds \<subseteq> set digits" using parse_str_pos n(2) str_pos_digits by auto
  have v: "(if ?v < 0 then - 1 else 1) * (of_int n * 10 powi (?x - 5)) = ?v" using n(1) by (simp add: abs_if split: if_splits)
  have cut: "take k ?ds \<noteq> ''''" "int (length (drop k ?ds)) = 6 - int k" if "0 < k" "k \<le> 6" for k
    using that len by (cases ?ds; simp)+
  consider (sci) "\<not> (-4 \<le> ?x \<and> ?x < 6)" | (whole) "0 \<le> ?x" "?x < 6" | (small) "-4 \<le> ?x" "?x < 0" by linarith
  then show ?thesis
  proof cases
    case sci
    then show ?thesis
      using read_pointed [of "take 1 ?ds" "drop 1 ?ds" n "g_exponent ?x" ?x "?v < 0"] ds cut [of 1] v unfolding str by simp
  next
    case whole
    let ?k = "nat (?x + 1)"
    have k: "0 < ?k" "?k \<le> 6" using whole by auto
    have "- int (length (drop ?k ?ds)) = ?x - 5" using cut(2) [OF k] whole by simp
    then show ?thesis
      using read_pointed [of "take ?k ?ds" "drop ?k ?ds" n "''''" 0 "?v < 0"] ds cut(1) [OF k] v whole unfolding str by simp
  next
    case small
    let ?z = "replicate (nat (- ?x - 1)) CHR ''0''"
    have "parse_digits (''0'' @ ?z @ ?ds) = Some n"
      using ds(1) read_digits_zeros [of "Suc (nat (- ?x - 1))" ?ds] by (simp add: parse_digits_def)
    moreover have "set (''0'' @ ?z @ ?ds) \<subseteq> set digits" using ds(2) by (auto simp: digits_def)
    moreover have "- int (length (?z @ ?ds)) = ?x - 5" using small len by simp
    ultimately show ?thesis
      using read_pointed [of "''0''" "?z @ ?ds" n "''''" 0 "?v < 0"] v small unfolding str by simp
  qed
qed

section \<open>Messages\<close>

definition new_line :: string where
  "new_line = [CHR 0x0A]"

definition format_plan_message :: "plan_draft \<Rightarrow> notification_channel \<Rightarrow> notification_message result" where
  "format_plan_message p channel =
     (let title = pd_symbol p @ '' plan update'' in
      if pd_status p = PLAN_HOLD then
        let note = (if pd_notes p \<noteq> [] then hd (pd_notes p) else ''waiting'') in
        Inr \<lparr>nm_symbol = pd_symbol p, nm_channel = channel, nm_title = title,
          nm_body = ''Status: HOLD'' @ new_line @ ''Note: '' @ note, nm_metadata = [(''status'', plan_status_value (pd_status p))]\<rparr>
      else case (pd_entry p, pd_boundary p, pd_objective p) of
        (Some entry, Some boundary, Some objective) \<Rightarrow>
          Inr \<lparr>nm_symbol = pd_symbol p, nm_channel = channel, nm_title = title,
            nm_body = join new_line [''Status: READY'', ''Entry: '' @ format_number entry, ''Boundary: '' @ format_number boundary,
              ''Objective: '' @ format_number objective, ''Multiplier: '' @ str_int (pd_multiplier p), ''Ratio: '' @ format_number (pd_ratio p)],
            nm_metadata = [(''status'', plan_status_value (pd_status p)), (''multiplier'', str_int (pd_multiplier p)),
              (''ratio'', format_number (pd_ratio p))]\<rparr>
      | _ \<Rightarrow> Inl (ValueError ''ready plan is missing required values''))"

text \<open>Text that is read as a number close to a value.\<close>

definition shows_number :: "string \<Rightarrow> rat \<Rightarrow> rat \<Rightarrow> bool" where
  "shows_number s shown exact \<longleftrightarrow>
     (\<exists>d. read_decimal s = Inr (Finite d) \<and> dval d = shown) \<and> \<bar>shown - exact\<bar> \<le> \<bar>exact\<bar> / 200000"

lemma shows_format: "shows_number (format_number (Fl a)) (g_round a) a"
  using read_g_str [of a] g_round_error [of a] by (simp add: shows_number_def)

text \<open>
  C30: the message of a plan can be relied on. For every plan that \<open>build_plan\<close> makes a message is formatted; that of a ready plan prints its
  three prices such that each is read back within a relative error of \<open>1/200000\<close> and their order is kept,
  \<open>0 < objective \<le> entry \<le> boundary\<close>; that of a plan on hold says so and why.
\<close>

theorem plan_message_sound:
  assumes "build_plan f r = Inr p" "is_float (pr_entry r)"
  shows "\<exists>m. format_plan_message p channel = Inr m \<and> nm_symbol m = pd_symbol p \<and> nm_channel m = channel \<and>
    (if pd_status p = PLAN_READY
     then \<exists>en bo ob e b t. nm_body m = join new_line [''Status: READY'', ''Entry: '' @ en, ''Boundary: '' @ bo, ''Objective: '' @ ob,
         ''Multiplier: '' @ str_int (pd_multiplier p), ''Ratio: '' @ format_number (pd_ratio p)] \<and>
       shows_number en e (fval (pr_entry r)) \<and> shows_number bo b (fval (pr_boundary r)) \<and>
       shows_number ob t (fval (the (pd_objective p))) \<and> 0 < t \<and> t \<le> e \<and> e \<le> b
     else nm_body m = ''Status: HOLD'' @ new_line @ ''Note: flow is not ready'')"
proof (cases "pd_status p = PLAN_READY")
  case True
  obtain entry boundary objective where b: "pd_entry p = Some (Fl entry)" "pd_boundary p = Some (Fl boundary)"
    "pd_objective p = Some (Fl objective)" "pr_entry r = Fl entry" "pr_boundary r = Fl boundary" "0 < objective" "objective \<le> entry"
    "entry < boundary" using plan_bounds [OF assms(1) True assms(2)] by blast
  have "g_round objective \<le> g_round entry" "g_round entry \<le> g_round boundary" using b(7,8) by (auto intro: g6.R_mono)
  moreover have "0 < g_round objective" using g_round_error [of objective] b(6) by linarith
  ultimately show ?thesis using True b(1-5) shows_format [of entry] shows_format [of boundary] shows_format [of objective]
    by (simp add: format_plan_message_def del: format_number.simps) blast
next
  case False
  then have "pd_notes p = [''flow is not ready'']" "pd_status p = PLAN_HOLD"
    using assms(1) build_plan_Inr(1) [OF assms(1)] unfolding build_plan_def PlanDraft_def hold_draft_def Let_def
    by (auto simp: result_simps)
  then show ?thesis by (simp add: format_plan_message_def)
qed

theorem plan_message_sound_witness:
  "\<exists>p m. build_plan sample_flow (sample_request 2) = Inr p \<and> pd_status p = PLAN_READY \<and> format_plan_message p TELEGRAM = Inr m \<and>
     nm_symbol m = pd_symbol p"
proof -
  obtain p where p: "build_plan sample_flow (sample_request 2) = Inr p" "pd_status p = PLAN_READY"
    using sample_plan by auto
  have "is_float (pr_entry (sample_request 2))" by (simp add: sample_request_def f64_max_def)
  from plan_message_sound [OF p(1) this, of TELEGRAM] p show ?thesis by blast
qed

text \<open>
  The order is not strict: above \<open>100000\<close> the digits after the point are lost, and an entry and a boundary that differ
  are printed alike.
\<close>

lemma printed_alike: "format_number (Fl (400001 / 4)) = ''100000''" "format_number (Fl (800003 / 8)) = ''100000''"
  by code_simp+

lemma printed_forms:
  "format_number (Fl (1 / 4)) = ''0.25''" "format_number (Fl (1 / 32768)) = ''3.05176e-05''" "format_number (Fl 1234567) = ''1.23457e+06''"
  "format_number (Fl (- 65000)) = ''-65000''"
  by code_simp+

end
