(* ===== verification/Run_Log.thy ===== *)
theory Run_Log
  imports Runtime_Store
begin

text \<open>
  \<open>InMemoryRuntimeStore\<close> and \<open>NullRuntimeStore\<close> of \<^verbatim>\<open>app/runtime/store.py\<close>, and the contract of a runtime store as a locale: every
  accepted run adds its rows. The in-memory store is the abstract specification; the theorem is that the SQL
  store the worker uses keeps the same runs.
\<close>

section \<open>The stores without a database\<close>

record memory_runs =
  mr_payload_runs :: "(source_job \<times> json_object adapter_payload \<times> run_outcome) list"
  mr_failure_runs :: "(source_job \<times> run_outcome) list"

definition no_runs :: memory_runs where
  "no_runs = \<lparr>mr_payload_runs = [], mr_failure_runs = []\<rparr>"

definition memory_payload :: "source_job \<Rightarrow> json_object adapter_payload \<Rightarrow> run_outcome \<Rightarrow> memory_runs \<Rightarrow> memory_runs result" where
  "memory_payload j p out m = Inr (m\<lparr>mr_payload_runs := mr_payload_runs m @ [(j, p, out)]\<rparr>)"

definition memory_failure :: "source_job \<Rightarrow> run_outcome \<Rightarrow> memory_runs \<Rightarrow> memory_runs result" where
  "memory_failure j out m = Inr (m\<lparr>mr_failure_runs := mr_failure_runs m @ [(j, out)]\<rparr>)"

definition null_payload :: "source_job \<Rightarrow> json_object adapter_payload \<Rightarrow> run_outcome \<Rightarrow> 's \<Rightarrow> 's result" where
  "null_payload j p out s = Inr s"

definition null_failure :: "source_job \<Rightarrow> run_outcome \<Rightarrow> 's \<Rightarrow> 's result" where
  "null_failure j out s = Inr s"

section \<open>Rows of a run\<close>

text \<open>The health and run records of a run, as they are stored.\<close>

definition fields_json :: "py_dict \<Rightarrow> json_object" where
  "fields_json d = (case json_safe_fields d of Inr x \<Rightarrow> x | Inl e \<Rightarrow> [])"

definition row_of :: "string \<Rightarrow> string \<Rightarrow> string \<Rightarrow> py_dict \<Rightarrow> domain_record" where
  "row_of ty symbol state payload = \<lparr>dm_record_type = ty, dm_symbol = strip symbol, dm_state = state, dm_payload = fields_json payload,
     dm_expires_at = None\<rparr>"

definition payload_rows :: "source_job \<Rightarrow> json_object adapter_payload \<Rightarrow> run_outcome \<Rightarrow> domain_record multiset" where
  "payload_rows j p out = (let symbol = record_symbol j (Some p); state = ah_state (ap_health p) in
     {#row_of ''source_health'' symbol (adapter_state_value state) (health_payload j p out),
       row_of ''worker_run'' symbol (run_status_value (ro_status out)) (run_payload j (ap_name p) state out)#})"

definition failure_health :: "source_job \<Rightarrow> run_outcome \<Rightarrow> py_dict" where
  "failure_health j out = [(''job_name'', PStr (sj_name j)), (''adapter_name'', PStr (sj_adapter_name j)),
     (''kind'', PStr (job_kind_value (sj_kind j))), (''message'', PStr (ro_message out)), (''observed_at'', PDatetime (ro_finished_at out))]"

definition failure_rows :: "source_job \<Rightarrow> run_outcome \<Rightarrow> domain_record multiset" where
  "failure_rows j out = (let symbol = record_symbol j None in
     {#row_of ''source_health'' symbol (adapter_state_value AD_DOWN) (failure_health j out),
       row_of ''worker_run'' symbol (run_status_value (ro_status out)) (run_payload j (sj_adapter_name j) AD_DOWN out)#})"

definition memory_rows :: "memory_runs \<Rightarrow> domain_record multiset" where
  "memory_rows m = sum_list (map (\<lambda>(j, p, out). payload_rows j p out) (mr_payload_runs m)) +
     sum_list (map (\<lambda>(j, out). failure_rows j out) (mr_failure_runs m))"

section \<open>The contract\<close>

datatype store_call = PayloadCall source_job "json_object adapter_payload" run_outcome | FailureCall source_job run_outcome

text \<open>The calls of a run of the worker, one after the other, on a store given by its two operations.\<close>

definition store_calls ::
  "(source_job \<Rightarrow> json_object adapter_payload \<Rightarrow> run_outcome \<Rightarrow> 's \<Rightarrow> 's result) \<Rightarrow> (source_job \<Rightarrow> run_outcome \<Rightarrow> 's \<Rightarrow> 's result) \<Rightarrow>
     's \<Rightarrow> store_call list \<Rightarrow> 's result" where
  "store_calls store_run store_failed =
     foldM (\<lambda>s c. case c of PayloadCall j p out \<Rightarrow> store_run j p out s | FailureCall j out \<Rightarrow> store_failed j out s)"

fun call_rows :: "store_call \<Rightarrow> domain_record multiset" where
  "call_rows (PayloadCall j p out) = payload_rows j p out"
| "call_rows (FailureCall j out) = failure_rows j out"

locale run_store =
  fixes store_run :: "source_job \<Rightarrow> json_object adapter_payload \<Rightarrow> run_outcome \<Rightarrow> 's \<Rightarrow> 's result"
    and store_failed :: "source_job \<Rightarrow> run_outcome \<Rightarrow> 's \<Rightarrow> 's result"
    and rows :: "'s \<Rightarrow> domain_record multiset"
  assumes run_stored: "store_run j p out s = Inr s' \<Longrightarrow> rows s' = rows s + payload_rows j p out"
    and failed_stored: "store_failed j out s = Inr s' \<Longrightarrow> rows s' = rows s + failure_rows j out"
begin

lemma calls_stored: "store_calls store_run store_failed s calls = Inr s' \<Longrightarrow> rows s' = rows s + sum_list (map call_rows calls)"
proof (induction calls arbitrary: s)
  case (Cons c calls)
  then show ?case
    by (cases c) (auto simp: store_calls_def and_then_Inr run_stored failed_stored add.assoc)
qed (simp add: store_calls_def)

end

section \<open>Both stores keep it\<close>

interpretation memory: run_store memory_payload memory_failure memory_rows
  by unfold_locales (auto simp: memory_payload_def memory_failure_def memory_rows_def ac_simps)

lemma memory_total: "\<exists>m'. store_calls memory_payload memory_failure m calls = Inr m'"
proof (induction calls arbitrary: m)
  case (Cons c calls)
  then show ?case by (cases c) (simp_all add: store_calls_def memory_payload_def memory_failure_def)
qed (simp add: store_calls_def)

definition run_rows :: "('d \<Rightarrow> domain_record list) \<Rightarrow> ('c, 'z, 'e, 'a, 'd) tables \<Rightarrow> domain_record multiset" where
  "run_rows entries t = {#r \<in># mset (entries (tb_records t)). dm_record_type r \<in> {''source_health'', ''worker_run''}#}"

text \<open>A row that is added is the last of the log.\<close>

definition append_log :: "('c, 'z, 'e, 'a, 'd) session_api \<Rightarrow> ('d \<Rightarrow> domain_record list) \<Rightarrow> bool" where
  "append_log api entries \<longleftrightarrow> (\<forall>db r. entries (sa_add_record api db r) = entries db @ [r])"

lemma text_stripped:
  "strip (adapter_state_value s) = adapter_state_value s" "strip (run_status_value o') = run_status_value o'"
  "strip ''source_health'' = ''source_health''" "strip ''worker_run'' = ''worker_run''"
  by ((cases s; simp; code_simp), (cases o'; simp; code_simp), code_simp+)

lemma snapshot_type: "strip (payload_record_type j p) \<notin> {''source_health'', ''worker_run''}"
  by (cases "sj_kind j"; cases "ah_state (ap_health p) = AD_OK") (simp_all add: payload_record_type_def; code_simp)+

lemma add_safe_row:
  assumes "append_log api entries" "add_safe (sa_add_record api) ty symbol st payload db = Inr db'" "strip ty = ty" "strip st = st"
  shows "entries db' = entries db @ [row_of ty symbol st payload]"
  using assms by (auto simp: append_log_def add_safe_def add_record_def row_of_def fields_json_def and_then_Inr Let_def split: if_splits)

lemma add_record_row:
  assumes "append_log api entries" "add_record (sa_add_record api) item db = Inr db'"
  shows "entries db' = entries db @ [item\<lparr>dm_record_type := strip (dm_record_type item), dm_symbol := strip (dm_symbol item),
      dm_state := strip (dm_state item)\<rparr>]"
  using assms by (auto simp: append_log_def add_record_def Let_def split: if_splits)


lemma run_rows_append:
  assumes "entries (tb_records t') = entries (tb_records t) @ rs"
  shows "run_rows entries t' = run_rows entries t + {#r \<in># mset rs. dm_record_type r \<in> {''source_health'', ''worker_run''}#}"
  by (simp add: run_rows_def assms)

lemma add_run_records_rows:
  assumes "append_log api entries" "add_run_records (sa_add_record api) j p out payload db = Inr db'"
  shows "\<exists>r. entries db' = entries db @ [r, row_of ''source_health'' (record_symbol j (Some p)) (adapter_state_value (ah_state (ap_health p))) (health_payload j p out),
      row_of ''worker_run'' (record_symbol j (Some p)) (run_status_value (ro_status out)) (run_payload j (ap_name p) (ah_state (ap_health p)) out)] \<and>
    dm_record_type r \<notin> {''source_health'', ''worker_run''}"
proof -
  obtain db1 db2 where a: "add_safe (sa_add_record api) (payload_record_type j p) (record_symbol j (Some p)) (adapter_state_value (ah_state (ap_health p))) payload db = Inr db1"
    "add_safe (sa_add_record api) ''source_health'' (record_symbol j (Some p)) (adapter_state_value (ah_state (ap_health p))) (health_payload j p out) db1 = Inr db2"
    "add_safe (sa_add_record api) ''worker_run'' (record_symbol j (Some p)) (run_status_value (ro_status out))
      (run_payload j (ap_name p) (ah_state (ap_health p)) out) db2 = Inr db'"
    using assms(2) by (auto simp: add_run_records_def Let_def and_then_Inr)
  obtain safe where "json_safe_fields payload = Inr safe" using a(1) by (auto simp: add_safe_def and_then_Inr)
  then have "\<exists>r. entries db1 = entries db @ [r] \<and> dm_record_type r = strip (payload_record_type j p)"
    using a(1) add_record_row [OF assms(1)] by (fastforce simp: add_safe_def)
  then show ?thesis
    using add_safe_row [OF assms(1) a(2) text_stripped(3,1)] add_safe_row [OF assms(1) a(3) text_stripped(4,2)] snapshot_type [of j p] by auto
qed

lemma add_runtime_records_rows:
  assumes "append_log api entries" "add_runtime_records (sa_add_record api) j p out payload db = Inr db'"
  shows "\<exists>r. entries db' = entries db @ [r, row_of ''source_health'' (record_symbol j (Some p)) (adapter_state_value (ah_state (ap_health p))) (health_payload j p out),
      row_of ''worker_run'' (record_symbol j (Some p)) (run_status_value (ro_status out)) (run_payload j (ap_name p) (ah_state (ap_health p)) out)] \<and>
    dm_record_type r \<notin> {''source_health'', ''worker_run''}"
proof (rule add_run_records_rows [OF assms(1), of j p out payload])
  show "add_run_records (sa_add_record api) j p out payload db = Inr db'"
    using assms(2) by (auto simp: add_run_records_def add_runtime_records_def add_safe_def Let_def and_then_Inr)
qed

lemma payload_rows_of:
  assumes "entries db' = entries db @ [r, row_of ''source_health'' (record_symbol j (Some p)) (adapter_state_value (ah_state (ap_health p))) (health_payload j p out),
      row_of ''worker_run'' (record_symbol j (Some p)) (run_status_value (ro_status out)) (run_payload j (ap_name p) (ah_state (ap_health p)) out)]"
    "dm_record_type r \<notin> {''source_health'', ''worker_run''}" "tb_records t = db" "tb_records t' = db'"
  shows "run_rows entries t' = run_rows entries t + payload_rows j p out"
  using run_rows_append [of entries t' t] assms by (simp add: payload_rows_def Let_def row_of_def add_mset_commute)

lemma persist_structure_records: "persist_structure api d t = Inr (t', extra) \<Longrightarrow> tb_records t' = tb_records t"
  by (auto simp: persist_structure_def Let_def and_then_Inr case_prod_beta split: if_splits)

lemma persist_m15_records: "persist_m15_confirmation api p t = Inr (t', extra) \<Longrightarrow> tb_records t' = tb_records t"
  by (auto simp: persist_m15_confirmation_def persist_reclaim_from_confirmation_def Let_def and_then_Inr
      split: prod.splits if_splits option.splits)

lemma store_payload_rows:
  assumes "append_log api entries" "store_payload api j p out t = Inr t'"
  shows "run_rows entries t' = run_rows entries t + payload_rows j p out"
proof -
  have "\<exists>payload. add_run_records (sa_add_record api) j p out payload (tb_records t) = Inr (tb_records t')"
    using assms(2) by (auto simp: store_payload_def and_then_Inr persist_structure_records split: if_splits)
  then show ?thesis using add_run_records_rows [OF assms(1)] payload_rows_of [of entries "tb_records t'" "tb_records t"] by blast
qed

lemma atomic_payload_rows:
  assumes "append_log api entries" "atomic_store_payload api j p out t = Inr t'"
  shows "run_rows entries t' = run_rows entries t + payload_rows j p out"
proof (cases "store_payload api j p out t = Inr t'")
  case False
  then have "\<exists>payload. add_runtime_records (sa_add_record api) j p out payload (tb_records t) = Inr (tb_records t')"
    using assms(2) by (auto simp: atomic_store_payload_def and_then_Inr persist_m15_records split: if_splits)
  then show ?thesis using add_runtime_records_rows [OF assms(1)] payload_rows_of [of entries "tb_records t'" "tb_records t"] by blast
qed (rule store_payload_rows [OF assms(1)])

lemma failure_rows_stored:
  assumes "append_log api entries" "store_failure api j out t = Inr t'"
  shows "run_rows entries t' = run_rows entries t + failure_rows j out"
proof -
  obtain db1 db2 where a: "add_safe (sa_add_record api) ''source_health'' (record_symbol j None) (adapter_state_value AD_DOWN) (failure_health j out)
      (tb_records t) = Inr db1"
    "add_safe (sa_add_record api) ''worker_run'' (record_symbol j None) (run_status_value (ro_status out)) (run_payload j (sj_adapter_name j) AD_DOWN out) db1 = Inr db2"
    "tb_records t' = db2"
    using assms(2) by (auto simp: store_failure_def failure_health_def Let_def and_then_Inr)
  have "entries (tb_records t') = entries (tb_records t) @ [row_of ''source_health'' (record_symbol j None) (adapter_state_value AD_DOWN) (failure_health j out),
      row_of ''worker_run'' (record_symbol j None) (run_status_value (ro_status out)) (run_payload j (sj_adapter_name j) AD_DOWN out)]"
    using add_safe_row [OF assms(1) a(1) text_stripped(3,1)] add_safe_row [OF assms(1) a(2) text_stripped(4,2)] a(3) by simp
  from run_rows_append [of entries t' t, OF this] show ?thesis by (simp add: failure_rows_def Let_def row_of_def add_mset_commute)
qed

lemma sql_run_store: "append_log api entries \<Longrightarrow> run_store (atomic_store_payload api) (store_failure api) (run_rows entries)"
  by unfold_locales (auto intro: atomic_payload_rows failure_rows_stored)


section \<open>The refinement\<close>

text \<open>
  C12: the store of the worker refines the in-memory store. Whatever payload and failure runs it accepts one after the other, in any mix of
  kinds, the health and run records its log gains are exactly those of the runs that the in-memory store holds
  after the same calls, none lost and none invented; structure, candle and reclaim tables do not matter for them.
\<close>

theorem sql_store_refines_memory:
  assumes "append_log api entries" "store_calls (atomic_store_payload api) (store_failure api) t calls = Inr t'"
  shows "\<exists>m. store_calls memory_payload memory_failure no_runs calls = Inr m \<and> run_rows entries t' = run_rows entries t + memory_rows m"
proof -
  obtain m where m: "store_calls memory_payload memory_failure no_runs calls = Inr m" using memory_total by blast
  have "memory_rows no_runs = {#}" by (simp add: memory_rows_def no_runs_def)
  then show ?thesis
    using m memory.calls_stored [OF m] run_store.calls_stored [OF sql_run_store [OF assms(1)] assms(2)] by simp
qed

lemma memory_session_log: "append_log memory_session (\<lambda>db. db)"
  by (simp add: append_log_def memory_session_def)

lemma store_failure_returns:
  assumes "strip (sj_name j) \<noteq> ''''" "aware (ro_started_at out)" "aware (ro_finished_at out)" "sa_commit api = Inr ()"
  shows "\<exists>t'. store_failure api j out t = Inr t'"
proof -
  let ?add = "add_safe (sa_add_record api)" and ?s = "record_symbol j None"
  have "succeeds (?add ''source_health'' ?s (adapter_state_value AD_DOWN) (failure_health j out) db)"
    "succeeds (?add ''worker_run'' ?s (run_status_value (ro_status out)) (run_payload j (sj_adapter_name j) AD_DOWN out) db)" for db
    using assms(1-3) record_symbol_text [OF assms(1), of None] run_storable [of j _ AD_DOWN out]
    by (simp_all add: add_safe_succeeds failure_health_def del: adapter_state_value.simps)
  then obtain f g where "?add ''source_health'' ?s (adapter_state_value AD_DOWN) (failure_health j out) db = Inr (f db)"
    "?add ''worker_run'' ?s (run_status_value (ro_status out)) (run_payload j (sj_adapter_name j) AD_DOWN out) db = Inr (g db)" for db
    unfolding succeeds_iff by metis
  then show ?thesis using assms(4) by (simp add: store_failure_def failure_health_def Let_def del: adapter_state_value.simps)
qed

theorem sql_store_refines_memory_witness:
  "\<exists>t m. store_calls (atomic_store_payload memory_session) (store_failure memory_session) no_tables
      [FailureCall sample_structure_job (sample_outcome FAILED), FailureCall sample_structure_job (sample_outcome TIMED_OUT)] = Inr t \<and>
    run_rows (\<lambda>db. db) t = memory_rows m \<and> size (memory_rows m) = 4"
proof -
  let ?calls = "[FailureCall sample_structure_job (sample_outcome FAILED), FailureCall sample_structure_job (sample_outcome TIMED_OUT)]"
  have "\<exists>t'. store_failure memory_session sample_structure_job (sample_outcome s) t = Inr t'" for s t
    using store_failure_returns [OF short_store_premises(5) sample_run_aware short_store_premises(7)] .
  then obtain t1 t2 where "store_failure memory_session sample_structure_job (sample_outcome FAILED) no_tables = Inr t1"
    "store_failure memory_session sample_structure_job (sample_outcome TIMED_OUT) t1 = Inr t2" by metis
  then have t: "store_calls (atomic_store_payload memory_session) (store_failure memory_session) no_tables ?calls = Inr t2"
    by (simp add: store_calls_def)
  have "run_rows (\<lambda>db. db) no_tables = {#}" by (simp add: run_rows_def no_tables_def)
  moreover have "size (memory_rows m) = 4" if "store_calls memory_payload memory_failure no_runs ?calls = Inr m" for m
    using that by (auto simp: store_calls_def memory_failure_def no_runs_def memory_rows_def failure_rows_def Let_def)
  ultimately show ?thesis using sql_store_refines_memory [OF memory_session_log t] t by auto
qed

end
