(* ===== verification/Spec2Isabelle.thy ===== *)
theory Spec2Isabelle
  imports Backtest Job_Registry Signal_Store Operations Notifications Run_Log
begin

text \<open>
  \<^bold>\<open>Verification of the signal pipeline and its runtime.\<close>

  The program watches crypto markets for short setups and reports, with reasons, whether one is
  ready; it places no orders. A worker (\<^verbatim>\<open>app/worker.py\<close>) builds its jobs from the settings (\<^verbatim>\<open>app/core/config.py\<close>,
  \<^verbatim>\<open>app/runtime/job_registry.py\<close>) and a supervisor runs them: each fetches from an exchange or a discovery service through an
  adapter (\<^verbatim>\<open>app/adapters\<close>), and the runtime store persists what it got (\<^verbatim>\<open>app/runtime/store.py\<close>). Stored candles of a symbol
  (\<^verbatim>\<open>app/candles\<close>) are turned into support zones and structure events (\<^verbatim>\<open>app/structure\<close>); after a confirmed break the
  reclaim engine (\<^verbatim>\<open>app/setups\<close>) decides whether the break holds; providers (\<^verbatim>\<open>app/signals/htf_provider.py\<close>, \<^verbatim>\<open>reclaim_provider.py\<close>)
  hand the stored evidence to the signal assembly (\<^verbatim>\<open>app/signals/service.py\<close>), which also checks the execution venue and the
  reference exchanges (\<^verbatim>\<open>app/execution\<close>), builds a plan (\<^verbatim>\<open>app/planning\<close>), opens its lifecycle (\<^verbatim>\<open>app/lifecycle\<close>) and stores the
  report (\<^verbatim>\<open>app/signals/store.py\<close>). Backtest, overview, notifications and operations read what is there.

  \<^bold>\<open>Theories.\<close>
  \<^item> \<open>Prelude\<close>: exceptions as values (\<open>error\<close>, \<open>'a result\<close>, \<open>and_then\<close>), loops that may raise
    (\<open>foldM\<close>, \<open>traverse\<close>) with their invariant rules, and the text and list functions the code uses.
  \<^item> \<open>Rounding\<close>, \<open>PyDecimal\<close>, \<open>PyFloat\<close>: \<open>decimal.Decimal\<close> in the default context (28 digits, half even)
    and binary64 floats, both as exact rationals rounded once per operation. \<open>PyTime\<close>, \<open>Text_Formats\<close>, \<open>Json_Values\<close>, \<open>Sha256\<close>:
    aware and naive datetimes, the texts of numbers and times in both directions, JSON, the hash behind the identifiers.
  \<^item> \<open>Candles\<close>, \<open>Samples\<close>, \<open>Serialization\<close>: candles, batches, freshness, payloads; sample series for the witnesses.
  \<^item> \<open>Htf_Models\<close>, \<open>Support_Zones\<close>, \<open>Structure_Events\<close>, \<open>Htf_Engine\<close>: the higher-timeframe analysis.
    \<open>zone_step\<close> and \<open>zone_run\<close> are the state machine that the scan of \<open>build_structure_events\<close> implements.
  \<^item> \<open>Reclaim_Models\<close>, \<open>Reclaim_Engine\<close>, \<open>Reclaim_Total\<close>: the analysis after a break; one definition per
    early return of \<open>analyze_reclaim_attempt\<close>. \<open>Reclaim_Runtime\<close>: which break of a stored analysis it is applied to.
  \<^item> \<open>Planning\<close>, \<open>Lifecycle\<close>: structure snapshot, classification, flow, plan, and the life of a plan as the
    state machine \<open>lifecycle_step\<close>. \<open>Backtest\<close>: replay of a plan on historical bars, and its metrics.
  \<^item> \<open>Market_Models\<close>, \<open>Consensus\<close>: validated market records, health of sources, LBank validation and the
    cross-exchange consensus.
  \<^item> \<open>Signals\<close>, \<open>Signal_Assembly\<close>, \<open>Providers\<close>, \<open>Signal_Store\<close>: gates, assembly, the way stored evidence reaches it and
    the way its report is stored.
  \<^item> \<open>Parsers\<close>, \<open>Adapter_Interface\<close>, \<open>Source_Cache\<close>, \<open>Benchmark_Adapters\<close>, \<open>Kline_Adapter\<close>, \<open>Lbank_Adapter\<close>, \<open>Discovery_Adapters\<close>:
    the adapters, from the untyped JSON of a service to a validated snapshot and its payload. The answers of the
    network are arguments.
  \<^item> \<open>Runtime_Models\<close>, \<open>Scheduler\<close>: jobs, outcomes, telemetry, retention, the selection and run of jobs, the cycle and
    the loop of the supervisor (a \<open>partial_function\<close> over the stream of turns). \<open>Job_Registry\<close>: settings, job factory, registry, start
    of the worker.
  \<^item> \<open>Row_Store\<close>, \<open>Candle_Repository\<close>, \<open>Structure_Repository\<close>, \<open>Reclaim_Repository\<close>: rows of the tables, the merge logic and queries of the
    repositories. \<open>Json_Safe\<close>, \<open>Runtime_Store\<close>, \<open>Run_Log\<close>: the records of a run and the transactions of the runtime stores.
  \<^item> \<open>Overview\<close>, \<open>Operations\<close>, \<open>Notifications\<close>: watchlist, overview providers, health, audit, backup manifests and messages.

  \<^bold>\<open>Interfaces.\<close> The locale \<open>rounding\<close> states what a rounding to nearest guarantees (monotone, odd, idempotent); it is
  interpreted as \<open>dec\<close>, \<open>f64\<close> and \<open>g6\<close> (the six digits of a message), and every bound on scores, ratios, plans and printed prices rests on
  those facts. The adapters share the contract of a source in \<open>Adapter_Interface\<close>, the repositories that of an upsert table in
  \<open>Row_Store\<close>, the runtime stores \<open>run_store\<close> in \<open>Run_Log\<close>; each is interpreted on the definitions that model the code.

  \<^bold>\<open>What is shown.\<close>
  \<^item> Structure: clusters partition the pivots, zones are ranked and confirmed only by closed candles; the events of a zone follow a
    grammar without look-ahead; a timeframe is damaged exactly when its primary zone is broken and not closed above since.
  \<^item> Reclaim: a short is cancelled exactly by a run of closes above the zone, and a qualified short has its
    rejection and trigger candles; the record is coherent.
  \<^item> Execution: consensus confirms exactly under its five conditions and counts only distinct, mapped and
    healthy sources.
  \<^item> Assembly: \<open>SHORT_READY\<close> holds exactly when all conditions on the inputs hold; all gates are listed in
    order; with provider evidence a ready short rests on confirmed Daily and 4H breaks and a qualified attempt; the report is stored as two
    agreeing records.
  \<^item> Plans, lifecycles, backtest: bounds of a ready plan and of its message; invariants of any sequence of lifecycle
    operations; the replay loop equals a first-touch specification.
  \<^item> Adapters: snapshots quote the best prices of the answer and only of the requested symbol; delivered candles are exactly the closed ones
    and survive their payload; the cache refines a log of all stores, the request budget is exact.
  \<^item> Runtime: no job overlaps itself however passes and ends interleave; runs never raise; the supervisor ends exactly on its
    stop event; telemetry is a function of history; accepted settings start the worker.
  \<^item> Storage: rows round-trip, storing is idempotent although columns round, a structure payload of market data is stored without an
    exception, the SQL store refines the in-memory one.
  \<^item> Overview and operations: the database overview equals that of the objects and loses no record; a backup manifest
    describes exactly its files.
  \<^item> Totality: zone derivation, structure analysis, reclaim analysis, consensus and assembly return a result
    on market data. The market range (\<open>market_candle\<close>: prices from \<open>10\<^sup>-\<^sup>1\<^sup>0\<close> to \<open>10\<^sup>1\<^sup>0\<close>, volumes zero or from \<open>10\<^sup>-\<^sup>8\<close>
    to \<open>10\<^sup>1\<^sup>2\<close>) is where no quantization exceeds 28 digits; it covers every listed market with a margin.
    All other loops are structural recursions over finite sequences, so there is no fuel.

  \<^bold>\<open>Modelling conventions.\<close> Arguments have the types of their annotations, so branches that test for other
  types (\<open>must be decimal-compatible\<close>, \<open>must be an integer\<close>) do not occur. Non-finite Decimals and floats do
  occur (\<open>raw_decimal\<close>, \<open>pyfloat\<close>) wherever a value enters the program. Text is ASCII. The sign of zero and
  the exponent limits of Decimal beyond underflow are not represented. Time zones are fixed offsets. A
  default argument (\<open>rules or Rules()\<close>) is passed explicitly; the defaults are the \<open>default_\<dots>\<close> definitions.
  The database is a record of operations (\<open>session_api\<close>); what the theorems need of it are the named hypotheses \<open>sql_table\<close> (a saved row is
  fetched, other rows are kept), \<open>candle_columns\<close> and its likes (a numeric column rounds to its scale), \<open>keyed\<close>, \<open>append_log\<close> and \<open>grouped\<close>
  (a grouped count counts). Each has an instance in a witness. A transaction that raises leaves the tables as they were.

  \<^bold>\<open>Not modelled.\<close> The HTTP client and the database engine, which are third-party code behind the arguments above; migrations; the
  FastAPI routes (\<^verbatim>\<open>app/main.py\<close>, \<^verbatim>\<open>app/api\<close>), which call modelled functions; reading settings from the environment; signal handlers and log
  lines, which are not state; the writing of a manifest file and the connections of the two health probes; and
  \<open>input_from_watchlist\<close>, which turns an arbitrary value into a float.
\<close>

end
